(* ===== verification/Prelude.thy ===== *)
theory Prelude
  imports Main "HOL-Library.Word"
begin

text \<open>
  Shared vocabulary of the development: the names of the machine types, the fact
  collections the components add to, and generic lemmas on lists, options and words that no
  component owns.
\<close>

section \<open>Machine types\<close>

text \<open>
  The controller is a 32-bit Xtensa core: \<open>int\<close>, \<open>long\<close> and \<open>size_t\<close> are 32 bits wide, a
  plain \<open>char\<close> is an unsigned byte.  Unsigned quantities that can wrap are words; signed
  ones are integers kept in the 32-bit range by the operations that produce them.
\<close>

type_synonym u8 = "8 word"
type_synonym u16 = "16 word"
type_synonym u32 = "32 word"

text \<open>A \<open>char\<close> array is the list of its bytes; its length is the \<open>sizeof\<close> of the array.\<close>

type_synonym bytes = "char list"

abbreviation nul :: char where
  "nul \<equiv> CHR 0x00"

abbreviation "CR \<equiv> CHR 0x0D"
abbreviation "LF \<equiv> CHR 0x0A"

definition int32_min :: int where
  "int32_min = - 2147483648"

definition int32_max :: int where
  "int32_max = 2147483647"

definition in_int32 :: "int \<Rightarrow> bool" where
  "in_int32 i \<longleftrightarrow> int32_min \<le> i \<and> i \<le> int32_max"

lemma in_int32_iff: "in_int32 i \<longleftrightarrow> - 2147483648 \<le> i \<and> i \<le> 2147483647"
  by (simp add: in_int32_def int32_min_def int32_max_def)

section \<open>Fact collections\<close>

named_theorems str_simps \<open>equations of the string library\<close>
named_theorems wf_rules \<open>operations that keep a component's invariant\<close>
named_theorems frame_simps \<open>state components an operation leaves alone\<close>

section \<open>Lists\<close>

lemma takeWhile_all: "(\<And>x. x \<in> set xs \<Longrightarrow> P x) \<Longrightarrow> takeWhile P xs = xs"
  by (simp add: takeWhile_eq_all_conv)

lemma takeWhile_append_stop: "(\<And>x. x \<in> set xs \<Longrightarrow> P x) \<Longrightarrow> \<not> P y \<Longrightarrow> takeWhile P (xs @ y # ys) = xs"
  by (induction xs) auto

lemma dropWhile_stop: "xs = [] \<or> \<not> P (hd xs) \<Longrightarrow> dropWhile P xs = xs"
  by (cases xs) auto

lemma take_eq_append: "take (length ys) xs = ys \<Longrightarrow> xs = ys @ drop (length ys) xs"
  by (metis append_take_drop_id)

lemma take_length_append [simp]: "take (length xs) (xs @ ys) = xs"
  by simp

lemma nth_take_drop: "i < n \<Longrightarrow> m + n \<le> length xs \<Longrightarrow> take n (drop m xs) ! i = xs ! (m + i)"
  by simp

text \<open>Overwriting a block of a list, the effect of \<open>memcpy\<close> into an array.\<close>

definition overwrite :: "'a list \<Rightarrow> nat \<Rightarrow> 'a list \<Rightarrow> 'a list" where
  "overwrite xs i ys = take i xs @ ys @ drop (i + length ys) xs"

lemma length_overwrite [simp]: "i + length ys \<le> length xs \<Longrightarrow> length (overwrite xs i ys) = length xs"
  by (simp add: overwrite_def)

lemma overwrite_nth:
  assumes "i + length ys \<le> length xs" and "k < length xs"
  shows "overwrite xs i ys ! k = (if i \<le> k \<and> k < i + length ys then ys ! (k - i) else xs ! k)"
proof -
  have i: "length (take i xs) = i" using assms(1) by simp
  show ?thesis
    using assms i by (auto simp: overwrite_def nth_append min_def)
qed

text \<open>Reading back the block, and reading a block the write does not touch.\<close>

lemma overwrite_same: "i + length ys \<le> length xs \<Longrightarrow> take (length ys) (drop i (overwrite xs i ys)) = ys"
  by (simp add: overwrite_def)

lemma overwrite_other:
  assumes "i + length ys \<le> length xs" and "j + n \<le> length xs" and "j + n \<le> i \<or> i + length ys \<le> j"
  shows "take n (drop j (overwrite xs i ys)) = take n (drop j xs)"
proof (rule nth_equalityI)
  show "length (take n (drop j (overwrite xs i ys))) = length (take n (drop j xs))"
    using assms by simp
next
  fix k assume "k < length (take n (drop j (overwrite xs i ys)))"
  then have k: "k < n" by simp
  have "overwrite xs i ys ! (j + k) = xs ! (j + k)"
    using assms k by (subst overwrite_nth) auto
  then show "take n (drop j (overwrite xs i ys)) ! k = take n (drop j xs) ! k"
    using assms k by simp
qed

text \<open>Removing an element by moving the last one into its place.\<close>

definition swap_remove :: "nat \<Rightarrow> 'a list \<Rightarrow> 'a list" where
  "swap_remove i xs = (butlast xs)[i := last xs]"

lemma length_swap_remove [simp]: "length (swap_remove i xs) = length xs - 1"
  by (simp add: swap_remove_def)

lemma map_swap_remove: "xs \<noteq> [] \<Longrightarrow> map f (swap_remove i xs) = swap_remove i (map f xs)"
  by (simp add: swap_remove_def map_update map_butlast last_map)

lemma swap_remove_distinct:
  assumes "distinct xs" "i < length xs"
  shows "distinct (swap_remove i xs) \<and> set (swap_remove i xs) = set xs - {xs ! i}"
proof -
  obtain ys l where xs: "xs = ys @ [l]" using assms(2) by (cases xs rule: rev_cases) auto
  show ?thesis
  proof (cases "i < length ys")
    case True
    then have "xs ! i = ys ! i" "ys ! i \<noteq> l" using assms(1) xs by (auto simp: nth_append)
    moreover have "distinct (ys[i := l])" using assms(1) xs by (auto intro: distinct_list_update)
    ultimately show ?thesis
      using True assms(1) xs by (auto simp: swap_remove_def set_update_distinct)
  next
    case False
    then have "i = length ys" using assms(2) xs by simp
    then show ?thesis using assms(1) xs by (auto simp: swap_remove_def list_update_beyond)
  qed
qed

lemma fold_ignore [simp]: "fold (\<lambda>_ y. y) xs y = y"
  by (induction xs) simp_all

section \<open>Options\<close>

text \<open>
  An \<open>else if\<close> chain of the source is a chain of partial handlers: the first that takes the
  case decides.
\<close>

fun first_some :: "'a option list \<Rightarrow> 'a option" where
  "first_some [] = None"
| "first_some (Some x # _) = Some x"
| "first_some (None # xs) = first_some xs"

lemma first_some_in: "first_some xs = Some x \<Longrightarrow> Some x \<in> set xs"
  by (induction xs rule: first_some.induct) auto

section \<open>Words\<close>

lemma unat_u32_less: "unat (w :: u32) < 4294967296"
  using unsigned_less [where 'b = 32 and 'a = nat, of w] by simp

lemma unat_u16_less: "unat (w :: u16) < 65536"
  using unsigned_less [where 'b = 16 and 'a = nat, of w] by simp

lemma unat_u32_add:
  "unat (a :: u32) + unat b < 4294967296 \<Longrightarrow> unat (a + b) = unat a + unat b"
  by (simp add: unat_word_ariths)

section \<open>Components in steps\<close>

text \<open>
  A component that takes inputs one after the other: what every step keeps of a state that is in
  order, and the abstract component it behaves like.
\<close>

locale invariant_steps =
  fixes step :: "'i \<Rightarrow> 's \<Rightarrow> 's" and ok :: "'s \<Rightarrow> bool" and fit :: "'i \<Rightarrow> bool"
  assumes keeps: "ok s \<Longrightarrow> fit i \<Longrightarrow> ok (step i s)"
begin

lemma run_keeps: "ok s \<Longrightarrow> list_all fit ins \<Longrightarrow> ok (fold step ins s)"
  by (induction ins arbitrary: s) (auto simp: keeps)

end

locale simulation = invariant_steps step ok fit
  for step :: "'i \<Rightarrow> 's \<Rightarrow> 's" and ok :: "'s \<Rightarrow> bool" and fit :: "'i \<Rightarrow> bool" +
  fixes view :: "'s \<Rightarrow> 'a" and spec :: "'i \<Rightarrow> 'a \<Rightarrow> 'a"
  assumes simulates: "ok s \<Longrightarrow> fit i \<Longrightarrow> view (step i s) = spec i (view s)"
begin

lemma run_simulates: "ok s \<Longrightarrow> list_all fit ins \<Longrightarrow> view (fold step ins s) = fold spec ins (view s)"
  by (induction ins arbitrary: s) (auto simp: keeps simulates)

end

section \<open>Readers of a stream\<close>

text \<open>A series of reads, each with the number of bytes asked for: the answers and the bytes given.\<close>

fun read_series :: "(nat \<Rightarrow> 's \<Rightarrow> ('a \<times> bytes \<times> 's) option) \<Rightarrow> nat list \<Rightarrow> 's \<Rightarrow> (('a \<times> bytes) list \<times> 's) option" where
  "read_series rd [] s = Some ([], s)"
| "read_series rd (n # ns) s =
     (case rd n s of
        None \<Rightarrow> None
      | Some (r, bs, t) \<Rightarrow> map_option (\<lambda>(rs, u). ((r, bs) # rs, u)) (read_series rd ns t))"

text \<open>
  A reader gives the bytes of a stream in order: each read ends and takes bytes from its front, and
  its answer fits what was asked for.
\<close>

locale stream_reader =
  fixes rd :: "nat \<Rightarrow> 's \<Rightarrow> ('a \<times> bytes \<times> 's) option" and rest :: "'s \<Rightarrow> bytes" and ok :: "'s \<Rightarrow> bool"
    and fits :: "nat \<Rightarrow> 'a \<times> bytes \<Rightarrow> bool"
  assumes front: "ok s \<Longrightarrow> \<exists>r bs t. rd n s = Some (r, bs, t) \<and> ok t \<and> rest s = bs @ rest t \<and> fits n (r, bs)"
begin

lemma series_in_order:
  "ok s \<Longrightarrow> \<exists>rs t. read_series rd ns s = Some (rs, t) \<and> ok t \<and> rest s = concat (map snd rs) @ rest t \<and> list_all2 fits ns rs"
proof (induction ns arbitrary: s)
  case Nil
  then show ?case by simp
next
  case (Cons n ns)
  obtain r bs t where r: "rd n s = Some (r, bs, t)" "ok t" "rest s = bs @ rest t" "fits n (r, bs)"
    using front [OF Cons.prems] by blast
  obtain rs u where "read_series rd ns t = Some (rs, u)" "ok u" "rest t = concat (map snd rs) @ rest u" "list_all2 fits ns rs"
    using Cons.IH [OF r(2)] by blast
  then show ?case using r by (intro exI [of _ "(r, bs) # rs"] exI [of _ u]) simp
qed

end

end
