(* ===== verification/Arduino_String.thy ===== *)
theory Arduino_String
  imports Prelude
begin

text \<open>
  The parts of the Arduino core's \<open>String\<close> class, of \<open>IPAddress\<close> and of the C string library
  that the firmware calls.  A \<open>String\<close> is its list of bytes; \<open>indexOf\<close> returns \<open>None\<close> where
  the library returns -1.  The searches go through the C string functions, so they stop at
  a NUL byte, as the library's do.
\<close>

section \<open>C strings\<close>

definition cstr :: "string \<Rightarrow> string" where
  "cstr s = takeWhile (\<lambda>c. c \<noteq> nul) s"

lemma cstr_id: "nul \<notin> set s \<Longrightarrow> cstr s = s"
  unfolding cstr_def by (rule takeWhile_all) auto

lemma nul_notin_cstr [simp]: "nul \<notin> set (cstr s)"
  unfolding cstr_def by (auto dest: set_takeWhileD)

lemma cstr_cstr [simp]: "cstr (cstr s) = cstr s"
  by (simp add: cstr_id)

lemma cstr_terminated: "nul \<notin> set s \<Longrightarrow> cstr (s @ nul # t) = s"
  unfolding cstr_def by (rule takeWhile_append_stop) auto

lemma cstr_Nil [simp]: "cstr [] = []"
  by (simp add: cstr_def)

lemma length_cstr_le: "length (cstr s) \<le> length s"
  by (simp add: cstr_def length_takeWhile_le)

text \<open>\<open>charAt\<close> and \<open>operator[]\<close> read NUL out of range.\<close>

definition char_at :: "string \<Rightarrow> nat \<Rightarrow> char" where
  "char_at s i = (if i < length s then s ! i else nul)"

section \<open>Searching\<close>

fun strstr :: "string \<Rightarrow> string \<Rightarrow> nat option" where
  "strstr [] p = (if p = [] then Some 0 else None)"
| "strstr (c # s) p =
     (if take (length p) (c # s) = p then Some 0 else map_option Suc (strstr s p))"

definition index_of :: "string \<Rightarrow> string \<Rightarrow> nat \<Rightarrow> nat option" where
  "index_of s p from =
     (if from < length s then map_option (\<lambda>k. from + k) (strstr (cstr (drop from s)) (cstr p))
      else None)"

definition contains :: "string \<Rightarrow> string \<Rightarrow> bool" where
  "contains s p \<longleftrightarrow> index_of s p 0 \<noteq> None"

lemma strstr_Some:
  "strstr s p = Some k \<Longrightarrow> take (length p) (drop k s) = p \<and> k + length p \<le> length s"
proof (induction s p arbitrary: k rule: strstr.induct)
  case (2 c s p)
  show ?case
  proof (cases "take (length p) (c # s) = p")
    case True
    then have "length p \<le> Suc (length s)" by (metis length_take length_Cons min.bounded_iff order_refl)
    with True 2 show ?thesis by auto
  next
    case False
    with 2 show ?thesis by auto
  qed
qed (auto split: if_splits)

lemma strstr_first:
  "strstr s p = Some k \<Longrightarrow> j < k \<Longrightarrow> take (length p) (drop j s) \<noteq> p"
proof (induction s p arbitrary: k j rule: strstr.induct)
  case (2 c s p)
  then show ?case by (cases j) (auto split: if_splits)
qed (auto split: if_splits)

lemma strstr_None:
  "strstr s p = None \<Longrightarrow> take (length p) (drop j s) \<noteq> p"
proof (induction s p arbitrary: j rule: strstr.induct)
  case (2 c s p)
  then show ?case by (cases j) (auto split: if_splits)
qed (auto split: if_splits)

text \<open>The characteristic property of the search, used to establish a position.\<close>

lemma strstr_eqI:
  assumes "take (length p) (drop k s) = p" and "\<And>j. j < k \<Longrightarrow> take (length p) (drop j s) \<noteq> p"
  shows "strstr s p = Some k"
proof (cases "strstr s p")
  case None
  with assms(1) strstr_None show ?thesis by blast
next
  case (Some m)
  then have m: "take (length p) (drop m s) = p" using strstr_Some by blast
  have "\<not> m < k" using assms(2) m by blast
  moreover have "\<not> k < m" using strstr_first [OF Some] assms(1) by blast
  ultimately show ?thesis using Some by simp
qed

lemma strstr_skip: "c \<notin> set s \<Longrightarrow> strstr (s @ t) (c # p) = map_option ((+) (length s)) (strstr t (c # p))"
proof (induction s)
  case Nil
  then show ?case by (simp add: option.map_ident)
next
  case (Cons a s)
  then have "c \<noteq> a" and "c \<notin> set s" by auto
  then show ?case using Cons.IH by (auto simp: option.map_comp comp_def)
qed

lemma strstr_char_notin: "c \<notin> set s \<Longrightarrow> strstr s (c # p) = None"
  by (induction s) auto

lemma strstr_char_None_iff: "strstr s [c] = None \<longleftrightarrow> c \<notin> set s"
  by (induction s) auto

lemma index_of_Some_le: "index_of s p from = Some k \<Longrightarrow> from \<le> k \<and> k + length (cstr p) \<le> length s"
proof -
  assume "index_of s p from = Some k"
  then obtain j where j: "strstr (cstr (drop from s)) (cstr p) = Some j" "k = from + j" "from < length s"
    by (auto simp: index_of_def split: if_splits)
  then have "j + length (cstr p) \<le> length (cstr (drop from s))"
    using strstr_Some by blast
  then have "j + length (cstr p) \<le> length s - from"
    using length_cstr_le [of "drop from s"] by simp
  with j show ?thesis by simp
qed

lemma index_of_0: "nul \<notin> set s \<Longrightarrow> nul \<notin> set p \<Longrightarrow> p \<noteq> [] \<Longrightarrow> index_of s p 0 = strstr s p"
proof -
  assume "nul \<notin> set s" "nul \<notin> set p" "p \<noteq> []"
  moreover have "(+) (0 :: nat) = id" by auto
  ultimately show ?thesis by (cases s) (simp_all add: index_of_def cstr_id option.map_id)
qed

lemma index_of_prefix:
  "nul \<notin> set s \<Longrightarrow> nul \<notin> set p \<Longrightarrow> p \<noteq> [] \<Longrightarrow> index_of s p 0 = Some 0 \<longleftrightarrow> take (length p) s = p"
  by (cases s) (auto simp: index_of_0)

lemma index_of_from:
  "nul \<notin> set s \<Longrightarrow> nul \<notin> set p \<Longrightarrow> index_of s p b =
     (if b < length s then map_option ((+) b) (strstr (drop b s) p) else None)"
proof -
  assume n: "nul \<notin> set s" "nul \<notin> set p"
  then have "nul \<notin> set (drop b s)" by (auto dest: in_set_dropD)
  then show ?thesis using n by (simp add: index_of_def cstr_id)
qed

section \<open>Cutting and rewriting\<close>

definition npos :: nat where
  \<comment> \<open>-1 passed as an unsigned index\<close>
  "npos = 4294967295"

definition substring :: "string \<Rightarrow> nat \<Rightarrow> nat \<Rightarrow> string" where
  "substring s left right =
     (let l = min left right; r = max left right in
      if length s \<le> l then [] else take (min r (length s) - l) (drop l s))"

definition substring_from :: "string \<Rightarrow> nat \<Rightarrow> string" where
  "substring_from s left = substring s left (length s)"

definition remove_at :: "string \<Rightarrow> nat \<Rightarrow> nat \<Rightarrow> string" where
  "remove_at s i n = (if length s \<le> i then s else take i s @ drop (i + n) s)"

lemma substring_from_drop [str_simps]: "substring_from s l = drop l s"
  by (auto simp: substring_from_def substring_def Let_def)

lemma substring_le [str_simps]: "l \<le> r \<Longrightarrow> r \<le> length s \<Longrightarrow> substring s l r = take (r - l) (drop l s)"
  by (auto simp: substring_def Let_def)

lemma substring_0 [str_simps]: "substring s 0 n = take n s"
  by (cases "n \<le> length s") (auto simp: substring_def Let_def)

lemma remove_at_0 [str_simps]: "remove_at s 0 n = drop n s"
  by (cases s) (auto simp: remove_at_def)

function replace_all :: "string \<Rightarrow> string \<Rightarrow> string \<Rightarrow> string" where
  "replace_all s p r =
     (if p = [] then s
      else case s of
        [] \<Rightarrow> []
      | c # t \<Rightarrow> if take (length p) s = p then r @ replace_all (drop (length p) s) p r
                 else c # replace_all t p r)"
  by pat_completeness auto
termination
  by (relation "measure (\<lambda>(s, p, r). length s)") auto

declare replace_all.simps [simp del]

definition str_replace :: "string \<Rightarrow> string \<Rightarrow> string \<Rightarrow> string" where
  "str_replace s p r = replace_all (cstr s) p r @ drop (length (cstr s)) s"

lemma replace_all_notin: "c \<notin> set s \<Longrightarrow> replace_all s (c # p) r = s"
proof (induction s)
  case (Cons a s)
  then show ?case by (subst replace_all.simps) auto
qed (simp add: replace_all.simps)

lemma str_replace_notin: "c \<notin> set s \<Longrightarrow> str_replace s (c # p) r = s"
proof -
  assume "c \<notin> set s"
  then have "c \<notin> set (cstr s)" by (auto simp: cstr_def dest: set_takeWhileD)
  then show ?thesis
    by (simp add: str_replace_def replace_all_notin cstr_def)
       (metis dropWhile_eq_drop takeWhile_dropWhile_id)
qed

definition is_space :: "char \<Rightarrow> bool" where
  "is_space c \<longleftrightarrow> c = CHR '' '' \<or> (9 \<le> (of_char c :: nat) \<and> (of_char c :: nat) \<le> 13)"

definition trim :: "string \<Rightarrow> string" where
  "trim s = rev (dropWhile is_space (rev (dropWhile is_space s)))"

lemma trim_id: "(\<And>c. c \<in> set s \<Longrightarrow> \<not> is_space c) \<Longrightarrow> trim s = s"
proof -
  assume s: "\<And>c. c \<in> set s \<Longrightarrow> \<not> is_space c"
  have "dropWhile is_space s = s"
    using s by (cases s) auto
  moreover have "dropWhile is_space (rev s) = rev s"
    using s by (cases s rule: rev_cases) auto
  ultimately show ?thesis by (simp add: trim_def)
qed

definition lower_char :: "char \<Rightarrow> char" where
  "lower_char c = (let n = of_char c :: nat in if 65 \<le> n \<and> n \<le> 90 then char_of (n + 32) else c)"

definition to_lower :: "string \<Rightarrow> string" where
  "to_lower = map lower_char"

definition starts_with :: "string \<Rightarrow> string \<Rightarrow> bool" where
  "starts_with s p \<longleftrightarrow> take (length p) s = p"

definition ends_with :: "string \<Rightarrow> string \<Rightarrow> bool" where
  "ends_with s p \<longleftrightarrow> length p \<le> length s \<and> drop (length s - length p) s = p"

definition equals_ignore_case :: "string \<Rightarrow> string \<Rightarrow> bool" where
  "equals_ignore_case s t \<longleftrightarrow> to_lower s = to_lower t"

end
