(* ===== verification/Arduino_Numbers.thy ===== *)
theory Arduino_Numbers
  imports Arduino_String
begin

text \<open>
  Numbers as text: \<open>String(int)\<close>, \<open>%u\<close> and \<open>%x\<close> printing, the \<open>strtol\<close> family behind
  \<open>toInt\<close>, \<open>atoi\<close> and \<open>atol\<close>, and the dotted-quad reader \<open>IPAddress::fromString\<close> of the
  Arduino core.
\<close>

section \<open>Decimal printing\<close>

definition digit :: "nat \<Rightarrow> char" where
  "digit d = char_of (48 + d)"

fun dec :: "nat \<Rightarrow> string" where
  "dec n = (if n < 10 then [digit n] else dec (n div 10) @ [digit (n mod 10)])"

declare dec.simps [simp del]

definition dec_int :: "int \<Rightarrow> string" where
  "dec_int i = (if i < 0 then CHR ''-'' # dec (nat (- i)) else dec (nat i))"

definition is_digit :: "char \<Rightarrow> bool" where
  "is_digit c \<longleftrightarrow> 48 \<le> (of_char c :: nat) \<and> (of_char c :: nat) \<le> 57"

definition digit_val :: "char \<Rightarrow> nat" where
  "digit_val c = of_char c - 48"

lemma of_char_digit: "d < 10 \<Longrightarrow> of_char (digit d) = 48 + d"
  by (simp add: digit_def of_char_of)

lemma is_digit_digit [simp]: "d < 10 \<Longrightarrow> is_digit (digit d)"
  by (simp add: is_digit_def of_char_digit)

lemma digit_val_digit [simp]: "d < 10 \<Longrightarrow> digit_val (digit d) = d"
  by (simp add: digit_val_def of_char_digit)

lemma dec_nonempty [simp]: "dec n \<noteq> []"
  by (subst dec.simps) simp

lemma dec_digits: "c \<in> set (dec n) \<Longrightarrow> is_digit c"
proof (induction n rule: dec.induct)
  case (1 n)
  then show ?case
    by (cases "n < 10") (auto simp: dec.simps [of n])
qed

lemma digit_plain: "is_digit c \<Longrightarrow> c \<noteq> nul \<and> \<not> is_space c \<and> c \<noteq> CHR ''-'' \<and> c \<noteq> CHR ''+'' \<and> c \<noteq> CHR ''.''"
  by (auto simp: is_digit_def is_space_def)

lemma dec_plain: "c \<in> set (dec n) \<Longrightarrow> c \<noteq> nul \<and> \<not> is_space c \<and> c \<noteq> CHR ''-'' \<and> c \<noteq> CHR ''+'' \<and> c \<noteq> CHR ''.''"
  using dec_digits digit_plain by blast

section \<open>Decimal reading\<close>

definition digits_val :: "string \<Rightarrow> nat" where
  "digits_val ds = foldl (\<lambda>a c. 10 * a + digit_val c) 0 ds"

lemma digits_val_snoc [simp]: "digits_val (ds @ [c]) = 10 * digits_val ds + digit_val c"
  by (simp add: digits_val_def)

lemma digits_val_dec [simp]: "digits_val (dec n) = n"
proof (induction n rule: dec.induct)
  case (1 n)
  show ?case
  proof (cases "n < 10")
    case True
    then show ?thesis by (simp add: dec.simps [of n] digits_val_def)
  next
    case False
    then show ?thesis using 1 by (simp add: dec.simps [of n])
  qed
qed

text \<open>The sign and the digit run \<open>strtol\<close> and \<open>strtoul\<close> read after leading white space.\<close>

definition scan_number :: "string \<Rightarrow> bool \<times> nat" where
  "scan_number s =
     (let t = dropWhile is_space (cstr s);
          neg = (t \<noteq> [] \<and> hd t = CHR ''-'');
          u = (if t \<noteq> [] \<and> (hd t = CHR ''-'' \<or> hd t = CHR ''+'') then tl t else t)
      in (neg, digits_val (takeWhile is_digit u)))"

definition strtol :: "string \<Rightarrow> int" where
  \<comment> \<open>\<open>strtol(s, NULL, 10)\<close>: saturates at the ends of the 32-bit range\<close>
  "strtol s =
     (case scan_number s of (neg, n) \<Rightarrow>
        if neg then max int32_min (- int n) else min int32_max (int n))"

definition strtoul :: "string \<Rightarrow> nat" where
  \<comment> \<open>\<open>strtoul(s, NULL, 10)\<close>: \<open>ULONG_MAX\<close> on overflow, a minus sign negates modulo \<open>2^32\<close>\<close>
  "strtoul s =
     (case scan_number s of (neg, n) \<Rightarrow>
        if 4294967295 < n then 4294967295
        else if neg then (4294967296 - n) mod 4294967296 else n)"

definition to_int :: "string \<Rightarrow> int" where
  "to_int s = strtol s"

lemma scan_number_dec: "scan_number (dec n) = (False, n)"
proof -
  have c: "cstr (dec n) = dec n"
    by (rule cstr_id) (use dec_plain in blast)
  have d: "dropWhile is_space (dec n) = dec n"
    using dec_plain [of "hd (dec n)" n] by (intro dropWhile_stop) auto
  have t: "takeWhile is_digit (dec n) = dec n"
    by (rule takeWhile_all) (rule dec_digits)
  have h: "hd (dec n) \<noteq> CHR ''-'' \<and> hd (dec n) \<noteq> CHR ''+''"
    using dec_plain [of "hd (dec n)" n] by auto
  show ?thesis
    using h by (simp add: scan_number_def Let_def c d t)
qed

lemma scan_number_neg: "scan_number (CHR ''-'' # dec n) = (True, n)"
proof -
  have c: "cstr (CHR ''-'' # dec n) = CHR ''-'' # dec n"
    by (rule cstr_id) (use dec_plain in auto)
  have t: "takeWhile is_digit (dec n) = dec n"
    by (rule takeWhile_all) (rule dec_digits)
  show ?thesis
    by (simp add: scan_number_def Let_def is_space_def c t)
qed

lemma strtol_dec_int: "in_int32 i \<Longrightarrow> strtol (dec_int i) = i"
  by (auto simp: strtol_def dec_int_def scan_number_dec scan_number_neg in_int32_def
      int32_min_def int32_max_def)

lemma strtoul_dec: "n < 4294967296 \<Longrightarrow> strtoul (dec n) = n"
  by (simp add: strtoul_def scan_number_dec)

lemma in_int32_strtol [simp]: "in_int32 (strtol s)"
  by (auto simp: strtol_def in_int32_def int32_min_def int32_max_def split: prod.splits)

lemma strtoul_less: "strtoul s < 4294967296"
  by (auto simp: strtoul_def split: prod.splits)

section \<open>Dotted quads\<close>

text \<open>
  \<open>IPAddress::fromString\<close>: an accumulator, a count of the dots seen, and the four bytes,
  which keep what was written before an error.
\<close>

fun ip_scan :: "string \<Rightarrow> nat \<Rightarrow> nat \<Rightarrow> nat list \<Rightarrow> bool \<times> nat list" where
  "ip_scan [] acc dots ip = (if dots = 3 then (True, ip[3 := acc]) else (False, ip))"
| "ip_scan (c # s) acc dots ip =
     (if is_digit c then
        (let a = acc * 10 + digit_val c in if 255 < a then (False, ip) else ip_scan s a dots ip)
      else if c = CHR ''.'' then
        (if dots = 3 then (False, ip) else ip_scan s 0 (Suc dots) (ip[dots := acc]))
      else (False, ip))"

definition ip_from_string :: "string \<Rightarrow> bool \<times> nat list" where
  "ip_from_string s = ip_scan (cstr s) 0 0 [0, 0, 0, 0]"

fun dotted :: "nat list \<Rightarrow> string" where
  "dotted [] = []"
| "dotted [b] = dec b"
| "dotted (b # bs) = dec b @ CHR ''.'' # dotted bs"

lemma foldl_ge: "(a::nat) \<le> foldl (\<lambda>a c. 10 * a + digit_val c) a ds"
proof (induction ds arbitrary: a)
  case (Cons c ds)
  have "a \<le> 10 * a + digit_val c" by simp
  also have "\<dots> \<le> foldl (\<lambda>a c. 10 * a + digit_val c) (10 * a + digit_val c) ds" by (rule Cons.IH)
  finally show ?case by simp
qed simp

lemma ip_scan_digits:
  assumes "\<And>c. c \<in> set ds \<Longrightarrow> is_digit c"
    and "foldl (\<lambda>a c. 10 * a + digit_val c) acc ds \<le> 255"
  shows "ip_scan (ds @ t) acc dots ip = ip_scan t (foldl (\<lambda>a c. 10 * a + digit_val c) acc ds) dots ip"
  using assms
proof (induction ds arbitrary: acc)
  case (Cons c ds)
  have "10 * acc + digit_val c \<le> 255"
    using foldl_ge [of "10 * acc + digit_val c" ds] Cons.prems(2) by simp
  then show ?case using Cons by (simp add: Let_def mult.commute)
qed simp

lemma ip_scan_dec: "b \<le> 255 \<Longrightarrow> ip_scan (dec b @ t) 0 dots ip = ip_scan t b dots ip"
  using ip_scan_digits [of "dec b" 0 t dots ip] dec_digits digits_val_dec [of b]
  by (simp add: digits_val_def)

lemma nul_notin_dotted: "nul \<notin> set (dotted bs)"
  by (induction bs rule: dotted.induct) (auto dest: dec_plain)

lemma ip_from_string_dotted:
  assumes "a \<le> 255" "b \<le> 255" "c \<le> 255" "d \<le> 255"
  shows "ip_from_string (dotted [a, b, c, d]) = (True, [a, b, c, d])"
proof -
  have dot: "\<And>t acc dots ip. ip_scan (CHR ''.'' # t) acc dots ip =
      (if dots = 3 then (False, ip) else ip_scan t 0 (Suc dots) (ip[dots := acc]))"
    by (simp add: is_digit_def)
  have last: "\<And>ip. ip_scan (dec d) 0 3 ip = (True, ip[3 := d])"
    using ip_scan_dec [OF assms(4), of "[]"] by simp
  show ?thesis
    using assms
    by (simp add: ip_from_string_def cstr_id nul_notin_dotted del: dotted.simps)
       (simp add: ip_scan_dec dot last [unfolded numeral_3_eq_3] numeral_2_eq_2 numeral_3_eq_3 del: ip_scan.simps(2))
qed

end
