(* ===== verification/Http_Args.thy ===== *)
theory Http_Args
  imports Arduino_Numbers
begin

text \<open>
  Arguments and headers of an HTTP request: \<open>urlDecode\<close>, \<open>_parseArguments\<close> and
  \<open>_collectHeader\<close> (\<open>replace_lib/WebServer/src/Parsing.cpp\<close>) and the accessors of
  \<open>WebServer.cpp\<close>.
\<close>

section \<open>Percent decoding\<close>

definition hex_val :: "char \<Rightarrow> nat option" where
  "hex_val c =
     (let n = of_char c :: nat in
      if 48 \<le> n \<and> n \<le> 57 then Some (n - 48)
      else if 97 \<le> n \<and> n \<le> 102 then Some (n - 87)
      else if 65 \<le> n \<and> n \<le> 70 then Some (n - 55)
      else None)"

text \<open>\<open>(char) strtol("0xab", NULL, 16)\<close>: digits up to the first other character.\<close>

definition hex_byte :: "char \<Rightarrow> char \<Rightarrow> char" where
  "hex_byte a b =
     (case hex_val a of
        None \<Rightarrow> char_of (0 :: nat)
      | Some x \<Rightarrow> (case hex_val b of None \<Rightarrow> char_of x | Some y \<Rightarrow> char_of (16 * x + y)))"

fun urlDecode :: "string \<Rightarrow> string" where
  "urlDecode [] = []"
| "urlDecode (c # cs) =
     (if c = CHR ''%'' \<and> 2 \<le> length cs
      then hex_byte (cs ! 0) (cs ! 1) # urlDecode (drop 2 cs)
      else (if c = CHR ''+'' then CHR '' '' else c) # urlDecode cs)"

text \<open>
  How a byte may be written: most stand for themselves, a space may be a plus sign, and any byte may be
  an escape with two hexadecimal digits of either case.  Browsers use one of these texts, a link that
  was typed another; \<open>encodes t e\<close> says that \<open>e\<close> is one of the texts for \<open>t\<close>.
\<close>

definition plain_char :: "char \<Rightarrow> bool" where
  "plain_char c \<longleftrightarrow> 32 < (of_char c :: nat) \<and> c \<notin> {CHR ''%'', CHR ''+'', CHR ''&'', CHR ''=''}"

definition writes_digit :: "char \<Rightarrow> nat \<Rightarrow> bool" where
  "writes_digit a n \<longleftrightarrow> a = ''0123456789abcdef'' ! n \<or> a = ''0123456789ABCDEF'' ! n"

inductive encodes :: "string \<Rightarrow> string \<Rightarrow> bool" where
  encodes_nil: "encodes [] []"
| encodes_plain: "plain_char c \<Longrightarrow> encodes t e \<Longrightarrow> encodes (c # t) (c # e)"
| encodes_plus: "encodes t e \<Longrightarrow> encodes (CHR '' '' # t) (CHR ''+'' # e)"
| encodes_escape: "writes_digit a (of_char c div 16) \<Longrightarrow> writes_digit b (of_char c mod 16) \<Longrightarrow> encodes t e \<Longrightarrow>
    encodes (c # t) (CHR ''%'' # a # b # e)"

declare encodes_nil [simp, intro]

lemma of_char_lt [simp]: "(of_char c :: nat) < 256"
  using of_char_mod_256 [of c] by (metis mod_less_divisor zero_less_numeral)

lemma sixteen: "n < 16 \<Longrightarrow> n \<in> {0, 1, 2, 3, 4, 5, 6, 7, 8, 9, 10, 11, 12, 13, 14, 15 :: nat}"
  by (simp, presburger)

lemma writes_digit_val: "n < 16 \<Longrightarrow> writes_digit a n \<Longrightarrow> hex_val a = Some n"
  using sixteen [of n] by (auto simp: writes_digit_def hex_val_def Let_def)

lemma writes_digit_plain: "n < 16 \<Longrightarrow> writes_digit a n \<Longrightarrow> plain_char a"
  using sixteen [of n] by (auto simp: writes_digit_def plain_char_def)

lemma digits_of_char: "(of_char c :: nat) div 16 < 16" "(of_char c :: nat) mod 16 < 16"
  using of_char_lt [of c] by (simp_all add: less_mult_imp_div_less)

lemma hex_byte_writes:
  assumes "writes_digit a (of_char c div 16)" "writes_digit b (of_char c mod 16)"
  shows "hex_byte a b = c"
proof -
  have "16 * ((of_char c :: nat) div 16) + of_char c mod 16 = of_char c" by simp
  then show ?thesis
    using writes_digit_val [OF digits_of_char(1) assms(1)] writes_digit_val [OF digits_of_char(2) assms(2)]
    by (simp add: hex_byte_def)
qed

text \<open>What was written is what is read.\<close>

lemma urlDecode_encodes: "encodes t e \<Longrightarrow> urlDecode e = t"
  by (induction rule: encodes.induct) (auto simp: plain_char_def hex_byte_writes)

lemma encodes_chars: "encodes t e \<Longrightarrow> c \<in> set e \<Longrightarrow> plain_char c \<or> c = CHR ''+'' \<or> c = CHR ''%''"
  by (induction rule: encodes.induct) (auto dest: writes_digit_plain [OF digits_of_char(1)] writes_digit_plain [OF digits_of_char(2)])

lemma encodes_above: "encodes t e \<Longrightarrow> c \<in> set e \<Longrightarrow> 32 < (of_char c :: nat) \<and> c \<noteq> CHR ''='' \<and> c \<noteq> CHR ''&''"
  using encodes_chars [of t e c] by (auto simp: plain_char_def)

lemma encodes_nul: "encodes t e \<Longrightarrow> nul \<notin> set e"
  using encodes_above [of t e nul] by auto

lemma encodes_notin: "encodes t e \<Longrightarrow> CHR ''='' \<notin> set e" "encodes t e \<Longrightarrow> CHR ''&'' \<notin> set e"
  using encodes_above [of t e] by blast+

section \<open>The arguments of a query string\<close>

text \<open>How many \<open>&\<close> the first loop finds.\<close>

function count_loop :: "string \<Rightarrow> nat \<Rightarrow> nat" where
  "count_loop data i =
     (if i < length data then
        (case index_of data ''&'' i of None \<Rightarrow> 0 | Some j \<Rightarrow> if i \<le> j then Suc (count_loop data (j + 1)) else 0)
      else 0)"
  by pat_completeness auto
termination
  by (relation "measure (\<lambda>(data, i). length data - i)") auto

declare count_loop.simps [simp del]

text \<open>One argument from position \<open>pos\<close>; without \<open>=\<close> of its own its key is the rest of the
  text.  The index -1 as the end of a substring is clipped to the end of the text.\<close>

definition read_pair :: "string \<Rightarrow> nat \<Rightarrow> string \<times> string" where
  "read_pair data pos =
     (let equal_sign_index = index_of data ''='' pos; next_arg_index = index_of data ''&'' pos in
      case equal_sign_index of
        None \<Rightarrow> (substring_from data pos, [])
      | Some e \<Rightarrow>
          (case next_arg_index of
             None \<Rightarrow> (urlDecode (substring data pos e), urlDecode (substring_from data (e + 1)))
           | Some n \<Rightarrow>
               if n < e then (substring_from data pos, [])
               else (urlDecode (substring data pos e), urlDecode (substring data (e + 1) n))))"

fun args_loop :: "string \<Rightarrow> nat \<Rightarrow> nat \<Rightarrow> (string \<times> string) list" where
  "args_loop data 0 pos = []"
| "args_loop data (Suc n) pos =
     read_pair data pos #
       (case index_of data ''&'' pos of None \<Rightarrow> [] | Some i \<Rightarrow> args_loop data n (i + 1))"

definition parseArguments :: "string \<Rightarrow> (string \<times> string) list" where
  "parseArguments data = (if data = [] then [] else args_loop data (count_loop data 0 + 1) 0)"

text \<open>
  A query as it is written: pairs of texts with equal signs, and behind them possibly a single name, as in
  the links of \<open>COMMANDS.txt\<close>.
\<close>

fun query_string :: "(string \<times> string) list \<Rightarrow> string option \<Rightarrow> string" where
  "query_string [] b = (case b of None \<Rightarrow> [] | Some n \<Rightarrow> n)"
| "query_string ((k, v) # ps) b =
     k @ ''='' @ v @ (if ps = [] \<and> b = None then [] else ''&'' @ query_string ps b)"

text \<open>The arguments it stands for; a single name is not decoded.\<close>

definition written_args :: "(string \<times> string) list \<Rightarrow> (string \<times> string) list \<Rightarrow> bool" where
  "written_args ps es \<longleftrightarrow> list_all2 (\<lambda>p e. encodes (fst p) (fst e) \<and> encodes (snd p) (snd e)) ps es"

definition bare_ok :: "string option \<Rightarrow> bool" where
  "bare_ok b \<longleftrightarrow> (\<forall>n. b = Some n \<longrightarrow> n \<noteq> [] \<and> list_all plain_char n)"

definition bare_arg :: "string option \<Rightarrow> (string \<times> string) list" where
  "bare_arg b = (case b of None \<Rightarrow> [] | Some n \<Rightarrow> [(n, [])])"

lemma strstr_at: "c \<notin> set u \<Longrightarrow> strstr (u @ c # t) [c] = Some (length u)"
  using strstr_skip [of c u "c # t" "[]"] by simp

text \<open>A search from the end of a prefix, in the two cases needed.\<close>

lemma index_of_found:
  "nul \<notin> set (pre @ u @ c # t) \<Longrightarrow> c \<notin> set u \<Longrightarrow> c \<noteq> nul \<Longrightarrow>
     index_of (pre @ u @ c # t) [c] (length pre) = Some (length pre + length u)"
  by (subst index_of_from) (simp_all add: strstr_at)

lemma index_of_absent:
  "nul \<notin> set (pre @ u) \<Longrightarrow> c \<notin> set u \<Longrightarrow> c \<noteq> nul \<Longrightarrow> index_of (pre @ u) [c] (length pre) = None"
  by (subst index_of_from) (simp_all add: strstr_char_notin)

lemma written_args_Cons:
  "written_args ps ((k', v') # es) \<longleftrightarrow> (\<exists>k v qs. ps = (k, v) # qs \<and> encodes k k' \<and> encodes v v' \<and> written_args qs es)"
  by (auto simp: written_args_def list_all2_Cons2)

lemma written_args_Nil [simp]: "written_args ps [] \<longleftrightarrow> ps = []" "written_args [] es \<longleftrightarrow> es = []"
  by (auto simp: written_args_def)

lemma bare_ok_above: "bare_ok (Some n) \<Longrightarrow> c \<in> set n \<Longrightarrow> 32 < (of_char c :: nat) \<and> c \<noteq> CHR ''='' \<and> c \<noteq> CHR ''&''"
  by (auto simp: bare_ok_def list_all_iff plain_char_def)

lemma query_string_above: "written_args ps es \<Longrightarrow> bare_ok b \<Longrightarrow> c \<in> set (query_string es b) \<Longrightarrow> 32 < (of_char c :: nat)"
  by (induction es b arbitrary: ps rule: query_string.induct)
    (auto simp: written_args_Cons dest: encodes_above bare_ok_above split: option.splits if_splits)

lemma query_string_notin: "written_args ps es \<Longrightarrow> bare_ok b \<Longrightarrow> (of_char c :: nat) \<le> 32 \<Longrightarrow> c \<notin> set (query_string es b)"
  using query_string_above [of ps es b c] by linarith

lemma query_string_plain: "written_args ps es \<Longrightarrow> bare_ok b \<Longrightarrow> nul \<notin> set (query_string es b)"
  using query_string_notin [of ps es b nul] by simp

lemma query_string_nonempty: "es \<noteq> [] \<or> b \<noteq> None \<Longrightarrow> bare_ok b \<Longrightarrow> query_string es b \<noteq> []"
  by (induction es b rule: query_string.induct) (auto simp: bare_ok_def split: option.splits)

text \<open>The first pair of a longer query, and the last one.\<close>

lemma read_pair_last:
  assumes "encodes k k'" "encodes v v'" "nul \<notin> set pre"
  shows "read_pair (pre @ k' @ ''='' @ v') (length pre) = (k, v)"
    "index_of (pre @ k' @ ''='' @ v') ''&'' (length pre) = None"
proof -
  have n: "nul \<notin> set (pre @ k' @ CHR ''='' # v')" using assms encodes_nul by simp
  have e: "index_of (pre @ k' @ CHR ''='' # v') ''='' (length pre) = Some (length pre + length k')"
    by (rule index_of_found) (use n encodes_notin [OF assms(1)] in simp_all)
  have a: "index_of (pre @ k' @ CHR ''='' # v') ''&'' (length pre) = None"
    by (rule index_of_absent) (use n encodes_notin [OF assms(1)] encodes_notin [OF assms(2)] in simp_all)
  then show "index_of (pre @ k' @ ''='' @ v') ''&'' (length pre) = None" by simp
  show "read_pair (pre @ k' @ ''='' @ v') (length pre) = (k, v)"
    using e a urlDecode_encodes [OF assms(1)] urlDecode_encodes [OF assms(2)] by (simp add: read_pair_def str_simps)
qed

lemma read_pair_next:
  assumes "encodes k k'" "encodes v v'" "nul \<notin> set pre" "nul \<notin> set r"
  shows "read_pair (pre @ k' @ ''='' @ v' @ ''&'' @ r) (length pre) = (k, v)"
    "index_of (pre @ k' @ ''='' @ v' @ ''&'' @ r) ''&'' (length pre) = Some (length pre + length k' + 1 + length v')"
proof -
  let ?d = "pre @ k' @ CHR ''='' # v' @ CHR ''&'' # r"
  have n: "nul \<notin> set ?d" using assms encodes_nul by simp
  have e: "index_of ?d ''='' (length pre) = Some (length pre + length k')"
    by (rule index_of_found) (use n encodes_notin [OF assms(1)] in simp_all)
  have "index_of (pre @ (k' @ CHR ''='' # v') @ CHR ''&'' # r) ''&'' (length pre) = Some (length pre + length (k' @ CHR ''='' # v'))"
    by (rule index_of_found) (use n encodes_notin [OF assms(1)] encodes_notin [OF assms(2)] in simp_all)
  then have a: "index_of ?d ''&'' (length pre) = Some (length pre + length k' + 1 + length v')" by simp
  then show "index_of (pre @ k' @ ''='' @ v' @ ''&'' @ r) ''&'' (length pre) = Some (length pre + length k' + 1 + length v')" by simp
  show "read_pair (pre @ k' @ ''='' @ v' @ ''&'' @ r) (length pre) = (k, v)"
    using e a urlDecode_encodes [OF assms(1)] urlDecode_encodes [OF assms(2)] by (simp add: read_pair_def str_simps)
qed

lemma bare_absent:
  assumes "bare_ok (Some n)" "nul \<notin> set pre"
  shows "index_of (pre @ n) ''='' (length pre) = None" "index_of (pre @ n) ''&'' (length pre) = None"
proof -
  have "nul \<notin> set n" "CHR ''='' \<notin> set n" "CHR ''&'' \<notin> set n" using bare_ok_above [OF assms(1)] by fastforce+
  then show "index_of (pre @ n) ''='' (length pre) = None" "index_of (pre @ n) ''&'' (length pre) = None"
    using assms(2) by (auto intro!: index_of_absent)
qed

lemma args_loop_query:
  "written_args ps es \<Longrightarrow> bare_ok b \<Longrightarrow> nul \<notin> set pre \<Longrightarrow> es \<noteq> [] \<or> b \<noteq> None \<Longrightarrow>
     args_loop (pre @ query_string es b) (length (ps @ bare_arg b)) (length pre) = ps @ bare_arg b \<and>
     count_loop (pre @ query_string es b) (length pre) + 1 = length (ps @ bare_arg b)"
proof (induction es b arbitrary: ps pre rule: query_string.induct)
  case (1 b)
  then obtain n where b: "b = Some n" by auto
  note ab = bare_absent [OF 1(2) [unfolded b] 1(3)]
  show ?case
    using 1(1) ab by (subst count_loop.simps) (simp add: b bare_arg_def read_pair_def str_simps)
next
  case (2 k' v' es b)
  from 2(2) obtain k v qs where ps: "ps = (k, v) # qs" "encodes k k'" "encodes v v'" "written_args qs es"
    by (auto simp: written_args_Cons)
  show ?case
  proof (cases "es = [] \<and> b = None")
    case True
    then have q: "query_string ((k', v') # es) b = k' @ ''='' @ v'" "ps @ bare_arg b = [(k, v)]"
      using ps(1,4) by (simp_all add: bare_arg_def)
    show ?thesis
      unfolding q using read_pair_last [OF ps(2,3) 2(4)] by (subst count_loop.simps) simp
  next
    case False
    have r: "nul \<notin> set (query_string es b)" by (rule query_string_plain [OF ps(4) 2(3)])
    let ?pre = "pre @ k' @ ''='' @ v' @ ''&''"
    have "nul \<notin> set ?pre" using 2(4) encodes_nul ps(2,3) by simp
    then have "args_loop (?pre @ query_string es b) (length (qs @ bare_arg b)) (length ?pre) = qs @ bare_arg b \<and>
        count_loop (?pre @ query_string es b) (length ?pre) + 1 = length (qs @ bare_arg b)"
      using False by (intro 2(1) [OF False ps(4) 2(3)]) auto
    moreover have q: "query_string ((k', v') # es) b = k' @ ''='' @ v' @ ''&'' @ query_string es b" using False by auto
    ultimately show ?thesis
      unfolding q using read_pair_next [OF ps(2,3) 2(4) r] by (subst count_loop.simps) (simp add: ps(1) ac_simps)
  qed
qed

lemma parseArguments_query:
  assumes "written_args ps es" "bare_ok b"
  shows "parseArguments (query_string es b) = ps @ bare_arg b"
proof (cases "es \<noteq> [] \<or> b \<noteq> None")
  case True
  then show ?thesis
    using args_loop_query [OF assms, of "[]"] query_string_nonempty [OF True assms(2)] by (simp add: parseArguments_def)
next
  case False
  then show ?thesis using assms by (simp add: parseArguments_def bare_arg_def)
qed

section \<open>Access to arguments and headers\<close>

record http_args =
  currentArgs :: "(string \<times> string) list"
  postArgs :: "(string \<times> string) list"
  currentHeaders :: "(string \<times> string) list"

definition arg_named :: "string \<Rightarrow> 'z http_args_scheme \<Rightarrow> string" where
  "arg_named name s =
     (case map_of (postArgs s) name of
        Some v \<Rightarrow> v
      | None \<Rightarrow> (case map_of (currentArgs s) name of Some v \<Rightarrow> v | None \<Rightarrow> []))"

definition arg_at :: "nat \<Rightarrow> 'z http_args_scheme \<Rightarrow> string" where
  "arg_at i s = (if i < length (currentArgs s) then snd (currentArgs s ! i) else [])"

definition argName :: "nat \<Rightarrow> 'z http_args_scheme \<Rightarrow> string" where
  "argName i s = (if i < length (currentArgs s) then fst (currentArgs s ! i) else [])"

definition hasArg :: "string \<Rightarrow> 'z http_args_scheme \<Rightarrow> bool" where
  "hasArg name s \<longleftrightarrow> name \<in> fst ` set (postArgs s) \<or> name \<in> fst ` set (currentArgs s)"

definition reset_headers :: "'z http_args_scheme \<Rightarrow> 'z http_args_scheme" where
  "reset_headers s = s\<lparr>currentHeaders := map (\<lambda>(k, v). (k, [])) (currentHeaders s)\<rparr>"

fun collect_into :: "string \<Rightarrow> string \<Rightarrow> (string \<times> string) list \<Rightarrow> (string \<times> string) list \<times> bool" where
  "collect_into name value [] = ([], False)"
| "collect_into name value ((k, v) # hs) =
     (if equals_ignore_case k name then ((k, value) # hs, True)
      else (let (hs', found) = collect_into name value hs in ((k, v) # hs', found)))"

definition collectHeader :: "string \<Rightarrow> string \<Rightarrow> 'z http_args_scheme \<Rightarrow> 'z http_args_scheme \<times> bool" where
  "collectHeader name value s =
     (let (hs, found) = collect_into name value (currentHeaders s) in (s\<lparr>currentHeaders := hs\<rparr>, found))"

definition collectHeaders :: "string list \<Rightarrow> 'z http_args_scheme \<Rightarrow> 'z http_args_scheme" where
  "collectHeaders keys s = s\<lparr>currentHeaders := map (\<lambda>k. (k, [])) (''Authorization'' # keys)\<rparr>"

fun header_in :: "string \<Rightarrow> (string \<times> string) list \<Rightarrow> string" where
  "header_in name [] = []"
| "header_in name ((k, v) # hs) = (if equals_ignore_case k name then v else header_in name hs)"

definition header :: "string \<Rightarrow> 'z http_args_scheme \<Rightarrow> string" where
  "header name s = header_in name (currentHeaders s)"

definition header_at :: "nat \<Rightarrow> 'z http_args_scheme \<Rightarrow> string" where
  "header_at i s = (if i < length (currentHeaders s) then snd (currentHeaders s ! i) else [])"

definition headerName :: "nat \<Rightarrow> 'z http_args_scheme \<Rightarrow> string" where
  "headerName i s = (if i < length (currentHeaders s) then fst (currentHeaders s ! i) else [])"

definition hasHeader :: "string \<Rightarrow> 'z http_args_scheme \<Rightarrow> bool" where
  "hasHeader name s \<longleftrightarrow> (\<exists>(k, v) \<in> set (currentHeaders s). equals_ignore_case k name \<and> 0 < length v)"

lemma collect_into_header:
  "snd (collect_into name value hs) \<Longrightarrow> header_in name (fst (collect_into name value hs)) = value"
  by (induction name "value" hs rule: collect_into.induct) (auto split: prod.splits)

lemma collect_into_keys: "map fst (fst (collect_into name value hs)) = map fst hs"
  by (induction name "value" hs rule: collect_into.induct) (auto split: prod.splits)

section \<open>Properties\<close>

text \<open>A header line whose name is collected is what \<open>header\<close> then answers, whatever the case of the
  name's letters.\<close>

lemma collected_header_is_read:
  assumes "snd (collectHeader name value s)"
  shows "header name (fst (collectHeader name value s)) = value \<and>
         map fst (currentHeaders (fst (collectHeader name value s))) = map fst (currentHeaders s)"
  using assms collect_into_header [of name "value" "currentHeaders s"] collect_into_keys [of name "value" "currentHeaders s"]
  by (simp add: collectHeader_def header_def split: prod.splits)


end
