(* ===== verification/Http_Routing.thy ===== *)
theory Http_Routing
  imports Http_Args
begin

text \<open>
  Request handlers and their choice: \<open>FunctionRequestHandler\<close> and \<open>StaticRequestHandler\<close>
  (\<open>detail/RequestHandlersImpl.h\<close>), the MIME table, the registration functions of
  \<open>WebServer.cpp\<close> and the routes the program registers (\<open>WSKey32.ino\<close>, \<open>SWparser.cpp\<close>).
  Callbacks are names of a type \<open>'f\<close>.
\<close>

section \<open>Handlers\<close>

datatype http_method =
  HTTP_GET | HTTP_POST | HTTP_DELETE | HTTP_PUT | HTTP_PATCH | HTTP_HEAD | HTTP_OPTIONS | HTTP_ANY

datatype 'f handler =
    Function_handler "'f" "'f option" string http_method
    \<comment> \<open>\<open>_fn\<close>, \<open>_ufn\<close> (empty when no upload function is set), \<open>_uri\<close>, \<open>_method\<close>\<close>
  | Static_handler string string string bool
    \<comment> \<open>\<open>_uri\<close>, \<open>_path\<close>, \<open>_cache_header\<close>, \<open>_isFile\<close>\<close>

text \<open>
  The comparison of \<open>_uri\<close>, which may hold parameters \<open>{}\<close>, with the requested one, from the
  positions \<open>i\<close> and \<open>k\<close>; the path arguments found are collected in order.
\<close>

function match_uri :: "string \<Rightarrow> string \<Rightarrow> nat \<Rightarrow> nat \<Rightarrow> string list \<Rightarrow> bool \<times> string list" where
  "match_uri uri requestUri i k pathArgs =
     (if i < length uri then
        (if char_at uri i = char_at requestUri k then match_uri uri requestUri (i + 1) (k + 1) pathArgs
         else if char_at uri i \<noteq> CHR ''{'' then (False, pathArgs)
         else if length uri \<le> i + 2 then
           (let a = substring_from requestUri k in (\<not> contains a ''/'', pathArgs @ [a]))
         else
           (case index_of requestUri [char_at uri (i + 2)] k of
              None \<Rightarrow> (False, pathArgs)
            | Some j \<Rightarrow> match_uri uri requestUri (i + 3) (j + 1) (pathArgs @ [substring requestUri k j])))
      else (length requestUri \<le> k, pathArgs))"
  by pat_completeness auto
termination
  by (relation "measure (\<lambda>(u, r, i, k, p). length u - i)") auto

declare match_uri.simps [simp del]

fun can_handle_args :: "'f handler \<Rightarrow> http_method \<Rightarrow> string \<Rightarrow> bool \<times> string list" where
  "can_handle_args (Function_handler fn ufn uri meth) requestMethod requestUri =
     (if meth \<noteq> HTTP_ANY \<and> meth \<noteq> requestMethod then (False, [])
      else if uri = requestUri then (True, [])
      else match_uri uri requestUri 0 0 [])"
| "can_handle_args (Static_handler uri path cache isFile) requestMethod requestUri =
     (requestMethod = HTTP_GET \<and> \<not> ((isFile \<and> requestUri \<noteq> uri) \<or> \<not> starts_with requestUri uri), [])"

definition canHandle :: "'f handler \<Rightarrow> http_method \<Rightarrow> string \<Rightarrow> bool" where
  "canHandle h m uri = fst (can_handle_args h m uri)"

fun canUpload :: "'f handler \<Rightarrow> string \<Rightarrow> bool" where
  "canUpload (Function_handler fn ufn uri meth) requestUri =
     (ufn \<noteq> None \<and> canHandle (Function_handler fn ufn uri meth) HTTP_POST requestUri)"
| "canUpload (Static_handler uri path cache isFile) requestUri = False"

text \<open>The list of handlers, in the order of registration; the first that can handle is taken.\<close>

definition addRequestHandler :: "'f handler \<Rightarrow> 'f handler list \<Rightarrow> 'f handler list" where
  "addRequestHandler h hs = hs @ [h]"

definition on_upload :: "string \<Rightarrow> http_method \<Rightarrow> 'f \<Rightarrow> 'f option \<Rightarrow> 'f handler list \<Rightarrow> 'f handler list" where
  "on_upload uri m fn ufn hs = addRequestHandler (Function_handler fn ufn uri m) hs"

definition on :: "string \<Rightarrow> 'f \<Rightarrow> 'f option \<Rightarrow> 'f handler list \<Rightarrow> 'f handler list" where
  "on uri fn fileUploadHandler hs = on_upload uri HTTP_ANY fn fileUploadHandler hs"

definition serveStatic :: "(string \<Rightarrow> bool) \<Rightarrow> string \<Rightarrow> string \<Rightarrow> string \<Rightarrow> 'f handler list \<Rightarrow> 'f handler list" where
  "serveStatic fs_exists uri path cache hs = addRequestHandler (Static_handler uri path cache (fs_exists path)) hs"

fun find_handler :: "'f handler list \<Rightarrow> http_method \<Rightarrow> string \<Rightarrow> 'f handler option" where
  "find_handler [] m uri = None"
| "find_handler (h # hs) m uri = (if canHandle h m uri then Some h else find_handler hs m uri)"

section \<open>Content types\<close>

definition mimeTable :: "(string \<times> string) list" where
  "mimeTable =
    [(''.html'', ''text/html''), (''.htm'', ''text/html''), (''.css'', ''text/css''), (''.txt'', ''text/plain''),
     (''.js'', ''application/javascript''), (''.json'', ''application/json''), (''.png'', ''image/png''),
     (''.gif'', ''image/gif''), (''.jpg'', ''image/jpeg''), (''.ico'', ''image/x-icon''),
     (''.svg'', ''image/svg+xml''), (''.ttf'', ''application/x-font-ttf''),
     (''.otf'', ''application/x-font-opentype''), (''.woff'', ''application/font-woff''),
     (''.woff2'', ''application/font-woff2''), (''.eot'', ''application/vnd.ms-fontobject''),
     (''.sfnt'', ''application/font-sfnt''), (''.xml'', ''text/xml''), (''.pdf'', ''application/pdf''),
     (''.zip'', ''application/zip''), (''.gz'', ''application/x-gzip''),
     (''.appcache'', ''text/cache-manifest''), ([], ''application/octet-stream'')]"

fun type_from :: "(string \<times> string) list \<Rightarrow> string \<Rightarrow> string" where
  "type_from [] path = []"
| "type_from [(e, t)] path = t"
| "type_from ((e, t) # p # ps) path = (if ends_with path e then t else type_from (p # ps) path)"

definition getContentType :: "string \<Rightarrow> string" where
  "getContentType path = type_from mimeTable path"

text \<open>The file a static handler opens: the index of a directory, the rest of the URI, the packed form.\<close>

definition static_path :: "(string \<Rightarrow> bool) \<Rightarrow> string \<Rightarrow> string \<Rightarrow> bool \<Rightarrow> string \<Rightarrow> string" where
  "static_path fs_exists uri path isFile requestUri =
     (let r = (if \<not> isFile \<and> ends_with requestUri ''/'' then requestUri @ ''index.htm'' else requestUri);
          p = (if isFile then path else path @ substring_from r (length uri))
      in if \<not> ends_with p ''.gz'' \<and> \<not> fs_exists p \<and> fs_exists (p @ ''.gz'') then p @ ''.gz'' else p)"

definition static_type :: "string \<Rightarrow> string \<Rightarrow> bool \<Rightarrow> string \<Rightarrow> string" where
  "static_type uri path isFile requestUri = getContentType (static_path (\<lambda>p. True) uri path isFile requestUri)"

section \<open>Routes of the program\<close>

datatype callback =
  handleUpdateStatus | handleUpdate | handleUploadFileStatus | handleUploadFile | handleCaptivePortal |
  handleCmd | handleLogin | handleFavicon | handleRestart

text \<open>\<open>setup\<close> registers them, on a new server; it sets no general upload function.\<close>

definition register_routes :: "callback handler list \<Rightarrow> callback handler list" where
  "register_routes hs =
     on ''/favicon.ico'' handleFavicon None (
     on ''/login'' handleLogin None (
     on ''/cmd'' handleCmd None (
     on ''/'' handleCaptivePortal None (
     on_upload ''/upload'' HTTP_POST handleUploadFileStatus (Some handleUploadFile) (
     on_upload ''/update'' HTTP_POST handleUpdateStatus (Some handleUpdate) hs)))))"

definition routes :: "callback handler list" where
  "routes = register_routes []"

definition upgrade_routes :: "callback handler list \<Rightarrow> callback handler list" where
  "upgrade_routes hs = on ''/reset'' handleRestart None (on ''/restart'' handleRestart None hs)"

definition notFoundHandler :: callback where "notFoundHandler = handleCaptivePortal"

definition route :: "callback handler list \<Rightarrow> http_method \<Rightarrow> string \<Rightarrow> callback" where
  "route hs m uri = (case find_handler hs m uri of Some (Function_handler fn ufn u meth) \<Rightarrow> fn | _ \<Rightarrow> notFoundHandler)"

section \<open>Literal routes\<close>

lemma match_uri_literal:
  assumes "CHR ''{'' \<notin> set uri" "nul \<notin> set uri"
  shows "i \<le> length uri \<Longrightarrow> fst (match_uri uri r i k []) \<longleftrightarrow> drop i uri = drop k r"
proof (induction "length uri - i" arbitrary: i k)
  case 0
  then show ?case by (subst match_uri.simps) simp
next
  case (Suc n)
  then have i: "i < length uri" by simp
  have c: "char_at uri i = uri ! i" "uri ! i \<noteq> CHR ''{''" "uri ! i \<noteq> nul"
    using i assms nth_mem [OF i] by (auto simp: char_at_def simp del: nth_mem)
  show ?case
  proof (cases "char_at uri i = char_at r k")
    case True
    then have k: "k < length r" "r ! k = uri ! i" using c by (auto simp: char_at_def split: if_splits)
    have "fst (match_uri uri r i k []) = fst (match_uri uri r (i + 1) (k + 1) [])"
      using i True by (subst match_uri.simps) simp
    also have "\<dots> \<longleftrightarrow> drop (i + 1) uri = drop (k + 1) r" using Suc by (intro Suc.hyps) auto
    also have "\<dots> \<longleftrightarrow> drop i uri = drop k r"
      using Cons_nth_drop_Suc [OF i] Cons_nth_drop_Suc [OF k(1)] k(2) by (metis Suc_eq_plus1 list.inject)
    finally show ?thesis .
  next
    case False
    have "char_at uri i = char_at r k" if e: "drop i uri = drop k r"
    proof -
      have "drop k r \<noteq> []" using e i by (metis drop_eq_Nil not_le)
      then have "k < length r" by simp
      then show ?thesis using e i by (simp add: char_at_def flip: hd_drop_conv_nth)
    qed
    with False have "drop i uri \<noteq> drop k r" by blast
    then show ?thesis using False c i by (subst match_uri.simps) simp
  qed
qed

lemma canHandle_literal:
  assumes "CHR ''{'' \<notin> set uri" "nul \<notin> set uri"
  shows "canHandle (Function_handler fn ufn uri meth) m r \<longleftrightarrow> (meth = HTTP_ANY \<or> meth = m) \<and> uri = r"
  using match_uri_literal [OF assms, of 0 r 0] by (auto simp: canHandle_def)

lemma find_handler_append:
  "find_handler (hs @ hs') m uri = (case find_handler hs m uri of None \<Rightarrow> find_handler hs' m uri | Some h \<Rightarrow> Some h)"
  by (induction hs) simp_all

lemma route_upgrade_other:
  "uri \<noteq> ''/reset'' \<Longrightarrow> uri \<noteq> ''/restart'' \<Longrightarrow> route (upgrade_routes hs) m uri = route hs m uri"
  by (simp add: route_def upgrade_routes_def on_def on_upload_def addRequestHandler_def find_handler_append
      canHandle_literal split: option.splits handler.splits)

section \<open>The routes as a table\<close>

text \<open>Every request of the lock's web server goes to the one callback its URI and method name: the two
  upload pages only for POST, the rest for any method, and everything else to the captive portal.\<close>

lemma route_table:
  "route routes m uri =
     (if uri = ''/update'' \<and> m = HTTP_POST then handleUpdateStatus
      else if uri = ''/upload'' \<and> m = HTTP_POST then handleUploadFileStatus
      else if uri = ''/cmd'' then handleCmd
      else if uri = ''/login'' then handleLogin
      else if uri = ''/favicon.ico'' then handleFavicon
      else handleCaptivePortal)"
  by (simp add: route_def routes_def register_routes_def on_def on_upload_def addRequestHandler_def canHandle_literal notFoundHandler_def)

end
