(* ===== verification/Http_Upload.thy ===== *)
theory Http_Upload
  imports Http_Args
begin

text \<open>
  File uploads of the web server: the upload buffer (\<open>_uploadWriteByte\<close>) and the reader of the file
  part of a multipart form (\<open>_parseForm\<close> from its label \<open>readfile\<close> on, \<open>_parseFormUploadAborted\<close>)
  in \<open>replace_lib/WebServer/src/Parsing.cpp\<close>.  The input is the list of the bytes that arrive
  before the connection is lost or a read times out.  The calls of the upload handler are
  collected with the status, the buffer and the total size they see.
\<close>

section \<open>The buffer\<close>

datatype upload_status = UPLOAD_FILE_START | UPLOAD_FILE_WRITE | UPLOAD_FILE_END | UPLOAD_FILE_ABORTED

definition HTTP_UPLOAD_BUFLEN :: nat where "HTTP_UPLOAD_BUFLEN = 1436"

record upload =
  u_status :: upload_status
  u_filename :: string
  u_name :: string
  u_type :: string
  u_totalSize :: u32
  u_buf :: bytes
    \<comment> \<open>the first \<open>currentSize\<close> bytes of the buffer\<close>
  u_canUpload :: bool
  u_calls :: "(upload_status \<times> bytes \<times> u32) list"

definition call_handler :: "upload \<Rightarrow> upload" where
  "call_handler u =
     (if u_canUpload u then u\<lparr>u_calls := u_calls u @ [(u_status u, u_buf u, u_totalSize u)]\<rparr> else u)"

definition uploadWriteByte :: "char \<Rightarrow> upload \<Rightarrow> upload" where
  "uploadWriteByte b u =
     (let u1 = (if length (u_buf u) = HTTP_UPLOAD_BUFLEN
                then (let u' = call_handler u in u'\<lparr>u_totalSize := u_totalSize u' + of_nat (length (u_buf u')), u_buf := []\<rparr>)
                else u)
      in u1\<lparr>u_buf := u_buf u1 @ [b]\<rparr>)"

definition write_bytes :: "bytes \<Rightarrow> upload \<Rightarrow> upload" where
  "write_bytes bs u = fold uploadWriteByte bs u"

definition start_upload :: "string \<Rightarrow> string \<Rightarrow> string \<Rightarrow> bool \<Rightarrow> upload" where
  "start_upload name filename type can =
     (let u = \<lparr>u_status = UPLOAD_FILE_START, u_filename = filename, u_name = name, u_type = type,
               u_totalSize = 0, u_buf = [], u_canUpload = can, u_calls = []\<rparr>
      in (call_handler u)\<lparr>u_status := UPLOAD_FILE_WRITE\<rparr>)"

definition end_upload :: "upload \<Rightarrow> upload" where
  "end_upload u =
     (let u1 = call_handler u;
          u2 = u1\<lparr>u_totalSize := u_totalSize u1 + of_nat (length (u_buf u1)), u_status := UPLOAD_FILE_END\<rparr>
      in call_handler u2)"

definition parseFormUploadAborted :: "upload \<Rightarrow> upload" where
  "parseFormUploadAborted u = call_handler (u\<lparr>u_status := UPLOAD_FILE_ABORTED\<rparr>)"

section \<open>Reading the file\<close>

text \<open>
  The label \<open>readfile\<close> is reached with a byte just read: the list holds that byte and what
  follows.  \<open>Garbled\<close> is the short read of \<open>endBuf\<close>, whose missing bytes are not initialised.
  \<open>strstr\<close> on the unterminated \<open>endBuf\<close> finds the boundary exactly when the buffer is it, unless
  what lies behind the buffer happens to hold it.
\<close>

datatype file_result = File_end upload bytes | Aborted upload | Garbled upload


fun read_file :: "string \<Rightarrow> upload \<Rightarrow> bytes \<Rightarrow> file_result" where
  "read_file B u [] = Aborted (parseFormUploadAborted u)"
| "read_file B u (c # cs) =
     (if c \<noteq> CR then read_file B (uploadWriteByte c u) cs
      else case cs of
        [] \<Rightarrow> Aborted (parseFormUploadAborted u)
      | c1 # cs1 \<Rightarrow>
          if c1 \<noteq> LF then read_file B (uploadWriteByte CR u) (c1 # cs1)
          else case cs1 of
            [] \<Rightarrow> Aborted (parseFormUploadAborted u)
          | c2 # cs2 \<Rightarrow>
              if c2 \<noteq> CHR ''-'' then read_file B (write_bytes [CR, LF] u) (c2 # cs2)
              else case cs2 of
                [] \<Rightarrow> Aborted (parseFormUploadAborted u)
              | c3 # cs3 \<Rightarrow>
                  if c3 \<noteq> CHR ''-'' then read_file B (write_bytes [CR, LF, CHR ''-''] u) (c3 # cs3)
                  else if length cs3 < length B then Garbled u
                  else
                    let endBuf = take (length B) cs3 in
                    if endBuf = B then File_end (end_upload u) (drop (length B) cs3)
                    else read_file B (write_bytes ([CR, LF, CHR ''-'', CHR ''-''] @ endBuf) u) (drop (length B) cs3))"

section \<open>What the handler receives\<close>

definition received :: "upload \<Rightarrow> bytes" where
  "received u = concat (map (\<lambda>(st, b, n). if st = UPLOAD_FILE_WRITE then b else []) (u_calls u))"

definition buffer_ok :: "upload \<Rightarrow> bool" where
  "buffer_ok u \<longleftrightarrow>
     u_canUpload u \<and> u_status u = UPLOAD_FILE_WRITE \<and> length (u_buf u) \<le> HTTP_UPLOAD_BUFLEN \<and>
     u_totalSize u = of_nat (length (received u)) \<and> (\<forall>(st, b, n) \<in> set (u_calls u). length b \<le> HTTP_UPLOAD_BUFLEN)"

text \<open>Bytes received and bytes buffered, together, grow by the byte that is written.\<close>

lemma write_byte_ok:
  "buffer_ok u \<Longrightarrow> buffer_ok (uploadWriteByte b u) \<and>
     received (uploadWriteByte b u) @ u_buf (uploadWriteByte b u) = received u @ u_buf u @ [b]"
  by (auto simp: buffer_ok_def uploadWriteByte_def call_handler_def received_def Let_def HTTP_UPLOAD_BUFLEN_def)

interpretation upload_buffer: simulation uploadWriteByte buffer_ok "\<lambda>_. True"
    "\<lambda>u. received u @ u_buf u" "\<lambda>b bs. bs @ [b]"
  by unfold_locales (use write_byte_ok in auto)

lemma fold_append_one: "fold (\<lambda>b bs. bs @ [b]) xs ys = ys @ xs"
  by (induction xs arbitrary: ys) simp_all

lemma write_bytes_ok:
  "buffer_ok u \<Longrightarrow> buffer_ok (write_bytes bs u) \<and>
     received (write_bytes bs u) @ u_buf (write_bytes bs u) = received u @ u_buf u @ bs"
  using upload_buffer.run_keeps [of u bs] upload_buffer.run_simulates [of u bs]
  by (simp add: write_bytes_def fold_append_one list_all_iff)

lemma start_upload_ok: "buffer_ok (start_upload name fn ty True) \<and> received (start_upload name fn ty True) = [] \<and>
    u_buf (start_upload name fn ty True) = []"
  by (simp add: start_upload_def buffer_ok_def received_def call_handler_def Let_def HTTP_UPLOAD_BUFLEN_def)

lemma end_upload_received:
  "buffer_ok u \<Longrightarrow>
     received (end_upload u) = received u @ u_buf u \<and> u_totalSize (end_upload u) = of_nat (length (received u @ u_buf u)) \<and>
     u_status (end_upload u) = UPLOAD_FILE_END \<and>
     (\<forall>(st, b, n) \<in> set (u_calls (end_upload u)). length b \<le> HTTP_UPLOAD_BUFLEN)"
  by (auto simp: buffer_ok_def end_upload_def call_handler_def received_def Let_def)

section \<open>The end of the file is found\<close>

definition dash_line :: bytes where "dash_line = [CR, LF, CHR ''-'', CHR ''-'']"

lemma write_bytes_append: "write_bytes (a @ b) u = write_bytes b (write_bytes a u)"
  by (simp add: write_bytes_def)

lemma write_byte_eq: "uploadWriteByte c u = write_bytes [c] u"
  by (simp add: write_bytes_def)

lemma strstr_Cons_None: "strstr (c # s) p = None \<Longrightarrow> strstr s p = None"
  by (simp split: if_splits)

lemma read_file_finds:
  "strstr f dash_line = None \<Longrightarrow>
     read_file B u (f @ dash_line @ B @ rest) = File_end (end_upload (write_bytes f u)) rest"
proof (induction f arbitrary: u rule: length_induct)
  case (1 f)
  note IH = 1(1) and none = 1(2)
  have rec: "read_file B v (g @ dash_line @ B @ rest) = File_end (end_upload (write_bytes g v)) rest"
    if "length g < length f" "strstr g dash_line = None" for g v
    using IH that by blast
  show ?case
  proof (cases f)
    case Nil
    then show ?thesis by (simp add: dash_line_def write_bytes_def)
  next
    case (Cons c cs)
    have n1: "strstr cs dash_line = None" using none Cons strstr_Cons_None by blast
    show ?thesis
    proof (cases "c = CR")
      case False
      then show ?thesis
        using Cons rec [of cs "uploadWriteByte c u"] n1 by (simp add: write_bytes_def)
    next
      case cr: True
      show ?thesis
      proof (cases cs)
        case Nil
        have "read_file B u (f @ dash_line @ B @ rest) =
            read_file B (uploadWriteByte CR u) ([] @ dash_line @ B @ rest)"
          unfolding Cons cr Nil append.simps by (subst read_file.simps) (simp add: dash_line_def)
        then show ?thesis using rec [of "[]"] Cons cr Nil by (simp add: write_bytes_def dash_line_def)
      next
        case c1: (Cons d ds)
        show ?thesis
        proof (cases "d = LF")
          case False
          have "read_file B u (f @ dash_line @ B @ rest) = read_file B (uploadWriteByte CR u) (cs @ dash_line @ B @ rest)"
            unfolding Cons cr c1 append.simps using False by (subst read_file.simps) simp
          then show ?thesis using rec [of cs] n1 Cons cr by (simp add: write_bytes_def)
        next
          case lf: True
          have n2: "strstr ds dash_line = None" using n1 c1 strstr_Cons_None by blast
          show ?thesis
          proof (cases ds)
            case Nil
            have "read_file B u (f @ dash_line @ B @ rest) =
                read_file B (write_bytes [CR, LF] u) ([] @ dash_line @ B @ rest)"
              unfolding Cons cr c1 lf Nil append.simps by (subst read_file.simps) (simp add: dash_line_def)
            then show ?thesis using rec [of "[]"] Cons cr c1 lf Nil by (simp add: write_bytes_def dash_line_def)
          next
            case c2: (Cons e es)
            show ?thesis
            proof (cases "e = CHR ''-''")
              case False
              have "read_file B u (f @ dash_line @ B @ rest) =
                  read_file B (write_bytes [CR, LF] u) (ds @ dash_line @ B @ rest)"
                unfolding Cons cr c1 lf c2 append.simps using False by (subst read_file.simps) simp
              then show ?thesis using rec [of ds] n2 Cons cr c1 lf by (simp add: write_bytes_def)
            next
              case dash: True
              have n3: "strstr es dash_line = None" using n2 c2 strstr_Cons_None by blast
              have "es = [] \<or> hd es \<noteq> CHR ''-''"
                using none Cons cr c1 lf c2 dash by (cases es) (auto simp: dash_line_def split: if_splits)
              then have "read_file B u (f @ dash_line @ B @ rest) =
                  read_file B (write_bytes [CR, LF, CHR ''-''] u) (es @ dash_line @ B @ rest)"
                unfolding Cons cr c1 lf c2 dash append.simps
                by (subst read_file.simps) (cases es, simp_all add: dash_line_def)
              then show ?thesis using rec [of es] n3 Cons cr c1 lf c2 dash by (simp add: write_bytes_def)
            qed
          qed
        qed
      qed
    qed
  qed
qed

lemma uploaded_file:
  assumes "strstr f dash_line = None"
  shows "\<exists>u. read_file B (start_upload name fn ty True) (f @ dash_line @ B @ rest) = File_end u rest \<and>
    received u = f \<and> unat (u_totalSize u) = length f mod 2 ^ 32 \<and> u_status u = UPLOAD_FILE_END \<and>
    (\<forall>(st, b, n) \<in> set (u_calls u). length b \<le> HTTP_UPLOAD_BUFLEN)"
proof -
  let ?s = "start_upload name fn ty True"
  have w: "buffer_ok (write_bytes f ?s)" "received (write_bytes f ?s) @ u_buf (write_bytes f ?s) = f"
    using write_bytes_ok [of ?s f] start_upload_ok [of name fn ty] by simp_all
  show ?thesis
    using read_file_finds [OF assms, of B ?s rest] end_upload_received [OF w(1)] w(2) by (simp add: unat_of_nat)
qed

section \<open>A boundary that is missed\<close>

text \<open>
  A file that ends in the four bytes of a dash line hides the real one behind it: the bytes read
  to compare with the boundary are not looked at again.
\<close>

lemma boundary_missed:
  assumes "4 \<le> length B" "take 4 B \<noteq> dash_line"
  shows "read_file B u (dash_line @ dash_line @ B @ rest) =
    read_file B (write_bytes (dash_line @ dash_line @ take (length B - 4) B) u) (drop (length B - 4) B @ rest)"
proof -
  let ?e = "take (length B) (dash_line @ B @ rest)"
  have l: "length dash_line = 4" by (simp add: dash_line_def)
  have e: "?e = dash_line @ take (length B - 4) B" using assms(1) by (simp add: l)
  have "take 4 ?e = dash_line" unfolding e by (simp add: dash_line_def)
  then have ne: "?e \<noteq> B" using assms(2) by metis
  have d: "drop (length B) (dash_line @ B @ rest) = drop (length B - 4) B @ rest"
    using assms(1) by (simp add: l)
  have "read_file B u (dash_line @ (dash_line @ B @ rest)) =
      read_file B (write_bytes ([CR, LF, CHR ''-'', CHR ''-''] @ ?e) u) (drop (length B) (dash_line @ B @ rest))"
    unfolding dash_line_def [of] append.simps
    using ne by (subst read_file.simps) (simp add: dash_line_def Let_def)
  then show ?thesis unfolding d e by (simp add: dash_line_def)
qed

section \<open>Properties\<close>

text \<open>C23. A file that does not contain the line break and two dashes that precede a boundary reaches the
  upload handler unchanged, in pieces that fit its buffer, with its size, in the 32 bits of the counter, at the end, and the
  bytes after the boundary are left for the rest of the form.\<close>

theorem uploaded_file_arrives:
  assumes "strstr f dash_line = None"
  shows "\<exists>u. read_file B (start_upload name fn ty True) (f @ dash_line @ B @ rest) = File_end u rest \<and>
    received u = f \<and> unat (u_totalSize u) = length f mod 2 ^ 32 \<and> u_status u = UPLOAD_FILE_END \<and>
    (\<forall>(st, b, n) \<in> set (u_calls u). length b \<le> HTTP_UPLOAD_BUFLEN)"
  using assms by (rule uploaded_file)

theorem uploaded_file_arrives_witness:
  "\<exists>u. read_file ''XyZ'' (start_upload ''f'' ''keys.txt'' ''text/plain'' True)
      (''guest'' @ [CR, LF] @ ''cook;'' @ dash_line @ ''XyZ'' @ ''--'') = File_end u ''--'' \<and>
    received u = ''guest'' @ [CR, LF] @ ''cook;''"
proof -
  have "strstr (''guest'' @ [CR, LF] @ ''cook;'') dash_line = None" by (simp add: dash_line_def)
  from uploaded_file_arrives [OF this, of "''XyZ''" "''f''" "''keys.txt''" "''text/plain''" "''--''"]
  show ?thesis by simp blast
qed

end
