(* ===== verification/Http_Request.thy ===== *)
theory Http_Request
  imports Http_Routing Http_Upload
begin

text \<open>
  Reading a request: \<open>WebServer::_parseRequest\<close>, \<open>readBytesWithTimeout\<close> and \<open>_parseForm\<close>
  (\<open>replace_lib/WebServer/src/Parsing.cpp\<close>).  The client is the list of the bytes it sends before it
  stops; a read that would wait longer than its time limit finds the end of that list.
\<close>

section \<open>The server\<close>

record 'f http = http_args +
  currentMethod :: http_method
  currentUri :: string
  currentVersion :: u8
  hostHeader :: string
  chunked :: bool
  currentHandler :: "'f handler option"
  currentUpload :: "upload option"
  contentLength :: u32
  responseHeaders :: string
  corsEnabled :: bool
  srealm :: string
  snonce :: string
  sopaque :: string
  written :: bytes
    \<comment> \<open>what the current client has been sent\<close>

text \<open>The constructor.\<close>

definition new_server :: "'f http" where
  "new_server = \<lparr>currentArgs = [], postArgs = [], currentHeaders = [], currentMethod = HTTP_ANY, currentUri = [],
     currentVersion = 0, hostHeader = [], chunked = False, currentHandler = None, currentUpload = None,
     contentLength = 0, responseHeaders = [], corsEnabled = False, srealm = [], snonce = [], sopaque = [], written = []\<rparr>"

section \<open>Lines\<close>

definition read_until :: "char \<Rightarrow> bytes \<Rightarrow> string \<times> bytes" where
  "read_until c inp = (takeWhile (\<lambda>x. x \<noteq> c) inp, drop 1 (dropWhile (\<lambda>x. x \<noteq> c) inp))"

text \<open>\<open>readStringUntil('\r')\<close>, then \<open>readStringUntil('\n')\<close> whose result is not used.\<close>

definition read_line :: "bytes \<Rightarrow> string \<times> bytes" where
  "read_line inp = (let (line, r) = read_until CR inp in (line, snd (read_until LF r)))"

lemma read_line_le: "length (snd (read_line inp)) \<le> length inp - length (fst (read_line inp))"
proof -
  have a: "length (dropWhile P xs) = length xs - length (takeWhile P xs)" for P :: "char \<Rightarrow> bool" and xs
    by (metis add_diff_cancel_left' length_append takeWhile_dropWhile_id)
  have b: "length (dropWhile P xs) \<le> length xs" for P :: "char \<Rightarrow> bool" and xs by (rule length_dropWhile_le)
  have "length (drop 1 (dropWhile (\<lambda>x. x \<noteq> LF) (drop 1 (dropWhile (\<lambda>x. x \<noteq> CR) inp)))) \<le>
      length (dropWhile (\<lambda>x. x \<noteq> CR) inp)"
    using b [of "\<lambda>x. x \<noteq> LF" "drop 1 (dropWhile (\<lambda>x. x \<noteq> CR) inp)"] by simp
  then show ?thesis unfolding a by (simp add: read_line_def read_until_def)
qed

lemma read_line_crlf: "CR \<notin> set l \<Longrightarrow> read_line (l @ CR # LF # r) = (l, r)"
  by (auto simp: read_line_def read_until_def takeWhile_append dropWhile_append)

section \<open>The request line\<close>

definition parse_request_line :: "string \<Rightarrow> (string \<times> string \<times> u8) option" where
  "parse_request_line req =
     (let addr_start = index_of req '' '' 0;
          addr_end = index_of req '' '' (case addr_start of None \<Rightarrow> 0 | Some i \<Rightarrow> i + 1)
      in case addr_start of None \<Rightarrow> None
         | Some i \<Rightarrow> (case addr_end of None \<Rightarrow> None
            | Some j \<Rightarrow> Some (substring req 0 i, substring req (i + 1) j,
                               word_of_int (strtol (substring_from req (j + 8))))))"

definition split_search :: "string \<Rightarrow> string \<times> string" where
  "split_search url =
     (case index_of url ''?'' 0 of
        None \<Rightarrow> (url, [])
      | Some k \<Rightarrow> (substring url 0 k, substring_from url (k + 1)))"

definition method_of :: "string \<Rightarrow> http_method" where
  "method_of s =
     (if s = ''POST'' then HTTP_POST else if s = ''DELETE'' then HTTP_DELETE
      else if s = ''OPTIONS'' then HTTP_OPTIONS else if s = ''PUT'' then HTTP_PUT
      else if s = ''PATCH'' then HTTP_PATCH else HTTP_GET)"

definition has_body :: "http_method \<Rightarrow> bool" where
  "has_body m \<longleftrightarrow> m = HTTP_POST \<or> m = HTTP_PUT \<or> m = HTTP_PATCH \<or> m = HTTP_DELETE"

section \<open>Headers\<close>

record body_info =
  boundaryStr :: string
  isForm :: bool
  isEncoded :: bool
  bodyLength :: u32

text \<open>One header of a request with a body: collected, and read for what describes the body.\<close>

definition body_header :: "string \<Rightarrow> string \<Rightarrow> 'f http \<times> body_info \<Rightarrow> 'f http \<times> body_info" where
  "body_header name value sb =
     (let (s0, b) = sb; s = fst (collectHeader (cstr name) (cstr value) s0) in
      if equals_ignore_case name ''Content-Type'' then
        (if starts_with value ''text/plain'' then (s, b\<lparr>isForm := False\<rparr>)
         else if starts_with value ''application/x-www-form-urlencoded''
           then (s, b\<lparr>isForm := False, isEncoded := True\<rparr>)
         else if starts_with value ''multipart/''
           then (s, b\<lparr>boundaryStr := str_replace
                   (substring_from value (case index_of value ''='' 0 of None \<Rightarrow> 0 | Some k \<Rightarrow> k + 1)) [CHR 0x22] [],
                 isForm := True\<rparr>)
         else (s, b))
      else if equals_ignore_case name ''Content-Length'' then (s, b\<lparr>bodyLength := word_of_int (to_int value)\<rparr>)
      else if equals_ignore_case name ''Host'' then (s\<lparr>hostHeader := value\<rparr>, b)
      else (s, b))"

function body_headers :: "bytes \<Rightarrow> 'f http \<times> body_info \<Rightarrow> ('f http \<times> body_info) \<times> bytes" where
  "body_headers inp sb =
     (let (req, r) = read_line inp in
      if req = [] then (sb, r)
      else case index_of req '':'' 0 of
             None \<Rightarrow> (sb, r)
           | Some k \<Rightarrow> body_headers r (body_header (substring req 0 k) (trim (substring_from req (k + 1))) sb))"
  by pat_completeness auto
termination
proof (relation "measure (\<lambda>(inp, sb). length inp)", goal_cases)
  case (2 inp sb x req r k)
  then have "length r \<le> length inp - length req" "req \<noteq> []" "read_line inp = (req, r)"
    using read_line_le [of inp] by (auto simp: prod_eq_iff)
  moreover have "inp \<noteq> []" using calculation by (auto simp: read_line_def read_until_def)
  moreover have "0 < length req" "0 < length inp" using calculation by auto
  ultimately show ?case by (simp only: in_measure prod.case)
qed simp

text \<open>Without a body only \<open>Host\<close> is looked at; the character after the colon is skipped.\<close>

definition plain_header :: "string \<Rightarrow> string \<Rightarrow> 'f http \<Rightarrow> 'f http" where
  "plain_header name value s0 =
     (let s = fst (collectHeader (cstr name) (cstr value) s0) in
      if equals_ignore_case name ''Host'' then s\<lparr>hostHeader := value\<rparr> else s)"

function plain_headers :: "bytes \<Rightarrow> 'f http \<Rightarrow> 'f http \<times> bytes" where
  "plain_headers inp s =
     (let (req, r) = read_line inp in
      if req = [] then (s, r)
      else case index_of req '':'' 0 of
             None \<Rightarrow> (s, r)
           | Some k \<Rightarrow> plain_headers r (plain_header (substring req 0 k) (substring_from req (k + 2)) s))"
  by pat_completeness auto
termination
proof (relation "measure (\<lambda>(inp, s). length inp)", goal_cases)
  case (2 inp s x req r k)
  then have "length r \<le> length inp - length req" "req \<noteq> []" "read_line inp = (req, r)"
    using read_line_le [of inp] by (auto simp: prod_eq_iff)
  moreover have "inp \<noteq> []" using calculation by (auto simp: read_line_def read_until_def)
  moreover have "0 < length req" "0 < length inp" using calculation by auto
  ultimately show ?case by (simp only: in_measure prod.case)
qed simp

declare body_headers.simps [simp del] plain_headers.simps [simp del]

section \<open>The body\<close>

text \<open>
  \<open>readBytesWithTimeout\<close>: \<open>avails\<close> are the sizes of the pieces that are available in turn, 0
  when nothing arrives within the time limit.  A piece is read whole, beyond \<open>maxLength\<close> too.
\<close>

fun readBytesWithTimeout :: "nat list \<Rightarrow> nat \<Rightarrow> bytes \<Rightarrow> bytes \<Rightarrow> bytes \<times> bytes" where
  "readBytesWithTimeout [] maxLength buf inp = (buf, inp)"
| "readBytesWithTimeout (n # ns) maxLength buf inp =
     (if length buf < maxLength \<and> n \<noteq> 0
      then readBytesWithTimeout ns maxLength (buf @ take n inp) (drop n inp)
      else (buf, inp))"

section \<open>A multipart form\<close>

text \<open>The name and, for a file, the file name of a \<open>Content-Disposition\<close> line.\<close>

definition part_name :: "string \<Rightarrow> (string \<times> string option) option" where
  "part_name line =
     (case index_of line ''='' 0 of
        None \<Rightarrow> None
      | Some k \<Rightarrow>
          (let nam = substring_from line (k + 2) in
           case index_of nam ''='' 0 of
             None \<Rightarrow> Some (substring nam 0 (length nam - 1), None)
           | Some j \<Rightarrow>
               Some (substring nam 0 (case index_of nam [CHR 0x22] 0 of None \<Rightarrow> npos | Some q \<Rightarrow> q),
                     Some (substring nam (j + 2) (length nam - 1)))))"

definition is_disposition :: "string \<Rightarrow> bool" where
  "is_disposition line \<longleftrightarrow> 19 < length line \<and> equals_ignore_case (substring line 0 19) ''Content-Disposition''"

text \<open>The type of a part and the line that follows it.\<close>

definition part_type :: "bytes \<Rightarrow> string \<times> bytes" where
  "part_type inp =
     (let (line, r) = read_line inp in
      if 12 < length line \<and> equals_ignore_case (substring line 0 12) ''Content-Type''
      then (substring_from line (case index_of line '':'' 0 of None \<Rightarrow> 1 | Some k \<Rightarrow> k + 2), snd (read_line r))
      else (''text/plain'', r))"

text \<open>The lines of a field up to a boundary; fuel counts the lines.\<close>

fun read_field :: "nat \<Rightarrow> string \<Rightarrow> string \<Rightarrow> bytes \<Rightarrow> (string \<times> string \<times> bytes) option" where
  "read_field 0 B argValue inp = None"
| "read_field (Suc n) B argValue inp =
     (let (line, r) = read_line inp in
      if starts_with line (''--'' @ B) then Some (argValue, line, r)
      else read_field n B ((if argValue \<noteq> [] then argValue @ [LF] else argValue) @ line) r)"

definition WEBSERVER_MAX_POST_ARGS :: nat where "WEBSERVER_MAX_POST_ARGS = 32"

text \<open>
  The parts of a form; fuel counts lines and parts, no result is a loop that goes on.
  \<open>Form_overflow\<close> is a write behind the 32 arguments of \<open>_postArgs\<close>.
\<close>

datatype 'f form_result = Form_done "'f http" bytes | Form_failed "'f http" | Form_overflow | Form_garbled

definition may_upload :: "'f http \<Rightarrow> bool" where
  "may_upload s = (case currentHandler s of None \<Rightarrow> False | Some h \<Rightarrow> canUpload h (currentUri s))"

fun form_loop :: "nat \<Rightarrow> string \<Rightarrow> 'f http \<Rightarrow> bytes \<Rightarrow> 'f form_result option" where
  "form_loop 0 B s inp = None"
| "form_loop (Suc n) B s inp =
     (let (line, r) = read_line inp in
      case (if is_disposition line then part_name line else None) of
        None \<Rightarrow> form_loop n B s r
      | Some (name, fname) \<Rightarrow>
          (let (ty, r1) = part_type r in
           case fname of
             None \<Rightarrow>
               (case read_field n B [] r1 of
                  None \<Rightarrow> None
                | Some (v, last_line, r2) \<Rightarrow>
                    if WEBSERVER_MAX_POST_ARGS \<le> length (postArgs s) then Some Form_overflow
                    else (let s1 = s\<lparr>postArgs := postArgs s @ [(name, v)]\<rparr> in
                          if last_line = ''--'' @ B @ ''--'' then Some (Form_done s1 r2)
                          else form_loop n B s1 r2))
           | Some f0 \<Rightarrow>
               (let f = (if f0 = ''blob'' \<and> hasArg ''filename'' s then arg_named ''filename'' s else f0) in
                case read_file B (start_upload name f ty (may_upload s)) r1 of
                  Aborted u \<Rightarrow> Some (Form_failed (s\<lparr>currentUpload := Some u\<rparr>))
                | Garbled u \<Rightarrow> Some Form_garbled
                | File_end u r2 \<Rightarrow>
                    (let s1 = s\<lparr>currentUpload := Some u\<rparr>; (line2, r3) = read_line r2 in
                     if line2 = ''--'' then Some (Form_done s1 r3) else form_loop n B s1 r3))))"

text \<open>The arguments of the query follow those of the form.\<close>

definition merge_args :: "'f http \<Rightarrow> 'f http" where
  "merge_args s =
     s\<lparr>currentArgs := postArgs s @ take (WEBSERVER_MAX_POST_ARGS - length (postArgs s)) (currentArgs s),
       postArgs := []\<rparr>"

fun first_line :: "nat \<Rightarrow> bytes \<Rightarrow> string \<times> bytes" where
  "first_line 0 inp = ([], inp)"
| "first_line (Suc n) inp =
     (let (line, r) = read_until CR inp in if line = [] then first_line n r else (line, r))"

definition parseForm :: "nat \<Rightarrow> string \<Rightarrow> 'f http \<Rightarrow> bytes \<Rightarrow> 'f form_result option" where
  "parseForm fuel B s inp =
     (let (line, r0) = first_line 3 inp; r = snd (read_until LF r0) in
      if line = ''--'' @ B then
        (case form_loop fuel B (s\<lparr>postArgs := []\<rparr>) r of
           None \<Rightarrow> None
         | Some (Form_done s1 r1) \<Rightarrow> Some (Form_done (merge_args s1) r1)
         | Some res \<Rightarrow> Some res)
      else Some (Form_failed s))"

section \<open>The request\<close>

text \<open>\<open>Parsed\<close> and \<open>Rejected\<close> are the two results of \<open>_parseRequest\<close>.\<close>

datatype 'f request_result = Parsed "'f http" | Rejected "'f http" | Request_overflow | Request_garbled

definition begin_request :: "'f handler list \<Rightarrow> string \<Rightarrow> string \<Rightarrow> u8 \<Rightarrow> 'f http \<Rightarrow> 'f http" where
  "begin_request hs methodStr uri version s =
     s\<lparr>currentVersion := version, currentUri := uri, chunked := False, currentMethod := method_of methodStr,
       currentHandler := find_handler hs (method_of methodStr) uri\<rparr>"

definition set_args :: "string \<Rightarrow> 'f http \<Rightarrow> 'f http" where
  "set_args data s = s\<lparr>currentArgs := parseArguments data\<rparr>"

definition parse_body :: "nat \<Rightarrow> nat list \<Rightarrow> string \<Rightarrow> 'f http \<Rightarrow> body_info \<Rightarrow> bytes \<Rightarrow> 'f request_result option" where
  "parse_body fuel avails searchStr s b inp =
     (if isForm b then
        (case parseForm fuel (boundaryStr b) (set_args searchStr s) inp of
           None \<Rightarrow> None
         | Some (Form_done s1 r) \<Rightarrow> Some (Parsed s1)
         | Some (Form_failed s1) \<Rightarrow> Some (Rejected s1)
         | Some Form_overflow \<Rightarrow> Some Request_overflow
         | Some Form_garbled \<Rightarrow> Some Request_garbled)
      else
        (let len = unat (bodyLength b); plainBuf = fst (readBytesWithTimeout avails len [] inp) in
         if length plainBuf < len then Some (Rejected s)
         else if 0 < len then
           (if isEncoded b
            then Some (Parsed (set_args ((if searchStr \<noteq> [] then searchStr @ ''&'' else []) @ cstr plainBuf) s))
            else (let s1 = set_args searchStr s in
                  Some (Parsed (s1\<lparr>currentArgs := currentArgs s1 @ [(''plain'', cstr plainBuf)]\<rparr>))))
         else Some (Parsed (set_args searchStr s))))"

definition no_body :: body_info where
  "no_body = \<lparr>boundaryStr = [], isForm = False, isEncoded = False, bodyLength = 0\<rparr>"

definition parseRequest ::
  "nat \<Rightarrow> nat list \<Rightarrow> 'f handler list \<Rightarrow> 'f http \<Rightarrow> bytes \<Rightarrow> 'f request_result option" where
  "parseRequest fuel avails hs s0 inp =
     (let (req, r) = read_line inp; s1 = reset_headers s0 in
      case parse_request_line req of
        None \<Rightarrow> Some (Rejected s1)
      | Some (methodStr, url, version) \<Rightarrow>
          (let (uri, searchStr) = split_search url; s2 = begin_request hs methodStr uri version s1 in
           if has_body (method_of methodStr)
           then (let ((s3, b), r3) = body_headers r (s2, no_body)
                 in parse_body fuel avails searchStr s3 b r3)
           else Some (Parsed (set_args searchStr (fst (plain_headers r s2))))))"

section \<open>Requests as they are written\<close>

definition header_lines :: "(string \<times> string) list \<Rightarrow> string" where
  "header_lines hdrs = concat (map (\<lambda>(k, v). k @ '': '' @ v @ [CR, LF]) hdrs)"

definition header_ok :: "string \<times> string \<Rightarrow> bool" where
  "header_ok kv \<longleftrightarrow> fst kv \<noteq> [] \<and> CHR '':'' \<notin> set (fst kv) \<and>
     CR \<notin> set (fst kv) \<and> CR \<notin> set (snd kv) \<and> nul \<notin> set (fst kv) \<and> nul \<notin> set (snd kv)"

definition uri_ok :: "string \<Rightarrow> bool" where
  "uri_ok uri \<longleftrightarrow> CHR '' '' \<notin> set uri \<and> CHR ''?'' \<notin> set uri \<and> CR \<notin> set uri \<and> nul \<notin> set uri"

text \<open>The query is written by the sender: \<open>es\<close> are the texts for names and values, \<open>b\<close> a single name behind
  them.\<close>

definition get_request :: "string \<Rightarrow> (string \<times> string) list \<Rightarrow> string option \<Rightarrow> (string \<times> string) list \<Rightarrow> bytes" where
  "get_request uri es b hdrs =
     ''GET '' @ uri @ ''?'' @ query_string es b @ '' HTTP/1.1'' @ [CR, LF] @ header_lines hdrs @ [CR, LF]"

definition post_request :: "string \<Rightarrow> (string \<times> string) list \<Rightarrow> (string \<times> string) list \<Rightarrow> string option \<Rightarrow> bytes" where
  "post_request uri hdrs es b =
     ''POST '' @ uri @ '' HTTP/1.1'' @ [CR, LF] @ header_lines hdrs @
     ''Content-Type: application/x-www-form-urlencoded'' @ [CR, LF] @
     ''Content-Length: '' @ dec (length (query_string es b)) @ [CR, LF, CR, LF] @ query_string es b"

section \<open>The request line is found\<close>

lemma index_of_char: "nul \<notin> set (u @ t) \<Longrightarrow> c \<notin> set u \<Longrightarrow> c \<noteq> nul \<Longrightarrow> index_of (u @ c # t) [c] 0 = Some (length u)"
  using index_of_found [of "[]" u c t] by simp

lemma index_of_char_absent: "nul \<notin> set u \<Longrightarrow> c \<notin> set u \<Longrightarrow> c \<noteq> nul \<Longrightarrow> index_of u [c] 0 = None"
  using index_of_absent [of "[]" u c] by simp

lemma drop_length_plus: "drop (length xs + n) (xs @ ys) = drop n ys"
  by simp

lemma parse_request_line_http:
  assumes "CHR '' '' \<notin> set m" "nul \<notin> set m" "CHR '' '' \<notin> set url" "nul \<notin> set url"
  shows "parse_request_line (m @ '' '' @ url @ '' HTTP/1.1'') = Some (m, url, 1)"
proof -
  let ?r = "m @ CHR '' '' # url @ CHR '' '' # ''HTTP/1.1''"
  have a: "index_of ?r '' '' 0 = Some (length m)" by (rule index_of_char) (use assms in simp_all)
  have "index_of ((m @ '' '') @ url @ CHR '' '' # ''HTTP/1.1'') '' '' (length (m @ '' '')) = Some (length (m @ '' '') + length url)"
    by (rule index_of_found) (use assms in simp_all)
  then have b: "index_of ?r '' '' (length m + 1) = Some (length m + 1 + length url)" by simp
  have v: "strtol ''1'' = 1"
    by (simp add: strtol_def scan_number_def cstr_def digits_val_def digit_val_def is_digit_def is_space_def
        int32_max_def)
  have "drop (length (m @ '' '' @ url) + 8) ((m @ '' '' @ url) @ '' HTTP/1.1'') = ''1''"
    by (simp only: drop_length_plus) simp
  then have d: "substring_from ?r (length m + 1 + length url + 8) = ''1''"
    by (simp add: str_simps)
  have s: "substring ?r 0 (length m) = m" "substring ?r (length m + 1) (length m + 1 + length url) = url"
    by (simp_all add: str_simps)
  have r: "m @ '' '' @ url @ '' HTTP/1.1'' = ?r" by simp
  show ?thesis unfolding r parse_request_line_def Let_def a b option.case s d v by simp
qed

lemma split_search_query:
  assumes "CHR ''?'' \<notin> set uri" "nul \<notin> set uri" "nul \<notin> set q"
  shows "split_search (uri @ CHR ''?'' # q) = (uri, q)"
  using index_of_char [of uri q "CHR ''?''"] assms by (simp add: split_search_def str_simps)

lemma split_search_none: "CHR ''?'' \<notin> set uri \<Longrightarrow> nul \<notin> set uri \<Longrightarrow> split_search uri = (uri, [])"
  using index_of_char_absent [of uri "CHR ''?''"] by (simp add: split_search_def)

section \<open>Headers are read one by one\<close>

lemma header_lines_Cons: "header_lines ((k, v) # hdrs) = (k @ '': '' @ v) @ CR # LF # header_lines hdrs"
  by (simp add: header_lines_def)

lemma header_colon: "header_ok (k, v) \<Longrightarrow> index_of (k @ CHR '':'' # CHR '' '' # v) '':'' 0 = Some (length k)"
  by (rule index_of_char) (simp_all add: header_ok_def)

lemma plain_headers_lines:
  "\<forall>kv \<in> set hdrs. header_ok kv \<Longrightarrow>
     plain_headers (header_lines hdrs @ CR # LF # r) s = (fold (\<lambda>(k, v). plain_header k v) hdrs s, r)"
proof (induction hdrs arbitrary: s)
  case Nil
  have "read_line ([] @ CR # LF # r) = ([], r)" by (rule read_line_crlf) simp
  then show ?case by (subst plain_headers.simps) (simp add: header_lines_def)
next
  case (Cons kv hdrs)
  obtain k v where kv: "kv = (k, v)" by fastforce
  have ok: "header_ok (k, v)" using Cons.prems kv by simp
  have l: "read_line ((k @ '': '' @ v) @ CR # LF # header_lines hdrs @ CR # LF # r) =
      (k @ '': '' @ v, header_lines hdrs @ CR # LF # r)"
    by (rule read_line_crlf) (use ok in \<open>auto simp: header_ok_def\<close>)
  show ?case
    using l Cons.IH [of "plain_header k v s"] Cons.prems header_colon [OF ok]
    by (subst plain_headers.simps) (simp add: kv header_lines_Cons str_simps)
qed

lemma get_request_parsed:
  assumes "uri_ok uri" "\<forall>kv \<in> set hdrs. header_ok kv" "written_args ps es" "bare_ok b"
  shows "parseRequest fuel avails hs s (get_request uri es b hdrs) =
    Some (Parsed ((fold (\<lambda>(k, v). plain_header k v) hdrs
      (begin_request hs ''GET'' uri 1 (reset_headers s)))\<lparr>currentArgs := ps @ bare_arg b\<rparr>))"
proof -
  let ?q = "query_string es b"
  let ?url = "uri @ CHR ''?'' # ?q" and ?r = "header_lines hdrs @ CR # LF # []"
  have q: "CHR '' '' \<notin> set ?q" "CR \<notin> set ?q" "nul \<notin> set ?q"
    by (rule query_string_notin [OF assms(3,4)]; simp)+
  have l: "read_line ((''GET'' @ '' '' @ ?url @ '' HTTP/1.1'') @ CR # LF # ?r) = (''GET'' @ '' '' @ ?url @ '' HTTP/1.1'', ?r)"
    by (rule read_line_crlf) (use assms(1) q in \<open>simp add: uri_ok_def\<close>)
  have p: "parse_request_line (''GET'' @ '' '' @ ?url @ '' HTTP/1.1'') = Some (''GET'', ?url, 1)"
    by (rule parse_request_line_http) (use assms(1) q in \<open>simp_all add: uri_ok_def\<close>)
  have sp: "split_search ?url = (uri, ?q)"
    by (rule split_search_query) (use assms(1) q in \<open>simp_all add: uri_ok_def\<close>)
  have g: "get_request uri es b hdrs = (''GET'' @ '' '' @ ?url @ '' HTTP/1.1'') @ CR # LF # ?r"
    by (simp add: get_request_def)
  have nb: "\<not> has_body (method_of ''GET'')" by (simp add: has_body_def method_of_def)
  show ?thesis
    unfolding g parseRequest_def l Let_def prod.case p option.case sp
    using nb plain_headers_lines [OF assms(2), of "[]" "begin_request hs ''GET'' uri 1 (reset_headers s)"]
    by (simp add: set_args_def parseArguments_query [OF assms(3,4)])
qed

section \<open>A posted form is read\<close>

lemma body_headers_lines:
  "\<forall>kv \<in> set hdrs. header_ok kv \<Longrightarrow>
     body_headers (header_lines hdrs @ CR # LF # r) sb = (fold (\<lambda>(k, v). body_header k (trim (CHR '' '' # v))) hdrs sb, r)"
proof (induction hdrs arbitrary: sb)
  case Nil
  have "read_line ([] @ CR # LF # r) = ([], r)" by (rule read_line_crlf) simp
  then show ?case by (subst body_headers.simps) (simp add: header_lines_def)
next
  case (Cons kv hdrs)
  obtain k v where kv: "kv = (k, v)" by fastforce
  have ok: "header_ok (k, v)" using Cons.prems kv by simp
  have l: "read_line ((k @ '': '' @ v) @ CR # LF # header_lines hdrs @ CR # LF # r) =
      (k @ '': '' @ v, header_lines hdrs @ CR # LF # r)"
    by (rule read_line_crlf) (use ok in \<open>auto simp: header_ok_def\<close>)
  show ?case
    using l Cons.IH [of "body_header k (trim (CHR '' '' # v)) sb"] Cons.prems header_colon [OF ok]
    by (subst body_headers.simps) (simp add: kv header_lines_Cons str_simps)
qed

lemma trim_space: "trim (CHR '' '' # v) = trim v"
  by (simp add: trim_def is_space_def)

definition form_headers :: "nat \<Rightarrow> (string \<times> string) list" where
  "form_headers n = [(''Content-Type'', ''application/x-www-form-urlencoded''), (''Content-Length'', dec n)]"

lemma dec_not_space: "c \<in> set (dec n) \<Longrightarrow> \<not> is_space c \<and> c \<noteq> CR \<and> c \<noteq> nul"
  using dec_digits [of c n] by (auto simp: is_digit_def is_space_def)

lemma form_headers_ok: "kv \<in> set (form_headers n) \<Longrightarrow> header_ok kv"
  using dec_not_space [of CR n] dec_not_space [of nul n] by (auto simp: form_headers_def header_ok_def)

lemma same_header: "equals_ignore_case k k"
  by (simp add: equals_ignore_case_def)

lemma starts_with_self: "starts_with p p"
  by (simp add: starts_with_def)

lemma body_header_type:
  "body_header ''Content-Type'' ''application/x-www-form-urlencoded'' (s, b) =
     (fst (collectHeader (cstr ''Content-Type'') (cstr ''application/x-www-form-urlencoded'') s),
      b\<lparr>isForm := False, isEncoded := True\<rparr>)"
proof -
  have "\<not> starts_with ''application/x-www-form-urlencoded'' ''text/plain''"
    by (simp add: starts_with_def)
  then show ?thesis
    unfolding body_header_def Let_def prod.case by (simp only: same_header starts_with_self if_True if_False)
qed

lemma body_header_length:
  "body_header ''Content-Length'' v (s, b) =
     (fst (collectHeader (cstr ''Content-Length'') (cstr v) s), b\<lparr>bodyLength := word_of_int (to_int v)\<rparr>)"
proof -
  have "\<not> equals_ignore_case ''Content-Length'' ''Content-Type''"
    by (simp add: equals_ignore_case_def to_lower_def)
  then show ?thesis
    unfolding body_header_def Let_def prod.case by (simp only: same_header if_True if_False)
qed

lemma form_headers_read:
  assumes "int n \<le> int32_max"
  shows "\<exists>s' b'. fold (\<lambda>(k, v). body_header k (trim v)) (form_headers n) sb = (s', b') \<and>
    \<not> isForm b' \<and> isEncoded b' \<and> unat (bodyLength b') = n"
proof -
  have t1: "trim ''application/x-www-form-urlencoded'' = ''application/x-www-form-urlencoded''"
    by (simp add: trim_def is_space_def)
  have t2: "trim (dec n) = dec n"
    by (rule trim_id) (use dec_not_space in blast)
  note t = t1 t2
  have "strtol (dec_int (int n)) = int n"
    using assms by (intro strtol_dec_int) (simp add: in_int32_def int32_min_def)
  then have "to_int (dec n) = int n" by (simp add: to_int_def dec_int_def)
  moreover have "unat (word_of_int (int n) :: u32) = n"
  proof -
    have "n < 2 ^ LENGTH(32)" using assms by (simp add: int32_max_def)
    then have "unat (of_nat n :: u32) = n" by (simp only: unsigned_of_nat take_bit_nat_eq_self of_nat_id)
    then show ?thesis by (simp only: of_int_of_nat_eq)
  qed
  ultimately have l: "unat (word_of_int (to_int (dec n)) :: u32) = n" by simp
  obtain s b where sb: "sb = (s, b)" by fastforce
  let ?s = "fst (collectHeader (cstr ''Content-Length'') (cstr (dec n))
      (fst (collectHeader (cstr ''Content-Type'') (cstr ''application/x-www-form-urlencoded'') s)))"
  have "fold (\<lambda>(k, v). body_header k (trim v)) (form_headers n) sb =
      (?s, b\<lparr>isForm := False, isEncoded := True, bodyLength := word_of_int (to_int (dec n))\<rparr>)"
    unfolding sb form_headers_def fold_simps prod.case t body_header_type body_header_length by (rule refl)
  then show ?thesis using l by (intro exI conjI) (assumption, simp_all)
qed

lemma readBytes_all:
  "0 \<notin> set avails \<Longrightarrow> sum_list avails = length inp \<Longrightarrow>
     fst (readBytesWithTimeout avails (length buf + length inp) buf inp) = buf @ inp"
proof (induction avails arbitrary: buf inp)
  case (Cons n ns)
  then have n: "n \<le> length inp" "0 < n" "inp \<noteq> []" by auto
  have "fst (readBytesWithTimeout ns (length (buf @ take n inp) + length (drop n inp)) (buf @ take n inp) (drop n inp)) =
      (buf @ take n inp) @ drop n inp"
    by (rule Cons.IH) (use Cons.prems in auto)
  then show ?case using n by simp
qed simp

lemma post_request_parsed:
  assumes "uri_ok uri" "\<forall>kv \<in> set hdrs. header_ok kv" "written_args ps es" "bare_ok b" "es \<noteq> [] \<or> b \<noteq> None"
    and "int (length (query_string es b)) \<le> int32_max"
    and "0 \<notin> set avails" "sum_list avails = length (query_string es b)"
  shows "parseRequest fuel avails hs s (post_request uri hdrs es b) =
    Some (Parsed ((fst (fold (\<lambda>(k, v). body_header k (trim v)) (hdrs @ form_headers (length (query_string es b)))
      (begin_request hs ''POST'' uri 1 (reset_headers s), no_body)))\<lparr>currentArgs := ps @ bare_arg b\<rparr>))"
proof -
  let ?q = "query_string es b" and ?s = "begin_request hs ''POST'' uri 1 (reset_headers s)"
  let ?h = "hdrs @ form_headers (length ?q)"
  let ?r = "header_lines ?h @ CR # LF # ?q"
  have l: "read_line ((''POST'' @ '' '' @ uri @ '' HTTP/1.1'') @ CR # LF # ?r) = (''POST'' @ '' '' @ uri @ '' HTTP/1.1'', ?r)"
    by (rule read_line_crlf) (use assms(1) in \<open>simp add: uri_ok_def\<close>)
  have p: "parse_request_line (''POST'' @ '' '' @ uri @ '' HTTP/1.1'') = Some (''POST'', uri, 1)"
    by (rule parse_request_line_http) (use assms(1) in \<open>simp_all add: uri_ok_def\<close>)
  have sp: "split_search uri = (uri, [])"
    by (rule split_search_none) (use assms(1) in \<open>simp_all add: uri_ok_def\<close>)
  have g: "post_request uri hdrs es b = (''POST'' @ '' '' @ uri @ '' HTTP/1.1'') @ CR # LF # ?r"
    by (simp add: post_request_def header_lines_def form_headers_def)
  have m: "has_body (method_of ''POST'')" by (simp add: has_body_def method_of_def)
  have hok: "\<forall>kv \<in> set ?h. header_ok kv" using assms(2) form_headers_ok by auto
  have h: "body_headers ?r (?s, no_body) = (fold (\<lambda>(k, v). body_header k (trim v)) ?h (?s, no_body), ?q)"
    using body_headers_lines [OF hok] by (simp add: trim_space)
  obtain s' b' where f: "fold (\<lambda>(k, v). body_header k (trim v)) ?h (?s, no_body) = (s', b')"
    "\<not> isForm b'" "isEncoded b'" "unat (bodyLength b') = length ?q"
    using form_headers_read [OF assms(6), of "fold (\<lambda>(k, v). body_header k (trim v)) hdrs (?s, no_body)"] by auto
  have q: "cstr ?q = ?q" "0 < length ?q"
    using query_string_plain [OF assms(3,4)] query_string_nonempty [OF assms(5,4)] by (simp_all add: cstr_id)
  have rb: "fst (readBytesWithTimeout avails (length ?q) [] ?q) = ?q"
    using readBytes_all [of avails ?q "[]"] assms(7,8) by simp
  show ?thesis
    unfolding g parseRequest_def l Let_def prod.case p option.case sp h f(1)
    using m f(2-4) q rb by (simp add: parse_body_def set_args_def parseArguments_query [OF assms(3,4)])
qed

section \<open>A form that breaks off\<close>

lemma form_loop_end: "form_loop fuel B s [] = None"
  by (induction fuel) (simp_all add: read_line_def read_until_def is_disposition_def)

lemma parseForm_end: "CR \<notin> set B \<Longrightarrow> parseForm fuel B s (''--'' @ B @ [CR, LF]) = None"
proof -
  assume B: "CR \<notin> set B"
  have "read_until CR ((''--'' @ B) @ CR # [LF]) = (''--'' @ B, [LF])"
    using B by (auto simp: read_until_def takeWhile_append dropWhile_append)
  then have "first_line 3 ((''--'' @ B) @ CR # [LF]) = (''--'' @ B, [LF])"
    by (simp add: numeral_3_eq_3)
  then show ?thesis
    by (simp add: parseForm_def form_loop_end read_until_def)
qed

section \<open>Properties\<close>

text \<open>C25. A GET request is read as it was written, by a browser or by hand in a link: its handler is the one its
  path selects, its headers are collected in order, and its arguments are exactly the names and values of
  the query, whether a character was written as itself, a space as a plus sign, or either as an escape with
  digits of either case; a single name behind them, as in the links of COMMANDS.txt, is an argument without
  a value.\<close>

theorem get_request_is_read:
  assumes "uri_ok uri" "\<forall>kv \<in> set hdrs. header_ok kv" "written_args ps es" "bare_ok b"
  shows "parseRequest fuel avails hs s (get_request uri es b hdrs) =
    Some (Parsed ((fold (\<lambda>(k, v). plain_header k v) hdrs
      (begin_request hs ''GET'' uri 1 (reset_headers s)))\<lparr>currentArgs := ps @ bare_arg b\<rparr>))"
  using assms by (rule get_request_parsed)

theorem get_request_is_read_witness:
  "parseRequest 0 [] routes new_server
      (''GET /cmd?KEY=my+k%65y%2A&LOADFROMHOST HTTP/1.1'' @ [CR, LF] @ ''Host: lock'' @ [CR, LF, CR, LF]) =
    Some (Parsed ((plain_header ''Host'' ''lock'' (begin_request routes ''GET'' ''/cmd'' 1 (reset_headers new_server)))
      \<lparr>currentArgs := [(''KEY'', ''my key*''), (''LOADFROMHOST'', [])]\<rparr>))"
proof -
  let ?es = "[(''KEY'', ''my+k%65y%2A'')]" and ?b = "Some ''LOADFROMHOST''"
  have "encodes ''KEY'' ''KEY''" "encodes ''my key*'' ''my+k%65y%2A''"
    by (intro encodes.intros; simp add: plain_char_def writes_digit_def)+
  then have "uri_ok ''/cmd''" "\<forall>kv \<in> set [(''Host'', ''lock'')]. header_ok kv"
    "written_args [(''KEY'', ''my key*'')] ?es" "bare_ok ?b"
    by (simp_all add: uri_ok_def header_ok_def written_args_def bare_ok_def plain_char_def)
  from get_request_is_read [OF this, of 0 "[]" routes new_server]
  show ?thesis by (simp add: get_request_def header_lines_def bare_arg_def)
qed

text \<open>C24. A form posted in the encoding a browser uses for the login page, or any other way to write the
  same names and values, is read completely however its body is split into pieces on the way, and gives
  exactly the names and values it was written from.\<close>

theorem posted_form_is_read:
  assumes "uri_ok uri" "\<forall>kv \<in> set hdrs. header_ok kv" "written_args ps es" "bare_ok b" "es \<noteq> [] \<or> b \<noteq> None"
    and "int (length (query_string es b)) \<le> int32_max"
    and "0 \<notin> set avails" "sum_list avails = length (query_string es b)"
  shows "parseRequest fuel avails hs s (post_request uri hdrs es b) =
    Some (Parsed ((fst (fold (\<lambda>(k, v). body_header k (trim v)) (hdrs @ form_headers (length (query_string es b)))
      (begin_request hs ''POST'' uri 1 (reset_headers s), no_body)))\<lparr>currentArgs := ps @ bare_arg b\<rparr>))"
  using assms by (rule post_request_parsed)

theorem posted_form_is_read_witness:
  "\<exists>s'. parseRequest 0 [4, 21] routes new_server
      (''POST /login HTTP/1.1'' @ [CR, LF] @ ''Content-Type: application/x-www-form-urlencoded'' @ [CR, LF] @
       ''Content-Length: 25'' @ [CR, LF, CR, LF] @ ''key=my+key%26cmd%3Dopen.1'') =
    Some (Parsed (s'\<lparr>currentArgs := [(''key'', ''my key&cmd=open.1'')]\<rparr>))"
proof -
  let ?es = "[(''key'', ''my+key%26cmd%3Dopen.1'')]"
  have q: "length (query_string ?es None) = 25" by simp
  have d: "dec 25 = ''25''" by code_simp
  have "encodes ''key'' ''key''" "encodes ''my key&cmd=open.1'' ''my+key%26cmd%3Dopen.1''"
    by (intro encodes.intros; simp add: plain_char_def writes_digit_def)+
  then have "uri_ok ''/login''" "\<forall>kv \<in> set []. header_ok kv" "written_args [(''key'', ''my key&cmd=open.1'')] ?es"
    "bare_ok None" "?es \<noteq> [] \<or> None \<noteq> (None :: string option)" "int (length (query_string ?es None)) \<le> int32_max"
    "0 \<notin> set [4, 21 :: nat]" "sum_list [4, 21] = length (query_string ?es None)"
    by (simp_all add: q uri_ok_def int32_max_def written_args_def bare_ok_def del: query_string.simps)
  from posted_form_is_read [OF this, of 0 routes new_server] d
  have "\<exists>s'. parseRequest 0 [4, 21] routes new_server (post_request ''/login'' [] ?es None) =
      Some (Parsed (s'\<lparr>currentArgs := [(''key'', ''my key&cmd=open.1'')]\<rparr>))"
    by (simp only: bare_arg_def option.case append_Nil2) blast
  moreover have "post_request ''/login'' [] ?es None =
      ''POST /login HTTP/1.1'' @ [CR, LF] @ ''Content-Type: application/x-www-form-urlencoded'' @ [CR, LF] @
      ''Content-Length: 25'' @ [CR, LF, CR, LF] @ ''key=my+key%26cmd%3Dopen.1''"
    unfolding post_request_def header_lines_def q d by simp
  ultimately show ?thesis by (simp only:)
qed

text \<open>C28. A multipart form that breaks off behind its first boundary is never given up: the loop that looks
  for the next part goes on however long it runs.\<close>

theorem broken_form_never_ends:
  assumes "CR \<notin> set B"
  shows "parseForm fuel B s (''--'' @ B @ [CR, LF]) = None"
  using assms by (rule parseForm_end)

theorem broken_form_never_ends_witness:
  "parseForm 1000 ''XyZ'' (new_server :: callback http) (''--XyZ'' @ [CR, LF]) = None"
  using broken_form_never_ends [of "''XyZ''" 1000 new_server] by simp

end
