(* ===== verification/Http_Response.thy ===== *)
theory Http_Response
  imports Http_Request
begin

text \<open>
  Answering a request and serving a client (\<open>replace_lib/WebServer/src/WebServer.cpp\<close>): response
  headers, plain and chunked bodies, the call of the chosen handler, the state machine of
  \<open>handleClient\<close> and \<open>authenticate\<close>.  \<open>written\<close> is what the client is handed; memory for the
  chunk sizes is available.  The MD5 sum and the base64 text come from libraries that are not part of
  the source and are arguments.
\<close>

section \<open>Headers of a response\<close>

definition responseCodeToString :: "int \<Rightarrow> string" where
  "responseCodeToString code =
     (case map_of
       [(100, ''Continue''), (101, ''Switching Protocols''), (200, ''OK''), (201, ''Created''),
        (202, ''Accepted''), (203, ''Non-Authoritative Information''), (204, ''No Content''),
        (205, ''Reset Content''), (206, ''Partial Content''), (300, ''Multiple Choices''),
        (301, ''Moved Permanently''), (302, ''Found''), (303, ''See Other''), (304, ''Not Modified''),
        (305, ''Use Proxy''), (307, ''Temporary Redirect''), (400, ''Bad Request''), (401, ''Unauthorized''),
        (402, ''Payment Required''), (403, ''Forbidden''), (404, ''Not Found''), (405, ''Method Not Allowed''),
        (406, ''Not Acceptable''), (407, ''Proxy Authentication Required''), (408, ''Request Time-out''),
        (409, ''Conflict''), (410, ''Gone''), (411, ''Length Required''), (412, ''Precondition Failed''),
        (413, ''Request Entity Too Large''), (414, ''Request-URI Too Large''), (415, ''Unsupported Media Type''),
        (416, ''Requested range not satisfiable''), (417, ''Expectation Failed''),
        (500, ''Internal Server Error''), (501, ''Not Implemented''), (502, ''Bad Gateway''),
        (503, ''Service Unavailable''), (504, ''Gateway Time-out''), (505, ''HTTP Version not supported'')] code of
        None \<Rightarrow> [] | Some t \<Rightarrow> t)"

definition CONTENT_LENGTH_UNKNOWN :: u32 where "CONTENT_LENGTH_UNKNOWN = - 1"
definition CONTENT_LENGTH_NOT_SET :: u32 where "CONTENT_LENGTH_NOT_SET = - 2"

abbreviation "crlf \<equiv> [CR, LF]"

definition sendHeader :: "string \<Rightarrow> string \<Rightarrow> bool \<Rightarrow> 'f http \<Rightarrow> 'f http" where
  "sendHeader name value first s =
     (let headerLine = name @ '': '' @ value @ crlf in
      s\<lparr>responseHeaders := (if first then headerLine @ responseHeaders s else responseHeaders s @ headerLine)\<rparr>)"

definition setContentLength :: "u32 \<Rightarrow> 'f http \<Rightarrow> 'f http" where
  "setContentLength n s = s\<lparr>contentLength := n\<rparr>"

definition enableCORS :: "bool \<Rightarrow> 'f http \<Rightarrow> 'f http" where
  "enableCORS v s = s\<lparr>corsEnabled := v\<rparr>"

text \<open>\<open>None\<close> as the content type is the null pointer.\<close>

definition prepareHeader :: "int \<Rightarrow> string option \<Rightarrow> u32 \<Rightarrow> 'f http \<Rightarrow> string \<times> 'f http" where
  "prepareHeader code content_type len s =
     (let response = ''HTTP/1.'' @ dec (unat (currentVersion s)) @ '' '' @ dec_int code @ '' '' @
            responseCodeToString code @ crlf;
          s1 = sendHeader ''Content-Type'' (case content_type of None \<Rightarrow> ''text/html'' | Some t \<Rightarrow> t) True s;
          s2 = (if contentLength s1 = CONTENT_LENGTH_NOT_SET
                then sendHeader ''Content-Length'' (dec (unat len)) False s1
                else if contentLength s1 \<noteq> CONTENT_LENGTH_UNKNOWN
                then sendHeader ''Content-Length'' (dec (unat (contentLength s1))) False s1
                else if currentVersion s1 \<noteq> 0
                then sendHeader ''Transfer-Encoding'' ''chunked'' False
                       (sendHeader ''Accept-Ranges'' ''none'' False (s1\<lparr>chunked := True\<rparr>))
                else s1);
          s3 = (if corsEnabled s2 then sendHeader ''Access-Control-Allow-Origin'' ''*'' False s2 else s2);
          s4 = sendHeader ''Connection'' ''close'' False s3
      in (response @ responseHeaders s4 @ crlf, s4\<lparr>responseHeaders := []\<rparr>))"

section \<open>Bodies\<close>

definition currentClientWrite :: "bytes \<Rightarrow> 'f http \<Rightarrow> 'f http" where
  "currentClientWrite b s = s\<lparr>written := written s @ b\<rparr>"

text \<open>\<open>%x\<close>\<close>

definition hex_nibble :: "nat \<Rightarrow> char" where
  "hex_nibble d = (if d < 10 then char_of (48 + d) else char_of (87 + d))"

fun hex_text :: "nat \<Rightarrow> string" where
  "hex_text n = (if n < 16 then [hex_nibble n] else hex_text (n div 16) @ [hex_nibble (n mod 16)])"

declare hex_text.simps [simp del]

definition sendContent :: "string \<Rightarrow> 'f http \<Rightarrow> 'f http" where
  "sendContent content s =
     (let len = length content;
          s1 = (if chunked s then currentClientWrite (hex_text len @ crlf) s else s);
          s2 = currentClientWrite content s1
      in if chunked s2
         then (let s3 = currentClientWrite crlf s2 in if len = 0 then s3\<lparr>chunked := False\<rparr> else s3)
         else s2)"

definition send :: "int \<Rightarrow> string option \<Rightarrow> string \<Rightarrow> 'f http \<Rightarrow> 'f http" where
  "send code content_type content s =
     (let (header, s1) = prepareHeader code content_type (word_of_int (int (length content))) s;
          s2 = currentClientWrite header s1
      in if content \<noteq> [] then sendContent content s2 else s2)"

definition finalizeResponse :: "'f http \<Rightarrow> 'f http" where
  "finalizeResponse s = (if chunked s then sendContent [] s else s)"

definition streamFileCore :: "u32 \<Rightarrow> string \<Rightarrow> string \<Rightarrow> 'f http \<Rightarrow> 'f http" where
  "streamFileCore fileSize fileName contentType s =
     (let s1 = setContentLength fileSize s;
          s2 = (if ends_with fileName ''.gz'' \<and> contentType \<noteq> ''application/x-gzip'' \<and>
                   contentType \<noteq> ''application/octet-stream''
                then sendHeader ''Content-Encoding'' ''gzip'' False s1 else s1)
      in send 200 (Some contentType) [] s2)"

definition streamFile :: "string \<Rightarrow> bytes \<Rightarrow> string \<Rightarrow> 'f http \<Rightarrow> 'f http" where
  "streamFile fileName body contentType s =
     currentClientWrite body (streamFileCore (word_of_int (int (length body))) fileName contentType s)"

section \<open>Calling the handler\<close>

text \<open>
  \<open>run\<close> is what a callback does to the server, \<open>fs\<close> the files a static handler can open, \<open>nf\<close>
  the function for what is not found.
\<close>

fun handle :: "('f \<Rightarrow> 'f http \<Rightarrow> 'f http) \<Rightarrow> (string \<Rightarrow> bytes option) \<Rightarrow> 'f handler \<Rightarrow> 'f http \<Rightarrow> 'f http \<times> bool" where
  "handle run fs (Function_handler fn ufn uri meth) s =
     (if canHandle (Function_handler fn ufn uri meth) (currentMethod s) (currentUri s) then (run fn s, True) else (s, False))"
| "handle run fs (Static_handler uri path cache isFile) s =
     (if \<not> canHandle (Static_handler uri path cache isFile :: 'f handler) (currentMethod s) (currentUri s) then (s, False)
      else (let p = static_path (\<lambda>f. fs f \<noteq> None) uri path isFile (currentUri s) in
        case fs p of
          None \<Rightarrow> (s, False)
        | Some body \<Rightarrow>
            (let s1 = (if cache \<noteq> [] then sendHeader ''Cache-Control'' cache False s else s)
             in (streamFile p body (static_type uri path isFile (currentUri s)) s1, True))))"

definition handleRequest ::
  "('f \<Rightarrow> 'f http \<Rightarrow> 'f http) \<Rightarrow> (string \<Rightarrow> bytes option) \<Rightarrow> 'f option \<Rightarrow> 'f http \<Rightarrow> 'f http" where
  "handleRequest run fs nf s =
     (let (s1, handled) = (case currentHandler s of None \<Rightarrow> (s, False) | Some h \<Rightarrow> handle run fs h s);
          s2 = (if handled then s1
                else case nf of
                  Some f \<Rightarrow> run f s1
                | None \<Rightarrow> send 404 (Some ''text/html'') (''Not found: '' @ currentUri s1) s1)
      in (finalizeResponse s2)\<lparr>currentUri := []\<rparr>)"

text \<open>What \<open>handleClient\<close> does with a client that has sent something.\<close>

definition serveRequest ::
  "('f \<Rightarrow> 'f http \<Rightarrow> 'f http) \<Rightarrow> (string \<Rightarrow> bytes option) \<Rightarrow> 'f option \<Rightarrow> nat \<Rightarrow> nat list \<Rightarrow>
   'f handler list \<Rightarrow> 'f http \<Rightarrow> bytes \<Rightarrow> 'f request_result option" where
  "serveRequest run fs nf fuel avails hs s inp =
     map_option (\<lambda>r. case r of
         Parsed s1 \<Rightarrow> Parsed (handleRequest run fs nf (setContentLength CONTENT_LENGTH_NOT_SET s1))
       | _ \<Rightarrow> r) (parseRequest fuel avails hs s inp)"

section \<open>Serving a client\<close>

datatype client_status = HC_NONE | HC_WAIT_READ | HC_WAIT_CLOSE

definition HTTP_MAX_DATA_WAIT :: nat where "HTTP_MAX_DATA_WAIT = 5000"
definition HTTP_MAX_CLOSE_WAIT :: nat where "HTTP_MAX_CLOSE_WAIT = 2000"

record conn =
  currentStatus :: client_status
  statusChange :: u32

text \<open>
  What one call of \<open>handleClient\<close> meets: a client to accept, a connected client, data to read, the
  result of \<open>_parseRequest\<close>, the connection after \<open>_handleRequest\<close>, and \<open>millis()\<close> before and
  after the request is served.
\<close>

record client_event =
  accepted :: bool
  isConnected :: bool
  dataAvailable :: bool
  requestParsed :: bool
  connectedAfter :: bool
  now :: u32
  nowAfter :: u32

definition handleClient :: "client_event \<Rightarrow> conn \<Rightarrow> conn" where
  "handleClient e c0 =
     (if currentStatus c0 = HC_NONE \<and> \<not> accepted e then c0
      else
        let c = (if currentStatus c0 = HC_NONE then \<lparr>currentStatus = HC_WAIT_READ, statusChange = now e\<rparr> else c0);
            elapsed = unat (now e - statusChange c);
            dropped = c\<lparr>currentStatus := HC_NONE\<rparr>
        in if \<not> isConnected e then dropped
           else if currentStatus c = HC_WAIT_READ then
             (if dataAvailable e then
                (if requestParsed e \<and> connectedAfter e
                 then \<lparr>currentStatus = HC_WAIT_CLOSE, statusChange = nowAfter e\<rparr>
                 else dropped)
              else if elapsed \<le> HTTP_MAX_DATA_WAIT then c else dropped)
           else if currentStatus c = HC_WAIT_CLOSE \<and> elapsed \<le> HTTP_MAX_CLOSE_WAIT then c
           else dropped)"

lemma handleClient_times_out:
  assumes "currentStatus c \<noteq> HC_NONE" "HTTP_MAX_DATA_WAIT < unat (now e - statusChange c)"
    and "dataAvailable e \<longrightarrow> currentStatus c = HC_WAIT_CLOSE"
  shows "currentStatus (handleClient e c) = HC_NONE"
  using assms by (cases "currentStatus c") (auto simp: handleClient_def Let_def HTTP_MAX_DATA_WAIT_def HTTP_MAX_CLOSE_WAIT_def)

section \<open>Authentication\<close>

definition extractParam :: "string \<Rightarrow> string \<Rightarrow> char \<Rightarrow> string" where
  "extractParam authReq param delimit =
     (case index_of authReq param 0 of
        None \<Rightarrow> []
      | Some b \<Rightarrow>
          substring authReq (b + length param)
            (case index_of authReq [delimit] (b + length param) of None \<Rightarrow> npos | Some e \<Rightarrow> e))"

abbreviation "quote_char \<equiv> CHR 0x22"

definition quoted_param :: "string \<Rightarrow> string \<Rightarrow> string" where
  "quoted_param authReq name = extractParam authReq (name @ ''='' @ [quote_char]) quote_char"

text \<open>
  The length of \<open>user:password\<close> is kept in a \<open>char\<close>; beyond 255 the buffer is too short and the
  comparison is with an encoding of the wrong length, here \<open>None\<close>.
\<close>

definition basic_credentials :: "(string \<Rightarrow> string) \<Rightarrow> string \<Rightarrow> string \<Rightarrow> string option" where
  "basic_credentials base64 username password =
     (if length username + length password + 1 \<le> 255
      then Some (base64 (username @ '':'' @ password)) else None)"

definition digest_ok :: "(string \<Rightarrow> string) \<Rightarrow> string \<Rightarrow> string \<Rightarrow> string \<Rightarrow> 'f http \<Rightarrow> bool" where
  "digest_ok md5str username password authReq s =
     (let u = quoted_param authReq ''username''; realm = quoted_param authReq ''realm'';
          nonce = quoted_param authReq ''nonce''; uri = quoted_param authReq ''uri'';
          response = quoted_param authReq ''response''; opaque = quoted_param authReq ''opaque'';
          qop = contains authReq ''qop=auth'';
          nc = (if qop then extractParam authReq ''nc='' (CHR '','') else []);
          cnonce = (if qop then quoted_param authReq ''cnonce'' else []);
          H1 = md5str (username @ '':'' @ realm @ '':'' @ password);
          H2 = md5str ((case currentMethod s of
                  HTTP_POST \<Rightarrow> ''POST:'' | HTTP_PUT \<Rightarrow> ''PUT:'' | HTTP_DELETE \<Rightarrow> ''DELETE:'' | _ \<Rightarrow> ''GET:'') @ uri)
      in u \<noteq> [] \<and> u = username \<and>
         realm \<noteq> [] \<and> nonce \<noteq> [] \<and> uri \<noteq> [] \<and> response \<noteq> [] \<and> opaque \<noteq> [] \<and>
         opaque = sopaque s \<and> nonce = snonce s \<and> realm = srealm s \<and>
         response = (if qop then md5str (H1 @ '':'' @ nonce @ '':'' @ nc @ '':'' @ cnonce @ '':auth:'' @ H2)
                     else md5str (H1 @ '':'' @ nonce @ '':'' @ H2)))"

definition authenticate ::
  "(string \<Rightarrow> string) \<Rightarrow> (string \<Rightarrow> string) \<Rightarrow> string \<Rightarrow> string \<Rightarrow> 'f http \<Rightarrow> bool" where
  "authenticate md5str base64 username password s =
     (hasHeader ''Authorization'' s \<and>
      (let authReq = header ''Authorization'' s in
       if starts_with authReq ''Basic''
       then (case basic_credentials base64 username password of
               None \<Rightarrow> False
             | Some encoded \<Rightarrow> encoded \<noteq> [] \<and> trim (substring_from authReq 6) = encoded)
       else starts_with authReq ''Digest'' \<and> digest_ok md5str username password (substring_from authReq 7) s))"

text \<open>\<open>n1\<close> and \<open>n2\<close> are the random hexadecimal texts.\<close>

definition requestAuthentication :: "string \<Rightarrow> string \<Rightarrow> bool \<Rightarrow> string option \<Rightarrow> string \<Rightarrow> 'f http \<Rightarrow> 'f http" where
  "requestAuthentication n1 n2 digest realm msg s =
     (let r = (case realm of None \<Rightarrow> ''Login Required'' | Some t \<Rightarrow> t);
          s1 = (if digest then s\<lparr>srealm := r, snonce := n1, sopaque := n2\<rparr> else s\<lparr>srealm := r\<rparr>);
          q = [quote_char];
          v = (if digest
               then ''Digest realm='' @ q @ r @ q @ '', qop='' @ q @ ''auth'' @ q @ '', nonce='' @ q @ n1 @ q @
                    '', opaque='' @ q @ n2 @ q
               else ''Basic realm='' @ q @ r @ q)
      in send 401 (Some ''text/html'') msg (sendHeader ''WWW-Authenticate'' v False s1))"

text \<open>Only a client that knows the nonce of the last challenge passes a digest check.\<close>

lemma digest_needs_nonce:
  "\<not> starts_with (header ''Authorization'' s) ''Basic'' \<Longrightarrow> snonce s = [] \<Longrightarrow> \<not> authenticate m b u p s"
  by (auto simp: authenticate_def digest_ok_def Let_def)

section \<open>Chunks are read back\<close>

definition hex_number :: "string \<Rightarrow> nat" where
  "hex_number s = foldl (\<lambda>a c. 16 * a + (case hex_val c of Some d \<Rightarrow> d | None \<Rightarrow> 0)) 0 s"

text \<open>The reference reader of a chunked body.\<close>

function dechunk :: "bytes \<Rightarrow> bytes option" where
  "dechunk inp =
     (let (line, r) = read_line inp; n = hex_number line in
      if line = [] then None
      else if n = 0 then Some []
      else if length r < n + 2 then None
      else map_option ((@) (take n r)) (dechunk (drop (n + 2) r)))"
  by pat_completeness auto
termination
proof (relation "measure length", goal_cases)
  case (2 inp x line r n)
  then have "length r \<le> length inp - length line" "read_line inp = (line, r)" "n + 2 \<le> length r"
    using read_line_le [of inp] by (auto simp: prod_eq_iff)
  then show ?case by simp
qed simp

declare dechunk.simps [simp del]

lemma hex_val_hex_nibble: "d < 16 \<Longrightarrow> hex_val (hex_nibble d) = Some d"
  by (simp add: hex_val_def hex_nibble_def of_char_of Let_def)

lemma hex_number_hex [simp]: "hex_number (hex_text n) = n"
proof (induction n rule: hex_text.induct)
  case (1 n)
  then show ?case by (cases "n < 16") (simp_all add: hex_text.simps [of n] hex_number_def hex_val_hex_nibble)
qed

lemma hex_nonempty [simp]: "hex_text n \<noteq> []"
  by (simp add: hex_text.simps [of n])

lemma hex_no_cr: "CR \<notin> set (hex_text n)"
proof (induction n rule: hex_text.induct)
  case (1 n)
  have d: "hex_nibble d \<noteq> CR" if "d < 16" for d
  proof
    assume "hex_nibble d = CR"
    then have "(of_char (hex_nibble d) :: nat) = of_char CR" by simp
    then show False using that by (simp add: hex_nibble_def of_char_of split: if_splits)
  qed
  show ?case using 1 d [THEN not_sym] by (cases "n < 16") (simp_all add: hex_text.simps [of n])
qed

definition chunk :: "string \<Rightarrow> bytes" where
  "chunk p = hex_text (length p) @ crlf @ p @ crlf"

lemma dechunk_chunk: "p \<noteq> [] \<Longrightarrow> dechunk (chunk p @ t) = map_option ((@) p) (dechunk t)"
proof -
  assume p: "p \<noteq> []"
  have "read_line (hex_text (length p) @ CR # LF # p @ crlf @ t) = (hex_text (length p), p @ crlf @ t)"
    by (rule read_line_crlf) (rule hex_no_cr)
  then show ?thesis using p by (subst dechunk.simps) (simp add: chunk_def)
qed

lemma dechunk_last: "dechunk (chunk [] @ t) = Some []"
proof -
  have "read_line (hex_text 0 @ CR # LF # crlf @ t) = (hex_text 0, crlf @ t)"
    by (rule read_line_crlf) (rule hex_no_cr)
  then show ?thesis by (subst dechunk.simps) (simp add: chunk_def)
qed

lemma sendContent_chunked:
  "chunked s \<Longrightarrow> sendContent p s = s\<lparr>written := written s @ chunk p, chunked := (p \<noteq> [])\<rparr>"
  by (simp add: sendContent_def chunk_def currentClientWrite_def Let_def)

lemma sendContent_pieces:
  "chunked s \<Longrightarrow> [] \<notin> set ps \<Longrightarrow>
     fold sendContent ps s = s\<lparr>written := written s @ concat (map chunk ps)\<rparr>"
  by (induction ps arbitrary: s) (auto simp: sendContent_chunked)

lemma dechunk_pieces: "[] \<notin> set ps \<Longrightarrow> dechunk (concat (map chunk ps) @ chunk []) = Some (concat ps)"
proof (induction ps)
  case Nil
  then show ?case using dechunk_last [of "[]"] by simp
next
  case (Cons p ps)
  then show ?case by (auto simp: dechunk_chunk)
qed

lemma prepareHeader_chunked:
  "contentLength s = CONTENT_LENGTH_UNKNOWN \<Longrightarrow> currentVersion s \<noteq> 0 \<Longrightarrow>
     written (snd (prepareHeader code ty n s)) = written s \<and> chunked (snd (prepareHeader code ty n s))"
  by (simp add: prepareHeader_def sendHeader_def Let_def CONTENT_LENGTH_UNKNOWN_def CONTENT_LENGTH_NOT_SET_def)

lemma chunked_response:
  assumes "contentLength s = CONTENT_LENGTH_UNKNOWN" "currentVersion s \<noteq> 0" "[] \<notin> set (p # ps)"
  shows "\<exists>body. written (finalizeResponse (fold sendContent ps (send code ty p s))) =
      written s @ fst (prepareHeader code ty (word_of_int (int (length p))) s) @ body \<and>
    dechunk body = Some (concat (p # ps))"
proof -
  obtain h s1 where h: "prepareHeader code ty (word_of_int (int (length p))) s = (h, s1)" by fastforce
  have s1: "written s1 = written s" "chunked s1"
    using prepareHeader_chunked [OF assms(1,2), of code ty "word_of_int (int (length p))"] h by simp_all
  let ?s2 = "currentClientWrite h s1"
  have c2: "chunked ?s2" using s1 by (simp add: currentClientWrite_def)
  have "send code ty p s = fold sendContent [p] ?s2" using h assms(3) by (auto simp: send_def Let_def)
  then have "fold sendContent ps (send code ty p s) = fold sendContent (p # ps) ?s2" by simp
  also have "\<dots> = ?s2\<lparr>written := written ?s2 @ concat (map chunk (p # ps))\<rparr>"
    by (rule sendContent_pieces [OF c2 assms(3)])
  finally have "written (finalizeResponse (fold sendContent ps (send code ty p s))) =
      written s @ h @ concat (map chunk (p # ps)) @ chunk []"
    using c2 s1 by (simp add: finalizeResponse_def sendContent_chunked currentClientWrite_def)
  then show ?thesis using dechunk_pieces [OF assms(3)] h by auto
qed

section \<open>Properties\<close>

text \<open>C27. A page of unknown length, as the captive portal sends it, reaches an HTTP/1.1 client behind its
  headers as a chunked body that decodes to exactly the pieces sent, the closing chunk included.\<close>

theorem chunked_page_arrives:
  assumes "contentLength s = CONTENT_LENGTH_UNKNOWN" "currentVersion s \<noteq> 0" "[] \<notin> set (p # ps)"
  shows "\<exists>body. written (finalizeResponse (fold sendContent ps (send code ty p s))) =
      written s @ fst (prepareHeader code ty (word_of_int (int (length p))) s) @ body \<and>
    dechunk body = Some (concat (p # ps))"
  using assms by (rule chunked_response)

theorem chunked_page_arrives_witness:
  "\<exists>s :: callback http. contentLength s = CONTENT_LENGTH_UNKNOWN \<and>
    (\<exists>body. written (finalizeResponse (fold sendContent [''</html>''] (send 200 (Some ''text/html'') ''<html>'' s))) =
      written s @ fst (prepareHeader 200 (Some ''text/html'') (word_of_int (int (length ''<html>''))) s) @ body \<and>
    dechunk body = Some ''<html></html>'')"
proof -
  let ?s = "\<lparr>currentArgs = [], postArgs = [], currentHeaders = [], currentMethod = HTTP_GET, currentUri = ''/'',
    currentVersion = 1, hostHeader = [], chunked = False, currentHandler = None, currentUpload = None,
    contentLength = CONTENT_LENGTH_UNKNOWN, responseHeaders = [], corsEnabled = False, srealm = [], snonce = [],
    sopaque = [], written = []\<rparr> :: callback http"
  have "contentLength ?s = CONTENT_LENGTH_UNKNOWN" "currentVersion ?s \<noteq> 0" "[] \<notin> set [''<html>'', ''</html>'']"
    by simp_all
  from chunked_page_arrives [OF this, of 200 "Some ''text/html''"] show ?thesis
    by (intro exI [of _ ?s] conjI) simp_all
qed

end
