(* ===== verification/Dns_Server.thy ===== *)
theory Dns_Server
  imports Arduino_Numbers
begin

text \<open>
  The name server of the captive portal (\<open>DNSServer.cpp\<close>, \<open>DNSServer.h\<close>, \<open>hosts.h\<close>).  A packet is
  its list of bytes; \<open>None\<close> is undefined behaviour of the source: a read past the packet, or a
  name of 128 bytes and more, whose length does not fit the \<open>int8_t\<close> it is kept in and turns
  negative.
\<close>

unbundle bit_operations_syntax

section \<open>The request\<close>

record dns =
  d_domainName :: string
  d_resolvedIP :: bytes
  d_ttl :: bytes
    \<comment> \<open>in network order\<close>
  d_errorReplyCode :: nat

definition DNS_HEADER_SIZE :: nat where "DNS_HEADER_SIZE = 12"

text \<open>\<open>htonl(ttl)\<close> as it lies in memory.\<close>

definition be32 :: "u32 \<Rightarrow> bytes" where
  "be32 w = map (\<lambda>i. char_of (unat w div 256 ^ i mod 256)) [3, 2, 1, 0]"

definition new_dns :: dns where
  "new_dns = \<lparr>d_domainName = [], d_resolvedIP = replicate 4 nul, d_ttl = be32 65, d_errorReplyCode = 3\<rparr>"

definition downcaseAndRemoveWwwPrefix :: "string \<Rightarrow> string" where
  "downcaseAndRemoveWwwPrefix s = str_replace (to_lower s) ''www.'' []"

definition dns_start :: "string \<Rightarrow> bytes \<Rightarrow> dns \<Rightarrow> dns" where
  "dns_start domainName resolvedIP d =
     d\<lparr>d_domainName := downcaseAndRemoveWwwPrefix domainName, d_resolvedIP := resolvedIP\<rparr>"

definition setErrorReplyCode :: "nat \<Rightarrow> dns \<Rightarrow> dns" where
  "setErrorReplyCode c d = d\<lparr>d_errorReplyCode := c\<rparr>"

definition setTTL :: "u32 \<Rightarrow> dns \<Rightarrow> dns" where
  "setTTL ttl d = d\<lparr>d_ttl := be32 ttl\<rparr>"

definition byte :: "bytes \<Rightarrow> nat \<Rightarrow> nat" where
  "byte p i = of_char (char_at p i)"

text \<open>The header's fields: query bit, operation code, the four counts.\<close>

definition hdr_QR :: "bytes \<Rightarrow> bool" where "hdr_QR p \<longleftrightarrow> 128 \<le> byte p 2"
definition hdr_OPCode :: "bytes \<Rightarrow> nat" where "hdr_OPCode p = byte p 2 div 8 mod 16"

definition requestIncludesOnlyOneQuestion :: "bytes \<Rightarrow> bool" where
  "requestIncludesOnlyOneQuestion p \<longleftrightarrow>
     256 * byte p 4 + byte p 5 = 1 \<and> byte p 6 = 0 \<and> byte p 7 = 0 \<and>
     byte p 8 = 0 \<and> byte p 9 = 0 \<and> byte p 10 = 0 \<and> byte p 11 = 0"

text \<open>The loop over the labels of the name: its encoded length, the closing zero byte not counted.\<close>

function qname_loop :: "bytes \<Rightarrow> nat \<Rightarrow> nat option" where
  "qname_loop p len =
     (if length p \<le> 12 + len then None
      else if byte p (12 + len) = 0 then Some len
      else if length p < 12 + len + byte p (12 + len) + 1 \<or> 127 < len + byte p (12 + len) + 1 then None
      else qname_loop p (len + byte p (12 + len) + 1))"
  by pat_completeness auto
termination
  by (relation "measure (\<lambda>(p, len). length p - len)") auto

declare qname_loop.simps [simp del]

text \<open>The question: name with its closing zero, type and class.\<close>

definition read_question :: "bytes \<Rightarrow> (bytes \<times> bytes \<times> bytes) option" where
  "read_question p =
     (case qname_loop p 0 of
        None \<Rightarrow> None
      | Some len \<Rightarrow>
          if 127 < len + 1 \<or> length p < 12 + (len + 1) + 4 then None
          else Some (take (len + 1) (drop 12 p), take 2 (drop (12 + len + 1) p), take 2 (drop (12 + len + 3) p)))"

text \<open>\<open>getDomainNameWithoutWwwPrefix\<close>: the labels joined by dots.\<close>

function domain_loop :: "bytes \<Rightarrow> nat \<Rightarrow> string \<Rightarrow> string option" where
  "domain_loop p pos name =
     (let n = byte p (12 + pos); name' = name @ take n (drop (12 + pos + 1) p); pos' = pos + n + 1 in
      if length p \<le> 12 + pos' then None
      else if byte p (12 + pos') = 0 then Some (downcaseAndRemoveWwwPrefix name')
      else domain_loop p pos' (name' @ ''.''))"
  by pat_completeness auto
termination
  by (relation "measure (\<lambda>(p, pos, name). length p - pos)") auto

declare domain_loop.simps [simp del]

definition getDomainNameWithoutWwwPrefix :: "bytes \<Rightarrow> string option" where
  "getDomainNameWithoutWwwPrefix p =
     (if length p \<le> 12 then None else if byte p 12 = 0 then Some [] else domain_loop p 0 [])"

section \<open>The table of hosts\<close>

text \<open>All entries of the table in \<open>hosts.h\<close> are commented out.\<close>

definition hosts :: "(string \<times> string) list" where "hosts = []"

definition ntoh32 :: "(string \<times> string) list \<Rightarrow> string \<Rightarrow> bytes option" where
  "ntoh32 table h =
     (if h = [] then None
      else
        let ix = (case index_of h '':'' 0 of None \<Rightarrow> index_of h ''/'' 0 | Some i \<Rightarrow> Some i);
            hst = (case ix of None \<Rightarrow> h | Some i \<Rightarrow> substring h 0 i)
        in map_option (\<lambda>(name, ip). map char_of (snd (ip_from_string ip))) (find (\<lambda>(name, ip). hst = name) table))"

text \<open>An address of zero counts as not found.\<close>

definition ntoh :: "(string \<times> string) list \<Rightarrow> string \<Rightarrow> bytes option" where
  "ntoh table h = (case ntoh32 table h of Some a \<Rightarrow> if a = replicate 4 nul then None else Some a | None \<Rightarrow> None)"

section \<open>The replies\<close>

definition set_QR :: "bytes \<Rightarrow> bytes" where
  "set_QR h = h[2 := char_of (byte h 2 OR 128)]"

definition replyWithIP :: "(string \<times> string) list \<Rightarrow> bytes \<Rightarrow> bytes \<times> bytes \<times> bytes \<Rightarrow> dns \<Rightarrow> (dns \<times> bytes) option" where
  "replyWithIP table p question d =
     (case question of (qname, qtype, qclass) \<Rightarrow>
        let h = set_QR (take 12 p); h = h[6 := h ! 4, 7 := h ! 5] in
        case getDomainNameWithoutWwwPrefix p of
          None \<Rightarrow> None
        | Some hnam \<Rightarrow>
            let d' = (case ntoh table hnam of None \<Rightarrow> d | Some a \<Rightarrow> d\<lparr>d_resolvedIP := a\<rparr>)
            in Some (d', h @ qname @ qtype @ qclass @ map char_of [192, 12 :: nat] @
                         map char_of [0, 1, 0, 1 :: nat] @ d_ttl d @ map char_of [0, 4 :: nat] @ d_resolvedIP d'))"

text \<open>
  The reply with an error code changes the copy of the header and sends the header of the packet
  it received.
\<close>

definition replyWithCustomCode :: "bytes \<Rightarrow> bytes" where
  "replyWithCustomCode p = take DNS_HEADER_SIZE p"

text \<open>One packet, with what is sent in reply; an empty packet is none.\<close>

definition processNextRequest :: "(string \<times> string) list \<Rightarrow> bytes \<Rightarrow> dns \<Rightarrow> (dns \<times> bytes option) option" where
  "processNextRequest table p d =
     (if p = [] then Some (d, None)
      else if length p < DNS_HEADER_SIZE then None
      else if requestIncludesOnlyOneQuestion p then
        (case read_question p of
           None \<Rightarrow> None
         | Some q \<Rightarrow>
             if \<not> hdr_QR p \<and> hdr_OPCode p = 0 then
               (if d_domainName d = ''*''
                then map_option (\<lambda>(d', r). (d', Some r)) (replyWithIP table p q d)
                else case getDomainNameWithoutWwwPrefix p of
                       None \<Rightarrow> None
                     | Some n \<Rightarrow>
                         if n = d_domainName d
                         then map_option (\<lambda>(d', r). (d', Some r)) (replyWithIP table p q d)
                         else Some (d, Some (replyWithCustomCode p)))
             else if \<not> hdr_QR p then Some (d, Some (replyWithCustomCode p))
             else Some (d, None))
      else if \<not> hdr_QR p then Some (d, Some (replyWithCustomCode p))
      else Some (d, None))"

section \<open>Reading a well-formed query\<close>

definition encode_label :: "string \<Rightarrow> bytes" where
  "encode_label l = char_of (length l) # l"

definition encode_name :: "string list \<Rightarrow> bytes" where
  "encode_name ls = concat (map encode_label ls)"

definition label_ok :: "string \<Rightarrow> bool" where
  "label_ok l \<longleftrightarrow> l \<noteq> [] \<and> length l \<le> 63"

definition query :: "char \<Rightarrow> char \<Rightarrow> char \<Rightarrow> char \<Rightarrow> string list \<Rightarrow> bytes \<Rightarrow> bytes \<Rightarrow> bytes" where
  "query id1 id2 fl1 fl2 ls qtype qclass =
     [id1, id2, fl1, fl2] @ map char_of [0, 1, 0, 0, 0, 0, 0, 0 :: nat] @ encode_name ls @ [char_of (0 :: nat)] @ qtype @ qclass"

lemma byte_append: "byte (p @ q) (length p + i) = byte q i"
  by (simp add: byte_def char_at_def nth_append)

lemma byte_Cons_0 [simp]: "byte (c # q) 0 = of_char c"
  by (simp add: byte_def char_at_def)

lemma of_char_small: "n < 256 \<Longrightarrow> (of_char (char_of n :: char) :: nat) = n"
  by (simp add: of_char_of)

lemma encode_name_Cons: "encode_name (l # ls) = char_of (length l) # l @ encode_name ls"
  by (simp add: encode_name_def encode_label_def)

lemma qname_loop_labels:
  assumes "length h = 12"
  shows "list_all label_ok ls \<Longrightarrow>
    qname_loop (h @ pre @ encode_name ls @ nul # rest) (length pre) =
      (if length pre + length (encode_name ls) \<le> 127 \<or> ls = [] then Some (length pre + length (encode_name ls)) else None)"
proof (induction ls arbitrary: pre)
  case Nil
  have "byte (h @ pre @ nul # rest) (12 + length pre) = 0"
    using byte_append [of "h @ pre" "nul # rest" 0] assms by (simp add: add.assoc)
  then show ?case using assms by (simp add: qname_loop.simps [of _ "length pre"] encode_name_def)
next
  case (Cons l ls)
  let ?p = "h @ pre @ encode_name (l # ls) @ nul # rest"
  let ?pre = "pre @ encode_label l"
  have l: "l \<noteq> []" "length l \<le> 63" "list_all label_ok ls"
    using Cons.prems by (simp_all, simp_all add: label_ok_def)
  have b: "byte ?p (12 + length pre) = length l"
    using byte_append [of "h @ pre" "encode_name (l # ls) @ nul # rest" 0] assms l
    by (simp add: encode_name_Cons of_char_small add.assoc)
  have same: "?p = h @ ?pre @ encode_name ls @ nul # rest"
    by (simp add: encode_name_def)
  have IH: "qname_loop ?p (length ?pre) =
      (if length ?pre + length (encode_name ls) \<le> 127 \<or> ls = [] then Some (length ?pre + length (encode_name ls)) else None)"
    unfolding same by (rule Cons.IH) (rule l(3))
  have len: "length ?pre = length pre + length l + 1" by (simp add: encode_label_def)
  have tot: "length (encode_name (l # ls)) = length l + 1 + length (encode_name ls)"
    by (simp add: encode_name_Cons)
  show ?case
  proof (cases "127 < length pre + length l + 1")
    case True
    then show ?thesis using b l tot by (simp add: qname_loop.simps [of ?p "length pre"])
  next
    case False
    have "\<not> length ?p \<le> 12 + length pre" "\<not> length ?p < 12 + length pre + length l + 1"
      using assms tot by auto
    then have "qname_loop ?p (length pre) = qname_loop ?p (length ?pre)"
      using False b l len by (subst qname_loop.simps) simp
    then show ?thesis using IH len tot False by (auto simp: encode_name_def)
  qed
qed

fun dotted_name :: "string list \<Rightarrow> string" where
  "dotted_name [] = []"
| "dotted_name [l] = l"
| "dotted_name (l # m # ls) = l @ ''.'' @ dotted_name (m # ls)"

lemma domain_loop_labels:
  assumes "length h = 12"
  shows "list_all label_ok (l # ls) \<Longrightarrow>
    domain_loop (h @ pre @ encode_name (l # ls) @ nul # rest) (length pre) name =
      Some (downcaseAndRemoveWwwPrefix (name @ dotted_name (l # ls)))"
proof (induction ls arbitrary: l pre name)
  case (Nil l)
  let ?p = "h @ pre @ encode_name [l] @ nul # rest"
  have l: "l \<noteq> []" "length l \<le> 63" using Nil by (simp_all add: label_ok_def)
  have p: "?p = (h @ pre) @ encode_label l @ nul # rest" "?p = (h @ pre @ encode_label l) @ nul # rest"
    by (simp_all add: encode_name_def)
  have b: "byte ?p (12 + length pre) = length l"
    unfolding p(1) using byte_append [of "h @ pre" "encode_label l @ nul # rest" 0] assms l
    by (simp add: encode_label_def of_char_small add.assoc)
  have z: "byte ?p (12 + (length pre + length l + 1)) = 0"
    unfolding p(2) using byte_append [of "h @ pre @ encode_label l" "nul # rest" 0] assms
    by (simp add: encode_label_def add.assoc)
  have d: "take (length l) (drop (12 + length pre + 1) ?p) = l"
    using assms by (simp add: encode_name_def encode_label_def)
  have len: "\<not> length ?p \<le> 12 + (length pre + length l + 1)"
    using assms by (simp add: encode_name_def encode_label_def)
  show ?case by (subst domain_loop.simps) (simp only: Let_def b d z len if_False if_True dotted_name.simps simp_thms)
next
  case (Cons m ls)
  let ?p = "h @ pre @ encode_name (l # m # ls) @ nul # rest"
  have l: "l \<noteq> []" "length l \<le> 63" "list_all label_ok (m # ls)" "m \<noteq> []" "length m \<le> 63"
    using Cons.prems by (simp_all, simp_all add: label_ok_def)
  have p: "?p = (h @ pre) @ encode_label l @ encode_name (m # ls) @ nul # rest"
    "?p = (h @ pre @ encode_label l) @ encode_label m @ encode_name ls @ nul # rest"
    "?p = h @ (pre @ encode_label l) @ encode_name (m # ls) @ nul # rest"
    by (simp_all add: encode_name_def)
  have b: "byte ?p (12 + length pre) = length l"
    unfolding p(1) using byte_append [of "h @ pre" "encode_label l @ encode_name (m # ls) @ nul # rest" 0] assms l
    by (simp add: encode_label_def of_char_small add.assoc)
  have z: "byte ?p (12 + (length pre + length l + 1)) = length m"
    unfolding p(2)
    using byte_append [of "h @ pre @ encode_label l" "encode_label m @ encode_name ls @ nul # rest" 0] assms l
    by (simp add: encode_label_def of_char_small add.assoc)
  have d: "take (length l) (drop (12 + length pre + 1) ?p) = l"
    using assms by (simp add: encode_name_def encode_label_def)
  have len: "\<not> length ?p \<le> 12 + (length pre + length l + 1)"
    using assms by (simp add: encode_name_def encode_label_def)
  have m: "length m \<noteq> 0" using l by simp
  have pos: "length pre + length l + 1 = length (pre @ encode_label l)" by (simp add: encode_label_def)
  have "domain_loop ?p (length pre) name = domain_loop ?p (length pre + length l + 1) (name @ l @ ''.'')"
    by (subst domain_loop.simps) (simp only: Let_def b d z len m if_False simp_thms append_assoc)
  also have "\<dots> = Some (downcaseAndRemoveWwwPrefix ((name @ l @ ''.'') @ dotted_name (m # ls)))"
    unfolding pos p(3) by (rule Cons.IH) (rule l(3))
  finally show ?case by simp
qed

lemma read_question_labels:
  assumes "length h = 12" "list_all label_ok ls" "length qtype = 2" "length qclass = 2"
  shows "read_question (h @ encode_name ls @ nul # qtype @ qclass) =
    (if length (encode_name ls) \<le> 126 then Some (encode_name ls @ [nul], qtype, qclass) else None)"
proof -
  let ?p = "h @ encode_name ls @ nul # qtype @ qclass"
  have q: "qname_loop ?p 0 = (if length (encode_name ls) \<le> 127 \<or> ls = [] then Some (length (encode_name ls)) else None)"
    using qname_loop_labels [OF assms(1,2), of "[]" "qtype @ qclass"] by simp
  show ?thesis
  proof (cases "length (encode_name ls) \<le> 126")
    case True
    then have "read_question ?p =
       Some (take (length (encode_name ls) + 1) (encode_name ls @ nul # qtype @ qclass),
             take 2 (drop (length (encode_name ls) + 1) (encode_name ls @ nul # qtype @ qclass)),
             take 2 (drop (length (encode_name ls) + 3) (encode_name ls @ nul # qtype @ qclass)))"
      using q assms by (simp add: read_question_def)
    then show ?thesis using True assms by simp
  next
    case False
    then have "ls \<noteq> []" by (auto simp: encode_name_def)
    then show ?thesis using q False by (simp add: read_question_def)
  qed
qed

text \<open>The header of a query with one question, and what the answer makes of it.\<close>

definition query_header :: "char \<Rightarrow> char \<Rightarrow> char \<Rightarrow> char \<Rightarrow> bytes" where
  "query_header id1 id2 fl1 fl2 = [id1, id2, fl1, fl2] @ map char_of [0, 1, 0, 0, 0, 0, 0, 0 :: nat]"

lemma query_shape:
  "query id1 id2 fl1 fl2 ls qtype qclass =
     query_header id1 id2 fl1 fl2 @ encode_name ls @ nul # qtype @ qclass"
proof -
  have "char_of (0 :: nat) = nul" by (simp add: char_of_def)
  then show ?thesis by (simp add: query_def query_header_def)
qed

lemma query_header_simps:
  assumes "of_char fl1 < (8 :: nat)"
  shows "length (query_header id1 id2 fl1 fl2) = 12"
    "requestIncludesOnlyOneQuestion (query_header id1 id2 fl1 fl2 @ t)"
    "\<not> hdr_QR (query_header id1 id2 fl1 fl2 @ t)" "hdr_OPCode (query_header id1 id2 fl1 fl2 @ t) = 0"
  using assms
  by (simp_all add: query_header_def requestIncludesOnlyOneQuestion_def hdr_QR_def hdr_OPCode_def byte_def
      char_at_def of_char_small)

lemma captive_reply:
  assumes ls: "list_all label_ok ls" and len: "length qtype = 2" "length qclass = 2"
    and fl: "of_char fl1 < (8 :: nat)" and d: "d_domainName d = ''*''"
  shows "processNextRequest hosts (query id1 id2 fl1 fl2 ls qtype qclass) d =
    (if length (encode_name ls) \<le> 126
     then Some (d, Some ([id1, id2, char_of (of_char fl1 OR 128 :: nat), fl2] @ map char_of [0, 1, 0, 1, 0, 0, 0, 0 :: nat] @
            encode_name ls @ [nul] @ qtype @ qclass @
            map char_of [192, 12, 0, 1, 0, 1 :: nat] @ d_ttl d @ map char_of [0, 4 :: nat] @ d_resolvedIP d))
     else None)"
proof -
  let ?h = "query_header id1 id2 fl1 fl2"
  let ?p = "?h @ encode_name ls @ nul # qtype @ qclass"
  note h = query_header_simps [OF fl, of id1 id2 fl2]
  have q: "read_question ?p = (if length (encode_name ls) \<le> 126 then Some (encode_name ls @ [nul], qtype, qclass) else None)"
    by (rule read_question_labels [OF h(1) ls len])
  obtain nm where nm: "getDomainNameWithoutWwwPrefix ?p = Some nm"
  proof (cases ls)
    case Nil
    have "byte ?p 12 = 0" using byte_append [of ?h "nul # qtype @ qclass" 0] h(1) Nil by (simp add: encode_name_def)
    then show ?thesis using that h(1) by (simp add: getDomainNameWithoutWwwPrefix_def)
  next
    case (Cons l ms)
    then have "domain_loop ?p 0 [] = Some (downcaseAndRemoveWwwPrefix (dotted_name ls))"
      using domain_loop_labels [OF h(1), of l ms "[]" "qtype @ qclass" "[]"] ls by simp
    then show ?thesis using that h(1) by (cases "byte ?p 12 = 0") (simp_all add: getDomainNameWithoutWwwPrefix_def)
  qed
  have "ntoh hosts nm = None" by (simp add: ntoh_def ntoh32_def hosts_def)
  then have r: "replyWithIP hosts ?p (encode_name ls @ [nul], qtype, qclass) d =
      Some (d, [id1, id2, char_of (of_char fl1 OR 128 :: nat), fl2] @ map char_of [0, 1, 0, 1, 0, 0, 0, 0 :: nat] @
            encode_name ls @ [nul] @ qtype @ qclass @
            map char_of [192, 12, 0, 1, 0, 1 :: nat] @ d_ttl d @ map char_of [0, 4 :: nat] @ d_resolvedIP d)"
    using h(1) nm
    by (simp add: replyWithIP_def Let_def set_QR_def query_header_def byte_def char_at_def)
  show ?thesis
    unfolding query_shape using h q r d
    by (simp add: processNextRequest_def DNS_HEADER_SIZE_def query_header_def)
qed

section \<open>Properties\<close>

text \<open>C8. The captive portal answers every well-formed query for any name of up to 126 encoded bytes with
  one answer that gives its own address, repeats the question and its identification and leaves the
  server as it was; a longer name runs out of the \<open>int8_t\<close> that holds its length.\<close>

theorem captive_portal_answers:
  assumes "list_all label_ok ls" "length qtype = 2" "length qclass = 2" "of_char fl1 < (8 :: nat)"
    and "d_domainName d = ''*''"
  shows "processNextRequest hosts (query id1 id2 fl1 fl2 ls qtype qclass) d =
    (if length (encode_name ls) \<le> 126
     then Some (d, Some ([id1, id2, char_of (of_char fl1 OR 128 :: nat), fl2] @ map char_of [0, 1, 0, 1, 0, 0, 0, 0 :: nat] @
            encode_name ls @ [nul] @ qtype @ qclass @
            map char_of [192, 12, 0, 1, 0, 1 :: nat] @ d_ttl d @ map char_of [0, 4 :: nat] @ d_resolvedIP d))
     else None)"
  using assms by (rule captive_reply)

theorem captive_portal_answers_witness:
  "\<exists>r. processNextRequest hosts (query (CHR 0x12) (CHR 0x34) (CHR 0x01) nul [''www'', ''example'', ''com'']
        [nul, CHR 0x01] [nul, CHR 0x01]) (dns_start ''*'' (map char_of [192, 168, 4, 1 :: nat]) new_dns) =
     Some (dns_start ''*'' (map char_of [192, 168, 4, 1 :: nat]) new_dns, Some r)"
proof -
  have "downcaseAndRemoveWwwPrefix ''*'' = ''*''"
    by (simp add: downcaseAndRemoveWwwPrefix_def to_lower_def lower_char_def Let_def str_replace_notin)
  then have "d_domainName (dns_start ''*'' ip new_dns) = ''*''" for ip by (simp add: dns_start_def)
  then show ?thesis
    using captive_portal_answers [of "[''www'', ''example'', ''com'']" "[nul, CHR 0x01]" "[nul, CHR 0x01]" "CHR 0x01"
        "dns_start ''*'' (map char_of [192, 168, 4, 1 :: nat]) new_dns" "CHR 0x12" "CHR 0x34" nul]
    by (simp add: label_ok_def encode_name_def encode_label_def)
qed

text \<open>A query that does not hold exactly one question is answered with its own header, unchanged:
  neither the response bit nor the error code is in the reply.\<close>

lemma error_reply_echoes_header:
  assumes "12 \<le> length p" "\<not> requestIncludesOnlyOneQuestion p" "\<not> hdr_QR p"
  shows "processNextRequest table p d = Some (d, Some (take 12 p)) \<and> \<not> hdr_QR (take 12 p)"
proof -
  have "byte (take 12 p) 2 = byte p 2" using assms(1) by (simp add: byte_def char_at_def)
  then show ?thesis
    using assms by (auto simp: processNextRequest_def replyWithCustomCode_def DNS_HEADER_SIZE_def hdr_QR_def)
qed


end
