(* ===== verification/Flash_Layout.thy ===== *)
theory Flash_Layout
  imports Arduino_Numbers
begin

unbundle bit_operations_syntax

text \<open>
  The settings structure \<open>SWdata\<close> of \<open>SWparser.h\<close>, its mode flags from \<open>global.h\<close>, its byte
  layout in memory (the compiler's, with two padding gaps), and its image in the EEPROM
  emulation, which \<open>EEPROM.put\<close> and \<open>EEPROM.get\<close> copy as one block of bytes.
\<close>

section \<open>Mode flags\<close>

definition FNODEFAULT :: u32 where "FNODEFAULT = 1"
definition FURL_DBG :: u32 where "FURL_DBG = 2"
definition FNOREMOTE :: u32 where "FNOREMOTE = 4"
definition FNOANTILOCK :: u32 where "FNOANTILOCK = 8"
definition FNOSTACONTROL :: u32 where "FNOSTACONTROL = 16"
definition FSSL :: u32 where "FSSL = 32"
definition FSECURE :: u32 where "FSECURE = 64"
definition FKSSL :: u32 where "FKSSL = 128"
definition FKSECURE :: u32 where "FKSECURE = 256"
definition FNOSERVICE :: u32 where "FNOSERVICE = 512"
definition FC_DBG :: u32 where "FC_DBG = 1024"

lemmas flag_defs = FNODEFAULT_def FURL_DBG_def FNOREMOTE_def FNOANTILOCK_def FNOSTACONTROL_def
  FSSL_def FSECURE_def FKSSL_def FKSECURE_def FNOSERVICE_def FC_DBG_def

definition MAX_KEYS :: nat where "MAX_KEYS = 100"

definition VERSION :: string where "VERSION = ''4.0''"

section \<open>The structure\<close>

record SWdata =
  Eflag :: u32
  EdeviceName :: bytes
  EresetInterval :: u32
  ErelayInterval :: u32
  Emasterkey :: bytes
  Edevelopment :: bytes
  ESSID :: bytes
  Epass :: bytes
  EAPIP :: bytes
  EAPport :: u16
  ESSIDClient :: bytes
  EpasswordClient :: bytes
  EremoteHost :: bytes
  EremoteHostDir :: bytes
  EremoteIP :: bytes
  EremotePort :: u16
  EremoteIntervalMs :: int
  ErequestActualSec :: int
  EunixtimeRefresh :: int
  EremoteMaxLogs :: int
  EremoteTimeZone :: bytes
  Eftp_server :: bytes
  Eftp_dir :: bytes
  Eftp_port :: u16
  Eftp_user :: bytes
  Eftp_pass :: bytes
  Eftp_delay :: int
  Etitle :: bytes
  Ehost :: bytes
  EhostFile :: bytes
  EhostIP :: bytes
  EhostPort :: u16
  Einfo :: bytes
  Ekeys :: int
  Ekey :: bytes

definition has_flag :: "SWdata \<Rightarrow> u32 \<Rightarrow> bool" where
  "has_flag d m \<longleftrightarrow> Eflag d AND m \<noteq> 0"

text \<open>Source text with characters beyond ASCII is its UTF-8 bytes.\<close>

definition utf8 :: "nat list \<Rightarrow> string" where
  "utf8 bs = map char_of bs"

text \<open>A \<open>char\<close> array initialised from a string literal: the rest is zero.\<close>

definition char_array :: "nat \<Rightarrow> string \<Rightarrow> bytes" where
  "char_array n s = take n (s @ replicate n nul)"

lemma length_char_array [simp]: "length (char_array n s) = n"
  by (simp add: char_array_def)

text \<open>
  The default member initialisers.  \<open>Ekey\<close> has none: a new object holds there whatever the
  heap held, the argument \<open>garbage\<close>.
\<close>

definition default_SWdata :: "bytes \<Rightarrow> SWdata" where
  "default_SWdata garbage =
    \<lparr>Eflag = FSSL,
     EdeviceName = char_array 64 ''lock'',
     EresetInterval = 5000,
     ErelayInterval = 10000,
     Emasterkey = char_array 8 ''Zhi4E3r'',
     Edevelopment = char_array 8 ''RvSc0dE'',
     ESSID = char_array 64 ''WSkey'',
     Epass = char_array 64 ''11111111'',
     EAPIP = map char_of [192, 168, 4, 1 :: nat],
     EAPport = 80,
     ESSIDClient = char_array 64 ''VARJAG_2'',
     EpasswordClient = char_array 64 ''1234567800'',
     EremoteHost = char_array 256 ''domain.net'',
     EremoteHostDir = char_array 64 ''remote'',
     EremoteIP = replicate 4 nul,
     EremotePort = 80,
     EremoteIntervalMs = 3000,
     ErequestActualSec = 20,
     EunixtimeRefresh = 60,
     EremoteMaxLogs = 64,
     EremoteTimeZone = char_array 64 ''Europe/Minsk'',
     Eftp_server = char_array 256 ''domain.net'',
     Eftp_dir = char_array 256 ''/public_html/domain.net/remote'',
     Eftp_port = 21,
     Eftp_user = char_array 64 ''rvscode'',
     Eftp_pass = char_array 64 ''rvscode1305'',
     Eftp_delay = 10000,
     Etitle = char_array 512 (utf8 [60, 104, 51, 62, 208, 162, 208, 160, 208, 154, 32, 208, 146, 208, 176, 209, 128, 209, 143, 208, 179, 60, 47, 104, 51, 62, 60, 104, 53, 62, 86, 97, 114, 106, 97, 103, 32, 109, 97, 115, 115, 45, 109, 101, 100, 105, 97, 32, 99, 111, 109, 112, 97, 110, 121, 60, 47, 104, 53, 62]),
     Ehost = char_array 256 ''rvscodeservice.000webhostapp.com'',
     EhostFile = char_array 64 ''swskeys_edited.txt'',
     EhostIP = replicate 4 nul,
     EhostPort = 80,
     Einfo = char_array 256 (utf8 [208, 148, 208, 187, 209, 143, 32, 208, 191, 208, 190, 208, 187, 209, 131, 209, 135, 208, 181, 208, 189, 208, 184, 209, 143, 32, 208, 186, 208, 187, 209, 142, 209, 135, 208, 176, 32, 208, 190, 208, 177, 209, 128, 208, 176, 209, 130, 208, 184, 209, 130, 208, 181, 209, 129, 209, 140, 32, 208, 186, 32, 208, 176, 208, 180, 208, 188, 208, 184, 208, 189, 208, 184, 209, 129, 209, 130, 209, 128, 208, 176, 209, 130, 208, 190, 209, 128, 209, 131, 46, 208, 148, 208, 187, 208, 184, 209, 130, 208, 181, 208, 187, 209, 140, 208, 189, 208, 190, 209, 129, 209, 130, 209, 140, 32, 209, 128, 208, 176, 208, 183, 208, 177, 208, 187, 208, 190, 208, 186, 208, 184, 209, 128, 208, 190, 208, 178, 208, 186, 208, 184, 32, 53, 32, 209, 129, 208, 181, 208, 186, 209, 131, 208, 189, 208, 180, 46]),
     Ekeys = 0,
     Ekey = garbage\<rparr>"

text \<open>What the C types guarantee: array sizes and the range of \<open>int\<close>.\<close>

definition layout_ok :: "SWdata \<Rightarrow> bool" where
  "layout_ok d \<longleftrightarrow>
     length (EdeviceName d) = 64 \<and>
     length (Emasterkey d) = 8 \<and>
     length (Edevelopment d) = 8 \<and>
     length (ESSID d) = 64 \<and>
     length (Epass d) = 64 \<and>
     length (EAPIP d) = 4 \<and>
     length (ESSIDClient d) = 64 \<and>
     length (EpasswordClient d) = 64 \<and>
     length (EremoteHost d) = 256 \<and>
     length (EremoteHostDir d) = 64 \<and>
     length (EremoteIP d) = 4 \<and>
     length (EremoteTimeZone d) = 64 \<and>
     length (Eftp_server d) = 256 \<and>
     length (Eftp_dir d) = 256 \<and>
     length (Eftp_user d) = 64 \<and>
     length (Eftp_pass d) = 64 \<and>
     length (Etitle d) = 512 \<and>
     length (Ehost d) = 256 \<and>
     length (EhostFile d) = 64 \<and>
     length (EhostIP d) = 4 \<and>
     length (Einfo d) = 256 \<and>
     length (Ekey d) = 800 \<and>
     in_int32 (EremoteIntervalMs d) \<and>
     in_int32 (ErequestActualSec d) \<and>
     in_int32 (EunixtimeRefresh d) \<and>
     in_int32 (EremoteMaxLogs d) \<and>
     in_int32 (Eftp_delay d) \<and>
     in_int32 (Ekeys d)"

lemma layout_ok_default: "length g = 800 \<Longrightarrow> layout_ok (default_SWdata g)"
  by (simp add: layout_ok_def default_SWdata_def in_int32_iff)

section \<open>Little-endian bytes\<close>

definition le_bytes :: "nat \<Rightarrow> nat \<Rightarrow> bytes" where
  "le_bytes n v = map (\<lambda>i. char_of (v div 256 ^ i)) [0..<n]"

fun of_le :: "bytes \<Rightarrow> nat" where
  "of_le [] = 0"
| "of_le (b # bs) = of_char b + 256 * of_le bs"

lemma length_le_bytes [simp]: "length (le_bytes n v) = n"
  by (simp add: le_bytes_def)

lemma le_bytes_Suc: "le_bytes (Suc n) v = char_of v # le_bytes n (v div 256)"
proof -
  have "map (\<lambda>i. char_of (v div 256 ^ i)) (map Suc [0..<n]) = map (\<lambda>i. char_of (v div 256 div 256 ^ i)) [0..<n]"
    by (simp add: div_mult2_eq)
  then show ?thesis
    by (simp add: le_bytes_def upt_conv_Cons map_Suc_upt [symmetric] del: upt_Suc map_Suc_upt)
qed

lemma of_le_le_bytes: "of_le (le_bytes n v) = v mod 256 ^ n"
proof (induction n arbitrary: v)
  case 0
  then show ?case by (simp add: le_bytes_def)
next
  case (Suc n)
  have "v mod 256 ^ Suc n = v mod 256 + 256 * (v div 256 mod 256 ^ n)"
    by (simp add: mod_mult2_eq add.commute)
  then show ?case using Suc by (simp add: le_bytes_Suc of_char_of)
qed

definition le32 :: "u32 \<Rightarrow> bytes" where
  "le32 w = le_bytes 4 (unat w)"

definition le16 :: "u16 \<Rightarrow> bytes" where
  "le16 w = le_bytes 2 (unat w)"

definition le_int :: "int \<Rightarrow> bytes" where
  "le_int i = le_bytes 4 (nat (i mod 4294967296))"

definition of_le32 :: "bytes \<Rightarrow> u32" where
  "of_le32 bs = of_nat (of_le bs)"

definition of_le16 :: "bytes \<Rightarrow> u16" where
  "of_le16 bs = of_nat (of_le bs)"

definition of_le_int :: "bytes \<Rightarrow> int" where
  "of_le_int bs = (let n = int (of_le bs) in if n < 2147483648 then n else n - 4294967296)"

lemma length_le [simp]: "length (le32 w) = 4" "length (le16 h) = 2" "length (le_int i) = 4"
  by (simp_all add: le32_def le16_def le_int_def)

lemma of_le32_le32 [simp]: "of_le32 (le32 w) = w"
  using unat_u32_less [of w] by (simp add: of_le32_def le32_def of_le_le_bytes)

lemma of_le16_le16 [simp]: "of_le16 (le16 w) = w"
  using unat_u16_less [of w] by (simp add: of_le16_def le16_def of_le_le_bytes)

lemma of_le_int_le_int: "in_int32 i \<Longrightarrow> of_le_int (le_int i) = i"
proof -
  assume i: "in_int32 i"
  have "nat (i mod 4294967296) < 4294967296" by simp
  then have "int (of_le (le_int i)) = i mod 4294967296"
    by (simp add: le_int_def of_le_le_bytes)
  moreover have "i mod 4294967296 = (if 0 \<le> i then i else i + 4294967296)"
  proof (cases "0 \<le> i")
    case True
    with i show ?thesis by (simp add: in_int32_iff)
  next
    case False
    then have "(i + 4294967296) mod 4294967296 = i + 4294967296"
      using i by (intro mod_pos_pos_trivial) (auto simp: in_int32_iff)
    with False show ?thesis by simp
  qed
  ultimately show ?thesis using i by (auto simp: of_le_int_def Let_def in_int32_iff)
qed

section \<open>The memory image\<close>

definition widths :: "nat list" where
  "widths = [4, 64, 4, 4, 8, 8, 64, 64, 4, 2, 64, 64, 256, 64, 4, 2, 4, 4, 4, 4, 64, 256, 256, 2, 64, 64, 2, 4, 512, 256, 64, 4, 2, 256, 2, 4, 800]"

definition sizeof_SWdata :: nat where
  "sizeof_SWdata = sum_list widths"

text \<open>
  The members in memory order.  Entries 26 and 34 are the gaps that align \<open>Eftp_delay\<close> and
  \<open>Ekeys\<close>.
\<close>

definition members :: "SWdata \<Rightarrow> bytes list" where
  "members d =
    [le32 (Eflag d),
     EdeviceName d,
     le32 (EresetInterval d),
     le32 (ErelayInterval d),
     Emasterkey d,
     Edevelopment d,
     ESSID d,
     Epass d,
     EAPIP d,
     le16 (EAPport d),
     ESSIDClient d,
     EpasswordClient d,
     EremoteHost d,
     EremoteHostDir d,
     EremoteIP d,
     le16 (EremotePort d),
     le_int (EremoteIntervalMs d),
     le_int (ErequestActualSec d),
     le_int (EunixtimeRefresh d),
     le_int (EremoteMaxLogs d),
     EremoteTimeZone d,
     Eftp_server d,
     Eftp_dir d,
     le16 (Eftp_port d),
     Eftp_user d,
     Eftp_pass d,
     replicate 2 nul,
     le_int (Eftp_delay d),
     Etitle d,
     Ehost d,
     EhostFile d,
     EhostIP d,
     le16 (EhostPort d),
     Einfo d,
     replicate 2 nul,
     le_int (Ekeys d),
     Ekey d]"

definition encode :: "SWdata \<Rightarrow> bytes" where
  "encode d = concat (members d)"

fun split_widths :: "nat list \<Rightarrow> bytes \<Rightarrow> bytes list" where
  "split_widths [] bs = []"
| "split_widths (n # ns) bs = take n bs # split_widths ns (drop n bs)"

definition decode :: "bytes \<Rightarrow> SWdata" where
  "decode bs =
    (let f = (\<lambda>i. split_widths widths bs ! i) in
      \<lparr>Eflag = of_le32 (f 0),
        EdeviceName = f 1,
        EresetInterval = of_le32 (f 2),
        ErelayInterval = of_le32 (f 3),
        Emasterkey = f 4,
        Edevelopment = f 5,
        ESSID = f 6,
        Epass = f 7,
        EAPIP = f 8,
        EAPport = of_le16 (f 9),
        ESSIDClient = f 10,
        EpasswordClient = f 11,
        EremoteHost = f 12,
        EremoteHostDir = f 13,
        EremoteIP = f 14,
        EremotePort = of_le16 (f 15),
        EremoteIntervalMs = of_le_int (f 16),
        ErequestActualSec = of_le_int (f 17),
        EunixtimeRefresh = of_le_int (f 18),
        EremoteMaxLogs = of_le_int (f 19),
        EremoteTimeZone = f 20,
        Eftp_server = f 21,
        Eftp_dir = f 22,
        Eftp_port = of_le16 (f 23),
        Eftp_user = f 24,
        Eftp_pass = f 25,
        Eftp_delay = of_le_int (f 27),
        Etitle = f 28,
        Ehost = f 29,
        EhostFile = f 30,
        EhostIP = f 31,
        EhostPort = of_le16 (f 32),
        Einfo = f 33,
        Ekeys = of_le_int (f 35),
        Ekey = f 36\<rparr>)"

lemma split_widths_concat: "map length xs = ns \<Longrightarrow> split_widths ns (concat xs @ t) = xs"
  by (induction ns arbitrary: xs) auto

lemma sizeof_SWdata_eq: "sizeof_SWdata = 3308"
  by (simp add: sizeof_SWdata_def widths_def)

lemma map_length_members: "layout_ok d \<Longrightarrow> map length (members d) = widths"
  by (simp add: layout_ok_def members_def widths_def)

lemma length_encode: "layout_ok d \<Longrightarrow> length (encode d) = 3308"
  using map_length_members [of d] sizeof_SWdata_eq
  by (simp add: encode_def length_concat sizeof_SWdata_def)

lemma decode_encode: "layout_ok d \<Longrightarrow> decode (encode d @ t) = d"
proof -
  assume ok: "layout_ok d"
  have "split_widths widths (encode d @ t) = members d"
    unfolding encode_def by (rule split_widths_concat) (rule map_length_members [OF ok])
  then show ?thesis
    using ok by (simp add: decode_def Let_def members_def of_le_int_le_int layout_ok_def)
qed

text \<open>
  A \<open>char*\<close> into the structure is read up to the first NUL, past the end of its own array if
  that holds none: the string that starts at member \<open>i\<close>.
\<close>

definition member_offset :: "nat \<Rightarrow> nat" where
  "member_offset i = sum_list (take i widths)"

definition char_ptr :: "SWdata \<Rightarrow> nat \<Rightarrow> string" where
  "char_ptr d i = cstr (drop (member_offset i) (encode d))"

lemma char_ptr_concat: "layout_ok d \<Longrightarrow> char_ptr d i = cstr (concat (drop i (members d)))"
proof -
  assume "layout_ok d"
  then have "member_offset i = length (concat (take i (members d)))"
    using map_length_members [of d] by (metis length_concat member_offset_def take_map)
  moreover have "encode d = concat (take i (members d)) @ concat (drop i (members d))"
    by (simp add: encode_def flip: concat_append)
  ultimately show ?thesis by (simp add: char_ptr_def)
qed

text \<open>The pointer to a terminated member reads the member alone.\<close>

lemma char_ptr_member:
  assumes "layout_ok d" "i < length (members d)" "nul \<in> set (members d ! i)"
  shows "char_ptr d i = cstr (members d ! i)"
proof -
  have "concat (drop i (members d)) = members d ! i @ concat (drop (Suc i) (members d))"
    by (simp add: Cons_nth_drop_Suc [OF assms(2), symmetric])
  then show ?thesis
    using assms(3) by (simp add: char_ptr_concat [OF assms(1)] cstr_def takeWhile_append1)
qed

lemma cstr_char_ptr [simp]: "cstr (char_ptr d i) = char_ptr d i"
  by (simp add: char_ptr_def cstr_def)

section \<open>Non-volatile memory\<close>

text \<open>
  What the firmware needs of its non-volatile memory: what was written is read back, for
  every value the memory can represent.
\<close>

locale nonvolatile =
  fixes wr :: "'d \<Rightarrow> 'm \<Rightarrow> 'm" and rd :: "'m \<Rightarrow> 'd" and fits :: "'d \<Rightarrow> bool"
  assumes rd_wr: "fits d \<Longrightarrow> rd (wr d m) = d"
begin

lemma last_write_wins: "fits d \<Longrightarrow> rd (wr d (wr d' m)) = d"
  by (rule rd_wr)

lemma write_injective: "fits d \<Longrightarrow> fits d' \<Longrightarrow> wr d m = wr d' m \<Longrightarrow> d = d'"
  using rd_wr by metis

lemma survives: "fits d \<Longrightarrow> rd (fold wr (ds @ [d]) m) = d"
  by (simp add: rd_wr)

end

definition eeprom_put :: "SWdata \<Rightarrow> bytes \<Rightarrow> bytes" where
  "eeprom_put d m = overwrite m 0 (encode d)"

definition eeprom_get :: "bytes \<Rightarrow> SWdata" where
  "eeprom_get m = decode (take sizeof_SWdata m)"

interpretation eeprom: nonvolatile eeprom_put eeprom_get layout_ok
proof
  fix d m assume ok: "layout_ok d"
  have "take sizeof_SWdata (eeprom_put d m) = encode d @ []"
    using length_encode [OF ok] by (simp add: eeprom_put_def overwrite_def sizeof_SWdata_eq)
  then show "eeprom_get (eeprom_put d m) = d"
    unfolding eeprom_get_def using decode_encode [OF ok, of "[]"] by simp
qed

end
