(* ===== verification/Settings_Store.thy ===== *)
theory Settings_Store
  imports Flash_Layout
begin

text \<open>
  Loading and saving the settings (\<open>SWparser::init\<close>, \<open>loadAllFromEEPROM\<close>,
  \<open>saveAllToEEPROM\<close>) and the converters between command arguments and structure members
  (\<open>chcopyt\<close>, \<open>store_String\<close>, \<open>restore_String\<close>, \<open>store_IP_String\<close>, \<open>store_Port\<close>,
  \<open>store_uint32_t\<close> and their readers) of \<open>SWparser.cpp\<close>.
\<close>

section \<open>Loading and saving\<close>

record store =
  p_data :: SWdata
  eeprom :: bytes

definition saveAllToEEPROM :: "'a store_scheme \<Rightarrow> 'a store_scheme" where
  "saveAllToEEPROM s =
     (let d = (p_data s)\<lparr>Eflag := Eflag (p_data s) OR FNODEFAULT\<rparr>
      in s\<lparr>p_data := d, eeprom := eeprom_put d (eeprom s)\<rparr>)"

definition loadAllFromEEPROM :: "'a store_scheme \<Rightarrow> 'a store_scheme" where
  "loadAllFromEEPROM s = s\<lparr>p_data := eeprom_get (eeprom s)\<rparr>"

text \<open>
  The flags byte of the image decides between writing the defaults and loading.  A set TLS
  flag forces the remote port, in RAM only.
\<close>

definition ssl_port :: "SWdata \<Rightarrow> SWdata" where
  "ssl_port d = (if has_flag d FSSL \<or> has_flag d FSECURE then d\<lparr>EremotePort := 443\<rparr> else d)"

definition init_settings :: "bool \<Rightarrow> 'a store_scheme \<Rightarrow> 'a store_scheme" where
  "init_settings saveData s =
     (let f = of_char (char_at (eeprom s) 0) :: nat;
          s' = (if saveData \<or> f AND 1 = 0 then saveAllToEEPROM s else loadAllFromEEPROM s)
      in s'\<lparr>p_data := ssl_port (p_data s')\<rparr>)"

text \<open>\<open>new SWparser(saveData)\<close>: the default members, then \<open>init\<close>.\<close>

definition new_settings :: "bytes \<Rightarrow> bool \<Rightarrow> 'a store_scheme \<Rightarrow> 'a store_scheme" where
  "new_settings garbage saveData s = init_settings saveData (s\<lparr>p_data := default_SWdata garbage\<rparr>)"

lemma layout_ok_Eflag [simp]: "layout_ok (d\<lparr>Eflag := w\<rparr>) = layout_ok d"
  by (simp add: layout_ok_def)

lemma layout_ok_EremotePort [simp]: "layout_ok (d\<lparr>EremotePort := w\<rparr>) = layout_ok d"
  by (simp add: layout_ok_def)

lemma p_data_saveAll [simp]:
  "p_data (saveAllToEEPROM s) = (p_data s)\<lparr>Eflag := Eflag (p_data s) OR FNODEFAULT\<rparr>"
  by (simp add: saveAllToEEPROM_def Let_def)

lemma eeprom_saveAll [simp]:
  "eeprom (saveAllToEEPROM s) =
     eeprom_put ((p_data s)\<lparr>Eflag := Eflag (p_data s) OR FNODEFAULT\<rparr>) (eeprom s)"
  by (simp add: saveAllToEEPROM_def Let_def)

lemma more_saveAll [simp]: "store.more (saveAllToEEPROM s) = store.more s"
  by (simp add: saveAllToEEPROM_def Let_def)

lemma first_byte_le32: "char_at (le32 w @ t) 0 = char_of (unat w)"
  by (simp add: char_at_def le32_def le_bytes_Suc [of 3, simplified])

lemma first_byte_put: "layout_ok d \<Longrightarrow> char_at (eeprom_put d m) 0 = char_of (unat (Eflag d))"
  using first_byte_le32 [of "Eflag d"]
  by (simp add: eeprom_put_def overwrite_def encode_def members_def)

lemma odd_char_of_unat: "(of_char (char_of (unat (w :: u32))) :: nat) AND 1 \<noteq> 0 \<longleftrightarrow> odd (unat w)"
proof -
  have "of_char (char_of (unat w)) mod (2 :: nat) = unat w mod 256 mod 2"
    by (simp add: of_char_of)
  also have "\<dots> = unat w mod 2" by (simp add: mod_mod_cancel)
  finally show ?thesis by (simp add: and_one_eq odd_iff_mod_2_eq_one)
qed

lemma odd_unat_OR_1: "odd (unat (w OR FNODEFAULT))"
proof -
  have "unat (w OR FNODEFAULT) = unat w OR 1"
    by (simp add: FNODEFAULT_def unsigned_or_eq)
  then show ?thesis by (simp add: even_or_iff)
qed

lemma saved_flag_set: "layout_ok (p_data s) \<Longrightarrow>
    (of_char (char_at (eeprom (saveAllToEEPROM s)) 0) :: nat) AND 1 \<noteq> 0"
proof -
  assume "layout_ok (p_data s)"
  then have "char_at (eeprom (saveAllToEEPROM s)) 0 = char_of (unat (Eflag (p_data s) OR FNODEFAULT))"
    by (simp add: first_byte_put)
  then show ?thesis by (simp only: odd_char_of_unat odd_unat_OR_1 not_False_eq_True)
qed

text \<open>A restart after a save finds the saved settings.\<close>

lemma restart_after_save:
  assumes "layout_ok (p_data s)"
  shows "p_data (new_settings g False ((saveAllToEEPROM s)\<lparr>p_data := d\<rparr>)) =
         ssl_port ((p_data s)\<lparr>Eflag := Eflag (p_data s) OR FNODEFAULT\<rparr>)"
  using saved_flag_set [OF assms] assms
  by (simp add: new_settings_def init_settings_def loadAllFromEEPROM_def eeprom.rd_wr)

lemma load_after_save:
  "layout_ok (p_data s) \<Longrightarrow>
     loadAllFromEEPROM ((saveAllToEEPROM s)\<lparr>p_data := d\<rparr>) = saveAllToEEPROM s"
  by (simp add: loadAllFromEEPROM_def saveAllToEEPROM_def Let_def eeprom.rd_wr)

text \<open>An image whose flag is clear (a first start) is replaced by the defaults.\<close>

lemma first_start_writes_defaults:
  assumes "even (of_char (char_at (eeprom s) 0) :: nat)" and "length g = 800"
  shows "eeprom_get (eeprom (new_settings g False s)) =
         (default_SWdata g)\<lparr>Eflag := FSSL OR FNODEFAULT\<rparr>"
proof -
  have "(of_char (char_at (eeprom s) 0) :: nat) AND 1 = 0"
    using assms(1) by (simp add: and_one_eq)
  then show ?thesis
    using assms(2)
    by (simp add: new_settings_def init_settings_def eeprom.rd_wr layout_ok_default)
       (simp add: default_SWdata_def)
qed

section \<open>Text members\<close>

definition chcopyt :: "bytes \<Rightarrow> string \<Rightarrow> nat \<Rightarrow> bool \<Rightarrow> char \<Rightarrow> bytes" where
  "chcopyt dest src sizedest terminator termvalue =
     (let sz = (if sizedest < length src then sizedest else length src);
          dest' = overwrite dest 0 (take sz src)
      in if terminator \<and> length src < sizedest then dest'[length src := termvalue] else dest')"

definition quoted :: "string \<Rightarrow> bool" where
  "quoted s \<longleftrightarrow>
     (char_at s 0 = CHR 0x22 \<and> char_at s (length s - 1) = CHR 0x22) \<or>
     (char_at s 0 = CHR 0x27 \<and> char_at s (length s - 1) = CHR 0x27)"

text \<open>The stored length and the new contents of the array, zeroed first.\<close>

definition store_String :: "nat \<Rightarrow> string \<Rightarrow> nat \<times> bytes" where
  "store_String dest_len src_data =
     (let dest = replicate dest_len nul in
      if length src_data \<noteq> 0 then
        (let src = (if quoted src_data
                    then remove_at (remove_at src_data 0 1) (length src_data - 2) 1
                    else src_data);
             l = (if dest_len \<le> length src then dest_len - 1 else length src)
         in if l \<noteq> 0 then (l, chcopyt dest src dest_len True nul) else (0, dest))
      else (0, dest))"

definition restore_String :: "bytes \<Rightarrow> nat \<Rightarrow> string" where
  "restore_String src_ar src_len = cstr (take src_len src_ar)"

lemma length_chcopyt [simp]: "length dest = n \<Longrightarrow> length (chcopyt dest src n t v) = n"
  by (simp add: chcopyt_def Let_def overwrite_def)

lemma length_store_String [simp]: "length (snd (store_String n s)) = n"
  by (simp add: store_String_def Let_def)

lemma chcopyt_fits:
  "length dest = n \<Longrightarrow> length src < n \<Longrightarrow>
     chcopyt dest src n True nul = src @ nul # drop (Suc (length src)) dest"
  by (simp add: chcopyt_def overwrite_def list_update_append Let_def)
     (metis Cons_nth_drop_Suc list_update_code(2))

lemma chcopyt_fills:
  "length dest = n \<Longrightarrow> n \<le> length src \<Longrightarrow> chcopyt dest src n True nul = take n src"
  by (auto simp: chcopyt_def overwrite_def Let_def)

lemma store_String_unquoted:
  assumes "s \<noteq> []" "\<not> quoted s" "1 < n"
  shows "store_String n s =
    ((if n \<le> length s then n - 1 else length s), chcopyt (replicate n nul) s n True nul)"
  using assms by (auto simp: store_String_def Let_def)

lemma restore_store_String:
  assumes "nul \<notin> set s" "\<not> quoted s" "length s \<le> n" "1 < n"
  shows "restore_String (snd (store_String n s)) n = s"
proof (cases "s = []")
  case True
  then show ?thesis
    using assms(4) by (cases n) (auto simp: store_String_def restore_String_def Let_def cstr_def)
next
  case False
  show ?thesis
  proof (cases "length s < n")
    case True
    then have "snd (store_String n s) = s @ nul # drop (Suc (length s)) (replicate n nul)"
      using False assms by (simp add: store_String_unquoted chcopyt_fits)
    then show ?thesis
      using assms True by (simp add: restore_String_def cstr_terminated)
  next
    case False': False
    then have "snd (store_String n s) = s"
      using False assms by (simp add: store_String_unquoted chcopyt_fills)
    then show ?thesis using assms by (simp add: restore_String_def cstr_id)
  qed
qed

text \<open>An argument as long as the array leaves the array without a terminator.\<close>

lemma store_String_unterminated:
  assumes "nul \<notin> set s" "\<not> quoted s" "n \<le> length s" "1 < n"
  shows "snd (store_String n s) = take n s \<and> fst (store_String n s) = n - 1 \<and>
         nul \<notin> set (snd (store_String n s))"
proof -
  have "s \<noteq> []" using assms by auto
  then show ?thesis
    using assms by (auto simp: store_String_unquoted chcopyt_fills dest: in_set_takeD)
qed

text \<open>One pair of enclosing quotes is dropped.\<close>

lemma store_String_quoted:
  assumes "q = CHR 0x22 \<or> q = CHR 0x27" "\<not> quoted s" "s \<noteq> []"
  shows "store_String n (q # s @ [q]) = store_String n s"
proof -
  have "quoted (q # s @ [q])"
    using assms(1) by (auto simp: quoted_def char_at_def nth_append)
  moreover have "remove_at (remove_at (q # s @ [q]) 0 1) (length (q # s @ [q]) - 2) 1 = s"
    by (simp add: remove_at_def)
  ultimately show ?thesis
    using assms(2,3) by (simp add: store_String_def Let_def)
qed

section \<open>Addresses, ports and numbers\<close>

definition store_IP_String :: "string \<Rightarrow> bytes" where
  "store_IP_String src_IP = map char_of (snd (ip_from_string src_IP))"

text \<open>
  The four numbers are a \<open>static\<close> local: they are set by the first call and kept by every
  later one.
\<close>

definition restore_IP_String :: "int list option \<Rightarrow> bytes \<Rightarrow> int list option \<times> string" where
  "restore_IP_String static_ip src_ar =
     (let ip = (case static_ip of
                  None \<Rightarrow> map (\<lambda>i. int (of_char (char_at src_ar i))) [0, 1, 2, 3]
                | Some ip \<Rightarrow> ip)
      in (Some ip,
          dec_int (ip ! 0) @ ''.'' @ dec_int (ip ! 1) @ ''.'' @ dec_int (ip ! 2) @ ''.'' @ dec_int (ip ! 3)))"

definition store_Port :: "string \<Rightarrow> u16" where
  "store_Port src_Port =
     (let tp = to_int src_Port; tp' = (if 65525 < tp \<or> tp < 0 then 80 else tp) in word_of_int tp')"

definition store_uint32_t :: "u32 \<Rightarrow> string \<Rightarrow> u32" where
  "store_uint32_t dest src =
     (let number = strtoul src in if number \<noteq> 4294967295 then of_nat number else dest)"

definition restore_uint32_t :: "u32 \<Rightarrow> string" where
  "restore_uint32_t src = dec (unat src)"

lemma ip_scan_shape:
  "length ip = 4 \<Longrightarrow> (\<forall>b \<in> set ip. b \<le> 255) \<Longrightarrow> acc \<le> 255 \<Longrightarrow>
     length (snd (ip_scan s acc dots ip)) = 4 \<and> (\<forall>b \<in> set (snd (ip_scan s acc dots ip)). b \<le> 255)"
proof (induction s acc dots ip rule: ip_scan.induct)
  case (1 acc dots ip)
  then show ?case by (auto dest!: subsetD [OF set_update_subset_insert])
next
  case (2 c s acc dots ip)
  have "\<forall>b \<in> set (ip[dots := acc]). b \<le> 255"
    using 2(4,5) by (auto dest!: subsetD [OF set_update_subset_insert])
  with 2 show ?case by (auto simp: Let_def)
qed

lemma length_store_IP [simp]: "length (store_IP_String s) = 4"
  using ip_scan_shape [of "[0, 0, 0, 0]" 0 "cstr s" 0]
  by (simp add: store_IP_String_def ip_from_string_def)

lemma store_IP_dotted:
  assumes "a \<le> 255" "b \<le> 255" "c \<le> 255" "d \<le> 255"
  shows "store_IP_String (dotted [a, b, c, d]) = map char_of [a, b, c, d]"
  using ip_from_string_dotted [OF assms] by (simp add: store_IP_String_def del: dotted.simps)

lemma restore_IP_first_call:
  assumes "a \<le> 255" "b \<le> 255" "c \<le> 255" "d \<le> 255"
  shows "snd (restore_IP_String None (store_IP_String (dotted [a, b, c, d]))) = dotted [a, b, c, d]"
proof -
  have "\<And>n. n \<le> (255 :: nat) \<Longrightarrow> of_char (char_of n :: char) = n"
    by (simp add: of_char_of)
  then show ?thesis
    using assms store_IP_dotted [OF assms]
    by (simp add: restore_IP_String_def char_at_def dec_int_def numeral_2_eq_2 numeral_3_eq_3)
qed

lemma restore_IP_later_call:
  "restore_IP_String (Some ip) a = restore_IP_String (Some ip) b"
  by (simp add: restore_IP_String_def)

lemma store_Port_printed:
  "n \<le> 65525 \<Longrightarrow> store_Port (dec n) = of_nat n"
  using strtol_dec_int [of "int n"]
  by (simp add: store_Port_def to_int_def dec_int_def in_int32_iff)

lemma store_Port_bound: "unat (store_Port s) \<le> 65525"
proof -
  define t where "t = (if 65525 < to_int s \<or> to_int s < 0 then 80 else to_int s)"
  have t: "0 \<le> t" "t \<le> 65525" by (auto simp: t_def)
  then have "uint (word_of_int t :: u16) = t" by (simp add: uint_word_of_int)
  then have "unat (word_of_int t :: u16) \<le> 65525" using t by (simp add: unat_eq_nat_uint)
  then show ?thesis by (simp add: store_Port_def Let_def t_def)
qed

lemma store_restore_uint32: "w \<noteq> -1 \<Longrightarrow> store_uint32_t v (restore_uint32_t w) = w"
proof -
  assume "w \<noteq> -1"
  have "unat w \<noteq> 4294967295"
  proof
    assume "unat w = 4294967295"
    then have "w = of_nat 4294967295" by (metis of_nat_unat ucast_id)
    with \<open>w \<noteq> -1\<close> show False by simp
  qed
  then show ?thesis
    using unat_u32_less [of w]
    by (simp add: store_uint32_t_def restore_uint32_t_def strtoul_dec)
qed

section \<open>Properties\<close>

text \<open>C20. What a save wrote is what the next start works with: whatever the RAM held in between, a new
  parser has the saved members, with the first-start flag set and, in a TLS mode, port 443.\<close>

theorem settings_survive_restart:
  assumes "layout_ok (p_data s)"
  shows "p_data (new_settings g False ((saveAllToEEPROM s)\<lparr>p_data := d\<rparr>)) =
         ssl_port ((p_data s)\<lparr>Eflag := Eflag (p_data s) OR FNODEFAULT\<rparr>)"
  using assms by (rule restart_after_save)

theorem settings_survive_restart_witness:
  "\<exists>s :: store. EdeviceName (p_data s) = char_array 64 ''door'' \<and>
     p_data (new_settings [] False ((saveAllToEEPROM s)\<lparr>p_data := default_SWdata []\<rparr>)) =
       ssl_port ((p_data s)\<lparr>Eflag := Eflag (p_data s) OR FNODEFAULT\<rparr>)"
proof (intro exI conjI)
  let ?s = "\<lparr>p_data = (default_SWdata (replicate 800 nul))\<lparr>EdeviceName := char_array 64 ''door''\<rparr>,
             eeprom = replicate 3308 nul\<rparr>"
  have ok: "layout_ok (p_data ?s)"
    using layout_ok_default [of "replicate 800 nul"] by (simp add: layout_ok_def)
  show "p_data (new_settings [] False ((saveAllToEEPROM ?s)\<lparr>p_data := default_SWdata []\<rparr>)) =
        ssl_port ((p_data ?s)\<lparr>Eflag := Eflag (p_data ?s) OR FNODEFAULT\<rparr>)"
    by (rule settings_survive_restart) (rule ok)
qed simp

text \<open>On a first start (the flag bit of the image is clear) the default settings are written to
  the memory, marked as written.\<close>

lemma first_start_settings:
  assumes "even (of_char (char_at (eeprom s) 0) :: nat)" and "length g = 800"
  shows "eeprom_get (eeprom (new_settings g False s)) =
         (default_SWdata g)\<lparr>Eflag := FSSL OR FNODEFAULT\<rparr>"
  using assms by (rule first_start_writes_defaults)


text \<open>The address reader answers every call after the first with the first call's address, whatever
  array it is given.\<close>

lemma address_reader_is_frozen:
  "snd (restore_IP_String (fst (restore_IP_String None a)) b) = snd (restore_IP_String None a)"
  by (simp add: restore_IP_String_def Let_def)

end
