(* ===== verification/Key_Store.thy ===== *)
theory Key_Store
  imports Settings_Store
begin

text \<open>
  The access keys of \<open>SWparser.cpp\<close>: an array of \<open>MAX_KEYS\<close> slots of eight bytes, seven for the
  key and one for its status, of which the first \<open>Ekeys\<close> are in use.  The operations are
  \<open>substractKey\<close>, \<open>searchKey\<close>, \<open>checkKey\<close>, \<open>toBlackList\<close>, \<open>deleteKey\<close>, \<open>addKey\<close>,
  \<open>get_all_keys\<close>, \<open>scanForKeys\<close> and \<open>parse_for_keys\<close>; the abstract view is a finite map from
  keys to their black-list bit.
\<close>

section \<open>Slots\<close>

definition slot :: "bytes \<Rightarrow> nat \<Rightarrow> bytes" where
  "slot ks i = take 8 (drop (8 * i) ks)"

definition slot_key :: "bytes \<Rightarrow> nat \<Rightarrow> string" where
  "slot_key ks i = cstr (take 7 (slot ks i))"

definition slot_black :: "bytes \<Rightarrow> nat \<Rightarrow> bool" where
  "slot_black ks i \<longleftrightarrow> odd (of_char (slot ks i ! 7) :: nat)"

lemma length_slot: "8 * i + 8 \<le> length ks \<Longrightarrow> length (slot ks i) = 8"
  by (simp add: slot_def)

lemma slot_overwrite_same:
  "length b = 8 \<Longrightarrow> 8 * i + 8 \<le> length ks \<Longrightarrow> slot (overwrite ks (8 * i) b) i = b"
  using overwrite_same [of "8 * i" b ks] by (simp add: slot_def)

lemma slot_overwrite_other:
  assumes "length b \<le> 8" "8 * i + 8 \<le> length ks" "8 * j + 8 \<le> length ks" "i \<noteq> j"
  shows "slot (overwrite ks (8 * i) b) j = slot ks j"
proof -
  have "8 * j + 8 \<le> 8 * i \<or> 8 * i + length b \<le> 8 * j"
    using assms(1,4) by (cases "i < j") auto
  then show ?thesis
    unfolding slot_def using assms by (intro overwrite_other) auto
qed

lemma slot_update:
  assumes "m < 8" "8 * i + 8 \<le> length ks"
  shows "slot (ks[8 * i + m := c]) j = (if i = j then (slot ks j)[m := c] else slot ks j)"
proof (cases "i = j")
  case True
  then show ?thesis using assms by (simp add: slot_def drop_update_swap take_update_swap)
next
  case False
  show ?thesis
  proof (cases "i < j")
    case True
    then have "8 * i + m < 8 * j" using assms(1) by simp
    then show ?thesis using False by (simp add: slot_def drop_update_cancel)
  next
    case F2: False
    then have "8 * j + 8 \<le> 8 * i + m" using False by simp
    then show ?thesis
      using False by (simp add: slot_def drop_update_swap take_update_cancel)
  qed
qed

section \<open>The operations\<close>

definition msg_black_done :: string where
  "msg_black_done =
     utf8 [208, 186, 208, 187, 209, 142, 209, 135, 32, 208, 183, 208, 176, 208, 189, 208, 181, 209,
     129, 208, 181, 208, 189, 32, 208, 178, 32, 209, 135, 209, 145, 209, 128, 208, 189, 209, 139,
     208, 185, 32, 209, 129, 208, 191, 208, 184, 209, 129, 208, 190, 208, 186, 46, 208, 164, 208,
     187, 208, 181, 209, 136, 32, 208, 191, 208, 181, 209, 128, 208, 181, 208, 183, 208, 176, 208,
     191, 208, 184, 209, 129, 208, 176, 208, 189, 208, 176, 46]"

definition msg_del_missing :: string where
  "msg_del_missing =
     utf8 [101, 114, 114, 111, 114, 58, 32, 208, 186, 208, 187, 209, 142, 209, 135, 32, 208, 189,
     208, 181, 32, 208, 189, 208, 176, 208, 185, 208, 180, 208, 181, 208, 189, 46]"

definition msg_del_done :: string where
  "msg_del_done =
     utf8 [208, 186, 208, 187, 209, 142, 209, 135, 32, 209, 131, 208, 180, 208, 176, 208, 187, 208,
     181, 208, 189, 46, 208, 164, 208, 187, 208, 181, 209, 136, 32, 208, 191, 208, 181, 209, 128,
     208, 181, 208, 183, 208, 176, 208, 191, 208, 184, 209, 129, 208, 176, 208, 189, 208, 176, 46]"

definition msg_add_dup :: string where
  "msg_add_dup =
     utf8 [101, 114, 114, 111, 114, 58, 32, 208, 186, 208, 187, 209, 142, 209, 135, 32, 209, 131,
     208, 182, 208, 181, 32, 209, 129, 208, 190, 208, 180, 208, 181, 209, 128, 208, 182, 208, 184,
     209, 130, 209, 129, 209, 143, 32, 208, 178, 32, 208, 188, 208, 176, 209, 129, 209, 129, 208,
     184, 208, 178, 208, 181, 46]"

definition msg_add_full :: string where
  "msg_add_full =
     utf8 [101, 114, 114, 111, 114, 58, 32, 208, 189, 208, 181, 208, 178, 208, 190, 208, 183, 208,
     188, 208, 190, 208, 182, 208, 189, 208, 190, 32, 208, 180, 208, 190, 208, 177, 208, 176, 208,
     178, 208, 184, 209, 130, 209, 140, 32, 208, 186, 208, 187, 209, 142, 209, 135, 45, 208, 180,
     208, 190, 209, 129, 209, 130, 208, 184, 208, 179, 208, 189, 209, 131, 209, 130, 208, 190, 32,
     208, 188, 208, 176, 208, 186, 209, 129, 208, 184, 208, 188, 208, 176, 208, 187, 209, 140, 208,
     189, 208, 190, 208, 181, 32, 208, 186, 208, 190, 208, 187, 208, 184, 209, 135, 208, 181, 209,
     129, 209, 130, 208, 178, 208, 190, 46]"

definition msg_key :: string where
  "msg_key =
     utf8 [208, 154, 208, 187, 209, 142, 209, 135, 32]"

definition msg_added :: string where
  "msg_added =
     utf8 [32, 208, 180, 208, 190, 208, 177, 208, 176, 208, 178, 208, 187, 208, 181, 208, 189, 46]"

definition msg_flash :: string where
  "msg_flash =
     utf8 [208, 164, 208, 187, 208, 181, 209, 136, 32, 208, 191, 208, 181, 209, 128, 208, 181, 208,
     183, 208, 176, 208, 191, 208, 184, 209, 129, 208, 176, 208, 189, 208, 176, 46]"

definition msg_array_saved :: string where
  "msg_array_saved =
     utf8 [208, 188, 208, 176, 209, 129, 209, 129, 208, 184, 208, 178, 32, 208, 186, 208, 187, 209,
     142, 209, 135, 208, 181, 208, 185, 32, 208, 183, 208, 176, 208, 191, 208, 184, 209, 129, 208,
     176, 208, 189, 32, 208, 189, 208, 176, 32, 209, 132, 208, 187, 208, 181, 209, 136, 46]"

definition substractKey :: "SWdata \<Rightarrow> nat \<Rightarrow> string" where
  "substractKey d index = (if 800 < index * 8 + 8 then [] else slot_key (Ekey d) index)"

definition searchKey :: "SWdata \<Rightarrow> string \<Rightarrow> nat option" where
  "searchKey d key =
     find (\<lambda>n. substractKey d n = key) (takeWhile (\<lambda>n. n * 8 < 800) [0..<nat (Ekeys d)])"

definition checkKey :: "SWdata \<Rightarrow> string \<Rightarrow> string" where
  "checkKey d key =
     (if key = cstr (take 7 (Edevelopment d)) then ''ISMASTER''
      else if key = cstr (take 7 (Emasterkey d)) then ''ISMASTER''
      else (case searchKey d key of
              None \<Rightarrow> ''NOTFOUND''
            | Some i \<Rightarrow> if of_char (Ekey d ! (i * 8 + 7)) AND 1 = (1 :: nat) then ''INBLACK'' else ''FOUND''))"

definition saveKeyArrayToEEPROM :: "'a store_scheme \<Rightarrow> 'a store_scheme \<times> string" where
  "saveKeyArrayToEEPROM s = (saveAllToEEPROM s, msg_array_saved)"

definition toBlackList :: "string \<Rightarrow> 'a store_scheme \<Rightarrow> 'a store_scheme \<times> string" where
  "toBlackList key s =
     (let d = p_data s in
      case searchKey d key of
        None \<Rightarrow> (s, ''COMPLETE'')
      | Some i \<Rightarrow>
          (saveAllToEEPROM (s\<lparr>p_data :=
             d\<lparr>Ekey := (Ekey d)[8 * i + 7 := char_of (of_char (Ekey d ! (8 * i + 7)) OR (1 :: nat))]\<rparr>\<rparr>),
           msg_black_done))"

text \<open>Deleting moves the last key into the freed slot; the last slot itself is only cleared.\<close>

definition deleteKey :: "string \<Rightarrow> 'a store_scheme \<Rightarrow> 'a store_scheme \<times> string" where
  "deleteKey key s =
     (let d = p_data s in
      case searchKey d key of
        None \<Rightarrow> (s, msg_del_missing)
      | Some i \<Rightarrow>
          (let last = nat (Ekeys d - 1);
               ks = (if int i < Ekeys d - 1 then overwrite (Ekey d) (8 * i) (slot (Ekey d) last)
                     else overwrite (Ekey d) (8 * last) (replicate 8 nul))
           in (saveAllToEEPROM (s\<lparr>p_data := d\<lparr>Ekey := ks, Ekeys := Ekeys d - 1\<rparr>\<rparr>), msg_del_done)))"

text \<open>\<open>toCharArray\<close> into an eight-byte buffer: \<open>strncpy\<close> pads with NULs, then a terminator.\<close>

definition to_char_array :: "string \<Rightarrow> nat \<Rightarrow> bytes" where
  "to_char_array k bufsize =
     (let n = min (bufsize - 1) (length k); t = cstr (take n k)
      in t @ replicate (n - length t) nul @ [nul])"

text \<open>
  The code compares \<open>(Ekeys+1)*8\<close> with a size, so as an unsigned number: below -1 the array counts as full.
  At exactly -1 the code would write in front of the array; no such count arises (\<open>keys_ok\<close>, which every
  operation keeps), and the model answers there as for a full array.
\<close>

definition addKey :: "string \<Rightarrow> bool \<Rightarrow> 'a store_scheme \<Rightarrow> 'a store_scheme \<times> string" where
  "addKey key save s =
     (if key = [] then (s, ''error: empty value'')
      else
        let d = p_data s; k = (if 7 < length key then substring key 0 7 else key) in
        case searchKey d k of
          Some i \<Rightarrow> (s, msg_add_dup)
        | None \<Rightarrow>
            if 0 \<le> Ekeys d \<and> (Ekeys d + 1) * 8 \<le> 800 then
              (let n = nat (Ekeys d);
                   ks = (overwrite (Ekey d) (8 * n) (to_char_array k 8))[8 * n + 7 := nul];
                   s' = s\<lparr>p_data := d\<lparr>Ekey := ks, Ekeys := Ekeys d + 1\<rparr>\<rparr>;
                   msg = msg_key @ cstr (drop (8 * n) ks) @ msg_added
               in if save then (saveAllToEEPROM s', msg @ msg_flash) else (s', msg))
            else (s, msg_add_full))"

text \<open>The \<open>clear\<close> command.\<close>

definition clearKeys :: "'a store_scheme \<Rightarrow> 'a store_scheme" where
  "clearKeys s = saveAllToEEPROM (s\<lparr>p_data := (p_data s)\<lparr>Ekey := replicate 800 nul, Ekeys := 0\<rparr>\<rparr>)"

definition get_all_keys :: "bool \<Rightarrow> SWdata \<Rightarrow> string" where
  "get_all_keys view d =
     (if Ekeys d = 0 then ''no keys''
      else (if view then [] else ''<br>'') @
        concat (map (\<lambda>n. let ss = substractKey d n in
                       if length ss \<noteq> 0
                       then ss @ [CHR 0x0D, CHR 0x0A] @ (if view then [] else ''<br>'') else [])
                 [0..<nat (Ekeys d)]))"

text \<open>
  \<open>scanForKeys\<close>: the loop looks for the next separator at index \<open>i\<close>, adds what precedes it
  and cuts it off.  The text after the last separator is not added.  \<open>Ekeys*8\<close> is compared with a size, as an
  unsigned number, so a negative count would end the loop.
\<close>

definition key_separator :: "char \<Rightarrow> bool" where
  "key_separator c \<longleftrightarrow>
     c = CHR 0x0A \<or> c = CHR 0x09 \<or> c = CHR '' '' \<or> c = CHR '';'' \<or> c = CHR '','' \<or> c = CHR 0x22"

function scan_keys_loop :: "string \<Rightarrow> nat \<Rightarrow> 'a store_scheme \<Rightarrow> 'a store_scheme \<times> string" where
  "scan_keys_loop s i st =
     (if 0 \<le> Ekeys (p_data st) \<and> Ekeys (p_data st) * 8 < 800 \<and> i < length s then
        (if key_separator (char_at s i) then
           (if i \<noteq> 0 then
              (case addKey (substring s 0 i) False st of
                 (st', r) \<Rightarrow> if contains r ''error'' then (st', ''error'')
                            else scan_keys_loop (remove_at s 0 (i + 1)) 0 st')
            else scan_keys_loop (remove_at s 0 (i + 1)) 0 st)
         else scan_keys_loop s (i + 1) st)
      else (st, ''success''))"
  by pat_completeness auto
termination
  by (relation "measure (\<lambda>(s, i, st). length s - i)") (auto simp: remove_at_def)

declare scan_keys_loop.simps [simp del]

definition scanForKeys :: "string \<Rightarrow> 'a store_scheme \<Rightarrow> 'a store_scheme \<times> string" where
  "scanForKeys s st = scan_keys_loop s 0 st"

text \<open>\<open>alloc\<close> says whether the copy of the buffer could be allocated.\<close>

definition parse_for_keys :: "bool \<Rightarrow> bytes \<Rightarrow> 'a store_scheme \<Rightarrow> 'a store_scheme \<times> string" where
  "parse_for_keys alloc buf st =
     (if buf = [] then (st, ''error: empty'')
      else if \<not> alloc then (st, ''error: no allocate memory'')
      else scanForKeys (cstr buf) st)"

section \<open>The invariant and the abstract view\<close>

definition key_names :: "SWdata \<Rightarrow> string list" where
  "key_names d = map (slot_key (Ekey d)) [0..<nat (Ekeys d)]"

definition keys_ok :: "SWdata \<Rightarrow> bool" where
  "keys_ok d \<longleftrightarrow> layout_ok d \<and> 0 \<le> Ekeys d \<and> Ekeys d \<le> 100 \<and> distinct (key_names d)"

text \<open>The keys with their black-list bits, in slot order, and as a map.\<close>

definition key_list :: "SWdata \<Rightarrow> (string \<times> bool) list" where
  "key_list d = map (\<lambda>i. (slot_key (Ekey d) i, slot_black (Ekey d) i)) [0..<nat (Ekeys d)]"

definition key_map :: "SWdata \<Rightarrow> string \<Rightarrow> bool option" where
  "key_map d = map_of (key_list d)"

definition plain_key :: "string \<Rightarrow> bool" where
  "plain_key k \<longleftrightarrow> k \<noteq> [] \<and> length k \<le> 7 \<and> nul \<notin> set k"

lemma keys_okD:
  "keys_ok d \<Longrightarrow> length (Ekey d) = 800"
  "keys_ok d \<Longrightarrow> 0 \<le> Ekeys d"
  "keys_ok d \<Longrightarrow> nat (Ekeys d) \<le> 100"
  "keys_ok d \<Longrightarrow> distinct (key_names d)"
  "keys_ok d \<Longrightarrow> layout_ok d"
  by (auto simp: keys_ok_def layout_ok_def)

lemma map_fst_key_list: "map fst (key_list d) = key_names d"
  by (simp add: key_list_def key_names_def)

lemma key_names_Eflag [simp]: "key_names (d\<lparr>Eflag := w\<rparr>) = key_names d"
  by (simp add: key_names_def)

lemma keys_ok_Eflag [simp]: "keys_ok (d\<lparr>Eflag := w\<rparr>) = keys_ok d"
  by (simp add: keys_ok_def)

lemma key_map_Eflag [simp]: "key_map (d\<lparr>Eflag := w\<rparr>) = key_map d"
  by (simp add: key_map_def key_list_def)

lemma substractKey_slot: "i < 100 \<Longrightarrow> substractKey d i = slot_key (Ekey d) i"
  by (simp add: substractKey_def)

lemma takeWhile_upt_bound: "n \<le> 100 \<Longrightarrow> takeWhile (\<lambda>n. n * 8 < 800) [0..<n] = [0..<n]"
  by (rule takeWhile_all) auto

lemma searchKey_Some_iff:
  assumes "keys_ok d"
  shows "searchKey d k = Some i \<longleftrightarrow> i < nat (Ekeys d) \<and> slot_key (Ekey d) i = k"
proof -
  let ?n = "nat (Ekeys d)"
  have n: "?n \<le> 100" using keys_okD(3) [OF assms] .
  have find: "searchKey d k = find (\<lambda>n. slot_key (Ekey d) n = k) [0..<?n]"
    unfolding searchKey_def takeWhile_upt_bound [OF n]
    by (rule find_cong) (use n in \<open>auto simp: substractKey_slot\<close>)
  have inj: "i = j" if "i < ?n" "j < ?n" "slot_key (Ekey d) i = slot_key (Ekey d) j" for i j
    using keys_okD(4) [OF assms] that by (auto simp: key_names_def distinct_map inj_on_def)
  show ?thesis
  proof
    assume "searchKey d k = Some i"
    then show "i < ?n \<and> slot_key (Ekey d) i = k"
      by (auto simp: find find_Some_iff)
  next
    assume i: "i < ?n \<and> slot_key (Ekey d) i = k"
    then obtain j where j: "searchKey d k = Some j"
      by (cases "searchKey d k") (auto simp: find find_None_iff)
    then have "j < ?n \<and> slot_key (Ekey d) j = k" by (auto simp: find find_Some_iff)
    with i j inj [of i j] show "searchKey d k = Some i" by simp
  qed
qed

lemma searchKey_None_iff:
  assumes "keys_ok d"
  shows "searchKey d k = None \<longleftrightarrow> k \<notin> set (key_names d)"
proof -
  have "searchKey d k = None \<longleftrightarrow> (\<forall>i. searchKey d k \<noteq> Some i)" by (cases "searchKey d k") auto
  then show ?thesis
    using searchKey_Some_iff [OF assms] by (auto simp: key_names_def)
qed

lemma key_map_Some_iff:
  assumes "keys_ok d"
  shows "key_map d k = Some b \<longleftrightarrow>
     (\<exists>i < nat (Ekeys d). slot_key (Ekey d) i = k \<and> slot_black (Ekey d) i = b)"
proof -
  have "distinct (map fst (key_list d))"
    using keys_okD(4) [OF assms] by (simp add: map_fst_key_list)
  then have "key_map d k = Some b \<longleftrightarrow> (k, b) \<in> set (key_list d)"
    by (simp add: key_map_def map_of_eq_Some_iff)
  then show ?thesis by (auto simp: key_list_def)
qed

lemma key_map_None_iff: "key_map d k = None \<longleftrightarrow> k \<notin> set (key_names d)"
  by (simp add: key_map_def map_of_eq_None_iff map_fst_key_list [symmetric])

section \<open>Adding\<close>

lemma to_char_array_plain: "plain_key k \<Longrightarrow> to_char_array k 8 = k @ [nul]"
  by (simp add: to_char_array_def plain_key_def Let_def cstr_id min_def)

lemma write_key_slot:
  assumes "length ks = 800" "n < 100" "plain_key k"
  defines "ks' \<equiv> (overwrite ks (8 * n) (to_char_array k 8))[8 * n + 7 := nul]"
  shows "length ks' = 800" "slot_key ks' n = k" "\<not> slot_black ks' n"
    "j < 100 \<Longrightarrow> j \<noteq> n \<Longrightarrow> slot ks' j = slot ks j"
proof -
  let ?b = "k @ [nul]" and ?o = "overwrite ks (8 * n) (k @ [nul])"
  have k: "length k \<le> 7" "nul \<notin> set k" using assms(3) by (auto simp: plain_key_def)
  have len: "length ?o = 800" using assms k by simp
  have sl: "slot ks' j = (if n = j then (slot ?o j)[7 := nul] else slot ?o j)" for j
    unfolding ks'_def to_char_array_plain [OF assms(3)] using assms len by (intro slot_update) auto
  show "length ks' = 800" using len by (simp add: ks'_def to_char_array_plain [OF assms(3)])
  show "slot ks' j = slot ks j" if "j < 100" "j \<noteq> n"
    using that assms(1,2) k unfolding sl by (simp add: slot_overwrite_other)
  have so: "slot ?o n = k @ nul # drop (Suc (length k)) (slot ks n)"
  proof -
    have "8 - length k = Suc (7 - length k)" using k by simp
    then show ?thesis
      using assms(1,2) k by (simp add: slot_def overwrite_def drop_take min_def add.commute)
  qed
  have l8: "length (slot ?o n) = 8" using assms len by (simp add: length_slot)
  show "\<not> slot_black ks' n" using l8 by (simp add: slot_black_def sl)
  show "slot_key ks' n = k"
  proof (cases "length k = 7")
    case True
    then have "take 7 (slot ks' n) = k" by (simp add: sl so)
    then show ?thesis using k by (simp add: slot_key_def cstr_id)
  next
    case False
    then have "length k < 7" using k by simp
    then have "take 7 (slot ks' n) = k @ nul # take (6 - length k) (drop (Suc (length k)) (slot ks n))"
      by (simp add: sl so) (simp add: take_Cons' numeral_eq_Suc)
    then show ?thesis using k by (simp add: slot_key_def cstr_terminated)
  qed
qed

text \<open>One slot more, with a given content, appends to the abstract list.\<close>

lemma key_list_append:
  assumes "nat (Ekeys d) = n" "nat (Ekeys d') = Suc n"
    and "\<And>j. j < n \<Longrightarrow> slot (Ekey d') j = slot (Ekey d) j"
  shows "key_list d' = key_list d @ [(slot_key (Ekey d') n, slot_black (Ekey d') n)]"
  using assms by (auto simp: key_list_def slot_key_def slot_black_def)

lemma layout_ok_Ekey: "layout_ok d \<Longrightarrow> length ks = 800 \<Longrightarrow> in_int32 n \<Longrightarrow> layout_ok (d\<lparr>Ekey := ks, Ekeys := n\<rparr>)"
  by (simp add: layout_ok_def)

lemma addKey_new:
  assumes ok: "keys_ok (p_data s)" and k: "plain_key k" and new: "key_map (p_data s) k = None"
    and room: "Ekeys (p_data s) < 100"
  shows "keys_ok (p_data (fst (addKey k sv s)))"
    and "key_list (p_data (fst (addKey k sv s))) = key_list (p_data s) @ [(k, False)]"
proof -
  let ?d = "p_data s"
  let ?n = "nat (Ekeys ?d)"
  let ?ks = "(overwrite (Ekey ?d) (8 * ?n) (to_char_array k 8))[8 * ?n + 7 := nul]"
  let ?d' = "?d\<lparr>Ekey := ?ks, Ekeys := Ekeys ?d + 1\<rparr>"
  note d = keys_okD [OF ok]
  have n: "?n < 100" using room d(2) by simp
  note w = write_key_slot [OF d(1) n k]
  have none: "searchKey ?d k = None"
    using new ok by (simp add: key_map_None_iff searchKey_None_iff)
  have res: "\<exists>w. p_data (fst (addKey k sv s)) = ?d'\<lparr>Eflag := w\<rparr>"
  proof -
    have "?d' = ?d'\<lparr>Eflag := Eflag ?d'\<rparr>" by simp
    moreover have "p_data (fst (addKey k sv s)) =
        (if sv then ?d'\<lparr>Eflag := Eflag ?d' OR FNODEFAULT\<rparr> else ?d')"
      using none k room d(2) by (simp add: addKey_def plain_key_def Let_def)
    ultimately show ?thesis by metis
  qed
  have kl: "key_list ?d' = key_list ?d @ [(k, False)]"
    using key_list_append [of ?d ?n ?d'] w n d(2) by simp
  have "key_names ?d' = key_names ?d @ [k]"
    using arg_cong [OF kl, of "map fst"] by (simp add: map_fst_key_list)
  then have "keys_ok ?d'"
    using d w(1) room new by (simp add: keys_ok_def layout_ok_Ekey in_int32_iff key_map_None_iff)
  then show "keys_ok (p_data (fst (addKey k sv s)))" using res by auto
  show "key_list (p_data (fst (addKey k sv s))) = key_list ?d @ [(k, False)]"
    using res kl by (auto simp: key_list_def)
qed

lemma addKey_refused:
  assumes ok: "keys_ok (p_data s)" and k: "plain_key k"
    and "key_map (p_data s) k \<noteq> None \<or> Ekeys (p_data s) = 100"
  shows "fst (addKey k sv s) = s"
proof (cases "searchKey (p_data s) k")
  case None
  then have "Ekeys (p_data s) = 100"
    using assms by (simp add: key_map_None_iff searchKey_None_iff)
  then show ?thesis using None k by (simp add: addKey_def plain_key_def Let_def)
next
  case (Some i)
  then show ?thesis using k by (simp add: addKey_def plain_key_def Let_def)
qed

text \<open>Only the first seven characters of a longer key count.\<close>

lemma addKey_truncates: "fst (addKey k sv s) = fst (addKey (take 7 k) sv s)"
  by (cases k) (auto simp: addKey_def Let_def substring_0 split: option.splits)

section \<open>Deleting and black-listing\<close>

lemma key_list_swap:
  assumes n: "nat (Ekeys d) = Suc m" "nat (Ekeys d') = m" and i: "i < Suc m"
    and moved: "i < m \<Longrightarrow> slot (Ekey d') i = slot (Ekey d) m"
    and kept: "\<And>j. j < m \<Longrightarrow> j \<noteq> i \<Longrightarrow> slot (Ekey d') j = slot (Ekey d) j"
  shows "key_list d' = swap_remove i (key_list d)"
proof (rule nth_equalityI)
  show "length (key_list d') = length (swap_remove i (key_list d))"
    using n by (simp add: key_list_def)
next
  fix j assume "j < length (key_list d')"
  then have j: "j < m" using n by (simp add: key_list_def)
  have last: "last (key_list d) = (slot_key (Ekey d) m, slot_black (Ekey d) m)"
    using n by (simp add: key_list_def last_map)
  have "butlast (key_list d) ! j = (slot_key (Ekey d) j, slot_black (Ekey d) j)"
    using n j by (simp add: key_list_def map_butlast nth_butlast del: upt_Suc)
  then show "key_list d' ! j = swap_remove i (key_list d) ! j"
    using n j moved kept last
    by (cases "j = i") (auto simp: swap_remove_def key_list_def slot_key_def slot_black_def simp del: upt_Suc)
qed

text \<open>The data part of a successful deletion.\<close>

definition delete_at :: "nat \<Rightarrow> SWdata \<Rightarrow> SWdata" where
  "delete_at i d =
     (let last = nat (Ekeys d - 1)
      in d\<lparr>Ekey := (if int i < Ekeys d - 1 then overwrite (Ekey d) (8 * i) (slot (Ekey d) last)
                    else overwrite (Ekey d) (8 * last) (replicate 8 nul)),
           Ekeys := Ekeys d - 1\<rparr>)"

lemma deleteKey_data:
  "p_data (fst (deleteKey k s)) =
     (case searchKey (p_data s) k of
        None \<Rightarrow> p_data s
      | Some i \<Rightarrow> let d = delete_at i (p_data s) in d\<lparr>Eflag := Eflag d OR FNODEFAULT\<rparr>)"
  by (simp add: deleteKey_def delete_at_def Let_def split: option.split)

lemma delete_at_list:
  assumes ok: "keys_ok d" and i: "i < nat (Ekeys d)"
  shows "key_list (delete_at i d) = swap_remove i (key_list d)"
    and "keys_ok (delete_at i d)"
proof -
  note d = keys_okD [OF ok]
  obtain m where m: "nat (Ekeys d) = Suc m" using i by (cases "nat (Ekeys d)") auto
  have m': "nat (Ekeys d - 1) = m" "m < 100" "i \<le> m" "Ekeys d - 1 = int m"
    using m d(3) i by auto
  have l: "length (slot (Ekey d) m) = 8" using m' d(1) by (simp add: length_slot)
  have sl: "slot (Ekey (delete_at i d)) j = (if j = i then slot (Ekey d) m else slot (Ekey d) j)"
    if "j < m" for j
  proof (cases "i < m")
    case True
    then have "Ekey (delete_at i d) = overwrite (Ekey d) (8 * i) (slot (Ekey d) m)"
      using m' by (simp add: delete_at_def Let_def)
    then show ?thesis
      using that True l m' d(1) by (auto simp: slot_overwrite_same slot_overwrite_other)
  next
    case False
    then have "Ekey (delete_at i d) = overwrite (Ekey d) (8 * m) (replicate 8 nul)" "j \<noteq> i"
      using m' that by (auto simp: delete_at_def Let_def)
    then show ?thesis
      using that m' d(1) by (simp add: slot_overwrite_other)
  qed
  have n': "nat (Ekeys (delete_at i d)) = m" using m' by (simp add: delete_at_def Let_def)
  show kl: "key_list (delete_at i d) = swap_remove i (key_list d)"
    using m n' i by (intro key_list_swap [where m = m]) (auto simp: sl)
  have len: "length (Ekey (delete_at i d)) = 800"
    using l m' d(1) by (simp add: delete_at_def Let_def)
  have ne: "key_list d \<noteq> []" using m by (simp add: key_list_def)
  have "key_names (delete_at i d) = swap_remove i (key_names d)"
    using arg_cong [OF kl, of "map fst"] ne by (simp add: map_fst_key_list map_swap_remove)
  then have "distinct (key_names (delete_at i d))"
    using swap_remove_distinct [OF d(4), of i] i by (simp add: key_names_def)
  moreover have "layout_ok (delete_at i d)"
    using d(5,3) len m' unfolding delete_at_def Let_def
    by (intro layout_ok_Ekey) (auto simp: in_int32_iff delete_at_def Let_def)
  moreover have "0 \<le> Ekeys (delete_at i d)" "Ekeys (delete_at i d) \<le> 100"
    using m' by (simp_all add: delete_at_def Let_def)
  ultimately show "keys_ok (delete_at i d)" by (simp add: keys_ok_def)
qed

lemma key_map_delete_at:
  assumes ok: "keys_ok d" and i: "i < nat (Ekeys d)"
  shows "key_map (delete_at i d) = (key_map d)(slot_key (Ekey d) i := None)"
proof -
  note d = keys_okD [OF ok]
  let ?l = "key_list d" and ?l' = "key_list (delete_at i d)"
  have dl: "distinct ?l" using d(4) by (simp add: distinct_map flip: map_fst_key_list)
  have il: "i < length ?l" using i by (simp add: key_list_def)
  have ith: "?l ! i = (slot_key (Ekey d) i, slot_black (Ekey d) i)" using i by (simp add: key_list_def)
  have set: "set ?l' = set ?l - {?l ! i}"
    using swap_remove_distinct [OF dl il] delete_at_list(1) [OF ok i] by simp
  have df: "distinct (map fst ?l)" "distinct (map fst ?l')"
    using d(4) keys_okD(4) [OF delete_at_list(2) [OF ok i]] by (simp_all add: map_fst_key_list)
  have uniq: "(k, b) \<in> set ?l \<Longrightarrow> k = fst (?l ! i) \<Longrightarrow> (k, b) = ?l ! i" for k b
    using df(1) il by (metis eq_key_imp_eq_value nth_mem prod.collapse)
  show ?thesis
  proof
    fix k show "key_map (delete_at i d) k = ((key_map d)(slot_key (Ekey d) i := None)) k"
    proof (cases "key_map (delete_at i d) k")
      case None
      then have "k \<notin> fst ` set ?l'" by (simp add: key_map_def map_of_eq_None_iff)
      then have "k \<noteq> slot_key (Ekey d) i \<Longrightarrow> k \<notin> fst ` set ?l" using set ith by force
      then have "k \<noteq> slot_key (Ekey d) i \<Longrightarrow> key_map d k = None"
        by (simp add: key_map_def map_of_eq_None_iff)
      then show ?thesis using None by auto
    next
      case (Some b)
      then have "(k, b) \<in> set ?l'" using df(2) by (simp add: key_map_def map_of_eq_Some_iff)
      then have "(k, b) \<in> set ?l" "k \<noteq> slot_key (Ekey d) i" using set ith uniq by auto
      then show ?thesis using Some df(1) by (simp add: key_map_def map_of_eq_Some_iff)
    qed
  qed
qed

lemma deleteKey_ok: "keys_ok (p_data s) \<Longrightarrow> keys_ok (p_data (fst (deleteKey k s)))"
  by (auto simp: deleteKey_data Let_def searchKey_Some_iff delete_at_list split: option.split)

lemma deleteKey_map:
  assumes "keys_ok (p_data s)"
  shows "key_map (p_data (fst (deleteKey k s))) = (key_map (p_data s))(k := None)"
proof (cases "searchKey (p_data s) k")
  case None
  then have "key_map (p_data s) k = None"
    using assms by (simp add: searchKey_None_iff key_map_None_iff)
  then show ?thesis using None by (simp add: deleteKey_data fun_upd_idem)
next
  case (Some i)
  then show ?thesis
    using assms searchKey_Some_iff [OF assms, of k i]
    by (auto simp: deleteKey_data Let_def key_map_delete_at)
qed

definition blacken_at :: "nat \<Rightarrow> SWdata \<Rightarrow> SWdata" where
  "blacken_at i d =
     d\<lparr>Ekey := (Ekey d)[8 * i + 7 := char_of (of_char (Ekey d ! (8 * i + 7)) OR (1 :: nat))]\<rparr>"

lemma toBlackList_data:
  "p_data (fst (toBlackList k s)) =
     (case searchKey (p_data s) k of
        None \<Rightarrow> p_data s
      | Some i \<Rightarrow> let d = blacken_at i (p_data s) in d\<lparr>Eflag := Eflag d OR FNODEFAULT\<rparr>)"
  by (simp add: toBlackList_def blacken_at_def Let_def split: option.split)

lemma odd_OR_1_byte: "odd ((n OR Suc 0) mod 256)"
proof -
  have "odd (n OR Suc 0)" by (simp add: even_or_iff)
  moreover have "even ((n OR Suc 0) mod 256) \<longleftrightarrow> even (n OR Suc 0)"
    by (rule dvd_mod_iff) simp
  ultimately show ?thesis by blast
qed

lemma blacken_at_slots:
  assumes "length (Ekey d) = 800" "i < 100"
  shows "slot_key (Ekey (blacken_at i d)) j = slot_key (Ekey d) j"
    and "slot_black (Ekey (blacken_at i d)) j = (j = i \<or> slot_black (Ekey d) j)"
  using assms odd_OR_1_byte
  by (auto simp: blacken_at_def slot_key_def slot_black_def slot_update length_slot)

lemma blacken_at_ok: "keys_ok d \<Longrightarrow> i < 100 \<Longrightarrow> keys_ok (blacken_at i d)"
proof -
  assume ok: "keys_ok d" and i: "i < 100"
  note d = keys_okD [OF ok]
  have "Ekeys (blacken_at i d) = Ekeys d" by (simp add: blacken_at_def)
  moreover have "key_names (blacken_at i d) = key_names d"
    using blacken_at_slots(1) [OF d(1) i] by (simp add: key_names_def blacken_at_def)
  moreover have "layout_ok (blacken_at i d)" using d(5) by (simp add: layout_ok_def blacken_at_def)
  ultimately show ?thesis using ok by (simp add: keys_ok_def)
qed

lemma toBlackList_ok: "keys_ok (p_data s) \<Longrightarrow> keys_ok (p_data (fst (toBlackList k s)))"
  using keys_okD(3) [of "p_data s"]
  by (auto simp: toBlackList_data Let_def searchKey_Some_iff intro!: blacken_at_ok split: option.split)

lemma toBlackList_map:
  assumes ok: "keys_ok (p_data s)"
  shows "key_map (p_data (fst (toBlackList k s))) =
     (if key_map (p_data s) k = None then key_map (p_data s) else (key_map (p_data s))(k \<mapsto> True))"
proof (cases "searchKey (p_data s) k")
  case None
  then have "key_map (p_data s) k = None"
    using ok by (simp add: searchKey_None_iff key_map_None_iff)
  then show ?thesis using None by (simp add: toBlackList_data)
next
  case (Some i)
  let ?d = "p_data s" and ?d' = "blacken_at i (p_data s)"
  note d = keys_okD [OF ok]
  have i: "i < nat (Ekeys ?d)" "slot_key (Ekey ?d) i = k" using searchKey_Some_iff [OF ok] Some by auto
  have i100: "i < 100" using i d(3) by simp
  note sl = blacken_at_slots [OF d(1) i100]
  have n: "Ekeys ?d' = Ekeys ?d" by (simp add: blacken_at_def)
  have other: "slot_key (Ekey ?d) j = k \<Longrightarrow> j < nat (Ekeys ?d) \<Longrightarrow> j = i" for j
    using d(4) i by (auto simp: key_names_def distinct_map inj_on_def)
  have "key_map ?d' = (key_map ?d)(k \<mapsto> True)"
  proof
    fix x show "key_map ?d' x = ((key_map ?d)(k \<mapsto> True)) x"
    proof (cases "key_map ?d x")
      case None
      then have "x \<noteq> k" "x \<notin> set (key_names ?d)" using i by (auto simp: key_map_None_iff key_names_def)
      moreover have "key_names ?d' = key_names ?d" using sl n by (simp add: key_names_def)
      ultimately have "key_map ?d' x = None" by (simp add: key_map_None_iff)
      with None \<open>x \<noteq> k\<close> show ?thesis by simp
    next
      case (Some b)
      then obtain j where j: "j < nat (Ekeys ?d)" "slot_key (Ekey ?d) j = x" "slot_black (Ekey ?d) j = b"
        using key_map_Some_iff [OF ok] by auto
      have "\<exists>m < nat (Ekeys ?d'). slot_key (Ekey ?d') m = x \<and> slot_black (Ekey ?d') m = (j = i \<or> b)"
        using j sl n by (intro exI [of _ j]) simp
      then have new: "key_map ?d' x = Some (j = i \<or> b)"
        using key_map_Some_iff [OF blacken_at_ok [OF ok i100]] by blast
      show ?thesis
      proof (cases "x = k")
        case True
        then have "j = i" using other j(1,2) by blast
        then show ?thesis using True new by simp
      next
        case False
        then have "j \<noteq> i" using j(2) i(2) by blast
        then show ?thesis using False new Some by simp
      qed
    qed
  qed
  moreover have "key_map ?d k \<noteq> None" using i by (auto simp: key_map_None_iff key_names_def)
  ultimately show ?thesis using Some by (auto simp: toBlackList_data Let_def)
qed

section \<open>What a check answers\<close>

lemma card_dom_key_map: "keys_ok d \<Longrightarrow> card (dom (key_map d)) = nat (Ekeys d)"
proof -
  assume ok: "keys_ok d"
  have "x \<in> dom (key_map d) \<longleftrightarrow> x \<in> set (key_names d)" for x
    using key_map_None_iff [of d x] by (simp add: domIff)
  then have "dom (key_map d) = set (key_names d)" by (rule set_eqI)
  then show ?thesis
    using keys_okD(4) [OF ok] by (simp add: distinct_card) (simp add: key_names_def)
qed

definition is_master :: "SWdata \<Rightarrow> string \<Rightarrow> bool" where
  "is_master d k \<longleftrightarrow> k = cstr (take 7 (Edevelopment d)) \<or> k = cstr (take 7 (Emasterkey d))"

lemma checkKey_spec:
  assumes ok: "keys_ok d"
  shows "checkKey d k =
    (if is_master d k then ''ISMASTER''
     else case key_map d k of None \<Rightarrow> ''NOTFOUND'' | Some True \<Rightarrow> ''INBLACK'' | Some False \<Rightarrow> ''FOUND'')"
proof (cases "searchKey d k")
  case None
  have "key_map d k = None" using None ok by (simp add: searchKey_None_iff key_map_None_iff)
  then show ?thesis by (simp add: checkKey_def is_master_def None)
next
  case (Some i)
  then have i: "i < nat (Ekeys d)" "slot_key (Ekey d) i = k" using searchKey_Some_iff [OF ok] by auto
  have "\<exists>m < nat (Ekeys d). slot_key (Ekey d) m = k \<and> slot_black (Ekey d) m = slot_black (Ekey d) i"
    using i by blast
  then have m: "key_map d k = Some (slot_black (Ekey d) i)"
    using key_map_Some_iff [OF ok] by blast
  have "i < 100" using i keys_okD(3) [OF ok] by simp
  then have "slot (Ekey d) i ! 7 = Ekey d ! (i * 8 + 7)"
    using keys_okD(1) [OF ok] by (simp add: slot_def mult.commute)
  then have "of_char (Ekey d ! (i * 8 + 7)) AND 1 = (1 :: nat) \<longleftrightarrow> slot_black (Ekey d) i"
    by (simp add: slot_black_def and_one_eq odd_iff_mod_2_eq_one)
  then show ?thesis
    using m Some by (auto simp: checkKey_def is_master_def split: bool.split)
qed

section \<open>The registry interface\<close>

datatype key_op = Add string | Del string | Black string

fun op_valid :: "key_op \<Rightarrow> bool" where
  "op_valid (Add k) = plain_key k"
| "op_valid (Del k) = True"
| "op_valid (Black k) = True"

fun key_step ::
  "(string \<Rightarrow> 's \<Rightarrow> 's) \<Rightarrow> (string \<Rightarrow> 's \<Rightarrow> 's) \<Rightarrow> (string \<Rightarrow> 's \<Rightarrow> 's) \<Rightarrow> key_op \<Rightarrow> 's \<Rightarrow> 's" where
  "key_step add del black (Add k) s = add k s"
| "key_step add del black (Del k) s = del k s"
| "key_step add del black (Black k) s = black k s"

text \<open>The specification: a map of bounded size from keys to their black-list bit.\<close>

fun spec_step :: "nat \<Rightarrow> key_op \<Rightarrow> (string \<Rightarrow> bool option) \<Rightarrow> (string \<Rightarrow> bool option)" where
  "spec_step cap (Add k) m = (if m k = None \<and> card (dom m) < cap then m(k \<mapsto> False) else m)"
| "spec_step cap (Del k) m = m(k := None)"
| "spec_step cap (Black k) m = (if m k = None then m else m(k \<mapsto> True))"

locale key_registry =
  fixes ok :: "'s \<Rightarrow> bool" and look :: "'s \<Rightarrow> string \<Rightarrow> bool option" and cap :: nat
    and add :: "string \<Rightarrow> 's \<Rightarrow> 's" and del :: "string \<Rightarrow> 's \<Rightarrow> 's" and black :: "string \<Rightarrow> 's \<Rightarrow> 's"
  assumes ok_step: "ok s \<Longrightarrow> op_valid p \<Longrightarrow> ok (key_step add del black p s)"
    and look_step: "ok s \<Longrightarrow> op_valid p \<Longrightarrow> look (key_step add del black p s) = spec_step cap p (look s)"
    and bounded: "ok s \<Longrightarrow> finite (dom (look s)) \<and> card (dom (look s)) \<le> cap"

text \<open>The operations of a registry simulate those of the map.\<close>

sublocale key_registry \<subseteq> registry: simulation "key_step add del black" ok op_valid look "spec_step cap"
  by unfold_locales (rule ok_step look_step; assumption)+

context key_registry
begin

lemmas run_ok = registry.run_keeps
lemmas run_refines = registry.run_simulates

lemma run_bounded:
  "ok s \<Longrightarrow> list_all op_valid ps \<Longrightarrow> card (dom (look (fold (key_step add del black) ps s))) \<le> cap"
  using run_ok bounded by blast

text \<open>A black-listed key stays so until it is deleted.\<close>

lemma black_step:
  "ok s \<Longrightarrow> op_valid p \<Longrightarrow> p \<noteq> Del k \<Longrightarrow> look s k = Some True \<Longrightarrow>
     look (key_step add del black p s) k = Some True"
  using look_step [of s p] by (cases p) auto

lemma black_persists:
  "ok s \<Longrightarrow> list_all op_valid ps \<Longrightarrow> Del k \<notin> set ps \<Longrightarrow> look s k = Some True \<Longrightarrow>
     look (fold (key_step add del black) ps s) k = Some True"
  by (induction ps arbitrary: s) (auto simp: ok_step black_step)

lemma del_add:
  "ok s \<Longrightarrow> plain_key k \<Longrightarrow> look s k = None \<Longrightarrow> look (del k (add k s)) = look s"
  using look_step [of s "Add k"] look_step [of "add k s" "Del k"] ok_step [of s "Add k"]
  by (auto simp: fun_upd_idem_iff)

end

abbreviation store_add :: "string \<Rightarrow> 'a store_scheme \<Rightarrow> 'a store_scheme" where
  "store_add k s \<equiv> fst (addKey k True s)"

abbreviation store_del :: "string \<Rightarrow> 'a store_scheme \<Rightarrow> 'a store_scheme" where
  "store_del k s \<equiv> fst (deleteKey k s)"

abbreviation store_black :: "string \<Rightarrow> 'a store_scheme \<Rightarrow> 'a store_scheme" where
  "store_black k s \<equiv> fst (toBlackList k s)"

lemma addKey_map:
  assumes ok: "keys_ok (p_data s)" and k: "plain_key k"
  shows "key_map (p_data (fst (addKey k sv s))) = spec_step 100 (Add k) (key_map (p_data s))"
    and "keys_ok (p_data (fst (addKey k sv s)))"
proof -
  note d = keys_okD [OF ok]
  have E: "card (dom (key_map (p_data s))) < 100 \<longleftrightarrow> Ekeys (p_data s) < 100"
    using d(2) by (simp add: card_dom_key_map [OF ok] nat_less_iff)
  have "key_map (p_data (fst (addKey k sv s))) = spec_step 100 (Add k) (key_map (p_data s)) \<and>
        keys_ok (p_data (fst (addKey k sv s)))"
  proof (cases "key_map (p_data s) k = None \<and> Ekeys (p_data s) < 100")
    case True
    then have n: "key_map (p_data s) k = None" "Ekeys (p_data s) < 100" by auto
    have "key_map (p_data (fst (addKey k sv s))) = (key_map (p_data s))(k \<mapsto> False)"
    proof
      fix x
      show "key_map (p_data (fst (addKey k sv s))) x = ((key_map (p_data s))(k \<mapsto> False)) x"
        using n(1) unfolding key_map_def addKey_new(2) [OF ok k n]
        by (cases "map_of (key_list (p_data s)) x") (auto simp: map_add_def)
    qed
    then show ?thesis using n E addKey_new(1) [OF ok k n] by simp
  next
    case False
    then have "fst (addKey k sv s) = s"
      using d(2,3) by (intro addKey_refused [OF ok k]) auto
    then show ?thesis using ok False E by auto
  qed
  then show "key_map (p_data (fst (addKey k sv s))) = spec_step 100 (Add k) (key_map (p_data s))"
    and "keys_ok (p_data (fst (addKey k sv s)))" by blast+
qed

interpretation keyring: key_registry "\<lambda>s. keys_ok (p_data s)" "\<lambda>s. key_map (p_data s)" 100
  store_add store_del store_black
proof
  fix s :: "'a store_scheme" and p
  assume ok: "keys_ok (p_data s)" and v: "op_valid p"
  show "keys_ok (p_data (key_step store_add store_del store_black p s))"
    using ok v by (cases p) (auto simp: addKey_map deleteKey_ok toBlackList_ok)
  show "key_map (p_data (key_step store_add store_del store_black p s)) =
        spec_step 100 p (key_map (p_data s))"
    using ok v by (cases p) (auto simp: addKey_map deleteKey_map toBlackList_map)
next
  fix s :: "'a store_scheme" assume ok: "keys_ok (p_data s)"
  show "finite (dom (key_map (p_data s))) \<and> card (dom (key_map (p_data s))) \<le> 100"
    using card_dom_key_map [OF ok] keys_okD(3) [OF ok]
    by (simp add: key_map_def finite_dom_map_of)
qed

section \<open>Reading a key file\<close>

text \<open>The reference: the pieces that a separator ends, added one by one.\<close>

fun ended_pieces :: "string \<Rightarrow> string \<Rightarrow> string list" where
  "ended_pieces cur [] = []"
| "ended_pieces cur (c # cs) =
     (if key_separator c then cur # ended_pieces [] cs else ended_pieces (cur @ [c]) cs)"

fun add_pieces :: "string list \<Rightarrow> 'a store_scheme \<Rightarrow> 'a store_scheme \<times> string" where
  "add_pieces [] st = (st, ''success'')"
| "add_pieces (t # ts) st =
     (if 0 \<le> Ekeys (p_data st) \<and> Ekeys (p_data st) < 100 then
        (if t = [] then add_pieces ts st
         else case addKey t False st of
                (st', r) \<Rightarrow> if contains r ''error'' then (st', ''error'') else add_pieces ts st')
      else (st, ''success''))"

lemma ended_pieces_prefix:
  "\<forall>c \<in> set p. \<not> key_separator c \<Longrightarrow> ended_pieces cur (p @ s) = ended_pieces (cur @ p) s"
  by (induction p arbitrary: cur) auto

lemma add_pieces_full:
  "\<not> (0 \<le> Ekeys (p_data st) \<and> Ekeys (p_data st) < 100) \<Longrightarrow> add_pieces ts st = (st, ''success'')"
  by (cases ts) auto

lemma scan_keys_loop_pieces:
  "i \<le> length s \<Longrightarrow> \<forall>c \<in> set (take i s). \<not> key_separator c \<Longrightarrow>
     scan_keys_loop s i st = add_pieces (ended_pieces [] s) st"
proof (induction s i st rule: scan_keys_loop.induct)
  case (1 s i st)
  show ?case
  proof (cases "0 \<le> Ekeys (p_data st) \<and> Ekeys (p_data st) < 100")
    case full: False
    then have "\<not> (0 \<le> Ekeys (p_data st) \<and> Ekeys (p_data st) * 8 < 800 \<and> i < length s)" by linarith
    then have "scan_keys_loop s i st = (st, ''success'')"
      by (subst scan_keys_loop.simps) (simp only: if_False)
    then show ?thesis by (simp only: add_pieces_full [OF full])
  next
    case room: True
    show ?thesis
    proof (cases "i < length s")
      case False
      then have "i = length s" using 1 by simp
      then have "ended_pieces [] s = []"
        using ended_pieces_prefix [of s "[]" "[]"] 1 by simp
      then show ?thesis using False room by (simp add: scan_keys_loop.simps [of s i st])
    next
      case True
      have s: "s = take i s @ s ! i # drop (Suc i) s" using True by (rule id_take_nth_drop)
      have p: "ended_pieces [] s = ended_pieces (take i s) (s ! i # drop (Suc i) s)"
        using ended_pieces_prefix [of "take i s" "[]" "s ! i # drop (Suc i) s"] 1(5) s by simp
      show ?thesis
      proof (cases "key_separator (s ! i)")
        case sep: False
        then have "\<forall>c \<in> set (take (Suc i) s). \<not> key_separator c"
          using 1(5) True by (simp add: take_Suc_conv_app_nth)
        then have "scan_keys_loop s (i + 1) st = add_pieces (ended_pieces [] s) st"
          using 1(3) room True sep by (simp add: char_at_def)
        then show ?thesis
          using room True sep by (simp add: scan_keys_loop.simps [of s i st] char_at_def)
      next
        case sep: True
        have "i \<noteq> 0 \<Longrightarrow> take i s \<noteq> []" using True by auto
        then show ?thesis
          using 1(1) [of "fst (addKey (take i s) False st)" "snd (addKey (take i s) False st)"]
            1(2) room True sep
          by (cases "i = 0")
             (subst scan_keys_loop.simps, force simp: char_at_def p str_simps split: prod.split)+
      qed
    qed
  qed
qed

lemma scanForKeys_pieces: "scanForKeys s st = add_pieces (ended_pieces [] s) st"
  by (simp add: scanForKeys_def scan_keys_loop_pieces)

section \<open>Properties\<close>

lemma keys_ok_default: "keys_ok (default_SWdata (replicate 800 nul))"
  by (simp add: keys_ok_def layout_ok_default key_names_def) (simp add: default_SWdata_def)

lemma key_map_default: "key_map (default_SWdata (replicate 800 nul)) = (\<lambda>k. None)"
  by (simp add: key_map_def key_list_def) (simp add: default_SWdata_def)

text \<open>C16. The key array is a map of at most 100 keys: any sequence of added, deleted and black-listed
  keys keeps it well formed and has the effect the same sequence has on such a map.\<close>

theorem key_array_refines_map:
  assumes "keys_ok (p_data s)" "list_all op_valid ps"
  shows "keys_ok (p_data (fold (key_step store_add store_del store_black) ps s)) \<and>
         key_map (p_data (fold (key_step store_add store_del store_black) ps s)) =
           fold (spec_step 100) ps (key_map (p_data s))"
  using keyring.run_ok [OF assms] keyring.run_refines [OF assms] by blast

theorem key_array_refines_map_witness:
  "\<exists>s :: store.
     key_map (p_data (fold (key_step store_add store_del store_black)
        [Add ''guest'', Add ''cook'', Black ''cook'', Del ''guest''] s)) =
     fold (spec_step 100) [Add ''guest'', Add ''cook'', Black ''cook'', Del ''guest''] (key_map (p_data s))"
proof
  let ?s = "\<lparr>p_data = default_SWdata (replicate 800 nul), eeprom = []\<rparr>"
  show "key_map (p_data (fold (key_step store_add store_del store_black)
        [Add ''guest'', Add ''cook'', Black ''cook'', Del ''guest''] ?s)) =
     fold (spec_step 100) [Add ''guest'', Add ''cook'', Black ''cook'', Del ''guest''] (key_map (p_data ?s))"
    by (rule key_array_refines_map [THEN conjunct2])
       (simp_all add: keys_ok_default plain_key_def)
qed

lemma master_keys_kept:
  "is_master (p_data (key_step store_add store_del store_black p s)) k = is_master (p_data s) k"
proof -
  have "Emasterkey (p_data (fst (addKey x b s))) = Emasterkey (p_data s) \<and>
        Edevelopment (p_data (fst (addKey x b s))) = Edevelopment (p_data s)" for x b
    by (simp add: addKey_def Let_def split: option.split)
  moreover have "Emasterkey (p_data (fst (deleteKey x s))) = Emasterkey (p_data s) \<and>
        Edevelopment (p_data (fst (deleteKey x s))) = Edevelopment (p_data s)" for x
    by (simp add: deleteKey_def Let_def split: option.split)
  moreover have "Emasterkey (p_data (fst (toBlackList x s))) = Emasterkey (p_data s) \<and>
        Edevelopment (p_data (fst (toBlackList x s))) = Edevelopment (p_data s)" for x
    by (simp add: toBlackList_def Let_def split: option.split)
  ultimately show ?thesis by (cases p) (simp_all add: is_master_def)
qed

lemma master_keys_kept_run:
  "is_master (p_data (fold (key_step store_add store_del store_black) ps s)) k = is_master (p_data s) k"
  by (induction ps arbitrary: s) (simp_all add: master_keys_kept)

text \<open>C17. A black-listed key that is not a master key is answered \<open>INBLACK\<close> after any further
  additions, deletions of other keys and black-listings.\<close>

theorem blacklisted_key_stays_refused:
  assumes "keys_ok (p_data s)" "list_all op_valid ps" "Del k \<notin> set ps" "key_map (p_data s) k = Some True"
    and "\<not> is_master (p_data s) k"
  shows "checkKey (p_data (fold (key_step store_add store_del store_black) ps s)) k = ''INBLACK''"
  using keyring.black_persists [OF assms(1-4)] keyring.run_ok [OF assms(1,2)] assms(5)
  by (simp add: checkKey_spec master_keys_kept_run)

theorem blacklisted_key_stays_refused_witness:
  "\<exists>s :: store. checkKey (p_data (fold (key_step store_add store_del store_black)
      [Add ''guest'', Del ''guest'', Add ''cook''] s)) ''cook'' = ''INBLACK''"
proof
  let ?init = "\<lparr>p_data = default_SWdata (replicate 800 nul), eeprom = []\<rparr> :: store"
  let ?s = "fold (key_step store_add store_del store_black) [Add ''cook'', Black ''cook''] ?init"
  have v: "list_all op_valid [Add ''cook'', Black ''cook'']" by (simp add: plain_key_def)
  have "keys_ok (p_data ?init)" using keys_ok_default by simp
  then have "key_map (p_data ?s) = fold (spec_step 100) [Add ''cook'', Black ''cook''] (key_map (p_data ?init))"
    by (rule keyring.run_refines) (rule v)
  also have "\<dots> = fold (spec_step 100) [Add ''cook'', Black ''cook''] (\<lambda>k. None)"
    by (simp only: key_map_default store.simps)
  also have "\<dots> = [''cook'' \<mapsto> True]" by simp
  finally have black: "key_map (p_data ?s) ''cook'' = Some True" by (simp only: fun_upd_same)
  have "\<not> is_master (p_data ?init) ''cook''"
    by (simp add: is_master_def default_SWdata_def char_array_def cstr_def)
  then have plain: "\<not> is_master (p_data ?s) ''cook''"
    by (simp only: master_keys_kept_run not_False_eq_True)
  show "checkKey (p_data (fold (key_step store_add store_del store_black)
      [Add ''guest'', Del ''guest'', Add ''cook''] ?s)) ''cook'' = ''INBLACK''"
  proof (rule blacklisted_key_stays_refused)
    show "keys_ok (p_data ?s)"
      by (rule keyring.run_ok) (rule \<open>keys_ok (p_data ?init)\<close>, rule v)
    show "key_map (p_data ?s) ''cook'' = Some True" by (rule black)
    show "\<not> is_master (p_data ?s) ''cook''" by (rule plain)
  qed (simp_all add: plain_key_def)
qed

text \<open>C18. A check answers \<open>ISMASTER\<close> for the two master keys, and otherwise whether the key is
  unknown, black-listed or accepted.\<close>

theorem check_answers_key_map:
  assumes "keys_ok d"
  shows "checkKey d k =
    (if is_master d k then ''ISMASTER''
     else case key_map d k of None \<Rightarrow> ''NOTFOUND'' | Some True \<Rightarrow> ''INBLACK'' | Some False \<Rightarrow> ''FOUND'')"
  using assms by (rule checkKey_spec)

theorem check_answers_key_map_witness:
  "checkKey (default_SWdata (replicate 800 nul)) ''Zhi4E3r'' =
    (if is_master (default_SWdata (replicate 800 nul)) ''Zhi4E3r'' then ''ISMASTER''
     else case key_map (default_SWdata (replicate 800 nul)) ''Zhi4E3r'' of
            None \<Rightarrow> ''NOTFOUND'' | Some True \<Rightarrow> ''INBLACK'' | Some False \<Rightarrow> ''FOUND'')"
  by (rule check_answers_key_map) (rule keys_ok_default)

text \<open>C19. Scanning a text for keys adds, in order, the nonempty pieces that a separator ends, until
  the array is full or an addition answers with an error.\<close>

theorem key_file_pieces: "scanForKeys t s = add_pieces (ended_pieces [] t) s"
  by (rule scanForKeys_pieces)

end
