(* ===== verification/Device.thy ===== *)
theory Device
  imports Key_Store
begin

text \<open>
  The state of the running device: the parser object of \<open>SWparser.h\<close> (settings, flash image and
  the parts of the current command) and the globals of \<open>WSKey32.ino\<close> that the command
  processor, the web handlers, the button interrupt and the connection logic share.  Calls into
  the WiFi driver, the timer and the HTTP client that return nothing the code looks at are
  collected, in order, in \<open>out\<close>.
\<close>

datatype effect =
    Http_send nat string string
  | Http_header string string bool
  | Http_length_unknown
  | Client_flush
  | Client_stop
  | Add_route string
  | Timer_stop
  | Auto_connect bool
  | Wifi_connect
  | Wifi_disconnect

text \<open>\<open>esp_restart\<close> does not return, nor does a call through a null pointer.\<close>

datatype 'r outcome = Return 'r | Restart | Null_pointer

definition MAX_CLIENTS :: nat where "MAX_CLIENTS = 10"

record device = store +
  p_key :: string
  p_cmd :: string
  p_argv :: string
  p_ext :: string
  p_com :: string
  p_upload :: bool
  ip_static :: "int list option"
  relayState :: bool
  swState :: bool
  ledState0 :: bool
  ledState1 :: bool
  relayMillis :: u32
  swMillis :: u32
  ledTimeMs1 :: u32
  interval_10ms :: u32
  antilock :: int
  conAPcntr :: int
  rst_mode :: nat
  STA_action :: int
  connected :: bool
  OTA_enabled :: bool
  transponder_version :: string
  out :: "effect list"

definition emit :: "effect list \<Rightarrow> 'a device_scheme \<Rightarrow> 'a device_scheme" where
  "emit es s = s\<lparr>out := out s @ es\<rparr>"

text \<open>
  \<open>modIVol\<close> writes a volatile counter and repeats until it reads the written value back, so that
  a tick of the button interrupt between the write and the read is undone.  The list holds what
  each read returns.
\<close>

fun modIVol :: "int list \<Rightarrow> int \<Rightarrow> int option" where
  "modIVol [] NewValue = None"
| "modIVol (seen # later) NewValue = (if seen \<noteq> NewValue then modIVol later NewValue else Some seen)"

text \<open>Once no tick falls between write and read, the loop ends with the new value.\<close>

lemma modIVol_ends: "NewValue \<in> set seen \<Longrightarrow> modIVol seen NewValue = Some NewValue"
  by (induction seen) auto

lemma modIVol_value: "modIVol seen NewValue = Some r \<Longrightarrow> r = NewValue"
  by (induction seen) (auto split: if_splits)

definition modAntilock :: "int \<Rightarrow> 'a device_scheme \<Rightarrow> 'a device_scheme" where
  "modAntilock v s = s\<lparr>antilock := v\<rparr>"

definition modConCntr :: "int \<Rightarrow> 'a device_scheme \<Rightarrow> 'a device_scheme" where
  "modConCntr v s = s\<lparr>conAPcntr := v\<rparr>"

definition MIME_text_html :: string where "MIME_text_html = ''text/html''"
definition MIME_text_plain :: string where "MIME_text_plain = ''text/plain''"

definition server_send_html :: "nat \<Rightarrow> string \<Rightarrow> 'a device_scheme \<Rightarrow> 'a device_scheme" where
  "server_send_html code t = emit [Http_send code MIME_text_html (cstr t)]"

definition server_send_ok :: "string \<Rightarrow> 'a device_scheme \<Rightarrow> 'a device_scheme" where
  "server_send_ok t = emit [Http_send 200 MIME_text_html (cstr t)]"

definition server_flush :: "'a device_scheme \<Rightarrow> 'a device_scheme" where
  "server_flush = emit [Client_flush]"

lemma emit_simps [simp]:
  "p_data (emit es s) = p_data s" "eeprom (emit es s) = eeprom s"
  "relayState (emit es s) = relayState s" "relayMillis (emit es s) = relayMillis s"
  "p_com (emit es s) = p_com s" "p_argv (emit es s) = p_argv s" "out (emit es s) = out s @ es"
  by (simp_all add: emit_def)

lemma mod_counter_simps [simp]:
  "p_data (modAntilock v s) = p_data s" "eeprom (modAntilock v s) = eeprom s"
  "p_data (modConCntr v s) = p_data s" "eeprom (modConCntr v s) = eeprom s"
  by (simp_all add: modAntilock_def modConCntr_def)

text \<open>Saving touches the settings and the flash only.\<close>

lemma saveAll_device [frame_simps]:
  "p_key (saveAllToEEPROM s) = p_key s" "p_cmd (saveAllToEEPROM s) = p_cmd s"
  "p_argv (saveAllToEEPROM s) = p_argv s" "p_ext (saveAllToEEPROM s) = p_ext s"
  "p_com (saveAllToEEPROM s) = p_com s" "p_upload (saveAllToEEPROM s) = p_upload s"
  "relayState (saveAllToEEPROM s) = relayState s" "relayMillis (saveAllToEEPROM s) = relayMillis s"
  "OTA_enabled (saveAllToEEPROM s) = OTA_enabled s" "out (saveAllToEEPROM s) = out s"
  by (simp_all add: saveAllToEEPROM_def Let_def)

text \<open>Hexadecimal and decimal addresses, \<open>mac_toString\<close>.\<close>

definition hex_digit :: "nat \<Rightarrow> char" where
  "hex_digit n = (if n < 10 then char_of (48 + n) else char_of (55 + n))"

definition mac_toString :: "nat list \<Rightarrow> bool \<Rightarrow> string" where
  "mac_toString mac hex =
     (let byte = (\<lambda>i. if hex then [hex_digit (mac ! i div 16), hex_digit (mac ! i mod 16)] else dec (mac ! i))
      in byte 0 @ '':'' @ byte 1 @ '':'' @ byte 2 @ '':'' @ byte 3 @ '':'' @ byte 4 @ '':'' @ byte 5)"

lemma length_mac_toString: "length (mac_toString mac True) = 17"
  by (simp add: mac_toString_def Let_def)

text \<open>The globals as they are initialised, with a parser whose settings are the defaults.\<close>

definition initial_device :: "bytes \<Rightarrow> bytes \<Rightarrow> device" where
  "initial_device garbage flash =
     \<lparr>p_data = default_SWdata garbage, eeprom = flash,
      p_key = [], p_cmd = [], p_argv = [], p_ext = [], p_com = [], p_upload = False, ip_static = None,
      relayState = False, swState = True, ledState0 = False, ledState1 = False,
      relayMillis = 0, swMillis = 0, ledTimeMs1 = 0, interval_10ms = 0,
      antilock = 0, conAPcntr = -1, rst_mode = 0, STA_action = 0, connected = False,
      OTA_enabled = False, transponder_version = [], out = []\<rparr>"

end
