(* ===== verification/Command_Language.thy ===== *)
theory Command_Language
  imports Device
begin

text \<open>
  How a command is recognised and taken apart: \<open>scom\<close>, \<open>get_argval\<close> and the argument loops at the
  head of \<open>SWparser::process\<close> (\<open>SWparser.cpp\<close>).
\<close>

section \<open>Recognising a command\<close>

text \<open>0 for another command, 1 for the command that reads, 2 for the one that writes.\<close>

definition scom :: "string \<Rightarrow> string \<Rightarrow> nat" where
  "scom com command =
     (if command = [] then 0
      else case index_of com command 0 of
        None \<Rightarrow> 0
      | Some p \<Rightarrow>
          if p + length command = length com then
            (if p = 0 \<or> (index_of com ''get_'' 0 = Some 0 \<and> length com = length command + 4) then 1
             else if ((p = 4 \<or> index_of com ''set_'' 0 = Some 0) \<and> length com = length command + 4) \<or>
                     ((p = 1 \<or> index_of com ''s'' 0 = Some 0) \<and> length com = length command + 1) then 2
             else 0)
          else 0)"

text \<open>\<open>(v=scom(a)) || (v=scom(b)) || ...\<close>: the first answer that is not 0.\<close>

fun scom_any :: "string \<Rightarrow> string list \<Rightarrow> nat" where
  "scom_any com [] = 0"
| "scom_any com (c # cs) = (let v = scom com c in if v \<noteq> 0 then v else scom_any com cs)"

text \<open>
  A command is recognised exactly when its name ends the text, does not occur earlier in it, and
  what precedes it has length 0, 1 or 4.  Any one character counts as the short \<open>s\<close> and any four
  as \<open>set_\<close>, only \<open>get_\<close> reads.
\<close>

lemma scom_spec:
  assumes "nul \<notin> set com" "nul \<notin> set c" "c \<noteq> []"
  shows "scom com c =
    (case strstr com c of
       None \<Rightarrow> 0
     | Some p \<Rightarrow>
         if p + length c \<noteq> length com then 0
         else if p = 0 \<or> (p = 4 \<and> take 4 com = ''get_'') then 1
         else if p = 4 \<or> p = 1 then 2 else 0)"
proof (cases "strstr com c")
  case None
  then show ?thesis using assms by (simp add: scom_def index_of_0)
next
  case (Some p)
  have g: "index_of com ''get_'' 0 = Some 0 \<longleftrightarrow> take 4 com = ''get_''"
    using assms(1) index_of_prefix [of com "''get_''"] by (simp add: numeral_eq_Suc)
  show ?thesis
    unfolding scom_def g using assms Some by (auto simp: index_of_0)
qed

lemma scom_le_2: "scom com c \<le> 2"
  by (simp add: scom_def split: option.split)

lemma scom_self: "nul \<notin> set c \<Longrightarrow> c \<noteq> [] \<Longrightarrow> scom c c = 1"
proof -
  assume c: "nul \<notin> set c" "c \<noteq> []"
  have "strstr c c = Some 0" using c by (cases c) auto
  then show ?thesis using c by (simp add: scom_spec)
qed

lemma scom_any_Nil_iff: "scom_any com cs = 0 \<longleftrightarrow> (\<forall>c \<in> set cs. scom com c = 0)"
  by (induction cs) (auto simp: Let_def)

section \<open>The value of an argument\<close>

definition first_separator :: "string \<Rightarrow> string \<Rightarrow> nat \<Rightarrow> nat option" where
  "first_separator separators str b = first_some (map (\<lambda>c. index_of str [c] b) separators)"

text \<open>
  \<open>get_argval\<close>: the text after \<open>arg=\<close> up to a separator; \<open>;\<close> is looked for first, and \<open>&\<close> only
  if there is none.  Without \<open>cmd=\<close> the command is what follows the first \<open>&\<close>.
\<close>

definition get_argval :: "string \<Rightarrow> string \<Rightarrow> nat \<Rightarrow> string \<Rightarrow> string" where
  "get_argval str arg from separators =
     (let found = (case index_of str (arg @ ''='') from of
                     Some b \<Rightarrow> Some (b, arg)
                   | None \<Rightarrow>
                       if arg = ''cmd'' \<or> arg = ''c''
                       then map_option (\<lambda>b. (b, [])) (index_of str ''&'' 0)
                       else None)
      in case found of
           None \<Rightarrow> []
         | Some (b, val) \<Rightarrow>
             let b' = b + length val + 1 in
             case first_separator separators str b' of
               Some e \<Rightarrow> trim (substring str b' e)
             | None \<Rightarrow> trim (substring_from str b'))"

abbreviation argval :: "string \<Rightarrow> string \<Rightarrow> string" where
  "argval str arg \<equiv> get_argval str arg 0 '';&''"

section \<open>The arguments of a request\<close>

text \<open>\<open>if(t[0]=='e')t.remove(0,1)\<close>\<close>

definition drop_e :: "string \<Rightarrow> string" where
  "drop_e t = (if char_at t 0 = CHR ''e'' then remove_at t 0 1 else t)"

text \<open>One turn of the loop over the arguments of the HTTP request.\<close>

definition read_arg :: "string \<times> string \<Rightarrow> 'a device_scheme \<Rightarrow> 'a device_scheme" where
  "read_arg = (\<lambda>(argName, arg) s.
     let argn = to_lower argName in
     if argn = ''cmd'' \<or> arg = [] then s\<lparr>p_cmd := drop_e (if arg = [] then argn else arg)\<rparr>
     else if argn = ''get'' \<or> argn = ''set'' then
       s\<lparr>p_cmd := argn @ ''_'' @ drop_e arg, p_argv := []\<rparr>
     else if argn = ''key'' then s\<lparr>p_key := arg\<rparr>
     else if argn = ''argv'' \<or> argn = ''v'' \<or> argn = ''val'' \<or> argn = ''value'' \<or>
             (p_cmd s \<noteq> [] \<and> argn = ''data'') then s\<lparr>p_argv := arg\<rparr>
     else if p_cmd s = [] then s\<lparr>p_cmd := argn, p_argv := arg\<rparr>
     else s\<lparr>p_ext := arg\<rparr>)"

text \<open>The text of a remote or portal command.\<close>

definition read_remote :: "string \<Rightarrow> 'a device_scheme \<Rightarrow> 'a device_scheme" where
  "read_remote remote s =
     (let r = str_replace (str_replace remote ''%26'' ''&'') ''%3D'' ''='';
          a = argval r ''arg'';
          a = (if a = [] then argval r ''v'' else a);
          a = (if a = [] then argval r ''val'' else a);
          a = (if a = [] then argval r ''value'' else a)
      in s\<lparr>p_cmd := argval r ''cmd'', p_key := argval r ''key'', p_argv := a, p_ext := argval r ''ext''\<rparr>)"

datatype source = From_server "(string \<times> string) list" | From_remote string

text \<open>The head of \<open>process\<close>: the error reply, or the device with the command taken apart.\<close>

definition no_command :: "'a device_scheme \<Rightarrow> 'a device_scheme" where
  "no_command s = s\<lparr>p_key := [], p_cmd := [], p_argv := [], p_ext := [], p_com := []\<rparr>"

definition read_command :: "source \<Rightarrow> 'a device_scheme \<Rightarrow> 'a device_scheme \<times> string option" where
  "read_command src s =
     (let s0 = no_command s in
      case src of
        From_server args \<Rightarrow>
          (let s1 = fold read_arg args s0
           in if length args < 2 \<or> p_key s1 = [] then (s1, Some ''error: incorrect command'') else (s1, None))
      | From_remote remote \<Rightarrow>
          if remote = [] then (s0, Some ''error: no remote arguments'')
          else (read_remote remote s0, None))"

lemma no_command_read_arg [frame_simps]: "no_command (read_arg a s) = no_command s"
  by (cases a) (simp add: read_arg_def no_command_def Let_def)

lemma no_command_fold [frame_simps]: "no_command (fold read_arg as s) = no_command s"
  by (induction as arbitrary: s) (simp_all add: frame_simps)

text \<open>Reading a command changes nothing but the parts of the command.\<close>

lemma no_command_read [frame_simps]: "no_command (fst (read_command src s)) = no_command s"
proof -
  have "no_command (no_command s) = no_command s" by (simp add: no_command_def)
  moreover have "no_command (read_remote r t) = no_command t" for r and t :: "'a device_scheme"
    by (simp add: read_remote_def no_command_def Let_def)
  ultimately show ?thesis
    by (simp add: read_command_def Let_def frame_simps split: source.split)
qed

lemma no_command_eqD:
  assumes "no_command s = no_command t"
  shows "p_data s = p_data t" "eeprom s = eeprom t" "relayState s = relayState t"
    "relayMillis s = relayMillis t" "interval_10ms s = interval_10ms t" "out s = out t"
    "OTA_enabled s = OTA_enabled t" "antilock s = antilock t" "STA_action s = STA_action t"
proof -
  have "p_data (no_command s) = p_data (no_command t)" "eeprom (no_command s) = eeprom (no_command t)"
    "relayState (no_command s) = relayState (no_command t)"
    "relayMillis (no_command s) = relayMillis (no_command t)"
    "interval_10ms (no_command s) = interval_10ms (no_command t)" "out (no_command s) = out (no_command t)"
    "OTA_enabled (no_command s) = OTA_enabled (no_command t)" "antilock (no_command s) = antilock (no_command t)"
    "STA_action (no_command s) = STA_action (no_command t)"
    using assms by simp_all
  then show "p_data s = p_data t" "eeprom s = eeprom t" "relayState s = relayState t"
    "relayMillis s = relayMillis t" "interval_10ms s = interval_10ms t" "out s = out t"
    "OTA_enabled s = OTA_enabled t" "antilock s = antilock t" "STA_action s = STA_action t"
    by (simp_all add: no_command_def)
qed

section \<open>Commands that are taken for others\<close>

text \<open>
  Four characters before a known name make a command that writes: the documented commands
  \<open>keyshost\<close>, \<open>keysip\<close> and \<open>keysport\<close>, which read, are taken for writes of \<open>host\<close>, \<open>ip\<close> and
  \<open>port\<close>.
\<close>

lemma scom_any_prefix:
  assumes "nul \<notin> set w" "nul \<notin> set c" "c \<noteq> []" "length w = 4" "w \<noteq> ''get_''"
    and "strstr (w @ c) c = Some 4"
  shows "scom (w @ c) c = 2"
  using assms by (simp add: scom_spec)

lemma keys_prefix:
  "scom ''keyshost'' ''host'' = 2" "scom ''keysip'' ''ip'' = 2" "scom ''keysport'' ''port'' = 2"
  by (simp_all add: scom_spec)

end
