(* ===== verification/Command_Process.thy ===== *)
theory Command_Process
  imports Command_Language
begin

text \<open>
  The command processor \<open>SWparser::process\<close> and what it calls: \<open>get_flags\<close>, \<open>get_sync\<close>,
  \<open>getRemoteUrl\<close>, \<open>sendStringMasterdata\<close>, \<open>loadStringMasterdata\<close> and \<open>loop_upload\<close>
  (\<open>SWparser.cpp\<close>).  The long chain of \<open>else if\<close> is cut, in its order, into groups; each group
  answers \<open>None\<close> when none of its conditions holds.  Page texts and the collaborators that are
  modelled elsewhere are fields of the environment.
\<close>

section \<open>Environment\<close>

record env =
  e_logo :: string
  e_upload_html :: string
  e_post_html :: string
  e_mac :: "nat list"
  e_wl_connected :: bool
    \<comment> \<open>\<open>WiFi.status() == WL_CONNECTED\<close>\<close>
  e_garbage :: bytes
    \<comment> \<open>what the heap holds where a new parser's key array is allocated\<close>
  e_clock :: "(u32 \<times> u32 \<times> u32) list"
    \<comment> \<open>the \<open>millis()\<close> readings of each turn of \<open>loop_upload\<close>\<close>
  e_handleClient :: "device \<Rightarrow> device"
  e_loadKeys :: "device \<Rightarrow> device \<times> string"
    \<comment> \<open>\<open>loadKeysFromRemoteStorage\<close>\<close>
  e_uploadTransponder :: "bool \<Rightarrow> bool \<Rightarrow> device \<Rightarrow> device \<times> string"
    \<comment> \<open>\<open>do_upload_transponder_FTP\<close>\<close>

section \<open>Texts about the device\<close>

definition flag_line :: "string \<Rightarrow> bool \<Rightarrow> string \<Rightarrow> string \<Rightarrow> string" where
  "flag_line head b on off = head @ (if b then on else off)"

definition get_flags :: "bool \<Rightarrow> SWdata \<Rightarrow> string" where
  "get_flags html d =
     (let w = restore_uint32_t (Eflag d) in
      if html then
        ''<br>work mode: '' @ w @
        ''<div style='' @ [CHR 0x22] @ ''text-align:left;'' @ [CHR 0x22] @ ''>'' @
        flag_line ''<br>FNODEFAULT (1)   is '' (has_flag d FNODEFAULT)
          ''SET - start without init flash'' ''reset - start + init flash'' @
        flag_line ''<br>FURL_DBG (2)   is '' (has_flag d FURL_DBG)
          ''SET - url debug info'' ''reset - no url debug info'' @
        flag_line ''<br>FNOREMOTE (4)   is '' (has_flag d FNOREMOTE) ''SET'' ''RESET'' @
        flag_line '' - remote over internet '' (has_flag d FNOREMOTE) ''disabled'' ''enabled'' @
        flag_line ''<br>FNOANTILOCK (8)   is '' (has_flag d FNOANTILOCK) ''SET'' ''RESET'' @
        flag_line '' - antilocker(CPU HALT) detector '' (has_flag d FNOANTILOCK) ''disabled'' ''enabled'' @
        flag_line ''<br>FNOSTACONTROL (16)  is '' (has_flag d FNOSTACONTROL) '' - DISABLED'' '' - enabled'' @
        '' connections control(max '' @ dec MAX_CLIENTS @
        flag_line [] (has_flag d FNOSTACONTROL)
          '',maybe problems if overload)'' '',old connections are deactivated)'' @
        flag_line ''<br>FSSL (32)  is '' (has_flag d FSSL)
          ''ENABLED - https mode.'' ''disabled - is http mode.(if enabled,then mode=https)'' @
        flag_line ''<br>FSECURE (64)  is '' (has_flag d FSECURE)
          ''ENABLED - is secure https mode.(if disabled-insecure)''
          ''disabled - insecure https mode(no CERT control)'' @
        flag_line ''<br>FKSSL (128): keys storage: '' (has_flag d FKSSL)
          ''ENABLED - https mode.'' ''disabled == http mode.(if enabled,then mode=https)'' @
        flag_line ''<br>FKSECURE (256): keys storage: '' (has_flag d FKSECURE)
          ''ENABLED - secure https mode.(if disabled-insecure)''
          ''disabled - insecure https mode(no CERT control)'' @
        flag_line ''<br>FNOSERVICE (512) is '' (has_flag d FNOSERVICE)
          ''SET - service is DISABLED for everyone except the master''
          ''reset - the service serves all connected'' @
        flag_line ''<br>FC_DBG (1024) is '' (has_flag d FC_DBG) ''SET'' ''reset'' @
        flag_line '' - commands debug info is '' (has_flag d FC_DBG) ''ENABLED'' ''disabled'' @
        ''</div>''
      else w)"

definition byte_at :: "bytes \<Rightarrow> nat \<Rightarrow> nat" where
  "byte_at a i = of_char (char_at a i)"

definition getRemoteUrl :: "SWdata \<Rightarrow> string" where
  "getRemoteUrl d =
     char_ptr d 1 @ ''&'' @ char_ptr d 12 @ ''&'' @ char_ptr d 13 @ ''&'' @
     dec (byte_at (EremoteIP d) 0) @ ''.'' @ dec (byte_at (EremoteIP d) 1) @ ''.'' @
     dec (byte_at (EremoteIP d) 2) @ ''.'' @ dec (byte_at (EremoteIP d) 3) @ ''&'' @
     dec (unat (EremotePort d))"

definition get_sync :: "SWdata \<Rightarrow> string \<Rightarrow> string" where
  "get_sync d check_key_value_result =
     restore_String (ESSID d) 64 @ ''&'' @ restore_String (Epass d) 64 @ ''&'' @
     restore_uint32_t (Eflag d) @ ''&'' @ getRemoteUrl d @ ''&'' @ VERSION @ ''&'' @ check_key_value_result"

section \<open>The settings as one text\<close>

text \<open>The members in the order of \<open>sendStringMasterdata\<close>.\<close>

definition masterdata_fields :: "SWdata \<Rightarrow> string list" where
  "masterdata_fields d =
     [dec (unat (EresetInterval d)), dec (unat (ErelayInterval d)),
      char_ptr d 4, char_ptr d 5, char_ptr d 6, char_ptr d 7,
      dec (byte_at (EAPIP d) 0), dec (byte_at (EAPIP d) 1), dec (byte_at (EAPIP d) 2), dec (byte_at (EAPIP d) 3),
      dec (unat (EAPport d)), char_ptr d 10, char_ptr d 11, char_ptr d 29, char_ptr d 30, char_ptr d 33,
      dec_int (Ekeys d), char_ptr d 22, char_ptr d 24, char_ptr d 25,
      dec (unat (Eftp_port d)), dec_int (Eftp_delay d), VERSION]"

fun join :: "string \<Rightarrow> string list \<Rightarrow> string" where
  "join delim [] = []"
| "join delim [x] = x"
| "join delim (x # y # xs) = x @ delim @ join delim (y # xs)"

definition sendStringMasterdata :: "string \<Rightarrow> SWdata \<Rightarrow> string" where
  "sendStringMasterdata delimiter d = join delimiter (masterdata_fields d)"

text \<open>
  Field number \<open>n\<close> of a received text.  \<open>Inr e\<close> is the settings with the development key's
  mismatch flag, \<open>Inl\<close> the version error, which reloads the settings from flash.
\<close>

definition intv_u32 :: "string \<Rightarrow> u32" where "intv_u32 v = word_of_int (strtol v)"
definition intv_u16 :: "string \<Rightarrow> u16" where "intv_u16 v = word_of_int (strtol v)"
definition intv_char :: "string \<Rightarrow> char" where "intv_char v = char_of (nat (strtol v mod 256))"

definition load_field :: "nat \<Rightarrow> string \<Rightarrow> SWdata \<Rightarrow> SWdata" where
  "load_field n v d =
     (if n = 0 then d\<lparr>EresetInterval := intv_u32 v\<rparr>
      else if n = 1 then d\<lparr>ErelayInterval := intv_u32 v\<rparr>
      else if n = 2 then d\<lparr>Emasterkey := chcopyt (Emasterkey d) v 8 True nul\<rparr>
      else if n = 4 then d\<lparr>ESSID := chcopyt (ESSID d) v 64 True nul\<rparr>
      else if n = 5 then d\<lparr>Epass := chcopyt (Epass d) v 64 True nul\<rparr>
      else if n = 6 then d\<lparr>EAPIP := (EAPIP d)[0 := intv_char v]\<rparr>
      else if n = 7 then d\<lparr>EAPIP := (EAPIP d)[1 := intv_char v]\<rparr>
      else if n = 8 then d\<lparr>EAPIP := (EAPIP d)[2 := intv_char v]\<rparr>
      else if n = 9 then d\<lparr>EAPIP := (EAPIP d)[3 := intv_char v]\<rparr>
      else if n = 10 then d\<lparr>EAPport := intv_u16 v\<rparr>
      else if n = 11 then d\<lparr>ESSIDClient := chcopyt (ESSIDClient d) v 64 True nul\<rparr>
      else if n = 12 then d\<lparr>EpasswordClient := chcopyt (EpasswordClient d) v 64 True nul\<rparr>
      else if n = 13 then d\<lparr>Ehost := chcopyt (Ehost d) v 256 True nul\<rparr>
      else if n = 14 then d\<lparr>EhostFile := chcopyt (EhostFile d) v 64 True nul\<rparr>
      else if n = 15 then d\<lparr>Einfo := chcopyt (Einfo d) v 256 True nul\<rparr>
      else if n = 16 then d\<lparr>Eftp_dir := chcopyt (Eftp_dir d) v 256 True nul\<rparr>
      else if n = 17 then d\<lparr>Eftp_user := chcopyt (Eftp_user d) v 64 True nul\<rparr>
      else if n = 18 then d\<lparr>Eftp_pass := chcopyt (Eftp_pass d) v 64 True nul\<rparr>
      else if n = 19 then d\<lparr>Eftp_port := intv_u16 v\<rparr>
      else if n = 20 then d\<lparr>Eftp_delay := strtol v\<rparr>
      else d)"

text \<open>The loop: \<open>e\<close> runs over the text, \<open>b\<close> is where the current field begins.\<close>

datatype load_result = Loaded SWdata nat bool | Wrong_version

function load_loop :: "string \<Rightarrow> nat \<Rightarrow> nat \<Rightarrow> nat \<Rightarrow> bool \<Rightarrow> SWdata \<Rightarrow> load_result" where
  "load_loop t e b n err d =
     (if e < length t then
        (if char_at t e = CHR '','' \<or> e + 1 = length t then
           (if b < e \<or> e + 1 = length t then
              (let v = (if e + 1 = length t then substring_from t b else substring t b e) in
               if n = 21 \<and> v \<noteq> VERSION then Wrong_version
               else load_loop t (e + 1) (e + 1) (n + 1) (err \<or> (n = 3 \<and> v \<noteq> char_ptr d 5)) (load_field n v d))
            else load_loop t (e + 1) (e + 1) n err d)
         else load_loop t (e + 1) b n err d)
      else Loaded d n err)"
  by pat_completeness auto
termination
  by (relation "measure (\<lambda>(t, e, b, n, err, d). length t - e)") auto

declare load_loop.simps [simp del]

definition msg_saved_all :: string where
  "msg_saved_all =
     utf8 [208, 159, 208, 176, 208, 188, 209, 143, 209, 130, 209, 140, 32, 208, 190, 208, 177, 208,
     189, 208, 190, 208, 178, 208, 187, 208, 181, 208, 189, 208, 176, 46, 208, 162, 208, 181, 208,
     186, 209, 131, 209, 137, 208, 184, 208, 181, 32, 208, 189, 208, 176, 209, 129, 209, 130, 209,
     128, 208, 190, 208, 185, 208, 186, 208, 184, 32, 209, 129, 208, 190, 209, 133, 209, 128, 208,
     176, 208, 189, 208, 181, 208, 189, 209, 139, 46]"

definition msg_load_error :: string where
  "msg_load_error =
     utf8 [208, 158, 209, 136, 208, 184, 208, 177, 208, 186, 208, 176, 32, 208, 183, 208, 176, 208,
     179, 209, 128, 209, 131, 208, 183, 208, 186, 208, 184, 46, 208, 191, 208, 190, 208, 178, 209,
     130, 208, 190, 209, 128, 208, 184, 209, 130, 208, 181, 46]"

definition msg_load_done :: string where
  "msg_load_done =
     utf8 [208, 148, 208, 176, 208, 189, 208, 189, 209, 139, 208, 181, 32, 208, 183, 208, 176, 208,
     191, 208, 184, 209, 129, 208, 176, 208, 189, 209, 139, 32, 208, 178, 32, 208, 191, 208, 176,
     208, 188, 209, 143, 209, 130, 209, 140, 46]"

definition msg_version_error :: string where
  "msg_version_error =
     utf8 [208, 158, 209, 136, 208, 184, 208, 177, 208, 186, 208, 176, 32, 208, 178, 208, 181, 209,
     128, 209, 129, 208, 184, 208, 184, 46, 208, 158, 208, 177, 208, 189, 208, 190, 208, 178, 208,
     184, 209, 130, 208, 181, 32, 208, 191, 209, 128, 208, 184, 208, 187, 208, 190, 208, 182, 208,
     181, 208, 189, 208, 184, 208, 181, 32, 208, 180, 208, 190, 32, 208, 178, 208, 181, 209, 128,
     209, 129, 208, 184, 208, 184, 32]"

definition loadStringMasterdata :: "bool \<Rightarrow> (string \<times> string) list \<Rightarrow> device \<Rightarrow> device \<times> string" where
  "loadStringMasterdata wl_connected args s =
     (if length args < 3 then (s, ''Error: loadStringMasterdata _server->args()<3'')
      else if fst (args ! 2) \<noteq> ''DATA'' then
        (s, ''Error: loadStringMasterdata _server->argName(2)!='' @ [CHR 0x22] @ ''DATA'' @ [CHR 0x22])
      else
        let d = snd (args ! 2) in
        if length d = 0 then (s, ''Error: loadStringMasterdata _server.arg[2].length()==0'')
        else case load_loop d 1 0 0 False (p_data s) of
          Wrong_version \<Rightarrow> (loadAllFromEEPROM s, msg_version_error @ VERSION)
        | Loaded sd n err \<Rightarrow>
            let s1 = s\<lparr>p_data := sd\<rparr> in
            if n < 21 \<or> err then (s1, msg_load_error)
            else
              let s2 = saveAllToEEPROM s1;
                  s3 = (if has_flag (p_data s2) FNOREMOTE then
                          (let s3 = s2\<lparr>STA_action := 0\<rparr>
                           in if connected s3 \<or> wl_connected
                              then emit [Auto_connect False, Wifi_disconnect] s3 else s3)
                        else if \<not> connected s2 \<or> \<not> wl_connected then
                          emit [Auto_connect True, Wifi_connect] (modConCntr (-1) (s2\<lparr>STA_action := 3\<rparr>))
                        else s2)
              in (s3, msg_load_done))"

section \<open>The commands\<close>

type_synonym reply = "device \<times> string outcome"

definition reply :: "device \<Rightarrow> string \<Rightarrow> reply" where
  "reply s r = (s, Return r)"

text \<open>A group entry: \<open>else if((v=scom(a))||(v=scom(b))...)\<close> with what is done for \<open>v\<close>.\<close>

definition scom_case :: "device \<Rightarrow> string list \<Rightarrow> (nat \<Rightarrow> reply) \<Rightarrow> reply option" where
  "scom_case s names act = (let v = scom_any (p_com s) names in if v \<noteq> 0 then Some (act v) else None)"

definition cmd_case :: "device \<Rightarrow> string list \<Rightarrow> reply \<Rightarrow> reply option" where
  "cmd_case s names r = (if p_cmd s \<in> set names then Some r else None)"

definition save_data :: "(SWdata \<Rightarrow> SWdata) \<Rightarrow> device \<Rightarrow> device" where
  "save_data f s = saveAllToEEPROM (s\<lparr>p_data := f (p_data s)\<rparr>)"

text \<open>\<open>store_String(member, sizeof(member), argv)\<close>: what goes into the member.\<close>

definition text_arg :: "device \<Rightarrow> nat \<Rightarrow> bytes" where
  "text_arg s n = snd (store_String n (p_argv s))"

definition int_arg :: "device \<Rightarrow> int \<Rightarrow> int \<Rightarrow> int" where
  "int_arg s least other = (if to_int (p_argv s) \<ge> least then to_int (p_argv s) else other)"

definition restore_IP :: "bytes \<Rightarrow> device \<Rightarrow> reply" where
  "restore_IP a s = (let (st, r) = restore_IP_String (ip_static s) a in reply (s\<lparr>ip_static := st\<rparr>) r)"

subsection \<open>For everybody\<close>

definition VERSION_INFO :: string where "VERSION_INFO = ''<span>v.:'' @ VERSION @ ''<span>''"

definition process_public :: "env \<Rightarrow> string \<Rightarrow> device \<Rightarrow> string option" where
  "process_public E check s =
     (let com = p_com s; d = p_data s in
      if scom com ''mac'' = 1 then Some (''device MAC addr is '' @ mac_toString (e_mac E) True)
      else if scom_any com [''check'', ''checkkey'', ''key''] \<noteq> 0 then Some check
      else if scom com ''sync'' \<noteq> 0 then Some (get_sync d check)
      else if scom com ''v'' = 1 \<or> scom com ''ver'' = 1 \<or> scom com ''version'' = 1 then Some VERSION
      else if scom com ''title'' = 1 \<or> scom com ''caption'' = 1 \<or> scom com ''company'' = 1
        then Some (restore_String (Etitle d) 512)
      else if scom_any com [''vi'', ''verinfo'', ''versioninfo'', ''vinfo'', ''version_info''] \<noteq> 0
        then Some (''<div class='' @ [CHR 0x27] @ ''fx3'' @ [CHR 0x27] @ ''>'' @ VERSION_INFO @ ''</div>'')
      else if scom com ''logo'' \<noteq> 0
        then Some (''<img src='' @ [CHR 0x22] @ ''data:image/png;base64,'' @ e_logo E @
                   [CHR 0x22] @ '' alt='' @ [CHR 0x22] @ ''Logo'' @ [CHR 0x22] @ ''/>'')
      else if scom com ''info'' = 1 \<or> scom com ''i'' = 1 then Some (restore_String (Einfo d) 256)
      else if scom com ''remoteurl'' \<noteq> 0 then Some (getRemoteUrl d)
      else None)"

subsection \<open>For every accepted key\<close>

definition relayOn :: "device \<Rightarrow> device" where "relayOn s = s\<lparr>relayState := True\<rparr>"
definition relayOff :: "device \<Rightarrow> device" where "relayOff s = s\<lparr>relayState := False\<rparr>"

definition msg_disabled :: string where "msg_disabled = ''error: service disabled.''"

definition process_keyed :: "device \<Rightarrow> reply option" where
  "process_keyed s = first_some
     [cmd_case s [''open'']
        (if has_flag (p_data s) FNOSERVICE then reply s msg_disabled
         else reply (relayOn (s\<lparr>relayMillis := interval_10ms s\<rparr>)) ''OK''),
      cmd_case s [''close'']
        (if has_flag (p_data s) FNOSERVICE then reply s msg_disabled else reply (relayOff s) ''OK'')]"

subsection \<open>For the master\<close>

text \<open>The loop of \<open>loop_upload\<close>: the web server is served until the time is over.\<close>

fun loop_upload_turns :: "u32 \<Rightarrow> (u32 \<times> u32 \<times> u32) list \<Rightarrow> (device \<Rightarrow> device) \<Rightarrow> device \<Rightarrow> device" where
  "loop_upload_turns te [] serve s = s"
| "loop_upload_turns te ((now, now_led, set_led) # later) serve s =
     (if now \<le> te then
        (let s' = serve s;
             s'' = (if now_led - ledTimeMs1 s' \<ge> 500
                    then s'\<lparr>ledTimeMs1 := set_led, ledState0 := \<not> ledState0 s'\<rparr> else s')
         in loop_upload_turns te later serve s'')
      else s)"

definition loop_upload :: "u32 \<Rightarrow> u32 \<Rightarrow> env \<Rightarrow> device \<Rightarrow> device" where
  "loop_upload start minut E s =
     loop_upload_turns (start + minut * 60 * 1000) (e_clock E) (e_handleClient E) s"

definition start_update :: "env \<Rightarrow> u32 \<Rightarrow> device \<Rightarrow> device" where
  "start_update E now s =
     (let page = str_replace (e_upload_html E) ''<title></title>'' ''<title>UPDATE BINARY</title>'' @ e_post_html E;
          s1 = emit [Add_route ''/restart'', Add_route ''/reset'', Timer_stop, Http_send 200 ''text/html'' page]
                 (s\<lparr>OTA_enabled := True\<rparr>)
      in (loop_upload now 5 E (modAntilock (-1) s1))\<lparr>OTA_enabled := False\<rparr>)"

definition restore_default :: "env \<Rightarrow> device \<Rightarrow> device" where
  "restore_default E s =
     (new_settings (e_garbage E) True
        (server_flush (server_send_ok ''<i>...restore default...</i>'' s)))
       \<lparr>p_key := [], p_cmd := [], p_argv := [], p_ext := [], p_com := [], p_upload := False\<rparr>"

definition process_service :: "env \<Rightarrow> u32 \<Rightarrow> device \<Rightarrow> reply option" where
  "process_service E now s = first_some
     [cmd_case s [''on''] (reply (relayOn s) ''OK''),
      cmd_case s [''off''] (reply (relayOff s) ''OK''),
      cmd_case s [''update_firmware'', ''update'', ''ota''] (reply (start_update E now s) ''UPDATE FAILED''),
      cmd_case s [''disable_remote'']
        (reply (s\<lparr>p_data := (p_data s)\<lparr>Eflag := Eflag (p_data s) OR FNOREMOTE\<rparr>\<rparr>) ''ok.remote control disabled''),
      cmd_case s [''enable_remote'']
        (reply (s\<lparr>p_data := (p_data s)\<lparr>Eflag := Eflag (p_data s) AND NOT FNOREMOTE\<rparr>\<rparr>) ''ok.remote control enabled''),
      cmd_case s [''loadfromhost'', ''loadkeys'']
        (if \<not> e_wl_connected E then reply s ''error : no connection to access point''
         else (let (s', r) = e_loadKeys E s in reply s' r)),
      cmd_case s [''toblack'', ''toblacklist''] (let (s', r) = toBlackList (p_argv s) s in reply s' r),
      cmd_case s [''remove'', ''del'', ''deletekey''] (let (s', r) = deleteKey (p_argv s) s in reply s' r),
      cmd_case s [''add'', ''addkey''] (let (s', r) = addKey (p_argv s) True s in reply s' r),
      cmd_case s [''clear'', ''clearkeys''] (reply (clearKeys s) ''ok.all keys deleted''),
      cmd_case s [''rsttodef'', ''rst_default'', ''init''] (restore_default E s, Restart),
      cmd_case s [''save_toflash'', ''save'', ''savetoeeprom''] (reply (saveAllToEEPROM s) msg_saved_all),
      cmd_case s [''load'', ''loadfromeeprom''] (reply (loadAllFromEEPROM s) ''RAM loaded from flash.''),
      cmd_case s [''reset''] (server_flush (server_send_ok ''<i>...reset...</i>'' s), Restart)]"

definition process_access_point :: "device \<Rightarrow> reply option" where
  "process_access_point s = (let d = p_data s; a = p_argv s in first_some
     [scom_case s [''resetinterval''] (\<lambda>v. if v = 2
        then reply (save_data (\<lambda>d. d\<lparr>EresetInterval := store_uint32_t (EresetInterval d) a\<rparr>) s) ''ok.reset interval saved''
        else reply s (dec (unat (EresetInterval d)))),
      scom_case s [''relayinterval'', ''relay''] (\<lambda>v. if v = 2
        then reply (save_data (\<lambda>d. d\<lparr>ErelayInterval := store_uint32_t (ErelayInterval d) a\<rparr>) s) ''ok.relay hold interval saved''
        else reply s (dec (unat (ErelayInterval d)))),
      scom_case s [''masterkey'', ''master''] (\<lambda>v. if v = 2
        then reply (save_data (\<lambda>d. d\<lparr>Emasterkey := text_arg s 8\<rparr>) s) ''ok.masterkey saved''
        else reply s (char_ptr d 4)),
      scom_case s [''ssid''] (\<lambda>v. if v = 2
        then reply (save_data (\<lambda>d. d\<lparr>ESSID := text_arg s 64\<rparr>) s) ''ok.AP name saved''
        else reply s (restore_String (ESSID d) 64)),
      scom_case s [''developmentkey'', ''devkey'', ''dev''] (\<lambda>v. if v = 2
        then reply (save_data (\<lambda>d. d\<lparr>Edevelopment := text_arg s 8\<rparr>) s) ''ok.devkey saved''
        else reply s (restore_String (Edevelopment d) 8)),
      scom_case s [''appass'', ''pass''] (\<lambda>v. if v = 2
        then reply (save_data (\<lambda>d. d\<lparr>Epass := text_arg s 64\<rparr>) s) ''ok.AP password saved''
        else reply s (restore_String (Epass d) 64)),
      scom_case s [''ip'', ''apip''] (\<lambda>v. if v = 2
        then reply (save_data (\<lambda>d. d\<lparr>EAPIP := store_IP_String a\<rparr>) s) ''ok.AP IP saved''
        else restore_IP (EAPIP d) s),
      scom_case s [''port'', ''apport''] (\<lambda>v. if v = 2
        then reply (save_data (\<lambda>d. d\<lparr>EAPport := word_of_int (to_int a)\<rparr>) s) ''ok.AP port saved''
        else reply s (dec (unat (EAPport d)))),
      scom_case s [''ssidclient''] (\<lambda>v. if v = 2
        then reply (save_data (\<lambda>d. d\<lparr>ESSIDClient := text_arg s 64\<rparr>) s) ''ok.SSID saved''
        else reply s (restore_String (ESSIDClient d) 64)),
      scom_case s [''passwordclient'', ''passclient''] (\<lambda>v. if v = 2
        then reply (save_data (\<lambda>d. d\<lparr>EpasswordClient := text_arg s 64\<rparr>) s) ''ok.SSID password saved''
        else reply s (restore_String (EpasswordClient d) 64))])"

text \<open>
  In \<open>v=scom("hostfile") || ...\<close> the assignment takes the truth value of the disjunction, so
  \<open>v\<close> is 0 or 1 there.  A remote \<open>set_masterdata\<close> uses the null server pointer.
\<close>

definition process_keys_host :: "env \<Rightarrow> source \<Rightarrow> bool \<Rightarrow> device \<Rightarrow> reply option" where
  "process_keys_host E src html s = (let d = p_data s; a = p_argv s in first_some
     [scom_case s [''host'', ''keyshostname'', ''keyshost''] (\<lambda>v. if v = 2
        then reply (save_data (\<lambda>d. d\<lparr>Ehost := text_arg s 256\<rparr>) s) ''ok.keys hostname saved''
        else reply s (restore_String (Ehost d) 256)),
      scom_case s [''hostfile'', ''keyshostfile'', ''keysfile''] (\<lambda>v. let v = (if v \<noteq> 0 then 1 else 0 :: nat) in
        if v = 2
        then reply (save_data (\<lambda>d. d\<lparr>EhostFile := text_arg s 64\<rparr>) s) ''ok.keys file name saved''
        else reply s (restore_String (EhostFile d) 64)),
      scom_case s [''info''] (\<lambda>v. if v = 2
        then reply (save_data (\<lambda>d. d\<lparr>Einfo := text_arg s 256\<rparr>) s) ''ok.info saved''
        else reply s (restore_String (Einfo d) 256)),
      scom_case s [''masterdata''] (\<lambda>v. if v = 2
        then (case src of
                From_server args \<Rightarrow> (let (s', r) = loadStringMasterdata (e_wl_connected E) args s in reply s' r)
              | From_remote _ \<Rightarrow> (s, Null_pointer))
        else reply s (sendStringMasterdata (if html then ''<br>'' else ''&'') d)),
      scom_case s [''keyshostip'', ''keysip''] (\<lambda>v. if v = 2
        then reply (s\<lparr>p_data := d\<lparr>EhostIP := store_IP_String a\<rparr>\<rparr>) ''OK''
        else restore_IP (EhostIP d) s),
      scom_case s [''keyshostport'', ''keysport''] (\<lambda>v. if v = 2
        then reply (s\<lparr>p_data := d\<lparr>EhostPort := store_Port a\<rparr>\<rparr>) ''OK''
        else reply s (dec (unat (EhostPort d)))),
      scom_case s [''flags'', ''mode''] (\<lambda>v.
        let s1 = (if v = 2 then s\<lparr>p_data := d\<lparr>Eflag := store_uint32_t (Eflag d) a\<rparr>\<rparr> else s);
            s2 = saveAllToEEPROM s1
        in reply s2 (get_flags html (p_data s2)))])"

definition process_remote_host :: "device \<Rightarrow> reply option" where
  "process_remote_host s = (let d = p_data s; a = p_argv s in first_some
     [scom_case s [''remotehost''] (\<lambda>v. if v = 2
        then reply (save_data (\<lambda>d. d\<lparr>EremoteHost := text_arg s 256\<rparr>) s) ''OK''
        else reply s (restore_String (EremoteHost d) 256)),
     scom_case s [''remotehostdir''] (\<lambda>v. if v = 2
        then reply (save_data (\<lambda>d. d\<lparr>EremoteHostDir := text_arg s 64\<rparr>) s) ''OK''
        else reply s (restore_String (EremoteHostDir d) 64)),
     scom_case s [''remoteip''] (\<lambda>v. if v = 2
        then reply (save_data (\<lambda>d. d\<lparr>EremoteIP := store_IP_String a\<rparr>) s) ''OK''
        else restore_IP (EremoteIP d) s),
     scom_case s [''remoteport''] (\<lambda>v. if v = 2
        then reply (save_data (\<lambda>d. d\<lparr>EremotePort := store_Port a\<rparr>) s) ''OK''
        else reply s (dec (unat (EremotePort d)))),
     scom_case s [''remoteinterval''] (\<lambda>v. if v = 2
        then reply (save_data (\<lambda>d. d\<lparr>EremoteIntervalMs := int_arg s 1000 3000\<rparr>) s) ''OK''
        else reply s (dec_int (EremoteIntervalMs d))),
     scom_case s [''requestactualsec''] (\<lambda>v. if v = 2
        then reply (save_data (\<lambda>d. d\<lparr>ErequestActualSec := int_arg s 5 20\<rparr>) s) ''OK''
        else reply s (dec_int (ErequestActualSec d))),
     scom_case s [''unixtimerefresh''] (\<lambda>v. if v = 2
        then reply (save_data (\<lambda>d. d\<lparr>EunixtimeRefresh := int_arg s 5 60\<rparr>) s) ''OK''
        else reply s (dec_int (EunixtimeRefresh d))),
     scom_case s [''remotemaxlogs'', ''maxlogs''] (\<lambda>v. if v = 2
        then reply (save_data (\<lambda>d. d\<lparr>EremoteMaxLogs := 64\<rparr>) s) ''OK''
        else reply s (dec_int (EremoteMaxLogs d))),
     scom_case s [''remotetimezone'', ''timezone''] (\<lambda>v. if v = 2
        then reply (save_data (\<lambda>d. d\<lparr>EremoteTimeZone := text_arg s 64\<rparr>) s) ''OK''
        else reply s (restore_String (EremoteTimeZone d) 64))])"

definition process_ftp :: "env \<Rightarrow> device \<Rightarrow> reply option" where
  "process_ftp E s = (let d = p_data s; a = p_argv s in first_some
     [scom_case s [''ftpserver'', ''ftphost'', ''ftp''] (\<lambda>v. if v = 2
        then reply (save_data (\<lambda>d. d\<lparr>Eftp_server := text_arg s 256\<rparr>) s) ''OK''
        else reply s (restore_String (Eftp_server d) 256)),
     scom_case s [''ftpdir''] (\<lambda>v. if v = 2
        then reply (save_data (\<lambda>d. d\<lparr>Eftp_dir := text_arg s 256\<rparr>) s) ''OK''
        else reply s (restore_String (Eftp_dir d) 256)),
     scom_case s [''ftpport''] (\<lambda>v. if v = 2
        then reply (save_data (\<lambda>d. d\<lparr>Eftp_port := store_Port a\<rparr>) s) ''OK''
        else reply s (dec (unat (Eftp_port d)))),
     scom_case s [''ftpuser''] (\<lambda>v. if v = 2
        then reply (save_data (\<lambda>d. d\<lparr>Eftp_user := text_arg s 64\<rparr>) s) ''OK''
        else reply s (restore_String (Eftp_user d) 64)),
     scom_case s [''ftppas'', ''ftppass''] (\<lambda>v. if v = 2
        then reply (save_data (\<lambda>d. d\<lparr>Eftp_pass := text_arg s 64\<rparr>) s) ''OK''
        else reply s (restore_String (Eftp_pass d) 64)),
     scom_case s [''ftpdelay''] (\<lambda>v. if v = 2
        then reply (save_data (\<lambda>d. d\<lparr>Eftp_delay := int_arg s 1000 5000\<rparr>) s) ''OK''
        else reply s (dec_int (Eftp_delay d))),
     cmd_case s [''upload_transponder'']
       (let (s', r) = e_uploadTransponder E (a = ''set_timezone'' \<or> a = ''set_all'') (a = ''set_maxlogs'' \<or> a = ''set_all'') s
        in reply s' r)])"

definition start_key_upload :: "env \<Rightarrow> device \<Rightarrow> device" where
  "start_key_upload E s =
     (let page = str_replace (str_replace (e_upload_html E) ''update'' ''upload'')
                   ''<title></title>'' ''<title>UPLOAD KEYS FILE</title>'' @ e_post_html E
      in emit [Http_send 200 ''text/html'' page] (s\<lparr>p_upload := True\<rparr>))"

definition process_keys :: "env \<Rightarrow> device \<Rightarrow> reply option" where
  "process_keys E s = (let d = p_data s in first_some
     [scom_case s [''numkeys''] (\<lambda>v. reply s (dec_int (Ekeys d))),
      scom_case s [''maxkeys''] (\<lambda>v. reply s (dec MAX_KEYS)),
      scom_case s [''allkeys'', ''keys''] (\<lambda>v. if v = 2 then reply s ''no_realised'' else reply s (get_all_keys False d)),
      scom_case s [''devicename'', ''device'', ''name''] (\<lambda>v. if v = 2
        then reply (save_data (\<lambda>d. d\<lparr>EdeviceName := text_arg s 64\<rparr>) s) ''OK''
        else reply s (restore_String (EdeviceName d) 64)),
      scom_case s [''upload'', ''upload_keys''] (\<lambda>v. reply (start_key_upload E s) []),
      scom_case s [''title'', ''caption'', ''company''] (\<lambda>v. if v = 2
        then reply (save_data (\<lambda>d. d\<lparr>Etitle := text_arg s 512\<rparr>) s)
               (''ok.captive portal TITLE changed.Stored len='' @ dec (fst (store_String 512 (p_argv s))))
        else reply s (restore_String (Etitle d) 512)),
      cmd_case s [''connect''] (reply (emit [Auto_connect True, Wifi_connect] (modConCntr (-1) s)) ''connect to AP...'')])"

definition process_master :: "env \<Rightarrow> u32 \<Rightarrow> source \<Rightarrow> bool \<Rightarrow> device \<Rightarrow> reply" where
  "process_master E now src html s =
     (case first_some [process_service E now s, process_access_point s, process_keys_host E src html s,
                       process_remote_host s, process_ftp E s, process_keys E s] of
        Some r \<Rightarrow> r
      | None \<Rightarrow> reply s (''error: UNKNOWN COMMAND '' @ p_cmd s))"

section \<open>The whole of process\<close>

text \<open>Without keys everybody is the master.\<close>

definition key_check :: "device \<Rightarrow> string" where
  "key_check s = (if Ekeys (p_data s) = 0 then ''ISMASTER'' else checkKey (p_data s) (p_key s))"

text \<open>
  The old form \<open>cmd=get&argv\<close> is joined into \<open>com\<close>, but \<open>com=cmd\<close> follows and overwrites it.
\<close>

definition process :: "env \<Rightarrow> u32 \<Rightarrow> source \<Rightarrow> bool \<Rightarrow> device \<Rightarrow> reply" where
  "process E now src html s =
     (case read_command src s of
        (s1, Some e) \<Rightarrow> reply s1 e
      | (s1, None) \<Rightarrow>
          let s2 = s1\<lparr>p_cmd := to_lower (p_cmd s1)\<rparr>;
              check = key_check s2;
              old_form = p_cmd s2 = ''get'' \<or> p_cmd s2 = ''set''
          in if old_form \<and> p_argv s2 = [] then reply s2 ''error: incorrect command''
             else
               let s3 = (if old_form then s2\<lparr>p_argv := drop_e (p_argv s2)\<rparr> else s2);
                   s4 = s3\<lparr>p_com := p_cmd s3\<rparr>
               in case process_public E check s4 of
                    Some r \<Rightarrow> reply s4 r
                  | None \<Rightarrow>
                      if check \<noteq> ''ISMASTER'' \<and> check \<noteq> ''FOUND'' then reply s4 check
                      else case process_keyed s4 of
                             Some r \<Rightarrow> r
                           | None \<Rightarrow>
                               if check \<noteq> ''ISMASTER'' then reply s4 ''error: access denied''
                               else process_master E now src html s4)"

text \<open>The name of a lock whose name is set to nothing: \<open>sprintf(dname,"%d%d%d%d%d%d",mac[0],...)\<close>.\<close>

definition default_name :: "env \<Rightarrow> string" where
  "default_name E = concat (map (\<lambda>i. dec (e_mac E ! i)) [0, 1, 2, 3, 4, 5])"

end
