(* ===== verification/Command_Facts.thy ===== *)
theory Command_Facts
  imports Command_Process
begin

text \<open>
  What the command processor guarantees: who may change what, that every command keeps the
  settings well formed, that what a command sets is in flash when it answers, and the commands
  that do not do what their names say.
\<close>

section \<open>Access\<close>

lemma first_some_Cons: "first_some (x # xs) = (case x of Some y \<Rightarrow> Some y | None \<Rightarrow> first_some xs)"
  by (cases x) simp_all

lemma no_command_lower [frame_simps]:
  "no_command (s\<lparr>p_cmd := c\<rparr>) = no_command s" "no_command (s\<lparr>p_argv := a\<rparr>) = no_command s"
  "no_command (s\<lparr>p_com := m\<rparr>) = no_command s"
  by (simp_all add: no_command_def)

text \<open>The device once the command is taken apart, the command in lower case, and the answer of the key
  check.\<close>

definition parsed :: "source \<Rightarrow> device \<Rightarrow> device" where
  "parsed src s = fst (read_command src s)"

definition command_of :: "source \<Rightarrow> device \<Rightarrow> string" where
  "command_of src s = to_lower (p_cmd (parsed src s))"

definition checked :: "source \<Rightarrow> device \<Rightarrow> string" where
  "checked src s = key_check (parsed src s)"

lemma key_check_cmd [simp]: "key_check (s\<lparr>p_cmd := c\<rparr>) = key_check s"
  by (simp add: key_check_def)

lemma parsed_frame [frame_simps]: "no_command (parsed src s) = no_command s"
  by (simp add: parsed_def frame_simps)

text \<open>The ways in which \<open>process\<close> comes to its answer.\<close>

lemma process_cases:
  obtains (replied) u r where "process E now src html s = reply u r" "no_command u = no_command s"
  | (keyed) u q where "process E now src html s = q" "process_keyed u = Some q"
      "no_command u = no_command s" "checked src s = ''ISMASTER'' \<or> checked src s = ''FOUND''"
  | (master) u where "process E now src html s = process_master E now src html u"
      "no_command u = no_command s" "checked src s = ''ISMASTER''" "p_cmd u = command_of src s" "p_com u = command_of src s"
proof -
  obtain s1 e where r: "read_command src s = (s1, e)" by (cases "read_command src s")
  have s1: "no_command s1 = no_command s" using parsed_frame [of src s] r by (simp add: parsed_def)
  have ch: "checked src s = key_check s1" by (simp add: checked_def parsed_def r)
  show thesis
  proof (cases e)
    case (Some msg)
    then show thesis using replied [of s1 msg] s1 by (simp add: process_def r)
  next
    case None
    define s2 where "s2 = s1\<lparr>p_cmd := to_lower (p_cmd s1)\<rparr>"
    define old where "old = (p_cmd s2 = ''get'' \<or> p_cmd s2 = ''set'')"
    define s3 where "s3 = (if old then s2\<lparr>p_argv := drop_e (p_argv s2)\<rparr> else s2)"
    define u where "u = s3\<lparr>p_com := p_cmd s3\<rparr>"
    have s2: "no_command s2 = no_command s" by (simp add: s2_def frame_simps s1)
    have u: "no_command u = no_command s" by (simp add: u_def s3_def frame_simps s2)
    have ch2: "key_check s2 = checked src s" by (simp add: s2_def ch)
    have name: "p_cmd u = command_of src s" "p_com u = command_of src s"
      by (simp_all add: u_def s3_def s2_def command_of_def parsed_def r)
    have step: "process E now src html s =
      (if old \<and> p_argv s2 = [] then reply s2 ''error: incorrect command''
       else case process_public E (checked src s) u of
              Some r \<Rightarrow> reply u r
            | None \<Rightarrow>
                if checked src s \<noteq> ''ISMASTER'' \<and> checked src s \<noteq> ''FOUND'' then reply u (checked src s)
                else case process_keyed u of
                       Some r \<Rightarrow> r
                     | None \<Rightarrow>
                         if checked src s \<noteq> ''ISMASTER'' then reply u ''error: access denied''
                         else process_master E now src html u)"
      unfolding process_def r None prod.case option.case Let_def s2_def [symmetric] old_def [symmetric]
        s3_def [symmetric] u_def [symmetric] ch2 ..
    show thesis
    proof (cases "old \<and> p_argv s2 = []")
      case True
      then show thesis using replied [of s2] step s2 by simp
    next
      case go: False
      show thesis
      proof (cases "process_public E (checked src s) u")
        case (Some r)
        then show thesis using replied [of u r] step go u by simp
      next
        case pub: None
        show thesis
        proof (cases "checked src s \<noteq> ''ISMASTER'' \<and> checked src s \<noteq> ''FOUND''")
          case True
          then show thesis using replied [of u "checked src s"] step go u pub by simp
        next
          case ok: False
          show thesis
          proof (cases "process_keyed u")
            case (Some q)
            have "process E now src html s = q" using step go pub ok Some by (simp only: option.case if_False if_True)
            then show thesis using keyed [of q u] Some u ok by blast
          next
            case k: None
            show thesis
            proof (cases "checked src s = ''ISMASTER''")
              case True
              have "process E now src html s = process_master E now src html u"
                using step go pub ok k True by (simp only: option.case if_False simp_thms)
              then show thesis using master u True name by blast
            next
              case False
              have "process E now src html s = reply u ''error: access denied''"
                using step go pub ok k False by (simp only: option.case if_False if_True simp_thms)
              then show thesis using replied u by blast
            qed
          qed
        qed
      qed
    qed
  qed
qed

lemma process_refused:
  assumes "checked src s \<noteq> ''ISMASTER''" "checked src s \<noteq> ''FOUND''"
  shows "no_command (fst (process E now src html s)) = no_command s"
  by (cases rule: process_cases [of E now src html s]) (use assms in \<open>auto simp: reply_def\<close>)

text \<open>An ordinary key can only move the relay.\<close>

definition relay_as :: "device \<Rightarrow> device \<Rightarrow> device" where
  "relay_as s t = t\<lparr>relayState := relayState s, relayMillis := relayMillis s\<rparr>"

lemma relay_as_id [simp]: "relay_as s s = s"
  by (simp add: relay_as_def)

lemma relay_as_no_command: "no_command t = no_command s \<Longrightarrow> no_command (relay_as s t) = no_command s"
proof -
  assume *: "no_command t = no_command s"
  have "no_command (relay_as s t) = relay_as s (no_command t)" by (simp add: no_command_def relay_as_def)
  also have "\<dots> = relay_as s (no_command s)" by (simp add: *)
  also have "\<dots> = no_command s" by (simp add: relay_as_def no_command_def)
  finally show ?thesis .
qed

lemma process_keyed_frame:
  "process_keyed s = Some (t, r) \<Longrightarrow> relay_as s t = s \<and> (has_flag (p_data s) FNOSERVICE \<longrightarrow> t = s)"
  by (auto simp: process_keyed_def cmd_case_def first_some_Cons reply_def relay_as_def relayOn_def
      relayOff_def split: if_splits)

lemma process_ordinary:
  assumes "checked src s \<noteq> ''ISMASTER''"
  shows "no_command (relay_as s (fst (process E now src html s))) = no_command s \<and>
         (has_flag (p_data s) FNOSERVICE \<longrightarrow> no_command (fst (process E now src html s)) = no_command s)"
proof (cases rule: process_cases [of E now src html s])
  case (replied u r)
  then show ?thesis by (simp add: reply_def relay_as_no_command)
next
  case (keyed u q)
  obtain t o' where q: "q = (t, o')" by (cases q)
  have f: "relay_as u t = u" "has_flag (p_data u) FNOSERVICE \<longrightarrow> t = u"
    using process_keyed_frame keyed(2) q by blast+
  have d: "p_data u = p_data s" "relayState u = relayState s" "relayMillis u = relayMillis s"
    using no_command_eqD [OF keyed(3)] by auto
  have "relay_as s t = relay_as u t" by (simp add: relay_as_def d)
  then have "no_command (relay_as s t) = no_command s" using f(1) keyed(3) by simp
  then show ?thesis using f(2) keyed q d(1) by simp
qed (use assms in simp)

section \<open>Every command keeps the settings well formed\<close>

definition settings_ok :: "SWdata \<Rightarrow> bool" where
  "settings_ok d \<longleftrightarrow> layout_ok d \<and> 0 \<le> Ekeys d \<and> Ekeys d \<le> 100"

definition device_ok :: "'a device_scheme \<Rightarrow> bool" where
  "device_ok s \<longleftrightarrow> settings_ok (p_data s) \<and> settings_ok (eeprom_get (eeprom s))"

definition env_ok :: "env \<Rightarrow> bool" where
  "env_ok E \<longleftrightarrow>
     length (e_garbage E) = 800 \<and>
     (\<forall>s. device_ok s \<longrightarrow> device_ok (e_handleClient E s)) \<and>
     (\<forall>s. device_ok s \<longrightarrow> device_ok (fst (e_loadKeys E s))) \<and>
     (\<forall>s a b. device_ok s \<longrightarrow> device_ok (fst (e_uploadTransponder E a b s)))"

lemma settings_ok_text [wf_rules]:
  "settings_ok d \<Longrightarrow> length x = 64 \<Longrightarrow> settings_ok (d\<lparr>EdeviceName := x\<rparr>)"
  "settings_ok d \<Longrightarrow> length x = 8 \<Longrightarrow> settings_ok (d\<lparr>Emasterkey := x\<rparr>)"
  "settings_ok d \<Longrightarrow> length x = 8 \<Longrightarrow> settings_ok (d\<lparr>Edevelopment := x\<rparr>)"
  "settings_ok d \<Longrightarrow> length x = 64 \<Longrightarrow> settings_ok (d\<lparr>ESSID := x\<rparr>)"
  "settings_ok d \<Longrightarrow> length x = 64 \<Longrightarrow> settings_ok (d\<lparr>Epass := x\<rparr>)"
  "settings_ok d \<Longrightarrow> length x = 4 \<Longrightarrow> settings_ok (d\<lparr>EAPIP := x\<rparr>)"
  "settings_ok d \<Longrightarrow> length x = 64 \<Longrightarrow> settings_ok (d\<lparr>ESSIDClient := x\<rparr>)"
  "settings_ok d \<Longrightarrow> length x = 64 \<Longrightarrow> settings_ok (d\<lparr>EpasswordClient := x\<rparr>)"
  "settings_ok d \<Longrightarrow> length x = 256 \<Longrightarrow> settings_ok (d\<lparr>EremoteHost := x\<rparr>)"
  "settings_ok d \<Longrightarrow> length x = 64 \<Longrightarrow> settings_ok (d\<lparr>EremoteHostDir := x\<rparr>)"
  "settings_ok d \<Longrightarrow> length x = 4 \<Longrightarrow> settings_ok (d\<lparr>EremoteIP := x\<rparr>)"
  "settings_ok d \<Longrightarrow> length x = 64 \<Longrightarrow> settings_ok (d\<lparr>EremoteTimeZone := x\<rparr>)"
  "settings_ok d \<Longrightarrow> length x = 256 \<Longrightarrow> settings_ok (d\<lparr>Eftp_server := x\<rparr>)"
  "settings_ok d \<Longrightarrow> length x = 256 \<Longrightarrow> settings_ok (d\<lparr>Eftp_dir := x\<rparr>)"
  "settings_ok d \<Longrightarrow> length x = 64 \<Longrightarrow> settings_ok (d\<lparr>Eftp_user := x\<rparr>)"
  "settings_ok d \<Longrightarrow> length x = 64 \<Longrightarrow> settings_ok (d\<lparr>Eftp_pass := x\<rparr>)"
  "settings_ok d \<Longrightarrow> length x = 512 \<Longrightarrow> settings_ok (d\<lparr>Etitle := x\<rparr>)"
  "settings_ok d \<Longrightarrow> length x = 256 \<Longrightarrow> settings_ok (d\<lparr>Ehost := x\<rparr>)"
  "settings_ok d \<Longrightarrow> length x = 64 \<Longrightarrow> settings_ok (d\<lparr>EhostFile := x\<rparr>)"
  "settings_ok d \<Longrightarrow> length x = 4 \<Longrightarrow> settings_ok (d\<lparr>EhostIP := x\<rparr>)"
  "settings_ok d \<Longrightarrow> length x = 256 \<Longrightarrow> settings_ok (d\<lparr>Einfo := x\<rparr>)"
  "settings_ok d \<Longrightarrow> in_int32 i \<Longrightarrow> settings_ok (d\<lparr>EremoteIntervalMs := i\<rparr>)"
  "settings_ok d \<Longrightarrow> in_int32 i \<Longrightarrow> settings_ok (d\<lparr>ErequestActualSec := i\<rparr>)"
  "settings_ok d \<Longrightarrow> in_int32 i \<Longrightarrow> settings_ok (d\<lparr>EunixtimeRefresh := i\<rparr>)"
  "settings_ok d \<Longrightarrow> in_int32 i \<Longrightarrow> settings_ok (d\<lparr>EremoteMaxLogs := i\<rparr>)"
  "settings_ok d \<Longrightarrow> in_int32 i \<Longrightarrow> settings_ok (d\<lparr>Eftp_delay := i\<rparr>)"
  by (simp_all add: settings_ok_def layout_ok_def)

lemma settings_ok_word [simp]:
  "settings_ok (d\<lparr>Eflag := w\<rparr>) = settings_ok d"
  "settings_ok (d\<lparr>EresetInterval := w\<rparr>) = settings_ok d"
  "settings_ok (d\<lparr>ErelayInterval := w\<rparr>) = settings_ok d"
  "settings_ok (d\<lparr>EAPport := h\<rparr>) = settings_ok d"
  "settings_ok (d\<lparr>EremotePort := h\<rparr>) = settings_ok d"
  "settings_ok (d\<lparr>Eftp_port := h\<rparr>) = settings_ok d"
  "settings_ok (d\<lparr>EhostPort := h\<rparr>) = settings_ok d"
  by (simp_all add: settings_ok_def layout_ok_def)

lemma settings_ok_layout [wf_rules]: "settings_ok d \<Longrightarrow> layout_ok d"
  by (simp add: settings_ok_def)

lemma device_ok_frame [simp]:
  "device_ok (emit es s) = device_ok s" "device_ok (modAntilock v s) = device_ok s"
  "device_ok (modConCntr v s) = device_ok s" "device_ok (s\<lparr>relayState := b\<rparr>) = device_ok s"
  "device_ok (s\<lparr>relayMillis := w\<rparr>) = device_ok s" "device_ok (s\<lparr>OTA_enabled := b\<rparr>) = device_ok s"
  "device_ok (s\<lparr>ip_static := i\<rparr>) = device_ok s" "device_ok (s\<lparr>STA_action := z\<rparr>) = device_ok s"
  "device_ok (s\<lparr>p_upload := b\<rparr>) = device_ok s" "device_ok (s\<lparr>ledTimeMs1 := w, ledState0 := b\<rparr>) = device_ok s"
  "device_ok (s\<lparr>p_key := t\<rparr>) = device_ok s" "device_ok (s\<lparr>p_cmd := t\<rparr>) = device_ok s"
  "device_ok (s\<lparr>p_argv := t\<rparr>) = device_ok s" "device_ok (s\<lparr>p_ext := t\<rparr>) = device_ok s"
  "device_ok (s\<lparr>p_com := t\<rparr>) = device_ok s"
  by (simp_all add: device_ok_def emit_def modAntilock_def modConCntr_def)

lemma device_ok_save [wf_rules]: "settings_ok (p_data s) \<Longrightarrow> device_ok (saveAllToEEPROM s)"
  by (simp add: device_ok_def eeprom.rd_wr settings_ok_layout)

lemma device_ok_save_data [wf_rules]: "settings_ok (f (p_data s)) \<Longrightarrow> device_ok (save_data f s)"
  by (simp add: save_data_def device_ok_save)

lemma device_ok_data [wf_rules]: "device_ok s \<Longrightarrow> settings_ok d \<Longrightarrow> device_ok (s\<lparr>p_data := d\<rparr>)"
  by (simp add: device_ok_def)

lemma device_ok_load [wf_rules]: "device_ok s \<Longrightarrow> device_ok (loadAllFromEEPROM s)"
  by (simp add: device_ok_def loadAllFromEEPROM_def)

lemma device_okD: "device_ok s \<Longrightarrow> settings_ok (p_data s)"
  by (simp add: device_ok_def)

lemma no_command_device_ok: "no_command t = no_command s \<Longrightarrow> device_ok t = device_ok s"
  using no_command_eqD(1,2) [of t s] by (simp add: device_ok_def)

lemma int_arg_ok [simp]: "in_int32 other \<Longrightarrow> in_int32 (int_arg s least other)"
  by (simp add: int_arg_def to_int_def)

lemma in_int32_small [simp]: "0 \<le> i \<Longrightarrow> i \<le> 100000 \<Longrightarrow> in_int32 i"
  by (simp add: in_int32_iff)

lemma length_text_arg [simp]: "length (text_arg s n) = n"
  by (simp add: text_arg_def)

lemma fst_reply [simp]: "fst (reply s r) = s"
  by (simp add: reply_def)

lemma fst_restore_IP [simp]: "device_ok (fst (restore_IP a s)) = device_ok s"
  by (simp add: restore_IP_def reply_def split: prod.split)

subsection \<open>The key commands\<close>

lemma settings_ok_keys:
  "settings_ok d \<Longrightarrow> length ks = 800 \<Longrightarrow> 0 \<le> n \<Longrightarrow> n \<le> 100 \<Longrightarrow> settings_ok (d\<lparr>Ekey := ks, Ekeys := n\<rparr>)"
  "settings_ok d \<Longrightarrow> length ks = 800 \<Longrightarrow> settings_ok (d\<lparr>Ekey := ks\<rparr>)"
  by (simp_all add: settings_ok_def layout_ok_def)

lemma searchKey_bound: "searchKey d k = Some i \<Longrightarrow> int i < Ekeys d"
  by (auto simp: searchKey_def find_Some_iff dest!: set_takeWhileD [OF nth_mem])

lemma settings_okD:
  "settings_ok d \<Longrightarrow> length (Ekey d) = 800" "settings_ok d \<Longrightarrow> 0 \<le> Ekeys d" "settings_ok d \<Longrightarrow> Ekeys d \<le> 100"
  by (simp_all add: settings_ok_def layout_ok_def)

lemma toBlackList_device_ok: "device_ok s \<Longrightarrow> device_ok (fst (toBlackList k s))"
  by (auto simp: toBlackList_def Let_def settings_ok_keys settings_okD device_okD
      intro!: device_ok_save split: option.split)

lemma length_to_char_array_le: "length (to_char_array k 8) \<le> 8"
proof -
  have "length (cstr (take n k)) \<le> n" for n
    using length_cstr_le [of "take n k"] by simp
  then show ?thesis
    by (simp add: to_char_array_def Let_def min_def)
qed

lemma addKey_array_ok:
  assumes "settings_ok d" "Ekeys d < 100"
  shows "settings_ok (d\<lparr>Ekey := (overwrite (Ekey d) (8 * nat (Ekeys d)) (to_char_array k 8))[8 * nat (Ekeys d) + 7 := nul],
                        Ekeys := Ekeys d + 1\<rparr>)"
proof (rule settings_ok_keys)
  have "8 * nat (Ekeys d) + length (to_char_array k 8) \<le> 800"
    using assms length_to_char_array_le [of k] settings_okD(2) [OF assms(1)] by linarith
  then show "length ((overwrite (Ekey d) (8 * nat (Ekeys d)) (to_char_array k 8))[8 * nat (Ekeys d) + 7 := nul]) = 800"
    using settings_okD(1) [OF assms(1)] by simp
qed (use assms settings_okD [OF assms(1)] in auto)

lemma addKey_device_ok: "device_ok s \<Longrightarrow> device_ok (fst (addKey k sv s))"
proof -
  assume ok: "device_ok s"
  note d = settings_okD [OF device_okD [OF ok]]
  have a: "Ekeys (p_data s) < 100 \<Longrightarrow> settings_ok ((p_data s)\<lparr>Ekey :=
      (overwrite (Ekey (p_data s)) (8 * nat (Ekeys (p_data s))) (to_char_array k' 8))[8 * nat (Ekeys (p_data s)) + 7 := nul],
      Ekeys := Ekeys (p_data s) + 1\<rparr>)" for k'
    by (rule addKey_array_ok [OF device_okD [OF ok]])
  show ?thesis
    unfolding addKey_def Let_def
    by (auto split: option.split intro!: device_ok_save device_ok_data ok a)
qed

lemma deleteKey_device_ok: "device_ok s \<Longrightarrow> device_ok (fst (deleteKey k s))"
proof -
  assume ok: "device_ok s"
  let ?d = "p_data s"
  note d = settings_okD [OF device_okD [OF ok]]
  show ?thesis
  proof (cases "searchKey ?d k")
    case None
    then show ?thesis using ok by (simp add: deleteKey_def Let_def)
  next
    case (Some i)
    let ?last = "nat (Ekeys ?d - 1)"
    have i: "int i < Ekeys ?d" using Some by (rule searchKey_bound)
    then have last: "8 * ?last + 8 \<le> 800" "8 * i + 8 \<le> 800" using d by linarith+
    let ?ks = "if int i < Ekeys ?d - 1 then overwrite (Ekey ?d) (8 * i) (slot (Ekey ?d) ?last)
               else overwrite (Ekey ?d) (8 * ?last) (replicate 8 nul)"
    have "length ?ks = 800" using d(1) last by (simp add: length_slot)
    then have "settings_ok (?d\<lparr>Ekey := ?ks, Ekeys := Ekeys ?d - 1\<rparr>)"
      using d i by (intro settings_ok_keys device_okD [OF ok]) auto
    then have "device_ok (saveAllToEEPROM (s\<lparr>p_data := ?d\<lparr>Ekey := ?ks, Ekeys := Ekeys ?d - 1\<rparr>\<rparr>))"
      by (intro device_ok_save) simp
    then show ?thesis by (simp only: deleteKey_def Let_def Some option.case fst_conv)
  qed
qed

lemma clearKeys_device_ok: "device_ok s \<Longrightarrow> device_ok (clearKeys s)"
  by (auto simp: clearKeys_def device_okD intro!: device_ok_save)
     (simp add: device_ok_def settings_ok_def layout_ok_def)

subsection \<open>The settings text\<close>

lemma in_int32_strtol' [simp]: "in_int32 (strtol v)"
  by simp

lemma load_field_ok: "settings_ok d \<Longrightarrow> settings_ok (load_field n v d)"
  unfolding load_field_def
  by (auto intro!: wf_rules length_chcopyt simp: settings_ok_layout)
     (simp_all add: settings_ok_def layout_ok_def)

lemma load_loop_ok: "settings_ok d \<Longrightarrow> load_loop t e b n err d = Loaded d' n' err' \<Longrightarrow> settings_ok d'"
proof (induction t e b n err d rule: load_loop.induct)
  case (1 t e b n err d)
  show ?case
    using 1(4,5) 1(1) 1(2,3) load_field_ok [OF 1(4)]
    by (subst (asm) load_loop.simps) (auto simp: Let_def split: if_splits)
qed

lemma loadStringMasterdata_ok: "device_ok s \<Longrightarrow> device_ok (fst (loadStringMasterdata w args s))"
proof -
  assume ok: "device_ok s"
  have "device_ok (s\<lparr>p_data := sd\<rparr>)" "device_ok (saveAllToEEPROM (s\<lparr>p_data := sd\<rparr>))"
    if "load_loop t 1 0 0 False (p_data s) = Loaded sd n err" for t sd n err
    using load_loop_ok [OF device_okD [OF ok] that] ok by (auto intro!: device_ok_data device_ok_save)
  then show ?thesis
    using ok device_ok_load [OF ok]
    by (auto simp: loadStringMasterdata_def Let_def split: load_result.split)
qed

subsection \<open>The groups\<close>

text \<open>A fact about every entry of a group holds of its answer.\<close>

lemma pred_first_some: "list_all (pred_option P) xs \<Longrightarrow> pred_option P (first_some xs)"
  by (induction xs rule: first_some.induct) auto

lemma pred_scom_case: "(\<And>v. P (act v)) \<Longrightarrow> pred_option P (scom_case s names act)"
  by (simp add: scom_case_def Let_def)

lemma pred_cmd_case: "P r \<Longrightarrow> pred_option P (cmd_case s names r)"
  by (simp add: cmd_case_def)

lemmas group_rules = pred_first_some pred_scom_case pred_cmd_case

lemma loop_upload_ok: "env_ok E \<Longrightarrow> device_ok s \<Longrightarrow> device_ok (loop_upload start m E s)"
proof -
  assume E: "env_ok E" and "device_ok s"
  have "device_ok s \<Longrightarrow> device_ok (loop_upload_turns te c (e_handleClient E) s)" for te c s
    using E by (induction te c "e_handleClient E" s rule: loop_upload_turns.induct)
      (auto simp: Let_def env_ok_def)
  with \<open>device_ok s\<close> show ?thesis by (simp add: loop_upload_def)
qed

lemma start_update_ok: "env_ok E \<Longrightarrow> device_ok s \<Longrightarrow> device_ok (start_update E now s)"
  by (simp add: start_update_def Let_def loop_upload_ok)

lemma settings_ok_default: "length g = 800 \<Longrightarrow> settings_ok (default_SWdata g)"
  using layout_ok_default [of g] by (simp add: settings_ok_def) (simp add: default_SWdata_def)

lemma new_settings_ok: "length g = 800 \<Longrightarrow> device_ok (new_settings g True s)"
  using settings_ok_default [of g]
  by (simp add: device_ok_def new_settings_def init_settings_def ssl_port_def Let_def eeprom.rd_wr settings_ok_layout)

lemma restore_default_ok: "env_ok E \<Longrightarrow> device_ok (restore_default E s)"
  by (simp add: restore_default_def env_ok_def new_settings_ok)

lemma collaborator_ok:
  assumes "env_ok E" "device_ok s"
  shows "device_ok (fst (e_loadKeys E s))" "device_ok (fst (e_uploadTransponder E a b s))"
  using assms by (auto simp: env_ok_def)

lemma fst_case_reply [simp]: "fst (case q of (s', r) \<Rightarrow> reply s' r) = fst q"
  by (simp add: split_beta)

lemma process_service_ok:
  "env_ok E \<Longrightarrow> device_ok s \<Longrightarrow> pred_option (\<lambda>q. device_ok (fst q)) (process_service E now s)"
  unfolding process_service_def
  by (intro pred_first_some)
     (simp add: pred_cmd_case relayOn_def relayOff_def start_update_ok collaborator_ok toBlackList_device_ok
        deleteKey_device_ok addKey_device_ok clearKeys_device_ok restore_default_ok device_ok_data
        device_ok_save device_ok_load device_okD server_flush_def server_send_ok_def)

lemma process_access_point_ok:
  "device_ok s \<Longrightarrow> pred_option (\<lambda>q. device_ok (fst q)) (process_access_point s)"
  unfolding process_access_point_def Let_def
  by (intro pred_first_some)
     (simp add: pred_scom_case device_ok_save_data settings_ok_text device_okD)

lemma process_keys_host_ok:
  "device_ok s \<Longrightarrow> pred_option (\<lambda>q. device_ok (fst q)) (process_keys_host E src html s)"
  unfolding process_keys_host_def Let_def
  by (intro pred_first_some)
     (simp add: pred_scom_case device_ok_save_data device_ok_save device_ok_data settings_ok_text device_okD
        loadStringMasterdata_ok split: source.split)

lemma process_remote_host_ok:
  "device_ok s \<Longrightarrow> pred_option (\<lambda>q. device_ok (fst q)) (process_remote_host s)"
  unfolding process_remote_host_def Let_def
  by (intro pred_first_some)
     (simp add: pred_scom_case device_ok_save_data settings_ok_text device_okD)

lemma process_ftp_ok:
  "env_ok E \<Longrightarrow> device_ok s \<Longrightarrow> pred_option (\<lambda>q. device_ok (fst q)) (process_ftp E s)"
  unfolding process_ftp_def Let_def
  by (intro pred_first_some)
     (simp add: pred_scom_case pred_cmd_case device_ok_save_data settings_ok_text device_okD collaborator_ok)

lemma process_keys_ok:
  "device_ok s \<Longrightarrow> pred_option (\<lambda>q. device_ok (fst q)) (process_keys E s)"
  unfolding process_keys_def Let_def
  by (intro pred_first_some)
     (simp add: pred_scom_case pred_cmd_case device_ok_save_data settings_ok_text device_okD start_key_upload_def
        Let_def)

lemmas groups_ok = process_service_ok process_access_point_ok process_keys_host_ok
  process_remote_host_ok process_ftp_ok process_keys_ok

lemma process_master_ok:
  assumes "env_ok E" "device_ok s"
  shows "device_ok (fst (process_master E now src html s))"
proof -
  have "pred_option (\<lambda>q. device_ok (fst q)) (first_some
     [process_service E now s, process_access_point s, process_keys_host E src html s,
      process_remote_host s, process_ftp E s, process_keys E s])"
    by (intro pred_first_some) (simp add: groups_ok assms)
  then show ?thesis using assms(2) by (auto simp: process_master_def split: option.split)
qed

lemma process_keyed_ok: "device_ok s \<Longrightarrow> pred_option (\<lambda>q. device_ok (fst q)) (process_keyed s)"
  unfolding process_keyed_def
  by (intro pred_first_some) (simp add: pred_cmd_case relayOn_def relayOff_def)

lemma process_device_ok:
  assumes "env_ok E" "device_ok s"
  shows "device_ok (fst (process E now src html s))"
proof (cases rule: process_cases [of E now src html s])
  case (replied u r)
  then show ?thesis using assms(2) no_command_device_ok [of u s] by simp
next
  case (keyed u q)
  then show ?thesis
    using assms(2) no_command_device_ok [of u s] process_keyed_ok [of u] by simp
next
  case (master u)
  then show ?thesis
    using assms no_command_device_ok [of u s] process_master_ok [of E u] by simp
qed

text \<open>So serving a client that sends a command is among the things an environment may do.\<close>

lemma env_ok_serving: "env_ok E \<Longrightarrow> env_ok (E\<lparr>e_handleClient := \<lambda>d. fst (process E now src html d)\<rparr>)"
  using process_device_ok [of E _ now src html] by (simp add: env_ok_def)

section \<open>What a setting command answers is in flash\<close>

definition saved_or_kept :: "device \<Rightarrow> device \<Rightarrow> bool" where
  "saved_or_kept s t \<longleftrightarrow>
     p_data t = p_data s \<and> eeprom t = eeprom s \<or> eeprom_get (eeprom t) = p_data t"

text \<open>The commands that change settings in RAM only, with what they change.\<close>

definition ram_only :: "string \<Rightarrow> SWdata \<Rightarrow> SWdata \<Rightarrow> bool" where
  "ram_only c d d' \<longleftrightarrow>
     c = ''disable_remote'' \<and> d' = d\<lparr>Eflag := Eflag d OR FNOREMOTE\<rparr> \<or>
     c = ''enable_remote'' \<and> d' = d\<lparr>Eflag := Eflag d AND NOT FNOREMOTE\<rparr> \<or>
     scom_any c [''keyshostip'', ''keysip''] = 2 \<and> (\<exists>ip. d' = d\<lparr>EhostIP := ip\<rparr>) \<or>
     scom_any c [''keyshostport'', ''keysport''] = 2 \<and> (\<exists>port. d' = d\<lparr>EhostPort := port\<rparr>)"

definition refused_masterdata :: "string \<Rightarrow> string outcome \<Rightarrow> bool" where
  "refused_masterdata c r \<longleftrightarrow> scom_any c [''masterdata''] = 2 \<and> r = Return msg_load_error"

definition settled :: "string \<Rightarrow> device \<Rightarrow> reply \<Rightarrow> bool" where
  "settled c s q \<longleftrightarrow>
     saved_or_kept s (fst q) \<or>
     eeprom (fst q) = eeprom s \<and> (ram_only c (p_data s) (p_data (fst q)) \<or> refused_masterdata c (snd q)) \<or>
     c \<in> {''rsttodef'', ''rst_default'', ''init''} \<and> snd q = Restart \<and>
       (\<exists>g. eeprom_get (eeprom (fst q)) = (default_SWdata g)\<lparr>Eflag := FSSL OR FNODEFAULT\<rparr>)"

lemma settled_saved: "saved_or_kept s t \<Longrightarrow> settled c s (reply t r)"
  by (simp add: settled_def reply_def)

lemma saved_same: "p_data t = p_data s \<Longrightarrow> eeprom t = eeprom s \<Longrightarrow> saved_or_kept s t"
  by (simp add: saved_or_kept_def)

lemma saved_all: "settings_ok (p_data t) \<Longrightarrow> saved_or_kept s (saveAllToEEPROM t)"
  by (simp add: saved_or_kept_def eeprom.rd_wr settings_ok_layout)

lemma saved_load: "saved_or_kept s (loadAllFromEEPROM t)"
  by (simp add: saved_or_kept_def loadAllFromEEPROM_def)

lemma saved_data: "settings_ok (f (p_data s)) \<Longrightarrow> saved_or_kept s (save_data f s)"
  by (simp add: saved_or_kept_def save_data_def eeprom.rd_wr settings_ok_layout)

lemma kept_same [simp]: "saved_or_kept s s" "saved_or_kept s (start_key_upload E s)"
  "saved_or_kept s (emit es (modConCntr v s))" "saved_or_kept s (relayOn s)" "saved_or_kept s (relayOff s)"
  "saved_or_kept s (server_flush (server_send_ok m s))"
  by (simp_all add: saved_or_kept_def start_key_upload_def Let_def emit_def modConCntr_def relayOn_def relayOff_def
      server_flush_def server_send_ok_def)

lemma settled_kept [simp]: "settled c s (reply s r)" "settled c s (restore_IP a s)"
  "settled c s (reply (start_key_upload E s) r)" "settled c s (reply (emit es (modConCntr v s)) r)"
  "settled c s (reply (relayOn s) r)" "settled c s (reply (relayOff s) r)"
  "settled c s (server_flush (server_send_ok m s), Restart)" "settled c s (s, Null_pointer)"
  by (auto simp: settled_def reply_def restore_IP_def saved_or_kept_def start_key_upload_def Let_def emit_def modConCntr_def
      relayOn_def relayOff_def server_flush_def server_send_ok_def split: prod.split)

text \<open>The key commands and the defaults.\<close>

lemma saved_key_change:
  assumes "device_ok s"
  shows "saved_or_kept s (fst (toBlackList k s))" "saved_or_kept s (fst (deleteKey k s))"
    "saved_or_kept s (fst (addKey k True s))" "saved_or_kept s (clearKeys s)"
  using toBlackList_device_ok [OF assms, of k] deleteKey_device_ok [OF assms, of k] addKey_device_ok [OF assms, of k True]
    clearKeys_device_ok [OF assms]
  by (auto simp: toBlackList_def deleteKey_def addKey_def clearKeys_def Let_def saved_or_kept_def eeprom.rd_wr
      device_ok_def settings_ok_layout split: option.splits)

lemma settled_restore_default:
  assumes "c \<in> {''rsttodef'', ''rst_default'', ''init''}" "length (e_garbage E) = 800"
  shows "settled c s (restore_default E s, Restart)"
proof -
  have "eeprom_get (eeprom (restore_default E s)) = (default_SWdata (e_garbage E))\<lparr>Eflag := FSSL OR FNODEFAULT\<rparr>"
    using settings_ok_default [OF assms(2)]
    by (simp add: restore_default_def new_settings_def init_settings_def Let_def eeprom.rd_wr settings_ok_layout)
       (simp add: default_SWdata_def)
  then show ?thesis using assms(1) by (auto simp: settled_def)
qed

lemma loadStringMasterdata_cases:
  obtains (kept) r where "loadStringMasterdata w args s = (s, r)"
  | (loaded) r where "loadStringMasterdata w args s = (loadAllFromEEPROM s, r)"
  | (refused) d where "loadStringMasterdata w args s = (s\<lparr>p_data := d\<rparr>, msg_load_error)"
  | (saved) t n err d u r where "load_loop t 1 0 0 False (p_data s) = Loaded d n err"
      "loadStringMasterdata w args s = (u, r)" "p_data u = p_data (saveAllToEEPROM (s\<lparr>p_data := d\<rparr>))"
      "eeprom u = eeprom (saveAllToEEPROM (s\<lparr>p_data := d\<rparr>))"
proof (cases "length args < 3 \<or> fst (args ! 2) \<noteq> ''DATA'' \<or> length (snd (args ! 2)) = 0")
  case True
  then have "fst (loadStringMasterdata w args s) = s" by (auto simp: loadStringMasterdata_def Let_def)
  then show thesis using kept by (metis prod.collapse)
next
  case False
  show thesis
  proof (cases "load_loop (snd (args ! 2)) 1 0 0 False (p_data s)")
    case Wrong_version
    then show thesis using False by (intro loaded) (simp add: loadStringMasterdata_def Let_def)
  next
    case (Loaded d n err)
    show thesis
    proof (cases "n < 21 \<or> err")
      case True
      then show thesis using False Loaded by (intro refused [of d]) (auto simp: loadStringMasterdata_def Let_def)
    next
      case go: False
      obtain u r where "loadStringMasterdata w args s = (u, r)" by fastforce
      moreover have "p_data (fst (loadStringMasterdata w args s)) = p_data (saveAllToEEPROM (s\<lparr>p_data := d\<rparr>))"
        "eeprom (fst (loadStringMasterdata w args s)) = eeprom (saveAllToEEPROM (s\<lparr>p_data := d\<rparr>))"
        using False Loaded go by (simp_all add: loadStringMasterdata_def Let_def emit_def modConCntr_def)
      ultimately show thesis using saved [OF Loaded] by simp
    qed
  qed
qed

lemma settled_masterdata:
  assumes "device_ok s" "scom_any c [''masterdata''] = 2"
  shows "settled c s (case loadStringMasterdata w args s of (t, r) \<Rightarrow> reply t r)"
proof (cases rule: loadStringMasterdata_cases [of w args s])
  case (refused d)
  then show ?thesis using assms(2) by (simp add: settled_def reply_def refused_masterdata_def)
next
  case (saved t n err d u r)
  have "settings_ok d" by (rule load_loop_ok [OF device_okD [OF assms(1)] saved(1)])
  then have "saved_or_kept s (saveAllToEEPROM (s\<lparr>p_data := d\<rparr>))" by (intro saved_all) simp
  then have "saved_or_kept s u" using saved(3,4) by (simp only: saved_or_kept_def)
  then show ?thesis using saved(2) by (simp add: settled_saved)
qed (simp_all add: settled_saved saved_load)

lemma settled_ram: "ram_only c (p_data s) d \<Longrightarrow> settled c s (reply (s\<lparr>p_data := d\<rparr>) r)"
  by (simp add: settled_def reply_def)

lemma ram_rules:
  "c = ''disable_remote'' \<Longrightarrow> settled c s (reply (s\<lparr>p_data := (p_data s)\<lparr>Eflag := Eflag (p_data s) OR FNOREMOTE\<rparr>\<rparr>) r)"
  "c = ''enable_remote'' \<Longrightarrow> settled c s (reply (s\<lparr>p_data := (p_data s)\<lparr>Eflag := Eflag (p_data s) AND NOT FNOREMOTE\<rparr>\<rparr>) r)"
  "scom_any c [''keyshostip'', ''keysip''] = 2 \<Longrightarrow> settled c s (reply (s\<lparr>p_data := (p_data s)\<lparr>EhostIP := ip\<rparr>\<rparr>) r)"
  "scom_any c [''keyshostport'', ''keysport''] = 2 \<Longrightarrow> settled c s (reply (s\<lparr>p_data := (p_data s)\<lparr>EhostPort := port\<rparr>\<rparr>) r)"
  by (rule settled_ram; auto simp: ram_only_def)+

lemma settled_flags:
  "device_ok s \<Longrightarrow> settled c s (reply (saveAllToEEPROM (if b then s\<lparr>p_data := (p_data s)\<lparr>Eflag := w\<rparr>\<rparr> else s)) r)"
  by (auto intro!: settled_saved saved_all simp: device_okD settings_ok_text)

text \<open>An entry of a group is taken for its own names only.\<close>

lemma taken_scom: "(scom_any (p_com s) names \<noteq> 0 \<Longrightarrow> P (act (scom_any (p_com s) names))) \<Longrightarrow> pred_option P (scom_case s names act)"
  by (simp add: scom_case_def Let_def)

lemma taken_cmd: "(p_cmd s \<in> set names \<Longrightarrow> P r) \<Longrightarrow> pred_option P (cmd_case s names r)"
  by (simp add: cmd_case_def)

lemmas settled_rules = pred_scom_case taken_cmd settled_saved saved_data saved_all saved_load saved_key_change
  settings_ok_text device_okD

lemma settled_access_point: "device_ok s \<Longrightarrow> pred_option (settled c s) (process_access_point s)"
  unfolding process_access_point_def Let_def by (intro pred_first_some) (simp add: settled_rules)

lemma settled_remote_host: "device_ok s \<Longrightarrow> pred_option (settled c s) (process_remote_host s)"
  unfolding process_remote_host_def Let_def by (intro pred_first_some) (simp add: settled_rules)

lemma settled_keys: "device_ok s \<Longrightarrow> pred_option (settled c s) (process_keys E s)"
  unfolding process_keys_def Let_def by (intro pred_first_some) (simp add: settled_rules)

text \<open>The commands that leave the device to others meanwhile: the update serves the web pages, the other two talk
  to remote hosts.\<close>

definition delegating :: "string \<Rightarrow> bool" where
  "delegating c \<longleftrightarrow>
     c \<in> {''update_firmware'', ''update'', ''ota'', ''loadfromhost'', ''loadkeys'', ''upload_transponder''}"

lemma settled_ftp: "device_ok s \<Longrightarrow> \<not> delegating (p_cmd s) \<Longrightarrow> pred_option (settled c s) (process_ftp E s)"
  unfolding process_ftp_def Let_def delegating_def
  by (intro pred_first_some) (simp add: pred_scom_case settled_saved saved_data settings_ok_text device_okD, simp add: cmd_case_def)

lemma settled_service:
  assumes "length (e_garbage E) = 800" "device_ok s" "\<not> delegating (p_cmd s)"
  shows "pred_option (settled (p_cmd s) s) (process_service E now s)"
proof -
  have key: "settled c s (case f of (t, r) \<Rightarrow> reply t r)" if "saved_or_kept s (fst f)" for f c
    using that by (simp add: split_beta settled_saved)
  note rules = key saved_key_change [OF assms(2)] settled_saved saved_all saved_load device_okD [OF assms(2)]
  show ?thesis
    unfolding process_service_def
    by (intro pred_first_some, simp only: list.pred_inject, intro conjI TrueI taken_cmd)
       (use assms(3) in \<open>simp_all add: rules delegating_def settled_restore_default assms(1) ram_rules\<close>)
qed

lemma settled_keys_host:
  assumes "device_ok s" "p_com s = p_cmd s"
  shows "pred_option (settled (p_cmd s) s) (process_keys_host E src html s)"
proof -
  note rules = settled_saved saved_data settings_ok_text device_okD [OF assms(1)]
  show ?thesis
    unfolding process_keys_host_def Let_def
    by (intro pred_first_some, simp only: list.pred_inject, intro conjI TrueI taken_scom)
       (use assms in \<open>simp_all add: rules settled_masterdata settled_flags ram_rules split: source.split\<close>)
qed

lemma settled_master:
  assumes "length (e_garbage E) = 800" "device_ok s" "p_com s = p_cmd s" "\<not> delegating (p_cmd s)"
  shows "settled (p_cmd s) s (process_master E now src html s)"
proof -
  have "pred_option (settled (p_cmd s) s) (first_some
     [process_service E now s, process_access_point s, process_keys_host E src html s,
      process_remote_host s, process_ftp E s, process_keys E s])"
    by (intro pred_first_some)
       (simp add: settled_service settled_access_point settled_keys_host settled_remote_host settled_ftp settled_keys assms)
  then show ?thesis by (auto simp: process_master_def split: option.split)
qed

lemma process_settled:
  assumes "length (e_garbage E) = 800" "device_ok s" "\<not> delegating (command_of src s)"
  shows "settled (command_of src s) s (process E now src html s)"
proof (cases rule: process_cases [of E now src html s])
  case (replied u r)
  then show ?thesis using no_command_eqD [of u s] by (simp add: settled_saved saved_same)
next
  case (keyed u q)
  have "saved_or_kept u (fst q)"
    using keyed(2) by (auto simp: process_keyed_def cmd_case_def saved_or_kept_def reply_def relayOn_def relayOff_def split: if_splits)
  then show ?thesis using keyed(1,3) no_command_eqD [of u s] by (simp add: settled_def saved_or_kept_def)
next
  case (master u)
  have "device_ok u" using assms(2) master(2) no_command_device_ok by blast
  then have "settled (p_cmd u) u (process_master E now src html u)"
    using assms(1,3) master(4,5) by (intro settled_master) simp_all
  then show ?thesis
    using master(1,4) no_command_eqD [OF master(2)] by (simp add: settled_def saved_or_kept_def)
qed


section \<open>Commands that miss their name\<close>

lemma scom_case_skip: "\<forall>c \<in> set names. scom (p_com s) c = 0 \<Longrightarrow> scom_case s names act = None"
  by (simp add: scom_case_def Let_def scom_any_Nil_iff)

lemma cmd_case_skip: "p_cmd s \<notin> set names \<Longrightarrow> cmd_case s names r = None"
  by (simp add: cmd_case_def)

text \<open>A group is skipped when its command names do not occur in the text.\<close>

lemma service_skip:
  assumes "p_cmd s \<notin> set [''on'', ''off'', ''update_firmware'', ''update'', ''ota'', ''disable_remote'',
    ''enable_remote'', ''loadfromhost'', ''loadkeys'', ''toblack'', ''toblacklist'', ''remove'', ''del'',
    ''deletekey'', ''add'', ''addkey'', ''clear'', ''clearkeys'', ''rsttodef'', ''rst_default'', ''init'',
    ''save_toflash'', ''save'', ''savetoeeprom'', ''load'', ''loadfromeeprom'', ''reset'']"
  shows "process_service E now s = None"
  using assms by (simp add: process_service_def cmd_case_def)

lemma keysip_clears_ap_ip:
  assumes "p_cmd s = ''keysip''" "p_com s = ''keysip''" "p_argv s = []"
  shows "process_master E now src html s =
    reply (save_data (\<lambda>d. d\<lparr>EAPIP := replicate 4 nul\<rparr>) s) ''ok.AP IP saved''"
proof -
  have "process_service E now s = None" by (rule service_skip) (simp add: assms)
  moreover have "store_IP_String [] = replicate 4 nul"
    by (simp add: store_IP_String_def ip_from_string_def numeral_eq_Suc char_of_def)
  ultimately show ?thesis
    using assms by (simp add: process_master_def process_access_point_def scom_case_def Let_def scom_spec)
qed

lemma keysport_clears_ap_port:
  assumes "p_cmd s = ''keysport''" "p_com s = ''keysport''" "p_argv s = []"
  shows "process_master E now src html s =
    reply (save_data (\<lambda>d. d\<lparr>EAPport := 0\<rparr>) s) ''ok.AP port saved''"
proof -
  have "process_service E now s = None" by (rule service_skip) (simp add: assms)
  moreover have "to_int [] = 0" by (simp add: to_int_def strtol_def scan_number_def digits_val_def int32_max_def)
  ultimately show ?thesis
    using assms by (simp add: process_master_def process_access_point_def scom_case_def Let_def scom_spec)
qed

lemma keyshost_clears_host:
  assumes "p_cmd s = ''keyshost''" "p_com s = ''keyshost''" "p_argv s = []"
  shows "process_master E now src html s =
    reply (save_data (\<lambda>d. d\<lparr>Ehost := replicate 256 nul\<rparr>) s) ''ok.keys hostname saved''"
proof -
  have "process_service E now s = None" by (rule service_skip) (simp add: assms)
  moreover have "text_arg s 256 = replicate 256 nul" using assms(3) by (simp add: text_arg_def store_String_def)
  ultimately show ?thesis
    using assms
    by (simp add: process_master_def process_access_point_def process_keys_host_def scom_case_def Let_def scom_spec)
qed

section \<open>A command with a key, over the web\<close>

definition web_device :: "string \<Rightarrow> string \<Rightarrow> device \<Rightarrow> device" where
  "web_device k c s = (no_command s)\<lparr>p_key := k, p_cmd := c, p_com := c\<rparr>"

lemma web_device_simps [simp]:
  "p_cmd (web_device k c s) = c" "p_com (web_device k c s) = c" "p_argv (web_device k c s) = []"
  "p_data (web_device k c s) = p_data s" "p_key (web_device k c s) = k"
  by (simp_all add: web_device_def no_command_def)

text \<open>The loop over the arguments strips a leading \<open>e\<close> from the command.\<close>

lemma process_web:
  assumes "k \<noteq> []" "c \<noteq> []" "to_lower (drop_e c) = c'" "c' \<noteq> ''get''" "c' \<noteq> ''set''"
    and "key_check (web_device k c' s) = ''ISMASTER''"
    and "process_public E ''ISMASTER'' (web_device k c' s) = None"
    and "process_keyed (web_device k c' s) = None"
  shows "process E now (From_server [(''key'', k), (''cmd'', c)]) html s =
         process_master E now (From_server [(''key'', k), (''cmd'', c)]) html (web_device k c' s)"
proof -
  have "to_lower ''key'' = ''key''" "to_lower ''cmd'' = ''cmd''"
    by (simp_all add: to_lower_def lower_char_def Let_def)
  then have r: "read_command (From_server [(''key'', k), (''cmd'', c)]) s =
      ((no_command s)\<lparr>p_key := k, p_cmd := drop_e c\<rparr>, None)"
    using assms(1,2) by (simp add: read_command_def read_arg_def Let_def)
  have u: "(no_command s)\<lparr>p_key := k, p_cmd := c', p_com := c'\<rparr> = web_device k c' s"
    by (simp add: web_device_def)
  have "key_check ((no_command s)\<lparr>p_key := k, p_cmd := c'\<rparr>) = key_check (web_device k c' s)"
    by (simp add: key_check_def web_device_def)
  then show ?thesis
    using assms(4-8) by (simp add: process_def r assms(3) Let_def u)
qed

lemma key_check_web: "key_check (web_device k c s) =
    (if Ekeys (p_data s) = 0 then ''ISMASTER'' else checkKey (p_data s) k)"
  by (simp add: key_check_def)

lemma web_keysip:
  assumes "k \<noteq> []" "Ekeys (p_data s) = 0 \<or> checkKey (p_data s) k = ''ISMASTER''"
  shows "p_data (fst (process E now (From_server [(''key'', k), (''cmd'', ''keysip'')]) html s)) =
         (p_data s)\<lparr>EAPIP := replicate 4 nul, Eflag := Eflag (p_data s) OR FNODEFAULT\<rparr>"
proof -
  have low: "to_lower (drop_e ''keysip'') = ''keysip''"
    by (simp add: to_lower_def lower_char_def Let_def drop_e_def char_at_def)
  have "process_public E ''ISMASTER'' (web_device k ''keysip'' s) = None"
    by (simp add: process_public_def Let_def scom_spec)
  moreover have "process_keyed (web_device k ''keysip'' s) = None"
    by (simp add: process_keyed_def cmd_case_def)
  moreover have "key_check (web_device k ''keysip'' s) = ''ISMASTER''"
    using assms(2) by (auto simp: key_check_web)
  ultimately have "process E now (From_server [(''key'', k), (''cmd'', ''keysip'')]) html s =
      process_master E now (From_server [(''key'', k), (''cmd'', ''keysip'')]) html (web_device k ''keysip'' s)"
    using low assms(1) by (intro process_web) simp_all
  then show ?thesis
    by (simp add: keysip_clears_ap_ip save_data_def)
qed

lemma web_enable_remote:
  assumes "k \<noteq> []" "Ekeys (p_data s) = 0 \<or> checkKey (p_data s) k = ''ISMASTER''"
  shows "process E now (From_server [(''key'', k), (''cmd'', ''enable_remote'')]) html s =
         reply (web_device k ''nable_remote'' s) ''error: UNKNOWN COMMAND nable_remote''"
proof -
  let ?u = "web_device k ''nable_remote'' s"
  have low: "to_lower (drop_e ''enable_remote'') = ''nable_remote''"
    by (simp add: to_lower_def lower_char_def Let_def drop_e_def char_at_def remove_at_def)
  have "process_public E ''ISMASTER'' ?u = None"
    by (simp add: process_public_def Let_def scom_spec)
  moreover have "process_keyed ?u = None"
    by (simp add: process_keyed_def cmd_case_def)
  moreover have "key_check ?u = ''ISMASTER''"
    using assms(2) by (auto simp: key_check_web)
  ultimately have "process E now (From_server [(''key'', k), (''cmd'', ''enable_remote'')]) html s =
      process_master E now (From_server [(''key'', k), (''cmd'', ''enable_remote'')]) html ?u"
    using low assms(1) by (intro process_web) simp_all
  moreover have "process_service E now ?u = None" by (rule service_skip) simp
  moreover have "process_access_point ?u = None"
    by (simp add: process_access_point_def scom_case_def Let_def scom_spec)
  moreover have "process_keys_host E src html ?u = None" for src
    by (simp add: process_keys_host_def scom_case_def Let_def scom_spec)
  moreover have "process_remote_host ?u = None"
    by (simp add: process_remote_host_def scom_case_def Let_def scom_spec)
  moreover have "process_ftp E ?u = None"
    by (simp add: process_ftp_def scom_case_def cmd_case_def Let_def scom_spec)
  moreover have "process_keys E ?u = None"
    by (simp add: process_keys_def scom_case_def cmd_case_def Let_def scom_spec)
  ultimately show ?thesis by (simp add: process_master_def)
qed

section \<open>The text of a remote command\<close>

lemma plus_Suc_fun: "(\<lambda>x. Suc (Suc (n + x))) = (+) (Suc (Suc n))"
  by auto

lemma strstr_assign:
  "CHR ''='' \<notin> set u \<Longrightarrow> CHR ''='' \<notin> set p \<Longrightarrow>
     strstr (u @ CHR ''='' # t) (p @ ''='') =
       (if ends_with u p then Some (length u - length p)
        else map_option ((+) (Suc (length u))) (strstr t (p @ ''='')))"
proof (induction u)
  case Nil
  have "(+) (Suc 0) = Suc" by auto
  then show ?case using Nil by (cases p) (auto simp: ends_with_def)
next
  case (Cons c u)
  have eq: "take (length (p @ ''='')) (c # u @ CHR ''='' # t) = p @ ''='' \<longleftrightarrow> p = c # u"
  proof
    assume *: "take (length (p @ ''='')) (c # u @ CHR ''='' # t) = p @ ''=''"
    show "p = c # u"
    proof (cases "length p \<le> length u")
      case True
      then have "take (length (p @ ''='')) (c # u @ CHR ''='' # t) = take (length p + 1) (c # u)" by simp
      then have "CHR ''='' \<in> set (take (length p + 1) (c # u))" using * by simp
      then have "CHR ''='' \<in> set (c # u)" by (rule in_set_takeD)
      then show ?thesis using Cons.prems(1) by simp
    next
      case False
      then have "take (length (c # u)) p = c # u"
        using arg_cong [OF *, of "take (length (c # u))"] by simp
      moreover have "length p \<le> length (c # u)"
      proof (rule ccontr)
        assume "\<not> length p \<le> length (c # u)"
        then have l: "length (c # u) < length p" by simp
        have "(take (length (p @ ''='')) (c # u @ CHR ''='' # t)) ! length (c # u) = CHR ''=''"
          using l by (simp add: nth_append)
        then have "p ! length (c # u) = CHR ''=''" using l unfolding * by (simp add: nth_append)
        then show False using Cons.prems(2) l nth_mem by metis
      qed
      ultimately show ?thesis by simp
    qed
  qed simp
  have ew: "ends_with (c # u) p \<longleftrightarrow> p = c # u \<or> ends_with u p"
  proof (cases "length p \<le> length u")
    case True
    then have "length (c # u) - length p = Suc (length u - length p)" by simp
    then show ?thesis using True by (auto simp: ends_with_def)
  next
    case False
    then show ?thesis by (cases "length p = Suc (length u)") (auto simp: ends_with_def)
  qed
  show ?case
  proof (cases "p = c # u")
    case True
    then show ?thesis by (simp add: ends_with_def)
  next
    case False
    have le: "ends_with u p \<Longrightarrow> length p \<le> length u" by (simp add: ends_with_def)
    have "strstr ((c # u) @ CHR ''='' # t) (p @ ''='') = map_option Suc (strstr (u @ CHR ''='' # t) (p @ ''=''))"
      using eq False by simp
    also have "\<dots> = (if ends_with u p then Some (Suc (length u - length p))
        else map_option ((+) (Suc (length (c # u)))) (strstr t (p @ ''='')))"
      using Cons by (simp add: option.map_comp comp_def plus_Suc_fun)
    finally show ?thesis using ew False le by (auto simp: Suc_diff_le plus_Suc_fun)
  qed
qed

lemma drop_prefix: "length p = n \<Longrightarrow> drop n (p @ q) = q"
  by simp

lemma argval_found:
  assumes n: "nul \<notin> set str" "nul \<notin> set arg"
    and f: "strstr str (arg @ ''='') = Some b"
    and d: "drop (b + length arg + 1) str = v @ w"
    and sep: "CHR '';'' \<notin> set (v @ w)" "CHR ''&'' \<notin> set v" "w = [] \<or> (\<exists>w'. w = CHR ''&'' # w')"
  shows "argval str arg = trim v"
proof -
  let ?b = "b + length arg + 1"
  have one: "index_of str (arg @ ''='') 0 = Some b"
    using n f by (simp add: index_of_0)
  have semi: "index_of str '';'' ?b = None"
    using n sep(1) d by (simp add: index_of_from strstr_char_notin)
  show ?thesis
  proof (cases "w = []")
    case True
    have "index_of str ''&'' ?b = None"
      using n sep(2) d True by (simp add: index_of_from strstr_char_notin)
    then show ?thesis
      using one semi d True by (simp add: get_argval_def Let_def first_separator_def str_simps)
  next
    case False
    then obtain w' where w: "w = CHR ''&'' # w'" using sep(3) by blast
    have "length (drop ?b str) = length v + length w" by (simp only: d length_append)
    then have len: "?b + length v + length w = length str" using w by simp
    have "strstr (v @ w) ''&'' = Some (length v)"
      using sep(2) strstr_skip [of "CHR ''&''" v w "[]"] w by simp
    then have amp: "index_of str ''&'' ?b = Some (?b + length v)"
      using n d w len by (simp add: index_of_from)
    have "substring str ?b (?b + length v) = v"
      using d len by (simp add: str_simps)
    then show ?thesis
      using one semi amp by (simp add: get_argval_def Let_def first_separator_def)
  qed
qed

lemma argval_missing:
  "nul \<notin> set str \<Longrightarrow> nul \<notin> set arg \<Longrightarrow> strstr str (arg @ ''='') = None \<Longrightarrow> arg \<noteq> ''cmd'' \<Longrightarrow> arg \<noteq> ''c'' \<Longrightarrow>
     argval str arg = []"
  by (simp add: get_argval_def index_of_0)

text \<open>The text of a value: no separator, no \<open>=\<close>, nothing that is trimmed or unescaped.\<close>

definition plain_value :: "string \<Rightarrow> bool" where
  "plain_value v \<longleftrightarrow> (\<forall>c \<in> set v. c \<noteq> nul \<and> \<not> is_space c \<and> c \<noteq> CHR ''='' \<and> c \<noteq> CHR ''&'' \<and> c \<noteq> CHR '';'' \<and> c \<noteq> CHR ''%'')"

lemma plain_valueD:
  "plain_value v \<Longrightarrow> nul \<notin> set v" "plain_value v \<Longrightarrow> CHR ''='' \<notin> set v" "plain_value v \<Longrightarrow> CHR ''&'' \<notin> set v"
  "plain_value v \<Longrightarrow> CHR '';'' \<notin> set v" "plain_value v \<Longrightarrow> CHR ''%'' \<notin> set v" "plain_value v \<Longrightarrow> trim v = v"
  by (auto simp: plain_value_def intro!: trim_id)

lemma strstr_no_eq: "CHR ''='' \<notin> set s \<Longrightarrow> strstr s (p @ ''='') = None"
proof (induction s)
  case (Cons a s)
  have "take (length (p @ ''='')) (a # s) \<noteq> p @ ''=''"
  proof
    assume "take (length (p @ ''='')) (a # s) = p @ ''=''"
    then have "CHR ''='' \<in> set (take (length (p @ ''='')) (a # s))" by simp
    then show False using Cons.prems in_set_takeD by metis
  qed
  then show ?case using Cons by simp
qed simp

lemma remote_text:
  assumes k: "plain_value k" and c: "plain_value c" and a: "plain_value a"
  defines "r \<equiv> ''key='' @ k @ ''&cmd='' @ c @ ''&arg='' @ a"
  shows "nul \<notin> set r" "argval r ''key'' = k" "argval r ''cmd'' = c" "argval r ''arg'' = a" "argval r ''ext'' = []"
proof -
  note K = plain_valueD [OF k] and C = plain_valueD [OF c] and A = plain_valueD [OF a]
  show n: "nul \<notin> set r" using K(1) C(1) A(1) by (simp add: r_def)
  have semi: "CHR '';'' \<notin> set r" using K(4) C(4) A(4) by (simp add: r_def)
  have shape: "r = ''key'' @ CHR ''='' # ((k @ ''&cmd'') @ CHR ''='' # ((c @ ''&arg'') @ CHR ''='' # a))"
    by (simp add: r_def)
  have e: "CHR ''='' \<notin> set (k @ ''&cmd'')" "CHR ''='' \<notin> set (c @ ''&arg'')" "CHR ''='' \<notin> set ''key''"
    using K C by auto
  have find: "strstr r (p @ ''='') =
      (if ends_with ''key'' p then Some (3 - length p)
       else map_option ((+) 4) (if ends_with ''&cmd'' p then Some (length k + 4 - length p)
            else map_option ((+) (length k + 5)) (if ends_with ''&arg'' p then Some (length c + 4 - length p) else None)))"
    if "CHR ''='' \<notin> set p" "length p = 3" for p
  proof -
    have "ends_with (k @ ''&cmd'') p = ends_with ''&cmd'' p" "ends_with (c @ ''&arg'') p = ends_with ''&arg'' p"
      using that(2) by (auto simp: ends_with_def)
    then show ?thesis
      unfolding shape strstr_assign [OF e(3) that(1)] strstr_assign [OF e(1) that(1)] strstr_assign [OF e(2) that(1)]
      using strstr_no_eq [OF A(2)] by (simp add: numeral_eq_Suc)
  qed
  have d: "drop (0 + length ''key'' + 1) r = k @ ''&cmd='' @ c @ ''&arg='' @ a"
    "drop (length k + 5 + length ''cmd'' + 1) r = c @ ''&arg='' @ a"
    "drop (length k + length c + 10 + length ''arg'' + 1) r = a @ []"
    using drop_prefix [of "''key='' @ k @ ''&cmd=''" "length k + 9" "c @ ''&arg='' @ a"]
      drop_prefix [of "''key='' @ k @ ''&cmd='' @ c @ ''&arg=''" "length k + length c + 14" a]
    by (simp_all add: r_def ac_simps)
  have f: "strstr r (''key'' @ ''='') = Some 0" "strstr r (''cmd'' @ ''='') = Some (length k + 5)"
    "strstr r (''arg'' @ ''='') = Some (length k + length c + 10)" "strstr r (''ext'' @ ''='') = None"
    using find [of "''key''"] find [of "''cmd''"] find [of "''arg''"] find [of "''ext''"]
    by (simp_all add: ends_with_def)
  have "argval r ''key'' = trim k"
    by (rule argval_found [OF n _ f(1) d(1)]) (use K C A in simp_all)
  then show "argval r ''key'' = k" using K by simp
  have "argval r ''cmd'' = trim c"
    by (rule argval_found [OF n _ f(2) d(2)]) (use K C A in simp_all)
  then show "argval r ''cmd'' = c" using C by simp
  have "argval r ''arg'' = trim a"
    by (rule argval_found [OF n _ f(3) d(3)]) (use K C A in simp_all)
  then show "argval r ''arg'' = a" using A by simp
  show "argval r ''ext'' = []"
    by (rule argval_missing [OF n _ f(4)]) simp_all
qed

lemma read_remote_text:
  assumes k: "plain_value k" and c: "plain_value c" and a: "plain_value a" "a \<noteq> []"
  shows "read_remote (''key='' @ k @ ''&cmd='' @ c @ ''&arg='' @ a) s =
         s\<lparr>p_cmd := c, p_key := k, p_argv := a, p_ext := []\<rparr>"
proof -
  let ?r = "''key='' @ k @ ''&cmd='' @ c @ ''&arg='' @ a"
  have "CHR ''%'' \<notin> set ?r" using plain_valueD(5) [OF k] plain_valueD(5) [OF c] plain_valueD(5) [OF a(1)] by simp
  then have r: "str_replace (str_replace ?r ''%26'' ''&'') ''%3D'' ''='' = ?r"
    by (simp add: str_replace_notin)
  show ?thesis
    unfolding read_remote_def r Let_def remote_text(2-5) [OF k c a(1)] using a(2) by simp
qed

section \<open>Properties\<close>

text \<open>An environment in which nothing happens, and a device with one key, for the examples.\<close>

definition idle_env :: env where
  "idle_env =
     \<lparr>e_logo = [], e_upload_html = [], e_post_html = [], e_mac = replicate 6 0, e_wl_connected = False,
      e_garbage = replicate 800 nul, e_clock = [], e_handleClient = (\<lambda>s. s),
      e_loadKeys = (\<lambda>s. (s, [])), e_uploadTransponder = (\<lambda>_ _ s. (s, []))\<rparr>"

lemma idle_env_ok: "env_ok idle_env"
  by (simp add: env_ok_def idle_env_def)

definition fresh_device :: device where
  "fresh_device = initial_device (replicate 800 nul) (eeprom_put (default_SWdata (replicate 800 nul)) [])"

definition guest_device :: device where
  "guest_device = store_add ''guest'' fresh_device"

lemma fresh_device_data: "p_data fresh_device = default_SWdata (replicate 800 nul)"
  by (simp add: fresh_device_def initial_device_def)

lemma fresh_device_ok: "device_ok fresh_device"
  using settings_ok_default [of "replicate 800 nul"]
  by (simp add: device_ok_def fresh_device_def initial_device_def eeprom.rd_wr settings_ok_layout)

lemma guest_device_map: "keys_ok (p_data guest_device)" "key_map (p_data guest_device) = [''guest'' \<mapsto> False]"
proof -
  have ok: "keys_ok (p_data fresh_device)" "plain_key ''guest''"
    by (simp_all add: fresh_device_data keys_ok_default plain_key_def)
  show "keys_ok (p_data guest_device)" unfolding guest_device_def by (rule addKey_map(2) [OF ok])
  show "key_map (p_data guest_device) = [''guest'' \<mapsto> False]"
    unfolding guest_device_def addKey_map(1) [OF ok] by (simp add: fresh_device_data key_map_default)
qed

lemma guest_device_keys: "Ekeys (p_data guest_device) \<noteq> 0"
  using card_dom_key_map [OF guest_device_map(1)] by (auto simp: guest_device_map(2))

lemma guest_device_master:
  "is_master (p_data guest_device) k \<longleftrightarrow> k = ''RvSc0dE'' \<or> k = ''Zhi4E3r''"
proof -
  have "is_master (p_data guest_device) k = is_master (p_data fresh_device) k"
    using master_keys_kept [of "Add ''guest''" fresh_device k] by (simp add: guest_device_def)
  then show ?thesis
    by (auto simp: fresh_device_data is_master_def default_SWdata_def char_array_def cstr_def)
qed

lemma read_web:
  assumes "k \<noteq> []" "c \<noteq> []"
  shows "read_command (From_server [(''key'', k), (''cmd'', c)]) s =
         ((no_command s)\<lparr>p_key := k, p_cmd := drop_e c\<rparr>, None)"
proof -
  have "to_lower ''key'' = ''key''" "to_lower ''cmd'' = ''cmd''"
    by (simp_all add: to_lower_def lower_char_def Let_def)
  then show ?thesis using assms by (simp add: read_command_def read_arg_def Let_def)
qed

lemma checked_web:
  "k \<noteq> [] \<Longrightarrow> c \<noteq> [] \<Longrightarrow> checked (From_server [(''key'', k), (''cmd'', c)]) s =
     (if Ekeys (p_data s) = 0 then ''ISMASTER'' else checkKey (p_data s) k)"
  by (simp add: checked_def parsed_def read_web key_check_def no_command_def)

text \<open>C1. A command whose key is neither a master key nor an accepted one changes nothing: settings,
  flash, relay, outputs and every other part of the device are as before, only the parts of the
  command itself are replaced.\<close>

theorem refused_key_changes_nothing:
  assumes "checked src s \<noteq> ''ISMASTER''" "checked src s \<noteq> ''FOUND''"
  shows "no_command (fst (process E now src html s)) = no_command s"
  using assms by (rule process_refused)

theorem refused_key_changes_nothing_witness:
  "no_command (fst (process idle_env 0 (From_server [(''key'', ''burglar''), (''cmd'', ''open'')]) False guest_device)) =
   no_command guest_device"
  by (rule refused_key_changes_nothing)
     (simp_all add: checked_web guest_device_keys checkKey_spec guest_device_map guest_device_master)

text \<open>C2. A command with an ordinary key can change the relay and the time of its last opening, nothing
  else; with the service disabled it changes nothing.\<close>

theorem ordinary_key_moves_relay_only:
  assumes "checked src s \<noteq> ''ISMASTER''"
  shows "no_command (relay_as s (fst (process E now src html s))) = no_command s \<and>
         (has_flag (p_data s) FNOSERVICE \<longrightarrow> no_command (fst (process E now src html s)) = no_command s)"
  using assms by (rule process_ordinary)

theorem ordinary_key_moves_relay_only_witness:
  "no_command (relay_as guest_device
      (fst (process idle_env 0 (From_server [(''key'', ''guest''), (''cmd'', ''open'')]) False guest_device))) =
   no_command guest_device"
  by (rule ordinary_key_moves_relay_only [THEN conjunct1])
     (simp add: checked_web guest_device_keys checkKey_spec guest_device_map guest_device_master)



text \<open>C4. A text is taken for a command exactly when it ends in its name, the name does not occur
  earlier, and nothing, one character or four characters come before: \<open>get_\<close> reads, any other
  prefix of these lengths writes.\<close>

theorem command_recognition:
  assumes "nul \<notin> set com" "nul \<notin> set c" "c \<noteq> []"
  shows "scom com c =
    (case strstr com c of
       None \<Rightarrow> 0
     | Some p \<Rightarrow>
         if p + length c \<noteq> length com then 0
         else if p = 0 \<or> (p = 4 \<and> take 4 com = ''get_'') then 1
         else if p = 4 \<or> p = 1 then 2 else 0)"
  using assms by (rule scom_spec)

theorem command_recognition_witness: "scom ''set_relay'' ''relay'' = 2"
  by (subst command_recognition) simp_all

text \<open>C5. The text of a remote command gives back the key, the command and the argument it was
  made of.\<close>

theorem remote_command_round_trip:
  assumes "plain_value k" "plain_value c" "plain_value a" "a \<noteq> []"
  shows "read_command (From_remote (''key='' @ k @ ''&cmd='' @ c @ ''&arg='' @ a)) s =
         ((no_command s)\<lparr>p_cmd := c, p_key := k, p_argv := a, p_ext := []\<rparr>, None)"
  unfolding read_command_def Let_def source.case using read_remote_text [OF assms] by simp

theorem remote_command_round_trip_witness:
  "read_command (From_remote ''key=Zhi4E3r&cmd=add&arg=guest'') fresh_device =
   ((no_command fresh_device)\<lparr>p_cmd := ''add'', p_key := ''Zhi4E3r'', p_argv := ''guest'', p_ext := []\<rparr>, None)"
  using remote_command_round_trip [of "''Zhi4E3r''" "''add''" "''guest''" fresh_device]
  by (simp add: plain_value_def is_space_def)

text \<open>The command \<open>enable_remote\<close> cannot be given over the web: the leading \<open>e\<close> is cut off as if it
  were that of a member name, and the answer is an unknown command.\<close>

lemma enable_remote_unknown_over_web:
  assumes "k \<noteq> []" "Ekeys (p_data s) = 0 \<or> checkKey (p_data s) k = ''ISMASTER''"
  shows "process E now (From_server [(''key'', k), (''cmd'', ''enable_remote'')]) html s =
         reply (web_device k ''nable_remote'' s) ''error: UNKNOWN COMMAND nable_remote''"
  using assms by (rule web_enable_remote)

end
