(* ===== verification/Button_Scan.thy ===== *)
theory Button_Scan
  imports Device
begin

text \<open>
  The timer interrupt \<open>scan_keys\<close> of \<open>WSKey32.ino\<close>, called every 10 ms: the connection counter
  and its blinking, the watchdog \<open>antilock\<close>, the two buttons and the relay's closing time.
  Levels are truth values, \<open>True\<close> for HIGH; the buttons are active LOW, the LEDs active HIGH.
\<close>

section \<open>The interrupt\<close>

record scanner = device +
  ledFlashMs :: u32
  ledOffTimeMs :: u32
  hrst_tms :: u32
  s_bl :: int
  s_cl :: int
  s_bp :: int

definition ledFlashOnMs :: u32 where "ledFlashOnMs = 30"
definition ledFlashIntervalMs :: u32 where "ledFlashIntervalMs = 1500"
definition antilock_timeoutMs :: int where "antilock_timeoutMs = 20000"

text \<open>The counter while a connection is awaited (from 0 up) or paused (below -1000, down).\<close>

definition count_connection :: "int \<Rightarrow> int" where
  "count_connection bcon = (if 0 \<le> bcon then bcon + 10 else if bcon < -1000 then bcon - 10 else bcon)"

definition blink_on :: "int \<Rightarrow> scanner \<Rightarrow> scanner" where
  "blink_on bcon s =
     (if 0 < s_bl s then
        (let s1 = (if bcon < -1000 then s\<lparr>ledState0 := True\<rparr> else s\<lparr>ledState1 := True\<rparr>);
             bl = s_bl s1 + 10
         in s1\<lparr>s_bl := (if 60 \<le> bl then -10 else bl)\<rparr>)
      else s)"

definition blink_off :: "int \<Rightarrow> scanner \<Rightarrow> scanner" where
  "blink_off bcon s =
     (if s_bl s < 0 then
        (let s1 = (if bcon < -1000 then s\<lparr>ledState0 := False\<rparr> else s\<lparr>ledState1 := False\<rparr>);
             bl = s_bl s1 - 10
         in if bl < -150
            then (if 3 \<le> s_cl s1 + 1 then s1\<lparr>s_bl := 0, s_cl := s_cl s1 + 1, s_bp := 0\<rparr>
                  else s1\<lparr>s_bl := 10, s_cl := s_cl s1 + 1\<rparr>)
            else s1\<lparr>s_bl := bl\<rparr>)
      else s)"

definition blink_pause :: "scanner \<Rightarrow> scanner" where
  "blink_pause s =
     (if s_bl s = 0 then
        (let bp = s_bp s + 10
         in if 1000 < bp then s\<lparr>s_bp := bp, s_cl := 0, s_bl := 10\<rparr> else s\<lparr>s_bp := bp\<rparr>)
      else s)"

definition scan_connection :: "scanner \<Rightarrow> scanner" where
  "scan_connection s =
     (if has_flag (p_data s) FNOREMOTE then s
      else
        let bcon = count_connection (conAPcntr s);
            s1 = (if bcon < -1000 \<or> 0 \<le> bcon then blink_pause (blink_off bcon (blink_on bcon s)) else s)
        in s1\<lparr>conAPcntr := bcon\<rparr>)"

text \<open>The watchdog: the answer is whether the device is restarted.\<close>

definition scan_antilock :: "scanner \<Rightarrow> scanner \<times> bool" where
  "scan_antilock s =
     (if \<not> has_flag (p_data s) FNOANTILOCK \<and> 0 \<le> antilock s then
        (if antilock_timeoutMs \<le> antilock s + 10 then (s\<lparr>antilock := 0\<rparr>, True)
         else (s\<lparr>antilock := antilock s + 10\<rparr>, False))
      else (s, False))"

text \<open>
  The hard-reset button: \<open>if (pressed && (hrst_tms += 10) >= 2000) rst_mode = 2; else hrst_tms = 0;\<close>
\<close>

definition scan_hard_button :: "bool \<Rightarrow> scanner \<Rightarrow> scanner" where
  "scan_hard_button hard_level s =
     (if \<not> hard_level then
        (let t = hrst_tms s + 10
         in if 2000 \<le> t then s\<lparr>hrst_tms := t, rst_mode := 2\<rparr> else s\<lparr>hrst_tms := 0\<rparr>)
      else s\<lparr>hrst_tms := 0\<rparr>)"

definition scan_pressed :: "scanner \<Rightarrow> scanner" where
  "scan_pressed s =
     (let s1 = s\<lparr>relayMillis := interval_10ms s\<rparr>
      in if EresetInterval (p_data s) \<le> interval_10ms s - swMillis s then s1\<lparr>rst_mode := 1\<rparr> else s1)"

definition scan_flash :: "int \<Rightarrow> scanner \<Rightarrow> scanner" where
  "scan_flash bcon s =
     (if bcon = -1000 \<and> ledOffTimeMs s + ledFlashIntervalMs \<le> interval_10ms s then
        (if \<not> ledState0 s then s\<lparr>ledState0 := True, ledFlashMs := interval_10ms s\<rparr>
         else if ledFlashMs s + ledFlashOnMs \<le> interval_10ms s
              then s\<lparr>ledState0 := False, ledOffTimeMs := interval_10ms s\<rparr>
         else s)
      else s)"

definition scan_relay :: "scanner \<Rightarrow> scanner" where
  "scan_relay s =
     (if relayState s then
        (if relayMillis s + ErelayInterval (p_data s) \<le> interval_10ms s
         then s\<lparr>relayMillis := interval_10ms s, relayState := False\<rparr> else s)
      else s\<lparr>relayMillis := interval_10ms s\<rparr>)"

definition scan_released :: "int \<Rightarrow> scanner \<Rightarrow> scanner" where
  "scan_released bcon s =
     (let s1 = scan_flash bcon s in scan_relay (s1\<lparr>swMillis := interval_10ms s1\<rparr>))"

definition scan_button :: "int \<Rightarrow> bool \<Rightarrow> scanner \<Rightarrow> scanner" where
  "scan_button bcon inState s =
     (let s0 = (if ledState1 s \<and> ledTimeMs1 s + ledFlashOnMs < interval_10ms s then s\<lparr>ledState1 := False\<rparr> else s)
      in if inState \<noteq> swState s0 then
           (let s1 = s0\<lparr>swState := inState, swMillis := interval_10ms s0, ledState0 := \<not> inState\<rparr>
            in if \<not> inState then s1\<lparr>relayState := True, relayMillis := interval_10ms s1\<rparr> else s1)
         else if \<not> swState s0 then scan_pressed s0
         else scan_released bcon s0)"

definition scan_keys :: "bool \<Rightarrow> bool \<Rightarrow> scanner \<Rightarrow> scanner \<times> unit outcome" where
  "scan_keys hard_level soft_level s =
     (let s1 = scan_connection (s\<lparr>interval_10ms := interval_10ms s + 10\<rparr>);
          bcon = (if has_flag (p_data s1) FNOREMOTE then conAPcntr s else conAPcntr s1);
          (s2, restart) = scan_antilock s1
      in if restart then (s2, Restart)
         else
           let s3 = scan_hard_button hard_level s2
           in if rst_mode s3 \<noteq> 0 then (s3, Return ()) else (scan_button bcon soft_level s3, Return ()))"

text \<open>A run of ticks with the levels of the two buttons at each; it stops at a restart.\<close>

fun scan_run :: "(bool \<times> bool) list \<Rightarrow> scanner \<Rightarrow> scanner \<times> unit outcome" where
  "scan_run [] s = (s, Return ())"
| "scan_run ((h, b) # ts) s =
     (case scan_keys h b s of (s', Return _) \<Rightarrow> scan_run ts s' | (s', r) \<Rightarrow> (s', r))"

section \<open>What the parts leave alone\<close>

lemma blink_frame [frame_simps]:
  "p_data (blink_on c s) = p_data s" "p_data (blink_off c s) = p_data s" "p_data (blink_pause s) = p_data s"
  "relayState (blink_on c s) = relayState s" "relayState (blink_off c s) = relayState s"
  "relayState (blink_pause s) = relayState s" "relayMillis (blink_on c s) = relayMillis s"
  "relayMillis (blink_off c s) = relayMillis s" "relayMillis (blink_pause s) = relayMillis s"
  "interval_10ms (blink_on c s) = interval_10ms s" "interval_10ms (blink_off c s) = interval_10ms s"
  "interval_10ms (blink_pause s) = interval_10ms s" "swState (blink_on c s) = swState s"
  "swState (blink_off c s) = swState s" "swState (blink_pause s) = swState s"
  "swMillis (blink_on c s) = swMillis s" "swMillis (blink_off c s) = swMillis s" "swMillis (blink_pause s) = swMillis s"
  "hrst_tms (blink_on c s) = hrst_tms s" "hrst_tms (blink_off c s) = hrst_tms s" "hrst_tms (blink_pause s) = hrst_tms s"
  "rst_mode (blink_on c s) = rst_mode s" "rst_mode (blink_off c s) = rst_mode s" "rst_mode (blink_pause s) = rst_mode s"
  "antilock (blink_on c s) = antilock s" "antilock (blink_off c s) = antilock s" "antilock (blink_pause s) = antilock s"
  by (simp_all add: blink_on_def blink_off_def blink_pause_def Let_def)

lemma scan_connection_frame [frame_simps]:
  "p_data (scan_connection s) = p_data s" "relayState (scan_connection s) = relayState s"
  "relayMillis (scan_connection s) = relayMillis s" "interval_10ms (scan_connection s) = interval_10ms s"
  "swState (scan_connection s) = swState s" "swMillis (scan_connection s) = swMillis s"
  "hrst_tms (scan_connection s) = hrst_tms s" "rst_mode (scan_connection s) = rst_mode s"
  "antilock (scan_connection s) = antilock s"
  by (simp_all add: scan_connection_def Let_def frame_simps)

lemma scan_antilock_frame [frame_simps]:
  "p_data (fst (scan_antilock s)) = p_data s" "relayState (fst (scan_antilock s)) = relayState s"
  "relayMillis (fst (scan_antilock s)) = relayMillis s" "interval_10ms (fst (scan_antilock s)) = interval_10ms s"
  "swState (fst (scan_antilock s)) = swState s" "swMillis (fst (scan_antilock s)) = swMillis s"
  "hrst_tms (fst (scan_antilock s)) = hrst_tms s" "rst_mode (fst (scan_antilock s)) = rst_mode s"
  by (simp_all add: scan_antilock_def)

lemma scan_flash_frame [frame_simps]:
  "p_data (scan_flash c s) = p_data s" "relayState (scan_flash c s) = relayState s"
  "relayMillis (scan_flash c s) = relayMillis s" "interval_10ms (scan_flash c s) = interval_10ms s"
  "swState (scan_flash c s) = swState s" "antilock (scan_flash c s) = antilock s"
  "hrst_tms (scan_flash c s) = hrst_tms s" "rst_mode (scan_flash c s) = rst_mode s"
  by (simp_all add: scan_flash_def)

text \<open>The first half of a tick: clock, connection counter and watchdog.\<close>

definition ticked :: "scanner \<Rightarrow> scanner" where
  "ticked s = fst (scan_antilock (scan_connection (s\<lparr>interval_10ms := interval_10ms s + 10\<rparr>)))"

definition overdue :: "scanner \<Rightarrow> bool" where
  "overdue s \<longleftrightarrow> \<not> has_flag (p_data s) FNOANTILOCK \<and> 0 \<le> antilock s \<and> antilock_timeoutMs \<le> antilock s + 10"

definition bcon_of :: "scanner \<Rightarrow> int" where
  "bcon_of s = (if has_flag (p_data s) FNOREMOTE then conAPcntr s else count_connection (conAPcntr s))"

lemma ticked_frame [frame_simps]:
  "p_data (ticked s) = p_data s" "relayState (ticked s) = relayState s" "relayMillis (ticked s) = relayMillis s"
  "interval_10ms (ticked s) = interval_10ms s + 10" "swState (ticked s) = swState s"
  "swMillis (ticked s) = swMillis s" "hrst_tms (ticked s) = hrst_tms s" "rst_mode (ticked s) = rst_mode s"
  by (simp_all add: ticked_def frame_simps)

lemma antilock_ticked:
  "antilock (ticked s) =
     (if has_flag (p_data s) FNOANTILOCK \<or> antilock s < 0 then antilock s
      else if overdue s then 0 else antilock s + 10)"
  by (simp add: ticked_def scan_antilock_def overdue_def frame_simps not_le)

lemma scan_keys_eq:
  "scan_keys h b s =
     (if overdue s then (ticked s, Restart)
      else if rst_mode (scan_hard_button h (ticked s)) \<noteq> 0 then (scan_hard_button h (ticked s), Return ())
      else (scan_button (bcon_of s) b (scan_hard_button h (ticked s)), Return ()))"
proof -
  let ?s1 = "scan_connection (s\<lparr>interval_10ms := interval_10ms s + 10\<rparr>)"
  have "snd (scan_antilock ?s1) = overdue s"
    by (simp add: scan_antilock_def overdue_def frame_simps)
  moreover have "(if has_flag (p_data ?s1) FNOREMOTE then conAPcntr s else conAPcntr ?s1) = bcon_of s"
    by (simp add: bcon_of_def frame_simps) (simp add: scan_connection_def Let_def)
  ultimately show ?thesis
    by (simp only: scan_keys_def Let_def split_beta ticked_def)
qed

section \<open>The hard-reset button\<close>

text \<open>
  The counter is cleared whenever its condition is false, also while it counts: it never gets
  past one tick.
\<close>

definition no_hard_reset :: "scanner \<Rightarrow> bool" where
  "no_hard_reset s \<longleftrightarrow> hrst_tms s = 0 \<and> rst_mode s \<noteq> 2"

lemma scan_hard_button_stuck:
  "hrst_tms s = 0 \<Longrightarrow> scan_hard_button h s = s\<lparr>hrst_tms := 0\<rparr>"
  by (simp add: scan_hard_button_def Let_def)

lemma scan_button_hrst: "hrst_tms (scan_button c b s) = hrst_tms s"
  by (simp add: scan_button_def scan_pressed_def scan_released_def scan_relay_def Let_def frame_simps)

lemma scan_button_rst: "rst_mode s = 0 \<Longrightarrow> rst_mode (scan_button c b s) \<noteq> 2"
  by (simp add: scan_button_def scan_pressed_def scan_released_def scan_relay_def Let_def frame_simps)

lemma scan_keys_no_hard_reset: "no_hard_reset s \<Longrightarrow> no_hard_reset (fst (scan_keys h b s))"
  by (simp add: no_hard_reset_def scan_keys_eq scan_hard_button_stuck frame_simps scan_button_hrst scan_button_rst)

lemma scan_run_no_hard_reset: "no_hard_reset s \<Longrightarrow> no_hard_reset (fst (scan_run ts s))"
proof (induction ts s rule: scan_run.induct)
  case (2 h b ts s)
  obtain s' r where r: "scan_keys h b s = (s', r)" by (cases "scan_keys h b s")
  have "no_hard_reset s'" using scan_keys_no_hard_reset [OF 2(2), of h b] r by simp
  then show ?case using 2(1) [OF r [symmetric]] r by (cases r) auto
qed simp

section \<open>The watchdog's counter\<close>

text \<open>The watchdog stays quiet for \<open>m\<close> more ticks, even if the main loop does not clear its counter.\<close>

definition watchdog_idle :: "nat \<Rightarrow> scanner \<Rightarrow> bool" where
  "watchdog_idle m s \<longleftrightarrow>
     has_flag (p_data s) FNOANTILOCK \<or> antilock s < 0 \<or> antilock s + 10 * int m < antilock_timeoutMs"

lemma idle_not_overdue: "watchdog_idle (Suc m) s \<Longrightarrow> \<not> overdue s"
  by (auto simp: watchdog_idle_def overdue_def)

lemma scan_button_antilock [frame_simps]: "antilock (scan_button c b s) = antilock s" "p_data (scan_button c b s) = p_data s"
  by (simp_all add: scan_button_def scan_pressed_def scan_released_def scan_relay_def Let_def frame_simps)

lemma scan_keys_idle:
  assumes "watchdog_idle (Suc m) s" "hrst_tms s = 0"
  shows "snd (scan_keys h b s) = Return ()" "watchdog_idle m (fst (scan_keys h b s))"
    "p_data (fst (scan_keys h b s)) = p_data s" "hrst_tms (fst (scan_keys h b s)) = 0"
proof -
  note idle_not_overdue [OF assms(1)]
  then show "snd (scan_keys h b s) = Return ()" "p_data (fst (scan_keys h b s)) = p_data s"
      "hrst_tms (fst (scan_keys h b s)) = 0"
    using assms(2) by (simp_all add: scan_keys_eq scan_hard_button_stuck scan_button_hrst frame_simps)
  have "antilock (fst (scan_keys h b s)) = antilock (ticked s)"
    using \<open>\<not> overdue s\<close> assms(2) by (simp add: scan_keys_eq scan_hard_button_stuck frame_simps)
  then show "watchdog_idle m (fst (scan_keys h b s))"
    using assms(1) \<open>\<not> overdue s\<close> \<open>p_data (fst (scan_keys h b s)) = p_data s\<close>
    by (auto simp: watchdog_idle_def antilock_ticked)
qed

lemma scan_run_append:
  "snd (scan_run ts s) = Return () \<Longrightarrow> scan_run (ts @ us) s = scan_run us (fst (scan_run ts s))"
  by (induction ts s rule: scan_run.induct) (auto split: prod.splits outcome.splits)

section \<open>The relay\<close>

text \<open>
  With the buttons released and nothing pending, the relay stays on until its interval has
  passed since \<open>relayMillis\<close> and is off from then on.
\<close>

definition at_rest :: "scanner \<Rightarrow> bool" where
  "at_rest s \<longleftrightarrow> swState s \<and> rst_mode s = 0 \<and> hrst_tms s = 0"

lemma scan_rest:
  assumes "at_rest s" "watchdog_idle (Suc m) s"
  shows "at_rest (fst (scan_keys True True s))"
    "interval_10ms (fst (scan_keys True True s)) = interval_10ms s + 10"
    "relayState (fst (scan_keys True True s)) =
       (relayState s \<and> interval_10ms s + 10 < relayMillis s + ErelayInterval (p_data s))"
    "relayState s \<Longrightarrow> interval_10ms s + 10 < relayMillis s + ErelayInterval (p_data s) \<Longrightarrow>
       relayMillis (fst (scan_keys True True s)) = relayMillis s"
  using assms idle_not_overdue [OF assms(2)]
  by (auto simp: at_rest_def scan_keys_eq scan_hard_button_stuck scan_button_def scan_released_def
      scan_relay_def Let_def frame_simps not_le not_less)

text \<open>The state after \<open>k\<close> ticks at rest, as long as the clock does not wrap.\<close>

lemma relay_after:
  assumes "at_rest s" "relayState s" "watchdog_idle k s"
    and "unat (relayMillis s) + unat (ErelayInterval (p_data s)) < 2 ^ 32" "unat (interval_10ms s) + 10 * k < 2 ^ 32"
  shows "relayState (fst (scan_run (replicate k (True, True)) s)) \<longleftrightarrow>
     k = 0 \<or> unat (interval_10ms s) + 10 * k < unat (relayMillis s) + unat (ErelayInterval (p_data s))"
  using assms
proof (induction k arbitrary: s)
  case 0
  then show ?case by simp
next
  case (Suc k)
  let ?t = "fst (scan_keys True True s)"
  have hr: "hrst_tms s = 0" using Suc.prems(1) by (simp add: at_rest_def)
  note watchdog_idle = scan_keys_idle [OF Suc.prems(3) hr, of True True] and rest = scan_rest [OF Suc.prems(1,3)]
  have run: "scan_run (replicate (Suc k) (True, True)) s = scan_run (replicate k (True, True)) ?t"
    using watchdog_idle(1) by (cases "scan_keys True True s") simp
  have now: "unat (interval_10ms s + 10) = unat (interval_10ms s) + 10"
    using Suc.prems(5) by (simp add: unat_u32_add)
  have due: "interval_10ms s + 10 < relayMillis s + ErelayInterval (p_data s) \<longleftrightarrow>
      unat (interval_10ms s) + 10 < unat (relayMillis s) + unat (ErelayInterval (p_data s))"
    using now Suc.prems(4) by (simp add: word_less_nat_alt unat_u32_add)
  show ?case
  proof (cases "unat (interval_10ms s) + 10 < unat (relayMillis s) + unat (ErelayInterval (p_data s))")
    case True
    then have on: "relayState ?t" "relayMillis ?t = relayMillis s" using rest(3,4) Suc.prems(2) due by auto
    have "relayState (fst (scan_run (replicate k (True, True)) ?t)) \<longleftrightarrow>
        k = 0 \<or> unat (interval_10ms ?t) + 10 * k < unat (relayMillis ?t) + unat (ErelayInterval (p_data ?t))"
      using Suc.prems(4,5) on rest(1,2) watchdog_idle now by (intro Suc.IH) simp_all
    then show ?thesis using True on(2) rest(2) watchdog_idle(3) now unfolding run by auto
  next
    case False
    have off: "\<not> relayState (fst (scan_run (replicate j (True, True)) u))"
      if "at_rest u" "watchdog_idle j u" "\<not> relayState u" for j u
      using that
    proof (induction j arbitrary: u)
      case (Suc j)
      have "hrst_tms u = 0" using Suc.prems(1) by (simp add: at_rest_def)
      note c = scan_keys_idle [OF Suc.prems(2) this, of True True] and r = scan_rest [OF Suc.prems(1,2)]
      have "\<not> relayState (fst (scan_run (replicate j (True, True)) (fst (scan_keys True True u))))"
        using Suc.prems(3) r(1,3) c(2) by (intro Suc.IH) simp_all
      then show ?case using c(1) by (cases "scan_keys True True u") simp
    qed simp
    have "\<not> relayState ?t" using False rest(3) due by simp
    then show ?thesis using off [OF rest(1) watchdog_idle(2)] False unfolding run by simp
  qed
qed

section \<open>The soft button\<close>

text \<open>Pressing opens the relay; while the button is held, the closing time moves along with the clock, and after
  the reset interval a reset is asked for.\<close>

lemma press_opens:
  assumes "swState s" "rst_mode s = 0" "hrst_tms s = 0" "\<not> overdue s"
  shows "relayState (fst (scan_keys h False s)) \<and> \<not> swState (fst (scan_keys h False s)) \<and>
         rst_mode (fst (scan_keys h False s)) = 0 \<and> interval_10ms (fst (scan_keys h False s)) = interval_10ms s + 10 \<and>
         relayMillis (fst (scan_keys h False s)) = interval_10ms s + 10 \<and>
         swMillis (fst (scan_keys h False s)) = interval_10ms s + 10"
  using assms by (simp add: scan_keys_eq scan_hard_button_stuck scan_button_def Let_def frame_simps)

lemma hold_step:
  assumes "\<not> swState s" "rst_mode s = 0" "hrst_tms s = 0" "\<not> overdue s"
  shows "rst_mode (fst (scan_keys h False s)) =
           (if EresetInterval (p_data s) \<le> interval_10ms s + 10 - swMillis s then 1 else 0)"
    "\<not> swState (fst (scan_keys h False s))" "swMillis (fst (scan_keys h False s)) = swMillis s"
    "relayState (fst (scan_keys h False s)) = relayState s"
    "interval_10ms (fst (scan_keys h False s)) = interval_10ms s + 10"
    "relayMillis (fst (scan_keys h False s)) = interval_10ms s + 10"
  using assms
  by (simp_all add: scan_keys_eq scan_hard_button_stuck scan_button_def scan_pressed_def Let_def frame_simps)

lemma release_step:
  assumes "\<not> swState s" "rst_mode s = 0" "hrst_tms s = 0" "\<not> overdue s"
  shows "at_rest (fst (scan_keys h True s))" "relayState (fst (scan_keys h True s)) = relayState s"
    "relayMillis (fst (scan_keys h True s)) = relayMillis s"
    "interval_10ms (fst (scan_keys h True s)) = interval_10ms s + 10"
  using assms by (simp_all add: at_rest_def scan_keys_eq scan_hard_button_stuck scan_button_def Let_def frame_simps)

definition held_since :: "scanner \<Rightarrow> nat \<Rightarrow> scanner \<Rightarrow> bool" where
  "held_since s n t \<longleftrightarrow>
     \<not> swState t \<and> relayState t \<and> rst_mode t = 0 \<and> hrst_tms t = 0 \<and> p_data t = p_data s \<and>
     swMillis t = interval_10ms s + 10 \<and> relayMillis t = interval_10ms t \<and>
     unat (interval_10ms t) = unat (interval_10ms s) + 10 * n"

lemma held_sinceD:
  assumes "held_since s n t"
  shows "\<not> swState t" "relayState t" "rst_mode t = 0" "hrst_tms t = 0" "p_data t = p_data s"
    "swMillis t = interval_10ms s + 10" "relayMillis t = interval_10ms t"
    "unat (interval_10ms t) = unat (interval_10ms s) + 10 * n"
  using assms by (simp_all add: held_since_def)

lemma hold_after:
  assumes "swState s" "rst_mode s = 0" "hrst_tms s = 0" "watchdog_idle (Suc n + m) s"
    and "10 * n < unat (EresetInterval (p_data s))" "unat (interval_10ms s) + 10 * Suc n < 2 ^ 32"
  shows "snd (scan_run (replicate (Suc n) (True, False)) s) = Return () \<and>
    held_since s (Suc n) (fst (scan_run (replicate (Suc n) (True, False)) s)) \<and>
    watchdog_idle m (fst (scan_run (replicate (Suc n) (True, False)) s))"
  using assms(4-6)
proof (induction n arbitrary: m)
  case 0
  let ?t = "fst (scan_keys True False s)"
  have c: "watchdog_idle (Suc m) s" using 0(1) by simp
  note k = scan_keys_idle [OF c assms(3), of True False] and p = press_opens [OF assms(1-3) idle_not_overdue [OF c], of True]
  have "held_since s 1 ?t" using k(3,4) p 0(3) by (simp add: held_since_def unat_u32_add)
  then show ?case using k(1,2) by (cases "scan_keys True False s") simp
next
  case (Suc n)
  let ?s = "fst (scan_run (replicate (Suc n) (True, False)) s)"
  let ?t = "fst (scan_keys True False ?s)"
  have IH: "snd (scan_run (replicate (Suc n) (True, False)) s) = Return ()" "held_since s (Suc n) ?s" "watchdog_idle (Suc m) ?s"
    using Suc.IH [of "Suc m"] Suc.prems by simp_all
  have run: "scan_run (replicate (Suc (Suc n)) (True, False)) s = scan_keys True False ?s"
    using scan_run_append [OF IH(1), of "[(True, False)]"]
    by (simp add: replicate_append_same) (simp split: prod.splits outcome.splits)
  note h = held_sinceD [OF IH(2)]
  note k = scan_keys_idle [OF IH(3) h(4), of True False] and p = hold_step [OF h(1,3,4) idle_not_overdue [OF IH(3)], of True]
  have now: "unat (interval_10ms ?s + 10) = unat (interval_10ms s) + 10 * Suc (Suc n)"
    using h(8) Suc.prems(3) by (simp add: unat_u32_add)
  have start: "unat (interval_10ms s + 10) = unat (interval_10ms s) + 10"
    using Suc.prems(3) by (simp add: unat_u32_add)
  have "interval_10ms s + 10 \<le> interval_10ms ?s + 10" using now start by (simp add: word_le_nat_alt)
  then have "unat (interval_10ms ?s + 10 - (interval_10ms s + 10)) = 10 * Suc n"
    using now start by (simp only: unat_sub) simp
  then have "\<not> EresetInterval (p_data s) \<le> interval_10ms ?s + 10 - (interval_10ms s + 10)"
    using Suc.prems(2) by (simp add: word_le_nat_alt)
  then have "held_since s (Suc (Suc n)) ?t"
    using k(3,4) p h now by (simp add: held_since_def)
  then show ?case unfolding run using k(1,2) by simp
qed

lemma press_and_release:
  assumes "swState s" "rst_mode s = 0" "hrst_tms s = 0" "watchdog_idle (n + k) s" "0 < n"
    and "10 * (n - 1) < unat (EresetInterval (p_data s))" "unat (interval_10ms s) + 10 * (n + k) < 2 ^ 32"
      "unat (interval_10ms s) + 10 * n + unat (ErelayInterval (p_data s)) < 2 ^ 32"
  shows "relayState (fst (scan_run (replicate n (True, False) @ replicate k (True, True)) s)) \<longleftrightarrow>
         k \<le> 1 \<or> 10 * k < unat (ErelayInterval (p_data s))"
proof -
  obtain j where n: "n = Suc j" using assms(5) by (cases n) simp_all
  let ?s = "fst (scan_run (replicate n (True, False)) s)"
  have h: "snd (scan_run (replicate n (True, False)) s) = Return ()" "held_since s n ?s" "watchdog_idle k ?s"
    using hold_after [of s j k] assms n by simp_all
  note hs = held_sinceD [OF h(2)]
  show ?thesis
  proof (cases k)
    case 0
    then show ?thesis using hs(2) by simp
  next
    case (Suc i)
    let ?t = "fst (scan_keys True True ?s)"
    have c: "watchdog_idle (Suc i) ?s" using h(3) Suc by simp
    note q = scan_keys_idle [OF c hs(4), of True True] and r = release_step [OF hs(1,3,4) idle_not_overdue [OF c], of True]
    have now: "unat (interval_10ms ?t) = unat (interval_10ms s) + 10 * n + 10"
      using hs(8) r(4) assms(7) Suc by (simp add: unat_u32_add)
    have run: "scan_run (replicate n (True, False) @ replicate k (True, True)) s = scan_run (replicate i (True, True)) ?t"
      using q(1) unfolding scan_run_append [OF h(1)] Suc by (cases "scan_keys True True ?s") simp
    have "relayState (fst (scan_run (replicate i (True, True)) ?t)) \<longleftrightarrow>
        i = 0 \<or> unat (interval_10ms ?t) + 10 * i < unat (relayMillis ?t) + unat (ErelayInterval (p_data ?t))"
      using r hs q(2,3) now assms(7,8) Suc by (intro relay_after) simp_all
    then show ?thesis unfolding run using now r(3) q(3) hs(5,7,8) Suc by auto
  qed
qed

section \<open>The watchdog\<close>

text \<open>Unless the main loop clears the counter, the device restarts within 2000 ticks.\<close>

lemma antilock_step:
  assumes "\<not> has_flag (p_data s) FNOANTILOCK" "0 \<le> antilock s" "\<not> overdue s" "hrst_tms s = 0"
  shows "antilock (fst (scan_keys h b s)) = antilock s + 10" "p_data (fst (scan_keys h b s)) = p_data s"
    "hrst_tms (fst (scan_keys h b s)) = 0" "snd (scan_keys h b s) = Return ()"
  using assms
  by (auto simp: scan_keys_eq antilock_ticked scan_hard_button_stuck frame_simps scan_button_def scan_pressed_def
      scan_released_def scan_relay_def Let_def)

lemma watchdog_restarts:
  assumes "\<not> has_flag (p_data s) FNOANTILOCK" "0 \<le> antilock s" "hrst_tms s = 0"
    and "antilock_timeoutMs \<le> antilock s + 10 * int (length ts)" "ts \<noteq> []"
  shows "snd (scan_run ts s) = Restart"
  using assms
proof (induction ts arbitrary: s)
  case (Cons x ts)
  obtain h b where x: "x = (h, b)" by (cases x)
  show ?case
  proof (cases "overdue s")
    case True
    then show ?thesis by (simp add: x scan_keys_eq)
  next
    case False
    let ?t = "fst (scan_keys h b s)"
    note step = antilock_step [OF Cons.prems(1,2) False Cons.prems(3), of h b]
    have "ts \<noteq> []"
    proof
      assume "ts = []"
      then have "overdue s" using Cons.prems by (simp add: overdue_def)
      then show False using False by simp
    qed
    then have "snd (scan_run ts ?t) = Restart"
      using Cons.prems step by (intro Cons.IH) (simp_all add: algebra_simps)
    then show ?thesis using step(4) by (cases "scan_keys h b s") (simp add: x)
  qed
qed simp

lemma watchdog_quiet:
  assumes "\<not> has_flag (p_data s) FNOANTILOCK" "0 \<le> antilock s" "hrst_tms s = 0"
    and "antilock s + 10 * int (length ts) < antilock_timeoutMs"
  shows "snd (scan_run ts s) = Return ()"
  using assms
proof (induction ts arbitrary: s)
  case (Cons x ts)
  obtain h b where x: "x = (h, b)" by (cases x)
  have "\<not> overdue s" using Cons.prems by (simp add: overdue_def)
  note step = antilock_step [OF Cons.prems(1,2) this Cons.prems(3), of h b]
  have "snd (scan_run ts (fst (scan_keys h b s))) = Return ()"
    using Cons.prems step by (intro Cons.IH) (simp_all add: algebra_simps)
  then show ?case using step(4) by (cases "scan_keys h b s") (simp add: x)
qed simp

section \<open>Properties\<close>

text \<open>The static locals of the interrupt as they are initialised.\<close>

definition initial_scanner :: "bytes \<Rightarrow> bytes \<Rightarrow> scanner" where
  "initial_scanner garbage flash =
     device.extend (initial_device garbage flash)
       \<lparr>ledFlashMs = 0, ledOffTimeMs = 0, hrst_tms = 0, s_bl = 10, s_cl = 0, s_bp = 0\<rparr>"

lemma initial_scanner_simps [simp]:
  "hrst_tms (initial_scanner g f) = 0" "rst_mode (initial_scanner g f) = 0" "swState (initial_scanner g f)"
  "antilock (initial_scanner g f) = 0" "p_data (initial_scanner g f) = default_SWdata g"
  by (simp_all add: initial_scanner_def initial_device_def device.extend_def)

text \<open>C6. The button opens the relay for the relay interval: pressed for some ticks, fewer than ask for a reset,
  and then released, it leaves the relay open at every tick until the interval has passed since the last tick
  that saw the button pressed, and closed at every tick from then on.  The tick that first sees the button
  released never closes it.  The watchdog is taken to be quiet meanwhile: switched off, or its counter too low
  to run out, as it is while the main loop keeps clearing it.\<close>

theorem relay_open_for_its_interval:
  assumes "swState s" "rst_mode s = 0" "hrst_tms s = 0"
    and "has_flag (p_data s) FNOANTILOCK \<or> antilock s < 0 \<or> antilock s + 10 * int (n + k) < antilock_timeoutMs"
    and "0 < n" "10 * (n - 1) < unat (EresetInterval (p_data s))"
    and "unat (interval_10ms s) + 10 * (n + k) < 2 ^ 32"
      "unat (interval_10ms s) + 10 * n + unat (ErelayInterval (p_data s)) < 2 ^ 32"
  shows "relayState (fst (scan_run (replicate n (True, False) @ replicate k (True, True)) s)) \<longleftrightarrow>
         k \<le> 1 \<or> 10 * k < unat (ErelayInterval (p_data s))"
  using press_and_release [of s n k] assms by (simp add: watchdog_idle_def)

theorem relay_open_for_its_interval_witness:
  "relayState (fst (scan_run (replicate 5 (True, False) @ replicate 999 (True, True)) (initial_scanner [] []))) \<and>
   \<not> relayState (fst (scan_run (replicate 5 (True, False) @ replicate 1000 (True, True)) (initial_scanner [] [])))"
proof -
  have "ErelayInterval (p_data (initial_scanner [] [])) = 10000" "EresetInterval (p_data (initial_scanner [] [])) = 5000"
    "interval_10ms (initial_scanner [] []) = 0"
    by (simp_all add: default_SWdata_def initial_scanner_def initial_device_def device.extend_def)
  then show ?thesis
    using relay_open_for_its_interval [of "initial_scanner [] []" 5 999]
      relay_open_for_its_interval [of "initial_scanner [] []" 5 1000]
    by (simp add: antilock_timeoutMs_def)
qed

text \<open>However long the hard-reset button is held, and whatever is done with the other one, the
  interrupt never asks for a reset to defaults: its hold counter is cleared at every tick that has
  not reached the two seconds yet.\<close>

lemma hard_reset_hold_unreachable:
  "rst_mode (fst (scan_run ts (initial_scanner garbage flash))) \<noteq> 2"
  using scan_run_no_hard_reset [of "initial_scanner garbage flash" ts] by (simp add: no_hard_reset_def)

text \<open>The watchdog restarts the device at the latest when its counter has run for the time limit
  without being cleared, and never earlier.\<close>

lemma watchdog_time:
  assumes "\<not> has_flag (p_data s) FNOANTILOCK" "0 \<le> antilock s" "hrst_tms s = 0" "ts \<noteq> []"
  shows "snd (scan_run ts s) = Restart \<longleftrightarrow> antilock_timeoutMs \<le> antilock s + 10 * int (length ts)"
  using watchdog_restarts [OF assms(1-3) _ assms(4)] watchdog_quiet [OF assms(1-3), of ts] by force

end
