(* ===== verification/Station_Table.thy ===== *)
theory Station_Table
  imports Device
begin

text \<open>
  The table of stations connected to the access point (\<open>WSKey32.ino\<close>): hardware addresses, times
  of connection and IP addresses of up to \<open>MAX_CLIENTS\<close> stations, kept by three driver events, and
  the choice of the station to drop when the table is full.  The flat array of six-byte cells is
  a list of cells; an all-zero cell is free.
\<close>

section \<open>The table\<close>

type_synonym mac = "u8 list"

record stations =
  macs :: "mac list"
  mac_ms :: "u32 list"
  ips :: "u32 list"
  sta_connections :: int

definition no_mac :: mac where "no_mac = replicate 6 0"

definition is_maccell_free :: "stations \<Rightarrow> nat \<Rightarrow> bool" where
  "is_maccell_free s i \<longleftrightarrow> macs s ! i = no_mac"

definition search_mac :: "stations \<Rightarrow> mac \<Rightarrow> nat option" where
  "search_mac s mac = find (\<lambda>i. macs s ! i = mac) [0..<MAX_CLIENTS]"

definition search_ip :: "stations \<Rightarrow> u32 \<Rightarrow> nat option" where
  "search_ip s ip = find (\<lambda>i. ips s ! i = ip) [0..<MAX_CLIENTS]"

definition save_mac :: "u32 \<Rightarrow> mac \<Rightarrow> stations \<Rightarrow> stations \<times> nat option" where
  "save_mac now mac s =
     (case find (is_maccell_free s) [0..<MAX_CLIENTS] of
        Some i \<Rightarrow> (s\<lparr>macs := (macs s)[i := mac], mac_ms := (mac_ms s)[i := now]\<rparr>, Some i)
      | None \<Rightarrow> (s, None))"

definition clear_mac :: "mac \<Rightarrow> stations \<Rightarrow> stations \<times> nat option" where
  "clear_mac mac s =
     (case search_mac s mac of
        None \<Rightarrow> (s, None)
      | Some i \<Rightarrow>
          (s\<lparr>macs := (macs s)[i := no_mac], mac_ms := (mac_ms s)[i := 0], ips := (ips s)[i := 0]\<rparr>, Some i))"

text \<open>The occupied cell whose time of connection lies furthest back, by a scan for the maximum.\<close>

definition oldest_step :: "stations \<Rightarrow> u32 \<Rightarrow> nat \<Rightarrow> u32 \<times> nat \<Rightarrow> u32 \<times> nat" where
  "oldest_step s tm i = (\<lambda>(maxt, maxti).
     if \<not> is_maccell_free s i \<and> maxt < tm - mac_ms s ! i then (tm - mac_ms s ! i, i) else (maxt, maxti))"

definition oldest :: "stations \<Rightarrow> u32 \<Rightarrow> u32 \<times> nat" where
  "oldest s tm = fold (oldest_step s tm) [0..<MAX_CLIENTS] (0, 0)"

text \<open>
  \<open>deauth_old_sta\<close>: the cell of the station the driver is asked to drop and its association id.
  \<open>aid_of\<close> is what \<open>esp_wifi_ap_get_sta_aid\<close> finds.
\<close>

definition deauth_old_sta :: "(mac \<Rightarrow> nat option) \<Rightarrow> bool \<Rightarrow> SWdata \<Rightarrow> u32 \<Rightarrow> stations \<Rightarrow> (nat \<times> nat) option" where
  "deauth_old_sta aid_of ota d tm s =
     (if ota \<or> has_flag d FNOSTACONTROL then None
      else
        let (maxt, maxti) = oldest s tm in
        if maxt \<noteq> 0 \<and> \<not> is_maccell_free s maxti
        then map_option (\<lambda>aid. (maxti, aid)) (aid_of (macs s ! maxti))
        else None)"

section \<open>The driver's events\<close>

definition WiFiStationConnected :: "bool \<Rightarrow> u32 \<Rightarrow> mac \<Rightarrow> stations \<Rightarrow> stations \<times> bool" where
  \<comment> \<open>the answer is whether \<open>deauth_old_sta\<close> is called\<close>
  "WiFiStationConnected control now mac s =
     (case search_mac s mac of
        Some i \<Rightarrow> (s, False)
      | None \<Rightarrow>
          (case save_mac now mac s of
             (s1, None) \<Rightarrow> (s1, False)
           | (s1, Some i) \<Rightarrow>
               let s2 = s1\<lparr>sta_connections := sta_connections s1 + 1\<rparr>
               in (s2, control \<and> int MAX_CLIENTS \<le> sta_connections s2)))"

definition WiFiStationDisconnected :: "mac \<Rightarrow> stations \<Rightarrow> stations" where
  "WiFiStationDisconnected mac s =
     (case search_mac s mac of
        None \<Rightarrow> s
      | Some i \<Rightarrow>
          (case clear_mac mac s of
             (s1, None) \<Rightarrow> s1
           | (s1, Some i) \<Rightarrow> s1\<lparr>sta_connections := sta_connections s1 - 1\<rparr>))"

text \<open>The station list of the driver is searched for one that is in the table and has the assigned address.\<close>

fun WiFiStaIPassigned :: "(mac \<times> u32) list \<Rightarrow> u32 \<Rightarrow> stations \<Rightarrow> stations" where
  "WiFiStaIPassigned [] ip s = s"
| "WiFiStaIPassigned ((m, addr) # sta) ip s =
     (case search_mac s m of
        Some ix \<Rightarrow> if addr = ip then s\<lparr>ips := (ips s)[ix := ip]\<rparr> else WiFiStaIPassigned sta ip s
      | None \<Rightarrow> WiFiStaIPassigned sta ip s)"

text \<open>A request over the web renews the time of the station it comes from (\<open>handleCmd\<close>).\<close>

definition renew_time :: "SWdata \<Rightarrow> u32 \<Rightarrow> u32 \<Rightarrow> stations \<Rightarrow> stations" where
  "renew_time d c_ip now s =
     (if has_flag d FNOSTACONTROL then s
      else case search_ip s c_ip of
        None \<Rightarrow> s
      | Some ix \<Rightarrow> if is_maccell_free s ix then s else s\<lparr>mac_ms := (mac_ms s)[ix := now]\<rparr>)"

definition no_stations :: stations where
  "no_stations =
     \<lparr>macs = replicate MAX_CLIENTS no_mac, mac_ms = replicate MAX_CLIENTS 0, ips = replicate MAX_CLIENTS 0,
      sta_connections = 0\<rparr>"

inductive station_step :: "stations \<Rightarrow> stations \<Rightarrow> bool" where
  connect: "mac \<noteq> no_mac \<Longrightarrow> station_step s (fst (WiFiStationConnected control now mac s))"
| disconnect: "mac \<noteq> no_mac \<Longrightarrow> station_step s (WiFiStationDisconnected mac s)"
| assign: "station_step s (WiFiStaIPassigned sta ip s)"
| request: "station_step s (renew_time d c_ip now s)"

inductive reachable :: "stations \<Rightarrow> bool" where
  start: "reachable no_stations"
| step: "reachable s \<Longrightarrow> station_step s t \<Longrightarrow> reachable t"

inductive_cases station_stepE: "station_step s t"

section \<open>The invariant\<close>

definition occupied :: "stations \<Rightarrow> nat set" where
  "occupied s = {i. i < MAX_CLIENTS \<and> macs s ! i \<noteq> no_mac}"

definition table_ok :: "stations \<Rightarrow> bool" where
  "table_ok s \<longleftrightarrow>
     length (macs s) = MAX_CLIENTS \<and> length (mac_ms s) = MAX_CLIENTS \<and> length (ips s) = MAX_CLIENTS \<and>
     inj_on (\<lambda>i. macs s ! i) (occupied s) \<and> sta_connections s = int (card (occupied s))"

lemma finite_occupied [simp]: "finite (occupied s)"
  by (simp add: occupied_def)

lemma card_occupied_le: "card (occupied s) \<le> MAX_CLIENTS"
proof -
  have "card (occupied s) \<le> card {0..<MAX_CLIENTS}"
    by (rule card_mono) (auto simp: occupied_def)
  then show ?thesis by simp
qed

lemma find_upt_Some: "find P [0..<n] = Some i \<Longrightarrow> i < n \<and> P i \<and> (\<forall>j < i. \<not> P j)"
  by (auto simp: find_Some_iff)

lemma find_upt_None: "find P [0..<n] = None \<longleftrightarrow> (\<forall>i < n. \<not> P i)"
  by (auto simp: find_None_iff)

lemma search_mac_Some: "search_mac s m = Some i \<Longrightarrow> i < MAX_CLIENTS \<and> macs s ! i = m"
  unfolding search_mac_def by (auto dest: find_upt_Some)

lemma search_mac_None: "search_mac s m = None \<longleftrightarrow> (\<forall>i < MAX_CLIENTS. macs s ! i \<noteq> m)"
  unfolding search_mac_def by (rule find_upt_None)

text \<open>A station that is new to the table takes a free cell.\<close>

lemma connected_new:
  assumes ok: "table_ok s" and m: "m \<noteq> no_mac" and new: "search_mac s m = None"
    and free: "find (is_maccell_free s) [0..<MAX_CLIENTS] = Some i"
  shows "occupied (s\<lparr>macs := (macs s)[i := m]\<rparr>) = insert i (occupied s)" "i \<notin> occupied s"
    "inj_on (\<lambda>j. (macs s)[i := m] ! j) (insert i (occupied s))"
proof -
  have len: "length (macs s) = MAX_CLIENTS" using ok by (simp add: table_ok_def)
  have i: "i < MAX_CLIENTS" "macs s ! i = no_mac"
    using find_upt_Some [OF free] by (auto simp: is_maccell_free_def)
  show "occupied (s\<lparr>macs := (macs s)[i := m]\<rparr>) = insert i (occupied s)"
    using i m len by (auto simp: occupied_def nth_list_update)
  show ni: "i \<notin> occupied s" using i by (simp add: occupied_def)
  have "macs s ! j \<noteq> m" if "j \<in> occupied s" for j
    using new that by (simp add: search_mac_None occupied_def)
  then show "inj_on (\<lambda>j. (macs s)[i := m] ! j) (insert i (occupied s))"
    using ok ni i len by (auto simp: table_ok_def inj_on_def nth_list_update)
qed

lemma table_ok_connected:
  assumes ok: "table_ok s" and m: "m \<noteq> no_mac"
  shows "table_ok (fst (WiFiStationConnected control now m s))"
proof (cases "search_mac s m")
  case (Some i)
  then show ?thesis using ok by (simp add: WiFiStationConnected_def)
next
  case new: None
  show ?thesis
  proof (cases "find (is_maccell_free s) [0..<MAX_CLIENTS]")
    case None
    then show ?thesis using ok new by (simp add: WiFiStationConnected_def save_mac_def)
  next
    case (Some i)
    note c = connected_new [OF ok m new Some]
    have "occupied (s\<lparr>macs := (macs s)[i := m], mac_ms := ms, sta_connections := n\<rparr>) = insert i (occupied s)"
      for ms n
      using c(1) by (simp add: occupied_def)
    then show ?thesis
      using ok new Some c(2,3) by (simp add: WiFiStationConnected_def save_mac_def table_ok_def Let_def)
  qed
qed

lemma disconnected_table:
  assumes ok: "table_ok s" and m: "m \<noteq> no_mac" and found: "search_mac s m = Some i"
  shows "occupied (s\<lparr>macs := (macs s)[i := no_mac]\<rparr>) = occupied s - {i}" "i \<in> occupied s"
    "inj_on (\<lambda>j. (macs s)[i := no_mac] ! j) (occupied s - {i})"
proof -
  have len: "length (macs s) = MAX_CLIENTS" using ok by (simp add: table_ok_def)
  have i: "i < MAX_CLIENTS" "macs s ! i = m" using search_mac_Some [OF found] by auto
  show "occupied (s\<lparr>macs := (macs s)[i := no_mac]\<rparr>) = occupied s - {i}"
    using i len by (auto simp: occupied_def nth_list_update)
  show "i \<in> occupied s" using i m by (simp add: occupied_def)
  show "inj_on (\<lambda>j. (macs s)[i := no_mac] ! j) (occupied s - {i})"
    using ok by (auto simp: table_ok_def inj_on_def)
qed

lemma table_ok_disconnected:
  assumes ok: "table_ok s" and m: "m \<noteq> no_mac"
  shows "table_ok (WiFiStationDisconnected m s)"
proof (cases "search_mac s m")
  case None
  then show ?thesis using ok by (simp add: WiFiStationDisconnected_def)
next
  case (Some i)
  note d = disconnected_table [OF ok m Some]
  have "occupied (s\<lparr>macs := (macs s)[i := no_mac], mac_ms := ms, ips := ad, sta_connections := n\<rparr>) =
      occupied s - {i}" for ms ad n
    using d(1) by (simp add: occupied_def)
  moreover have "0 < card (occupied s)" using d(2) by (auto simp: card_gt_0_iff)
  ultimately show ?thesis
    using ok Some d(2,3)
    by (simp add: WiFiStationDisconnected_def clear_mac_def table_ok_def of_nat_diff)
qed

lemma table_ok_assigned: "table_ok s \<Longrightarrow> table_ok (WiFiStaIPassigned sta ip s)"
  by (induction sta ip s rule: WiFiStaIPassigned.induct)
     (auto simp: table_ok_def occupied_def split: option.split)

lemma table_ok_renew: "table_ok s \<Longrightarrow> table_ok (renew_time d ip now s)"
  by (auto simp: renew_time_def table_ok_def occupied_def split: option.split)

lemma table_ok_step: "station_step s t \<Longrightarrow> table_ok s \<Longrightarrow> table_ok t"
  by (erule station_stepE) (auto simp: table_ok_connected table_ok_disconnected table_ok_assigned table_ok_renew)

lemma table_ok_start: "table_ok no_stations"
proof -
  have "occupied no_stations = {}" by (auto simp: occupied_def no_stations_def)
  then show ?thesis by (simp add: table_ok_def no_stations_def)
qed

lemma reachable_table_ok: "reachable s \<Longrightarrow> table_ok s"
  by (induction rule: reachable.induct) (auto simp: table_ok_start table_ok_step)

section \<open>Who is dropped\<close>

lemma oldest_scan:
  assumes "fold (oldest_step s tm) js (maxt, maxti) = (t, i)"
  shows "maxt \<le> t \<and> (\<forall>j \<in> set js. \<not> is_maccell_free s j \<longrightarrow> tm - mac_ms s ! j \<le> t) \<and>
         ((t, i) = (maxt, maxti) \<or> i \<in> set js \<and> \<not> is_maccell_free s i \<and> t = tm - mac_ms s ! i)"
  using assms
proof (induction js arbitrary: maxt maxti)
  case (Cons j js)
  obtain t' i' where st: "oldest_step s tm j (maxt, maxti) = (t', i')"
    by (cases "oldest_step s tm j (maxt, maxti)")
  have IH: "t' \<le> t \<and> (\<forall>j \<in> set js. \<not> is_maccell_free s j \<longrightarrow> tm - mac_ms s ! j \<le> t) \<and>
      ((t, i) = (t', i') \<or> i \<in> set js \<and> \<not> is_maccell_free s i \<and> t = tm - mac_ms s ! i)"
    using Cons.IH [of t' i'] Cons.prems st by simp
  show ?case
  proof (cases "\<not> is_maccell_free s j \<and> maxt < tm - mac_ms s ! j")
    case True
    then have "t' = tm - mac_ms s ! j" "i' = j" using st by (auto simp: oldest_step_def)
    then show ?thesis using IH True by auto
  next
    case False
    then have "t' = maxt" "i' = maxti" using st by (auto simp: oldest_step_def split: if_splits)
    then show ?thesis using IH False by (auto simp: not_less intro: order_trans)
  qed
qed simp

lemma deauth_oldest:
  assumes "deauth_old_sta aid_of ota d tm s = Some (i, aid)"
  shows "i \<in> occupied s \<and> aid_of (macs s ! i) = Some aid \<and>
         (\<forall>j \<in> occupied s. tm - mac_ms s ! j \<le> tm - mac_ms s ! i)"
proof -
  obtain t k where o': "oldest s tm = (t, k)" by (cases "oldest s tm")
  then have k: "t \<noteq> 0" "\<not> is_maccell_free s k" "aid_of (macs s ! k) = Some aid" "k = i"
    using assms by (auto simp: deauth_old_sta_def split: if_splits)
  have sc: "(\<forall>j \<in> set [0..<MAX_CLIENTS]. \<not> is_maccell_free s j \<longrightarrow> tm - mac_ms s ! j \<le> t) \<and>
      (k \<in> set [0..<MAX_CLIENTS] \<and> t = tm - mac_ms s ! k)"
    using oldest_scan [OF o' [unfolded oldest_def]] k(1) by auto
  show ?thesis
    using sc k by (auto simp: occupied_def is_maccell_free_def)
qed

section \<open>Properties\<close>

text \<open>C7. Whatever connections, disconnections, address assignments and requests happen, the station
  table holds every address at most once and its counter is the number of occupied cells, at most
  ten.\<close>

theorem station_count_is_exact:
  assumes "reachable s"
  shows "sta_connections s = int (card (occupied s)) \<and> card (occupied s) \<le> MAX_CLIENTS \<and>
         inj_on (\<lambda>i. macs s ! i) (occupied s)"
  using reachable_table_ok [OF assms] card_occupied_le [of s] by (simp add: table_ok_def)

theorem station_count_is_exact_witness:
  "sta_connections (fst (WiFiStationConnected True 7 [1, 2, 3, 4, 5, 6] no_stations)) =
   int (card (occupied (fst (WiFiStationConnected True 7 [1, 2, 3, 4, 5, 6] no_stations))))"
proof (rule station_count_is_exact [THEN conjunct1])
  have "([1, 2, 3, 4, 5, 6] :: mac) \<noteq> no_mac" by (simp add: no_mac_def numeral_eq_Suc)
  then show "reachable (fst (WiFiStationConnected True 7 [1, 2, 3, 4, 5, 6] no_stations))"
    by (intro reachable.step [OF reachable.start] station_step.connect)
qed

end
