(* ===== verification/Connection_Control.thy ===== *)
theory Connection_Control
  imports Button_Scan
begin

text \<open>
  The connection to the site's access point and the main loop of \<open>WSKey32.ino\<close>: the driver's
  events \<open>sta_connected_to_AP\<close>, \<open>sta_got_ip\<close> and \<open>sta_lost\<close>, and \<open>loop\<close> with its resets.

  \<open>STA_action\<close> is 0 at rest, 1 when \<open>loop\<close> shall register with the transponder, 2 when it shall
  disconnect, and counts from 3 to 6 the failed attempts to connect.  \<open>conAPcntr\<close> is -1000 when
  connected, below that during a pause, -1 before and from 0 up during an attempt.
\<close>

section \<open>Driver events\<close>

definition sta_connected_to_AP :: "'a device_scheme \<Rightarrow> 'a device_scheme" where
  "sta_connected_to_AP s = modConCntr 0 (s\<lparr>connected := False\<rparr>)"

definition sta_got_ip :: "'a device_scheme \<Rightarrow> 'a device_scheme" where
  "sta_got_ip s = (modConCntr (-1000) s)\<lparr>STA_action := 1\<rparr>"

definition sta_lost :: "'a device_scheme \<Rightarrow> 'a device_scheme" where
  "sta_lost s =
     (let s0 = s\<lparr>connected := False, transponder_version := []\<rparr> in
      if 3 \<le> STA_action s0 then
        (let s1 = s0\<lparr>STA_action := STA_action s0 + 1\<rparr>
         in if 6 < STA_action s1
            then modConCntr (-1001) (emit [Auto_connect False, Wifi_disconnect] (s1\<lparr>STA_action := 0\<rparr>))
            else modConCntr (-1) s1)
      else
        let s1 = emit [Wifi_disconnect] s0 in
        if has_flag (p_data s1) FNOREMOTE then emit [Auto_connect False] (s1\<lparr>STA_action := 0\<rparr>)
        else emit [Auto_connect True, Wifi_connect] (modConCntr (-1) (s1\<lparr>STA_action := 3\<rparr>)))"

section \<open>The main loop\<close>

record loop_env =
  l_wl_connected :: bool
  l_hard_level :: bool
  l_has_client :: bool
    \<comment> \<open>whether the plain \<open>WiFiClient\<close> exists\<close>
  l_garbage :: bytes
  l_on_connected :: "device \<Rightarrow> device"
  l_dns :: "device \<Rightarrow> device"
  l_handleClient :: "device \<Rightarrow> device"
  l_RequestTransponder :: "device \<Rightarrow> device"

definition pause_ms :: int where "pause_ms = 60000"

text \<open>Waiting for the access point: a time-out starts a pause, a pause ends with a new attempt.\<close>

definition loop_attempts :: "'a device_scheme \<Rightarrow> 'a device_scheme" where
  "loop_attempts s =
     (if antilock_timeoutMs - 1000 \<le> conAPcntr s
      then modConCntr (-1001) (emit [Auto_connect False, Wifi_disconnect] s)
      else if conAPcntr s + 1000 < - pause_ms
      then emit [Auto_connect True, Wifi_connect] (modConCntr (-1) s)
      else s)"

definition loop_connection :: "loop_env \<Rightarrow> device \<Rightarrow> device" where
  "loop_connection E s =
     (if \<not> has_flag (p_data s) FNOREMOTE then
        (let s1 = loop_attempts s
         in if STA_action s1 = 1 then l_on_connected E (s1\<lparr>STA_action := 0\<rparr>)
            else if STA_action s1 = 2 then emit [Auto_connect False, Wifi_disconnect] (s1\<lparr>STA_action := 0\<rparr>)
            else s1)
      else if connected s \<or> l_wl_connected E then emit [Auto_connect False, Wifi_disconnect] s
      else s)"

text \<open>
  The reset asked for by a button: the servers and the client are stopped, the settings replaced
  by the defaults for the hard-reset button.  \<open>client->stop()\<close> is called through the global
  pointer whether or not there is a client.
\<close>

definition loop_reset :: "loop_env \<Rightarrow> device \<Rightarrow> device \<times> unit outcome" where
  "loop_reset E s =
     (let hard = \<not> l_hard_level E;
          s1 = s\<lparr>ledState0 := True\<rparr>
      in if \<not> l_has_client E then (s1, Null_pointer)
         else
           let s2 = emit [Client_stop] s1;
               s3 = (if hard \<or> rst_mode s2 = 2 then new_settings (l_garbage E) True s2 else s2)
           in (modAntilock 0 s3, Restart))"

definition loop :: "loop_env \<Rightarrow> device \<Rightarrow> device \<times> unit outcome" where
  "loop E s =
     (let s1 = (if 0 \<le> antilock s then modAntilock 0 s else s);
          s2 = loop_connection E s1;
          s3 = l_handleClient E (l_dns E s2);
          s4 = (if connected s3 \<and> \<not> has_flag (p_data s3) FNOREMOTE \<and> \<not> has_flag (p_data s3) FNOSERVICE \<and>
                   \<not> p_upload s3 \<and> \<not> OTA_enabled s3
                then l_RequestTransponder E s3 else s3);
          hard = \<not> l_hard_level E
      in if (\<not> OTA_enabled s4 \<and> rst_mode s4 \<noteq> 0) \<or> hard then loop_reset E s4
         else (s4\<lparr>rst_mode := 0\<rparr>, Return ()))"

text \<open>Which clients \<open>setup\<close> creates: (plain, secure).\<close>

definition setup_clients :: "SWdata \<Rightarrow> bool \<times> bool" where
  "setup_clients d =
     (if has_flag d FNOREMOTE then (False, False)
      else if \<not> has_flag d FSSL then (True, False)
      else (False, True))"

section \<open>The connection as a state machine\<close>

text \<open>
  The steps that drive the connection: the events, a tick of the interrupt's counter and the
  waiting part of the loop, the last two only while remote control is enabled.
\<close>

inductive conn_step :: "device \<Rightarrow> device \<Rightarrow> bool" where
  associated: "conn_step s (sta_connected_to_AP s)"
| got_ip: "conn_step s (sta_got_ip s)"
| lost: "conn_step s (sta_lost s)"
| tick: "\<not> has_flag (p_data s) FNOREMOTE \<Longrightarrow> conn_step s (modConCntr (count_connection (conAPcntr s)) s)"
| attempts: "\<not> has_flag (p_data s) FNOREMOTE \<Longrightarrow> conn_step s (loop_attempts s)"
| taken: "STA_action s = 1 \<or> STA_action s = 2 \<Longrightarrow> conn_step s (s\<lparr>STA_action := 0\<rparr>)"

inductive_cases conn_stepE: "conn_step s t"

inductive conn_steps :: "device \<Rightarrow> device \<Rightarrow> bool" where
  refl: "conn_steps s s"
| step: "conn_steps s t \<Longrightarrow> conn_step t u \<Longrightarrow> conn_steps s u"

lemma conn_step_data: "conn_step s t \<Longrightarrow> p_data t = p_data s"
  by (erule conn_stepE)
     (auto simp: sta_connected_to_AP_def sta_got_ip_def sta_lost_def loop_attempts_def Let_def)

lemma conn_steps_data: "conn_steps s t \<Longrightarrow> p_data t = p_data s"
  by (induction rule: conn_steps.induct) (auto dest: conn_step_data)

lemma conn_step_action: "conn_step s t \<Longrightarrow> 0 \<le> STA_action s \<and> STA_action s \<le> 6 \<Longrightarrow> 0 \<le> STA_action t \<and> STA_action t \<le> 6"
  by (erule conn_stepE)
     (auto simp: sta_connected_to_AP_def sta_got_ip_def sta_lost_def loop_attempts_def Let_def modConCntr_def emit_def)

lemma conn_steps_action:
  "conn_steps s t \<Longrightarrow> 0 \<le> STA_action s \<and> STA_action s \<le> 6 \<Longrightarrow> 0 \<le> STA_action t \<and> STA_action t \<le> 6"
  by (induction rule: conn_steps.induct) (auto dest: conn_step_action)

text \<open>With remote control disabled no step asks the driver to connect.\<close>

lemma conn_step_quiet:
  "conn_step s t \<Longrightarrow> has_flag (p_data s) FNOREMOTE \<Longrightarrow> Wifi_connect \<notin> set (out s) \<Longrightarrow> Wifi_connect \<notin> set (out t)"
  by (erule conn_stepE)
     (auto simp: sta_connected_to_AP_def sta_got_ip_def sta_lost_def Let_def modConCntr_def emit_def)

lemma conn_steps_quiet:
  "conn_steps s t \<Longrightarrow> has_flag (p_data s) FNOREMOTE \<Longrightarrow> Wifi_connect \<notin> set (out s) \<Longrightarrow> Wifi_connect \<notin> set (out t)"
proof (induction rule: conn_steps.induct)
  case (step s t u)
  then show ?case using conn_steps_data [OF step(1)] conn_step_quiet [OF step(2)] by simp
qed simp

subsection \<open>Attempts and pauses\<close>

lemma sta_lost_attempt:
  assumes "3 \<le> STA_action s"
  shows "STA_action s < 6 \<Longrightarrow> STA_action (sta_lost s) = STA_action s + 1 \<and> conAPcntr (sta_lost s) = -1"
    "6 \<le> STA_action s \<Longrightarrow> STA_action (sta_lost s) = 0 \<and> conAPcntr (sta_lost s) = -1001"
  using assms by (simp_all add: sta_lost_def Let_def modConCntr_def emit_def)

lemma sta_lost_first:
  "STA_action s < 3 \<Longrightarrow> \<not> has_flag (p_data s) FNOREMOTE \<Longrightarrow> STA_action (sta_lost s) = 3 \<and> conAPcntr (sta_lost s) = -1"
  by (simp add: sta_lost_def Let_def modConCntr_def emit_def)

lemma p_data_sta_lost [simp]: "p_data (sta_lost s) = p_data s"
  by (simp add: sta_lost_def Let_def)

lemma five_losses:
  assumes "STA_action s < 3" "\<not> has_flag (p_data s) FNOREMOTE"
  shows "STA_action ((sta_lost ^^ 5) s) = 0 \<and> conAPcntr ((sta_lost ^^ 5) s) = -1001"
proof -
  have 1: "STA_action (sta_lost s) = 3" using sta_lost_first [OF assms] by simp
  then have 2: "STA_action (sta_lost (sta_lost s)) = 4"
    using sta_lost_attempt(1) [of "sta_lost s"] by simp
  then have 3: "STA_action (sta_lost (sta_lost (sta_lost s))) = 5"
    using sta_lost_attempt(1) [of "sta_lost (sta_lost s)"] by simp
  then have 4: "STA_action (sta_lost (sta_lost (sta_lost (sta_lost s)))) = 6"
    using sta_lost_attempt(1) [of "sta_lost (sta_lost (sta_lost s))"] by simp
  show ?thesis
    using sta_lost_attempt(2) [of "sta_lost (sta_lost (sta_lost (sta_lost s)))"] 4 by (simp add: numeral_eq_Suc)
qed

lemma pause_counts: "(count_connection ^^ k) (-1001) = -1001 - 10 * int k"
  by (induction k) (simp_all add: count_connection_def)

text \<open>The pause lasts 6000 ticks, a minute; the loop starts the next attempt at the first turn after.\<close>

lemma pause_ends:
  assumes "conAPcntr s = (count_connection ^^ k) (-1001)"
  shows "conAPcntr (loop_attempts s) = (if 6000 \<le> k then -1 else conAPcntr s)"
  using assms
  by (auto simp: loop_attempts_def pause_counts modConCntr_def emit_def pause_ms_def antilock_timeoutMs_def)

section \<open>Properties\<close>

text \<open>C21. The program's own control of the connection: the fifth loss of the access point in a row ends its
  attempts and starts its pause, and the main loop starts anew exactly when the pause counter has run for
  6000 ticks of 10 ms.  That is \<open>AP_CON_PAUSE_MINUTS\<close>, one minute, where the comment in the interrupt
  speaks of ten.  It bounds the attempts of the program only: the library reconnects by itself whatever this
  control does (\<^verbatim>\<open>Lock_Facts\<close>).\<close>

theorem attempts_and_pause:
  assumes "STA_action s < 3" "\<not> has_flag (p_data s) FNOREMOTE"
  shows "STA_action ((sta_lost ^^ 5) s) = 0 \<and> conAPcntr ((sta_lost ^^ 5) s) = -1001 \<and>
    (\<forall>k. conAPcntr (loop_attempts (((sta_lost ^^ 5) s)\<lparr>conAPcntr := (count_connection ^^ k) (conAPcntr ((sta_lost ^^ 5) s))\<rparr>)) = -1
       \<longleftrightarrow> 6000 \<le> k)"
proof (intro conjI allI)
  let ?t = "(sta_lost ^^ 5) s"
  show t: "STA_action ?t = 0" "conAPcntr ?t = -1001" using five_losses [OF assms] by auto
  fix k
  let ?u = "?t\<lparr>conAPcntr := (count_connection ^^ k) (conAPcntr ?t)\<rparr>"
  have "conAPcntr ?u = (count_connection ^^ k) (-1001)" using t(2) by simp
  from pause_ends [OF this] show "conAPcntr (loop_attempts ?u) = -1 \<longleftrightarrow> 6000 \<le> k"
    using t(2) by (simp add: pause_counts)
qed

theorem attempts_and_pause_witness:
  "STA_action ((sta_lost ^^ 5) (initial_device [] [])) = 0"
  by (rule attempts_and_pause [THEN conjunct1])
     (simp_all add: initial_device_def default_SWdata_def has_flag_def flag_defs)

text \<open>With remote control disabled no sequence of driver events makes the device ask the driver for a
  connection, and in any case the attempt counter stays between 0 and 6.\<close>

lemma disabled_remote_never_connects:
  assumes "conn_steps s t" "has_flag (p_data s) FNOREMOTE" "Wifi_connect \<notin> set (out s)" "0 \<le> STA_action s" "STA_action s \<le> 6"
  shows "Wifi_connect \<notin> set (out t) \<and> 0 \<le> STA_action t \<and> STA_action t \<le> 6"
  using conn_steps_quiet [OF assms(1-3)] conn_steps_action [OF assms(1)] assms(4,5) by simp

text \<open>C22. In the default configuration, which talks to its server over TLS, the hard-reset button does not
  restore the defaults: \<open>setup\<close> has created no plain client, and the reset calls \<open>stop\<close> through the
  null pointer before the settings are replaced.\<close>

theorem hard_reset_fails_over_tls:
  assumes "has_flag d FSSL" "l_has_client E = fst (setup_clients d)" "\<not> l_hard_level E"
  shows "snd (loop E s) = Null_pointer"
  using assms by (simp add: loop_def loop_reset_def Let_def setup_clients_def split: if_splits)

theorem hard_reset_fails_over_tls_witness:
  "snd (loop \<lparr>l_wl_connected = False, l_hard_level = False, l_has_client = False, l_garbage = replicate 800 nul,
      l_on_connected = (\<lambda>s. s), l_dns = (\<lambda>s. s), l_handleClient = (\<lambda>s. s), l_RequestTransponder = (\<lambda>s. s)\<rparr>
      (initial_device [] [])) = Null_pointer"
  by (rule hard_reset_fails_over_tls [of "default_SWdata []"])
     (simp_all add: default_SWdata_def has_flag_def flag_defs setup_clients_def)

end
