(* ===== verification/Crt_Bundle.thy ===== *)
theory Crt_Bundle
  imports Arduino_String
begin

text \<open>
  The bundle of root certificates of the TLS client (\<open>esp_crt_bundle.c\<close>): reading the bundle, the
  binary search for the issuer and the callback that decides about a chain whose last link is not
  trusted.  mbedTLS is not part of the source: its functions and constants are arguments.  A pointer
  into the bundle is the list of the bytes from there on.
\<close>

unbundle bit_operations_syntax

section \<open>Reading the bundle\<close>

abbreviation byte_of :: "bytes \<Rightarrow> nat \<Rightarrow> nat" where
  "byte_of b i \<equiv> of_char (char_at b i)"

definition name_len :: "bytes \<Rightarrow> nat" where "name_len c = byte_of c 0 * 256 + byte_of c 1"
definition key_len :: "bytes \<Rightarrow> nat" where "key_len c = byte_of c 2 * 256 + byte_of c 3"

definition CRT_HEADER_OFFSET :: nat where "CRT_HEADER_OFFSET = 4"
definition BUNDLE_HEADER_OFFSET :: nat where "BUNDLE_HEADER_OFFSET = 2"

fun init_loop :: "nat \<Rightarrow> bytes \<Rightarrow> bytes list" where
  "init_loop 0 cur_crt = []"
| "init_loop (Suc n) cur_crt =
     cur_crt # init_loop n (drop (CRT_HEADER_OFFSET + name_len cur_crt + key_len cur_crt) cur_crt)"

text \<open>The state is \<open>s_crt_bundle.crts\<close>, \<open>None\<close> for the null pointer; \<open>mem\<close> tells whether \<open>calloc\<close> succeeds.\<close>

type_synonym crt_bundle = "bytes list option"

definition esp_crt_bundle_init :: "bool \<Rightarrow> bytes \<Rightarrow> crt_bundle \<times> bool" where
  "esp_crt_bundle_init mem x509_bundle =
     (if mem then (Some (init_loop (name_len x509_bundle) (drop BUNDLE_HEADER_OFFSET x509_bundle)), True)
      else (None, False))"

definition esp_crt_bundle_attach :: "bool \<Rightarrow> bytes \<Rightarrow> crt_bundle \<Rightarrow> crt_bundle \<times> bool" where
  "esp_crt_bundle_attach mem imported b =
     (case b of None \<Rightarrow> esp_crt_bundle_init mem imported | Some crts \<Rightarrow> (b, True))"

definition esp_crt_bundle_detach :: "crt_bundle \<Rightarrow> crt_bundle" where
  "esp_crt_bundle_detach b = None"

definition esp_crt_bundle_set :: "bool \<Rightarrow> bytes \<Rightarrow> crt_bundle \<Rightarrow> crt_bundle" where
  "esp_crt_bundle_set mem x509_bundle b = fst (esp_crt_bundle_init mem x509_bundle)"

section \<open>The search\<close>

text \<open>\<open>memcmp\<close>: the sign of the first difference, bytes unsigned.\<close>

fun memcmp :: "nat \<Rightarrow> bytes \<Rightarrow> bytes \<Rightarrow> int" where
  "memcmp 0 a b = 0"
| "memcmp (Suc n) a b =
     (let x = byte_of a 0; y = byte_of b 0 in
      if x = y then memcmp n (drop 1 a) (drop 1 b) else if x < y then - 1 else 1)"

definition compare_issuer :: "bytes \<Rightarrow> bytes \<Rightarrow> int" where
  "compare_issuer issuer crt = memcmp (name_len crt) issuer (drop CRT_HEADER_OFFSET crt)"

text \<open>\<open>middle\<close> is \<open>(start + end) / 2\<close> at every turn; both are not negative there.\<close>

function search :: "bytes list \<Rightarrow> bytes \<Rightarrow> int \<Rightarrow> int \<Rightarrow> nat option" where
  "search crts issuer start stop =
     (if start \<le> stop then
        let middle = (start + stop) div 2; cmp_res = compare_issuer issuer (crts ! nat middle) in
        if cmp_res = 0 then Some (nat middle)
        else if cmp_res < 0 then search crts issuer start (middle - 1)
        else search crts issuer (middle + 1) stop
      else None)"
  by pat_completeness auto
termination
  by (relation "measure (\<lambda>(c, i, s, e). nat (e - s + 1))") auto

declare search.simps [simp del]

section \<open>The decision\<close>

text \<open>
  \<open>parse_pk\<close>, \<open>can_do\<close>, \<open>md\<close> and \<open>verify_ext\<close> are the calls of mbedTLS: the parsed public key or
  an error, the key type test, the hash of the signed part, the signature check.
\<close>

record ('k, 'c, 'h) mbedtls =
  parse_pk :: "bytes \<Rightarrow> int + 'k"
  can_do :: "'k \<Rightarrow> 'c \<Rightarrow> bool"
  md :: "'c \<Rightarrow> int \<times> 'h"
  verify_ext :: "'k \<Rightarrow> 'c \<Rightarrow> 'h \<Rightarrow> int"
  issuer_raw :: "'c \<Rightarrow> bytes"
    \<comment> \<open>the memory from the issuer's name on\<close>
  BADCERT_BAD_MD :: u32
  BADCERT_NOT_TRUSTED :: u32
  ERR_X509_FATAL_ERROR :: int

definition esp_crt_check_signature :: "('k, 'c, 'h) mbedtls \<Rightarrow> 'c \<Rightarrow> bytes \<Rightarrow> int" where
  "esp_crt_check_signature M child pub_key =
     (case parse_pk M pub_key of
        Inl ret \<Rightarrow> ret
      | Inr parent \<Rightarrow>
          if \<not> can_do M parent child then - 1
          else (case md M child of (ret, hash) \<Rightarrow> if ret \<noteq> 0 then ret else verify_ext M parent child hash))"

definition crt_key :: "bytes \<Rightarrow> bytes" where
  "crt_key crt = take (key_len crt) (drop (CRT_HEADER_OFFSET + name_len crt) crt)"

text \<open>The result and the flags it leaves.\<close>

definition esp_crt_verify_callback :: "('k, 'c, 'h) mbedtls \<Rightarrow> crt_bundle \<Rightarrow> 'c \<Rightarrow> u32 \<Rightarrow> int \<times> u32" where
  "esp_crt_verify_callback M b child flags =
     (if flags AND NOT (BADCERT_BAD_MD M) \<noteq> BADCERT_NOT_TRUSTED M then (0, flags)
      else case b of
        None \<Rightarrow> (ERR_X509_FATAL_ERROR M, flags)
      | Some crts \<Rightarrow>
          (let ret = (case search crts (issuer_raw M child) 0 (int (length crts) - 1) of
                        None \<Rightarrow> ERR_X509_FATAL_ERROR M
                      | Some middle \<Rightarrow> esp_crt_check_signature M child (crt_key (crts ! middle)))
           in if ret = 0 then (0, 0) else (ERR_X509_FATAL_ERROR M, flags)))"

section \<open>A bundle as it is generated\<close>

definition byte2 :: "nat \<Rightarrow> bytes" where
  "byte2 n = [char_of (n div 256), char_of (n mod 256)]"

definition bundle_entry :: "bytes \<times> bytes \<Rightarrow> bytes" where
  "bundle_entry c = byte2 (length (fst c)) @ byte2 (length (snd c)) @ fst c @ snd c"

definition bundle_image :: "(bytes \<times> bytes) list \<Rightarrow> bytes" where
  "bundle_image cs = byte2 (length cs) @ concat (map bundle_entry cs)"

text \<open>Names differ at some place, the first of them with the smaller byte.\<close>

definition name_less :: "bytes \<Rightarrow> bytes \<Rightarrow> bool" where
  "name_less a b \<longleftrightarrow>
     (\<exists>p. p < length a \<and> p < length b \<and> take p a = take p b \<and> (of_char (a ! p) :: nat) < of_char (b ! p))"

definition bundle_ok :: "(bytes \<times> bytes) list \<Rightarrow> bool" where
  "bundle_ok cs \<longleftrightarrow> length cs < 65536 \<and> (\<forall>(n, k) \<in> set cs. length n < 65536 \<and> length k < 65536) \<and>
     sorted_wrt name_less (map fst cs)"

lemma byte2_value: "n < 65536 \<Longrightarrow> (of_char (char_of (n div 256)) :: nat) * 256 + of_char (char_of (n mod 256)) = n"
  by (simp add: of_char_of less_mult_imp_div_less)

lemma entry_fields:
  assumes "length n < 65536" "length k < 65536"
  shows "name_len (bundle_entry (n, k) @ t) = length n" "key_len (bundle_entry (n, k) @ t) = length k"
    "drop CRT_HEADER_OFFSET (bundle_entry (n, k) @ t) = n @ k @ t" "crt_key (bundle_entry (n, k) @ t) = k"
    "length (bundle_entry (n, k)) = CRT_HEADER_OFFSET + length n + length k"
proof -
  show f: "name_len (bundle_entry (n, k) @ t) = length n" "key_len (bundle_entry (n, k) @ t) = length k"
    using byte2_value [OF assms(1)] byte2_value [OF assms(2)]
    by (simp_all add: name_len_def key_len_def bundle_entry_def byte2_def char_at_def numeral_2_eq_2 numeral_3_eq_3)
  show d: "drop CRT_HEADER_OFFSET (bundle_entry (n, k) @ t) = n @ k @ t"
    by (simp add: CRT_HEADER_OFFSET_def bundle_entry_def byte2_def)
  have "drop (CRT_HEADER_OFFSET + length n) (bundle_entry (n, k) @ t) = drop (length n) (n @ k @ t)"
    using d by (metis add.commute drop_drop)
  then show "crt_key (bundle_entry (n, k) @ t) = k" by (simp add: crt_key_def f)
  show "length (bundle_entry (n, k)) = CRT_HEADER_OFFSET + length n + length k"
    by (simp add: CRT_HEADER_OFFSET_def bundle_entry_def byte2_def)
qed

lemma init_loop_bundle:
  "\<forall>(n, k) \<in> set cs. length n < 65536 \<and> length k < 65536 \<Longrightarrow>
     length (init_loop (length cs) (concat (map bundle_entry cs))) = length cs \<and>
     (\<forall>i < length cs. \<exists>t. init_loop (length cs) (concat (map bundle_entry cs)) ! i = bundle_entry (cs ! i) @ t)"
proof (induction cs)
  case (Cons c cs)
  obtain n k where c: "c = (n, k)" by fastforce
  have l: "length n < 65536" "length k < 65536" using Cons.prems c by auto
  let ?t = "concat (map bundle_entry cs)"
  have "drop (CRT_HEADER_OFFSET + length n + length k) (bundle_entry (n, k) @ ?t) = ?t"
    using entry_fields(5) [OF l] by (metis append_eq_conv_conj)
  then have i: "init_loop (length (c # cs)) (concat (map bundle_entry (c # cs))) =
      (bundle_entry c @ ?t) # init_loop (length cs) ?t"
    using entry_fields(1,2) [OF l] c by simp
  show ?case
    unfolding i using Cons by (auto simp: nth_Cons split: nat.splits)
qed simp

section \<open>Comparing names\<close>

lemma byte_of_Cons [simp]: "byte_of (c # cs) 0 = of_char c"
  by (simp add: char_at_def)

lemma memcmp_cases:
  "n \<le> length a \<Longrightarrow> n \<le> length b \<Longrightarrow>
     (memcmp n a b = 0 \<longrightarrow> take n a = take n b) \<and>
     (memcmp n a b < 0 \<longrightarrow> (\<exists>p < n. take p a = take p b \<and> (of_char (a ! p) :: nat) < of_char (b ! p))) \<and>
     (0 < memcmp n a b \<longrightarrow> (\<exists>p < n. take p a = take p b \<and> (of_char (b ! p) :: nat) < of_char (a ! p)))"
proof (induction n arbitrary: a b)
  case (Suc n)
  then obtain x a' y b' where ab: "a = x # a'" "b = y # b'" by (cases a; cases b) auto
  have IH: "(memcmp n a' b' = 0 \<longrightarrow> take n a' = take n b') \<and>
     (memcmp n a' b' < 0 \<longrightarrow> (\<exists>p < n. take p a' = take p b' \<and> (of_char (a' ! p) :: nat) < of_char (b' ! p))) \<and>
     (0 < memcmp n a' b' \<longrightarrow> (\<exists>p < n. take p a' = take p b' \<and> (of_char (b' ! p) :: nat) < of_char (a' ! p)))"
    using Suc ab by auto
  show ?case
  proof (cases "x = y")
    case True
    have step: "(\<exists>p < n. take p a' = take p b' \<and> Q (a' ! p) (b' ! p)) \<Longrightarrow>
        (\<exists>p < Suc n. take p (y # a') = take p (y # b') \<and> Q ((y # a') ! p) ((y # b') ! p))" for Q
      by (metis Suc_mono nth_Cons_Suc take_Suc_Cons)
    show ?thesis
      using IH step [of "\<lambda>u v. (of_char u :: nat) < of_char v"] step [of "\<lambda>u v. (of_char v :: nat) < of_char u"]
      by (simp add: ab True)
  next
    case False
    then have "(of_char x :: nat) \<noteq> of_char y" by simp
    then consider "(of_char x :: nat) < of_char y" | "(of_char y :: nat) < of_char x" by linarith
    then show ?thesis by cases (auto simp: ab Let_def intro!: exI [of _ 0])
  qed
qed simp

lemma memcmp_same: "take n a = take n b \<Longrightarrow> n \<le> length a \<Longrightarrow> n \<le> length b \<Longrightarrow> memcmp n a b = 0"
proof (induction n arbitrary: a b)
  case (Suc n)
  then obtain x a' y b' where "a = x # a'" "b = y # b'" by (cases a; cases b) auto
  then show ?case using Suc by simp
qed simp

lemma memcmp_less:
  "p < n \<Longrightarrow> n \<le> length a \<Longrightarrow> n \<le> length b \<Longrightarrow> take p a = take p b \<Longrightarrow>
     (of_char (a ! p) :: nat) < of_char (b ! p) \<Longrightarrow> memcmp n a b < 0"
proof (induction n arbitrary: a b p)
  case (Suc n)
  then obtain x a' y b' where ab: "a = x # a'" "b = y # b'" by (cases a; cases b) auto
  show ?case using Suc ab by (cases p) (auto simp: Let_def)
qed simp

lemma memcmp_append: "n \<le> length b \<Longrightarrow> memcmp n a (b @ t) = memcmp n a b"
proof (induction n arbitrary: a b)
  case (Suc n)
  then obtain y b' where "b = y # b'" by (cases b) auto
  then show ?case using Suc by (simp add: char_at_def Let_def)
qed simp

lemma memcmp_ordered:
  assumes "name_less a b" "memcmp (length a) x a \<le> 0" "length a \<le> length x" "length b \<le> length x"
  shows "memcmp (length b) x b < 0"
proof -
  obtain p where p: "p < length a" "p < length b" "take p a = take p b" "(of_char (a ! p) :: nat) < of_char (b ! p)"
    using assms(1) unfolding name_less_def by blast
  note mc = memcmp_cases [of "length a" x a]
  show ?thesis
  proof (cases "memcmp (length a) x a = 0")
    case True
    then have e: "take (length a) x = a" using mc assms(3) by simp
    then have "take p x = take p b" using p(1,3) by (metis min.absorb1 less_imp_le take_take)
    moreover have "x ! p = a ! p" using e p(1) by (metis nth_take)
    ultimately show ?thesis using p assms(4) by (intro memcmp_less [of p]) auto
  next
    case False
    then obtain q where q: "q < length a" "take q x = take q a" "(of_char (x ! q) :: nat) < of_char (a ! q)"
      using mc assms(2,3) by auto
    show ?thesis
    proof (cases "q < p")
      case True
      then have "take q a = take q b" "a ! q = b ! q"
        using p(3) by (metis min.absorb1 less_imp_le take_take, metis nth_take)
      then show ?thesis using q p(2) True assms(4) by (intro memcmp_less [of q]) auto
    next
      case False
      then have "take p x = take p a" using q(2) by (metis min.absorb1 leI take_take)
      moreover have "(of_char (x ! p) :: nat) \<le> of_char (a ! p)"
        using q False by (cases "q = p") (simp, metis le_neq_implies_less nth_take not_less order_refl)
      ultimately show ?thesis using p assms(4) by (intro memcmp_less [of p]) auto
    qed
  qed
qed

section \<open>The search is right\<close>

lemma search_spec:
  assumes ord: "\<And>i j. i < j \<Longrightarrow> j < length crts \<Longrightarrow>
    compare_issuer x (crts ! i) \<le> 0 \<Longrightarrow> compare_issuer x (crts ! j) < 0"
  shows "0 \<le> start \<Longrightarrow> stop < int (length crts) \<Longrightarrow>
    (case search crts x start stop of
       Some m \<Rightarrow> m < length crts \<and> compare_issuer x (crts ! m) = 0
     | None \<Rightarrow> \<forall>k < length crts. start \<le> int k \<and> int k \<le> stop \<longrightarrow> compare_issuer x (crts ! k) \<noteq> 0)"
proof (induction "nat (stop - start + 1)" arbitrary: start stop rule: less_induct)
  case less
  show ?case
  proof (cases "start \<le> stop")
    case False
    then show ?thesis by (subst search.simps) auto
  next
    case True
    define m where "m = (start + stop) div 2"
    let ?c = "\<lambda>k. compare_issuer x (crts ! k)"
    have m: "start \<le> m" "m \<le> stop" using True by (auto simp: m_def)
    have nm: "nat m < length crts" "0 \<le> m" using m less.prems by linarith+
    have step: "search crts x start stop =
        (if ?c (nat m) = 0 then Some (nat m)
         else if ?c (nat m) < 0 then search crts x start (m - 1) else search crts x (m + 1) stop)"
      using True by (subst search.simps) (simp add: m_def Let_def)
    consider "?c (nat m) = 0" | "?c (nat m) < 0" | "0 < ?c (nat m)" by linarith
    then show ?thesis
    proof cases
      case 1
      then show ?thesis using step nm by simp
    next
      case 2
      have "case search crts x start (m - 1) of
          Some m \<Rightarrow> m < length crts \<and> ?c m = 0
        | None \<Rightarrow> \<forall>k < length crts. start \<le> int k \<and> int k \<le> m - 1 \<longrightarrow> ?c k \<noteq> 0"
        by (rule less.hyps) (use m less.prems in auto)
      moreover have "?c k \<noteq> 0" if "k < length crts" "m \<le> int k" for k
      proof (cases "k = nat m")
        case False
        then have "nat m < k" using that(2) nm by linarith
        then show ?thesis using ord [of "nat m" k] 2 that(1) by auto
      qed (use 2 in simp)
      ultimately show ?thesis using step 2 by (simp split: option.splits) (metis not_le)
    next
      case 3
      have "case search crts x (m + 1) stop of
          Some m \<Rightarrow> m < length crts \<and> ?c m = 0
        | None \<Rightarrow> \<forall>k < length crts. m + 1 \<le> int k \<and> int k \<le> stop \<longrightarrow> ?c k \<noteq> 0"
        by (rule less.hyps) (use m less.prems in auto)
      moreover have "?c k \<noteq> 0" if "k < length crts" "int k \<le> m" for k
      proof (cases "k = nat m")
        case False
        then have "k < nat m" using that(2) nm by linarith
        then show ?thesis using ord [of k "nat m"] 3 nm by auto
      qed (use 3 in simp)
      ultimately show ?thesis using step 3 by (simp split: option.splits) (metis not_le zless_imp_add1_zle)
    qed
  qed
qed

lemma bundle_read:
  assumes "bundle_ok cs"
  shows "\<exists>crts. esp_crt_bundle_init True (bundle_image cs) = (Some crts, True) \<and> length crts = length cs \<and>
    (\<forall>i < length cs. \<exists>t. crts ! i = bundle_entry (cs ! i) @ t)"
proof -
  have l: "\<forall>(n, k) \<in> set cs. length n < 65536 \<and> length k < 65536" "length cs < 65536"
    using assms by (auto simp: bundle_ok_def)
  have "name_len (bundle_image cs) = length cs"
    using byte2_value [OF l(2)] by (simp add: name_len_def bundle_image_def byte2_def char_at_def)
  moreover have "drop BUNDLE_HEADER_OFFSET (bundle_image cs) = concat (map bundle_entry cs)"
    by (simp add: BUNDLE_HEADER_OFFSET_def bundle_image_def byte2_def)
  ultimately show ?thesis using init_loop_bundle [OF l(1)] by (simp add: esp_crt_bundle_init_def)
qed

lemma compare_entry:
  assumes "length n < 65536" "length k < 65536"
  shows "compare_issuer x (bundle_entry (n, k) @ t) = memcmp (length n) x n"
  unfolding compare_issuer_def entry_fields(1,3) [OF assms] by (simp add: memcmp_append)

lemma search_bundle:
  assumes ok: "bundle_ok cs" and crts: "length crts = length cs" "\<forall>i < length cs. \<exists>t. crts ! i = bundle_entry (cs ! i) @ t"
    and x: "\<forall>(n, k) \<in> set cs. length n \<le> length x"
  shows "case search crts x 0 (int (length crts) - 1) of
      Some m \<Rightarrow> m < length cs \<and> take (length (fst (cs ! m))) x = fst (cs ! m) \<and> crt_key (crts ! m) = snd (cs ! m)
    | None \<Rightarrow> \<forall>(n, k) \<in> set cs. take (length n) x \<noteq> n"
proof -
  have len: "length (fst (cs ! i)) < 65536" "length (snd (cs ! i)) < 65536" "length (fst (cs ! i)) \<le> length x"
    if "i < length cs" for i
    using ok x nth_mem [OF that] by (auto simp: bundle_ok_def case_prod_beta)
  have c: "compare_issuer x (crts ! i) = memcmp (length (fst (cs ! i))) x (fst (cs ! i))"
    and key: "crt_key (crts ! i) = snd (cs ! i)" if i: "i < length cs" for i
  proof -
    obtain t where "crts ! i = bundle_entry (fst (cs ! i), snd (cs ! i)) @ t" using crts(2) i by auto
    then show "compare_issuer x (crts ! i) = memcmp (length (fst (cs ! i))) x (fst (cs ! i))"
      "crt_key (crts ! i) = snd (cs ! i)"
      using compare_entry [OF len(1,2) [OF i]] entry_fields(4) [OF len(1,2) [OF i]] by simp_all
  qed
  have found: "compare_issuer x (crts ! i) = 0 \<longleftrightarrow> take (length (fst (cs ! i))) x = fst (cs ! i)" if i: "i < length cs" for i
    using memcmp_cases [of "length (fst (cs ! i))" x "fst (cs ! i)"] memcmp_same [of "length (fst (cs ! i))" x "fst (cs ! i)"]
      len(3) [OF i] c [OF i] by auto
  have ord: "compare_issuer x (crts ! j) < 0" if "i < j" "j < length crts" "compare_issuer x (crts ! i) \<le> 0" for i j
  proof -
    have "name_less (fst (cs ! i)) (fst (cs ! j))"
      using ok that crts(1) by (auto simp: bundle_ok_def sorted_wrt_iff_nth_less)
    then show ?thesis
      using memcmp_ordered [of "fst (cs ! i)" "fst (cs ! j)" x] that crts(1) c len(3) by auto
  qed
  have "case search crts x 0 (int (length crts) - 1) of
      Some m \<Rightarrow> m < length crts \<and> compare_issuer x (crts ! m) = 0
    | None \<Rightarrow> \<forall>k < length crts. 0 \<le> int k \<and> int k \<le> int (length crts) - 1 \<longrightarrow> compare_issuer x (crts ! k) \<noteq> 0"
    by (rule search_spec) (use ord in auto)
  then show ?thesis
    using found key crts(1) by (fastforce split: option.splits simp: in_set_conv_nth)
qed

lemma one_issuer:
  assumes "bundle_ok cs" "i < length cs" "j < length cs"
    and "take (length (fst (cs ! i))) x = fst (cs ! i)" "take (length (fst (cs ! j))) x = fst (cs ! j)"
  shows "i = j"
proof -
  have "\<not> a < b" if "b < length cs" "take (length (fst (cs ! a))) x = fst (cs ! a)"
      "take (length (fst (cs ! b))) x = fst (cs ! b)" for a b
  proof
    assume ab: "a < b"
    have less: "name_less (fst (cs ! a)) (fst (cs ! b))"
      using assms(1) ab that(1) by (auto simp: bundle_ok_def sorted_wrt_iff_nth_less)
    have l: "length (fst (cs ! a)) \<le> length x" "length (fst (cs ! b)) \<le> length x"
      using that(2,3) by (metis length_take min.cobounded1)+
    have "memcmp (length (fst (cs ! a))) x (fst (cs ! a)) = 0" "memcmp (length (fst (cs ! b))) x (fst (cs ! b)) = 0"
      using that l by (auto intro: memcmp_same)
    then show False using memcmp_ordered [OF less, of x] l by simp
  qed
  then show ?thesis using assms by (metis linorder_neqE_nat)
qed

lemma callback_bundle:
  assumes ok: "bundle_ok cs" and x: "\<forall>(n, k) \<in> set cs. length n \<le> length (issuer_raw M child)"
    and err: "ERR_X509_FATAL_ERROR M \<noteq> 0" and fl: "flags AND NOT (BADCERT_BAD_MD M) = BADCERT_NOT_TRUSTED M"
  shows "esp_crt_verify_callback M (fst (esp_crt_bundle_init True (bundle_image cs))) child flags =
    (if \<exists>(n, k) \<in> set cs. take (length n) (issuer_raw M child) = n \<and> esp_crt_check_signature M child k = 0
     then (0, 0) else (ERR_X509_FATAL_ERROR M, flags))"
proof -
  let ?x = "issuer_raw M child"
  obtain crts where crts: "esp_crt_bundle_init True (bundle_image cs) = (Some crts, True)" "length crts = length cs"
    "\<forall>i < length cs. \<exists>t. crts ! i = bundle_entry (cs ! i) @ t"
    using bundle_read [OF ok] by blast
  note sb = search_bundle [OF ok crts(2,3) x]
  show ?thesis
  proof (cases "search crts ?x 0 (int (length crts) - 1)")
    case None
    then have "\<forall>(n, k) \<in> set cs. take (length n) ?x \<noteq> n" using sb by simp
    then show ?thesis using None crts(1) err fl by (auto simp: esp_crt_verify_callback_def)
  next
    case (Some m)
    then have m: "m < length cs" "take (length (fst (cs ! m))) ?x = fst (cs ! m)" "crt_key (crts ! m) = snd (cs ! m)"
      using sb by simp_all
    have "(\<exists>(n, k) \<in> set cs. take (length n) ?x = n \<and> esp_crt_check_signature M child k = 0) \<longleftrightarrow>
        esp_crt_check_signature M child (snd (cs ! m)) = 0"
    proof
      assume "\<exists>(n, k) \<in> set cs. take (length n) ?x = n \<and> esp_crt_check_signature M child k = 0"
      then obtain c where c: "c \<in> set cs" "take (length (fst c)) ?x = fst c" "esp_crt_check_signature M child (snd c) = 0"
        by auto
      from c(1) obtain i where i: "i < length cs" "c = cs ! i" by (auto simp: in_set_conv_nth)
      then have "m = i" using one_issuer [OF ok m(1) i(1) m(2)] c(2) by simp
      then show "esp_crt_check_signature M child (snd (cs ! m)) = 0" using c(3) i(2) by simp
    next
      assume "esp_crt_check_signature M child (snd (cs ! m)) = 0"
      then show "\<exists>(n, k) \<in> set cs. take (length n) ?x = n \<and> esp_crt_check_signature M child k = 0"
        using m(1,2) by (intro bexI [of _ "cs ! m"]) auto
    qed
    then show ?thesis using Some m(3) crts(1) err fl by (simp add: esp_crt_verify_callback_def Let_def)
  qed
qed

section \<open>Properties\<close>

text \<open>C9. With a bundle as its generator writes it, sorted by name, the callback accepts a chain whose last
  link is not trusted exactly when the bundle holds the issuer's name and the issuer's key verifies
  the signature; it then clears the flags, and otherwise fails and leaves them.\<close>

theorem trusted_iff_in_bundle:
  assumes "bundle_ok cs" "\<forall>(n, k) \<in> set cs. length n \<le> length (issuer_raw M child)"
    and "ERR_X509_FATAL_ERROR M \<noteq> 0" "flags AND NOT (BADCERT_BAD_MD M) = BADCERT_NOT_TRUSTED M"
  shows "esp_crt_verify_callback M (fst (esp_crt_bundle_init True (bundle_image cs))) child flags =
    (if \<exists>(n, k) \<in> set cs. take (length n) (issuer_raw M child) = n \<and> esp_crt_check_signature M child k = 0
     then (0, 0) else (ERR_X509_FATAL_ERROR M, flags))"
  using assms by (rule callback_bundle)

definition sample_tls :: "(bytes, bytes, unit) mbedtls" where
  "sample_tls =
     \<lparr>parse_pk = (\<lambda>k. if k = [] then Inl (- 1) else Inr k), can_do = (\<lambda>k c. True), md = (\<lambda>c. (0, ())),
      verify_ext = (\<lambda>k c h. if take 1 (rev c) = k then 0 else - 1), issuer_raw = (\<lambda>c. c),
      BADCERT_BAD_MD = 16384, BADCERT_NOT_TRUSTED = 8, ERR_X509_FATAL_ERROR = - 12288\<rparr>"

theorem trusted_iff_in_bundle_witness:
  "esp_crt_verify_callback sample_tls
     (fst (esp_crt_bundle_init True (bundle_image [(''CA1'', ''p''), (''CA2'', ''q''), (''CA3'', ''r'')]))) ''CA2...q'' 8 = (0, 0) \<and>
   esp_crt_verify_callback sample_tls
     (fst (esp_crt_bundle_init True (bundle_image [(''CA1'', ''p''), (''CA2'', ''q''), (''CA3'', ''r'')]))) ''CA3...q'' 8 = (- 12288, 8)"
proof -
  let ?cs = "[(''CA1'', ''p''), (''CA2'', ''q''), (''CA3'', ''r'')]"
  have less: "name_less ''CA1'' ''CA2''" "name_less ''CA1'' ''CA3''" "name_less ''CA2'' ''CA3''"
    by (auto simp: name_less_def intro!: exI [of _ 2])
  have "bundle_ok ?cs" using less by (simp add: bundle_ok_def)
  moreover have "\<forall>(n, k) \<in> set ?cs. length n \<le> length (issuer_raw sample_tls c)" if "length c = 7" for c
    using that by (simp add: sample_tls_def)
  moreover have "ERR_X509_FATAL_ERROR sample_tls \<noteq> 0" "8 AND NOT (BADCERT_BAD_MD sample_tls) = BADCERT_NOT_TRUSTED sample_tls"
    by (simp_all add: sample_tls_def)
  ultimately have
    "esp_crt_verify_callback sample_tls (fst (esp_crt_bundle_init True (bundle_image ?cs))) c 8 =
      (if \<exists>(n, k) \<in> set ?cs. take (length n) (issuer_raw sample_tls c) = n \<and> esp_crt_check_signature sample_tls c k = 0
       then (0, 0) else (ERR_X509_FATAL_ERROR sample_tls, 8))" if "length c = 7" for c
    using trusted_iff_in_bundle [of ?cs sample_tls c 8] that by blast
  from this [of "''CA2...q''"] this [of "''CA3...q''"] show ?thesis
    by (simp add: sample_tls_def esp_crt_check_signature_def)
qed

end
