(* ===== verification/Ftp_Client.thy ===== *)
theory Ftp_Client
  imports Flash_Layout
begin

text \<open>
  The FTP client that uploads the transponder script (\<open>FTPClient.cpp\<close>, \<open>upload_transponder\<close> of
  \<open>SW_http.cpp\<close>).  The network is a list of answers, one per wait for an answer (\<open>None\<close>: nothing
  comes within the time limit), and a list of the results of \<open>connect\<close>.  Listings and downloads are
  in \<open>Ftp_Files\<close>.
\<close>

section \<open>The client\<close>

record ftp =
  outBuf :: bytes
  outCount :: nat
  ftpConnected :: bool
  sent :: "string list"
    \<comment> \<open>lines on the control connection\<close>
  dataAddress :: "(nat list \<times> nat) option"
  dataWritten :: "((nat list \<times> nat) option \<times> bytes) list"
    \<comment> \<open>the writes on the data connection, with its address\<close>
  answers :: "bytes option list"
  connects :: "bool list"

record ftp_account =
  userName :: string
  passWord :: string

definition OUTBUF :: nat where "OUTBUF = 128"
definition bufferSize :: nat where "bufferSize = 1500"

definition println :: "string \<Rightarrow> ftp \<Rightarrow> ftp" where
  "println line s = s\<lparr>sent := sent s @ [line]\<rparr>"

definition connect :: "ftp \<Rightarrow> bool \<times> ftp" where
  "connect s = (case connects s of [] \<Rightarrow> (False, s) | c # cs \<Rightarrow> (c, s\<lparr>connects := cs\<rparr>))"

section \<open>Answers\<close>

text \<open>
  The byte after the last goes to \<open>outBuf[outCount]\<close>, which behind the 128 elements is the next
  member of the object, \<open>outCount\<close> itself: after 128 bytes the count is 0 again.
\<close>

fun answer_loop :: "bytes \<Rightarrow> bytes \<Rightarrow> nat \<Rightarrow> bytes \<times> nat" where
  "answer_loop [] buf n = (buf, n)"
| "answer_loop (b # bs) buf n =
     (if n < OUTBUF
      then (let buf1 = buf[n := b] in
            if n + 1 < OUTBUF then answer_loop bs (buf1[n + 1 := nul]) (n + 1) else answer_loop bs buf1 0)
      else answer_loop bs buf n)"

definition GetFTPAnswer :: "ftp \<Rightarrow> bool \<times> ftp" where
  "GetFTPAnswer s =
     (let offline = (False, s\<lparr>outBuf := char_array OUTBUF ''Offline'', outCount := 0, ftpConnected := False,
                              answers := tl (answers s)\<rparr>) in
      case answers s of
        Some (b # bs) # as \<Rightarrow>
          (let (buf, n) = answer_loop (b # bs) (outBuf s) 0;
               ok = (buf ! 0 \<noteq> CHR ''4'' \<and> buf ! 0 \<noteq> CHR ''5'')
           in (ok, s\<lparr>outBuf := buf, outCount := n, ftpConnected := ok, answers := as\<rparr>))
      | _ \<Rightarrow> offline)"

section \<open>Commands\<close>

text \<open>Steps that stop at the first that fails.\<close>

definition and_then :: "(ftp \<Rightarrow> bool \<times> ftp) \<Rightarrow> (ftp \<Rightarrow> bool \<times> ftp) \<Rightarrow> ftp \<Rightarrow> bool \<times> ftp" where
  "and_then f g s = (let (ok, s1) = f s in if ok then g s1 else (False, s1))"

definition ask :: "string \<Rightarrow> ftp \<Rightarrow> bool \<times> ftp" where
  "ask line s = GetFTPAnswer (println line s)"

definition OpenConnection :: "ftp_account \<Rightarrow> ftp \<Rightarrow> bool \<times> ftp" where
  "OpenConnection a =
     and_then connect (and_then GetFTPAnswer (and_then (ask (''USER '' @ cstr (userName a)))
       (and_then (ask (''PASS '' @ cstr (passWord a))) (ask ''SYST''))))"

definition CloseConnection :: "ftp \<Rightarrow> ftp" where
  "CloseConnection s = println ''QUIT'' s"

text \<open>\<open>strtok\<close> with the delimiters \<open>(\<close> and comma: the token, the buffer with its end overwritten, the place to go on.\<close>

definition is_delim :: "char \<Rightarrow> bool" where
  "is_delim c \<longleftrightarrow> c = CHR ''('' \<or> c = CHR '',''"

definition strtok :: "bytes \<Rightarrow> nat \<Rightarrow> (string \<times> bytes \<times> nat) option" where
  "strtok buf pos =
     (let t = cstr (drop pos buf);
          skip = length (takeWhile is_delim t);
          tok = takeWhile (\<lambda>c. \<not> is_delim c) (drop skip t);
          e = pos + skip + length tok
      in if tok = [] then None
         else if char_at buf e = nul then Some (tok, buf, e) else Some (tok, buf[e := nul], e + 1))"

fun pasv_loop :: "nat \<Rightarrow> bytes \<Rightarrow> nat \<Rightarrow> int list \<Rightarrow> int list option \<times> bytes" where
  "pasv_loop 0 buf pos array_pasv = (Some array_pasv, buf)"
| "pasv_loop (Suc n) buf pos array_pasv =
     (case strtok buf pos of
        None \<Rightarrow> (None, buf)
      | Some (tok, buf1, pos1) \<Rightarrow> pasv_loop n buf1 pos1 (array_pasv @ [strtol tok]))"

definition parse_pasv :: "bytes \<Rightarrow> int list option \<times> bytes" where
  "parse_pasv buf =
     (case strtok buf 0 of
        None \<Rightarrow> (None, buf)
      | Some (tok, buf1, pos1) \<Rightarrow> pasv_loop 6 buf1 pos1 [])"

text \<open>The octets of an \<open>IPAddress\<close> are bytes; the port is passed as 16 bits.\<close>

definition pasv_address :: "int list \<Rightarrow> nat list \<times> nat" where
  "pasv_address a =
     (map (\<lambda>i. nat (a ! i mod 256)) [0, 1, 2, 3],
      let hiPort = word_of_int (a ! 4) * 256 :: u32; loPort = word_of_int (a ! 5) AND 255 :: u32
      in unat (hiPort OR loPort) mod 65536)"

definition InitFile :: "string \<Rightarrow> ftp \<Rightarrow> bool \<times> ftp" where
  "InitFile type s =
     (if \<not> ftpConnected s then (False, s)
      else and_then (ask type) (and_then (ask ''PASV'') (\<lambda>s1.
        (let (res, buf) = parse_pasv (outBuf s1); s2 = s1\<lparr>outBuf := buf\<rparr> in
         case res of
           None \<Rightarrow> (False, CloseConnection s2)
         | Some a \<Rightarrow>
             (let (ok, s3) = connect s2 in
              if ok then (True, s3\<lparr>dataAddress := Some (pasv_address a)\<rparr>) else (False, s3))))) s)"

text \<open>The answer to \<open>STOR\<close> and \<open>APPE\<close> is read, its result is not used.\<close>

definition NewFile :: "string \<Rightarrow> ftp \<Rightarrow> bool \<times> ftp" where
  "NewFile fileName s =
     (if \<not> ftpConnected s then (False, s) else (True, snd (ask (''STOR '' @ fileName) s)))"

definition AppendFile :: "string \<Rightarrow> ftp \<Rightarrow> bool \<times> ftp" where
  "AppendFile fileName s =
     (if \<not> ftpConnected s then (False, s) else (True, snd (ask (''APPE '' @ fileName) s)))"

definition ChangeWorkDir :: "string \<Rightarrow> ftp \<Rightarrow> bool \<times> ftp" where
  "ChangeWorkDir dir s = (if \<not> ftpConnected s then (False, s) else ask (''CWD '' @ dir) s)"

definition DeleteFile :: "string \<Rightarrow> ftp \<Rightarrow> ftp" where
  "DeleteFile file s = (if \<not> ftpConnected s then s else snd (ask (''DELE '' @ file) s))"

definition MakeDir :: "string \<Rightarrow> ftp \<Rightarrow> ftp" where
  "MakeDir dir s = (if \<not> ftpConnected s then s else snd (ask (''MKD '' @ dir) s))"

definition RenameFile :: "string \<Rightarrow> string \<Rightarrow> ftp \<Rightarrow> ftp" where
  "RenameFile old to s =
     (if \<not> ftpConnected s then s
      else snd (ask (''RNTO '' @ to) (snd (ask (''RNFR '' @ old) s))))"

definition Write :: "string \<Rightarrow> ftp \<Rightarrow> bool \<times> ftp" where
  "Write str s =
     (if \<not> ftpConnected s then (False, s) else (True, s\<lparr>dataWritten := dataWritten s @ [(dataAddress s, cstr str)]\<rparr>))"

text \<open>The buffer \<open>clientBuf\<close> is written out whenever it is full.\<close>

fun buffer_loop :: "bytes \<Rightarrow> bytes \<Rightarrow> bytes list" where
  "buffer_loop [] clientBuf = (if 0 < length clientBuf then [clientBuf] else [])"
| "buffer_loop (b # bs) clientBuf =
     (if bufferSize - 1 < length clientBuf + 1 then (clientBuf @ [b]) # buffer_loop bs []
      else buffer_loop bs (clientBuf @ [b]))"

definition WriteClientBuffered :: "bytes \<Rightarrow> ftp \<Rightarrow> ftp" where
  "WriteClientBuffered data s =
     (if \<not> ftpConnected s then s else s\<lparr>dataWritten := dataWritten s @ map (Pair (dataAddress s)) (buffer_loop data [])\<rparr>)"

definition WriteData :: "bytes \<Rightarrow> ftp \<Rightarrow> bool \<times> ftp" where
  "WriteData data s = (if \<not> ftpConnected s then (False, s) else (True, WriteClientBuffered data s))"

definition CloseFile :: "ftp \<Rightarrow> ftp" where
  "CloseFile s =
     (let s1 = s\<lparr>dataAddress := None\<rparr> in if \<not> ftpConnected s1 then s1 else snd (GetFTPAnswer s1))"

section \<open>The upload\<close>

definition account_of :: "SWdata \<Rightarrow> ftp_account" where
  "account_of d = \<lparr>userName = char_ptr d 24, passWord = char_ptr d 25\<rparr>"

text \<open>A step whose failure closes the connection.\<close>

definition or_close :: "(ftp \<Rightarrow> bool \<times> ftp) \<Rightarrow> ftp \<Rightarrow> bool \<times> ftp" where
  "or_close f s = (let (ok, s1) = f s in if ok then (True, s1) else (False, CloseConnection s1))"

definition upload_transponder :: "SWdata \<Rightarrow> string \<Rightarrow> ftp \<Rightarrow> bool \<times> ftp" where
  "upload_transponder d transponder_php =
     and_then (OpenConnection (account_of d)) (and_then (InitFile ''Type A'') (and_then (or_close (InitFile ''Type I''))
       (and_then (or_close (NewFile (char_ptr d 1 @ ''.php'')))
         (and_then (or_close (Write transponder_php)) (\<lambda>s. (True, CloseConnection (CloseFile s)))))))"

section \<open>Short answers\<close>

lemma answer_loop_short:
  "bs \<noteq> [] \<Longrightarrow> n + length bs < OUTBUF \<Longrightarrow> length buf = OUTBUF \<Longrightarrow>
     answer_loop bs buf n = (take n buf @ bs @ nul # drop (n + length bs + 1) buf, n + length bs)"
proof (induction bs arbitrary: buf n)
  case (Cons b bs)
  have n: "n < OUTBUF" "n + 1 < OUTBUF" using Cons.prems by auto
  have buf: "buf[n := b, n + 1 := nul] = take n buf @ [b, nul] @ drop (n + 2) buf"
    using n Cons.prems(3)
    by (intro nth_equalityI)
      (auto simp: nth_append nth_list_update nth_Cons split: nat.splits intro!: arg_cong [of _ _ "(!) buf"])
  show ?case
  proof (cases "bs = []")
    case True
    then show ?thesis using n buf by (simp add: Let_def)
  next
    case False
    have "answer_loop bs (take n buf @ [b, nul] @ drop (n + 2) buf) (n + 1) =
        (take (n + 1) (take n buf @ [b, nul] @ drop (n + 2) buf) @ bs @ nul #
         drop (n + 1 + length bs + 1) (take n buf @ [b, nul] @ drop (n + 2) buf), n + 1 + length bs)"
      by (rule Cons.IH) (use Cons.prems False n in auto)
    moreover have "take (n + 1) (take n buf @ [b, nul] @ drop (n + 2) buf) = take n buf @ [b]"
      using n Cons.prems(3) by simp
    moreover have "drop (n + 1 + length bs + 1) (take n buf @ [b, nul] @ drop (n + 2) buf) = drop (n + length (b # bs) + 1) buf"
      using n Cons.prems(3) False by (cases bs) (simp_all add: ac_simps numeral_3_eq_3)
    ultimately show ?thesis using n buf by (simp add: Let_def)
  qed
qed simp

text \<open>Behind 128 bytes the buffer is filled from its start again.\<close>

lemma answer_loop_long:
  "n < OUTBUF \<Longrightarrow> OUTBUF \<le> n + length bs \<Longrightarrow> length buf = OUTBUF \<Longrightarrow>
     answer_loop bs buf n = answer_loop (drop (OUTBUF - n) bs) (take n buf @ take (OUTBUF - n) bs) 0"
proof (induction bs arbitrary: buf n)
  case (Cons b bs)
  show ?case
  proof (cases "n + 1 < OUTBUF")
    case False
    then have n: "OUTBUF - n = 1" "n = OUTBUF - 1" using Cons.prems(1) by auto
    have "buf[n := b] = take n buf @ [b]"
      using Cons.prems(1,3) n by (simp add: upd_conv_take_nth_drop)
    then show ?thesis using Cons.prems(1) False n(1) by (simp add: Let_def)
  next
    case True
    have "answer_loop bs (buf[n := b, n + 1 := nul]) (n + 1) =
        answer_loop (drop (OUTBUF - (n + 1)) bs) (take (n + 1) (buf[n := b, n + 1 := nul]) @ take (OUTBUF - (n + 1)) bs) 0"
      by (rule Cons.IH) (use Cons.prems True in auto)
    moreover have "take (n + 1) (buf[n := b, n + 1 := nul]) = take n buf @ [b]"
      using True Cons.prems(3) by (simp add: take_Suc_conv_app_nth)
    moreover have "OUTBUF - n = Suc (OUTBUF - (n + 1))" using True by simp
    ultimately show ?thesis using True by (simp add: Let_def)
  qed
qed simp

definition positive :: "bytes \<Rightarrow> bool" where
  "positive r \<longleftrightarrow> r \<noteq> [] \<and> length r < OUTBUF \<and> hd r \<noteq> CHR ''4'' \<and> hd r \<noteq> CHR ''5''"

definition answered :: "bytes \<Rightarrow> ftp \<Rightarrow> ftp" where
  "answered r s =
     s\<lparr>outBuf := r @ nul # drop (length r + 1) (outBuf s), outCount := length r, ftpConnected := True,
       answers := tl (answers s)\<rparr>"

lemma GetFTPAnswer_positive:
  assumes "answers s = Some r # as" "positive r" "length (outBuf s) = OUTBUF"
  shows "GetFTPAnswer s = (True, answered r s)"
proof -
  obtain b bs where r: "r = b # bs" using assms(2) by (cases r) (auto simp: positive_def)
  have "answer_loop r (outBuf s) 0 = (r @ nul # drop (length r + 1) (outBuf s), length r)"
    using answer_loop_short [of r 0 "outBuf s"] assms(2,3) by (simp add: positive_def)
  then show ?thesis using assms(1,2) r by (simp add: GetFTPAnswer_def answered_def positive_def)
qed

lemma answered_buf: "positive r \<Longrightarrow> length (outBuf s) = OUTBUF \<Longrightarrow> length (outBuf (answered r s)) = OUTBUF"
  by (simp add: answered_def positive_def)

text \<open>An answer longer than the buffer is judged by the byte that comes behind the first 128.\<close>

lemma long_answer:
  assumes "answers s = Some r # as" "length (outBuf s) = OUTBUF" "OUTBUF < length r" "length r < 2 * OUTBUF"
  shows "fst (GetFTPAnswer s) \<longleftrightarrow> r ! OUTBUF \<noteq> CHR ''4'' \<and> r ! OUTBUF \<noteq> CHR ''5''"
proof -
  have "answer_loop r (outBuf s) 0 = answer_loop (drop OUTBUF r) (take OUTBUF r) 0"
    using answer_loop_long [of 0 r "outBuf s"] assms by (simp add: OUTBUF_def)
  also have "\<dots> = (drop OUTBUF r @ nul # drop (length (drop OUTBUF r) + 1) (take OUTBUF r), length (drop OUTBUF r))"
    using answer_loop_short [of "drop OUTBUF r" 0 "take OUTBUF r"] assms by simp
  finally have "fst (answer_loop r (outBuf s) 0) ! 0 = r ! OUTBUF"
    using assms(3) by (simp add: nth_append)
  moreover obtain b bs where "r = b # bs" using assms(3) by (cases r) auto
  ultimately show ?thesis using assms(1) by (simp add: GetFTPAnswer_def Let_def case_prod_beta)
qed

section \<open>The passive address\<close>

lemma scan_number_stop:
  assumes "t = [] \<or> \<not> is_digit (hd t)"
  shows "scan_number (dec n @ t) = (False, n)"
proof -
  have c: "cstr (dec n @ t) = dec n @ cstr t"
    unfolding cstr_def by (rule takeWhile_append2) (use dec_plain in blast)
  have d: "dropWhile is_space (dec n @ cstr t) = dec n @ cstr t"
    by (rule dropWhile_stop) (use dec_plain [of "hd (dec n)" n] in auto)
  have "takeWhile is_digit (dec n @ cstr t) = dec n @ takeWhile is_digit (cstr t)"
    by (rule takeWhile_append2) (rule dec_digits)
  moreover have "takeWhile is_digit (cstr t) = []"
    using assms by (cases t) (auto simp: cstr_def)
  ultimately have t: "takeWhile is_digit (dec n @ cstr t) = dec n" by simp
  have h: "hd (dec n @ cstr t) \<noteq> CHR ''-'' \<and> hd (dec n @ cstr t) \<noteq> CHR ''+''"
    using dec_plain [of "hd (dec n)" n] by auto
  show ?thesis unfolding scan_number_def c d Let_def using h t by simp
qed

lemma strtol_stop: "int n \<le> int32_max \<Longrightarrow> t = [] \<or> \<not> is_digit (hd t) \<Longrightarrow> strtol (dec n @ t) = int n"
  by (simp add: strtol_def scan_number_stop)

definition token :: "string \<Rightarrow> bool" where
  "token t \<longleftrightarrow> t \<noteq> [] \<and> (\<forall>c \<in> set t. \<not> is_delim c \<and> c \<noteq> nul)"

lemma strtok_delim:
  assumes "token t" "is_delim d"
  shows "strtok (pre @ t @ d # rest) (length pre) = Some (t, pre @ t @ nul # rest, length pre + length t + 1)"
proof -
  have d: "d \<noteq> nul" using assms(2) by (auto simp: is_delim_def)
  have "cstr (drop (length pre) (pre @ t @ d # rest)) = t @ d # cstr rest"
    using assms(1) d by (simp add: cstr_def token_def takeWhile_append2)
  moreover have "takeWhile is_delim (t @ d # cstr rest) = []"
    using assms(1) by (cases t) (auto simp: token_def)
  moreover have "takeWhile (\<lambda>c. \<not> is_delim c) (t @ d # cstr rest) = t"
    using assms by (simp add: token_def takeWhile_append2)
  ultimately show ?thesis
    using assms(1) d by (simp add: strtok_def Let_def token_def char_at_def nth_append list_update_append)
qed

lemma strtok_last:
  assumes "token t"
  shows "strtok (pre @ t @ nul # rest) (length pre) = Some (t, pre @ t @ nul # rest, length pre + length t)"
proof -
  have a: "cstr (drop (length pre) (pre @ t @ nul # rest)) = t"
    using assms by (simp add: cstr_def token_def takeWhile_append2)
  have b: "takeWhile is_delim t = []" using assms by (cases t) (auto simp: token_def)
  have c: "takeWhile (\<lambda>c. \<not> is_delim c) t = t" using assms by (intro takeWhile_all) (auto simp: token_def)
  have "t \<noteq> []" using assms by (simp add: token_def)
  then show ?thesis
    unfolding strtok_def a Let_def b list.size drop_0 c by (simp add: char_at_def nth_append)
qed

lemma pasv_loop_tokens:
  "\<forall>t \<in> set ts. token t \<Longrightarrow> token l \<Longrightarrow>
     fst (pasv_loop (length ts + 1) (pre @ concat (map (\<lambda>t. t @ '','') ts) @ l @ nul # rest) (length pre) acc) =
       Some (acc @ map strtol ts @ [strtol l])"
proof (induction ts arbitrary: pre acc)
  case Nil
  then show ?case by (simp add: strtok_last)
next
  case (Cons t ts)
  let ?r = "concat (map (\<lambda>t. t @ '','') ts) @ l @ nul # rest"
  have "strtok (pre @ t @ CHR '','' # ?r) (length pre) = Some (t, pre @ t @ nul # ?r, length pre + length t + 1)"
    by (rule strtok_delim) (use Cons.prems in \<open>simp_all add: is_delim_def\<close>)
  moreover have "fst (pasv_loop (length ts + 1) ((pre @ t @ [nul]) @ ?r) (length (pre @ t @ [nul])) (acc @ [strtol t])) =
      Some ((acc @ [strtol t]) @ map strtol ts @ [strtol l])"
    by (rule Cons.IH) (use Cons.prems in auto)
  ultimately show ?case by simp
qed

lemma length_strtok: "strtok buf pos = Some (t, buf', pos') \<Longrightarrow> length buf' = length buf"
  by (auto simp: strtok_def Let_def split: if_splits)

lemma length_pasv_loop: "length (snd (pasv_loop n buf pos acc)) = length buf"
  by (induction n buf pos acc rule: pasv_loop.induct) (auto split: option.splits dest: length_strtok)

lemma length_parse_pasv: "length (snd (parse_pasv buf)) = length buf"
  by (auto simp: parse_pasv_def length_pasv_loop split: option.splits dest: length_strtok)

text \<open>The answer to \<open>PASV\<close> with the address \<open>h\<close> and the port \<open>p\<close> between the texts \<open>t\<close> and \<open>e\<close>.\<close>

definition pasv_answer :: "string \<Rightarrow> nat list \<Rightarrow> nat \<Rightarrow> string \<Rightarrow> bytes" where
  "pasv_answer t h p e =
     t @ ''('' @ concat (map (\<lambda>n. dec n @ '','') (h @ [p div 256])) @ dec (p mod 256) @ e"

definition pasv_ok :: "string \<Rightarrow> nat list \<Rightarrow> nat \<Rightarrow> string \<Rightarrow> bool" where
  "pasv_ok t h p e \<longleftrightarrow>
     token t \<and> length h = 4 \<and> (\<forall>n \<in> set h. n < 256) \<and> p < 65536 \<and>
     (\<forall>c \<in> set e. \<not> is_delim c \<and> c \<noteq> nul) \<and> (e = [] \<or> \<not> is_digit (hd e)) \<and>
     positive (pasv_answer t h p e)"

lemma token_dec: "(\<forall>c \<in> set e. \<not> is_delim c \<and> c \<noteq> nul) \<Longrightarrow> token (dec n @ e)"
  using dec_digits [of _ n] by (fastforce simp: token_def is_delim_def is_digit_def)

lemma parse_pasv_answer:
  assumes "pasv_ok t h p e"
  shows "fst (parse_pasv (pasv_answer t h p e @ nul # rest)) = Some (map int (h @ [p div 256, p mod 256]))"
proof -
  let ?ns = "h @ [p div 256]"
  let ?r = "concat (map (\<lambda>t. t @ '','') (map dec ?ns)) @ (dec (p mod 256) @ e) @ nul # rest"
  have small: "int n \<le> int32_max" if "n \<in> set (?ns @ [p mod 256])" for n
    using assms that by (auto simp: pasv_ok_def int32_max_def dest!: bspec)
  have len: "length (map dec ?ns) + 1 = 6" using assms by (simp add: pasv_ok_def)
  have st: "strtok (t @ CHR ''('' # ?r) 0 = Some (t, (t @ [nul]) @ ?r, length (t @ [nul]))"
    using strtok_delim [of t "CHR ''(''" "[]" ?r] assms by (simp add: pasv_ok_def is_delim_def)
  have lo: "fst (pasv_loop (length (map dec ?ns) + 1) ((t @ [nul]) @ ?r) (length (t @ [nul])) []) =
      Some ([] @ map strtol (map dec ?ns) @ [strtol (dec (p mod 256) @ e)])"
    by (rule pasv_loop_tokens) (use assms token_dec [of "[]"] token_dec [of e] in \<open>auto simp: pasv_ok_def\<close>)
  have a: "map strtol (map dec ?ns) = map int ?ns"
    using small strtol_stop [of _ "[]"] by simp
  have b: "strtol (dec (p mod 256) @ e) = int (p mod 256)"
    using small strtol_stop assms by (simp add: pasv_ok_def)
  have tx: "pasv_answer t h p e @ nul # rest = t @ CHR ''('' # ?r"
    by (simp add: pasv_answer_def comp_def)
  show ?thesis
    unfolding parse_pasv_def tx st option.case prod.case lo [unfolded len a b] by simp
qed

lemma pasv_address_port:
  assumes "length h = 4" "\<forall>n \<in> set h. n < 256" "p < 65536"
  shows "pasv_address (map int (h @ [p div 256, p mod 256])) = (h, p)"
proof -
  obtain a b c d where h: "h = [a, b, c, d]" using assms(1) by (auto simp: length_Suc_conv numeral_eq_Suc)
  have q: "p div 256 < 256" "p mod 256 < 256" using assms(3) by (simp_all add: less_mult_imp_div_less)
  have l: "(word_of_int (int (p mod 256)) AND 255 :: u32) = of_nat (p mod 256)"
  proof -
    have "(255 :: u32) = mask 8" by (simp add: mask_eq_exp_minus_1)
    then have "(word_of_int (int (p mod 256)) AND 255 :: u32) = take_bit 8 (of_nat (p mod 256))"
      by (simp add: take_bit_eq_mask)
    also have "\<dots> = of_nat (take_bit 8 (p mod 256))" by (simp only: take_bit_of_nat)
    finally show ?thesis by (simp add: take_bit_eq_mod)
  qed
  have d: "(word_of_int (int (p div 256)) * 256 :: u32) = push_bit 8 (of_nat (p div 256))"
    by (simp add: push_bit_eq_mult)
  have "(push_bit 8 (of_nat (p div 256)) OR of_nat (p mod 256) :: u32) = of_nat (push_bit 8 (p div 256) OR p mod 256)"
    by (simp only: of_nat_or_eq push_bit_of_nat)
  also have "push_bit 8 (p div 256) OR p mod 256 = p"
  proof -
    have "push_bit 8 (drop_bit 8 p) OR take_bit 8 p = p"
      by (rule bit_eqI) (auto simp: bit_or_iff bit_push_bit_iff bit_drop_bit_eq bit_take_bit_iff)
    then show ?thesis by (simp add: drop_bit_eq_div take_bit_eq_mod)
  qed
  finally have "(word_of_int (int (p div 256)) * 256 OR word_of_int (int (p mod 256)) AND 255 :: u32) = of_nat p"
    using l d by simp
  moreover have "unat (of_nat p :: u32) = p" using assms(3) by (simp add: unsigned_of_nat take_bit_nat_eq_self)
  ultimately show ?thesis using assms(2,3) h by (simp add: pasv_address_def Let_def)
qed

section \<open>The dialogue of an upload\<close>

text \<open>From \<open>s\<close> to \<open>s'\<close> the client has sent \<open>ls\<close> and has \<open>as\<close> and \<open>cs\<close> left to expect.\<close>

definition talked :: "ftp \<Rightarrow> string list \<Rightarrow> bytes option list \<Rightarrow> bool list \<Rightarrow> ftp \<Rightarrow> bool" where
  "talked s ls as cs s' \<longleftrightarrow>
     sent s' = sent s @ ls \<and> answers s' = as \<and> connects s' = cs \<and> ftpConnected s' \<and>
     length (outBuf s') = OUTBUF \<and> dataWritten s' = dataWritten s"

lemma ask_ok:
  assumes "answers s = Some r # as" "positive r" "length (outBuf s) = OUTBUF"
  shows "\<exists>s'. ask line s = (True, s') \<and> talked s [line] as (connects s) s' \<and>
    outBuf s' = r @ nul # drop (length r + 1) (outBuf s) \<and> dataAddress s' = dataAddress s"
  using GetFTPAnswer_positive [of "println line s" r as] assms answered_buf [of r "println line s"]
  by (auto simp: ask_def println_def talked_def answered_def)

lemma OpenConnection_ok:
  assumes "answers s = map Some [a, b, c, d] @ as" "\<forall>r \<in> {a, b, c, d}. positive r" "length (outBuf s) = OUTBUF"
    and "connects s = True # cs"
  shows "\<exists>s'. OpenConnection ac s = (True, s') \<and>
    talked s [''USER '' @ cstr (userName ac), ''PASS '' @ cstr (passWord ac), ''SYST''] as cs s'"
proof -
  let ?s0 = "s\<lparr>connects := cs\<rparr>"
  have c0: "connect s = (True, ?s0)" using assms(4) by (simp add: connect_def)
  let ?s1 = "answered a ?s0"
  have g: "GetFTPAnswer ?s0 = (True, ?s1)"
    by (rule GetFTPAnswer_positive) (use assms in auto)
  have s1: "answers ?s1 = map Some [b, c, d] @ as" "length (outBuf ?s1) = OUTBUF"
    using assms answered_buf [of a ?s0] by (simp_all add: answered_def)
  obtain s2 where s2: "ask (''USER '' @ cstr (userName ac)) ?s1 = (True, s2)"
    "talked ?s1 [''USER '' @ cstr (userName ac)] (map Some [c, d] @ as) (connects ?s1) s2"
    using ask_ok [of ?s1 b "map Some [c, d] @ as"] s1 assms(2) by auto
  obtain s3 where s3: "ask (''PASS '' @ cstr (passWord ac)) s2 = (True, s3)"
    "talked s2 [''PASS '' @ cstr (passWord ac)] (map Some [d] @ as) (connects s2) s3"
    using ask_ok [of s2 c "map Some [d] @ as"] s2(2) assms(2) by (auto simp: talked_def)
  obtain s4 where s4: "ask ''SYST'' s3 = (True, s4)" "talked s3 [''SYST''] as (connects s3) s4"
    using ask_ok [of s3 d as] s3(2) assms(2) by (auto simp: talked_def)
  have "OpenConnection ac s = (True, s4)"
    by (simp only: OpenConnection_def and_then_def c0 g s2(1) s3(1) s4(1) Let_def prod.case if_True)
  moreover have "talked s [''USER '' @ cstr (userName ac), ''PASS '' @ cstr (passWord ac), ''SYST''] as cs s4"
    using s2(2) s3(2) s4(2) by (simp add: talked_def answered_def)
  ultimately show ?thesis by blast
qed

lemma InitFile_ok:
  assumes "answers s = Some r # Some (pasv_answer t h p e) # as" "positive r" "pasv_ok t h p e"
    and "length (outBuf s) = OUTBUF" "ftpConnected s" "connects s = True # cs"
  shows "\<exists>s'. InitFile ty s = (True, s') \<and> talked s [ty, ''PASV''] as cs s' \<and> dataAddress s' = Some (h, p)"
proof -
  obtain s1 where s1: "ask ty s = (True, s1)" "talked s [ty] (Some (pasv_answer t h p e) # as) (connects s) s1"
    using ask_ok [OF assms(1,2,4)] by auto
  have "positive (pasv_answer t h p e)" using assms(3) by (simp add: pasv_ok_def)
  then obtain s2 where s2: "ask ''PASV'' s1 = (True, s2)" "talked s1 [''PASV''] as (connects s1) s2"
    "outBuf s2 = pasv_answer t h p e @ nul # drop (length (pasv_answer t h p e) + 1) (outBuf s1)"
    using ask_ok [of s1 "pasv_answer t h p e" as "''PASV''"] s1(2) unfolding talked_def by blast
  obtain res buf where rb: "parse_pasv (outBuf s2) = (res, buf)" by fastforce
  have res: "res = Some (map int (h @ [p div 256, p mod 256]))" "length buf = OUTBUF"
    using parse_pasv_answer [OF assms(3)] rb s2(3) length_parse_pasv [of "outBuf s2"] s2(2)
    by (metis fst_conv) (use rb length_parse_pasv [of "outBuf s2"] s2(2) in \<open>simp add: talked_def\<close>)
  have pa: "pasv_address (map int (h @ [p div 256, p mod 256])) = (h, p)"
    by (rule pasv_address_port) (use assms(3) in \<open>simp_all add: pasv_ok_def\<close>)
  let ?s3 = "s2\<lparr>outBuf := buf, connects := cs, dataAddress := Some (h, p)\<rparr>"
  have c: "connect (s2\<lparr>outBuf := buf\<rparr>) = (True, s2\<lparr>outBuf := buf, connects := cs\<rparr>)"
    using s1(2) s2(2) assms(6) by (simp add: connect_def talked_def)
  have "InitFile ty s = (True, ?s3)"
    using assms(5)
    by (simp only: InitFile_def and_then_def s1(1) s2(1) rb res(1) pa c Let_def prod.case option.case if_True
        not_True_eq_False if_False)
  then show ?thesis using s1(2) s2(2) res(2) by (intro exI [of _ ?s3]) (simp add: talked_def)
qed

lemma upload_dialogue:
  assumes "answers s = map Some [a, b, c, d, r1, pasv_answer t1 h1 p1 e1, r2, pasv_answer t2 h2 p2 e2, st] @ rest"
    and "\<forall>r \<in> {a, b, c, d, r1, r2, st}. positive r" "pasv_ok t1 h1 p1 e1" "pasv_ok t2 h2 p2 e2"
    and "connects s = [True, True, True]" "length (outBuf s) = OUTBUF"
  shows "\<exists>s'. upload_transponder data script s = (True, s') \<and>
    sent s' = sent s @ [''USER '' @ char_ptr data 24, ''PASS '' @ char_ptr data 25, ''SYST'',
      ''Type A'', ''PASV'', ''Type I'', ''PASV'', ''STOR '' @ char_ptr data 1 @ ''.php'', ''QUIT''] \<and>
    dataWritten s' = dataWritten s @ [(Some (h2, p2), cstr script)]"
proof -
  let ?user = "''USER '' @ char_ptr data 24" and ?pass = "''PASS '' @ char_ptr data 25"
  let ?stor = "''STOR '' @ char_ptr data 1 @ ''.php''"
  obtain s1 where s1: "OpenConnection (account_of data) s = (True, s1)"
    "talked s [?user, ?pass, ''SYST'']
      (map Some [r1, pasv_answer t1 h1 p1 e1, r2, pasv_answer t2 h2 p2 e2, st] @ rest) [True, True] s1"
    using OpenConnection_ok [of s a b c d "map Some [r1, pasv_answer t1 h1 p1 e1, r2, pasv_answer t2 h2 p2 e2, st] @ rest"
        "[True, True]" "account_of data"] assms by (auto simp: account_of_def)
  obtain s2 where s2: "InitFile ''Type A'' s1 = (True, s2)"
    "talked s1 [''Type A'', ''PASV''] (map Some [r2, pasv_answer t2 h2 p2 e2, st] @ rest) [True] s2"
    using InitFile_ok [of s1 r1 t1 h1 p1 e1 "map Some [r2, pasv_answer t2 h2 p2 e2, st] @ rest" "[True]" "''Type A''"]
      s1(2) assms(2,3) by (auto simp: talked_def)
  obtain s3 where s3: "InitFile ''Type I'' s2 = (True, s3)"
    "talked s2 [''Type I'', ''PASV''] (map Some [st] @ rest) [] s3" "dataAddress s3 = Some (h2, p2)"
    using InitFile_ok [of s2 r2 t2 h2 p2 e2 "map Some [st] @ rest" "[]" "''Type I''"] s2(2) assms(2,4)
    by (auto simp: talked_def)
  obtain s4 where s4: "ask ?stor s3 = (True, s4)" "talked s3 [?stor] rest [] s4" "dataAddress s4 = Some (h2, p2)"
    using ask_ok [of s3 st rest ?stor] s3(2,3) assms(2) by (auto simp: talked_def)
  have n: "NewFile (char_ptr data 1 @ ''.php'') s3 = (True, s4)"
    using s3(2) s4(1) by (simp add: NewFile_def talked_def)
  let ?s5 = "s4\<lparr>dataWritten := dataWritten s4 @ [(Some (h2, p2), cstr script)]\<rparr>"
  have w: "Write script s4 = (True, ?s5)" using s4(2,3) by (simp add: Write_def talked_def)
  have "upload_transponder data script s = (True, CloseConnection (CloseFile ?s5))"
    by (simp only: upload_transponder_def and_then_def or_close_def s1(1) s2(1) s3(1) n w Let_def prod.case if_True)
  moreover have "sent (CloseFile ?s5) = sent s4" "dataWritten (CloseFile ?s5) = dataWritten ?s5"
    by (simp_all add: CloseFile_def GetFTPAnswer_def Let_def split: list.splits option.splits prod.splits)
  ultimately show ?thesis
    using s1(2) s2(2) s3(2) s4(2) by (simp add: talked_def CloseConnection_def println_def)
qed

lemma buffer_loop_concat: "concat (buffer_loop bs buf) = buf @ bs"
  by (induction bs buf rule: buffer_loop.induct) simp_all

lemma buffer_loop_size:
  "length buf < bufferSize \<Longrightarrow> \<forall>w \<in> set (buffer_loop bs buf). 0 < length w \<and> length w \<le> bufferSize"
  by (induction bs buf rule: buffer_loop.induct) (auto simp: bufferSize_def)

section \<open>Properties\<close>

text \<open>C29. When the server answers every command up to \<open>STOR\<close> positively, the upload sends exactly this
  dialogue, writes the whole script to the address and port of the second passive answer and reports
  success, whatever the server then answers to the finished transfer.\<close>

theorem upload_goes_to_passive_address:
  assumes "answers s = map Some [a, b, c, d, r1, pasv_answer t1 h1 p1 e1, r2, pasv_answer t2 h2 p2 e2, st] @ rest"
    and "\<forall>r \<in> {a, b, c, d, r1, r2, st}. positive r" "pasv_ok t1 h1 p1 e1" "pasv_ok t2 h2 p2 e2"
    and "connects s = [True, True, True]" "length (outBuf s) = OUTBUF"
  shows "\<exists>s'. upload_transponder data script s = (True, s') \<and>
    sent s' = sent s @ [''USER '' @ char_ptr data 24, ''PASS '' @ char_ptr data 25, ''SYST'',
      ''Type A'', ''PASV'', ''Type I'', ''PASV'', ''STOR '' @ char_ptr data 1 @ ''.php'', ''QUIT''] \<and>
    dataWritten s' = dataWritten s @ [(Some (h2, p2), cstr script)]"
  using assms by (rule upload_dialogue)

theorem upload_goes_to_passive_address_witness:
  "\<exists>s s'. upload_transponder (default_SWdata []) ''<?php ?>'' s = (True, s') \<and>
    answers s ! 9 = Some ''552 quota exceeded'' \<and>
    dataWritten s' = [(Some ([10, 0, 0, 7], 50001), ''<?php ?>'')]"
proof -
  let ?t = "''227 Entering Passive Mode ''" and ?e = "'').''"
  let ?s = "\<lparr>outBuf = replicate 128 nul, outCount = 0, ftpConnected = False, sent = [], dataAddress = None,
    dataWritten = [], answers = map Some [''220 hi'', ''331 pw'', ''230 ok'', ''215 UNIX'', ''200 A'',
      pasv_answer ?t [10, 0, 0, 7] 50000 ?e, ''200 I'', pasv_answer ?t [10, 0, 0, 7] 50001 ?e, ''150 go''] @
      [Some ''552 quota exceeded''], connects = [True, True, True]\<rparr>"
  have tok: "token ?t" by (simp add: token_def is_delim_def)
  have a1: "answers ?s = map Some [''220 hi'', ''331 pw'', ''230 ok'', ''215 UNIX'', ''200 A'',
      pasv_answer ?t [10, 0, 0, 7] 50000 ?e, ''200 I'', pasv_answer ?t [10, 0, 0, 7] 50001 ?e, ''150 go''] @
      [Some ''552 quota exceeded'']" by simp
  have a2: "\<forall>r \<in> {''220 hi'', ''331 pw'', ''230 ok'', ''215 UNIX'', ''200 A'', ''200 I'', ''150 go''}. positive r"
    by (simp add: positive_def OUTBUF_def)
  have a3: "pasv_ok ?t [10, 0, 0, 7] 50000 ?e" "pasv_ok ?t [10, 0, 0, 7] 50001 ?e"
    using tok by (simp_all add: pasv_ok_def positive_def pasv_answer_def OUTBUF_def is_delim_def is_digit_def dec.simps)
  have a4: "connects ?s = [True, True, True]" "length (outBuf ?s) = OUTBUF" by (simp_all add: OUTBUF_def)
  from upload_goes_to_passive_address [OF a1 a2 a3 a4, of "default_SWdata []" "''<?php ?>''"]
  obtain s' where s': "upload_transponder (default_SWdata []) ''<?php ?>'' ?s = (True, s')"
    "dataWritten s' = dataWritten ?s @ [(Some ([10, 0, 0, 7], 50001), cstr ''<?php ?>'')]" by blast
  have "answers ?s ! 9 = Some ''552 quota exceeded''" by simp
  moreover have "dataWritten s' = [(Some ([10, 0, 0, 7], 50001), ''<?php ?>'')]"
    using s'(2) by (simp add: cstr_def)
  ultimately show ?thesis using s'(1) by blast
qed

end
