(* ===== verification/Web_Handlers.thy ===== *)
theory Web_Handlers
  imports Command_Facts Station_Table Http_Upload
begin

text \<open>
  The callbacks of the web server: captive portal, login, commands, the upload of a key file
  (\<open>handlehttp.cpp\<close>) and of a firmware image (\<open>OTA.cpp\<close>).  The texts of the pages are arguments;
  the \<open>Update\<close> library is not part of the source, what its calls return is an argument.
\<close>

section \<open>Pages\<close>

record pages =
  PREHTML :: string
  POSTHTML :: string
  LOGO :: string
  ICON :: string

record web =
  dev :: device
  sta :: stations
  starting_w_keys :: int
  upd_response :: string
  upd_code :: nat

definition ACCESS_DENIED :: string where "ACCESS_DENIED = ''error : access denied''"
definition OTA_IN_PROCESS :: string where "OTA_IN_PROCESS = ''<h1>Update in process</h1>''"

definition msg_not_found :: string where
  "msg_not_found =
    utf8 [208, 186, 208, 187, 209, 142, 209, 135, 32, 208, 189, 208, 181, 32, 208, 189, 208,
    176, 208, 185, 208, 180, 208, 181, 208, 189]"

definition msg_in_black :: string where
  "msg_in_black =
    utf8 [208, 186, 208, 187, 209, 142, 209, 135, 32, 208, 178, 32, 209, 135, 209, 145, 209,
    128, 208, 189, 208, 190, 208, 188, 32, 209, 129, 208, 191, 208, 184, 209, 129, 208, 186,
    208, 181]"

definition msg_no_service :: string where
  "msg_no_service =
    utf8 [209, 131, 208, 191, 209, 128, 208, 176, 208, 178, 208, 187, 208, 181, 208, 189, 208,
    184, 208, 181, 32, 208, 190, 209, 130, 208, 186, 208, 187, 209, 142, 209, 135, 208, 181,
    208, 189, 208, 190]"

definition msg_enter_code :: string where
  "msg_enter_code =
    utf8 [208, 146, 208, 178, 208, 181, 208, 180, 208, 184, 209, 130, 208, 181, 32, 208, 186,
    208, 190, 208, 180, 32, 208, 176, 208, 178, 209, 130, 208, 190, 209, 128, 208, 184, 208,
    183, 208, 176, 209, 134, 208, 184, 208, 184]"

abbreviation "sq \<equiv> [CHR 0x27]"
abbreviation "dq \<equiv> [CHR 0x22]"

text \<open>Every page is sent as a C string.\<close>

definition page_out :: "nat \<Rightarrow> string \<Rightarrow> effect" where
  "page_out code body = Http_send code MIME_text_html (cstr body)"

definition header_effects :: "SWdata \<Rightarrow> effect list" where
  "header_effects d =
     [Http_header ''Cache-Control'' ''no-cache, no-store, must-revalidate'' False,
      Http_header ''Pragma'' ''no-cache'' False, Http_header ''Expires'' ''-1'' False,
      Http_header ''Location''
        (''http://'' @ dotted (map (\<lambda>i. of_char (char_at (EAPIP d) i)) [0, 1, 2, 3])) True,
      Http_length_unknown]"

definition upgrading :: "device \<Rightarrow> device" where
  "upgrading s = emit [Http_send 200 MIME_text_html OTA_IN_PROCESS, Client_stop] s"

definition portal_page :: "pages \<Rightarrow> SWdata \<Rightarrow> string \<Rightarrow> string" where
  "portal_page P d response =
     PREHTML P @ ''<div class='' @ sq @ ''fx1'' @ sq @ ''>'' @ char_ptr d 28 @
     ''<img src='' @ dq @ ''data:image/png;base64,'' @ LOGO P @ dq @ '' alt='' @ dq @ ''Logo'' @ dq @ ''/>'' @
     ''<div class='' @ sq @ ''fx3'' @ sq @ ''>'' @ VERSION_INFO @ ''</div>'' @
     ''<div class='' @ sq @ ''fx3'' @ sq @ ''><b>'' @ response @ ''</b></div>'' @
     ''<br><b><span class='' @ sq @ ''fx2'' @ sq @ ''>'' @ msg_enter_code @ ''</span></b><br><br>'' @
     ''<form method='' @ sq @ ''POST'' @ sq @ '' action='' @ sq @ ''login'' @ sq @ ''><input name='' @ sq @ ''key'' @ sq @
     '' type='' @ sq @ ''text'' @ sq @ '' placeholder='' @ sq @ ''access key'' @ sq @ ''><input id='' @ sq @ ''tx'' @ sq @
     '' type='' @ sq @ ''submit'' @ sq @ '' value='' @ sq @ ''submit'' @ sq @ ''></form>'' @ POSTHTML P"

definition portal :: "pages \<Rightarrow> string \<Rightarrow> device \<Rightarrow> device" where
  "portal P response s =
     (if OTA_enabled s then upgrading s
      else emit (header_effects (p_data s) @ [page_out 200 (portal_page P (p_data s) response), Client_stop]) s)"

definition handleFavicon :: "pages \<Rightarrow> device \<Rightarrow> device" where
  "handleFavicon P s =
     emit [Http_send 200 MIME_text_html (''<link href='' @ dq @ ''data:image/x-icon;base64,'' @ ICON P @ dq @
       '' rel='' @ dq @ ''icon'' @ dq @ '' type='' @ dq @ ''image/x-icon'' @ dq @ '' />''), Client_stop] s"

section \<open>Login\<close>

text \<open>
  What one \<open>key\<close> argument stands for: the key that is checked, the text of the command, whether
  there is a command, and the answer of the check.
\<close>

definition login_key :: "SWdata \<Rightarrow> string \<Rightarrow> string \<times> string \<times> bool \<times> string" where
  "login_key d arg =
     (let key0 = str_replace arg ''%26'' ''&''; none = (Ekeys d = 0);
          master = restore_String (Emasterkey d) 8;
          (key1, remote1, command1) =
            (case index_of key0 ''&'' 0 of
               None \<Rightarrow> (key0, key0, False)
             | Some _ \<Rightarrow>
                 (let r = str_replace key0 ''%3D'' ''='' in
                  if \<not> none then
                    (let cut = (case index_of r ''&'' 0 of None \<Rightarrow> npos | Some k \<Rightarrow> k);
                         k = substring r 0 cut
                     in (k, (if contains r ''key='' then r else ''key='' @ k) @ substring_from r cut, True))
                  else (master, ''key='' @ master @ ''&cmd='' @ r, True)))
      in if none then
           (if \<not> command1 \<and> checkKey d key1 = ''NOTFOUND''
            then (master, ''key='' @ master @ ''&cmd='' @ key1, True, ''ISMASTER'')
            else (key1, remote1, command1, ''ISMASTER''))
         else (key1, remote1, command1, checkKey d key1))"

text \<open>The answer to a key, and the opening of the relay for an accepted key without a command.\<close>

definition login_open :: "string \<Rightarrow> bool \<Rightarrow> string \<Rightarrow> device \<Rightarrow> device \<times> string" where
  "login_open check command resp s =
     (if check = ''NOTFOUND'' then (s, msg_not_found)
      else if check = ''INBLACK'' then (s, msg_in_black)
      else if command then (s, resp)
      else if has_flag (p_data s) FNOSERVICE then (s, msg_no_service)
      else (relayOn (s\<lparr>relayMillis := interval_10ms s\<rparr>), ''OK''))"

definition login_page :: "pages \<Rightarrow> SWdata \<Rightarrow> string \<Rightarrow> string \<Rightarrow> string" where
  "login_page P d key resp =
     PREHTML P @ ''<style>body{font-family:Consolas;background:black;}</style>'' @
     ''<div class='' @ sq @ ''console'' @ sq @ ''>'' @ resp @ ''</div>'' @
     ''<br><br><form method='' @ sq @ ''POST'' @ sq @ '' action='' @ sq @ ''login'' @ sq @ ''><input name='' @ sq @
     ''key'' @ sq @ '' type='' @ sq @ ''text'' @ sq @ '' value='' @ sq @
     (if Ekeys d \<noteq> 0 then key @ ''&cmd='' else []) @ sq @ ''>'' @
     ''<input id='' @ sq @ ''tx'' @ sq @ '' type='' @ sq @ ''submit'' @ sq @ '' value='' @ sq @ ''submit'' @ sq @ ''></form>'' @
     POSTHTML P"

text \<open>What a reply that holds these marks does after it was sent.\<close>

definition after_reply :: "env \<Rightarrow> string \<Rightarrow> device \<Rightarrow> device \<times> unit outcome" where
  "after_reply E resp s =
     (if contains resp ''...restore'' \<and> contains resp ''default...''
      then ((new_settings (e_garbage E) True s)
              \<lparr>p_key := [], p_cmd := [], p_argv := [], p_ext := [], p_com := [], p_upload := False\<rparr>, Restart)
      else if contains resp ''...reset...'' then (s, Restart)
      else (s, Return ()))"

fun login_loop :: "pages \<Rightarrow> env \<Rightarrow> u32 \<Rightarrow> (string \<times> string) list \<Rightarrow> string \<Rightarrow> device \<Rightarrow> device \<times> unit outcome" where
  "login_loop P E now [] resp s = (portal P resp s, Return ())"
| "login_loop P E now ((nam, arg) # args) resp s =
     (if to_lower nam \<noteq> ''key'' then login_loop P E now args resp s
      else
        (let (key, remote, command, check) = login_key (p_data s) arg;
             (s1, resp1) = login_open check command resp s in
         if check \<noteq> ''ISMASTER'' then login_loop P E now args resp1 s1
         else
           (case (if command then process E now (From_remote remote) True s1 else reply s1 resp1) of
              (s2, Restart) \<Rightarrow> (s2, Restart)
            | (s2, Null_pointer) \<Rightarrow> (s2, Null_pointer)
            | (s2, Return resp2) \<Rightarrow>
                after_reply E resp2
                  (emit (header_effects (p_data s2) @ [page_out 200 (login_page P (p_data s2) key resp2), Client_stop]) s2))))"

definition handleLogin :: "pages \<Rightarrow> env \<Rightarrow> u32 \<Rightarrow> (string \<times> string) list \<Rightarrow> device \<Rightarrow> device \<times> unit outcome" where
  "handleLogin P E now args s =
     (if OTA_enabled s then (upgrading s, Return ()) else login_loop P E now args [] s)"

section \<open>Commands\<close>

text \<open>The name is changed after the reply of \<open>process\<close>, whatever that reply is.\<close>

definition rename :: "env \<Rightarrow> string \<Rightarrow> device \<Rightarrow> device \<times> string" where
  "rename E resp s =
     (if scom (p_com s) ''devicename'' = 2 then
        (let (newname, resp1) =
           (if p_argv s = [] then (default_name E, ''new name is default as MAC='' @ default_name E)
            else (let n = str_replace (p_argv s) '' '' ''_'' in (n, ''new name='' @ n @ '' saved to flash'')))
         in (save_data (\<lambda>d. d\<lparr>EdeviceName := snd (store_String 64 newname)\<rparr>) s, resp1))
      else (s, resp))"

definition handleCmd :: "env \<Rightarrow> u32 \<Rightarrow> u32 \<Rightarrow> (string \<times> string) list \<Rightarrow> web \<Rightarrow> web \<times> unit outcome" where
  "handleCmd E now c_ip args w =
     (let s = dev w in
      if OTA_enabled s then (w\<lparr>dev := upgrading s\<rparr>, Return ())
      else
        let s1 = s\<lparr>ledState0 := True\<rparr>;
            w1 = w\<lparr>dev := s1, sta := renew_time (p_data s1) c_ip now (sta w)\<rparr>
        in case process E now (From_server args) False s1 of
             (s2, Restart) \<Rightarrow> (w1\<lparr>dev := s2\<rparr>, Restart)
           | (s2, Null_pointer) \<Rightarrow> (w1\<lparr>dev := s2\<rparr>, Null_pointer)
           | (s2, Return resp) \<Rightarrow>
               (let (s3, resp1) = rename E resp s2;
                    (s4, r) = after_reply E resp1 (emit [Http_send 200 ''text/raw'' (cstr resp1), Client_stop] s3)
                in (w1\<lparr>dev := (case r of Return _ \<Rightarrow> s4\<lparr>ledState0 := False\<rparr> | _ \<Rightarrow> s4)\<rparr>, r)))"

section \<open>Upload of a key file\<close>

text \<open>\<open>process\<close> of an \<open>upload\<close> command sets \<open>p_upload\<close>; the handler of the data answers when it is not set and goes on.\<close>

definition handleUploadFile :: "bool \<Rightarrow> upload_status \<times> bytes \<times> u32 \<Rightarrow> web \<Rightarrow> web" where
  "handleUploadFile alloc = (\<lambda>(status, buf, tsize) w.
     let s = dev w;
         s1 = (if \<not> p_upload s then emit [Http_send 500 MIME_text_html ACCESS_DENIED] s else s)
     in case status of
          UPLOAD_FILE_START \<Rightarrow> w\<lparr>dev := s1, starting_w_keys := Ekeys (p_data s1)\<rparr>
        | UPLOAD_FILE_WRITE \<Rightarrow>
            if buf = [] then w\<lparr>dev := s1\<rparr> else w\<lparr>dev := fst (parse_for_keys alloc buf s1)\<rparr>
        | _ \<Rightarrow> w\<lparr>dev := s1\<rparr>)"

definition upload_done :: "string \<Rightarrow> u32 \<Rightarrow> string" where
  "upload_done filename tsize =
     ''<h3><span style='' @ sq @ ''color:lime'' @ sq @ ''>File was successfully uploaded</span></h3>'' @
     ''<h5>Uploaded File Name: '' @ filename @ ''</h5>'' @ ''<h6>File Size: '' @ dec_int (sint tsize) @ ''</h6><br>''"

definition upload_failed :: string where
  "upload_failed = ''<h3><span style='' @ sq @ ''color:red'' @ sq @ ''>File upload FAILED</span></h3>''"

definition handleUploadFileStatus :: "upload_status \<Rightarrow> string \<Rightarrow> u32 \<Rightarrow> web \<Rightarrow> web" where
  "handleUploadFileStatus status filename tsize w =
     (let s = dev w in
      if \<not> p_upload s then
        w\<lparr>dev := emit [Http_header ''Connection'' ''close'' False, Http_send 500 MIME_text_html ACCESS_DENIED,
                       Client_flush, Client_stop] s\<rparr>
      else
        let (s1, code, response) =
          (case status of
             UPLOAD_FILE_START \<Rightarrow> (s, 200, [])
           | UPLOAD_FILE_WRITE \<Rightarrow> (s, 200, [])
           | UPLOAD_FILE_END \<Rightarrow> (s\<lparr>p_upload := False\<rparr>, 200, upload_done filename tsize)
           | UPLOAD_FILE_ABORTED \<Rightarrow> (s\<lparr>p_upload := False\<rparr>, 500, upload_failed));
          s2 = emit [Http_send code MIME_text_html response] s1
        in w\<lparr>dev := (if code = 200 \<and> \<not> p_upload s2 \<and> starting_w_keys w \<noteq> Ekeys (p_data s2)
                     then saveAllToEEPROM s2 else s2)\<rparr>)"

definition run_upload :: "(upload_status \<times> bytes \<times> u32) list \<Rightarrow> web \<Rightarrow> web" where
  "run_upload calls w = fold (handleUploadFile True) calls w"

section \<open>Upload of a firmware image\<close>

definition handleRestart :: "device \<Rightarrow> device \<times> unit outcome" where
  "handleRestart s =
     (if \<not> OTA_enabled s then (emit [Http_send 500 MIME_text_html ACCESS_DENIED, Client_stop] s, Return ())
      else (emit [Http_header ''Connection'' ''close'' False, Http_send 200 ''text/plain'' ''RESRTART''] s, Restart))"

definition handleUpdateStatus :: "web \<Rightarrow> web \<times> unit outcome" where
  "handleUpdateStatus w =
     (let s = dev w in
      if \<not> OTA_enabled s then (w\<lparr>dev := emit [Http_send 500 MIME_text_html ACCESS_DENIED] s\<rparr>, Return ())
      else
        let s1 = emit [Http_send (upd_code w) MIME_text_html (upd_response w)] s in
        if upd_response w = ''<i>:)</i>'' \<and> upd_code w = 200
        then (w\<lparr>dev := emit [Client_flush, Client_stop] s1\<rparr>, Restart)
        else (w\<lparr>dev := s1\<rparr>, Return ()))"

record update_result =
  update_ok :: bool
    \<comment> \<open>\<open>begin\<close>, the complete write, or \<open>end\<close>\<close>
  errorString :: string

definition update_step :: "update_result \<Rightarrow> upload_status \<Rightarrow> web \<Rightarrow> web" where
  "update_step u status w =
     (case status of
        UPLOAD_FILE_START \<Rightarrow>
          if \<not> update_ok u then w\<lparr>upd_response := errorString u, upd_code := 500\<rparr> else w\<lparr>upd_code := 200\<rparr>
      | UPLOAD_FILE_WRITE \<Rightarrow>
          if \<not> update_ok u \<and> errorString u \<noteq> ''No Error''
          then w\<lparr>upd_response := errorString u, upd_code := 500\<rparr> else w
      | UPLOAD_FILE_END \<Rightarrow>
          if update_ok u then w\<lparr>upd_response := ''<i>:)</i>''\<rparr>
          else w\<lparr>upd_response := errorString u,
                 upd_code := (if errorString u \<noteq> ''No Error'' then 500 else upd_code w)\<rparr>
      | UPLOAD_FILE_ABORTED \<Rightarrow> w)"

definition handleUpdate :: "update_result \<Rightarrow> u32 \<Rightarrow> upload_status \<Rightarrow> web \<Rightarrow> web" where
  "handleUpdate u now status w =
     (let s = dev w in
      if \<not> OTA_enabled s then
        w\<lparr>dev := emit [Http_send 403 MIME_text_plain ''Forbidden'', Client_stop] s\<rparr>
      else
        let w1 = update_step u status w;
            s1 = (if upd_response w1 \<noteq> [] \<and> upd_code w1 = 500 then (dev w1)\<lparr>OTA_enabled := False\<rparr> else dev w1);
            s2 = (if 500 \<le> now - ledTimeMs1 s1
                  then s1\<lparr>ledTimeMs1 := now, ledState0 := \<not> ledState0 s1\<rparr> else s1)
        in w1\<lparr>dev := s2\<rparr>)"

section \<open>A refused login\<close>

text \<open>The device but for what it sends.\<close>

definition silent :: "device \<Rightarrow> device" where
  "silent s = s\<lparr>out := []\<rparr>"

lemma silent_emit [simp]: "silent (emit es s) = silent s"
  by (simp add: silent_def emit_def)

lemma silent_portal [simp]: "silent (portal P r s) = silent s"
  by (simp add: portal_def upgrading_def)

definition login_refused :: "SWdata \<Rightarrow> string \<times> string \<Rightarrow> bool" where
  "login_refused d a \<longleftrightarrow>
     (to_lower (fst a) = ''key'' \<longrightarrow> snd (snd (snd (login_key d (snd a)))) \<in> {''NOTFOUND'', ''INBLACK''})"

lemma login_loop_refused:
  "\<forall>a \<in> set args. login_refused (p_data s) a \<Longrightarrow>
     \<exists>s'. login_loop P E now args resp s = (s', Return ()) \<and> silent s' = silent s"
proof (induction args arbitrary: resp)
  case (Cons a args)
  obtain nam arg where a: "a = (nam, arg)" by fastforce
  obtain key remote command check where l: "login_key (p_data s) arg = (key, remote, command, check)"
    by (metis prod_cases4)
  show ?case
  proof (cases "to_lower nam = ''key''")
    case True
    then have c: "check = ''NOTFOUND'' \<or> check = ''INBLACK''"
      using Cons.prems a l by (simp add: login_refused_def)
    then obtain r where "login_open check command resp s = (s, r)" by (auto simp: login_open_def)
    then show ?thesis using c True a l Cons by auto
  qed (use Cons a in auto)
qed simp

lemma handleLogin_refused:
  assumes "\<forall>a \<in> set args. login_refused (p_data s) a"
  shows "snd (handleLogin P E now args s) = Return () \<and> silent (fst (handleLogin P E now args s)) = silent s"
proof -
  obtain s' where "login_loop P E now args [] s = (s', Return ())" "silent s' = silent s"
    using login_loop_refused [OF assms, of P E now "[]"] by blast
  then show ?thesis by (simp add: handleLogin_def upgrading_def)
qed

section \<open>A name is changed without a key\<close>

lemma process_rename_refused:
  assumes "k \<noteq> []" "n \<noteq> []" "Ekeys (p_data s) \<noteq> 0" "checkKey (p_data s) k \<noteq> ''ISMASTER''" "checkKey (p_data s) k \<noteq> ''FOUND''"
  shows "process E now (From_server [(''key'', k), (''cmd'', ''set_devicename''), (''argv'', n)]) html s =
    reply ((no_command s)\<lparr>p_key := k, p_argv := n, p_cmd := ''set_devicename'', p_com := ''set_devicename''\<rparr>)
      (checkKey (p_data s) k)"
proof -
  let ?u = "(no_command s)\<lparr>p_key := k, p_argv := n, p_cmd := ''set_devicename'', p_com := ''set_devicename''\<rparr>"
  have low: "to_lower ''key'' = ''key''" "to_lower ''cmd'' = ''cmd''" "to_lower ''argv'' = ''argv''"
    "to_lower ''set_devicename'' = ''set_devicename''"
    by (simp_all add: to_lower_def lower_char_def Let_def)
  have r: "read_command (From_server [(''key'', k), (''cmd'', ''set_devicename''), (''argv'', n)]) s =
      ((no_command s)\<lparr>p_key := k, p_cmd := ''set_devicename'', p_argv := n\<rparr>, None)"
    using assms(1,2) by (simp add: read_command_def read_arg_def low Let_def drop_e_def char_at_def)
  have d: "p_data (no_command s) = p_data s" by (simp add: no_command_def)
  have p: "process_public E c u = None" if "p_com u = ''set_devicename''" for c u
    using that by (simp add: process_public_def Let_def scom_spec)
  show ?thesis
    using assms(3-5) unfolding process_def r prod.case option.case
    by (simp add: low Let_def key_check_def d p)
qed

lemma rename_set:
  assumes "p_com s = ''set_devicename''" "p_argv s = n" "n \<noteq> []"
  shows "rename E resp s =
    (save_data (\<lambda>d. d\<lparr>EdeviceName := snd (store_String 64 (str_replace n '' '' ''_''))\<rparr>) s,
     ''new name='' @ str_replace n '' '' ''_'' @ '' saved to flash'')"
proof -
  have "scom ''set_devicename'' ''devicename'' = 2" by (simp add: scom_spec)
  then show ?thesis using assms by (simp add: rename_def Let_def)
qed

definition rename_request :: "string \<Rightarrow> string \<Rightarrow> (string \<times> string) list" where
  "rename_request k n = [(''key'', k), (''cmd'', ''set_devicename''), (''argv'', n)]"

lemma handleCmd_rename:
  fixes w :: web
  defines "s1 \<equiv> (dev w)\<lparr>ledState0 := True\<rparr>" and "d \<equiv> p_data (dev w)"
  assumes "k \<noteq> []" "n \<noteq> []" "Ekeys d \<noteq> 0" "checkKey d k \<noteq> ''ISMASTER''" "checkKey d k \<noteq> ''FOUND''"
    and "\<not> OTA_enabled (dev w)"
  shows "\<exists>s3. p_data s3 = (p_data (saveAllToEEPROM ((dev w)\<lparr>p_data := d\<lparr>EdeviceName := snd (store_String 64 (str_replace n '' '' ''_''))\<rparr>\<rparr>))) \<and>
    eeprom s3 = eeprom (saveAllToEEPROM ((dev w)\<lparr>p_data := d\<lparr>EdeviceName := snd (store_String 64 (str_replace n '' '' ''_''))\<rparr>\<rparr>)) \<and>
    handleCmd E now c_ip (rename_request k n) w =
      (let (s4, r) = after_reply E (''new name='' @ str_replace n '' '' ''_'' @ '' saved to flash'') s3
       in (w\<lparr>sta := renew_time d c_ip now (sta w),
             dev := (case r of Return _ \<Rightarrow> s4\<lparr>ledState0 := False\<rparr> | _ \<Rightarrow> s4)\<rparr>, r))"
proof -
  let ?u = "(no_command s1)\<lparr>p_key := k, p_argv := n, p_cmd := ''set_devicename'', p_com := ''set_devicename''\<rparr>"
  let ?f = "\<lambda>d. d\<lparr>EdeviceName := snd (store_String 64 (str_replace n '' '' ''_''))\<rparr>"
  define resp where "resp = ''new name='' @ str_replace n '' '' ''_'' @ '' saved to flash''"
  let ?s3 = "emit [Http_send 200 ''text/raw'' (cstr resp), Client_stop] (save_data ?f ?u)"
  have p: "process E now (From_server (rename_request k n)) False s1 = reply ?u (checkKey d k)"
    using process_rename_refused [of k n s1 E now False] assms by (simp add: rename_request_def)
  have r: "rename E x ?u = (save_data ?f ?u, resp)" for x
    unfolding resp_def by (rule rename_set) (use assms(4) in simp_all)
  have "handleCmd E now c_ip (rename_request k n) w =
      (let (s4, r) = after_reply E resp ?s3
       in (w\<lparr>sta := renew_time d c_ip now (sta w), dev := (case r of Return _ \<Rightarrow> s4\<lparr>ledState0 := False\<rparr> | _ \<Rightarrow> s4)\<rparr>, r))"
    using assms(8) p [unfolded s1_def] r [of "checkKey d k", unfolded s1_def] unfolding handleCmd_def
    by (simp add: reply_def Let_def case_prod_beta s1_def d_def cong: outcome.case_cong)
  moreover have "p_data ?s3 = (p_data (saveAllToEEPROM ((dev w)\<lparr>p_data := ?f d\<rparr>)))"
    "eeprom ?s3 = eeprom (saveAllToEEPROM ((dev w)\<lparr>p_data := ?f d\<rparr>))"
    by (simp_all add: save_data_def s1_def d_def no_command_def)
  ultimately show ?thesis unfolding resp_def by blast
qed

text \<open>The marks of a factory reset in the new name are taken for those of a reply.\<close>

definition reset_name :: string where "reset_name = ''...restore_default...''"

lemma default_members: "Eflag (default_SWdata g) = FSSL" "Ekeys (default_SWdata g) = 0"
  by (simp_all add: default_SWdata_def)

lemma Ekeys_ssl_port: "Ekeys (ssl_port d) = Ekeys d"
  by (simp add: ssl_port_def)

lemma rename_resets:
  fixes w :: web
  assumes "k \<noteq> []" "Ekeys (p_data (dev w)) \<noteq> 0" "checkKey (p_data (dev w)) k \<noteq> ''ISMASTER''"
    "checkKey (p_data (dev w)) k \<noteq> ''FOUND''" "\<not> OTA_enabled (dev w)" "length (e_garbage E) = 800"
  shows "\<exists>w'. handleCmd E now c_ip (rename_request k reset_name) w = (w', Restart) \<and>
    eeprom_get (eeprom (dev w')) = (default_SWdata (e_garbage E))\<lparr>Eflag := FSSL OR FNODEFAULT\<rparr> \<and>
    Ekeys (p_data (dev w')) = 0"
proof -
  have n: "str_replace reset_name '' '' ''_'' = reset_name"
    by (rule str_replace_notin) (simp add: reset_name_def)
  obtain s3 where s3: "handleCmd E now c_ip (rename_request k reset_name) w =
      (let (s4, r) = after_reply E (''new name='' @ reset_name @ '' saved to flash'') s3
       in (w\<lparr>sta := renew_time (p_data (dev w)) c_ip now (sta w),
             dev := (case r of Return _ \<Rightarrow> s4\<lparr>ledState0 := False\<rparr> | _ \<Rightarrow> s4)\<rparr>, r))"
    using handleCmd_rename [of k reset_name w E now c_ip] assms(1-5) unfolding n by (auto simp: reset_name_def)
  have c: "contains (''new name='' @ reset_name @ '' saved to flash'') ''...restore''"
    "contains (''new name='' @ reset_name @ '' saved to flash'') ''default...''"
    by (simp_all add: contains_def reset_name_def index_of_0)
  have a: "after_reply E (''new name='' @ reset_name @ '' saved to flash'') s3 =
      ((new_settings (e_garbage E) True s3)
        \<lparr>p_key := [], p_cmd := [], p_argv := [], p_ext := [], p_com := [], p_upload := False\<rparr>, Restart)"
    using c by (simp only: after_reply_def simp_thms if_True)
  have l: "layout_ok (default_SWdata (e_garbage E))"
    using settings_ok_default [OF assms(6)] by (simp add: settings_ok_layout)
  have f: "eeprom_get (eeprom (new_settings (e_garbage E) True s3)) =
      (default_SWdata (e_garbage E))\<lparr>Eflag := FSSL OR FNODEFAULT\<rparr>" for s3 :: device
    using l by (simp add: new_settings_def init_settings_def eeprom.rd_wr default_members)
  have "Ekeys (p_data (new_settings (e_garbage E) True s3)) = 0" for s3 :: device
    by (simp add: new_settings_def init_settings_def Ekeys_ssl_port default_members)
  then show ?thesis unfolding s3 a using f by simp
qed

section \<open>Keys are added without permission\<close>

lemma write_bytes_short:
  "length (u_buf u) + length bs \<le> HTTP_UPLOAD_BUFLEN \<Longrightarrow> write_bytes bs u = u\<lparr>u_buf := u_buf u @ bs\<rparr>"
proof (induction bs arbitrary: u)
  case (Cons b bs)
  have "uploadWriteByte b u = u\<lparr>u_buf := u_buf u @ [b]\<rparr>"
    using Cons.prems by (simp add: uploadWriteByte_def Let_def)
  then show ?case using Cons.IH [of "uploadWriteByte b u"] Cons.prems by (simp add: write_bytes_def)
qed (simp add: write_bytes_def)

lemma short_upload_calls:
  assumes "strstr f dash_line = None" "length f \<le> HTTP_UPLOAD_BUFLEN"
  shows "\<exists>u. read_file B (start_upload name fn ty True) (f @ dash_line @ B @ rest) = File_end u rest \<and>
    u_calls u = [(UPLOAD_FILE_START, [], 0), (UPLOAD_FILE_WRITE, f, 0), (UPLOAD_FILE_END, f, of_nat (length f))]"
proof -
  have w: "write_bytes f (start_upload name fn ty True) = (start_upload name fn ty True)\<lparr>u_buf := f\<rparr>"
    using write_bytes_short [of "start_upload name fn ty True" f] assms(2)
    by (simp add: start_upload_def call_handler_def Let_def)
  show ?thesis
    unfolding read_file_finds [OF assms(1)] w
    by (simp add: end_upload_def start_upload_def call_handler_def Let_def)
qed

lemma add_one_piece: "0 \<le> Ekeys (p_data st) \<Longrightarrow> Ekeys (p_data st) < 100 \<Longrightarrow> k \<noteq> [] \<Longrightarrow>
    fst (add_pieces [k] st) = fst (addKey k False st)"
  by (simp split: prod.split)

lemma parse_one_key:
  assumes "keys_ok (p_data st)" "Ekeys (p_data st) < 100" "plain_key k" "\<forall>c \<in> set k. \<not> key_separator c"
  shows "fst (parse_for_keys True (k @ '';'') st) = fst (addKey k False st)"
proof -
  have c: "cstr (k @ '';'') = k @ '';''" using assms(3) by (intro cstr_id) (simp add: plain_key_def)
  have "ended_pieces [] (k @ '';'') = [k]"
    using ended_pieces_prefix [OF assms(4), of "[]" "'';''"] by (simp add: key_separator_def)
  then show ?thesis
    using assms add_one_piece [of st k] keys_okD(2) [OF assms(1)]
    by (simp add: parse_for_keys_def c scanForKeys_pieces plain_key_def)
qed

lemma key_no_dash_line: "\<forall>c \<in> set k. \<not> key_separator c \<Longrightarrow> strstr (k @ '';'') dash_line = None"
proof -
  assume k: "\<forall>c \<in> set k. \<not> key_separator c"
  then have "LF \<notin> set (k @ '';'')" by (auto simp: key_separator_def)
  moreover have "LF \<in> set (k @ '';'')" if "strstr (k @ '';'') dash_line = Some a" for a
  proof -
    have "take (length dash_line) (drop a (k @ '';'')) = dash_line" using strstr_Some [OF that] by blast
    moreover have "LF \<in> set dash_line" by (simp add: dash_line_def)
    ultimately show ?thesis by (metis in_set_takeD in_set_dropD)
  qed
  ultimately show ?thesis by (cases "strstr (k @ '';'') dash_line") blast+
qed

lemma uploaded_key_accepted:
  fixes w :: web
  assumes ok: "keys_ok (p_data (dev w))" "Ekeys (p_data (dev w)) < 100" and k: "plain_key k" "\<forall>c \<in> set k. \<not> key_separator c"
    and new: "key_map (p_data (dev w)) k = None" and plain: "\<not> is_master (p_data (dev w)) k"
  shows "checkKey (p_data (dev (run_upload
      [(UPLOAD_FILE_START, [], 0), (UPLOAD_FILE_WRITE, k @ '';'', 0), (UPLOAD_FILE_END, k @ '';'', n)] w))) k = ''FOUND''"
proof -
  define s1 where "s1 = dev (handleUploadFile True (UPLOAD_FILE_START, [], 0) w)"
  define s2 where "s2 = (if \<not> p_upload s1 then emit [Http_send 500 MIME_text_html ACCESS_DENIED] s1 else s1)"
  have d: "p_data s1 = p_data (dev w)" "p_data s2 = p_data (dev w)"
    by (simp_all add: s1_def s2_def handleUploadFile_def Let_def)
  have "p_data (dev (run_upload
      [(UPLOAD_FILE_START, [], 0), (UPLOAD_FILE_WRITE, k @ '';'', 0), (UPLOAD_FILE_END, k @ '';'', n)] w)) =
      p_data (fst (parse_for_keys True (k @ '';'') s2))"
    by (simp add: run_upload_def handleUploadFile_def Let_def s1_def s2_def)
  also have "\<dots> = p_data (fst (addKey k False s2))"
    using parse_one_key [of s2 k] ok k d by simp
  finally have e: "p_data (dev (run_upload
      [(UPLOAD_FILE_START, [], 0), (UPLOAD_FILE_WRITE, k @ '';'', 0), (UPLOAD_FILE_END, k @ '';'', n)] w)) =
      p_data (fst (addKey k False s2))" .
  have a: "keys_ok (p_data (fst (addKey k False s2)))"
    "key_list (p_data (fst (addKey k False s2))) = key_list (p_data s2) @ [(k, False)]"
    by (rule addKey_new; use ok k new d in simp)+
  have m: "key_map (p_data (fst (addKey k False s2))) k = Some False"
    using new d(2) by (simp add: key_map_def a(2) map_add_def)
  have p: "\<not> is_master (p_data (fst (addKey k False s2))) k"
    using plain d(2) k(1) by (simp add: is_master_def addKey_def plain_key_def Let_def split: option.split)
  show ?thesis unfolding e using checkKey_spec [OF a(1), of k] m p by simp
qed

section \<open>Properties\<close>

text \<open>C11. When every key typed at the login page is unknown or black-listed, the login changes nothing in the
  device: it only sends the portal page again.\<close>

theorem refused_login_changes_nothing:
  assumes "\<forall>a \<in> set args. login_refused (p_data s) a"
  shows "snd (handleLogin P E now args s) = Return () \<and> silent (fst (handleLogin P E now args s)) = silent s"
  using assms by (rule handleLogin_refused)

theorem refused_login_changes_nothing_witness:
  "silent (fst (handleLogin \<lparr>PREHTML = [], POSTHTML = [], LOGO = [], ICON = []\<rparr> idle_env 0 [(''key'', ''burglar'')] guest_device)) =
   silent guest_device"
proof -
  have k: "str_replace ''burglar'' ''%26'' ''&'' = ''burglar''" by (rule str_replace_notin) simp
  have a: "index_of ''burglar'' ''&'' 0 = None" by (simp add: index_of_0)
  have "checkKey (p_data guest_device) ''burglar'' = ''NOTFOUND''"
    by (simp add: checkKey_spec guest_device_map guest_device_master)
  then have "\<forall>a \<in> set [(''key'', ''burglar'')]. login_refused (p_data guest_device) a"
    by (simp add: login_refused_def login_key_def k a guest_device_keys Let_def)
  then show ?thesis by (rule refused_login_changes_nothing [THEN conjunct2])
qed

text \<open>Anyone can add a key to the lock: without the permission that an upload command gives, a posted file
  with a new key is answered with a refusal, but the key is stored and accepted from then on.\<close>

lemma upload_needs_no_permission:
  fixes w :: web
  assumes "\<not> p_upload (dev w)" "keys_ok (p_data (dev w))" "Ekeys (p_data (dev w)) < 100"
    and "plain_key k" "\<forall>c \<in> set k. \<not> key_separator c"
    and "key_map (p_data (dev w)) k = None" "\<not> is_master (p_data (dev w)) k"
  shows "\<exists>u. read_file B (start_upload name fn ty True) ((k @ '';'') @ dash_line @ B @ rest) = File_end u rest \<and>
    checkKey (p_data (dev (run_upload (u_calls u) w))) k = ''FOUND''"
proof -
  have "length (k @ '';'') \<le> HTTP_UPLOAD_BUFLEN"
    using assms(4) by (simp add: plain_key_def HTTP_UPLOAD_BUFLEN_def)
  from short_upload_calls [OF key_no_dash_line [OF assms(5)] this]
  show ?thesis using uploaded_key_accepted [OF assms(2-7)] by metis
qed

definition guest_web :: web where
  "guest_web = \<lparr>dev = guest_device, sta = no_stations, starting_w_keys = 0, upd_response = [], upd_code = 0\<rparr>"

lemma guest_web_facts:
  "keys_ok (p_data (dev guest_web))" "Ekeys (p_data (dev guest_web)) = 1" "\<not> p_upload (dev guest_web)"
  "\<not> OTA_enabled (dev guest_web)" "checkKey (p_data (dev guest_web)) ''burglar'' = ''NOTFOUND''"
proof -
  have e: "Ekeys (p_data guest_device) = 1"
    using card_dom_key_map [OF guest_device_map(1)] keys_okD(2) [OF guest_device_map(1)] by (simp add: guest_device_map(2))
  have f: "\<not> p_upload guest_device" "\<not> OTA_enabled guest_device"
    by (simp_all add: guest_device_def fresh_device_def initial_device_def addKey_def saveAllToEEPROM_def Let_def split: option.split)
  show "keys_ok (p_data (dev guest_web))" "Ekeys (p_data (dev guest_web)) = 1" "\<not> p_upload (dev guest_web)"
    "\<not> OTA_enabled (dev guest_web)" "checkKey (p_data (dev guest_web)) ''burglar'' = ''NOTFOUND''"
    using e f guest_device_map guest_device_master by (simp_all add: guest_web_def checkKey_spec)
qed

text \<open>C10. Anyone can reset the lock to its factory settings: a rename command is carried out whatever its key,
  and a new name that holds the marks of a reset reply makes the handler write the default settings,
  without any key, to the flash and restart.\<close>

theorem rename_resets_without_key:
  fixes w :: web
  assumes "k \<noteq> []" "Ekeys (p_data (dev w)) \<noteq> 0" "checkKey (p_data (dev w)) k \<noteq> ''ISMASTER''"
    "checkKey (p_data (dev w)) k \<noteq> ''FOUND''" "\<not> OTA_enabled (dev w)" "length (e_garbage E) = 800"
  shows "\<exists>w'. handleCmd E now c_ip (rename_request k reset_name) w = (w', Restart) \<and>
    eeprom_get (eeprom (dev w')) = (default_SWdata (e_garbage E))\<lparr>Eflag := FSSL OR FNODEFAULT\<rparr> \<and>
    Ekeys (p_data (dev w')) = 0"
  using assms by (rule rename_resets)

theorem rename_resets_without_key_witness:
  "checkKey (p_data (dev guest_web)) ''burglar'' = ''NOTFOUND'' \<and>
   (\<exists>w'. handleCmd idle_env 0 0 (rename_request ''burglar'' reset_name) guest_web = (w', Restart) \<and>
     Ekeys (p_data (dev w')) = 0)"
proof (rule conjI)
  have "''burglar'' \<noteq> []" "Ekeys (p_data (dev guest_web)) \<noteq> 0" "checkKey (p_data (dev guest_web)) ''burglar'' \<noteq> ''ISMASTER''"
    "checkKey (p_data (dev guest_web)) ''burglar'' \<noteq> ''FOUND''" "\<not> OTA_enabled (dev guest_web)" "length (e_garbage idle_env) = 800"
    using guest_web_facts by (simp_all add: idle_env_def)
  from rename_resets_without_key [OF this, of 0 0]
  show "\<exists>w'. handleCmd idle_env 0 0 (rename_request ''burglar'' reset_name) guest_web = (w', Restart) \<and>
      Ekeys (p_data (dev w')) = 0" by blast
qed (rule guest_web_facts)

end
