(* ===== verification/Remote_Client.thy ===== *)
theory Remote_Client
  imports Command_Process
begin

text \<open>
  The lock's side of remote control: the HTTP client of \<open>SW_http.cpp\<close> with its change between plain
  and secure connections, and the requests of \<open>WSKey32.ino\<close> to the transponder.  The network and the
  server are arguments; the clock advances by a given amount at each reading.
\<close>

section \<open>State and surroundings\<close>

record 'w remote =
  lock :: device
  world :: 'w
  plain_client :: bool
    \<comment> \<open>\<open>client != null\<close>\<close>
  secure_client :: bool
    \<comment> \<open>\<open>sclient != null\<close>\<close>
  cl_err :: int
  ch_mod :: bool
  cl_delay :: int
  localUnixtime :: int
  unx_ms :: u32
  unx_summ :: u32
  remoteTime :: u32
  refresh_ms :: u32
    \<comment> \<open>\<open>localUnixTimeRefresh_LastResponseMs\<close>\<close>
  time_ms :: u32
  delays :: "u32 list"

text \<open>
  One connection as the client sees it: the readings of \<open>WiFi.status()\<close>, the result of
  \<open>esp_wifi_connect\<close>, the result of each \<open>connect\<close>, whether data is available at the head and inside
  the waiting loop, and the bytes that are then read.
\<close>

record net =
  n_status :: "nat list"
  n_wifi_connect :: int
  n_connect :: "bool list"
  n_available :: "(bool \<times> bool) list"
  n_response :: bytes

record target =
  t_secure :: bool
  t_host :: string
  t_ip :: u32
  t_port :: u16

record 'w surroundings =
  l_net :: "target \<Rightarrow> string \<Rightarrow> 'w \<Rightarrow> net \<times> 'w"
    \<comment> \<open>what becomes of a request sent to a target\<close>
  l_ftp :: "SWdata \<Rightarrow> 'w \<Rightarrow> bool \<times> 'w"
    \<comment> \<open>\<open>upload_transponder\<close>\<close>
  l_handleClient :: "device \<Rightarrow> device"
  l_new_client :: bool
    \<comment> \<open>whether \<open>new\<close> finds memory for a client\<close>
  l_ip_address :: u32
    \<comment> \<open>the address of \<open>parser->data.EremoteIP\<close> in memory\<close>
  l_env :: env

definition WL_CONNECTED :: nat where "WL_CONNECTED = 3"

text \<open>\<open>None\<close> is a call that does not return.\<close>

type_synonym ('w, 'r) result = "'w remote \<times> 'r outcome option"

definition returns :: "'r \<Rightarrow> 'w remote \<Rightarrow> ('w, 'r) result" where
  "returns r s = (s, Some (Return r))"

fun and_next :: "('w, 'a) result \<Rightarrow> ('a \<Rightarrow> 'w remote \<Rightarrow> ('w, 'b) result) \<Rightarrow> ('w, 'b) result" where
  "and_next (s, Some (Return r)) k = k r s"
| "and_next (s, Some Restart) k = (s, Some Restart)"
| "and_next (s, Some Null_pointer) k = (s, Some Null_pointer)"
| "and_next (s, None) k = (s, None)"

definition millis :: "'w remote \<Rightarrow> u32 \<times> 'w remote" where
  "millis s =
     (case delays s of
        [] \<Rightarrow> (time_ms s, s)
      | d # ds \<Rightarrow> (time_ms s + d, s\<lparr>time_ms := time_ms s + d, delays := ds\<rparr>))"

definition on_lock :: "(device \<Rightarrow> device) \<Rightarrow> 'w remote \<Rightarrow> 'w remote" where
  "on_lock f s = s\<lparr>lock := f (lock s)\<rparr>"

abbreviation settings :: "'w remote \<Rightarrow> SWdata" where
  "settings s \<equiv> p_data (lock s)"

text \<open>The members that are used as C strings.\<close>

definition device_name :: "SWdata \<Rightarrow> string" where "device_name d = char_ptr d 1"
definition remote_host :: "SWdata \<Rightarrow> string" where "remote_host d = char_ptr d 12"
definition remote_dir :: "SWdata \<Rightarrow> string" where "remote_dir d = char_ptr d 13"

lemma cstr_member [simp]: "cstr (device_name d) = device_name d" "cstr (remote_host d) = remote_host d"
  "cstr (remote_dir d) = remote_dir d"
  by (simp_all add: device_name_def remote_host_def remote_dir_def)

lemma no_nul_member [simp]: "nul \<notin> set (device_name d)" "nul \<notin> set (remote_dir d)"
  by (auto simp: device_name_def remote_dir_def char_ptr_def cstr_def dest: set_takeWhileD)

section \<open>The HTTP client\<close>

definition NO_AP_CONNECTION :: string where "NO_AP_CONNECTION = ''error : no connection to AP''"
definition AP_CONNECTION_TIMEOUT :: string where
  "AP_CONNECTION_TIMEOUT = ''error : connection to access point timeout''"
definition CONNECTION_TIMEOUT :: string where "CONNECTION_TIMEOUT = ''error: connection TIMEOUT''"
definition RESPONSE_TIMEOUT :: string where "RESPONSE_TIMEOUT = ''error : response timeout''"

definition clientRespLimit :: u32 where "clientRespLimit = 3000"

definition client_stop :: "'w remote \<Rightarrow> ('w, unit) result" where
  "client_stop s = (s, Some (if secure_client s \<or> plain_client s then Return () else Null_pointer))"

text \<open>
  Waiting for the access point.  The time-out of the source is guarded by
  \<open>!WiFi.status() == WL_CONNECTED\<close>, the comparison of 0 or 1 with 3.
\<close>

fun wait_ap :: "'w surroundings \<Rightarrow> nat list \<Rightarrow> 'w remote \<Rightarrow> ('w, bool) result" where
  "wait_ap L [] s = (s, None)"
| "wait_ap L (st # sts) s =
     (if st = WL_CONNECTED then returns True s
      else
        let s1 = on_lock (modAntilock 0) (on_lock (l_handleClient L) s);
            not_status = (if st = 0 then 1 else 0 :: nat)
        in if not_status = WL_CONNECTED then returns False s1 else wait_ap L sts s1)"

fun connect_loop :: "'w surroundings \<Rightarrow> u32 \<Rightarrow> bool list \<Rightarrow> 'w remote \<Rightarrow> ('w, bool) result" where
  "connect_loop L start [] s = (s, None)"
| "connect_loop L start (c # cs) s =
     (if c \<and> (secure_client s \<or> plain_client s) then returns True s
      else
        let (now, s1) = millis (on_lock (l_handleClient L) (on_lock (modAntilock 0) s))
        in if start + clientRespLimit < now then returns False s1 else connect_loop L start cs s1)"

fun wait_answer :: "'w surroundings \<Rightarrow> u32 \<Rightarrow> (bool \<times> bool) list \<Rightarrow> 'w remote \<Rightarrow> ('w, bool) result" where
  "wait_answer L start [] s = (s, None)"
| "wait_answer L start ((ready, ready_inside) # later) s =
     (if ready then returns True s
      else
        let s1 = on_lock (l_handleClient L) (on_lock (modAntilock 0) s)
        in if ready_inside then wait_answer L start later s1
           else
             let (now, s2) = millis s1
             in if start + clientRespLimit < now then returns False s2 else wait_answer L start later s2)"

text \<open>\<open>readStringUntil('\r')\<close> while data is available.\<close>

function response_lines :: "bytes \<Rightarrow> string list" where
  "response_lines inp =
     (if inp = [] then []
      else takeWhile (\<lambda>c. c \<noteq> CR) inp # response_lines (drop 1 (dropWhile (\<lambda>c. c \<noteq> CR) inp)))"
  by pat_completeness auto
termination
proof (relation "measure length", simp)
  fix inp :: bytes
  assume "inp \<noteq> []"
  then show "(drop 1 (dropWhile (\<lambda>c. c \<noteq> CR) inp), inp) \<in> measure length"
    using length_dropWhile_le [of "\<lambda>c. c \<noteq> CR" inp] by (cases inp) auto
qed

declare response_lines.simps [simp del]

text \<open>After an error answer the other kind of client is tried, with its port.\<close>

definition change_mode :: "'w surroundings \<Rightarrow> string \<Rightarrow> 'w remote \<Rightarrow> ('w, string) result" where
  "change_mode L err s =
     and_next (client_stop s) (\<lambda>u s.
       if secure_client s then
         (if \<not> l_new_client L then (s\<lparr>secure_client := False, plain_client := False\<rparr>, Some Restart)
          else returns err ((on_lock (\<lambda>d. d\<lparr>p_data := (p_data d)\<lparr>EremotePort := 80\<rparr>\<rparr>) s)
                 \<lparr>secure_client := False, plain_client := True, ch_mod := True\<rparr>))
       else
         (if \<not> l_new_client L then (s\<lparr>plain_client := False\<rparr>, Some Restart)
          else returns err ((on_lock (\<lambda>d. d\<lparr>p_data := (p_data d)\<lparr>EremotePort := 443\<rparr>\<rparr>) s)
                 \<lparr>plain_client := False, secure_client := True, ch_mod := True\<rparr>)))"

definition keep_mode :: "'w remote \<Rightarrow> 'w remote" where
  "keep_mode s =
     (if ch_mod s then
        (on_lock (\<lambda>d. saveAllToEEPROM ((modAntilock 0 d)\<lparr>p_data := (p_data d)\<lparr>Eflag :=
             (if secure_client s then Eflag (p_data d) OR FSSL else Eflag (p_data d) AND NOT FSSL)\<rparr>\<rparr>)) s)
          \<lparr>ch_mod := False\<rparr>
      else s)"

text \<open>What a line adds: the text behind the start mark, up to the end mark.\<close>

definition start_mark :: "SWdata \<Rightarrow> string" where
  "start_mark d = ''<transponder'' @ device_name d @ ''>''"

definition end_mark :: "SWdata \<Rightarrow> string" where
  "end_mark d = ''</transponder'' @ device_name d @ ''>''"

definition take_line :: "SWdata \<Rightarrow> string \<Rightarrow> string \<Rightarrow> string \<times> nat option \<times> nat option \<Rightarrow> string \<times> nat option \<times> nat option" where
  "take_line d action line = (\<lambda>(sres, b, e).
     if action = ''transponder'' then
       (let (sres1, b1) =
              (case b of
                 Some k \<Rightarrow> (sres, b)
               | None \<Rightarrow>
                   (case index_of line (start_mark d) 0 of
                      None \<Rightarrow> (sres, None)
                    | Some k \<Rightarrow> (substring_from line (k + length (start_mark d)), Some k)))
        in case e of
             Some k \<Rightarrow> (sres1, b1, e)
           | None \<Rightarrow>
               (let sres2 = sres1 @ line in
                case index_of sres2 (end_mark d) 0 of
                  None \<Rightarrow> (sres2, b1, None)
                | Some k \<Rightarrow> (substring sres2 0 k, b1, Some k)))
     else (sres @ line, b, e))"

definition error_line :: "string \<Rightarrow> bool" where
  "error_line line \<longleftrightarrow> contains (to_lower line) ''404 not found'' \<or> contains (to_lower line) ''400 bad request''"

fun read_answer :: "'w surroundings \<Rightarrow> string \<Rightarrow> string list \<Rightarrow> string \<times> nat option \<times> nat option \<Rightarrow> 'w remote \<Rightarrow>
    ('w, string) result" where
  "read_answer L action [] (sres, b, e) s =
     and_next (client_stop s) (\<lambda>u s.
       let r = (if action = ''transponder'' \<and> (e = None \<or> b = None) then ''error : transponder not getted'' else sres)
       in returns (if action = ''loadfromhost'' then ''OK'' else r) s)"
| "read_answer L action (line # lines) acc s =
     (let s1 = on_lock (modAntilock 0) s in
      if error_line line then change_mode L (''error: '' @ line) s1
      else
        let s2 = on_lock (l_handleClient L) (on_lock (modAntilock 0) (keep_mode s1))
        in read_answer L action lines (take_line (settings s2) action line acc) s2)"

definition client_request ::
  "'w surroundings \<Rightarrow> string \<Rightarrow> string \<Rightarrow> u32 \<Rightarrow> u16 \<Rightarrow> string \<Rightarrow> 'w remote \<Rightarrow> ('w, string) result" where
  "client_request L host url ip port action s =
     (if host = [] \<and> ip = 0 then returns ''error : null destination'' s
      else
        let tgt = \<lparr>t_secure = secure_client s, t_host = host, t_ip = ip, t_port = port\<rparr>;
            (N, w) = l_net L tgt (cstr url) (world s);
            s0 = s\<lparr>world := w\<rparr>;
            down = (n_status N = [] \<or> hd (n_status N) \<noteq> WL_CONNECTED);
            s1 = (if down then s0\<lparr>cl_err := n_wifi_connect N\<rparr> else s0)
        in if down \<and> n_wifi_connect N \<noteq> 0 then returns NO_AP_CONNECTION s1
           else
             let (t0, s2) = millis s1 in
             and_next (wait_ap L (tl (n_status N)) s2) (\<lambda>ok s.
             if \<not> ok then and_next (client_stop s) (\<lambda>u. returns AP_CONNECTION_TIMEOUT)
             else
               let (t1, s3) = millis s in
               and_next (connect_loop L t1 (n_connect N) s3) (\<lambda>ok s.
               if \<not> ok then and_next (client_stop s) (\<lambda>u. returns CONNECTION_TIMEOUT)
               else
                 let (t2, s4) = millis s; (t3, s5) = millis s4 in
                 and_next (wait_answer L t3 (n_available N) (on_lock (modAntilock 0) s5)) (\<lambda>ok s.
                 if \<not> ok then and_next (client_stop s)
                   (\<lambda>u s. returns RESPONSE_TIMEOUT (on_lock (\<lambda>d. d\<lparr>ledState1 := False\<rparr>) s))
                 else
                   let (t4, s6) = millis (on_lock (\<lambda>d. d\<lparr>ledState1 := True\<rparr>) s);
                       s7 = on_lock (\<lambda>d. d\<lparr>ledTimeMs1 := t4\<rparr>) s6;
                       (t5, s8) = millis s7
                   in read_answer L action (response_lines (n_response N)) ([], None, None) s8))))"

section \<open>Requests to the transponder\<close>

definition underscored :: "string \<Rightarrow> string" where
  "underscored t = str_replace t '' '' ''_''"

definition request_url :: "SWdata \<Rightarrow> string \<Rightarrow> string \<Rightarrow> string \<Rightarrow> string \<Rightarrow> bool \<Rightarrow> string" where
  "request_url d req ukey arg ext close =
     ''GET '' @ ''/'' @ remote_dir d @ ''/'' @ device_name d @ ''.php?access='' @ req @
     ''&dev='' @ device_name d @ ''&key='' @ device_name d @
     (if ukey \<noteq> [] then ''&ukey='' @ underscored ukey else []) @
     (if arg \<noteq> [] then ''&arg='' @ underscored arg else []) @
     (if ext \<noteq> [] then ''&ext='' @ underscored ext else []) @
     '' HTTP/1.1'' @ [CR, LF] @ ''Host: '' @ remote_host d @ [CR, LF] @
     ''User-Agent: esp-idf/1.0 esp32'' @ [CR, LF] @
     (if close then ''Connection: close'' @ [CR, LF, CR, LF] else [CR, LF])"

text \<open>
  \<open>(uint32_t)parser->data.EremoteIP\<close> converts the address of the member, not the four bytes in it.
\<close>

definition request_on_transponder ::
  "'w surroundings \<Rightarrow> string \<Rightarrow> string \<Rightarrow> string \<Rightarrow> string \<Rightarrow> u32 \<Rightarrow> u16 \<Rightarrow> bool \<Rightarrow> 'w remote \<Rightarrow> ('w, string) result" where
  "request_on_transponder L req ukey arg ext ip4 port close s =
     (let d = settings s in
      client_request L (remote_host d) (request_url d req ukey arg ext close)
        (if ip4 = 0 then l_ip_address L else ip4) (if port = 0 then EremotePort d else port) ''transponder''
        (s\<lparr>cl_err := 0\<rparr>))"

abbreviation ask_transponder ::
  "'w surroundings \<Rightarrow> string \<Rightarrow> string \<Rightarrow> string \<Rightarrow> string \<Rightarrow> 'w remote \<Rightarrow> ('w, string) result" where
  "ask_transponder L req ukey arg ext \<equiv> request_on_transponder L req ukey arg ext 0 0 True"

definition transmit_response :: "'w surroundings \<Rightarrow> string \<Rightarrow> string \<Rightarrow> string \<Rightarrow> 'w remote \<Rightarrow> ('w, string) result" where
  "transmit_response L key unixtime response s =
     and_next (ask_transponder L ''set_response'' key unixtime (underscored response) s) (\<lambda>res s.
       if contains res ''Bad Request'' then ask_transponder L ''delete_request'' key unixtime [] s
       else returns res s)"

definition ACTUAL_TRANSPONDER_VERSION :: string where "ACTUAL_TRANSPONDER_VERSION = ''4.0''"

definition set_version :: "string \<Rightarrow> 'w remote \<Rightarrow> 'w remote" where
  "set_version v = on_lock (\<lambda>d. d\<lparr>transponder_version := v\<rparr>)"

text \<open>Uploading the script and its settings; the second test is of the first flag again.\<close>

definition do_upload_transponder_FTP :: "'w surroundings \<Rightarrow> bool \<Rightarrow> bool \<Rightarrow> 'w remote \<Rightarrow> ('w, string) result" where
  "do_upload_transponder_FTP L set_TimeZone set_MaxLogs s =
     (let s0 = on_lock (modAntilock (-1)) s;
          (ok, w) = l_ftp L (settings s0) (world s0);
          s1 = on_lock (modAntilock 0) (set_version (if ok then ACTUAL_TRANSPONDER_VERSION else []) (s0\<lparr>world := w\<rparr>))
      in if \<not> ok then returns ''error : upload fail'' (on_lock (modAntilock 0) s1)
         else if \<not> set_TimeZone then returns ''successful download'' (on_lock (modAntilock 0) s1)
         else
           and_next (ask_transponder L ''set_tzone'' ''0'' (char_ptr (settings s1) 20) [] s1) (\<lambda>res s.
             let resp = ''successful download'' @ (if res \<noteq> ''success'' then '',error : timezone not set'' else [])
             in and_next (ask_transponder L ''set_maxlogs'' [] (dec_int (EremoteMaxLogs (settings s))) [] (on_lock (modAntilock 0) s))
                  (\<lambda>res. returns (resp @ (if res \<noteq> ''success'' then '',error : max logs not set'' else [])))))"

section \<open>The local clock\<close>

definition wrap32 :: "int \<Rightarrow> int" where
  "wrap32 i = sint (word_of_int i :: u32)"

definition advance_clock :: "'w remote \<Rightarrow> 'w remote" where
  "advance_clock s =
     (let (t, s1) = millis s; summ = unx_summ s1 + (t - unx_ms s1);
          (t', s2) = millis s1; nx = summ div 1000
      in if nx > 0
         then s2\<lparr>unx_summ := summ - nx * 1000, unx_ms := t', localUnixtime := wrap32 (localUnixtime s2 + uint nx)\<rparr>
         else s2\<lparr>unx_summ := summ, unx_ms := t'\<rparr>)"

definition touch_remote_time :: "'w remote \<Rightarrow> 'w remote" where
  "touch_remote_time s = (let (t, s1) = millis s in s1\<lparr>remoteTime := t\<rparr>)"

section \<open>Polling\<close>

definition broken_script :: "string \<Rightarrow> bool" where
  "broken_script res \<longleftrightarrow> contains res ''404 not found'' \<or> contains res ''Parse error'' \<or> contains res ''syntax error''"

text \<open>Nothing to do: the time of the server is asked for now and then.\<close>

definition refresh_clock :: "'w surroundings \<Rightarrow> 'w remote \<Rightarrow> ('w, string) result" where
  "refresh_clock L s =
     and_next (ask_transponder L ''get_unixtime'' [] [] [] s) (\<lambda>res s.
       let unixtime = argval res ''unixtime'' in
       returns ''empty''
         (if unixtime \<noteq> []
          then (let (t, s1) = millis s
                in s1\<lparr>localUnixtime := to_int unixtime, refresh_ms := t, unx_ms := t, unx_summ := 0\<rparr>)
          else s\<lparr>localUnixtime := 0\<rparr>))"

definition nothing_to_do :: "'w surroundings \<Rightarrow> 'w remote \<Rightarrow> ('w, string) result" where
  "nothing_to_do L s =
     (let (due, s1) =
            (if refresh_ms s = 0 then (True, s)
             else (let (t, s1) = millis s
                   in (t > refresh_ms s1 + word_of_int (EunixtimeRefresh (settings s1) * 1000), s1)))
      in if due then refresh_clock L s1 else returns ''empty'' (touch_remote_time (advance_clock s1)))"

definition too_old :: "'w remote \<Rightarrow> string \<Rightarrow> bool" where
  "too_old s unixtime \<longleftrightarrow>
     0 < localUnixtime s \<and> ErequestActualSec (settings s) < wrap32 (localUnixtime s - to_int unixtime)"

text \<open>Carrying out a command: the reply of \<open>process\<close>, which may restart the lock.\<close>

definition carry_out :: "'w surroundings \<Rightarrow> string \<Rightarrow> 'w remote \<Rightarrow> ('w, string) result" where
  "carry_out L res s =
     (let (t, s1) = millis s in
      case process (l_env L) t (From_remote res) False (lock s1) of
        (d, r) \<Rightarrow> (s1\<lparr>lock := d\<rparr>, Some r))"

definition answer_command :: "'w surroundings \<Rightarrow> string \<Rightarrow> 'w remote \<Rightarrow> ('w, string) result" where
  "answer_command L res s =
     (let unixtime = argval res ''unixtime''; key = argval res ''key'' in
      and_next (if too_old s unixtime then returns ''too old'' s else carry_out L res s) (\<lambda>resp s.
        if resp = ''set_devicename'' then
          (let arg = argval res ''arg'';
               newname = (if arg = [] then default_name (l_env L) else underscored arg);
               said = (if arg = [] then ''new name is default as MAC='' @ newname
                       else ''new name='' @ newname @ '' saved to flash'')
           in and_next (transmit_response L key unixtime said s) (\<lambda>res s.
                returns res (on_lock (\<lambda>d. saveAllToEEPROM (d\<lparr>p_data :=
                  (p_data d)\<lparr>EdeviceName := snd (store_String 64 newname)\<rparr>\<rparr>)) s)))
        else transmit_response L key unixtime resp s))"

definition RequestTransponder :: "'w surroundings \<Rightarrow> string \<Rightarrow> 'w remote \<Rightarrow> ('w, string) result" where
  "RequestTransponder L req s =
     (if OTA_enabled (lock s) then returns ''error: upgrade'' s
      else if has_flag (settings s) FNOREMOTE \<or> \<not> connected (lock s) then
        returns ''error: not connected to access point'' (if 0 < localUnixtime s then advance_clock s else s)
      else if transponder_version (lock s) \<noteq> ACTUAL_TRANSPONDER_VERSION then returns [] s
      else
        let (t, s1) = millis s;
            interval = (if 1000 \<le> EremoteIntervalMs (settings s1) then EremoteIntervalMs (settings s1) else 1000)
        in if t \<le> remoteTime s1 + word_of_int interval then returns [] s1
           else if 0 < cl_delay s1 then returns [] (touch_remote_time (s1\<lparr>cl_delay := cl_delay s1 - 1\<rparr>))
           else
             let request = (if req \<noteq> [] then req else ''receive'') in
             and_next (ask_transponder L request [] [] [] s1) (\<lambda>res s.
               if broken_script res then
                 and_next (do_upload_transponder_FTP L True True (s\<lparr>cl_err := 0\<rparr>)) (\<lambda>r. returns [])
               else if res = ''empty'' then nothing_to_do L s
               else if request = ''receive'' \<and> argval res ''unixtime'' \<noteq> [] then answer_command L res s
               else returns res (touch_remote_time s)))"

text \<open>The first request after a connection: the version of the script decides.\<close>

definition on_connected :: "'w surroundings \<Rightarrow> 'w remote \<Rightarrow> ('w, unit) result" where
  "on_connected L s =
     and_next (ask_transponder L ''get_transponder'' [] [] [] (on_lock (\<lambda>d. d\<lparr>STA_action := 0\<rparr>) (s\<lparr>cl_err := 0\<rparr>))) (\<lambda>r s.
       let res = to_lower r in
       if (contains res ''error'' \<and> contains res ''connection to access point timeout'') \<or> contains res ''response timeout''
       then returns () s
       else
         and_next
           (if contains res ''404 not found'' \<or> contains res ''parse error'' \<or> contains res ''syntax error'' \<or>
               res \<noteq> ACTUAL_TRANSPONDER_VERSION
            then do_upload_transponder_FTP L True True s
            else returns [] (set_version res s)) (\<lambda>r s.
         returns ()
           (if transponder_version (lock s) \<noteq> ACTUAL_TRANSPONDER_VERSION
            then on_lock (emit [Auto_connect False, Wifi_disconnect]) s
            else on_lock (\<lambda>d. d\<lparr>connected := True\<rparr>) s)))"

end
