(* ===== verification/Php_Text.thy ===== *)
theory Php_Text
  imports Arduino_Numbers
begin

text \<open>
  The parts of PHP's string and file library that the transponder script in
  \<open>src/transponder.h\<close> calls.  A string is its list of bytes, an undefined variable and \<open>null\<close> read
  as the empty string.  A number in a text is its leading integer: fractions and exponents are not
  read.
\<close>

definition php_space :: "char \<Rightarrow> bool" where
  "php_space c \<longleftrightarrow> (of_char c :: nat) \<in> {32, 9, 10, 13, 0, 11}"

text \<open>\<open>trim\<close>\<close>

definition php_trim :: "string \<Rightarrow> string" where
  "php_trim s = rev (dropWhile php_space (rev (dropWhile php_space s)))"

text \<open>\<open>strripos\<close>: the last place at or behind the offset, letters of either case being equal.\<close>

fun last_pos :: "string \<Rightarrow> string \<Rightarrow> nat option" where
  "last_pos [] p = (if p = [] then Some 0 else None)"
| "last_pos (c # s) p =
     (case last_pos s p of
        Some k \<Rightarrow> Some (Suc k)
      | None \<Rightarrow> if take (length p) (c # s) = p then Some 0 else None)"

definition strripos :: "string \<Rightarrow> string \<Rightarrow> nat \<Rightarrow> nat option" where
  "strripos s p from =
     (if length s < from then None
      else map_option ((+) from) (last_pos (to_lower (drop from s)) (to_lower p)))"

definition occurs :: "string \<Rightarrow> string \<Rightarrow> bool" where
  "occurs p s \<longleftrightarrow> strripos s p 0 \<noteq> None"

text \<open>\<open>explode\<close> at one character, and the element a \<open>list\<close> assignment takes.\<close>

fun explode :: "char \<Rightarrow> string \<Rightarrow> string list" where
  "explode d [] = [[]]"
| "explode d (c # s) =
     (if c = d then [] # explode d s
      else case explode d s of [] \<Rightarrow> [[c]] | x # xs \<Rightarrow> (c # x) # xs)"

definition element :: "string list \<Rightarrow> nat \<Rightarrow> string" where
  "element xs i = (if i < length xs then xs ! i else [])"

text \<open>\<open>(int)\<close>, saturating at the ends of the 64-bit range.\<close>

definition php_int :: "string \<Rightarrow> int" where
  "php_int s =
     (case scan_number s of (neg, n) \<Rightarrow>
        if neg then max (- 9223372036854775808) (- int n) else min 9223372036854775807 (int n))"

text \<open>\<open>file\<close>: the lines of a file, each with its line break.\<close>

fun file_lines :: "string \<Rightarrow> string list" where
  "file_lines [] = []"
| "file_lines (c # s) =
     (if c = LF then [LF] # file_lines s
      else case file_lines s of [] \<Rightarrow> [[c]] | l # ls \<Rightarrow> (c # l) # ls)"

text \<open>How the script writes lines back: trimmed, each followed by \<open>PHP_EOL\<close>.\<close>

definition written_lines :: "string list \<Rightarrow> string" where
  "written_lines ls = concat (map (\<lambda>l. php_trim l @ [LF]) ls)"

text \<open>\<open>substr\<close> from a place inside the text; a negative length counts from the end.\<close>

definition substr :: "string \<Rightarrow> nat \<Rightarrow> int \<Rightarrow> string" where
  "substr s from n =
     (let t = drop from s in if 0 \<le> n then take (nat n) t else take (length t - nat (- n)) t)"

section \<open>Facts\<close>

lemma file_lines_nonempty: "file_lines s = [] \<longleftrightarrow> s = []"
  by (induction s rule: file_lines.induct) (auto split: list.splits)

lemma concat_file_lines: "concat (file_lines s) = s"
  by (induction s rule: file_lines.induct) (auto split: list.splits)

lemma file_lines_line: "LF \<notin> set l \<Longrightarrow> file_lines (l @ LF # s) = (l @ [LF]) # file_lines s"
  by (induction l) auto

lemma file_lines_end: "LF \<notin> set l \<Longrightarrow> l \<noteq> [] \<Longrightarrow> file_lines l = [l]"
proof (induction l)
  case (Cons c l)
  then show ?case by (cases l) auto
qed simp

text \<open>What the script writes it reads again, as long as no line has a break inside.\<close>

lemma php_trim_subset: "set (php_trim s) \<subseteq> set s"
  by (auto simp: php_trim_def dest!: set_dropWhileD)

lemma file_lines_written:
  "(\<And>l. l \<in> set ls \<Longrightarrow> LF \<notin> set (php_trim l)) \<Longrightarrow>
   file_lines (written_lines ls) = map (\<lambda>l. php_trim l @ [LF]) ls"
proof (induction ls)
  case (Cons l ls)
  then have "LF \<notin> set (php_trim l)" by simp
  with Cons show ?case
    by (simp add: written_lines_def file_lines_line)
qed (simp add: written_lines_def)

lemma php_trim_id:
  assumes "s = [] \<or> \<not> php_space (hd s) \<and> \<not> php_space (last s)"
  shows "php_trim s = s"
proof -
  have "dropWhile php_space s = s" using assms by (intro dropWhile_stop) auto
  moreover have "dropWhile php_space (rev s) = rev s"
    using assms by (intro dropWhile_stop) (auto simp: hd_rev)
  ultimately show ?thesis by (simp add: php_trim_def)
qed

lemma php_trim_ends:
  "php_trim s = [] \<or> \<not> php_space (hd (php_trim s)) \<and> \<not> php_space (last (php_trim s))"
proof -
  define u where "u = dropWhile php_space s"
  define t where "t = dropWhile php_space (rev u)"
  have trim: "php_trim s = rev t" by (simp only: php_trim_def t_def u_def)
  show ?thesis
  proof (cases "t = []")
    case False
    then have t: "\<not> php_space (hd t)" unfolding t_def by (rule hd_dropWhile)
    have "u \<noteq> []" using False unfolding t_def by (cases "u = []") simp_all
    then have u: "\<not> php_space (hd u)" unfolding u_def by (rule hd_dropWhile)
    obtain a where "rev u = a @ t" unfolding t_def by (metis takeWhile_dropWhile_id)
    then have "last (rev u) = last t" using False by (metis last_appendR)
    then have "hd u = last t" using \<open>u \<noteq> []\<close> by (simp add: last_rev)
    then show ?thesis using t u False by (simp add: trim hd_rev last_rev)
  qed (simp add: trim)
qed

lemma php_trim_trim [simp]: "php_trim (php_trim s) = php_trim s"
  using php_trim_ends by (rule php_trim_id)

lemma php_trim_break: "php_trim (s @ [LF]) = php_trim s"
proof (cases "\<forall>c \<in> set s. php_space c")
  case True
  then have "\<forall>c \<in> set (s @ [LF]). php_space c" by (simp add: php_space_def)
  with True have "dropWhile php_space s = []" "dropWhile php_space (s @ [LF]) = []"
    by (simp_all only: dropWhile_eq_Nil_conv)
  then show ?thesis by (simp only: php_trim_def)
next
  case False
  then have "dropWhile php_space (s @ [LF]) = dropWhile php_space s @ [LF]"
    by (auto simp: dropWhile_append)
  then show ?thesis by (simp add: php_trim_def php_space_def)
qed

text \<open>The last occurrence.\<close>

lemma last_pos_Some: "last_pos s p = Some k \<Longrightarrow> take (length p) (drop k s) = p \<and> k + length p \<le> length s"
proof (induction s p arbitrary: k rule: last_pos.induct)
  case (2 c s p)
  show ?case
  proof (cases "last_pos s p")
    case None
    with 2(2) have k: "k = 0" "take (length p) (c # s) = p" by (auto split: if_splits)
    then have "length p \<le> Suc (length s)" by (metis length_take length_Cons min.bounded_iff order_refl)
    with k show ?thesis by simp
  next
    case (Some j)
    with 2 show ?thesis by auto
  qed
qed (auto split: if_splits)

lemma last_pos_None: "last_pos s p = None \<Longrightarrow> take (length p) (drop j s) \<noteq> p"
proof (induction s p arbitrary: j rule: last_pos.induct)
  case (2 c s p)
  then show ?case by (cases j) (auto split: option.splits if_splits)
qed (auto split: if_splits)

lemma last_pos_last: "last_pos s p = Some k \<Longrightarrow> k < j \<Longrightarrow> j \<le> length s \<Longrightarrow> take (length p) (drop j s) \<noteq> p"
proof (induction s p arbitrary: k j rule: last_pos.induct)
  case (2 c s p)
  show ?case
  proof (cases "last_pos s p")
    case None
    with 2(3) obtain i where "j = Suc i" by (cases j) auto
    with last_pos_None [OF None] show ?thesis by simp
  next
    case (Some m)
    with 2(2) have "k = Suc m" by simp
    with 2(3) obtain i where "j = Suc i" "m < i" by (cases j) auto
    with 2 Some show ?thesis by auto
  qed
qed (auto split: if_splits)

lemma last_pos_append: "p \<noteq> [] \<Longrightarrow> last_pos (a @ p @ b) p \<noteq> None"
  using last_pos_None [of "a @ p @ b" p "length a"] by auto

lemma to_lower_append [simp]: "to_lower (a @ b) = to_lower a @ to_lower b"
  by (simp add: to_lower_def)

lemma occursI: "p \<noteq> [] \<Longrightarrow> occurs p (a @ p @ b)"
  using last_pos_append [of "to_lower p" "to_lower a" "to_lower b"]
  by (auto simp: occurs_def strripos_def to_lower_def)

end
