(* ===== verification/Transponder_Script.thy ===== *)
theory Transponder_Script
  imports Php_Text Flash_Layout
begin

text \<open>
  The transponder: the PHP script that the lock keeps on its web server, held as the text
  \<open>transponder_php\<close> in \<open>src/transponder.h\<close>.  It queues the commands of remote users in a log file, hands
  them to the lock that asks for them and the lock's answers to the users.  One run of the script is
  a function of the request and of the server's files.
\<close>

section \<open>A request and the variables of the script\<close>

text \<open>
  The request, and what the interpreter and the file system do that the script does not decide.
  \<open>r_numeq\<close> is what \<open>==\<close> says of two numeric texts that are not the same text.
\<close>

record request =
  r_get :: "string \<Rightarrow> string option"
  r_post :: "string \<Rightarrow> string option"
  r_server :: "string \<Rightarrow> string option"
  r_script :: string
    \<comment> \<open>\<open>dev_name()\<close>: the name of the script's file without \<open>.php\<close>\<close>
  r_time :: int
  r_date :: string
    \<comment> \<open>\<open>date('Y-m-d H:i:s T')\<close>\<close>
  r_tz :: "string \<Rightarrow> bool"
  r_numeq :: "string \<Rightarrow> string \<Rightarrow> bool"
  r_fopen :: bool
  r_flock :: bool

datatype shown =
    Printed string
  | Access_form string bool bool bool
  | Log_screen string "string list"

type_synonym files = "string \<Rightarrow> string option"

record script =
  files :: files
  v_dev :: string
  v_key :: string
  v_access :: string
  v_cmd :: string
  v_arg :: string
  v_ext :: string
  v_ukey :: string
  v_logfile :: string
  v_tzone :: string
  v_maxlogs :: string
  v_logline :: string
  v_adminkey :: string
  v_lang :: string
  printed :: "shown list"

definition loose_eq :: "request \<Rightarrow> string \<Rightarrow> string \<Rightarrow> bool" where
  "loose_eq R a b \<longleftrightarrow> a = b \<or> r_numeq R a b"

definition or_empty :: "string option \<Rightarrow> string" where
  "or_empty v = (case v of None \<Rightarrow> [] | Some t \<Rightarrow> t)"

definition get_or_post :: "request \<Rightarrow> string \<Rightarrow> string" where
  "get_or_post R n = (case r_get R n of Some v \<Rightarrow> v | None \<Rightarrow> or_empty (r_post R n))"

definition log_name :: "string \<Rightarrow> string" where
  "log_name dev = ''log'' @ dev @ ''.png''"

definition start_script :: "request \<Rightarrow> files \<Rightarrow> script" where
  "start_script R fs =
     (let s = \<lparr>files = fs, v_dev = or_empty (r_get R ''dev''), v_key = or_empty (r_get R ''key''),
           v_access = get_or_post R ''access'', v_cmd = get_or_post R ''cmd'',
           v_arg = get_or_post R ''arg'', v_ext = get_or_post R ''ext'',
           v_ukey = or_empty (r_get R ''ukey''), v_logfile = log_name (r_script R),
           v_tzone = ''UTC'', v_maxlogs = ''32'', v_logline = ''1'', v_adminkey = ''inferno'', v_lang = ''en'',
           printed = []\<rparr>
      in case r_post R ''guestkey'' of
           Some g \<Rightarrow>
             if r_get R ''key'' = None
             then s\<lparr>v_key := g,
                    v_access := (if v_access s = ''access'' then [] else v_access s),
                    v_cmd := (if v_cmd s = ''cmd'' then [] else v_cmd s),
                    v_arg := (if v_arg s = ''arg'' then [] else v_arg s),
                    v_ext := (if v_ext s = ''ext'' then [] else v_ext s)\<rparr>
             else s
         | None \<Rightarrow> s)"

definition unlink :: "string \<Rightarrow> script \<Rightarrow> script" where
  "unlink f s = s\<lparr>files := (files s)(f := None)\<rparr>"

text \<open>The settings in the first line of the log file.\<close>

definition read_settings :: "script \<Rightarrow> script" where
  "read_settings s =
     (case files s (v_logfile s) of
        None \<Rightarrow> s
      | Some t \<Rightarrow>
          let ls = file_lines t;
              s1 = (if php_int (v_logline s) \<le> int (length ls)
                    then (let p = explode (CHR '';'') (element ls 0)
                          in s\<lparr>v_tzone := element p 0, v_maxlogs := element p 1, v_logline := element p 2,
                               v_adminkey := element p 3, v_lang := element p 4\<rparr>)
                    else unlink (v_logfile s) s)
          in s1\<lparr>v_adminkey := php_trim (v_adminkey s1), v_lang := php_trim (v_lang s1)\<rparr>)"

definition set_zone :: "request \<Rightarrow> script \<Rightarrow> script" where
  "set_zone R s =
     (if \<not> r_tz R (v_tzone s) \<and> files s (v_logfile s) \<noteq> None
      then (unlink (v_logfile s) s)\<lparr>v_tzone := ''UTC''\<rparr> else s)"

definition wrap_output :: "script \<Rightarrow> string \<Rightarrow> string" where
  "wrap_output s t = ''<transponder'' @ v_dev s @ ''>'' @ t @ ''</transponder'' @ v_dev s @ ''>''"

definition show_output :: "shown \<Rightarrow> script \<Rightarrow> script" where
  "show_output p s = s\<lparr>printed := printed s @ [p]\<rparr>"

definition print_wrapped :: "script \<times> string \<Rightarrow> script" where
  "print_wrapped r = (case r of (s, t) \<Rightarrow> show_output (Printed (wrap_output s t)) s)"

section \<open>The log file\<close>

definition settings_line :: "script \<Rightarrow> string" where
  "settings_line s =
     v_tzone s @ '';'' @ v_maxlogs s @ '';'' @ v_logline s @ '';'' @ v_adminkey s @ '';'' @ v_lang s"

text \<open>
  \<open>fopen($_file,'wb')\<close> empties the file before \<open>flock\<close> is asked for it, so a refused lock leaves it
  empty.
\<close>

definition rewrite_file :: "request \<Rightarrow> string \<Rightarrow> string \<Rightarrow> script \<Rightarrow> script \<times> string" where
  "rewrite_file R f t s =
     (if \<not> r_fopen R then (s, ''error'')
      else if \<not> r_flock R then (s\<lparr>files := (files s)(f := Some [])\<rparr>, ''error'')
      else (s\<lparr>files := (files s)(f := Some t)\<rparr>, ''success''))"

definition create_file :: "request \<Rightarrow> string \<Rightarrow> script \<Rightarrow> script \<times> string" where
  "create_file R f s =
     (if files s f \<noteq> None then (s, ''success'')
      else rewrite_file R f (if 0 < php_int (v_logline s) then settings_line s else []) s)"

definition ensure_file :: "request \<Rightarrow> string \<Rightarrow> script \<Rightarrow> script \<times> string" where
  "ensure_file R f s = (if files s f = None then create_file R f s else (s, ''success''))"

definition lines_of :: "script \<Rightarrow> string \<Rightarrow> string list" where
  "lines_of s f = file_lines (or_empty (files s f))"

definition replace_line_in_file :: "request \<Rightarrow> string \<Rightarrow> nat \<Rightarrow> string \<Rightarrow> script \<Rightarrow> script \<times> string" where
  "replace_line_in_file R f index line s =
     (case ensure_file R f s of
        (s1, r) \<Rightarrow>
          if r \<noteq> ''success'' then (s1, ''error'')
          else
            let ls = lines_of s1 f in
            if length ls \<le> index then (s1, ''error'')
            else rewrite_file R f (written_lines (ls[index := line])) s1)"

text \<open>
  The line to delete is the first that equals the given one by \<open>==\<close>; the file is opened for writing
  before it is looked for.
\<close>

fun first_index :: "('a \<Rightarrow> bool) \<Rightarrow> 'a list \<Rightarrow> nat option" where
  "first_index P [] = None"
| "first_index P (x # xs) = (if P x then Some 0 else map_option Suc (first_index P xs))"

definition without :: "nat \<Rightarrow> 'a list \<Rightarrow> 'a list" where
  "without i xs = take i xs @ drop (Suc i) xs"

definition delete_line_in_file :: "request \<Rightarrow> string \<Rightarrow> (string \<Rightarrow> bool) \<Rightarrow> script \<Rightarrow> script \<times> string" where
  "delete_line_in_file R f same s =
     (case files s f of
        None \<Rightarrow> (s, ''no file'')
      | Some t \<Rightarrow>
          let ls = file_lines t in
          case first_index same ls of
            None \<Rightarrow>
              (case rewrite_file R f [] s of (s1, r) \<Rightarrow> (s1, if r = ''success'' then ''not found'' else r))
          | Some i \<Rightarrow> rewrite_file R f (written_lines (without i ls)) s)"

text \<open>
  Removing the lines without a key or a time.  With a negative first line the loop steps over
  elements that do not exist, takes its own step back each time and never ends: \<open>None\<close>.
\<close>

definition line_correct :: "string \<Rightarrow> bool" where
  "line_correct l \<longleftrightarrow> occurs ''key='' l \<and> occurs ''unixtime='' l"

definition check_if_file_correct :: "request \<Rightarrow> string \<Rightarrow> script \<Rightarrow> script option" where
  "check_if_file_correct R f s =
     (case files s f of
        None \<Rightarrow> Some s
      | Some t \<Rightarrow>
          if php_int (v_logline s) < 0 then None
          else
            let ls = file_lines t; i = nat (php_int (v_logline s)) in
            if list_all line_correct (drop i ls) then Some s
            else Some (fst (rewrite_file R f
                   (written_lines (take i ls @ [l \<leftarrow> drop i ls. line_correct l])) s)))"

text \<open>The value of a variable in a line: up to the \<^emph>\<open>last\<close> semicolon behind its name.\<close>

definition get_var :: "string \<Rightarrow> string \<Rightarrow> string" where
  "get_var line var =
     (case strripos line (var @ ''='') 0 of
        None \<Rightarrow> []
      | Some b \<Rightarrow>
          case strripos line '';'' b of
            None \<Rightarrow> []
          | Some e \<Rightarrow> let b' = b + length var + 1 in substr line b' (int e - int b'))"

text \<open>The old requests that make room: every removal is followed by a step of the index.\<close>

function drop_oldest :: "int \<Rightarrow> int \<Rightarrow> string list \<Rightarrow> string list" where
  "drop_oldest i maxlogs ls =
     (if i < int (length ls) \<and> maxlogs < int (length ls)
      then drop_oldest (i + 1) maxlogs (if i < 0 then ls else without (nat i) ls)
      else ls)"
  by pat_completeness auto
termination
  by (relation "measure (\<lambda>(i, m, ls). nat (int (length ls) - i))") (auto simp: without_def)

declare drop_oldest.simps [simp del]

definition repeated :: "request \<Rightarrow> string \<Rightarrow> string \<Rightarrow> bool" where
  "repeated R prev line \<longleftrightarrow>
     get_var prev ''unixtime'' \<noteq> [] \<and> get_var prev ''key'' \<noteq> [] \<and>
     php_int (get_var line ''unixtime'') - php_int (get_var prev ''unixtime'') \<le> 3 \<and>
     loose_eq R (get_var line ''key'') (get_var prev ''key'')"

definition put_line_to_file :: "request \<Rightarrow> string \<Rightarrow> string \<Rightarrow> script \<Rightarrow> script \<times> string" where
  "put_line_to_file R f line s =
     (case ensure_file R f s of
        (s1, r) \<Rightarrow>
          if r \<noteq> ''success'' then (s1, ''error'')
          else
            let ls = lines_of s1 f in
            if ls = [] then (s1, ''error'')
            else
              let l = (if php_int (v_logline s1) \<le> int (length ls) then last ls else []) in
              if l \<noteq> [] \<and> repeated R l line then (s1, ''error:repeat'')
              else rewrite_file R f
                     (written_lines (drop_oldest (php_int (v_logline s1)) (php_int (v_maxlogs s1)) (ls @ [line]))) s1)"

definition save_request_to_file :: "request \<Rightarrow> string \<Rightarrow> string \<Rightarrow> string \<Rightarrow> string \<Rightarrow> string \<Rightarrow> script \<Rightarrow> script \<times> string" where
  "save_request_to_file R f key cmd arg ext s =
     (if key = [] then (s, ''error'')
      else put_line_to_file R f (php_trim
        (''key='' @ key @ '';cmd='' @ cmd @
         (if arg \<noteq> [] then '';arg='' @ arg else []) @ (if ext \<noteq> [] then '';ext='' @ ext else []) @
         '';unixtime='' @ dec_int (r_time R) @ '';reqtime='' @ r_date R)) s)"

definition AD :: string where "AD = ''access denied''"

text \<open>The first line from the given one on; one that does not exist reads as empty.\<close>

definition line_from :: "int \<Rightarrow> (string \<Rightarrow> bool) \<Rightarrow> string list \<Rightarrow> (int \<times> string) option" where
  "line_from from P ls =
     (if from < 0 \<and> P [] then Some (from, [])
      else map_option (\<lambda>k. (int (nat from + k), ls ! (nat from + k))) (first_index P (drop (nat from) ls)))"

definition answered_line :: "string \<Rightarrow> bool" where
  "answered_line l \<longleftrightarrow> occurs ''response='' l"

definition get_request_from_file :: "request \<Rightarrow> string \<Rightarrow> script \<Rightarrow> string" where
  "get_request_from_file R f s =
     (if \<not> loose_eq R (v_key s) (v_dev s) then AD
      else case files s f of
        None \<Rightarrow> ''empty''
      | Some t \<Rightarrow>
          (case line_from (php_int (v_logline s)) (\<lambda>l. \<not> answered_line l) (file_lines t) of
             None \<Rightarrow> ''empty''
           | Some (i, l) \<Rightarrow> php_trim l))"

text \<open>
  \<open>$$_ukey\<close> is the variable whose name is the user's key: one of the local variables of the
  function, or undefined.
\<close>

definition variable_named :: "request \<Rightarrow> string \<Rightarrow> string \<Rightarrow> string \<Rightarrow> string \<Rightarrow> script \<Rightarrow> string" where
  "variable_named R f ukey unixtime response s =
     (if ukey = ''_file'' then f else if ukey = ''_ukey'' then ukey
      else if ukey = ''_unixtime'' then unixtime else if ukey = ''_response'' then response
      else if ukey = ''logline'' then v_logline s else if ukey = ''reqtime'' then r_date R
      else if ukey = ''key'' then v_key s else if ukey = ''dev'' then v_dev s
      else if ukey = ''lines'' then ''Array'' else [])"

definition php_replace :: "char \<Rightarrow> char \<Rightarrow> string \<Rightarrow> string" where
  "php_replace a b = map (\<lambda>c. if c = a then b else c)"

definition awaits_response :: "string \<Rightarrow> string \<Rightarrow> string \<Rightarrow> string \<Rightarrow> bool" where
  "awaits_response ukey ukeyz unixtime l \<longleftrightarrow>
     (occurs (''key='' @ ukey) l \<or> occurs (''key='' @ ukeyz) l) \<and>
     occurs (''unixtime='' @ unixtime) l \<and> \<not> answered_line l"

definition set_response_in_file ::
  "request \<Rightarrow> string \<Rightarrow> string \<Rightarrow> string \<Rightarrow> string \<Rightarrow> script \<Rightarrow> script \<times> string" where
  "set_response_in_file R f ukey unixtime response s =
     (if \<not> loose_eq R (v_key s) (v_dev s) then (s, AD)
      else case files s f of
        None \<Rightarrow> (s, ''error'')
      | Some t \<Rightarrow>
          let ukeyz = php_replace (CHR ''_'') (CHR '' '') (variable_named R f ukey unixtime response s) in
          case line_from (php_int (v_logline s)) (awaits_response ukey ukeyz unixtime) (file_lines t) of
            None \<Rightarrow> (s, ''not found'')
          | Some (i, l) \<Rightarrow>
              (case replace_line_in_file R f (nat i)
                      (php_trim l @ '';response='' @ response @ '';time='' @ r_date R) s of
                 (s1, r) \<Rightarrow> (s1, if r \<noteq> ''success'' then ''error'' else ''success'')))"

text \<open>
  The parameters of \<open>delete_request_in_file\<close> are called \<open>$ukey\<close> and \<open>$arg\<close>, its body reads
  \<open>$_ukey\<close> and \<open>$_unixtime\<close>, which are undefined.
\<close>

definition delete_request_in_file :: "request \<Rightarrow> string \<Rightarrow> string \<Rightarrow> string \<Rightarrow> script \<Rightarrow> script \<times> string" where
  "delete_request_in_file R f ukey arg s =
     (if \<not> loose_eq R (v_key s) (v_dev s) then (s, AD)
      else case files s f of
        None \<Rightarrow> (s, ''error'')
      | Some t \<Rightarrow>
          (case line_from (php_int (v_logline s)) (awaits_response [] [] []) (file_lines t) of
             None \<Rightarrow> (s, ''not found'')
           | Some (i, l) \<Rightarrow> delete_line_in_file R f (\<lambda>x. php_int x = i) s))"

definition get_response_from_file :: "string \<Rightarrow> string \<Rightarrow> string \<Rightarrow> string \<Rightarrow> files \<Rightarrow> string" where
  "get_response_from_file logline f key unixtime fs =
     (case fs f of
        None \<Rightarrow> ''not found''
      | Some t \<Rightarrow>
          (case line_from (php_int logline)
                  (\<lambda>l. occurs (''key='' @ key) l \<and> occurs (''unixtime='' @ unixtime) l) (file_lines t) of
             None \<Rightarrow> ''not found''
           | Some (i, l) \<Rightarrow>
               let var = get_var l ''response'' in if var = [] then ''processed'' else var))"

section \<open>The answer to a request\<close>

text \<open>\<open>out_scrlog\<close>: colour and numbered lines; a file that does not exist has none.\<close>

definition out_scrlog :: "string \<Rightarrow> script \<Rightarrow> shown" where
  "out_scrlog f s =
     (let sep = (if v_ext s = [] \<or> v_ext s = ''ext'' then '' '' else v_ext s);
          shown_line = (\<lambda>l. concat (map (\<lambda>c. if c = CHR '';'' then sep else [c]) l));
          ls = lines_of s f
      in Log_screen (if v_arg s \<noteq> [] then v_arg s else ''#00af00'')
           (map (\<lambda>i. dec (i + 1) @ '': '' @ shown_line (ls ! i)) [0..<length ls]))"

definition stranger :: "request \<Rightarrow> script \<Rightarrow> bool" where
  "stranger R s \<longleftrightarrow> \<not> loose_eq R (v_key s) (v_dev s) \<and> \<not> loose_eq R (v_key s) (v_adminkey s)"

text \<open>
  The \<open>switch\<close>: the script goes on (\<open>True\<close>), returns (\<open>False\<close>), or does not end.  The variable
  \<open>$_file\<close> it passes to the deletions is undefined.
\<close>

definition dispatch :: "request \<Rightarrow> script \<Rightarrow> (script \<times> bool) option" where
  "dispatch R s =
     (let f = v_logfile s; a = v_access s; arg = v_arg s;
          go = (\<lambda>s. Some (s, True));
          tell = (\<lambda>t. Some (print_wrapped (s, t), True));
          corrected = (\<lambda>s. map_option (\<lambda>s. (s, True)) (check_if_file_correct R f s)) in
      if a = ''get_server'' then tell (case r_server R arg of Some v \<Rightarrow> v | None \<Rightarrow> ''error'')
      else if a = ''get_my_ip'' then
        tell (case r_server R ''HTTP_X_FORWARDED_FOR'' of Some v \<Rightarrow> v | None \<Rightarrow> or_empty (r_server R ''REMOTE_ADDR''))
      else if a = ''get_transponder'' then tell ''4.0''
      else if a = ''get_unixtime'' then tell (''unixtime='' @ dec_int (r_time R))
      else if a = ''get_logscreen'' then
        (if stranger R s then tell AD else Some (show_output (out_scrlog f s) s, False))
      else if a = ''transfer'' then
        corrected (print_wrapped (save_request_to_file R f (v_key s) (v_cmd s) arg (v_ext s) s))
      else if a = ''receive'' then corrected (print_wrapped (s, get_request_from_file R f s))
      else if a = ''delete_line'' then go (print_wrapped (delete_line_in_file R [] (\<lambda>l. loose_eq R l arg) s))
      else if a = ''delete_request'' then go (print_wrapped (delete_request_in_file R [] (v_ukey s) arg s))
      else if a = ''set_response'' then
        go (print_wrapped (set_response_in_file R f (v_ukey s) arg (v_ext s) s))
      else if a = ''get_response'' then
        tell (get_response_from_file (v_logline s) f (v_key s) arg (files s))
      else if a = ''set_tzone'' then go (s\<lparr>v_tzone := arg\<rparr>)
      else if a = ''set_maxlogs'' then go (s\<lparr>v_maxlogs := arg\<rparr>)
      else if a = ''set_logline'' then go (s\<lparr>v_logline := arg\<rparr>)
      else if a = ''set_adminkey'' then go (s\<lparr>v_adminkey := arg\<rparr>)
      else if a = ''set_lang'' then go (s\<lparr>v_lang := arg\<rparr>)
      else if a = ''get_filesize'' then
        (if stranger R s then tell AD
         else tell (case files s arg of Some t \<Rightarrow> dec (length t) | None \<Rightarrow> ''no file''))
      else if a = ''delete_file'' then
        (if stranger R s then tell AD else go (print_wrapped (unlink arg s, ''success'')))
      else go s)"

definition is_setting :: "string \<Rightarrow> bool" where
  "is_setting a \<longleftrightarrow> a \<in> set [''set_tzone'', ''set_maxlogs'', ''set_logline'', ''set_adminkey'', ''set_lang'']"

text \<open>Writing the settings back; the flag says whether the script goes on.\<close>

definition store_settings :: "request \<Rightarrow> script \<Rightarrow> script \<times> bool" where
  "store_settings R s =
     (if \<not> is_setting (v_access s) then (s, True)
      else if stranger R s then (print_wrapped (s, AD), False)
      else case replace_line_in_file R (v_logfile s) 0 (settings_line s) s of
        (s1, resp) \<Rightarrow>
          if (case r_post R ''guestkey'' of Some g \<Rightarrow> loose_eq R g (v_adminkey s1) | None \<Rightarrow> False)
          then (show_output (Access_form resp False False True) s1, False)
          else if loose_eq R (v_key s1) (v_dev s1) then (print_wrapped (s1, resp), True)
          else (s1, True))"

definition russian :: "(string \<times> string) list" where
  "russian =
   [(''error'', utf8 [226, 152, 160]),
    (''success'', utf8 [227, 131, 132]),
    (''processed'', utf8 [208, 178, 32, 208, 190, 208, 177, 209, 128, 208, 176, 208, 177, 208, 190, 209,
      130, 208, 186, 208, 181]),
    (''input command'', utf8 [208, 178, 208, 178, 208, 181, 208, 180, 208, 184, 209, 130, 208, 181, 32,
      208, 186, 208, 190, 208, 188, 208, 176, 208, 189, 208, 180, 209, 131]),
    (''transfer error.retry.'', utf8 [194, 175, 92, 40, 194, 176, 95, 111, 41, 47, 194, 175]),
    (''response not found.retry.'', utf8 [208, 190, 209, 130, 208, 178, 208, 181, 209, 130, 32, 208,
      189, 208, 181, 32, 208, 189, 208, 176, 208, 185, 208, 180, 208, 181, 208, 189, 46, 208, 191, 208,
      190, 208, 178, 209, 130, 208, 190, 209, 128, 208, 184, 209, 130, 208, 181, 46]),
    (''no reply received.retry.'', utf8 [208, 190, 209, 130, 208, 178, 208, 181, 209, 130, 32, 208, 189,
      208, 181, 32, 208, 191, 208, 190, 208, 187, 209, 131, 209, 135, 208, 181, 208, 189, 46, 208, 191,
      208, 190, 208, 178, 209, 130, 208, 190, 209, 128, 208, 184, 209, 130, 208, 181, 46]),
    (''error: key not found'', utf8 [194, 175, 92, 95, 40, 227, 131, 132, 41, 95, 47, 194, 175]),
    (''ok'', utf8 [227, 131, 132]),
    (''OK'', utf8 [227, 131, 132]),
    (''enter access key'', utf8 [208, 178, 208, 178, 208, 181, 208, 180, 208, 184, 209, 130, 208, 181,
      32, 208, 186, 208, 190, 208, 180]),
    (''ENTER ACCESS KEY'', utf8 [208, 146, 208, 146, 208, 149, 208, 148, 208, 152, 208, 162, 208, 149,
      32, 208, 154, 208, 158, 208, 148]),
    (''Estonian server - no way faster.'', utf8 [208, 173, 209, 129, 209, 130, 208, 190, 208, 189, 209,
      129, 208, 186, 208, 184, 208, 185, 32, 209, 129, 208, 181, 209, 128, 208, 178, 208, 181, 209, 128,
      46, 208, 145, 209, 139, 209, 129, 209, 130, 209, 128, 208, 181, 208, 181, 45, 208, 189, 208, 184,
      208, 186, 208, 176, 208, 186, 46]),
    (''Hello! Do you believe in God?'', utf8 [194, 175, 92, 40, 194, 176, 95, 111, 41, 47, 194, 175]),
    (''We'' @ CHR 0x27 # ''ve rated your speed.'', utf8 [208, 156, 209, 139, 32, 208, 190, 209, 134,
      208, 181, 208, 189, 208, 184, 208, 187, 208, 184, 32, 208, 178, 208, 176, 209, 136, 209, 131, 32,
      209, 129, 208, 186, 208, 190, 209, 128, 208, 190, 209, 129, 209, 130, 209, 140, 46]),
    (''Slow down - bend the button :)'', utf8 [40, 226, 151, 163, 95, 226, 151, 162, 41]),
    (''do you like speed?'', utf8 [208, 187, 209, 142, 208, 177, 208, 184, 209, 130, 208, 181, 32, 209,
      129, 208, 186, 208, 190, 209, 128, 208, 190, 209, 129, 209, 130, 209, 140, 63])]"

definition transl :: "string \<Rightarrow> string \<Rightarrow> string" where
  "transl lang word =
     (let tr = php_replace (CHR ''_'') (CHR '' '') word in
      if to_lower lang = ''russian'' \<or> to_lower lang = ''ru''
      then (case map_of russian tr of Some t \<Rightarrow> t | None \<Rightarrow> tr) else tr)"

definition speed_joke :: string where
  "speed_joke = ''do you like speed?''"

text \<open>Waiting for the lock's answer: \<open>polls\<close> are the files after each second's sleep.\<close>

fun wait_response :: "nat \<Rightarrow> files list \<Rightarrow> string \<Rightarrow> string \<Rightarrow> string \<Rightarrow> string \<Rightarrow> string" where
  "wait_response 0 polls logline f gkey time = ''processed''"
| "wait_response (Suc t) [] logline f gkey time = ''processed''"
| "wait_response (Suc t) (fs # polls) logline f gkey time =
     (let resp = get_response_from_file logline f gkey time fs in
      if resp = ''processed'' then wait_response t polls logline f gkey time else resp)"

definition answer_form :: "request \<Rightarrow> script \<Rightarrow> string \<Rightarrow> string \<Rightarrow> shown" where
  "answer_form R s gkey resp =
     (let admin = loose_eq R gkey (v_adminkey s) in
      if resp = ''not found'' then Access_form (transl (v_lang s) ''no reply received.retry.'') False False admin
      else Access_form (if resp = ''error:repeat'' then transl (v_lang s) speed_joke else transl (v_lang s) resp)
             True True admin)"

definition guest_form :: "request \<Rightarrow> files list \<Rightarrow> script \<Rightarrow> script option" where
  "guest_form R polls s =
     (case r_post R ''guestkey'' of
        None \<Rightarrow> Some (show_output (Access_form [] True True False) s)
      | Some g \<Rightarrow>
          let gkey = php_trim g in
          if gkey = [] then Some (show_output (Access_form [] True True False) s)
          else
            let t = (if v_cmd s \<in> set [''upload_transponder'', ''loadfromhost'', ''LOADFROMHOST''] then 20 else 10);
                admin = loose_eq R gkey (v_adminkey s);
                wait = (\<lambda>s. show_output (answer_form R s gkey
                    (wait_response t polls (v_logline s) (v_logfile s) gkey (dec_int (r_time R)))) s)
            in if v_access s \<noteq> [] then Some (wait s)
               else if loose_eq R gkey (php_trim (v_adminkey s)) \<and> v_cmd s = [] \<and> v_arg s = [] \<and> v_ext s = []
               then Some (show_output (Access_form (transl (v_lang s) ''input command'') True True True) s)
               else
                 let s1 = (if loose_eq R gkey (php_trim (v_adminkey s)) then s else s\<lparr>v_cmd := ''open''\<rparr>) in
                 case save_request_to_file R (v_logfile s1) gkey (v_cmd s1) (v_arg s1) (v_ext s1) s1 of
                   (s2, r1) \<Rightarrow>
                     if r1 \<noteq> ''success''
                     then Some (show_output (Access_form
                        (transl (v_lang s2) (if r1 = ''error:repeat'' then speed_joke else ''processed''))
                        True (r1 \<noteq> ''error:repeat'') admin) s2)
                     else map_option wait (check_if_file_correct R (v_logfile s2) s2))"

text \<open>One run of the script.\<close>

definition transponder :: "request \<Rightarrow> files list \<Rightarrow> files \<Rightarrow> script option" where
  "transponder R polls fs =
     (case dispatch R (set_zone R (read_settings (start_script R fs))) of
        None \<Rightarrow> None
      | Some (s, False) \<Rightarrow> Some s
      | Some (s, True) \<Rightarrow>
          (case store_settings R s of
             (s1, False) \<Rightarrow> Some s1
           | (s1, True) \<Rightarrow>
               if loose_eq R (v_key s1) (r_script R) \<and> loose_eq R (v_dev s1) (r_script R) then Some s1
               else guest_form R polls s1))"

end
