(* ===== verification/Field_Lines.thy ===== *)
theory Field_Lines
  imports Php_Text "HOL-Library.Sublist"
begin

text \<open>
  Lines of named fields, \<open>key=...;cmd=...;unixtime=...\<close>, as the transponder's log and the lock's remote
  commands have them, and where the searches for a name followed by an equals sign find it.
\<close>

section \<open>The places of a text\<close>

definition places :: "string \<Rightarrow> string \<Rightarrow> nat set" where
  "places s p = {length a |a b. s = a @ p @ b}"

lemma places_iff: "k \<in> places s p \<longleftrightarrow> take (length p) (drop k s) = p \<and> k + length p \<le> length s"
proof
  assume "take (length p) (drop k s) = p \<and> k + length p \<le> length s"
  then have "s = take k s @ p @ drop (k + length p) s" "length (take k s) = k"
    by (metis append_take_drop_id drop_drop add.commute, simp)
  then show "k \<in> places s p" unfolding places_def by (metis (mono_tags, lifting) mem_Collect_eq)
qed (auto simp: places_def)

lemma strstr_places:
  assumes "places s p = {k}"
  shows "strstr s p = Some k"
proof (cases "strstr s p")
  case None
  have "take (length p) (drop k s) = p" using assms places_iff by blast
  with strstr_None [OF None] show ?thesis by blast
next
  case (Some j)
  then have "j \<in> places s p" using strstr_Some places_iff by blast
  with assms Some show ?thesis by simp
qed

lemma strstr_no_place: "places s p = {} \<Longrightarrow> strstr s p = None"
  using strstr_Some places_iff by (metis empty_iff not_None_eq)

lemma last_pos_places:
  assumes "places s p = {k}"
  shows "last_pos s p = Some k"
proof (cases "last_pos s p")
  case None
  have "take (length p) (drop k s) = p" using assms places_iff by blast
  with last_pos_None [OF None] show ?thesis by blast
next
  case (Some j)
  then have "j \<in> places s p" using last_pos_Some places_iff by blast
  with assms Some show ?thesis by simp
qed

lemma last_pos_no_place: "places s p = {} \<longleftrightarrow> last_pos s p = None"
proof
  show "places s p = {}" if "last_pos s p = None"
    using last_pos_None [OF that] places_iff by blast
  show "last_pos s p = None" if "places s p = {}"
    using that last_pos_Some places_iff by (metis empty_iff not_None_eq)
qed

section \<open>Fields\<close>

type_synonym field = "string \<times> string"

fun field_text :: "field \<Rightarrow> string" where
  "field_text (n, v) = n @ CHR ''='' # v"

fun field_line :: "field list \<Rightarrow> string" where
  "field_line [] = []"
| "field_line [f] = field_text f"
| "field_line (f # fs) = field_text f @ CHR '';'' # field_line fs"

definition field_ok :: "field \<Rightarrow> bool" where
  "field_ok f \<longleftrightarrow> CHR ''='' \<notin> set (fst f) \<and> CHR '';'' \<notin> set (fst f) \<and> CHR ''='' \<notin> set (snd f)"

text \<open>The beginnings of the fields whose name ends in a text, as places of that text.\<close>

fun name_places :: "nat \<Rightarrow> field list \<Rightarrow> string \<Rightarrow> nat set" where
  "name_places o0 [] n = {}"
| "name_places o0 (f # fs) n =
     (if suffix n (fst f) then {o0 + length (fst f) - length n} else {}) \<union>
     name_places (o0 + length (field_text f) + 1) fs n"

lemma first_split:
  "x \<notin> set xs \<Longrightarrow> x \<notin> set xs' \<Longrightarrow> xs @ x # ys = xs' @ x # ys' \<longleftrightarrow> xs = xs' \<and> ys = ys'"
proof (induction xs arbitrary: xs')
  case Nil
  then show ?case by (cases xs') auto
next
  case (Cons c xs)
  then show ?case by (cases xs') auto
qed

lemma place_in_name:
  assumes "CHR ''='' \<notin> set m" "CHR ''='' \<notin> set n"
  shows "m @ CHR ''='' # t = a @ n @ CHR ''='' # b \<longleftrightarrow>
    (m = a @ n \<and> t = b) \<or> (\<exists>a'. a = m @ CHR ''='' # a' \<and> t = a' @ n @ CHR ''='' # b)"
    (is "?l \<longleftrightarrow> ?r")
proof
  assume l: ?l
  show ?r
  proof (cases "CHR ''='' \<in> set a")
    case False
    then have "CHR ''='' \<notin> set (a @ n)" using assms(2) by simp
    moreover have "m @ CHR ''='' # t = (a @ n) @ CHR ''='' # b" using l by simp
    ultimately have "m = a @ n \<and> t = b" using assms(1) first_split by metis
    then show ?thesis by simp
  next
    case True
    then obtain a0 a' where a: "a = a0 @ CHR ''='' # a'" "CHR ''='' \<notin> set a0" by (metis split_list_first)
    moreover have "m @ CHR ''='' # t = a0 @ CHR ''='' # (a' @ n @ CHR ''='' # b)" using l a by simp
    ultimately have "m = a0 \<and> t = a' @ n @ CHR ''='' # b" using assms(1) first_split by metis
    with a show ?thesis by simp
  qed
qed auto

lemma place_in_value:
  assumes "CHR ''='' \<notin> set v" "CHR '';'' \<notin> set n"
  shows "v @ CHR '';'' # t = a @ n @ CHR ''='' # b \<longleftrightarrow>
    (\<exists>a'. a = v @ CHR '';'' # a' \<and> t = a' @ n @ CHR ''='' # b)" (is "?l \<longleftrightarrow> ?r")
proof
  assume l: ?l
  show ?r
  proof (cases "length v < length a")
    case True
    with l have "v @ CHR '';'' # t = a @ (n @ CHR ''='' # b)" by simp
    then obtain us where us: "a = v @ us" "CHR '';'' # t = us @ n @ CHR ''='' # b"
      using True by (auto simp: append_eq_append_conv2)
    with True obtain a' where "us = CHR '';'' # a'" by (cases us) auto
    with us show ?thesis by simp
  next
    case False
    then have "length a \<le> length v" by simp
    then have v: "v = a @ drop (length a) v"
      using l by (metis append_eq_append_conv_if append_take_drop_id)
    define us where "us = drop (length a) v"
    have us: "v = a @ us" using v by (simp add: us_def)
    then have "us @ CHR '';'' # t = n @ CHR ''='' # b" using l by simp
    note us = us this
    have "(us @ CHR '';'' # t) ! length us = CHR '';''" by simp
    moreover have "(n @ CHR ''='' # b) ! length us \<noteq> CHR '';''"
    proof (cases "length us < length n")
      case True
      with assms(2) show ?thesis by (metis nth_append nth_mem)
    next
      case F: False
      then have "length us = length n \<or> (length n < length us \<and> us ! length n = (us @ CHR '';'' # t) ! length n)"
        by (auto simp: nth_append)
      then show ?thesis
      proof
        assume "length us = length n"
        then show ?thesis by simp
      next
        assume "length n < length us \<and> us ! length n = (us @ CHR '';'' # t) ! length n"
        then have "us ! length n = CHR ''=''" "length n < length us" using us(2) by simp_all
        then have "CHR ''='' \<in> set us" by (metis nth_mem)
        with us(1) assms(1) show ?thesis by simp
      qed
    qed
    ultimately show ?thesis using us(2) by simp
  qed
qed auto

lemma place_in_last: "CHR ''='' \<notin> set v \<Longrightarrow> v \<noteq> a @ n @ CHR ''='' # b"
  by auto

lemma name_places_shift: "name_places (d + k) fs n = (+) d ` name_places k fs n"
proof (induction fs arbitrary: k)
  case (Cons f fs)
  have "name_places (d + (k + length (field_text f) + 1)) fs n = (+) d ` name_places (k + length (field_text f) + 1) fs n"
    by (rule Cons.IH)
  moreover have "d + k + length (fst f) - length n = d + (k + length (fst f) - length n)" if "suffix n (fst f)"
    using suffix_length_le [OF that] by simp
  ultimately show ?case by (simp add: image_Un add.assoc del: field_text.simps)
qed simp

lemma places_field_line:
  assumes "list_all field_ok fs" "CHR ''='' \<notin> set n" "CHR '';'' \<notin> set n"
  shows "places (field_line fs) (n @ ''='') = name_places 0 fs n"
  using assms(1)
proof (induction fs rule: field_line.induct)
  case (2 f)
  obtain m v where f: "f = (m, v)" by (cases f)
  have m: "CHR ''='' \<notin> set m" "CHR ''='' \<notin> set v" using 2 by (simp_all add: f field_ok_def)
  have "places (field_line [f]) (n @ ''='') = {length a |a b. m = a @ n \<and> v = b}"
    using place_in_last [OF m(2)] by (auto simp: places_def f place_in_name [OF m(1) assms(2)])
  then show ?case by (auto simp: f suffix_def)
next
  case (3 f g gs)
  obtain m v where f: "f = (m, v)" by (cases f)
  have m: "CHR ''='' \<notin> set m" "CHR ''='' \<notin> set v" using 3 by (simp_all add: f field_ok_def)
  let ?L = "field_line (g # gs)"
  have eq: "field_line (f # g # gs) = m @ CHR ''='' # v @ CHR '';'' # ?L" by (simp add: f)
  have "field_line (f # g # gs) = a @ n @ CHR ''='' # b \<longleftrightarrow>
      (m = a @ n \<and> b = v @ CHR '';'' # ?L) \<or>
      (\<exists>a'. a = field_text f @ CHR '';'' # a' \<and> ?L = a' @ n @ CHR ''='' # b)" for a b
    unfolding eq place_in_name [OF m(1) assms(2)] place_in_value [OF m(2) assms(3)] by (auto simp: f)
  then have "places (field_line (f # g # gs)) (n @ ''='') =
      {length a |a. m = a @ n} \<union> {length (field_text f @ CHR '';'' # a') |a' b. ?L = a' @ n @ CHR ''='' # b}"
    unfolding places_def by (auto simp only: append.simps append.assoc)
  also have "{length (field_text f @ CHR '';'' # a') |a' b. ?L = a' @ n @ CHR ''='' # b} =
      (+) (length (field_text f) + 1) ` places ?L (n @ ''='')"
    by (auto simp: places_def image_def)
  also have "places ?L (n @ ''='') = name_places 0 (g # gs) n" using 3 by simp
  also have "(+) (length (field_text f) + 1) ` name_places 0 (g # gs) n =
      name_places (length (field_text f) + 1) (g # gs) n"
    using name_places_shift [of "length (field_text f) + 1" 0 "g # gs" n] by simp
  also have "{length a |a. m = a @ n} = (if suffix n m then {length m - length n} else {})"
    by (auto simp: suffix_def)
  finally show ?case by (simp add: f)
qed (auto simp: places_def)

section \<open>A name that occurs once\<close>

definition before :: "field list \<Rightarrow> string" where
  "before xs = concat (map (\<lambda>f. field_text f @ '';'') xs)"

definition rest :: "field list \<Rightarrow> string" where
  "rest ys = (if ys = [] then [] else CHR '';'' # field_line ys)"

lemma field_line_Cons: "field_line (f # ys) = field_text f @ rest ys"
  by (cases ys) (simp_all add: rest_def)

lemma field_line_append: "field_line (xs @ f # ys) = before xs @ field_text f @ rest ys"
  by (induction xs) (simp_all add: before_def field_line_Cons rest_def)

definition solo :: "string \<Rightarrow> field list \<Rightarrow> bool" where
  "solo n fs \<longleftrightarrow> list_all (\<lambda>f. \<not> suffix n (fst f)) fs"

lemma name_places_solo: "solo n fs \<Longrightarrow> name_places k fs n = {}"
  by (induction fs arbitrary: k) (simp_all add: solo_def)

lemma name_places_append:
  "name_places k (xs @ ys) n = name_places k xs n \<union> name_places (k + length (before xs)) ys n"
  by (induction xs arbitrary: k) (simp_all add: before_def Un_assoc add.assoc del: field_text.simps)

definition name_ok :: "string \<Rightarrow> bool" where
  "name_ok n \<longleftrightarrow> CHR ''='' \<notin> set n \<and> CHR '';'' \<notin> set n"

lemma places_solo:
  assumes "list_all field_ok (xs @ (n, v) # ys)" "name_ok n" "solo n xs" "solo n ys"
  shows "places (field_line (xs @ (n, v) # ys)) (n @ ''='') = {length (before xs)}"
  using places_field_line [OF assms(1), of n] assms(2-4)
  by (simp add: name_ok_def name_places_append name_places_solo)

lemma places_missing:
  assumes "list_all field_ok fs" "name_ok n" "solo n fs"
  shows "places (field_line fs) (n @ ''='') = {}"
  using places_field_line [OF assms(1), of n] assms(2,3) by (simp add: name_ok_def name_places_solo)

lemma drop_value:
  "drop (length (before xs) + length n + 1) (field_line (xs @ (n, v) # ys)) = v @ rest ys"
  by (simp add: field_line_append)

text \<open>Letters of either case.\<close>

lemma lower_char_sep: "lower_char c = CHR ''='' \<longleftrightarrow> c = CHR ''=''" "lower_char c = CHR '';'' \<longleftrightarrow> c = CHR '';''"
proof -
  have "lower_char c \<noteq> d" if "65 \<le> (of_char c :: nat)" "(of_char c :: nat) \<le> 90" "(of_char d :: nat) < 97" for d
  proof
    assume "lower_char c = d"
    then have "d = char_of ((of_char c :: nat) + 32)" using that by (simp add: lower_char_def Let_def)
    then have "(of_char d :: nat) = of_char c + 32" using that by (simp add: of_char_of)
    with that show False by simp
  qed
  then have "lower_char c = d \<longleftrightarrow> c = d" if "(of_char d :: nat) < 65" for d
    using that by (cases "65 \<le> (of_char c :: nat) \<and> (of_char c :: nat) \<le> 90") (auto simp: lower_char_def Let_def)
  then show "lower_char c = CHR ''='' \<longleftrightarrow> c = CHR ''=''" "lower_char c = CHR '';'' \<longleftrightarrow> c = CHR '';''"
    by simp_all
qed

definition low_field :: "field \<Rightarrow> field" where
  "low_field f = (to_lower (fst f), to_lower (snd f))"

lemma in_to_lower: "c \<in> set (to_lower s) \<longleftrightarrow> (\<exists>d \<in> set s. lower_char d = c)"
  by (auto simp: to_lower_def)

lemma field_ok_low: "field_ok (low_field f) \<longleftrightarrow> field_ok f"
  by (auto simp: field_ok_def low_field_def in_to_lower lower_char_sep)

lemma length_to_lower [simp]: "length (to_lower s) = length s"
  by (simp add: to_lower_def)

lemma length_low_text [simp]: "length (field_text (low_field f)) = length (field_text f)"
  by (cases f) (simp add: low_field_def)

lemma to_lower_text: "to_lower (field_text f) = field_text (low_field f)"
  by (cases f) (simp add: low_field_def to_lower_def lower_char_def)

lemma to_lower_line: "to_lower (field_line fs) = field_line (map low_field fs)"
  by (induction fs rule: field_line.induct)
     (simp_all add: to_lower_text del: field_text.simps, simp_all add: to_lower_def lower_char_def)

lemma length_before_low [simp]: "length (before (map low_field xs)) = length (before xs)"
  by (induction xs) (simp_all add: before_def del: field_text.simps)

definition solo_low :: "string \<Rightarrow> field list \<Rightarrow> bool" where
  "solo_low n fs \<longleftrightarrow> solo n (map low_field fs)"

lemma last_pos_solo:
  assumes "list_all field_ok (xs @ (n, v) # ys)" "name_ok n" "to_lower n = n"
    and "solo_low n xs" "solo_low n ys"
  shows "strripos (field_line (xs @ (n, v) # ys)) (n @ ''='') 0 = Some (length (before xs))"
proof -
  have "(n, to_lower v) = low_field (n, v)" using assms(3) by (simp add: low_field_def)
  then have "list_all field_ok (map low_field xs @ (n, to_lower v) # map low_field ys)"
    using assms(1) by (auto simp only: list_all_iff set_append list.set set_map ball_Un ball_simps field_ok_low)
  from places_solo [OF this assms(2)] assms(4,5)
  have "places (field_line (map low_field xs @ (n, to_lower v) # map low_field ys)) (n @ ''='') = {length (before xs)}"
    by (simp add: solo_low_def)
  from last_pos_places [OF this] show ?thesis
    using assms(3) by (simp add: strripos_def to_lower_line low_field_def)
      (simp add: to_lower_def lower_char_def)
qed

lemma last_pos_missing:
  assumes "list_all field_ok fs" "name_ok n" "to_lower n = n" "solo_low n fs"
  shows "strripos (field_line fs) (n @ ''='') 0 = None"
proof -
  have "list_all field_ok (map low_field fs)" using assms(1) by (simp add: list_all_iff field_ok_low)
  from places_missing [OF this assms(2)] assms(4)
  have "places (field_line (map low_field fs)) (n @ ''='') = {}" by (simp add: solo_low_def)
  then have "last_pos (field_line (map low_field fs)) (n @ ''='') = None" by (simp add: last_pos_no_place)
  then show ?thesis
    using assms(3) by (simp add: strripos_def to_lower_line) (simp add: to_lower_def lower_char_def)
qed

text \<open>A field that is there is found, whatever else is.\<close>

lemma occurs_field: "(n, v) \<in> set fs \<Longrightarrow> occurs (n @ CHR ''='' # v) (field_line fs)"
proof -
  assume "(n, v) \<in> set fs"
  then obtain xs ys where "fs = xs @ (n, v) # ys" by (metis split_list)
  then show ?thesis
    using occursI [of "n @ CHR ''='' # v" "before xs" "rest ys"] by (simp add: field_line_append)
qed

end
