(* ===== verification/Transponder_Facts.thy ===== *)
theory Transponder_Facts
  imports Transponder_Script Field_Lines Command_Language
begin

text \<open>
  What the transponder makes of its log: the lines it keeps, the request it hands to the lock, the
  answer it returns to the user, and who may change its settings.
\<close>

section \<open>The log file as a list of lines\<close>

definition tidy :: "string \<Rightarrow> bool" where
  "tidy l \<longleftrightarrow> php_trim l = l \<and> LF \<notin> set l"

definition stored :: "string list \<Rightarrow> string" where
  "stored ls = concat (map (\<lambda>l. l @ [LF]) ls)"

lemma file_lines_stored: "list_all tidy ls \<Longrightarrow> file_lines (stored ls) = map (\<lambda>l. l @ [LF]) ls"
  by (induction ls) (simp_all add: stored_def tidy_def file_lines_line)

lemma written_stored: "list_all tidy ls \<Longrightarrow> written_lines (map (\<lambda>l. l @ [LF]) ls) = stored ls"
  by (induction ls) (simp_all add: stored_def written_lines_def tidy_def php_trim_break)

lemma written_snoc: "written_lines (ls @ [l]) = written_lines ls @ php_trim l @ [LF]"
  by (simp add: written_lines_def)

lemma stored_snoc: "stored (ls @ [l]) = stored ls @ l @ [LF]"
  by (simp add: stored_def)

lemma explode_cons: "d \<notin> set x \<Longrightarrow> explode d (x @ d # s) = x # explode d s"
  by (induction x) auto

lemma explode_last: "d \<notin> set x \<Longrightarrow> explode d x = [x]"
  by (induction x) auto

text \<open>The settings line of a log whose entries start in its second line.\<close>

definition header_line :: "string \<Rightarrow> string \<Rightarrow> string \<Rightarrow> string \<Rightarrow> string" where
  "header_line tz mx ak lg = tz @ '';'' @ mx @ '';1;'' @ ak @ '';'' @ lg"

definition setting_ok :: "string \<Rightarrow> bool" where
  "setting_ok t \<longleftrightarrow> CHR '';'' \<notin> set t \<and> tidy t"

lemma explode_header:
  assumes "list_all setting_ok [tz, mx, ak, lg]"
  shows "explode (CHR '';'') (header_line tz mx ak lg @ [LF]) = [tz, mx, ''1'', ak, lg @ [LF]]"
proof -
  have "header_line tz mx ak lg @ [LF] = tz @ CHR '';'' # mx @ CHR '';'' # ''1'' @ CHR '';'' # ak @ CHR '';'' # lg @ [LF]"
    by (simp add: header_line_def)
  moreover have "CHR '';'' \<notin> set tz" "CHR '';'' \<notin> set mx" "CHR '';'' \<notin> set ''1''" "CHR '';'' \<notin> set ak"
    "CHR '';'' \<notin> set (lg @ [LF])"
    using assms by (simp_all add: setting_ok_def)
  ultimately show ?thesis by (simp only: explode_cons explode_last not_False_eq_True)
qed

definition opened :: "request \<Rightarrow> files \<Rightarrow> script" where
  "opened R fs = set_zone R (read_settings (start_script R fs))"

lemma start_script_log [simp]: "v_logfile (start_script R fs) = log_name (r_script R)" "files (start_script R fs) = fs"
  "v_logline (start_script R fs) = ''1''"
  by (simp_all add: start_script_def Let_def split: option.split)

lemma php_int_1 [simp]: "php_int ''1'' = 1"
  by (simp add: php_int_def scan_number_def cstr_def is_space_def is_digit_def digits_val_def digit_val_def)

lemma opened_stored:
  assumes "fs (log_name (r_script R)) = Some (stored (header_line tz mx ak lg # old))"
    and "list_all tidy (header_line tz mx ak lg # old)" "list_all setting_ok [tz, mx, ak, lg]" "r_tz R tz"
  shows "opened R fs = (start_script R fs)\<lparr>v_tzone := tz, v_maxlogs := mx, v_logline := ''1'',
    v_adminkey := ak, v_lang := lg\<rparr>"
proof -
  have "php_trim ak = ak" "php_trim (lg @ [LF]) = lg"
    using assms(3) by (simp_all add: setting_ok_def tidy_def php_trim_break)
  then have "read_settings (start_script R fs) = (start_script R fs)\<lparr>v_tzone := tz, v_maxlogs := mx,
      v_logline := ''1'', v_adminkey := ak, v_lang := lg\<rparr>"
    using assms(1) file_lines_stored [OF assms(2)] explode_header [OF assms(3)]
    by (simp add: read_settings_def element_def Let_def)
  then show ?thesis using assms(4) by (simp add: opened_def set_zone_def)
qed

section \<open>Searching lines\<close>

lemma places_break: "p \<noteq> [] \<Longrightarrow> LF \<notin> set p \<Longrightarrow> places (s @ [LF]) p = places s p"
proof -
  assume p: "p \<noteq> []" "LF \<notin> set p"
  have "(\<exists>b. s @ [LF] = a @ p @ b) \<longleftrightarrow> (\<exists>b. s = a @ p @ b)" for a
  proof
    assume "\<exists>b. s @ [LF] = a @ p @ b"
    then obtain b where b: "s @ [LF] = a @ p @ b" by blast
    show "\<exists>b. s = a @ p @ b"
    proof (cases b rule: rev_cases)
      case Nil
      then have "last p = LF" using b p(1) by (metis append_Nil2 last_appendR last_snoc)
      with p show ?thesis by (metis last_in_set)
    next
      case (snoc b' x)
      then show ?thesis using b by simp
    qed
  qed auto
  then show ?thesis by (auto simp: places_def)
qed

lemma lower_break: "lower_char c = LF \<longleftrightarrow> c = LF"
proof
  assume l: "lower_char c = LF"
  show "c = LF"
  proof (cases "65 \<le> (of_char c :: nat) \<and> (of_char c :: nat) \<le> 90")
    case True
    then have "LF = char_of ((of_char c :: nat) + 32)" using l by (simp add: lower_char_def Let_def)
    then have "(of_char LF :: nat) = of_char c + 32" using True by (simp add: of_char_of)
    with True show ?thesis by simp
  qed (use l in \<open>auto simp: lower_char_def Let_def\<close>)
qed (simp add: lower_char_def)

lemma occurs_places: "occurs p s \<longleftrightarrow> places (to_lower s) (to_lower p) \<noteq> {}"
  by (simp add: occurs_def strripos_def last_pos_no_place)

lemma occurs_break: "p \<noteq> [] \<Longrightarrow> LF \<notin> set p \<Longrightarrow> occurs p (s @ [LF]) \<longleftrightarrow> occurs p s"
proof -
  assume p: "p \<noteq> []" "LF \<notin> set p"
  have "to_lower p \<noteq> []" "LF \<notin> set (to_lower p)" using p by (simp add: to_lower_def) (use p in \<open>auto simp: in_to_lower lower_break\<close>)
  moreover have "to_lower [LF] = [LF]" by (simp add: to_lower_def lower_char_def)
  ultimately have "places (to_lower (s @ [LF])) (to_lower p) = places (to_lower s) (to_lower p)"
    by (metis places_break to_lower_append)
  then show ?thesis by (simp only: occurs_places)
qed

lemma answered_break [simp]: "answered_line (l @ [LF]) = answered_line l"
  unfolding answered_line_def by (rule occurs_break) simp_all

lemma correct_break [simp]: "line_correct (l @ [LF]) = line_correct l"
proof -
  have "occurs ''key='' (l @ [LF]) \<longleftrightarrow> occurs ''key='' l" "occurs ''unixtime='' (l @ [LF]) \<longleftrightarrow> occurs ''unixtime='' l"
    by (rule occurs_break; simp)+
  then show ?thesis by (simp only: line_correct_def)
qed

lemma last_pos_char: "c \<notin> set t \<Longrightarrow> last_pos (s @ c # t) [c] = Some (length s)"
proof (induction s)
  case Nil
  have "last_pos t [c] = None" using Nil by (induction t) auto
  then show ?case by simp
qed simp

lemma first_index_skip: "list_all (\<lambda>x. \<not> P x) xs \<Longrightarrow> first_index P (xs @ ys) = map_option ((+) (length xs)) (first_index P ys)"
  by (induction xs) (cases "first_index P ys"; auto)+

lemma rest_Cons: "rest (f # fs) = CHR '';'' # field_text f @ rest fs"
  by (simp add: rest_def field_line_Cons)

lemma rest_snoc: "rest (ys @ [f]) = rest ys @ CHR '';'' # field_text f"
  by (induction ys) (simp_all add: rest_Cons del: field_text.simps, simp_all add: rest_def)

lemma get_var_field:
  assumes "list_all field_ok (xs @ (n, v) # ys @ [(m, w)])" "name_ok n" "to_lower n = n"
    and "solo_low n xs" "solo_low n (ys @ [(m, w)])" "CHR '';'' \<notin> set w"
  shows "get_var (field_line (xs @ (n, v) # ys @ [(m, w)])) n = v @ rest ys"
proof -
  let ?L = "field_line (xs @ (n, v) # ys @ [(m, w)])" and ?A = "n @ CHR ''='' # v @ rest ys" and ?B = "m @ CHR ''='' # w"
  have L: "?L = before xs @ ?A @ CHR '';'' # ?B"
    by (simp add: field_line_append rest_snoc)
  have pos: "strripos ?L (n @ ''='') 0 = Some (length (before xs))"
    by (rule last_pos_solo) (use assms in simp_all)
  have "CHR '';'' \<notin> set m" using assms(1) by (simp add: field_ok_def)
  then have "CHR '';'' \<notin> set (to_lower ?B)"
    using assms(6) by (auto simp: in_to_lower lower_char_sep)
  then have "last_pos (to_lower ?A @ CHR '';'' # to_lower ?B) [CHR '';''] = Some (length ?A)"
    using last_pos_char [of _ "to_lower ?B" "to_lower ?A"] by simp
  then have semi: "strripos ?L '';'' (length (before xs)) = Some (length (before xs) + length ?A)"
    unfolding L by (simp add: strripos_def to_lower_def lower_char_def)
  show ?thesis
    unfolding get_var_def pos option.case semi by (simp add: Let_def substr_def L)
qed

section \<open>A request as a line\<close>

definition safe :: "char \<Rightarrow> bool" where
  "safe c \<longleftrightarrow> c \<notin> set [nul, CHR ''='', CHR '';'', CHR ''&'', CHR ''%'', CR, LF]"

definition value_ok :: "string \<Rightarrow> bool" where
  "value_ok v \<longleftrightarrow> list_all safe v \<and> trim v = v"

definition date_ok :: "string \<Rightarrow> bool" where
  "date_ok d \<longleftrightarrow> list_all safe d \<and> d \<noteq> [] \<and> \<not> php_space (last d)"

definition optional :: "string \<Rightarrow> string \<Rightarrow> field list" where
  "optional n v = (if v \<noteq> [] then [(n, v)] else [])"

definition request_head :: "string \<Rightarrow> string \<Rightarrow> string \<Rightarrow> string \<Rightarrow> string \<Rightarrow> field list" where
  "request_head key cmd arg ext time =
     (''key'', key) # (''cmd'', cmd) # optional ''arg'' arg @ optional ''ext'' ext @ [(''unixtime'', time)]"

definition request_line :: "string \<Rightarrow> string \<Rightarrow> string \<Rightarrow> string \<Rightarrow> string \<Rightarrow> string \<Rightarrow> string" where
  "request_line key cmd arg ext time date =
     field_line (request_head key cmd arg ext time @ [(''reqtime'', date)])"

definition request_ok :: "string \<Rightarrow> string \<Rightarrow> string \<Rightarrow> string \<Rightarrow> string \<Rightarrow> string \<Rightarrow> bool" where
  "request_ok key cmd arg ext time date \<longleftrightarrow>
     list_all value_ok [key, cmd, arg, ext, time] \<and> key \<noteq> [] \<and> date_ok date"

lemma request_line_text:
  "''key='' @ key @ '';cmd='' @ cmd @ (if arg \<noteq> [] then '';arg='' @ arg else []) @
    (if ext \<noteq> [] then '';ext='' @ ext else []) @ '';unixtime='' @ time @ '';reqtime='' @ date =
   request_line key cmd arg ext time date"
  by (simp add: request_line_def request_head_def optional_def)

lemma safe_no_sep: "list_all safe v \<Longrightarrow> CHR ''='' \<notin> set v \<and> CHR '';'' \<notin> set v \<and> nul \<notin> set v \<and> CHR ''&'' \<notin> set v \<and>
   CHR ''%'' \<notin> set v \<and> CR \<notin> set v \<and> LF \<notin> set v"
  by (auto simp: list_all_iff safe_def)

lemma request_fields_ok:
  assumes "request_ok key cmd arg ext time date"
  shows "list_all field_ok (request_head key cmd arg ext time @ [(''reqtime'', date)])"
  using assms safe_no_sep
  by (auto simp: request_ok_def value_ok_def date_ok_def request_head_def optional_def field_ok_def)

lemma set_field_line: "set (field_line fs) \<subseteq> insert (CHR '';'') (\<Union>f \<in> set fs. set (fst f) \<union> {CHR ''=''} \<union> set (snd f))"
  by (induction fs rule: field_line.induct) auto

lemma request_line_chars:
  assumes "request_ok key cmd arg ext time date" "c \<in> set (request_line key cmd arg ext time date)"
  shows "safe c \<or> c = CHR ''='' \<or> c = CHR '';''"
proof -
  let ?fs = "request_head key cmd arg ext time @ [(''reqtime'', date)]"
  have v: "list_all safe (snd f)" if "f \<in> set ?fs" for f
    using that assms(1) by (auto simp: request_head_def optional_def request_ok_def value_ok_def date_ok_def split: if_splits)
  have n: "list_all safe (fst f)" if "f \<in> set ?fs" for f
    using that by (auto simp: request_head_def optional_def safe_def split: if_splits)
  show ?thesis
    using assms(2) set_field_line [of ?fs] v n unfolding request_line_def list_all_iff by blast
qed

lemma request_line_last: "date \<noteq> [] \<Longrightarrow> last (request_line key cmd arg ext time date) = last date"
proof -
  assume "date \<noteq> []"
  moreover have "request_line key cmd arg ext time date = before (request_head key cmd arg ext time) @ ''reqtime='' @ date"
    by (simp add: request_line_def field_line_append rest_def)
  ultimately show ?thesis by simp
qed

lemma request_line_hd: "request_line key cmd arg ext time date = CHR ''k'' # tl (request_line key cmd arg ext time date)"
  by (simp add: request_line_def request_head_def)

lemma request_line_tidy:
  assumes "request_ok key cmd arg ext time date"
  shows "tidy (request_line key cmd arg ext time date)"
proof -
  let ?l = "request_line key cmd arg ext time date"
  have "LF \<notin> set ?l" "hd ?l = CHR ''k''"
    using request_line_chars [OF assms, of LF] request_line_hd [of key cmd arg ext time date]
    by (auto simp: safe_def) (metis list.sel(1))
  moreover have "last ?l = last date" "\<not> php_space (last date)"
    using assms by (auto simp: request_ok_def date_ok_def request_line_last)
  ultimately show ?thesis
    using php_trim_id [of ?l] by (simp add: tidy_def php_space_def)
qed

lemma request_solo:
  "solo_low ''response'' (request_head key cmd arg ext time @ [(''reqtime'', date)])"
  by (simp add: solo_low_def solo_def request_head_def optional_def low_field_def to_lower_def lower_char_def suffix_to_prefix)

lemma occurs_prefix: "occurs (p @ q) s \<Longrightarrow> occurs p s"
proof -
  have "places (to_lower s) (to_lower p @ to_lower q) \<subseteq> places (to_lower s) (to_lower p)"
    by (auto simp: places_def)
  then show "occurs (p @ q) s \<Longrightarrow> occurs p s" by (auto simp: occurs_places)
qed

lemma occurs_prefix_of: "occurs p s \<Longrightarrow> occurs p (s @ t)"
proof -
  have "places (to_lower s) q \<subseteq> places (to_lower s @ to_lower t) q" for q
    by (auto simp: places_def)
  then show "occurs p s \<Longrightarrow> occurs p (s @ t)" by (fastforce simp: occurs_places)
qed

lemma occurs_named: "(n, v) \<in> set fs \<Longrightarrow> occurs ((n @ ''='') @ v) (field_line fs)"
  using occurs_field [of n v fs] by (simp only: append.assoc append_Cons append_Nil)

lemma request_line_occurs:
  "occurs (''key='' @ key) (request_line key cmd arg ext time date)"
  "occurs (''unixtime='' @ time) (request_line key cmd arg ext time date)"
proof -
  let ?fs = "request_head key cmd arg ext time @ [(''reqtime'', date)]"
  have m: "(''key'', key) \<in> set ?fs" "(''unixtime'', time) \<in> set ?fs" by (simp_all add: request_head_def)
  have e: "''key='' = ''key'' @ ''=''" "''unixtime='' = ''unixtime'' @ ''=''" by simp_all
  show "occurs (''key='' @ key) (request_line key cmd arg ext time date)"
    unfolding e request_line_def by (rule occurs_named [OF m(1)])
  show "occurs (''unixtime='' @ time) (request_line key cmd arg ext time date)"
    unfolding e request_line_def by (rule occurs_named [OF m(2)])
qed

lemma request_line_state:
  assumes "request_ok key cmd arg ext time date"
  shows "line_correct (request_line key cmd arg ext time date)" "\<not> answered_line (request_line key cmd arg ext time date)"
proof -
  show "\<not> answered_line (request_line key cmd arg ext time date)"
    unfolding answered_line_def occurs_def request_line_def
    using last_pos_missing [OF request_fields_ok [OF assms] _ _ request_solo]
    by (simp add: name_ok_def to_lower_def lower_char_def)
  show "line_correct (request_line key cmd arg ext time date)"
    unfolding line_correct_def using request_line_occurs occurs_prefix by blast
qed

text \<open>
  The test for a repeated request compares everything between \<open>key=\<close> and the last field, the time
  included.
\<close>

definition request_rest :: "string \<Rightarrow> string \<Rightarrow> string \<Rightarrow> string \<Rightarrow> string \<Rightarrow> string" where
  "request_rest key cmd arg ext time = key @ rest (tl (request_head key cmd arg ext time))"

lemma get_var_key:
  assumes "request_ok key cmd arg ext time date"
  shows "get_var (request_line key cmd arg ext time date) ''key'' = request_rest key cmd arg ext time"
proof -
  let ?ys = "tl (request_head key cmd arg ext time)"
  have h: "request_head key cmd arg ext time = (''key'', key) # ?ys" by (simp add: request_head_def)
  have eq: "[] @ (''key'', key) # ?ys @ [(''reqtime'', date)] = request_head key cmd arg ext time @ [(''reqtime'', date)]"
    using h by (metis append_Cons append_Nil)
  have "list_all field_ok ([] @ (''key'', key) # ?ys @ [(''reqtime'', date)])"
    unfolding eq by (rule request_fields_ok [OF assms])
  moreover have "solo_low ''key'' (?ys @ [(''reqtime'', date)])"
    by (simp add: solo_low_def solo_def request_head_def optional_def low_field_def to_lower_def lower_char_def suffix_to_prefix)
  moreover have "CHR '';'' \<notin> set date"
    using assms safe_no_sep by (simp add: request_ok_def date_ok_def)
  ultimately have "get_var (field_line ([] @ (''key'', key) # ?ys @ [(''reqtime'', date)])) ''key'' = key @ rest ?ys"
    by (intro get_var_field) (simp_all add: name_ok_def to_lower_def lower_char_def solo_low_def solo_def)
  then show ?thesis unfolding eq by (simp only: request_line_def request_rest_def)
qed

lemma rest_time: "\<exists>a. request_rest key cmd arg ext time = a @ ''unixtime='' @ time"
proof -
  have "tl (request_head key cmd arg ext time) =
      ((''cmd'', cmd) # optional ''arg'' arg @ optional ''ext'' ext) @ [(''unixtime'', time)]"
    by (simp add: request_head_def)
  then have "request_rest key cmd arg ext time =
      (key @ rest ((''cmd'', cmd) # optional ''arg'' arg @ optional ''ext'' ext) @ '';'') @ ''unixtime='' @ time"
    by (simp only: request_rest_def rest_snoc) simp
  then show ?thesis by blast
qed

lemma get_var_inside: "\<exists>a b. line = a @ get_var line var @ b"
proof -
  have "line = take j line @ take k (drop j line) @ drop k (drop j line)" for j k
    by (metis append_take_drop_id)
  then have "\<exists>a b. line = a @ take k (drop j line) @ b" for j k by blast
  moreover have "\<exists>a b. line = a @ ([] :: string) @ b" by blast
  ultimately show ?thesis
    by (auto simp: get_var_def substr_def Let_def split: option.split)
qed

text \<open>So only a request of the same second, with the same key and command, counts as repeated.\<close>

definition numeric_law :: "request \<Rightarrow> bool" where
  "numeric_law R \<longleftrightarrow> (\<forall>a b. r_numeq R a b \<longrightarrow> CHR '';'' \<notin> set a \<and> CHR '';'' \<notin> set b)"

lemma repeated_same_second:
  assumes "request_ok key cmd arg ext time date" "numeric_law R"
    and "repeated R prev (request_line key cmd arg ext time date)"
  shows "occurs (''unixtime='' @ time) prev"
proof -
  let ?r = "request_rest key cmd arg ext time"
  have "CHR '';'' \<in> set ?r"
    by (simp add: request_rest_def request_head_def rest_def)
  then have "get_var prev ''key'' = ?r"
    using assms by (auto simp: repeated_def loose_eq_def get_var_key numeric_law_def)
  then obtain a b where "prev = a @ ?r @ b" using get_var_inside by metis
  moreover obtain c where "?r = c @ ''unixtime='' @ time" using rest_time by blast
  ultimately have "prev = (a @ c) @ (''unixtime='' @ time) @ b" by simp
  then show ?thesis using occursI [of "''unixtime='' @ time" "a @ c" b] by simp
qed

section \<open>The queue\<close>

lemma drop_oldest_room: "int (length ls) \<le> m \<Longrightarrow> drop_oldest i m ls = ls"
  by (simp add: drop_oldest.simps)

lemma put_stored:
  assumes "files s f = Some (stored (h # old))" "list_all tidy (h # old)" "tidy line"
    and "r_fopen R" "r_flock R" "int (length old) + 2 \<le> php_int (v_maxlogs s)"
    and "\<not> repeated R (last (h # old) @ [LF]) line"
  shows "put_line_to_file R f line s = (s\<lparr>files := (files s)(f := Some (stored (h # old @ [line])))\<rparr>, ''success'')"
proof -
  let ?ls = "map (\<lambda>l. l @ [LF]) (h # old)"
  have ls: "lines_of s f = ?ls"
    using assms(1) file_lines_stored [OF assms(2)] by (simp add: lines_of_def or_empty_def)
  have l: "last ?ls = last (h # old) @ [LF]" by (simp only: last_map list.distinct not_False_eq_True)
  have d: "drop_oldest i (php_int (v_maxlogs s)) (?ls @ [line]) = ?ls @ [line]" for i
    using assms(6) by (intro drop_oldest_room) simp
  have w: "written_lines (?ls @ [line]) = stored (h # old @ [line])"
    using assms(3) stored_snoc [of "h # old" line] written_stored [OF assms(2)]
    by (simp only: written_snoc) (simp add: tidy_def)
  have e: "ensure_file R f s = (s, ''success'')" using assms(1) by (simp add: ensure_file_def)
  have "\<not> (php_int (v_logline s) \<le> int (length ?ls) \<and> repeated R (last ?ls) line)"
    using assms(7) l by simp
  then show ?thesis
    unfolding put_line_to_file_def e prod.case ls Let_def d w
    using assms(4,5) by (auto simp: rewrite_file_def simp del: list.map)
qed

lemma line_from_stored:
  assumes "list_all tidy (h # old @ [line])" "list_all (\<lambda>l. \<not> P (l @ [LF])) old" "P (line @ [LF])"
  shows "line_from 1 P (file_lines (stored (h # old @ [line]))) = Some (int (length old) + 1, line @ [LF])"
proof -
  have "list_all (\<lambda>x. \<not> P x) (map (\<lambda>l. l @ [LF]) old)"
    using assms(2) by (simp add: list.pred_map comp_def)
  from first_index_skip [OF this, of "[line @ [LF]]"]
  have i: "first_index P (map (\<lambda>l. l @ [LF]) old @ [line @ [LF]]) = Some (length old)"
    using assms(3) by simp
  show ?thesis
    unfolding file_lines_stored [OF assms(1)] using i by (simp add: line_from_def nth_append)
qed

lemma get_request_stored:
  assumes "files s f = Some (stored (h # old @ [line]))" "list_all tidy (h # old @ [line])"
    and "list_all answered_line old" "\<not> answered_line line" "v_logline s = ''1''" "loose_eq R (v_key s) (v_dev s)"
  shows "get_request_from_file R f s = line"
proof -
  have "line_from 1 (\<lambda>l. \<not> answered_line l) (file_lines (stored (h # old @ [line]))) =
      Some (int (length old) + 1, line @ [LF])"
    using assms(2-4) by (intro line_from_stored) simp_all
  moreover have "php_trim line = line" using assms(2) by (simp add: tidy_def)
  ultimately show ?thesis
    using assms(1,5,6) by (simp add: get_request_from_file_def php_trim_break)
qed

lemma check_stored:
  assumes "files s f = Some (stored (h # ls))" "list_all tidy (h # ls)" "list_all line_correct ls" "v_logline s = ''1''"
  shows "check_if_file_correct R f s = Some s"
  using assms file_lines_stored [OF assms(2)]
  by (simp add: check_if_file_correct_def list.pred_map comp_def)

definition answer_line :: "string \<Rightarrow> string \<Rightarrow> string \<Rightarrow> string" where
  "answer_line line response date = line @ '';response='' @ response @ '';time='' @ date"

lemma answer_line_tidy:
  assumes "tidy line" "line \<noteq> []" "LF \<notin> set response" "date_ok date"
  shows "tidy (answer_line line response date)"
proof -
  have "\<not> php_space (hd line)" using php_trim_ends [of line] assms(1,2) by (simp add: tidy_def)
  moreover have "LF \<notin> set date" "date \<noteq> []" "\<not> php_space (last date)"
    using assms(4) safe_no_sep by (simp_all add: date_ok_def)
  ultimately show ?thesis
    using assms php_trim_id [of "answer_line line response date"] by (simp add: tidy_def answer_line_def)
qed

lemma set_response_stored:
  assumes "files s f = Some (stored (h # old @ [line]))" "list_all tidy (h # old @ [line])"
    and "list_all answered_line old" "\<not> answered_line line" "v_logline s = ''1''" "loose_eq R (v_key s) (v_dev s)"
    and "occurs (''key='' @ ukey) line" "occurs (''unixtime='' @ time) line" "LF \<notin> set ukey" "LF \<notin> set time"
    and "r_fopen R" "r_flock R" "tidy (answer_line line response (r_date R))"
  shows "set_response_in_file R f ukey time response s =
    (s\<lparr>files := (files s)(f := Some (stored (h # old @ [answer_line line response (r_date R)])))\<rparr>, ''success'')"
proof -
  define z where "z = php_replace (CHR ''_'') (CHR '' '') (variable_named R f ukey time response s)"
  let ?ls = "file_lines (stored (h # old @ [line]))" and ?new = "answer_line line response (r_date R)"
  have "list_all (\<lambda>l. \<not> awaits_response ukey z time (l @ [LF])) old"
    using assms(3) by (simp add: list_all_iff awaits_response_def)
  moreover have "awaits_response ukey z time (line @ [LF])"
    using assms(4,7-10) by (simp add: awaits_response_def occurs_break)
  ultimately have i: "line_from 1 (awaits_response ukey z time) ?ls = Some (int (length old) + 1, line @ [LF])"
    using line_from_stored [OF assms(2)] by blast
  have t: "php_trim (line @ [LF]) @ '';response='' @ response @ '';time='' @ r_date R = ?new"
    using assms(2) by (simp add: php_trim_break tidy_def answer_line_def)
  have "?ls = map (\<lambda>l. l @ [LF]) (h # old) @ [line @ [LF]]"
    unfolding file_lines_stored [OF assms(2)] by simp
  moreover have "(xs @ [x])[length xs := y] = xs @ [y]" for xs and x y :: string by simp
  from this [of "map (\<lambda>l. l @ [LF]) old"]
  have "(map (\<lambda>l. l @ [LF]) old @ [x])[length old := y] = map (\<lambda>l. l @ [LF]) old @ [y]" for x y
    by (simp only: length_map)
  ultimately have "length ?ls = length old + 2" "?ls[length old + 1 := ?new] = map (\<lambda>l. l @ [LF]) (h # old) @ [?new]"
    by simp_all
  moreover have "written_lines (map (\<lambda>l. l @ [LF]) (h # old) @ [?new]) = stored (h # old @ [?new])"
  proof -
    have "list_all tidy (h # old)" using assms(2) by simp
    from written_stored [OF this] show ?thesis
      using assms(13) stored_snoc [of "h # old" ?new] by (simp only: written_snoc) (simp add: tidy_def)
  qed
  ultimately have "replace_line_in_file R f (length old + 1) ?new s =
      (s\<lparr>files := (files s)(f := Some (stored (h # old @ [?new])))\<rparr>, ''success'')"
    using assms(1,11,12)
    by (simp add: replace_line_in_file_def ensure_file_def lines_of_def or_empty_def rewrite_file_def Let_def)
  then show ?thesis
    using assms(1,5,6) i t by (simp add: set_response_in_file_def z_def Let_def nat_add_distrib)
qed

lemma get_response_stored:
  assumes "fs f = Some (stored (h # old @ [answer_line (request_line key cmd arg ext time date) response date2]))"
    and "list_all tidy (h # old)" "list_all (\<lambda>l. \<not> occurs (''unixtime='' @ time) l) old"
    and "request_ok key cmd arg ext time date" "date_ok date2" "response \<noteq> []" "CHR ''='' \<notin> set response" "LF \<notin> set response"
  shows "get_response_from_file ''1'' f key time fs = response"
proof -
  let ?fs = "request_head key cmd arg ext time @ [(''reqtime'', date)]"
  let ?line = "request_line key cmd arg ext time date"
  let ?new = "answer_line ?line response date2"
  let ?P = "\<lambda>l. occurs (''key='' @ key) l \<and> occurs (''unixtime='' @ time) l"
  have n: "?new @ [LF] = field_line (?fs @ (''response'', response) # [] @ [(''time'', date2 @ [LF])])"
    unfolding field_line_append by (simp add: answer_line_def request_line_def field_line_append rest_def before_def)
  have ok: "LF \<notin> set key" "LF \<notin> set time" using assms(4) safe_no_sep by (simp_all add: request_ok_def value_ok_def)
  have "?P (?new @ [LF])"
    unfolding n using occurs_named [of "''key''" key "?fs @ (''response'', response) # [] @ [(''time'', date2 @ [LF])]"]
      occurs_named [of "''unixtime''" time "?fs @ (''response'', response) # [] @ [(''time'', date2 @ [LF])]"]
    by (simp add: request_head_def del: field_line.simps)
  moreover have "list_all (\<lambda>l. \<not> ?P (l @ [LF])) old"
    using assms(3) ok by (simp add: list_all_iff occurs_break)
  moreover have "tidy ?new"
  proof (rule answer_line_tidy [OF request_line_tidy [OF assms(4)]])
    show "?line \<noteq> []" using request_line_hd [of key cmd arg ext time date] by (metis list.distinct(1))
  qed (use assms in simp_all)
  ultimately have i: "line_from 1 ?P (file_lines (stored (h # old @ [?new]))) = Some (int (length old) + 1, ?new @ [LF])"
    using assms(2) by (intro line_from_stored) simp_all
  have "CHR ''='' \<notin> set date2" "CHR '';'' \<notin> set date2" using assms(5) safe_no_sep by (simp_all add: date_ok_def)
  then have "list_all field_ok (?fs @ (''response'', response) # [] @ [(''time'', date2 @ [LF])])"
    using request_fields_ok [OF assms(4)] assms(7) by (simp add: field_ok_def)
  then have "get_var (field_line (?fs @ (''response'', response) # [] @ [(''time'', date2 @ [LF])])) ''response'' = response @ rest []"
    using request_solo \<open>CHR '';'' \<notin> set date2\<close>
    by (intro get_var_field) (simp_all add: name_ok_def to_lower_def lower_char_def solo_low_def solo_def low_field_def suffix_to_prefix)
  then have "get_var (?new @ [LF]) ''response'' = response" unfolding n by (simp add: rest_def)
  then show ?thesis
    using assms(1,6) i by (simp add: get_response_from_file_def Let_def)
qed

section \<open>A request as the lock reads it\<close>

lemma strstr_char: "c \<notin> set v \<Longrightarrow> strstr (v @ c # t) [c] = Some (length v)"
  by (induction v) auto

lemma argval_field:
  assumes "list_all field_ok (xs @ (n, v) # ys)" "name_ok n" "solo n xs" "solo n ys" "ys \<noteq> []"
    and "nul \<notin> set (field_line (xs @ (n, v) # ys))" "nul \<notin> set n" "CHR '';'' \<notin> set v"
  shows "argval (field_line (xs @ (n, v) # ys)) n = trim v"
proof -
  let ?L = "field_line (xs @ (n, v) # ys)"
  define b where "b = length (before xs) + length n + 1"
  have p: "strstr ?L (n @ ''='') = Some (length (before xs))"
    by (rule strstr_places, rule places_solo) (use assms in simp_all)
  then have i: "index_of ?L (n @ ''='') 0 = Some (length (before xs))"
    using assms(6,7) by (simp add: index_of_0)
  have d: "drop b ?L = v @ CHR '';'' # field_line ys"
    using drop_value [of xs n v ys] assms(5) by (simp add: rest_def b_def)
  then have l: "b < length ?L" by (metis drop_eq_Nil2 append_is_Nil_conv list.distinct(1) not_le)
  have "index_of ?L '';'' b = map_option ((+) b) (strstr (drop b ?L) '';'')"
    using assms(6) l index_of_from [of ?L "'';''" b] by simp
  then have "index_of ?L '';'' b = Some (b + length v)"
    using assms(8) by (simp add: d strstr_char)
  then have "first_separator '';&'' ?L b = Some (b + length v)"
    by (simp add: first_separator_def)
  moreover have "substring ?L b (b + length v) = v"
  proof -
    have "length (drop b ?L) = length v + 1 + length (field_line ys)" unfolding d by simp
    then have "b + length v \<le> length ?L" by simp
    then show ?thesis using d by (subst substring_le) simp_all
  qed
  ultimately show ?thesis by (simp only: get_argval_def i option.case Let_def prod.case flip: b_def)
qed

lemma argval_without:
  assumes "list_all field_ok fs" "name_ok n" "solo n fs" "nul \<notin> set (field_line fs)" "nul \<notin> set n"
    and "n \<noteq> ''cmd''" "n \<noteq> ''c''"
  shows "argval (field_line fs) n = []"
proof -
  have "strstr (field_line fs) (n @ ''='') = None"
    by (rule strstr_no_place, rule places_missing) (use assms in simp_all)
  then have "index_of (field_line fs) (n @ ''='') 0 = None"
    using assms(4,5) by (simp add: index_of_0)
  then show ?thesis using assms(6,7) by (simp add: get_argval_def)
qed

lemma request_line_no_nul:
  assumes "request_ok key cmd arg ext time date"
  shows "nul \<notin> set (request_line key cmd arg ext time date)" "CHR ''%'' \<notin> set (request_line key cmd arg ext time date)"
  using request_line_chars [OF assms, of nul] request_line_chars [OF assms, of "CHR ''%''"] by (auto simp: safe_def)

lemma solo_Nil: "solo n []"
  by (simp add: solo_def)

lemma solo_Cons: "solo n ((m, v) # fs) \<longleftrightarrow> \<not> suffix n m \<and> solo n fs"
  by (simp add: solo_def)

lemma solo_append: "solo n (fs @ gs) \<longleftrightarrow> solo n fs \<and> solo n gs"
  by (simp add: solo_def)

lemma solo_optional: "solo n (optional m v) \<longleftrightarrow> v = [] \<or> \<not> suffix n m"
  by (simp add: solo_def optional_def)

lemmas name_simps = solo_def name_ok_def request_head_def optional_def suffix_to_prefix

lemma request_argval:
  assumes "request_ok key cmd arg ext time date"
  shows "argval (request_line key cmd arg ext time date) ''key'' = key"
    "argval (request_line key cmd arg ext time date) ''cmd'' = cmd"
    "argval (request_line key cmd arg ext time date) ''arg'' = arg"
    "argval (request_line key cmd arg ext time date) ''ext'' = ext"
    "argval (request_line key cmd arg ext time date) ''unixtime'' = time"
proof -
  let ?l = "request_line key cmd arg ext time date" and ?e = "[(''unixtime'', time), (''reqtime'', date)]"
  let ?fs = "(''key'', key) # (''cmd'', cmd) # optional ''arg'' arg @ optional ''ext'' ext @ ?e"
  have L: "?l = field_line ?fs" by (simp add: request_line_def request_head_def)
  have ok: "list_all field_ok ?fs" using request_fields_ok [OF assms] by (simp add: request_head_def)
  have n: "nul \<notin> set (field_line ?fs)" using request_line_no_nul(1) [OF assms] unfolding L .
  have v: "CHR '';'' \<notin> set x \<and> trim x = x" if "x \<in> set [key, cmd, arg, ext, time]" for x
    using that assms safe_no_sep by (auto simp: request_ok_def value_ok_def)
  have found: "argval ?l m = x"
    if "?fs = xs @ (m, x) # ys" "name_ok m" "solo m xs" "solo m ys" "ys \<noteq> []" "nul \<notin> set m"
      "x \<in> set [key, cmd, arg, ext, time]" for m x xs ys
    using argval_field [of xs m x ys] that ok n v [OF that(7)] unfolding L that(1) by simp
  note parts = solo_append solo_Cons solo_optional solo_Nil
  show "argval ?l ''key'' = key"
    by (rule found [of "[]" _ _ "(''cmd'', cmd) # optional ''arg'' arg @ optional ''ext'' ext @ ?e"])
      (simp_all add: parts name_ok_def suffix_to_prefix)
  show "argval ?l ''cmd'' = cmd"
    by (rule found [of "[(''key'', key)]" _ _ "optional ''arg'' arg @ optional ''ext'' ext @ ?e"])
      (simp_all add: parts name_ok_def suffix_to_prefix)
  show "argval ?l ''unixtime'' = time"
    by (rule found [of "(''key'', key) # (''cmd'', cmd) # optional ''arg'' arg @ optional ''ext'' ext" _ _ "[(''reqtime'', date)]"])
      (simp_all add: parts name_ok_def suffix_to_prefix)
  show "argval ?l ''arg'' = arg"
  proof (cases "arg = []")
    case True
    then have "argval (field_line ?fs) ''arg'' = []"
      using ok n by (intro argval_without) (simp_all add: parts name_ok_def suffix_to_prefix)
    with True show ?thesis unfolding L by simp
  next
    case False
    show ?thesis
      by (rule found [of "[(''key'', key), (''cmd'', cmd)]" _ _ "optional ''ext'' ext @ ?e"])
        (use False in \<open>simp_all add: parts name_ok_def suffix_to_prefix optional_def [of _ arg]\<close>)
  qed
  show "argval ?l ''ext'' = ext"
  proof (cases "ext = []")
    case True
    then have "argval (field_line ?fs) ''ext'' = []"
      using ok n by (intro argval_without) (simp_all add: parts name_ok_def suffix_to_prefix)
    with True show ?thesis unfolding L by simp
  next
    case False
    show ?thesis
      by (rule found [of "(''key'', key) # (''cmd'', cmd) # optional ''arg'' arg" _ _ ?e])
        (use False in \<open>simp_all add: parts name_ok_def suffix_to_prefix optional_def [of _ ext]\<close>)
  qed
qed

lemma request_read:
  assumes "request_ok key cmd arg ext time date"
  shows "read_command (From_remote (request_line key cmd arg ext time date)) d =
    ((no_command d)\<lparr>p_cmd := cmd, p_key := key, p_argv := arg, p_ext := ext\<rparr>, None)"
proof -
  let ?l = "request_line key cmd arg ext time date"
  have r: "str_replace (str_replace ?l ''%26'' ''&'') ''%3D'' ''='' = ?l"
    using request_line_no_nul(2) [OF assms] by (simp add: str_replace_notin)
  have "argval ?l m = []" if "m \<in> set [''v'', ''val'', ''value'']" for m
    unfolding request_line_def
    by (rule argval_without [OF request_fields_ok [OF assms]])
      (use that request_line_no_nul(1) [OF assms] in \<open>auto simp: name_simps request_line_def\<close>)
  then have "argval ?l ''v'' = []" "argval ?l ''val'' = []" "argval ?l ''value'' = []" by simp_all
  moreover have "?l \<noteq> []" using request_line_hd [of key cmd arg ext time date] by (metis list.distinct(1))
  ultimately show ?thesis
    using r request_argval [OF assms]
    by (cases "arg = []") (simp_all add: read_command_def read_remote_def Let_def no_command_def)
qed

section \<open>Requests to the transponder of a lock\<close>

text \<open>
  The URLs of a user's page and of \<open>request_on_transponder\<close>.  \<open>B\<close> is the server's side of the
  request: the time, the outcome of the file operations, the script's name.
\<close>

definition query :: "request \<Rightarrow> (string \<times> string) list \<Rightarrow> request" where
  "query B ps = B\<lparr>r_get := map_of ps, r_post := (\<lambda>n. None)\<rparr>"

definition user_sends :: "request \<Rightarrow> string \<Rightarrow> string \<Rightarrow> string \<Rightarrow> string \<Rightarrow> string \<Rightarrow> request" where
  "user_sends B dev key cmd arg ext =
     query B [(''access'', ''transfer''), (''dev'', dev), (''key'', key), (''cmd'', cmd), (''arg'', arg), (''ext'', ext)]"

definition lock_asks :: "request \<Rightarrow> string \<Rightarrow> request" where
  "lock_asks B dev = query B [(''access'', ''receive''), (''dev'', dev), (''key'', dev)]"

definition lock_answers :: "request \<Rightarrow> string \<Rightarrow> string \<Rightarrow> string \<Rightarrow> string \<Rightarrow> request" where
  "lock_answers B dev ukey time response =
     query B [(''access'', ''set_response''), (''dev'', dev), (''key'', dev), (''ukey'', ukey), (''arg'', time),
              (''ext'', response)]"

definition user_asks :: "request \<Rightarrow> string \<Rightarrow> string \<Rightarrow> string \<Rightarrow> request" where
  "user_asks B dev key time = query B [(''access'', ''get_response''), (''dev'', dev), (''key'', key), (''arg'', time)]"

definition serves :: "string \<Rightarrow> string \<Rightarrow> request \<Rightarrow> bool" where
  "serves dev tz B \<longleftrightarrow> r_script B = dev \<and> r_fopen B \<and> r_flock B \<and> r_tz B tz \<and> numeric_law B"

text \<open>The log of a lock: settings in the first line, answered requests behind it.\<close>

definition log_ok :: "string \<Rightarrow> string \<Rightarrow> string \<Rightarrow> string \<Rightarrow> string list \<Rightarrow> bool" where
  "log_ok tz mx ak lg ls \<longleftrightarrow> list_all setting_ok [tz, mx, ak, lg] \<and>
     list_all tidy (header_line tz mx ak lg # ls) \<and> list_all line_correct ls"

definition wrapped :: "string \<Rightarrow> string \<Rightarrow> shown" where
  "wrapped dev t = Printed (''<transponder'' @ dev @ ''>'' @ t @ ''</transponder'' @ dev @ ''>'')"

lemma opened_log:
  assumes "serves dev tz B" "fs (log_name dev) = Some (stored (header_line tz mx ak lg # ls))" "log_ok tz mx ak lg ls"
  shows "opened (query B ps) fs = (start_script (query B ps) fs)\<lparr>v_tzone := tz, v_maxlogs := mx, v_logline := ''1'',
    v_adminkey := ak, v_lang := lg\<rparr>"
  by (rule opened_stored [where old = ls]) (use assms in \<open>simp_all add: serves_def query_def log_ok_def\<close>)

lemma transponder_opened: "transponder R polls fs =
   (case dispatch R (opened R fs) of
      None \<Rightarrow> None
    | Some (s, False) \<Rightarrow> Some s
    | Some (s, True) \<Rightarrow>
        (case store_settings R s of
           (s1, False) \<Rightarrow> Some s1
         | (s1, True) \<Rightarrow>
             if loose_eq R (v_key s1) (r_script R) \<and> loose_eq R (v_dev s1) (r_script R) then Some s1
             else guest_form R polls s1))"
  by (simp add: transponder_def opened_def)

text \<open>Behind the \<open>switch\<close> a request without a form leaves the files alone.\<close>

lemma after_dispatch:
  assumes "dispatch R (opened R fs) = Some (s, True)" "\<not> is_setting (v_access s)" "r_post R ''guestkey'' = None"
  obtains s' more where "transponder R polls fs = Some s'" "files s' = files s" "printed s' = printed s @ more"
proof (cases "loose_eq R (v_key s) (r_script R) \<and> loose_eq R (v_dev s) (r_script R)")
  case True
  then have "transponder R polls fs = Some s" using assms by (simp add: transponder_opened store_settings_def)
  then show ?thesis using that [of s "[]"] by simp
next
  case False
  then have "transponder R polls fs = Some (show_output (Access_form [] True True False) s)"
    using assms by (auto simp: transponder_opened store_settings_def guest_form_def)
  then show ?thesis using that by (simp add: show_output_def)
qed

lemma user_sends_run:
  fixes key cmd arg ext
  defines "line B \<equiv> request_line key cmd arg ext (dec_int (r_time B)) (r_date B)"
  assumes "serves dev tz B" "log_ok tz mx ak lg old"
    and "fs (log_name dev) = Some (stored (header_line tz mx ak lg # old))"
    and "request_ok key cmd arg ext (dec_int (r_time B)) (r_date B)"
    and "int (length old) + 2 \<le> php_int mx"
    and "list_all (\<lambda>l. \<not> occurs (''unixtime='' @ dec_int (r_time B)) l) (header_line tz mx ak lg # old)"
  shows "\<exists>s more. transponder (user_sends B dev key cmd arg ext) polls fs = Some s \<and>
    files s = fs(log_name dev := Some (stored (header_line tz mx ak lg # old @ [line B]))) \<and>
    printed s = wrapped dev ''success'' # more"
proof -
  let ?R = "user_sends B dev key cmd arg ext" and ?h = "header_line tz mx ak lg"
  let ?s = "opened ?R fs" and ?f = "log_name dev"
  have s: "?s = (start_script ?R fs)\<lparr>v_tzone := tz, v_maxlogs := mx, v_logline := ''1'', v_adminkey := ak, v_lang := lg\<rparr>"
    unfolding user_sends_def by (rule opened_log [where dev = dev and ls = old]) (fact assms)+
  have v: "v_key ?s = key" "v_cmd ?s = cmd" "v_arg ?s = arg" "v_ext ?s = ext" "v_access ?s = ''transfer''"
    "v_dev ?s = dev" "files ?s = fs" "v_logfile ?s = ?f" "v_maxlogs ?s = mx" "v_logline ?s = ''1''" "printed ?s = []"
    unfolding s using assms(2) by (simp_all add: user_sends_def query_def start_script_def or_empty_def get_or_post_def serves_def)
  have R: "r_fopen ?R" "r_flock ?R" "numeric_law ?R" "r_time ?R = r_time B" "r_date ?R = r_date B"
    using assms(2) by (simp_all add: user_sends_def query_def serves_def numeric_law_def)
  have "\<not> occurs (''unixtime='' @ dec_int (r_time B)) (last (?h # old) @ [LF])"
  proof -
    have "LF \<notin> set (dec_int (r_time B))"
      using assms(5) safe_no_sep by (simp add: request_ok_def value_ok_def)
    moreover have "last (?h # old) \<in> set (?h # old)" by (rule last_in_set) simp
    then have "\<not> occurs (''unixtime='' @ dec_int (r_time B)) (last (?h # old))"
      using assms(7) by (metis list_all_iff)
    ultimately show ?thesis by (simp add: occurs_break)
  qed
  then have rep: "\<not> repeated ?R (last (?h # old) @ [LF]) (line B)"
    unfolding line_def using repeated_same_second [OF assms(5) R(3)] by blast
  have put: "put_line_to_file ?R ?f (line B) ?s =
      (?s\<lparr>files := fs(?f := Some (stored (?h # old @ [line B])))\<rparr>, ''success'')"
    using put_stored [of ?s ?f ?h old "line B" ?R] assms(3-6) rep R v request_line_tidy [OF assms(5)]
    by (simp add: log_ok_def line_def)
  have tl: "php_trim (line B) = line B" using request_line_tidy [OF assms(5)] by (simp add: line_def tidy_def)
  have save: "save_request_to_file ?R ?f key cmd arg ext ?s =
      (?s\<lparr>files := fs(?f := Some (stored (?h # old @ [line B])))\<rparr>, ''success'')"
    unfolding save_request_to_file_def R request_line_text line_def [symmetric] tl put
    using assms(5) by (simp add: request_ok_def)
  let ?p = "print_wrapped (save_request_to_file ?R ?f key cmd arg ext ?s)"
  have p: "files ?p = fs(?f := Some (stored (?h # old @ [line B])))" "printed ?p = [wrapped dev ''success'']" "v_logline ?p = ''1''"
      "v_access ?p = ''transfer''"
    unfolding save using v by (simp_all add: print_wrapped_def show_output_def wrap_output_def wrapped_def)
  have "check_if_file_correct ?R ?f ?p = Some ?p"
  proof (rule check_stored)
    show "files ?p ?f = Some (stored (?h # (old @ [line B])))" using p by simp
  qed (use assms(3,5) p request_line_tidy [OF assms(5)] request_line_state [OF assms(5)] in \<open>simp_all add: log_ok_def line_def\<close>)
  then have "dispatch ?R ?s = Some (?p, True)"
    unfolding dispatch_def Let_def v by simp
  moreover have "\<not> is_setting (v_access ?p)" unfolding p by (simp add: is_setting_def)
  moreover have "r_post ?R ''guestkey'' = None" by (simp add: user_sends_def query_def)
  ultimately obtain s' more where "transponder ?R polls fs = Some s'" "files s' = files ?p" "printed s' = printed ?p @ more"
    by (rule after_dispatch)
  then show ?thesis unfolding p by auto
qed

text \<open>A request in the name of the lock ends behind the \<open>switch\<close>.\<close>

lemma lock_run:
  assumes "dispatch R (opened R fs) = Some (s, True)" "\<not> is_setting (v_access s)"
    and "v_key s = r_script R" "v_dev s = r_script R"
  shows "transponder R polls fs = Some s"
  using assms by (simp add: transponder_opened store_settings_def loose_eq_def)

lemma lock_asks_run:
  assumes "serves dev tz B" "log_ok tz mx ak lg (old @ [line])"
    and "fs (log_name dev) = Some (stored (header_line tz mx ak lg # old @ [line]))"
    and "list_all answered_line old" "\<not> answered_line line"
  shows "\<exists>s. transponder (lock_asks B dev) polls fs = Some s \<and> files s = fs \<and> printed s = [wrapped dev line]"
proof -
  let ?R = "lock_asks B dev" and ?h = "header_line tz mx ak lg"
  let ?s = "opened ?R fs" and ?f = "log_name dev"
  have s: "?s = (start_script ?R fs)\<lparr>v_tzone := tz, v_maxlogs := mx, v_logline := ''1'', v_adminkey := ak, v_lang := lg\<rparr>"
    unfolding lock_asks_def by (rule opened_log [where dev = dev and ls = "old @ [line]"]) (fact assms)+
  have v: "v_key ?s = dev" "v_dev ?s = dev" "v_access ?s = ''receive''" "v_logfile ?s = ?f" "files ?s = fs"
    "v_logline ?s = ''1''" "printed ?s = []"
    unfolding s using assms(1) by (simp_all add: lock_asks_def query_def start_script_def or_empty_def get_or_post_def serves_def)
  have tidy: "list_all tidy (?h # old @ [line])" using assms(2) by (simp add: log_ok_def)
  have get: "get_request_from_file ?R ?f ?s = line"
    by (rule get_request_stored [of _ _ ?h old]) (use assms(3-5) v tidy in \<open>simp_all add: loose_eq_def\<close>)
  let ?p = "print_wrapped (?s, line)"
  have p: "files ?p = fs" "printed ?p = [wrapped dev line]" "v_logline ?p = ''1''" "v_key ?p = dev" "v_dev ?p = dev"
      "v_access ?p = ''receive''"
    using v by (simp_all add: print_wrapped_def show_output_def wrap_output_def wrapped_def)
  have "check_if_file_correct ?R ?f ?p = Some ?p"
  proof (rule check_stored)
    show "files ?p ?f = Some (stored (?h # (old @ [line])))" using p assms(3) by simp
  qed (use assms(2) p in \<open>simp_all add: log_ok_def\<close>)
  then have "dispatch ?R ?s = Some (?p, True)"
    unfolding dispatch_def Let_def v get by simp
  then have "transponder ?R polls fs = Some ?p"
    by (rule lock_run) (use p assms(1) in \<open>simp_all add: is_setting_def serves_def lock_asks_def query_def\<close>)
  then show ?thesis using p by blast
qed

lemma lock_answers_run:
  assumes "serves dev tz B" "log_ok tz mx ak lg (old @ [line])"
    and "fs (log_name dev) = Some (stored (header_line tz mx ak lg # old @ [line]))"
    and "list_all answered_line old" "\<not> answered_line line" "line \<noteq> []"
    and "occurs (''key='' @ ukey) line" "occurs (''unixtime='' @ time) line" "LF \<notin> set ukey" "LF \<notin> set time"
    and "LF \<notin> set response" "date_ok (r_date B)"
  shows "\<exists>s. transponder (lock_answers B dev ukey time response) polls fs = Some s \<and>
    files s = fs(log_name dev := Some (stored (header_line tz mx ak lg # old @ [answer_line line response (r_date B)]))) \<and>
    printed s = [wrapped dev ''success'']"
proof -
  let ?R = "lock_answers B dev ukey time response" and ?h = "header_line tz mx ak lg"
  let ?s = "opened ?R fs" and ?f = "log_name dev"
  have s: "?s = (start_script ?R fs)\<lparr>v_tzone := tz, v_maxlogs := mx, v_logline := ''1'', v_adminkey := ak, v_lang := lg\<rparr>"
    unfolding lock_answers_def by (rule opened_log [where dev = dev and ls = "old @ [line]"]) (fact assms)+
  have v: "v_key ?s = dev" "v_dev ?s = dev" "v_access ?s = ''set_response''" "v_logfile ?s = ?f" "files ?s = fs"
    "v_logline ?s = ''1''" "printed ?s = []" "v_ukey ?s = ukey" "v_arg ?s = time" "v_ext ?s = response"
    unfolding s using assms(1) by (simp_all add: lock_answers_def query_def start_script_def or_empty_def get_or_post_def serves_def)
  have R: "r_fopen ?R" "r_flock ?R" "r_date ?R = r_date B"
    using assms(1) by (simp_all add: lock_answers_def query_def serves_def)
  have tidy: "list_all tidy (?h # old @ [line])" using assms(2) by (simp add: log_ok_def)
  then have new: "tidy (answer_line line response (r_date ?R))"
    using assms(6,11,12) R(3) by (intro answer_line_tidy) simp_all
  have set: "set_response_in_file ?R ?f ukey time response ?s =
      (?s\<lparr>files := fs(?f := Some (stored (?h # old @ [answer_line line response (r_date B)])))\<rparr>, ''success'')"
    using set_response_stored [of ?s ?f ?h old line ?R ukey time response] assms(3-10) v R tidy new
    by (simp add: loose_eq_def)
  let ?p = "print_wrapped (set_response_in_file ?R ?f ukey time response ?s)"
  have p: "files ?p = fs(?f := Some (stored (?h # old @ [answer_line line response (r_date B)])))"
      "printed ?p = [wrapped dev ''success'']" "v_key ?p = dev" "v_dev ?p = dev" "v_access ?p = ''set_response''"
    unfolding set using v by (simp_all add: print_wrapped_def show_output_def wrap_output_def wrapped_def)
  have "dispatch ?R ?s = Some (?p, True)"
    unfolding dispatch_def Let_def v by simp
  then have "transponder ?R polls fs = Some ?p"
    by (rule lock_run) (use p assms(1) in \<open>simp_all add: is_setting_def serves_def lock_answers_def query_def\<close>)
  then show ?thesis using p by blast
qed

lemma user_asks_run:
  assumes "serves dev tz B"
    and "log_ok tz mx ak lg (old @ [answer_line (request_line key cmd arg ext time date) response date2])"
    and "fs (log_name dev) = Some (stored (header_line tz mx ak lg #
           old @ [answer_line (request_line key cmd arg ext time date) response date2]))"
    and "list_all (\<lambda>l. \<not> occurs (''unixtime='' @ time) l) old"
    and "request_ok key cmd arg ext time date" "date_ok date2" "response \<noteq> []" "CHR ''='' \<notin> set response" "LF \<notin> set response"
  shows "\<exists>s more. transponder (user_asks B dev key time) polls fs = Some s \<and> files s = fs \<and>
    printed s = wrapped dev response # more"
proof -
  let ?R = "user_asks B dev key time" and ?h = "header_line tz mx ak lg"
  let ?s = "opened ?R fs" and ?f = "log_name dev"
  have s: "?s = (start_script ?R fs)\<lparr>v_tzone := tz, v_maxlogs := mx, v_logline := ''1'', v_adminkey := ak, v_lang := lg\<rparr>"
    unfolding user_asks_def
    by (rule opened_log [where dev = dev and ls = "old @ [answer_line (request_line key cmd arg ext time date) response date2]"])
      (fact assms)+
  have v: "v_key ?s = key" "v_dev ?s = dev" "v_access ?s = ''get_response''" "v_logfile ?s = ?f" "files ?s = fs"
    "v_logline ?s = ''1''" "printed ?s = []" "v_arg ?s = time"
    unfolding s using assms(1) by (simp_all add: user_asks_def query_def start_script_def or_empty_def get_or_post_def serves_def)
  have tidy: "list_all tidy (?h # old)" using assms(2) by (simp add: log_ok_def)
  have get: "get_response_from_file ''1'' ?f key time fs = response"
    by (rule get_response_stored) (fact tidy assms)+
  let ?p = "print_wrapped (?s, response)"
  have "dispatch ?R ?s = Some (?p, True)"
    unfolding dispatch_def Let_def v get by simp
  moreover have p: "files ?p = fs" "printed ?p = [wrapped dev response]" "v_access ?p = ''get_response''"
    using v by (simp_all add: print_wrapped_def show_output_def wrap_output_def wrapped_def)
  moreover have "\<not> is_setting (v_access ?p)" unfolding p by (simp add: is_setting_def)
  moreover have "r_post ?R ''guestkey'' = None" by (simp add: user_asks_def query_def)
  ultimately obtain s' more where "transponder ?R polls fs = Some s'" "files s' = files ?p" "printed s' = printed ?p @ more"
    by (metis after_dispatch)
  then show ?thesis unfolding p by auto
qed

lemma request_passes:
  fixes key cmd arg ext d
  defines "line B \<equiv> request_line key cmd arg ext (dec_int (r_time B)) (r_date B)"
  assumes "serves dev tz B1" "serves dev tz B2" "serves dev tz B3" "serves dev tz B4" "log_ok tz mx ak lg old"
    and "fs (log_name dev) = Some (stored (header_line tz mx ak lg # old))" "list_all answered_line old"
    and "request_ok key cmd arg ext (dec_int (r_time B1)) (r_date B1)" "int (length old) + 2 \<le> php_int mx"
    and "list_all (\<lambda>l. \<not> occurs (''unixtime='' @ dec_int (r_time B1)) l) (header_line tz mx ak lg # old)"
    and "date_ok (r_date B3)" "response \<noteq> []" "CHR ''='' \<notin> set response" "LF \<notin> set response"
  shows "\<exists>s1 s2 s3 s4 more1 more4.
    transponder (user_sends B1 dev key cmd arg ext) p1 fs = Some s1 \<and> printed s1 = wrapped dev ''success'' # more1 \<and>
    transponder (lock_asks B2 dev) p2 (files s1) = Some s2 \<and> printed s2 = [wrapped dev (line B1)] \<and>
    transponder (lock_answers B3 dev key (dec_int (r_time B1)) response) p3 (files s2) = Some s3 \<and>
      printed s3 = [wrapped dev ''success''] \<and>
    transponder (user_asks B4 dev key (dec_int (r_time B1))) p4 (files s3) = Some s4 \<and>
      printed s4 = wrapped dev response # more4"
proof -
  let ?h = "header_line tz mx ak lg" and ?t = "dec_int (r_time B1)" and ?f = "log_name dev"
  have l: "tidy (line B1)" "line_correct (line B1)" "\<not> answered_line (line B1)" "line B1 \<noteq> []"
      "occurs (''key='' @ key) (line B1)" "occurs (''unixtime='' @ ?t) (line B1)"
    unfolding line_def
    using request_line_tidy [OF assms(9)] request_line_state [OF assms(9)] request_line_occurs
      request_line_hd [of key cmd arg ext ?t "r_date B1"] by (metis list.distinct(1))+
  have ok: "LF \<notin> set key" "LF \<notin> set ?t" using assms(9) safe_no_sep by (simp_all add: request_ok_def value_ok_def)
  have log1: "log_ok tz mx ak lg (old @ [line B1])" using assms(6) l by (simp add: log_ok_def)
  obtain s1 m1 where s1: "transponder (user_sends B1 dev key cmd arg ext) p1 fs = Some s1"
      "files s1 = fs(?f := Some (stored (?h # old @ [line B1])))" "printed s1 = wrapped dev ''success'' # m1"
    using user_sends_run [where fs = fs and polls = p1, OF assms(2,6,7,9,10,11)] unfolding line_def by blast
  then have f1: "files s1 ?f = Some (stored (?h # old @ [line B1]))" by simp
  obtain s2 where s2: "transponder (lock_asks B2 dev) p2 (files s1) = Some s2" "files s2 = files s1"
      "printed s2 = [wrapped dev (line B1)]"
    using lock_asks_run [where fs = "files s1" and polls = p2, OF assms(3) log1 f1 assms(8) l(3)] by blast
  have f2: "files s2 ?f = Some (stored (?h # old @ [line B1]))" using s2(2) f1 by simp
  let ?new = "answer_line (line B1) response (r_date B3)"
  obtain s3 where s3: "transponder (lock_answers B3 dev key ?t response) p3 (files s2) = Some s3"
      "files s3 = (files s2)(?f := Some (stored (?h # old @ [?new])))" "printed s3 = [wrapped dev ''success'']"
    using lock_answers_run [where fs = "files s2" and polls = p3, OF assms(4) log1 f2 assms(8) l(3-6) ok assms(15,12)] by blast
  have f3: "files s3 ?f = Some (stored (?h # old @ [?new]))" using s3(2) by simp
  have "line_correct ?new"
    using l(2) occurs_prefix_of [of _ "line B1"] by (simp add: line_correct_def answer_line_def)
  then have log3: "log_ok tz mx ak lg (old @ [?new])"
    using assms(6) answer_line_tidy [OF l(1,4) assms(15,12)] by (simp add: log_ok_def)
  have "list_all (\<lambda>l. \<not> occurs (''unixtime='' @ ?t) l) old" using assms(11) by simp
  from user_asks_run [where fs = "files s3" and polls = p4, OF assms(5) log3 [unfolded line_def] f3 [unfolded line_def] this assms(9,12-15)]
  obtain s4 m4 where "transponder (user_asks B4 dev key ?t) p4 (files s3) = Some s4" "printed s4 = wrapped dev response # m4"
    by blast
  then show ?thesis using s1 s2 s3 by blast
qed

section \<open>Who may change the settings\<close>

text \<open>
  \<open>set_adminkey\<close> assigns \<open>$adminkey\<close> before the key of the request is compared with it.
\<close>

definition visitor_claims :: "request \<Rightarrow> string \<Rightarrow> string \<Rightarrow> request" where
  "visitor_claims B dev key = query B [(''access'', ''set_adminkey''), (''dev'', dev), (''key'', key), (''arg'', key)]"

definition visitor_deletes :: "request \<Rightarrow> string \<Rightarrow> string \<Rightarrow> string \<Rightarrow> request" where
  "visitor_deletes B dev key f = query B [(''access'', ''delete_file''), (''dev'', dev), (''key'', key), (''arg'', f)]"

lemma rewrite_header:
  assumes "files s f = Some (stored (h # ls))" "list_all tidy (h # ls)" "tidy h'" "r_fopen R" "r_flock R"
  shows "replace_line_in_file R f 0 h' s = (s\<lparr>files := (files s)(f := Some (stored (h' # ls)))\<rparr>, ''success'')"
proof -
  have "written_lines (h' # map (\<lambda>l. l @ [LF]) ls) = stored (h' # ls)"
    using assms(2,3) written_stored [of ls] by (simp add: written_lines_def stored_def tidy_def)
  then show ?thesis
    using assms(1,4,5) file_lines_stored [OF assms(2)]
    by (simp add: replace_line_in_file_def ensure_file_def lines_of_def or_empty_def rewrite_file_def)
qed

lemma claim_run:
  assumes "serves dev tz B" "log_ok tz mx ak lg ls" "log_ok tz mx key lg ls"
    and "fs (log_name dev) = Some (stored (header_line tz mx ak lg # ls))"
  shows "\<exists>s. transponder (visitor_claims B any key) polls fs = Some s \<and>
    files s = fs(log_name dev := Some (stored (header_line tz mx key lg # ls)))"
proof -
  let ?R = "visitor_claims B any key" and ?f = "log_name dev" and ?h = "header_line tz mx key lg"
  let ?s = "opened ?R fs"
  let ?c = "?s\<lparr>v_adminkey := key\<rparr>" and ?w = "?s\<lparr>v_adminkey := key, files := fs(?f := Some (stored (?h # ls)))\<rparr>"
  have s: "?s = (start_script ?R fs)\<lparr>v_tzone := tz, v_maxlogs := mx, v_logline := ''1'', v_adminkey := ak, v_lang := lg\<rparr>"
    unfolding visitor_claims_def by (rule opened_log [where dev = dev and ls = ls]) (fact assms)+
  have v: "v_key ?s = key" "v_dev ?s = any" "v_access ?s = ''set_adminkey''" "v_logfile ?s = ?f" "files ?s = fs"
    "v_logline ?s = ''1''" "v_arg ?s = key" "v_tzone ?s = tz" "v_maxlogs ?s = mx" "v_lang ?s = lg"
    unfolding s using assms(1) by (simp_all add: visitor_claims_def query_def start_script_def or_empty_def get_or_post_def serves_def)
  have R: "r_fopen ?R" "r_flock ?R" "r_post ?R n = None" for n
    using assms(1) by (simp_all add: visitor_claims_def query_def serves_def)
  have d: "dispatch ?R ?s = Some (?c, True)"
    unfolding dispatch_def Let_def v by simp
  have line: "settings_line ?c = ?h" using v by (simp add: settings_line_def header_line_def)
  have w: "replace_line_in_file ?R ?f 0 ?h ?c = (?w, ''success'')"
    using rewrite_header [of ?c ?f "header_line tz mx ak lg" ls ?h ?R] assms(2-4) R v by (simp add: log_ok_def)
  have "v_logfile ?c = ?f" "v_access ?c = ''set_adminkey''" "\<not> stranger ?R ?c"
    using v by (simp_all add: stranger_def loose_eq_def)
  then have "\<exists>s'. store_settings ?R ?c = (s', True) \<and> files s' = files ?w"
    using w line R by (simp add: store_settings_def is_setting_def print_wrapped_def show_output_def)
  then obtain s' where s': "store_settings ?R ?c = (s', True)" "files s' = files ?w" by blast
  have "\<exists>s''. transponder ?R polls fs = Some s'' \<and> files s'' = files s'"
    using d s'(1) R by (simp add: transponder_opened guest_form_def show_output_def)
  then show ?thesis using s'(2) by auto
qed

lemma delete_run:
  assumes "serves dev tz B" "log_ok tz mx key lg ls"
    and "fs (log_name dev) = Some (stored (header_line tz mx key lg # ls))"
  shows "\<exists>s. transponder (visitor_deletes B any key f) polls fs = Some s \<and> files s = fs(f := None)"
proof -
  let ?R = "visitor_deletes B any key f"
  let ?s = "opened ?R fs"
  have s: "?s = (start_script ?R fs)\<lparr>v_tzone := tz, v_maxlogs := mx, v_logline := ''1'', v_adminkey := key, v_lang := lg\<rparr>"
    unfolding visitor_deletes_def by (rule opened_log [where dev = dev and ls = ls]) (fact assms)+
  have v: "v_key ?s = key" "v_access ?s = ''delete_file''" "files ?s = fs" "v_arg ?s = f" "v_adminkey ?s = key"
    unfolding s using assms(1) by (simp_all add: visitor_deletes_def query_def start_script_def or_empty_def get_or_post_def serves_def)
  let ?p = "print_wrapped (unlink f ?s, ''success'')"
  have p: "files ?p = fs(f := None)" "v_access ?p = ''delete_file''"
    using v by (simp_all add: print_wrapped_def show_output_def unlink_def)
  have "\<not> stranger ?R ?s" using v by (simp add: stranger_def loose_eq_def)
  then have "dispatch ?R ?s = Some (?p, True)" unfolding dispatch_def Let_def v by simp
  moreover have "\<not> is_setting (v_access ?p)" unfolding p by (simp add: is_setting_def)
  moreover have "r_post ?R ''guestkey'' = None" by (simp add: visitor_deletes_def query_def)
  ultimately obtain s' more where "transponder ?R polls fs = Some s'" "files s' = files ?p" "printed s' = printed ?p @ more"
    by (rule after_dispatch)
  then show ?thesis unfolding p by auto
qed

text \<open>A request for deletion never deletes: the name of the file is undefined.\<close>

lemma delete_request_fails:
  assumes "fs [] = None" "v_access (opened R fs) = ''delete_request''"
    and "v_key (opened R fs) = v_dev (opened R fs)" "files (opened R fs) = fs"
  shows "dispatch R (opened R fs) = Some (print_wrapped (opened R fs, ''error''), True)"
  using assms by (simp add: dispatch_def delete_request_in_file_def loose_eq_def)

section \<open>Properties\<close>

text \<open>A server with a fresh log, for the witnesses.\<close>

definition sample_server :: "int \<Rightarrow> request" where
  "sample_server t = \<lparr>r_get = (\<lambda>n. None), r_post = (\<lambda>n. None), r_server = (\<lambda>n. None), r_script = ''lock'',
     r_time = t, r_date = ''2021-02-12 20:42:12 UTC'', r_tz = (\<lambda>z. True), r_numeq = (\<lambda>a b. False),
     r_fopen = True, r_flock = True\<rparr>"

definition sample_files :: files where
  "sample_files = [log_name ''lock'' \<mapsto> stored [header_line ''UTC'' ''32'' ''inferno'' ''en''], ''index.php'' \<mapsto> ''<?php ?>'']"

lemma sample_server_serves: "serves ''lock'' ''UTC'' (sample_server t)"
  by (simp add: serves_def sample_server_def numeric_law_def)

lemma sample_log: "log_ok ''UTC'' ''32'' ''inferno'' ''en'' []" "log_ok ''UTC'' ''32'' ''mine'' ''en'' []"
  by (simp_all add: log_ok_def setting_ok_def tidy_def header_line_def php_trim_def php_space_def)

lemma sample_date: "date_ok (r_date (sample_server t))"
  by (simp add: date_ok_def sample_server_def safe_def php_space_def)

lemma dec_int_1700: "dec_int 1700 = ''1700''"
  by code_simp

lemma sample_request: "request_ok ''guest'' ''open'' [] [] (dec_int (r_time (sample_server 1700))) (r_date (sample_server 1700))"
  using sample_date
  by (simp add: request_ok_def value_ok_def safe_def trim_def is_space_def sample_server_def dec_int_1700)

lemma php_int_32: "php_int ''32'' = 32"
  by (simp add: php_int_def scan_number_def cstr_def is_space_def is_digit_def digits_val_def digit_val_def)

text \<open>A command that a user posts is queued by the transponder, handed to the lock that asks next exactly
  as its key, command, value, extension and time were given, and the answer the lock posts for it is
  what the user reads: for every key and command without the separators of the log, as long as the
  log has room and holds no other request of that second.\<close>

lemma transponder_passes_command_and_answer:
  assumes "serves dev tz B1" "serves dev tz B2" "serves dev tz B3" "serves dev tz B4" "log_ok tz mx ak lg old"
    and "fs (log_name dev) = Some (stored (header_line tz mx ak lg # old))" "list_all answered_line old"
    and "request_ok key cmd arg ext (dec_int (r_time B1)) (r_date B1)" "int (length old) + 2 \<le> php_int mx"
    and "list_all (\<lambda>l. \<not> occurs (''unixtime='' @ dec_int (r_time B1)) l) (header_line tz mx ak lg # old)"
    and "date_ok (r_date B3)" "response \<noteq> []" "CHR ''='' \<notin> set response" "LF \<notin> set response"
  shows "\<exists>s1 s2 s3 s4 more1 more4 line.
    transponder (user_sends B1 dev key cmd arg ext) p1 fs = Some s1 \<and> printed s1 = wrapped dev ''success'' # more1 \<and>
    transponder (lock_asks B2 dev) p2 (files s1) = Some s2 \<and> printed s2 = [wrapped dev line] \<and>
    read_command (From_remote line) d = ((no_command d)\<lparr>p_cmd := cmd, p_key := key, p_argv := arg, p_ext := ext\<rparr>, None) \<and>
    argval line ''unixtime'' = dec_int (r_time B1) \<and>
    transponder (lock_answers B3 dev key (dec_int (r_time B1)) response) p3 (files s2) = Some s3 \<and>
      printed s3 = [wrapped dev ''success''] \<and>
    transponder (user_asks B4 dev key (dec_int (r_time B1))) p4 (files s3) = Some s4 \<and>
      printed s4 = wrapped dev response # more4"
  using request_passes [where fs = fs, OF assms] request_read [OF assms(8)] request_argval(5) [OF assms(8)] by blast

text \<open>Anyone may become the administrator of a transponder: a request that sets the administrator's key to
  the key it gives is carried out, and with that key the next request deletes any file the script
  can reach.\<close>

lemma visitor_becomes_administrator:
  assumes "serves dev tz B1" "serves dev tz B2" "log_ok tz mx ak lg ls" "log_ok tz mx key lg ls"
    and "fs (log_name dev) = Some (stored (header_line tz mx ak lg # ls))"
  shows "\<exists>s1 s2. transponder (visitor_claims B1 any key) p1 fs = Some s1 \<and>
      files s1 = fs(log_name dev := Some (stored (header_line tz mx key lg # ls))) \<and>
    transponder (visitor_deletes B2 any key f) p2 (files s1) = Some s2 \<and> files s2 f = None"
proof -
  obtain s1 where s1: "transponder (visitor_claims B1 any key) p1 fs = Some s1"
      "files s1 = fs(log_name dev := Some (stored (header_line tz mx key lg # ls)))"
    using claim_run [where fs = fs, OF assms(1,3-5)] by blast
  then have "files s1 (log_name dev) = Some (stored (header_line tz mx key lg # ls))" by simp
  from delete_run [where fs = "files s1", OF assms(2,4) this] s1 show ?thesis by fastforce
qed

end
