(* ===== verification/Remote_Facts.thy ===== *)
theory Remote_Facts
  imports Remote_Client Transponder_Facts Command_Facts
begin

text \<open>
  What the lock reads from the transponder and what becomes of a command it is given: the text
  between the marks of the page, the freshness test, and the way of a command from a user's page
  through the script and the lock back to the user.
\<close>

section \<open>Reading a page\<close>

text \<open>A page as a web server sends it: the lines of its head, an empty line, the body.\<close>

definition http_page :: "string list \<Rightarrow> string \<Rightarrow> bytes" where
  "http_page head body = concat (map (\<lambda>h. h @ [CR, LF]) head) @ [CR, LF] @ body"

definition plain_text :: "string \<Rightarrow> bool" where
  "plain_text t \<longleftrightarrow> CR \<notin> set t \<and> nul \<notin> set t \<and> CHR ''<'' \<notin> set t"

definition head_ok :: "string list \<Rightarrow> bool" where
  "head_ok head \<longleftrightarrow> list_all (\<lambda>h. plain_text h \<and> \<not> error_line (LF # h) \<and> \<not> error_line h) head \<and> head \<noteq> []"

lemma response_lines_cons: "CR \<notin> set l \<Longrightarrow> response_lines (l @ CR # r) = l # response_lines r"
  by (subst response_lines.simps) (simp add: takeWhile_append dropWhile_append dropWhile_eq_Nil_conv)

lemma response_lines_Nil: "response_lines [] = []"
  by (simp add: response_lines.simps)

lemma response_lines_last: "CR \<notin> set l \<Longrightarrow> l \<noteq> [] \<Longrightarrow> response_lines l = [l]"
proof -
  assume l: "CR \<notin> set l" "l \<noteq> []"
  then have t: "takeWhile (\<lambda>c. c \<noteq> CR) l = l" by (intro takeWhile_all) auto
  have "\<forall>c \<in> set l. c \<noteq> CR" using l(1) by auto
  then have "dropWhile (\<lambda>c. c \<noteq> CR) l = []" by (simp only: dropWhile_eq_Nil_conv simp_thms)
  then have d: "drop 1 (dropWhile (\<lambda>c. c \<noteq> CR) l) = []" by (simp only: drop_Nil)
  show ?thesis
    by (subst response_lines.simps) (simp only: l(2) t d response_lines_Nil if_False simp_thms)
qed

text \<open>Every line but the first begins with the line feed that ended the line before.\<close>

lemma response_lines_rest:
  assumes "list_all plain_text head" "CR \<notin> set body"
  shows "response_lines (LF # concat (map (\<lambda>h. h @ [CR, LF]) head) @ [CR, LF] @ body) =
    map (Cons LF) head @ [[LF], LF # body]"
  using assms
proof (induction head)
  case Nil
  have "response_lines ([LF] @ CR # LF # body) = [LF] # response_lines (LF # body)"
    by (rule response_lines_cons) simp
  moreover have "response_lines (LF # body) = [LF # body]"
    using Nil by (intro response_lines_last) simp_all
  ultimately show ?case by simp
next
  case (Cons h head)
  then have "response_lines ((LF # h) @ CR # (LF # concat (map (\<lambda>h. h @ [CR, LF]) head) @ [CR, LF] @ body)) =
      (LF # h) # response_lines (LF # concat (map (\<lambda>h. h @ [CR, LF]) head) @ [CR, LF] @ body)"
    by (intro response_lines_cons) (simp add: plain_text_def)
  with Cons show ?case by simp
qed

lemma response_lines_page:
  assumes "list_all plain_text (h # head)" "CR \<notin> set body"
  shows "response_lines (http_page (h # head) body) = h # map (Cons LF) head @ [[LF], LF # body]"
proof -
  have "response_lines (h @ CR # (LF # concat (map (\<lambda>h. h @ [CR, LF]) head) @ [CR, LF] @ body)) =
      h # response_lines (LF # concat (map (\<lambda>h. h @ [CR, LF]) head) @ [CR, LF] @ body)"
    using assms(1) by (intro response_lines_cons) (simp add: plain_text_def)
  then show ?thesis using response_lines_rest [of head body] assms by (simp add: http_page_def)
qed

definition transponder_page :: "SWdata \<Rightarrow> string \<Rightarrow> string" where
  "transponder_page d t = start_mark d @ t @ end_mark d"

text \<open>Lines without an opening angle bracket are passed over.\<close>

lemma index_of_missing: "nul \<notin> set s \<Longrightarrow> c \<notin> set s \<Longrightarrow> nul \<notin> set (c # p) \<Longrightarrow> index_of s (c # p) 0 = None"
  using index_of_0 [of s "c # p"] by (simp add: strstr_char_notin)

definition waiting :: "string \<Rightarrow> bool" where
  "waiting t \<longleftrightarrow> nul \<notin> set t \<and> CHR ''<'' \<notin> set t"

lemma marks: "start_mark d = CHR ''<'' # tl (start_mark d)" "end_mark d = CHR ''<'' # tl (end_mark d)"
  "nul \<notin> set (start_mark d)" "nul \<notin> set (end_mark d)"
  by (simp_all add: start_mark_def end_mark_def)

lemma take_line_head:
  assumes "waiting sres" "waiting line"
  shows "take_line d ''transponder'' line (sres, None, None) = (sres @ line, None, None)"
proof -
  have "index_of line (start_mark d) 0 = None" "index_of (sres @ line) (end_mark d) 0 = None"
    using assms marks(3,4) [of d] index_of_missing [of _ "CHR ''<''"]
    by (subst marks; simp add: waiting_def start_mark_def end_mark_def)+
  then show ?thesis by (simp add: take_line_def)
qed

lemma strstr_before: "c \<notin> set s \<Longrightarrow> strstr (s @ (c # p) @ t) (c # p) = Some (length s)"
  by (simp add: strstr_skip)

lemma take_line_page:
  assumes "waiting t" "nul \<notin> set tail" "waiting pre"
  shows "\<exists>b e. take_line d ''transponder'' (pre @ transponder_page d t @ tail) (sres, None, None) = (t, Some b, Some e)"
proof -
  let ?line = "pre @ transponder_page d t @ tail"
  have n: "nul \<notin> set ?line" using assms marks(3,4) [of d] by (simp add: waiting_def transponder_page_def)
  have "strstr (pre @ start_mark d @ (t @ end_mark d @ tail)) (start_mark d) = Some (length pre)"
    using assms(3) strstr_before [of "CHR ''<''" pre "tl (start_mark d)"] marks(1) [of d] by (metis waiting_def)
  then have b: "index_of ?line (start_mark d) 0 = Some (length pre)"
    using n marks(3) [of d] by (subst index_of_0) (simp_all add: transponder_page_def start_mark_def)
  let ?s = "t @ end_mark d @ tail"
  have s: "substring_from ?line (length pre + length (start_mark d)) = ?s"
    by (simp add: substring_from_drop transponder_page_def)
  have "strstr (t @ end_mark d @ (tail @ ?line)) (end_mark d) = Some (length t)"
    using assms(1) strstr_before [of "CHR ''<''" t "tl (end_mark d)"] marks(2) [of d] by (metis waiting_def)
  then have e: "index_of (?s @ ?line) (end_mark d) 0 = Some (length t)"
    using n assms marks(4) [of d] by (subst index_of_0) (simp_all add: waiting_def end_mark_def)
  have "substring (?s @ ?line) 0 (length t) = t" by (simp add: substring_0)
  then show ?thesis
    using b e s by (simp add: take_line_def Let_def)
qed

text \<open>Serving no other client meanwhile, the lock only resets its watchdog while it reads.\<close>

definition quiet :: "'w surroundings \<Rightarrow> bool" where
  "quiet L \<longleftrightarrow> l_handleClient L = (\<lambda>d. d)"

definition calm :: "'w remote \<Rightarrow> 'w remote" where
  "calm s = on_lock (modAntilock 0) s"

lemma calm_simps [simp]: "calm (calm s) = calm s" "settings (calm s) = settings s" "ch_mod (calm s) = ch_mod s"
  "secure_client (calm s) = secure_client s" "plain_client (calm s) = plain_client s"
  by (simp_all add: calm_def on_lock_def modAntilock_def)

lemma on_lock_id [simp]: "on_lock (\<lambda>d. d) s = s"
  by (simp add: on_lock_def)

lemma read_answer_line:
  assumes "quiet L" "\<not> ch_mod s" "\<not> error_line line"
  shows "read_answer L action (line # lines) acc s = read_answer L action lines (take_line (settings s) action line acc) (calm s)"
proof -
  have "keep_mode (calm s) = calm s" using assms(2) by (simp add: keep_mode_def)
  then show ?thesis
    using assms(1,3) calm_simps(1) [of s] by (simp add: quiet_def calm_def [symmetric] Let_def)
qed

declare read_answer.simps(2) [simp del]

lemma read_answer_head:
  assumes "quiet L" "\<not> ch_mod s" "list_all (\<lambda>l. waiting l \<and> \<not> error_line l) ls" "waiting sres" "s = calm s"
  shows "read_answer L ''transponder'' (ls @ lines) (sres, None, None) s =
    read_answer L ''transponder'' lines (sres @ concat ls, None, None) s"
  using assms(3,4)
proof (induction ls arbitrary: sres)
  case (Cons l ls)
  then have "waiting (sres @ l)" by (simp add: waiting_def)
  with Cons show ?case
    using read_answer_line [OF assms(1,2), of l] assms(5) by (simp add: take_line_head)
qed simp

lemma read_page:
  assumes "quiet L" "\<not> ch_mod s" "secure_client s \<or> plain_client s" "head_ok head" "waiting t"
    and "CR \<notin> set body" "nul \<notin> set body" "body = transponder_page (settings s) t @ tail" "\<not> error_line (LF # body)"
  shows "read_answer L ''transponder'' (response_lines (http_page head body)) ([], None, None) s = returns t (calm s)"
proof -
  obtain h hs where head: "head = h # hs" using assms(4) by (cases head) (auto simp: head_ok_def)
  let ?d = "settings s" and ?ls = "h # map (Cons LF) hs @ [[LF]]"
  have ls: "response_lines (http_page head body) = ?ls @ [LF # body]"
    using response_lines_page [of h hs body] assms(4,6) by (simp add: head head_ok_def list_all_iff)
  have "\<not> error_line [LF]"
    by (simp add: error_line_def contains_def to_lower_def lower_char_def index_of_def cstr_def)
  then have w: "list_all (\<lambda>l. waiting l \<and> \<not> error_line l) ?ls"
    using assms(4) by (auto simp: head head_ok_def plain_text_def waiting_def list_all_iff)
  have "nul \<notin> set tail" using assms(7,8) by simp
  moreover have "waiting [LF]" by (simp add: waiting_def)
  ultimately obtain b e where t: "take_line ?d ''transponder'' (LF # body) (concat ?ls, None, None) = (t, Some b, Some e)"
    using take_line_page [of t tail "[LF]" ?d] assms(5,8) by fastforce
  have c: "waiting h" using w by simp
  have "read_answer L ''transponder'' (?ls @ [LF # body]) ([], None, None) s =
      read_answer L ''transponder'' ((map (Cons LF) hs @ [[LF]]) @ [LF # body]) (h, None, None) (calm s)"
    using read_answer_line [OF assms(1,2), of h] w take_line_head [of "[]" h ?d] by (simp add: waiting_def)
  also have "\<dots> = read_answer L ''transponder'' [LF # body] (h @ concat (map (Cons LF) hs @ [[LF]]), None, None) (calm s)"
    by (rule read_answer_head) (use assms(1,2) w c in simp_all)
  also have "\<dots> = read_answer L ''transponder'' [] (t, Some b, Some e) (calm s)"
    using read_answer_line [OF assms(1), of "calm s" "LF # body"] assms(2,9) t by simp
  finally show ?thesis
    unfolding ls using assms(3) by (simp add: client_stop_def returns_def)
qed

section \<open>A request that finds the network in order\<close>

definition quiet_net :: "bytes \<Rightarrow> net" where
  "quiet_net page = \<lparr>n_status = [WL_CONNECTED, WL_CONNECTED], n_wifi_connect = 0, n_connect = [True],
     n_available = [(True, True)], n_response = page\<rparr>"

text \<open>The lock without its watchdog and the light of its internet client.\<close>

definition idle :: "device \<Rightarrow> device" where
  "idle d = d\<lparr>antilock := 0, ledState1 := False, ledTimeMs1 := 0\<rparr>"

definition asked :: "'w \<Rightarrow> 'w remote \<Rightarrow> 'w remote \<Rightarrow> bool" where
  "asked w s s' \<longleftrightarrow> world s' = w \<and> idle (lock s') = idle (lock s) \<and> \<not> ch_mod s' \<and>
     plain_client s' = plain_client s \<and> secure_client s' = secure_client s \<and>
     localUnixtime s' = localUnixtime s \<and> cl_delay s' = cl_delay s \<and> remoteTime s' = remoteTime s \<and>
     refresh_ms s' = refresh_ms s \<and> unx_ms s' = unx_ms s \<and> unx_summ s' = unx_summ s"

lemma millis_simps [simp]:
  "lock (snd (millis s)) = lock s" "world (snd (millis s)) = world s" "plain_client (snd (millis s)) = plain_client s"
  "secure_client (snd (millis s)) = secure_client s" "ch_mod (snd (millis s)) = ch_mod s"
  "localUnixtime (snd (millis s)) = localUnixtime s" "cl_delay (snd (millis s)) = cl_delay s"
  "remoteTime (snd (millis s)) = remoteTime s" "refresh_ms (snd (millis s)) = refresh_ms s"
  "unx_ms (snd (millis s)) = unx_ms s" "unx_summ (snd (millis s)) = unx_summ s" "cl_err (snd (millis s)) = cl_err s"
  by (simp_all add: millis_def split: list.split)

lemma on_lock_simps [simp]:
  "lock (on_lock f s) = f (lock s)" "world (on_lock f s) = world s" "plain_client (on_lock f s) = plain_client s"
  "secure_client (on_lock f s) = secure_client s" "ch_mod (on_lock f s) = ch_mod s"
  "localUnixtime (on_lock f s) = localUnixtime s" "cl_delay (on_lock f s) = cl_delay s"
  "remoteTime (on_lock f s) = remoteTime s" "refresh_ms (on_lock f s) = refresh_ms s"
  "unx_ms (on_lock f s) = unx_ms s" "unx_summ (on_lock f s) = unx_summ s" "cl_err (on_lock f s) = cl_err s"
  by (simp_all add: on_lock_def)

lemma idle_simps [simp]: "idle (modAntilock v d) = idle d" "idle (d\<lparr>ledState1 := b\<rparr>) = idle d"
  "idle (d\<lparr>ledTimeMs1 := t\<rparr>) = idle d" "p_data (d\<lparr>ledState1 := b\<rparr>) = p_data d"
  by (simp_all add: idle_def modAntilock_def)

lemma client_request_page:
  assumes "quiet L" "\<not> ch_mod s" "secure_client s \<or> plain_client s" "host \<noteq> [] \<or> ip \<noteq> 0"
    and "l_net L \<lparr>t_secure = secure_client s, t_host = host, t_ip = ip, t_port = port\<rparr> (cstr url) (world s) =
      (quiet_net (http_page head body), w)"
    and "head_ok head" "waiting t" "CR \<notin> set body" "nul \<notin> set body" "body = transponder_page (settings s) t @ tail"
    and "\<not> error_line (LF # body)"
  shows "\<exists>s'. client_request L host url ip port ''transponder'' s = (s', Some (Return t)) \<and> asked w s s'"
proof -
  have conn: "wait_ap L (tl (n_status (quiet_net p))) x = returns True x" for p x by (simp add: quiet_net_def)
  have up: "n_status (quiet_net p) \<noteq> [] \<and> hd (n_status (quiet_net p)) = WL_CONNECTED" for p by (simp add: quiet_net_def)
  have ans: "wait_answer L st (n_available (quiet_net p)) x = returns True x" for p st x by (simp add: quiet_net_def)
  have ctd: "connect_loop L st (n_connect (quiet_net p)) x = returns True x" if "secure_client x \<or> plain_client x" for p st x
    using that by (simp add: quiet_net_def)
  have page: "n_response (quiet_net p) = p" for p by (simp add: quiet_net_def)
  have read: "read_answer L ''transponder'' (response_lines (http_page head body)) ([], None, None) x = returns t (calm x)"
    if "settings x = settings s" "\<not> ch_mod x" "secure_client x \<or> plain_client x" for x
    using that assms by (intro read_page [where tail = tail]) simp_all
  have nn: "host = [] \<and> ip = 0 \<longleftrightarrow> False" using assms(4) by simp
  show ?thesis
    unfolding client_request_def nn Let_def assms(5) prod.case using up conn ans ctd read page assms(2,3)
    by (simp add: returns_def case_prod_beta asked_def calm_def)
qed

section \<open>A command from the transponder\<close>

text \<open>The lock is connected to a transponder of its version and its next poll is due.\<close>

definition poll_ready :: "'w remote \<Rightarrow> bool" where
  "poll_ready s \<longleftrightarrow> \<not> OTA_enabled (lock s) \<and> \<not> has_flag (settings s) FNOREMOTE \<and> connected (lock s) \<and>
     transponder_version (lock s) = ACTUAL_TRANSPONDER_VERSION \<and> cl_delay s \<le> 0 \<and> \<not> ch_mod s \<and>
     (secure_client s \<or> plain_client s) \<and> remote_host (settings s) \<noteq> [] \<and>
     \<not> fst (millis s) \<le> remoteTime s +
        word_of_int (if 1000 \<le> EremoteIntervalMs (settings s) then EremoteIntervalMs (settings s) else 1000)"

lemma poll_command:
  assumes "poll_ready s" "ask_transponder L ''receive'' [] [] [] (snd (millis s)) = (s1, Some (Return line))"
    and "\<not> broken_script line" "line \<noteq> ''empty''" "argval line ''unixtime'' \<noteq> []"
  shows "RequestTransponder L [] s = answer_command L line s1"
proof -
  have b: "OTA_enabled (lock s) = False" "has_flag (settings s) FNOREMOTE = False" "connected (lock s) = True"
    "(transponder_version (lock s) \<noteq> ACTUAL_TRANSPONDER_VERSION) = False" "(0 < cl_delay s) = False"
    "(fst (millis s) \<le> remoteTime s +
        word_of_int (if 1000 \<le> EremoteIntervalMs (settings s) then EremoteIntervalMs (settings s) else 1000)) = False"
    using assms(1) by (simp_all add: poll_ready_def)
  show ?thesis
    unfolding RequestTransponder_def Let_def case_prod_beta millis_simps b
    using assms(2-5) by simp
qed

lemma idle_data: "idle d = idle e \<Longrightarrow> p_data d = p_data e \<and> relayState d = relayState e \<and> interval_10ms d = interval_10ms e"
proof -
  assume "idle d = idle e"
  then have "p_data (idle d) = p_data (idle e)" "relayState (idle d) = relayState (idle e)"
    "interval_10ms (idle d) = interval_10ms (idle e)" by simp_all
  then show ?thesis by (simp add: idle_def)
qed

text \<open>A page whose text the lock takes as it is.\<close>

definition harmless :: "SWdata \<Rightarrow> string \<Rightarrow> bool" where
  "harmless d t \<longleftrightarrow> waiting t \<and> CR \<notin> set (transponder_page d t) \<and> nul \<notin> set (transponder_page d t) \<and>
     \<not> error_line (LF # transponder_page d t)"

text \<open>
  The law of the web server: a request with the given URL is answered by what a run of the script
  prints, and the files are those the run leaves.
\<close>

definition answers_with :: "files surroundings \<Rightarrow> string \<Rightarrow> request \<Rightarrow> bool" where
  "answers_with L url R \<longleftrightarrow>
     (\<forall>tgt w s page. transponder R [] w = Some s \<longrightarrow> printed s = [Printed page] \<longrightarrow>
        (\<exists>head. head_ok head \<and> l_net L tgt (cstr url) w = (quiet_net (http_page head page), files s)))"

lemma ask_page:
  assumes "quiet L" "\<not> ch_mod s" "secure_client s \<or> plain_client s" "remote_host (settings s) \<noteq> []"
    and "answers_with L (request_url (settings s) req ukey arg ext True) R" "transponder R [] (world s) = Some u"
    and "printed u = [wrapped (device_name (settings s)) t]" "harmless (settings s) t"
  shows "\<exists>s'. ask_transponder L req ukey arg ext s = (s', Some (Return t)) \<and> asked (files u) s s'"
proof -
  let ?d = "settings s"
  have page: "printed u = [Printed (transponder_page ?d t)]"
    using assms(7) by (simp add: wrapped_def transponder_page_def start_mark_def end_mark_def)
  let ?tgt = "\<lparr>t_secure = secure_client s, t_host = remote_host ?d, t_ip = l_ip_address L, t_port = EremotePort ?d\<rparr>"
  obtain head where head: "head_ok head"
      "l_net L ?tgt (cstr (request_url ?d req ukey arg ext True)) (world s) =
        (quiet_net (http_page head (transponder_page ?d t)), files u)"
    using assms(5,6) page unfolding answers_with_def by blast
  have "\<exists>s'. client_request L (remote_host ?d) (request_url ?d req ukey arg ext True) (l_ip_address L) (EremotePort ?d)
      ''transponder'' (s\<lparr>cl_err := 0\<rparr>) = (s', Some (Return t)) \<and> asked (files u) (s\<lparr>cl_err := 0\<rparr>) s'"
    using assms(1-4,8) head
    by (intro client_request_page [where head = head and body = "transponder_page ?d t" and tail = "[]"]) (simp_all add: harmless_def)
  then show ?thesis
    by (simp add: request_on_transponder_def Let_def asked_def)
qed

section \<open>Opening the lock\<close>

definition verdict :: "SWdata \<Rightarrow> string \<Rightarrow> string" where
  "verdict d key = (if Ekeys d = 0 then ''ISMASTER'' else checkKey d key)"

definition accepted :: "SWdata \<Rightarrow> string \<Rightarrow> bool" where
  "accepted d key \<longleftrightarrow> verdict d key = ''ISMASTER'' \<or> verdict d key = ''FOUND''"

lemma process_open:
  assumes "request_ok key ''open'' arg ext time date" "\<not> has_flag (p_data u) FNOSERVICE"
  shows "\<exists>u'. process E t (From_remote (request_line key ''open'' arg ext time date)) html u =
      (u', Return (if accepted (p_data u) key then ''OK'' else verdict (p_data u) key)) \<and>
    p_data u' = p_data u \<and> eeprom u' = eeprom u \<and> relayState u' = (accepted (p_data u) key \<or> relayState u)"
proof -
  have d: "p_data (no_command u) = p_data u" "eeprom (no_command u) = eeprom u" "relayState (no_command u) = relayState u"
    by (simp_all add: no_command_def)
  have o: "to_lower ''open'' = ''open''" by (simp add: to_lower_def lower_char_def Let_def)
  have p: "process_public E c x = None" if "p_com x = ''open''" for c x
    using that by (simp add: process_public_def Let_def scom_spec)
  show ?thesis
    unfolding process_def request_read [OF assms(1)] prod.case option.case
    using assms(2)
    by (simp add: o Let_def key_check_def d p accepted_def verdict_def process_keyed_def cmd_case_def first_some_Cons
        reply_def relayOn_def)
qed

text \<open>The answer of \<open>answer_command\<close> for a fresh \<open>open\<close>.\<close>

lemma checkKey_cases: "checkKey d key \<in> {''ISMASTER'', ''FOUND'', ''NOTFOUND'', ''INBLACK''}"
  by (simp add: checkKey_def Let_def split: option.split)

definition open_reply :: "SWdata \<Rightarrow> string \<Rightarrow> string" where
  "open_reply d key = (if accepted d key then ''OK'' else verdict d key)"

lemma open_reply_plain: "open_reply d key \<in> {''OK'', ''NOTFOUND'', ''INBLACK''}"
  using checkKey_cases [of d key] by (auto simp: open_reply_def accepted_def verdict_def)

lemma underscored_id: "CHR '' '' \<notin> set t \<Longrightarrow> underscored t = t"
  by (simp add: underscored_def str_replace_notin)

lemma answer_open:
  assumes "quiet L" "\<not> ch_mod s" "secure_client s \<or> plain_client s" "remote_host (settings s) \<noteq> []"
    and "request_ok key ''open'' [] [] time date" "\<not> has_flag (settings s) FNOSERVICE" "\<not> too_old s time"
    and "answers_with L (request_url (settings s) ''set_response'' key time (open_reply (settings s) key) True) R"
    and "transponder R [] (world s) = Some u" "printed u = [wrapped (device_name (settings s)) ''success'']"
    and "harmless (settings s) ''success''"
  shows "\<exists>s'. answer_command L (request_line key ''open'' [] [] time date) s = (s', Some (Return ''success'')) \<and>
    world s' = files u \<and> settings s' = settings s \<and> relayState (lock s') = (accepted (settings s) key \<or> relayState (lock s))"
proof -
  let ?line = "request_line key ''open'' [] [] time date" and ?d = "settings s"
  have arg: "argval ?line ''unixtime'' = time" "argval ?line ''key'' = key" using request_argval [OF assms(5)] by simp_all
  obtain d' where d': "process (l_env L) (fst (millis s)) (From_remote ?line) False (lock s) = (d', Return (open_reply ?d key))"
      "p_data d' = ?d" "relayState d' = (accepted ?d key \<or> relayState (lock s))"
    using process_open [OF assms(5,6)] unfolding open_reply_def by blast
  define s1 where "s1 = (snd (millis s))\<lparr>lock := d'\<rparr>"
  have s1: "settings s1 = ?d" "world s1 = world s" "ch_mod s1 = ch_mod s" "secure_client s1 = secure_client s"
    "plain_client s1 = plain_client s" "relayState (lock s1) = relayState d'"
    using d'(2) by (simp_all add: s1_def)
  have carry: "carry_out L ?line s = (s1, Some (Return (open_reply ?d key)))"
    using d'(1) by (simp add: carry_out_def Let_def case_prod_beta s1_def)
  have u: "underscored (open_reply ?d key) = open_reply ?d key"
    using open_reply_plain [of ?d key] by (intro underscored_id) auto
  have "\<exists>s2. ask_transponder L ''set_response'' key time (open_reply ?d key) s1 = (s2, Some (Return ''success'')) \<and>
      asked (files u) s1 s2"
    using assms(1-4,8-11) s1 by (intro ask_page [where R = R]) simp_all
  then obtain s2 where s2: "ask_transponder L ''set_response'' key time (open_reply ?d key) s1 = (s2, Some (Return ''success''))"
      "asked (files u) s1 s2" by blast
  have "contains ''success'' ''Bad Request'' = False"
    by (simp add: contains_def index_of_def cstr_def)
  then have transmit: "transmit_response L key time (open_reply ?d key) s1 = (s2, Some (Return ''success''))"
    using s2(1) u by (simp add: transmit_response_def returns_def)
  have "open_reply ?d key \<noteq> ''set_devicename''" using open_reply_plain [of ?d key] by auto
  then have "answer_command L ?line s = (s2, Some (Return ''success''))"
    unfolding answer_command_def arg Let_def using assms(7) carry transmit by simp
  then show ?thesis
    using s2(2) s1 d' idle_data [of "lock s2" "lock s1"] by (auto simp: asked_def)
qed

section \<open>From the user to the lock and back\<close>

definition reachable_script :: "files surroundings \<Rightarrow> SWdata \<Rightarrow> request \<Rightarrow> request \<Rightarrow> string \<Rightarrow> string \<Rightarrow> bool" where
  "reachable_script L d B2 B3 key time \<longleftrightarrow>
     answers_with L (request_url d ''receive'' [] [] [] True) (lock_asks B2 (device_name d)) \<and>
     answers_with L (request_url d ''set_response'' key time (open_reply d key) True)
       (lock_answers B3 (device_name d) key time (open_reply d key))"

definition harmless_line :: "SWdata \<Rightarrow> string \<Rightarrow> bool" where
  "harmless_line d line \<longleftrightarrow> harmless d line \<and> harmless d ''success'' \<and> \<not> broken_script line"

lemma remote_open:
  fixes s :: "files remote"
  defines "d \<equiv> settings s"
  defines "dev \<equiv> device_name d"
  assumes "serves dev tz B1" "serves dev tz B2" "serves dev tz B3" "serves dev tz B4" "log_ok tz mx ak lg old"
    and "fs (log_name dev) = Some (stored (header_line tz mx ak lg # old))" "list_all answered_line old"
    and "request_ok key ''open'' [] [] (dec_int (r_time B1)) (r_date B1)" "int (length old) + 2 \<le> php_int mx"
    and "list_all (\<lambda>l. \<not> occurs (''unixtime='' @ dec_int (r_time B1)) l) (header_line tz mx ak lg # old)"
    and "date_ok (r_date B3)"
    and "transponder (user_sends B1 dev key ''open'' [] []) p1 fs = Some s0" "world s = files s0"
    and "quiet L" "poll_ready s" "\<not> has_flag d FNOSERVICE" "\<not> too_old s (dec_int (r_time B1))"
    and "reachable_script L d B2 B3 key (dec_int (r_time B1))"
    and "harmless_line d (request_line key ''open'' [] [] (dec_int (r_time B1)) (r_date B1))"
  shows "\<exists>s' s4 more. RequestTransponder L [] s = (s', Some (Return ''success'')) \<and> settings s' = d \<and>
    relayState (lock s') = (accepted d key \<or> relayState (lock s)) \<and>
    transponder (user_asks B4 dev key (dec_int (r_time B1))) p4 (world s') = Some s4 \<and>
    printed s4 = wrapped dev (open_reply d key) # more"
proof -
  let ?h = "header_line tz mx ak lg" and ?t = "dec_int (r_time B1)" and ?f = "log_name dev"
  let ?line = "request_line key ''open'' [] [] ?t (r_date B1)" and ?m = "snd (millis s)"
  note ok = assms(10)
  have l: "tidy ?line" "line_correct ?line" "\<not> answered_line ?line" "?line \<noteq> []"
      "occurs (''key='' @ key) ?line" "occurs (''unixtime='' @ ?t) ?line"
    using request_line_tidy [OF ok] request_line_state [OF ok] request_line_occurs
      request_line_hd [of key "''open''" "[]" "[]" ?t "r_date B1"] by (metis list.distinct(1))+
  have lf: "LF \<notin> set key" "LF \<notin> set ?t" using ok safe_no_sep by (simp_all add: request_ok_def value_ok_def)
  have log1: "log_ok tz mx ak lg (old @ [?line])" using assms(7) l by (simp add: log_ok_def)
  obtain s0' m0 where "transponder (user_sends B1 dev key ''open'' [] []) p1 fs = Some s0'"
      "files s0' = fs(?f := Some (stored (?h # old @ [?line])))"
    using user_sends_run [where fs = fs and polls = p1, OF assms(3,7,8,10,11,12)] by blast
  then have w: "world s ?f = Some (stored (?h # old @ [?line]))" using assms(14,15) by simp
  obtain u1 where u1: "transponder (lock_asks B2 dev) [] (world s) = Some u1" "files u1 = world s"
      "printed u1 = [wrapped dev ?line]"
    using lock_asks_run [where fs = "world s" and polls = "[]", OF assms(4) log1 w assms(9) l(3)] by blast
  have r: "remote_host d \<noteq> []" "secure_client s \<or> plain_client s" "\<not> ch_mod s"
    using assms(17) by (simp_all add: poll_ready_def d_def)
  have m: "settings ?m = d" "world ?m = world s" by (simp_all add: d_def)
  have "\<exists>s1. ask_transponder L ''receive'' [] [] [] ?m = (s1, Some (Return ?line)) \<and> asked (files u1) ?m s1"
    using assms(16,20,21) r m u1 by (intro ask_page [where R = "lock_asks B2 dev"])
      (simp_all add: reachable_script_def harmless_line_def dev_def)
  then obtain s1 where s1: "ask_transponder L ''receive'' [] [] [] ?m = (s1, Some (Return ?line))" "asked (files u1) ?m s1"
    by blast
  have s1s: "settings s1 = d" "relayState (lock s1) = relayState (lock s)" "world s1 = world s"
      "secure_client s1 = secure_client s" "plain_client s1 = plain_client s" "\<not> ch_mod s1" "localUnixtime s1 = localUnixtime s"
    using s1(2) idle_data [of "lock s1" "lock s"] u1(2) by (simp_all add: asked_def d_def)
  have "?line \<noteq> ''empty''"
  proof
    assume "?line = ''empty''"
    then have "hd ?line = CHR ''e''" by simp
    moreover have "hd ?line = CHR ''k''" by (subst request_line_hd) simp
    ultimately show False by simp
  qed
  moreover have "argval ?line ''unixtime'' \<noteq> []"
    using request_argval(5) [OF ok] by (simp add: dec_int_def)
  ultimately have poll: "RequestTransponder L [] s = answer_command L ?line s1"
    using poll_command [OF assms(17) s1(1)] assms(21) by (simp add: harmless_line_def)
  let ?reply = "open_reply d key" and ?new = "answer_line ?line (open_reply d key) (r_date B3)"
  have rep: "?reply \<noteq> []" "CHR ''='' \<notin> set ?reply" "LF \<notin> set ?reply"
    using open_reply_plain [of d key] by auto
  obtain u2 where u2: "transponder (lock_answers B3 dev key ?t ?reply) [] (world s1) = Some u2"
      "files u2 = (world s1)(?f := Some (stored (?h # old @ [?new])))" "printed u2 = [wrapped dev ''success'']"
    using lock_answers_run [where fs = "world s1" and polls = "[]", OF assms(5) log1 _ assms(9) l(3-6) lf rep(3) assms(13)]
      w s1s(3) by auto
  have "too_old s1 ?t = too_old s ?t" using s1s(1,7) by (simp add: too_old_def d_def)
  then have "\<exists>s2. answer_command L ?line s1 = (s2, Some (Return ''success'')) \<and> world s2 = files u2 \<and>
      settings s2 = settings s1 \<and> relayState (lock s2) = (accepted (settings s1) key \<or> relayState (lock s1))"
    using assms(16,18-21) r u2 s1s ok
    by (intro answer_open [where R = "lock_answers B3 dev key ?t ?reply"])
      (simp_all add: reachable_script_def harmless_line_def dev_def)
  then obtain s2 where s2: "answer_command L ?line s1 = (s2, Some (Return ''success''))" "world s2 = files u2"
      "settings s2 = d" "relayState (lock s2) = (accepted d key \<or> relayState (lock s))"
    using s1s by auto
  have f2: "world s2 ?f = Some (stored (?h # old @ [?new]))" using s2(2) u2(2) by simp
  have "line_correct ?new"
    using l(2) occurs_prefix_of [of _ ?line] by (simp add: line_correct_def answer_line_def)
  then have log2: "log_ok tz mx ak lg (old @ [?new])"
    using assms(7) answer_line_tidy [OF l(1,4) rep(3) assms(13)] by (simp add: log_ok_def)
  have "list_all (\<lambda>l. \<not> occurs (''unixtime='' @ ?t) l) old" using assms(12) by simp
  from user_asks_run [where fs = "world s2" and polls = p4, OF assms(6) log2 f2 this ok assms(13) rep]
  obtain s4 m4 where "transponder (user_asks B4 dev key ?t) p4 (world s2) = Some s4" "printed s4 = wrapped dev ?reply # m4"
    by blast
  then show ?thesis using poll s2 by auto
qed

section \<open>A command that comes too late\<close>

lemma stale_command:
  assumes "quiet L" "\<not> ch_mod s" "secure_client s \<or> plain_client s" "remote_host (settings s) \<noteq> []"
    and "too_old s (argval line ''unixtime'')"
    and "answers_with L (request_url (settings s) ''set_response'' (argval line ''key'') (argval line ''unixtime'') ''too_old'' True) R"
    and "transponder R [] (world s) = Some u" "printed u = [wrapped (device_name (settings s)) ''success'']"
    and "harmless (settings s) ''success''"
  shows "\<exists>s'. answer_command L line s = (s', Some (Return ''success'')) \<and>
    idle (lock s') = idle (lock s) \<and> world s' = files u"
proof -
  let ?k = "argval line ''key''" and ?t = "argval line ''unixtime''"
  obtain s2 where s2: "ask_transponder L ''set_response'' ?k ?t ''too_old'' s = (s2, Some (Return ''success''))" "asked (files u) s s2"
    using ask_page [OF assms(1-4,6-9)] by blast
  have "underscored ''too old'' = ''too_old''"
    by code_simp
  moreover have "contains ''success'' ''Bad Request'' = False" by (simp add: contains_def index_of_def cstr_def)
  ultimately have "transmit_response L ?k ?t ''too old'' s = (s2, Some (Return ''success''))"
    using s2(1) by (simp add: transmit_response_def returns_def)
  then have "answer_command L line s = (s2, Some (Return ''success''))"
    unfolding answer_command_def Let_def using assms(5) by (simp add: returns_def)
  then show ?thesis using s2(2) by (auto simp: asked_def)
qed

section \<open>A lock and its transponder, for the witnesses\<close>

definition served_page :: "request \<Rightarrow> files \<Rightarrow> net \<times> files" where
  "served_page R w =
     (case transponder R [] w of
        None \<Rightarrow> (quiet_net [], w)
      | Some s \<Rightarrow>
          (case printed s of
             [Printed page] \<Rightarrow> (quiet_net (http_page [''HTTP/1.1 200 OK''] page), files s)
           | _ \<Rightarrow> (quiet_net [], w)))"

text \<open>A server that runs the script for the two requests of the lock.\<close>

definition sample_surroundings :: "SWdata \<Rightarrow> string \<Rightarrow> files surroundings" where
  "sample_surroundings d response =
     \<lparr>l_net = (\<lambda>tgt url w.
        if url = cstr (request_url d ''receive'' [] [] [] True) then served_page (lock_asks (sample_server 1702) ''lock'') w
        else if url = cstr (request_url d ''set_response'' ''guest'' (dec_int 1700) response True)
        then served_page (lock_answers (sample_server 1703) ''lock'' ''guest'' (dec_int 1700) response) w
        else (quiet_net [], w)),
      l_ftp = (\<lambda>d w. (True, w)), l_handleClient = (\<lambda>d. d), l_new_client = True, l_ip_address = 1, l_env = idle_env\<rparr>"

definition sample_lock :: "int \<Rightarrow> files \<Rightarrow> files remote" where
  "sample_lock now w =
     \<lparr>lock = guest_device\<lparr>connected := True, transponder_version := ''4.0''\<rparr>, world = w, plain_client = True,
      secure_client = False, cl_err = 0, ch_mod = False, cl_delay = 0, localUnixtime = now, unx_ms = 0, unx_summ = 0,
      remoteTime = 0, refresh_ms = 0, time_ms = 10000, delays = []\<rparr>"

lemma answers_served:
  assumes "\<And>tgt w. l_net L tgt (cstr url) w = served_page R w"
  shows "answers_with L url R"
proof -
  have "head_ok [''HTTP/1.1 200 OK'']"
    by (simp add: head_ok_def plain_text_def error_line_def contains_def to_lower_def lower_char_def index_of_def cstr_def)
  then show ?thesis unfolding answers_with_def using assms by (auto simp: served_page_def)
qed

lemma cstr_append: "nul \<notin> set a \<Longrightarrow> cstr (a @ b) = a @ cstr b"
  unfolding cstr_def by (intro takeWhile_append2) auto

lemma request_url_kind:
  "cstr (request_url d ''set_response'' ukey arg ext c) \<noteq> cstr (request_url d ''receive'' ukey' arg' ext' c')"
proof -
  let ?pre = "''GET /'' @ remote_dir d @ ''/'' @ device_name d @ ''.php?access=''"
  have "nul \<notin> set ?pre" by simp
  from cstr_append [OF this] have pre: "cstr (?pre @ x) = ?pre @ cstr x" for x .
  have "\<exists>x. request_url d ''set_response'' ukey arg ext c = ?pre @ CHR ''s'' # x"
    "\<exists>y. request_url d ''receive'' ukey' arg' ext' c' = ?pre @ CHR ''r'' # y"
    by (simp_all add: request_url_def)
  then obtain x y where xy: "request_url d ''set_response'' ukey arg ext c = ?pre @ CHR ''s'' # x"
      "request_url d ''receive'' ukey' arg' ext' c' = ?pre @ CHR ''r'' # y" by blast
  show ?thesis unfolding xy pre by (simp add: cstr_def)
qed

lemma addKey_frame:
  "EdeviceName (p_data (store_add k s)) = EdeviceName (p_data s)" "EremoteHost (p_data (store_add k s)) = EremoteHost (p_data s)"
  "EremoteIntervalMs (p_data (store_add k s)) = EremoteIntervalMs (p_data s)"
  "ErequestActualSec (p_data (store_add k s)) = ErequestActualSec (p_data s)"
  "Eflag (p_data (store_add k s)) \<in> {Eflag (p_data s), Eflag (p_data s) OR FNODEFAULT}"
  by (simp_all add: addKey_def Let_def split: option.split)

lemma addKey_device: "OTA_enabled (store_add k s) = OTA_enabled s" "relayState (store_add k s) = relayState s"
  by (simp_all add: addKey_def Let_def saveAllToEEPROM_def split: option.split)

lemma terminated_text: "length t < n \<Longrightarrow> nul \<in> set (char_array n t)"
  by (simp add: char_array_def)

lemma guest_device_data:
  "device_name (p_data guest_device) = ''lock''" "remote_host (p_data guest_device) = ''domain.net''"
  "EremoteIntervalMs (p_data guest_device) = 3000" "ErequestActualSec (p_data guest_device) = 20"
  "OTA_enabled guest_device = False" "relayState guest_device = False"
proof -
  let ?d = "p_data guest_device"
  have l: "layout_ok ?d" using guest_device_map(1) by (simp add: keys_ok_def)
  have e: "EdeviceName ?d = char_array 64 ''lock''" "EremoteHost ?d = char_array 256 ''domain.net''"
    by (simp_all add: guest_device_def addKey_frame fresh_device_data) (simp_all add: default_SWdata_def)
  have m: "members ?d ! 1 = EdeviceName ?d" "members ?d ! 12 = EremoteHost ?d" "length (members ?d) = 37"
    by (simp_all add: members_def)
  have z: "nul \<in> set (char_array 64 ''lock'')" "nul \<in> set (char_array 256 ''domain.net'')"
    by (rule terminated_text; simp)+
  show "device_name ?d = ''lock''" "remote_host ?d = ''domain.net''"
    unfolding device_name_def remote_host_def
    using char_ptr_member [OF l, of 1] char_ptr_member [OF l, of 12] m e z
    by (simp_all add: char_array_def cstr_def del: One_nat_def)
  show "EremoteIntervalMs ?d = 3000" "ErequestActualSec ?d = 20" "OTA_enabled guest_device = False" "relayState guest_device = False"
    by (simp_all add: guest_device_def addKey_frame addKey_device fresh_device_data)
       (simp_all add: default_SWdata_def fresh_device_def initial_device_def)
qed

lemma guest_device_flags: "\<not> has_flag (p_data guest_device) FNOREMOTE" "\<not> has_flag (p_data guest_device) FNOSERVICE"
  using addKey_frame(5) [of "''guest''" fresh_device]
  by (auto simp: guest_device_def has_flag_def flag_defs fresh_device_data default_SWdata_def)

lemma guest_accepted: "accepted (p_data guest_device) ''guest''"
  by (simp add: accepted_def verdict_def guest_device_keys checkKey_spec guest_device_map guest_device_master)

lemma guest_page: "transponder_page (p_data guest_device) t = ''<transponderlock>'' @ t @ ''</transponderlock>''"
  by (simp add: transponder_page_def start_mark_def end_mark_def guest_device_data)

lemma guest_harmless: "harmless (p_data guest_device) ''success''"
  unfolding harmless_def guest_page
  by (simp add: waiting_def error_line_def contains_def to_lower_def lower_char_def index_of_def cstr_def)

lemma sample_line:
  "request_line ''guest'' ''open'' [] [] (dec_int 1700) ''2021-02-12 20:42:12 UTC'' =
   ''key=guest;cmd=open;unixtime=1700;reqtime=2021-02-12 20:42:12 UTC''"
  by (simp add: request_line_def request_head_def optional_def dec_int_1700)

lemma sample_line_harmless:
  "harmless_line (p_data guest_device) (request_line ''guest'' ''open'' [] [] (dec_int 1700) ''2021-02-12 20:42:12 UTC'')"
  unfolding harmless_line_def harmless_def guest_page sample_line using guest_harmless
  by (simp add: waiting_def broken_script_def error_line_def contains_def to_lower_def lower_char_def index_of_def cstr_def)

section \<open>The properties\<close>

text \<open>C12. A user's command opens the lock through the transponder: the user posts \<open>open\<close> with a key, the lock's
  poll fetches it, the relay is switched on exactly if the lock accepts the key (or was on), the
  settings are untouched, and what the user then reads is \<open>OK\<close> or the verdict on the key.\<close>

theorem remote_command_opens_the_lock:
  fixes s :: "files remote"
  assumes "serves (device_name (settings s)) tz B1" "serves (device_name (settings s)) tz B2"
    and "serves (device_name (settings s)) tz B3" "serves (device_name (settings s)) tz B4"
    and "log_ok tz mx ak lg old"
    and "fs (log_name (device_name (settings s))) = Some (stored (header_line tz mx ak lg # old))"
    and "list_all answered_line old" "request_ok key ''open'' [] [] (dec_int (r_time B1)) (r_date B1)"
    and "int (length old) + 2 \<le> php_int mx"
    and "list_all (\<lambda>l. \<not> occurs (''unixtime='' @ dec_int (r_time B1)) l) (header_line tz mx ak lg # old)"
    and "date_ok (r_date B3)"
    and "transponder (user_sends B1 (device_name (settings s)) key ''open'' [] []) p1 fs = Some s0" "world s = files s0"
    and "quiet L" "poll_ready s" "\<not> has_flag (settings s) FNOSERVICE" "\<not> too_old s (dec_int (r_time B1))"
    and "reachable_script L (settings s) B2 B3 key (dec_int (r_time B1))"
    and "harmless_line (settings s) (request_line key ''open'' [] [] (dec_int (r_time B1)) (r_date B1))"
  shows "\<exists>s' s4 more. RequestTransponder L [] s = (s', Some (Return ''success'')) \<and> settings s' = settings s \<and>
    relayState (lock s') = (accepted (settings s) key \<or> relayState (lock s)) \<and>
    transponder (user_asks B4 (device_name (settings s)) key (dec_int (r_time B1))) p4 (world s') = Some s4 \<and>
    printed s4 = wrapped (device_name (settings s)) (open_reply (settings s) key) # more"
  by (rule remote_open [OF assms])

theorem remote_command_opens_the_lock_witness:
  "\<exists>s0 s' s4 more.
    transponder (user_sends (sample_server 1700) ''lock'' ''guest'' ''open'' [] []) [] sample_files = Some s0 \<and>
    RequestTransponder (sample_surroundings (p_data guest_device) ''OK'') [] (sample_lock 0 (files s0)) =
      (s', Some (Return ''success'')) \<and>
    relayState (lock s') \<and>
    transponder (user_asks (sample_server 1704) ''lock'' ''guest'' (dec_int 1700)) [] (world s') = Some s4 \<and>
    printed s4 = wrapped ''lock'' ''OK'' # more"
proof -
  let ?L = "sample_surroundings (p_data guest_device) ''OK''"
  have t: "r_time (sample_server 1700) = 1700" "r_date (sample_server 1700) = ''2021-02-12 20:42:12 UTC''"
    by (simp_all add: sample_server_def)
  have f: "sample_files (log_name ''lock'') = Some (stored (header_line ''UTC'' ''32'' ''inferno'' ''en'' # []))"
    by (simp add: sample_files_def log_name_def)
  have n: "list_all (\<lambda>l. \<not> occurs (''unixtime='' @ dec_int (r_time (sample_server 1700))) l)
      (header_line ''UTC'' ''32'' ''inferno'' ''en'' # [])"
    by (simp add: occurs_def strripos_def header_line_def to_lower_def lower_char_def)
  have m: "int (length ([] :: string list)) + 2 \<le> php_int ''32''" by (simp add: php_int_32)
  obtain s0 where s0: "transponder (user_sends (sample_server 1700) ''lock'' ''guest'' ''open'' [] []) [] sample_files = Some s0"
    using user_sends_run [where fs = sample_files and polls = "[]", OF sample_server_serves sample_log(1) f sample_request m n] by blast
  let ?s = "sample_lock 0 (files s0)"
  have d: "settings ?s = p_data guest_device" by (simp add: sample_lock_def)
  have r: "open_reply (p_data guest_device) ''guest'' = ''OK''" using guest_accepted by (simp add: open_reply_def)
  have reach: "reachable_script ?L (settings ?s) (sample_server 1702) (sample_server 1703) ''guest'' (dec_int (r_time (sample_server 1700)))"
    unfolding reachable_script_def d r t guest_device_data
    using request_url_kind [of "p_data guest_device"] by (intro conjI answers_served) (simp_all add: sample_surroundings_def)
  have ready: "poll_ready ?s" "quiet ?L" "\<not> has_flag (settings ?s) FNOSERVICE" "\<not> too_old ?s (dec_int (r_time (sample_server 1700)))"
    using guest_device_flags
    by (simp_all add: poll_ready_def quiet_def too_old_def sample_lock_def sample_surroundings_def guest_device_data millis_def
        ACTUAL_TRANSPONDER_VERSION_def)
  have line: "harmless_line (settings ?s) (request_line ''guest'' ''open'' [] [] (dec_int (r_time (sample_server 1700))) (r_date (sample_server 1700)))"
    unfolding d t by (rule sample_line_harmless)
  show ?thesis
    using remote_command_opens_the_lock [where s = ?s and L = ?L and fs = sample_files and ?B1.0 = "sample_server 1700"
      and ?B2.0 = "sample_server 1702" and ?B3.0 = "sample_server 1703" and ?B4.0 = "sample_server 1704" and key = "''guest''"
      and tz = "''UTC''" and mx = "''32''" and ak = "''inferno''" and lg = "''en''" and old = "[]" and ?p1.0 = "[]" and ?p4.0 = "[]"
      and ?s0.0 = s0, unfolded d guest_device_data, OF sample_server_serves sample_server_serves sample_server_serves
      sample_server_serves sample_log(1) f list.pred_inject(1) sample_request m n sample_date s0 _ ready(2,1) _ ready(4)]
      ready(3) reach line r guest_accepted s0 d t by (auto simp: sample_lock_def)
qed

text \<open>C13. A command that reaches the lock too late is not carried out, whatever it is: the lock only tells the
  transponder so, and nothing of its settings, keys, relay or flash changes.\<close>

theorem stale_command_changes_nothing:
  assumes "quiet L" "\<not> ch_mod s" "secure_client s \<or> plain_client s" "remote_host (settings s) \<noteq> []"
    and "too_old s (argval line ''unixtime'')"
    and "answers_with L (request_url (settings s) ''set_response'' (argval line ''key'') (argval line ''unixtime'') ''too_old'' True) R"
    and "transponder R [] (world s) = Some u" "printed u = [wrapped (device_name (settings s)) ''success'']"
    and "harmless (settings s) ''success''"
  shows "\<exists>s'. answer_command L line s = (s', Some (Return ''success'')) \<and>
    idle (lock s') = idle (lock s) \<and> world s' = files u"
  by (rule stale_command [OF assms])

theorem stale_command_changes_nothing_witness:
  "\<exists>s0 u s'.
    transponder (user_sends (sample_server 1700) ''lock'' ''guest'' ''open'' [] []) [] sample_files = Some s0 \<and>
    transponder (lock_answers (sample_server 1703) ''lock'' ''guest'' (dec_int 1700) ''too_old'') [] (files s0) = Some u \<and>
    answer_command (sample_surroundings (p_data guest_device) ''too_old'')
      (request_line ''guest'' ''open'' [] [] (dec_int 1700) ''2021-02-12 20:42:12 UTC'') (sample_lock 2000 (files s0)) =
      (s', Some (Return ''success'')) \<and>
    idle (lock s') = idle (lock (sample_lock 2000 (files s0))) \<and> world s' = files u"
proof -
  let ?L = "sample_surroundings (p_data guest_device) ''too_old''"
  let ?line = "request_line ''guest'' ''open'' [] [] (dec_int 1700) ''2021-02-12 20:42:12 UTC''"
  have t: "r_time (sample_server 1700) = 1700" "r_date (sample_server 1700) = ''2021-02-12 20:42:12 UTC''"
    by (simp_all add: sample_server_def)
  note ok = sample_request [unfolded t]
  have f: "sample_files (log_name ''lock'') = Some (stored (header_line ''UTC'' ''32'' ''inferno'' ''en'' # []))"
    by (simp add: sample_files_def log_name_def)
  have n: "list_all (\<lambda>l. \<not> occurs (''unixtime='' @ dec_int (r_time (sample_server 1700))) l)
      (header_line ''UTC'' ''32'' ''inferno'' ''en'' # [])"
    by (simp add: occurs_def strripos_def header_line_def to_lower_def lower_char_def)
  have m: "int (length ([] :: string list)) + 2 \<le> php_int ''32''" by (simp add: php_int_32)
  obtain s0 where s0: "transponder (user_sends (sample_server 1700) ''lock'' ''guest'' ''open'' [] []) [] sample_files = Some s0"
      "files s0 (log_name ''lock'') = Some (stored (header_line ''UTC'' ''32'' ''inferno'' ''en'' # [] @ [?line]))"
    using user_sends_run [where fs = sample_files and polls = "[]", OF sample_server_serves sample_log(1) f sample_request m n]
    by (auto simp: t)
  let ?s = "sample_lock 2000 (files s0)"
  have d: "settings ?s = p_data guest_device" by (simp add: sample_lock_def)
  have g: "log_ok ''UTC'' ''32'' ''inferno'' ''en'' ([] @ [?line])"
    using sample_log(1) request_line_tidy [OF ok] request_line_state [OF ok]
      request_line_hd [of "''guest''" "''open''" "[]" "[]" "dec_int 1700" "''2021-02-12 20:42:12 UTC''"]
    by (auto simp: log_ok_def)
  have l: "?line \<noteq> []" "LF \<notin> set (dec_int 1700)" "LF \<notin> set ''guest''" "LF \<notin> set ''too_old''"
    unfolding sample_line by (simp_all add: dec_int_1700)
  obtain u where u: "transponder (lock_answers (sample_server 1703) ''lock'' ''guest'' (dec_int 1700) ''too_old'') [] (files s0) = Some u"
      "printed u = [wrapped ''lock'' ''success'']"
    using lock_answers_run [where fs = "files s0" and polls = "[]", OF sample_server_serves g s0(2) list.pred_inject(1) request_line_state(2) [OF ok]
      l(1) request_line_occurs l(3,2,4) sample_date] by blast
  have a: "argval ?line ''unixtime'' = dec_int 1700" "argval ?line ''key'' = ''guest''" using request_argval [OF ok] by simp_all
  have "to_int (dec_int 1700) = 1700" unfolding dec_int_1700 by code_simp
  moreover have "wrap32 300 = 300" by (simp add: wrap32_def)
  ultimately have old: "too_old ?s (argval ?line ''unixtime'')"
    unfolding a by (simp add: too_old_def sample_lock_def guest_device_data)
  have "answers_with ?L (request_url (settings ?s) ''set_response'' ''guest'' (dec_int 1700) ''too_old'' True)
      (lock_answers (sample_server 1703) ''lock'' ''guest'' (dec_int 1700) ''too_old'')"
    using request_url_kind [of "p_data guest_device"] unfolding d by (intro answers_served) (simp add: sample_surroundings_def)
  note law = this
  have q: "quiet ?L" "\<not> ch_mod ?s" "secure_client ?s \<or> plain_client ?s" "remote_host (settings ?s) \<noteq> []"
      "world ?s = files s0" "device_name (settings ?s) = ''lock''" "harmless (settings ?s) ''success''"
    unfolding d using guest_harmless
    by (simp_all add: guest_device_data quiet_def) (simp_all add: sample_surroundings_def sample_lock_def)
  have "\<exists>s'. answer_command ?L ?line ?s = (s', Some (Return ''success'')) \<and> idle (lock s') = idle (lock ?s) \<and> world s' = files u"
    by (rule stale_command_changes_nothing [OF q(1-4) old _ _ _ q(7), unfolded a q(5,6), OF law u])
  then show ?thesis using s0(1) u(1) by blast
qed

end
