(* ===== verification/Wifi_Driver.thy ===== *)
theory Wifi_Driver
  imports Device
begin

text \<open>
  The WiFi library the program is built with (\<open>src/replace_lib/WiFi\<close>): modes, events and status of
  \<open>WiFiGeneric.cpp\<close>, the access point of \<open>WiFiAP.cpp\<close>, the station of \<open>WiFiSTA.cpp\<close>.  The ESP-IDF
  below it is not part of the source: what its calls return is an argument, what they are told is
  recorded in order.
\<close>

section \<open>State\<close>

datatype wl_status =
  WL_IDLE_STATUS | WL_NO_SSID_AVAIL | WL_SCAN_COMPLETED | WL_CONNECTED_STATUS | WL_CONNECT_FAILED |
  WL_CONNECTION_LOST | WL_DISCONNECTED | WL_NO_SHIELD

definition wl_code :: "wl_status \<Rightarrow> nat" where
  "wl_code s =
     (case s of WL_IDLE_STATUS \<Rightarrow> 0 | WL_NO_SSID_AVAIL \<Rightarrow> 1 | WL_SCAN_COMPLETED \<Rightarrow> 2 | WL_CONNECTED_STATUS \<Rightarrow> 3
      | WL_CONNECT_FAILED \<Rightarrow> 4 | WL_CONNECTION_LOST \<Rightarrow> 5 | WL_DISCONNECTED \<Rightarrow> 6 | WL_NO_SHIELD \<Rightarrow> 255)"

datatype event_id =
  WIFI_READY | SCAN_DONE | STA_START | STA_STOP | STA_CONNECTED | STA_DISCONNECTED | STA_AUTHMODE_CHANGE |
  STA_GOT_IP | STA_LOST_IP | STA_WPS_ER_SUCCESS | STA_WPS_ER_FAILED | STA_WPS_ER_TIMEOUT | STA_WPS_ER_PIN |
  AP_START | AP_STOP | AP_STACONNECTED | AP_STADISCONNECTED | AP_STAIPASSIGNED | AP_PROBEREQRECVED |
  GOT_IP6 | ETH_START | ETH_STOP | ETH_CONNECTED | ETH_DISCONNECTED | ETH_GOT_IP | EVENT_MAX

datatype interface = IF_STA | IF_AP | IF_ETH

text \<open>An event with what its handler reads of it; for a station that leaves, the clients that remain.\<close>

record event =
  ev_id :: event_id
  ev_reason :: nat
  ev_clients :: "nat option"
  ev_if :: interface

text \<open>A registered callback: its identity, its function, the event it is for.\<close>

record 'f event_handler =
  h_id :: nat
  h_cb :: 'f
  h_event :: event_id

text \<open>The fields are C strings and numbers; \<open>ap_open\<close> stands for \<open>authmode\<close>.\<close>

record ap_config =
  ap_ssid :: string
  ap_password :: string
  ap_open :: bool
  ap_channel :: nat
  ap_hidden :: nat
  ap_max_connection :: nat

record sta_config =
  st_ssid :: string
  st_password :: string
  st_bssid :: "bytes option"
  st_channel :: nat

datatype esp_call =
    Esp_init | Esp_storage_ram | Esp_start | Esp_stop | Esp_set_mode nat | Esp_power_save bool
  | Esp_ap_config ap_config | Esp_clear_ap | Esp_ap_ip u32 u32 u32 | Esp_lease u32 u32 | Esp_dhcps_start
  | Esp_sta_config sta_config | Esp_sta_ip u32 u32 u32 | Esp_dhcpc_start | Esp_dhcpc_stop
  | Esp_connect | Esp_disconnect | Esp_dns_server nat u32

record 'f wifi =
  w_init :: bool
    \<comment> \<open>\<open>lowLevelInitDone\<close>\<close>
  w_started :: bool
    \<comment> \<open>\<open>_esp_wifi_started\<close>\<close>
  w_mode :: nat
    \<comment> \<open>what \<open>esp_wifi_get_mode\<close> answers while started\<close>
  w_persistent :: bool
  w_static_ip :: bool
  w_auto_reconnect :: bool
  w_status :: wl_status
  w_group :: bool
    \<comment> \<open>whether \<open>_network_event_group\<close> exists\<close>
  w_bits :: u32
  w_handlers :: "'f event_handler list"
  w_next_id :: nat
  w_calls :: "esp_call list"

text \<open>The answers of the ESP-IDF, true for \<open>ESP_OK\<close>, and the room its structures have for names.\<close>

record esp =
  e_group :: bool
  e_init :: bool
  e_start :: bool
  e_stop :: bool
  e_set_mode :: "nat \<Rightarrow> bool"
  e_set_ps :: bool
  e_ap_current :: ap_config
  e_set_ap :: bool
  e_set_ap_ip :: bool
  e_dhcps :: bool
  e_sta_same :: "sta_config \<Rightarrow> bool"
  e_sta_get :: bool
  e_set_sta :: bool
  e_connect :: bool
  e_disconnect :: bool
  e_dhcpc_stop :: bool
  e_set_sta_ip :: bool
  e_dhcpc_start :: bool
  e_ssid_room :: nat
  e_pass_room :: nat

definition WIFI_MODE_NULL :: nat where "WIFI_MODE_NULL = 0"
definition WIFI_MODE_STA :: nat where "WIFI_MODE_STA = 1"
definition WIFI_MODE_AP :: nat where "WIFI_MODE_AP = 2"
definition WIFI_MODE_APSTA :: nat where "WIFI_MODE_APSTA = 3"

definition wifi_bit :: "nat \<Rightarrow> u32" where "wifi_bit n = push_bit n 1"

definition new_wifi :: "'f wifi" where
  "new_wifi =
     \<lparr>w_init = False, w_started = False, w_mode = 0, w_persistent = True, w_static_ip = False,
      w_auto_reconnect = True, w_status = WL_NO_SHIELD, w_group = False, w_bits = 0, w_handlers = [],
      w_next_id = 1, w_calls = []\<rparr>"

definition tell :: "esp_call list \<Rightarrow> 'f wifi \<Rightarrow> 'f wifi" where
  "tell cs w = w\<lparr>w_calls := w_calls w @ cs\<rparr>"

section \<open>Status bits and callbacks\<close>

definition setStatusBits :: "u32 \<Rightarrow> 'f wifi \<Rightarrow> 'f wifi" where
  "setStatusBits b w = (if w_group w then w\<lparr>w_bits := w_bits w OR b\<rparr> else w)"

definition clearStatusBits :: "u32 \<Rightarrow> 'f wifi \<Rightarrow> 'f wifi" where
  "clearStatusBits b w = (if w_group w then w\<lparr>w_bits := w_bits w AND NOT b\<rparr> else w)"

definition getStatusBits :: "'f wifi \<Rightarrow> u32" where
  "getStatusBits w = (if w_group w then w_bits w else 0)"

abbreviation "AP_STARTED_BIT \<equiv> wifi_bit 0"
abbreviation "AP_HAS_IP6_BIT \<equiv> wifi_bit 1"
abbreviation "AP_HAS_CLIENT_BIT \<equiv> wifi_bit 2"
abbreviation "STA_STARTED_BIT \<equiv> wifi_bit 3"
abbreviation "STA_CONNECTED_BIT \<equiv> wifi_bit 4"
abbreviation "STA_HAS_IP_BIT \<equiv> wifi_bit 5"
abbreviation "STA_HAS_IP6_BIT \<equiv> wifi_bit 6"
abbreviation "ETH_STARTED_BIT \<equiv> wifi_bit 7"
abbreviation "ETH_CONNECTED_BIT \<equiv> wifi_bit 8"
abbreviation "ETH_HAS_IP_BIT \<equiv> wifi_bit 9"
abbreviation "ETH_HAS_IP6_BIT \<equiv> wifi_bit 10"
abbreviation "WIFI_SCANNING_BIT \<equiv> wifi_bit 11"
abbreviation "WIFI_SCAN_DONE_BIT \<equiv> wifi_bit 12"
abbreviation "WIFI_DNS_IDLE_BIT \<equiv> wifi_bit 13"

definition onEvent :: "'f \<Rightarrow> event_id \<Rightarrow> 'f wifi \<Rightarrow> 'f wifi" where
  "onEvent cb ev w =
     w\<lparr>w_handlers := w_handlers w @ [\<lparr>h_id = w_next_id w, h_cb = cb, h_event = ev\<rparr>], w_next_id := w_next_id w + 1\<rparr>"

text \<open>
  Removing: the index moves on after an element was erased, so the one that took its place is not
  looked at.
\<close>

fun erase_matching :: "('a \<Rightarrow> bool) \<Rightarrow> 'a list \<Rightarrow> 'a list" where
  "erase_matching P [] = []"
| "erase_matching P (x # xs) =
     (if P x then (case xs of [] \<Rightarrow> [] | y # ys \<Rightarrow> y # erase_matching P ys) else x # erase_matching P xs)"

definition removeEvent :: "'f \<Rightarrow> event_id \<Rightarrow> 'f wifi \<Rightarrow> 'f wifi" where
  "removeEvent cb ev w = w\<lparr>w_handlers := erase_matching (\<lambda>h. h_cb h = cb \<and> h_event h = ev) (w_handlers w)\<rparr>"

definition removeEvent_id :: "nat \<Rightarrow> 'f wifi \<Rightarrow> 'f wifi" where
  "removeEvent_id i w = w\<lparr>w_handlers := erase_matching (\<lambda>h. h_id h = i) (w_handlers w)\<rparr>"

text \<open>The callbacks an event calls, in the order of their registration.\<close>

definition called :: "event_id \<Rightarrow> 'f wifi \<Rightarrow> 'f list" where
  "called ev w = map h_cb [h \<leftarrow> w_handlers w. h_event h = ev \<or> h_event h = EVENT_MAX]"

section \<open>Modes\<close>

definition getMode :: "'f wifi \<Rightarrow> nat" where
  "getMode w = (if w_started w then w_mode w else WIFI_MODE_NULL)"

definition wifiLowLevelInit :: "esp \<Rightarrow> 'f wifi \<Rightarrow> bool \<times> 'f wifi" where
  "wifiLowLevelInit E w =
     (if w_init w then (True, w)
      else
        let w1 = (if \<not> w_group w \<and> e_group E then w\<lparr>w_group := True, w_bits := WIFI_DNS_IDLE_BIT\<rparr> else w);
            w2 = tell [Esp_init] w1
        in if \<not> e_init E then (False, w2)
           else (True, (if w_persistent w2 then w2 else tell [Esp_storage_ram] w2)\<lparr>w_init := True\<rparr>))"

text \<open>Starting also raises \<open>WIFI_READY\<close>, which changes no status and no bit.\<close>

definition espWiFiStart :: "esp \<Rightarrow> 'f wifi \<Rightarrow> bool \<times> 'f wifi" where
  "espWiFiStart E w =
     (if w_started w then (True, w)
      else
        (case wifiLowLevelInit E w of
           (False, w1) \<Rightarrow> (False, w1)
         | (True, w1) \<Rightarrow>
             if e_start E then (True, (tell [Esp_start] w1)\<lparr>w_started := True\<rparr>) else (False, tell [Esp_start] w1)))"

definition espWiFiStop :: "esp \<Rightarrow> 'f wifi \<Rightarrow> bool \<times> 'f wifi" where
  "espWiFiStop E w =
     (if \<not> w_started w then (True, w)
      else if e_stop E then (True, (tell [Esp_stop] w)\<lparr>w_started := False\<rparr>) else (False, tell [Esp_stop] w))"

definition set_wifi_mode :: "esp \<Rightarrow> nat \<Rightarrow> 'f wifi \<Rightarrow> bool \<times> 'f wifi" where
  "set_wifi_mode E m w =
     (if e_set_mode E m then (True, (tell [Esp_set_mode m] w)\<lparr>w_mode := m\<rparr>) else (False, tell [Esp_set_mode m] w))"

definition wifi_mode :: "esp \<Rightarrow> nat \<Rightarrow> 'f wifi \<Rightarrow> bool \<times> 'f wifi" where
  "wifi_mode E m w =
     (let cm = getMode w in
      if cm = m then (True, w)
      else if cm = 0 \<and> m \<noteq> 0 then
        (case espWiFiStart E w of (False, w1) \<Rightarrow> (False, w1) | (True, w1) \<Rightarrow> set_wifi_mode E m w1)
      else if cm \<noteq> 0 \<and> m = 0 then espWiFiStop E w
      else set_wifi_mode E m w)"

definition enable_mode :: "nat \<Rightarrow> esp \<Rightarrow> bool \<Rightarrow> 'f wifi \<Rightarrow> bool \<times> 'f wifi" where
  "enable_mode b E enable w =
     (let cm = getMode w; isEnabled = (cm AND b \<noteq> 0) in
      if isEnabled \<noteq> enable then wifi_mode E (if enable then cm OR b else cm - b) w else (True, w))"

definition enableSTA :: "esp \<Rightarrow> bool \<Rightarrow> 'f wifi \<Rightarrow> bool \<times> 'f wifi" where
  "enableSTA = enable_mode WIFI_MODE_STA"

definition enableAP :: "esp \<Rightarrow> bool \<Rightarrow> 'f wifi \<Rightarrow> bool \<times> 'f wifi" where
  "enableAP = enable_mode WIFI_MODE_AP"

definition setSleep :: "esp \<Rightarrow> bool \<Rightarrow> 'f wifi \<Rightarrow> bool \<times> 'f wifi" where
  "setSleep E enable w =
     (if getMode w AND WIFI_MODE_STA = 0 then (False, w) else (e_set_ps E, tell [Esp_power_save enable] w))"

section \<open>Addresses\<close>

text \<open>An \<open>IPAddress\<close> lies in memory first octet first, so the first octet is the lowest byte of the number.\<close>

definition octet :: "u32 \<Rightarrow> nat \<Rightarrow> u8" where
  "octet ip i = ucast (drop_bit (8 * i) ip)"

definition from_octets :: "u8 \<Rightarrow> u8 \<Rightarrow> u8 \<Rightarrow> u8 \<Rightarrow> u32" where
  "from_octets a b c d = ucast a OR push_bit 8 (ucast b) OR push_bit 16 (ucast c) OR push_bit 24 (ucast d)"

definition octetwise :: "(u8 \<Rightarrow> u8 \<Rightarrow> u8) \<Rightarrow> u32 \<Rightarrow> u32 \<Rightarrow> u32" where
  "octetwise f x y = from_octets (f (octet x 0) (octet y 0)) (f (octet x 1) (octet y 1))
     (f (octet x 2) (octet y 2)) (f (octet x 3) (octet y 3))"

definition calculateNetworkID :: "u32 \<Rightarrow> u32 \<Rightarrow> u32" where
  "calculateNetworkID ip subnet = octetwise (\<lambda>i s. s AND i) ip subnet"

definition calculateBroadcast :: "u32 \<Rightarrow> u32 \<Rightarrow> u32" where
  "calculateBroadcast ip subnet = octetwise (\<lambda>i s. NOT s OR i) ip subnet"

definition octet_bits :: "u8 \<Rightarrow> nat" where
  "octet_bits x =
     (if x = 0x80 then 1 else if x = 0xC0 then 2 else if x = 0xE0 then 3 else if x = 0xF0 then 4
      else if x = 0xF8 then 5 else if x = 0xFC then 6 else if x = 0xFE then 7 else if x = 0xFF then 8 else 0)"

definition calculateSubnetCIDR :: "u32 \<Rightarrow> nat" where
  "calculateSubnetCIDR m = octet_bits (octet m 0) + octet_bits (octet m 1) + octet_bits (octet m 2) + octet_bits (octet m 3)"

section \<open>The access point\<close>

text \<open>\<open>strlcpy(dest, src, size)\<close> keeps room for the terminator.\<close>

definition strlcpy :: "nat \<Rightarrow> string \<Rightarrow> string" where
  "strlcpy room t = take (room - 1) (cstr t)"

definition ap_config_of :: "esp \<Rightarrow> string \<Rightarrow> string \<Rightarrow> nat \<Rightarrow> nat \<Rightarrow> nat \<Rightarrow> ap_config" where
  "ap_config_of E ssid passphrase channel hidden max_connection =
     \<lparr>ap_ssid = strlcpy (e_ssid_room E) ssid,
      ap_password = (if cstr passphrase = [] then [] else strlcpy (e_pass_room E) passphrase),
      ap_open = (cstr passphrase = []), ap_channel = channel, ap_hidden = hidden, ap_max_connection = max_connection\<rparr>"

text \<open>The comparison with the current configuration leaves the authentication mode out.\<close>

definition softap_config_equal :: "ap_config \<Rightarrow> ap_config \<Rightarrow> bool" where
  "softap_config_equal l r \<longleftrightarrow>
     ap_ssid l = ap_ssid r \<and> ap_password l = ap_password r \<and> ap_channel l = ap_channel r \<and>
     ap_hidden l = ap_hidden r \<and> ap_max_connection l = ap_max_connection r"

definition softAP :: "esp \<Rightarrow> string \<Rightarrow> string \<Rightarrow> nat \<Rightarrow> nat \<Rightarrow> nat \<Rightarrow> 'f wifi \<Rightarrow> bool \<times> 'f wifi" where
  "softAP E ssid passphrase channel hidden max_connection w =
     (case enableAP E True w of
        (False, w1) \<Rightarrow> (False, w1)
      | (True, w1) \<Rightarrow>
          if cstr ssid = [] then (False, w1)
          else if 0 < length (cstr passphrase) \<and> length (cstr passphrase) < 8 then (False, w1)
          else
            let c = ap_config_of E ssid passphrase channel hidden max_connection; w2 = tell [Esp_start] w1
            in if softap_config_equal c (e_ap_current E) then (True, w2)
               else (e_set_ap E, tell [Esp_ap_config c] w2))"

definition softAPConfig :: "esp \<Rightarrow> u32 \<Rightarrow> u32 \<Rightarrow> u32 \<Rightarrow> 'f wifi \<Rightarrow> bool \<times> 'f wifi" where
  "softAPConfig E local_ip gateway subnet w =
     (case enableAP E True w of
        (False, w1) \<Rightarrow> (False, w1)
      | (True, w1) \<Rightarrow>
          let w2 = tell [Esp_start, Esp_ap_ip local_ip gateway subnet] w1
          in if \<not> e_set_ap_ip E then (False, w2)
             else (e_dhcps E,
               tell [Esp_lease (local_ip + push_bit 24 1) (local_ip + push_bit 24 11), Esp_dhcps_start] w2))"

text \<open>
  \<open>ESP_ERR_INVALID_STATE\<close> and the \<open>bool\<close> of \<open>enableAP\<close> are mixed up with \<open>esp_err_t\<close>: a stopped
  library answers true, a successful \<open>enableAP\<close> (1) is compared with \<open>ESP_OK\<close> (0).
\<close>

definition softAPdisconnect :: "esp \<Rightarrow> bool \<Rightarrow> 'f wifi \<Rightarrow> bool \<times> 'f wifi" where
  "softAPdisconnect E wifioff w =
     (if getMode w = WIFI_MODE_NULL then (True, w)
      else
        let w1 = tell [Esp_clear_ap] w
        in if wifioff then (case enableAP E False w1 of (r, w2) \<Rightarrow> (\<not> r, w2)) else (e_set_ap E, w1))"

definition softAPBroadcastIP :: "u32 \<Rightarrow> u32 \<Rightarrow> 'f wifi \<Rightarrow> u32" where
  "softAPBroadcastIP gw netmask w = (if getMode w = WIFI_MODE_NULL then 0 else calculateBroadcast gw netmask)"

definition softAPNetworkID :: "u32 \<Rightarrow> u32 \<Rightarrow> 'f wifi \<Rightarrow> u32" where
  "softAPNetworkID gw netmask w = (if getMode w = WIFI_MODE_NULL then 0 else calculateNetworkID gw netmask)"

definition softAPSubnetCIDR :: "u32 \<Rightarrow> 'f wifi \<Rightarrow> nat" where
  "softAPSubnetCIDR netmask w = (if getMode w = WIFI_MODE_NULL then 0 else calculateSubnetCIDR netmask)"

section \<open>The station\<close>

definition sta_config_of :: "string \<Rightarrow> string option \<Rightarrow> int \<Rightarrow> bytes option \<Rightarrow> sta_config" where
  "sta_config_of ssid passphrase channel bssid =
     \<lparr>st_ssid = cstr ssid, st_password = (case passphrase of None \<Rightarrow> [] | Some p \<Rightarrow> cstr p), st_bssid = bssid,
      st_channel = (if 0 < channel \<and> channel \<le> 13 then nat channel else 0)\<rparr>"

text \<open>The address by DHCP or as set; the answer is whether the DHCP client failed to start.\<close>

definition sta_address :: "esp \<Rightarrow> 'f wifi \<Rightarrow> bool \<times> 'f wifi" where
  "sta_address E w =
     (if \<not> w_static_ip w then (\<not> e_dhcpc_start E, tell [Esp_dhcpc_start] w) else (False, tell [Esp_dhcpc_stop] w))"

definition sta_connect :: "esp \<Rightarrow> bool \<Rightarrow> 'f wifi \<Rightarrow> wl_status \<times> 'f wifi" where
  "sta_connect E connect w =
     (case sta_address E w of
        (True, w1) \<Rightarrow> (WL_CONNECT_FAILED, w1)
      | (False, w1) \<Rightarrow>
          if connect then
            (if e_connect E then (w_status w1, tell [Esp_connect] w1) else (WL_CONNECT_FAILED, tell [Esp_connect] w1))
          else (w_status w1, w1))"

definition sta_begin ::
  "esp \<Rightarrow> string \<Rightarrow> string option \<Rightarrow> int \<Rightarrow> bytes option \<Rightarrow> bool \<Rightarrow> 'f wifi \<Rightarrow> wl_status \<times> 'f wifi" where
  "sta_begin E ssid passphrase channel bssid connect w =
     (case enableSTA E True w of
        (False, w1) \<Rightarrow> (WL_CONNECT_FAILED, w1)
      | (True, w1) \<Rightarrow>
          if cstr ssid = [] \<or> 31 < length (cstr ssid) then (WL_CONNECT_FAILED, w1)
          else if (case passphrase of None \<Rightarrow> False | Some p \<Rightarrow> 64 < length (cstr p)) then (WL_CONNECT_FAILED, w1)
          else
            let c = sta_config_of ssid passphrase channel bssid in
            if \<not> e_sta_same E c then
              (if \<not> e_disconnect E then (WL_CONNECT_FAILED, tell [Esp_disconnect] w1)
               else sta_connect E connect (tell [Esp_disconnect, Esp_sta_config c] w1))
            else if w_status w1 = WL_CONNECTED_STATUS then (WL_CONNECTED_STATUS, w1)
            else sta_connect E connect (tell [Esp_sta_config c] w1))"

definition sta_begin_again :: "esp \<Rightarrow> 'f wifi \<Rightarrow> wl_status \<times> 'f wifi" where
  "sta_begin_again E w =
     (case enableSTA E True w of
        (False, w1) \<Rightarrow> (WL_CONNECT_FAILED, w1)
      | (True, w1) \<Rightarrow>
          if \<not> e_sta_get E \<or> \<not> e_set_sta E then (WL_CONNECT_FAILED, w1)
          else sta_connect E (w_status w1 \<noteq> WL_CONNECTED_STATUS) w1)"

definition sta_reconnect :: "esp \<Rightarrow> 'f wifi \<Rightarrow> bool \<times> 'f wifi" where
  "sta_reconnect E w =
     (if getMode w AND WIFI_MODE_STA = 0 then (False, w)
      else if \<not> e_disconnect E then (False, tell [Esp_disconnect] w)
      else (e_connect E, tell [Esp_disconnect, Esp_connect] w))"

definition sta_disconnect :: "esp \<Rightarrow> bool \<Rightarrow> bool \<Rightarrow> 'f wifi \<Rightarrow> bool \<times> 'f wifi" where
  "sta_disconnect E wifioff eraseap w =
     (if getMode w AND WIFI_MODE_STA = 0 then (False, w)
      else
        let w1 = (if eraseap then tell [Esp_sta_config (sta_config_of [] None 0 None)] w else w);
            w2 = tell [Esp_disconnect] w1
        in if \<not> e_disconnect E then (False, w2)
           else if wifioff then enableSTA E False w2
           else (True, w2))"

definition dns_servers :: "u32 \<Rightarrow> u32 \<Rightarrow> esp_call list" where
  "dns_servers dns1 dns2 =
     (if dns1 \<noteq> 0 then [Esp_dns_server 0 dns1] else []) @ (if dns2 \<noteq> 0 then [Esp_dns_server 1 dns2] else [])"

definition sta_set_config :: "esp \<Rightarrow> u32 \<Rightarrow> u32 \<Rightarrow> u32 \<Rightarrow> u32 \<Rightarrow> u32 \<Rightarrow> 'f wifi \<Rightarrow> bool \<times> 'f wifi" where
  "sta_set_config E local_ip gateway subnet dns1 dns2 w =
     (case enableSTA E True w of
        (False, w1) \<Rightarrow> (False, w1)
      | (True, w1) \<Rightarrow>
          let w2 = tell [Esp_dhcpc_stop] w1;
              given = (local_ip \<noteq> 0);
              w3 = tell [if given then Esp_sta_ip local_ip gateway subnet else Esp_sta_ip 0 0 0] w2
          in if \<not> e_dhcpc_stop E then (False, w2)
             else if \<not> e_set_sta_ip E then (False, w3)
             else if given then (True, tell (dns_servers dns1 dns2) (w3\<lparr>w_static_ip := True\<rparr>))
             else if \<not> e_dhcpc_start E then (False, tell [Esp_dhcpc_start] w3)
             else (True, tell (Esp_dhcpc_start # dns_servers dns1 dns2) (w3\<lparr>w_static_ip := False\<rparr>)))"

definition setAutoConnect :: "bool \<Rightarrow> 'f wifi \<Rightarrow> bool \<times> 'f wifi" where
  "setAutoConnect autoConnect w = (False, w)"

definition setAutoReconnect :: "bool \<Rightarrow> 'f wifi \<Rightarrow> bool \<times> 'f wifi" where
  "setAutoReconnect autoReconnect w = (True, w\<lparr>w_auto_reconnect := autoReconnect\<rparr>)"

section \<open>Events\<close>

definition REASON_AUTH_EXPIRE :: nat where "REASON_AUTH_EXPIRE = 2"
definition REASON_BEACON_TIMEOUT :: nat where "REASON_BEACON_TIMEOUT = 200"
definition REASON_NO_AP_FOUND :: nat where "REASON_NO_AP_FOUND = 201"
definition REASON_AUTH_FAIL :: nat where "REASON_AUTH_FAIL = 202"
definition REASON_ASSOC_FAIL :: nat where "REASON_ASSOC_FAIL = 203"
definition REASON_HANDSHAKE_TIMEOUT :: nat where "REASON_HANDSHAKE_TIMEOUT = 204"

definition disconnect_status :: "nat \<Rightarrow> wl_status \<Rightarrow> wl_status" where
  "disconnect_status reason old =
     (if reason = REASON_NO_AP_FOUND then WL_NO_SSID_AVAIL
      else if reason = REASON_AUTH_FAIL \<or> reason = REASON_ASSOC_FAIL then WL_CONNECT_FAILED
      else if reason = REASON_BEACON_TIMEOUT \<or> reason = REASON_HANDSHAKE_TIMEOUT then WL_CONNECTION_LOST
      else if reason = REASON_AUTH_EXPIRE then old
      else WL_DISCONNECTED)"

definition tries_again :: "nat \<Rightarrow> bool" where
  "tries_again reason \<longleftrightarrow>
     reason = REASON_AUTH_EXPIRE \<or> (REASON_BEACON_TIMEOUT \<le> reason \<and> reason \<noteq> REASON_AUTH_FAIL)"

definition event_effect :: "esp \<Rightarrow> event \<Rightarrow> 'f wifi \<Rightarrow> 'f wifi" where
  "event_effect E ev w =
     (case ev_id ev of
        SCAN_DONE \<Rightarrow> clearStatusBits WIFI_SCANNING_BIT (setStatusBits WIFI_SCAN_DONE_BIT w)
      | STA_START \<Rightarrow> setStatusBits STA_STARTED_BIT (w\<lparr>w_status := WL_DISCONNECTED\<rparr>)
      | STA_STOP \<Rightarrow> clearStatusBits (STA_STARTED_BIT OR STA_CONNECTED_BIT OR STA_HAS_IP_BIT OR STA_HAS_IP6_BIT)
          (w\<lparr>w_status := WL_NO_SHIELD\<rparr>)
      | STA_CONNECTED \<Rightarrow> setStatusBits STA_CONNECTED_BIT (w\<lparr>w_status := WL_IDLE_STATUS\<rparr>)
      | STA_DISCONNECTED \<Rightarrow>
          (let w1 = clearStatusBits (STA_CONNECTED_BIT OR STA_HAS_IP_BIT OR STA_HAS_IP6_BIT)
                 (w\<lparr>w_status := disconnect_status (ev_reason ev) (w_status w)\<rparr>)
           in if tries_again (ev_reason ev) \<and> w_auto_reconnect w1
              then snd (sta_begin_again E (snd (sta_disconnect E False False w1))) else w1)
      | STA_GOT_IP \<Rightarrow> setStatusBits (STA_HAS_IP_BIT OR STA_CONNECTED_BIT) (w\<lparr>w_status := WL_CONNECTED_STATUS\<rparr>)
      | STA_LOST_IP \<Rightarrow> clearStatusBits STA_HAS_IP_BIT (w\<lparr>w_status := WL_IDLE_STATUS\<rparr>)
      | AP_START \<Rightarrow> setStatusBits AP_STARTED_BIT w
      | AP_STOP \<Rightarrow> clearStatusBits (AP_STARTED_BIT OR AP_HAS_CLIENT_BIT) w
      | AP_STACONNECTED \<Rightarrow> setStatusBits AP_HAS_CLIENT_BIT w
      | AP_STADISCONNECTED \<Rightarrow>
          (case ev_clients ev of
             Some n \<Rightarrow> if n = 0 then clearStatusBits AP_HAS_CLIENT_BIT w else w
           | None \<Rightarrow> clearStatusBits AP_HAS_CLIENT_BIT w)
      | ETH_START \<Rightarrow> setStatusBits ETH_STARTED_BIT w
      | ETH_STOP \<Rightarrow> clearStatusBits (ETH_STARTED_BIT OR ETH_CONNECTED_BIT OR ETH_HAS_IP_BIT OR ETH_HAS_IP6_BIT) w
      | ETH_CONNECTED \<Rightarrow> setStatusBits ETH_CONNECTED_BIT w
      | ETH_DISCONNECTED \<Rightarrow> clearStatusBits (ETH_CONNECTED_BIT OR ETH_HAS_IP_BIT OR ETH_HAS_IP6_BIT) w
      | ETH_GOT_IP \<Rightarrow> setStatusBits (ETH_CONNECTED_BIT OR ETH_HAS_IP_BIT) w
      | GOT_IP6 \<Rightarrow>
          (case ev_if ev of
             IF_AP \<Rightarrow> setStatusBits AP_HAS_IP6_BIT w
           | IF_STA \<Rightarrow> setStatusBits (STA_CONNECTED_BIT OR STA_HAS_IP6_BIT) w
           | IF_ETH \<Rightarrow> setStatusBits (ETH_CONNECTED_BIT OR ETH_HAS_IP6_BIT) w)
      | _ \<Rightarrow> w)"

text \<open>The state after the event and the callbacks that are called.\<close>

definition eventCallback :: "esp \<Rightarrow> event \<Rightarrow> 'f wifi \<Rightarrow> 'f wifi \<times> 'f list" where
  "eventCallback E ev w = (event_effect E ev w, called (ev_id ev) (event_effect E ev w))"

section \<open>What the operations leave alone\<close>

lemma wifi_frame [frame_simps]:
  "w_auto_reconnect (tell cs w) = w_auto_reconnect w" "w_auto_reconnect (setStatusBits b w) = w_auto_reconnect w"
  "w_auto_reconnect (clearStatusBits b w) = w_auto_reconnect w" "w_auto_reconnect (onEvent cb ev w) = w_auto_reconnect w"
  "getMode (tell cs w) = getMode w" "getMode (setStatusBits b w) = getMode w" "getMode (clearStatusBits b w) = getMode w"
  "getMode (onEvent cb ev w) = getMode w" "getMode (w\<lparr>w_status := st\<rparr>) = getMode w"
  "w_static_ip (tell cs w) = w_static_ip w" "w_static_ip (setStatusBits b w) = w_static_ip w"
  "w_static_ip (clearStatusBits b w) = w_static_ip w"
  "w_calls (tell cs w) = w_calls w @ cs" "w_calls (setStatusBits b w) = w_calls w" "w_calls (clearStatusBits b w) = w_calls w"
  by (simp_all add: tell_def setStatusBits_def clearStatusBits_def onEvent_def getMode_def)

lemma wifi_mode_frame [frame_simps]: "w_auto_reconnect (snd (wifi_mode E m w)) = w_auto_reconnect w"
  by (auto simp: wifi_mode_def set_wifi_mode_def espWiFiStart_def espWiFiStop_def wifiLowLevelInit_def Let_def frame_simps
      split: prod.split bool.split)

lemma enable_frame [frame_simps]:
  "w_auto_reconnect (snd (enableSTA E b w)) = w_auto_reconnect w" "w_auto_reconnect (snd (enableAP E b w)) = w_auto_reconnect w"
  by (simp_all add: enableSTA_def enableAP_def enable_mode_def Let_def frame_simps)

lemma enable_auto:
  "enableAP E b w = (r, w') \<Longrightarrow> w_auto_reconnect w' = w_auto_reconnect w"
  "enableSTA E b w = (r, w') \<Longrightarrow> w_auto_reconnect w' = w_auto_reconnect w"
  using enable_frame [of E b w] by (metis snd_conv)+

lemma access_point_frame [frame_simps]:
  "w_auto_reconnect (snd (softAP E s p c h m w)) = w_auto_reconnect w"
  "w_auto_reconnect (snd (softAPConfig E i g n w)) = w_auto_reconnect w"
  "w_auto_reconnect (snd (setSleep E b w)) = w_auto_reconnect w"
  by (auto simp: softAP_def softAPConfig_def setSleep_def Let_def frame_simps dest: enable_auto split: prod.split bool.split)

lemma sta_connect_frame [frame_simps]: "w_auto_reconnect (snd (sta_connect E b w)) = w_auto_reconnect w"
  by (cases "e_dhcpc_start E") (simp_all add: sta_connect_def sta_address_def frame_simps)

lemma station_frame [frame_simps]:
  "w_auto_reconnect (snd (sta_begin E s p c b x w)) = w_auto_reconnect w"
  "w_auto_reconnect (snd (sta_begin_again E w)) = w_auto_reconnect w"
  "w_auto_reconnect (snd (sta_disconnect E off erase w)) = w_auto_reconnect w"
  by (auto simp: sta_begin_def sta_begin_again_def sta_disconnect_def Let_def frame_simps dest: enable_auto
      split: prod.split bool.split)

lemma event_auto [frame_simps]: "w_auto_reconnect (event_effect E ev w) = w_auto_reconnect w"
  by (simp add: event_effect_def Let_def frame_simps split: event_id.split interface.split option.split)

text \<open>A station that was lost is connected again by the library alone.\<close>

lemma disconnect_reconnects:
  assumes "w_auto_reconnect w" "getMode w AND WIFI_MODE_STA \<noteq> 0" "ev_id ev = STA_DISCONNECTED" "REASON_BEACON_TIMEOUT \<le> ev_reason ev" "ev_reason ev \<noteq> REASON_AUTH_FAIL"
    and "e_disconnect E" "e_sta_get E" "e_set_sta E" "w_static_ip w \<or> e_dhcpc_start E"
  shows "Esp_connect \<in> set (drop (length (w_calls w)) (w_calls (event_effect E ev w)))"
proof -
  define w1 where "w1 = clearStatusBits (STA_CONNECTED_BIT OR STA_HAS_IP_BIT OR STA_HAS_IP6_BIT)
    (w\<lparr>w_status := disconnect_status (ev_reason ev) (w_status w)\<rparr>)"
  have w1: "getMode w1 = getMode w" "w_auto_reconnect w1" "w_static_ip w1 = w_static_ip w" "w_calls w1 = w_calls w"
    and st: "w_status w1 = disconnect_status (ev_reason ev) (w_status w)"
    using assms(1) by (simp_all add: w1_def frame_simps) (simp add: clearStatusBits_def)
  have d: "sta_disconnect E False False w1 = (True, tell [Esp_disconnect] w1)"
    using assms w1 by (simp add: sta_disconnect_def)
  have e: "event_effect E ev w = snd (sta_begin_again E (tell [Esp_disconnect] w1))"
    using assms(3-5) w1(2) d by (simp add: event_effect_def tries_again_def w1_def [symmetric])
  have s: "enableSTA E True (tell [Esp_disconnect] w1) = (True, tell [Esp_disconnect] w1)"
    using assms(2) w1(1) by (simp add: enableSTA_def enable_mode_def frame_simps)
  have tell_status: "w_status (tell cs x) = w_status x" for cs and x :: "'a wifi" by (simp add: tell_def)
  have n: "w_status w1 \<noteq> WL_CONNECTED_STATUS"
    unfolding st using assms(4) by (auto simp: disconnect_status_def REASON_BEACON_TIMEOUT_def REASON_AUTH_EXPIRE_def)
  have "w_calls (event_effect E ev w) =
      w_calls w @ [Esp_disconnect, if w_static_ip w then Esp_dhcpc_stop else Esp_dhcpc_start, Esp_connect]"
    unfolding e using assms(7-9) w1 n tell_status
    by (cases "w_static_ip w") (simp_all add: sta_begin_again_def s sta_connect_def sta_address_def frame_simps)
  then show ?thesis by simp
qed

end
