(* ===== verification/Setup.thy ===== *)
theory Setup
  imports Wifi_Driver Connection_Control Http_Routing Dns_Server Station_Table Command_Facts
begin

text \<open>
  \<open>setup\<close> and \<open>configAP\<close> of \<open>WSKey32.ino\<close>: from the flash image to the running lock.  The delays,
  the pins and the output on the serial line are left out.
\<close>

section \<open>The running lock\<close>

datatype wifi_callback =
  On_WiFiStationDisconnected | On_WiFiStationConnected | On_WiFiStaIPassigned |
  On_sta_connected_to_AP | On_sta_lost | On_sta_got_ip

record running =
  r_dev :: device
  r_sta :: stations
  r_wifi :: "wifi_callback wifi"
  r_routes :: "callback handler list"
  r_notFound :: "callback option"
  r_dns :: dns
  r_plain_client :: bool
  r_secure_client :: bool
  r_antilock_timeoutMs :: int

text \<open>\<open>b_hard_level\<close> is the level of the hard-reset pin, low while pressed.\<close>

record boot_env =
  b_garbage :: bytes
  b_hard_level :: bool
  b_esp :: esp
  b_new_client :: bool
  b_env :: env

datatype boot = Runs running | Hangs

section \<open>The access point\<close>

definition ip_of :: "bytes \<Rightarrow> u32" where
  "ip_of a = from_octets (of_char (char_at a 0)) (of_char (char_at a 1)) (of_char (char_at a 2)) (of_char (char_at a 3))"

definition register_events :: "wifi_callback wifi \<Rightarrow> wifi_callback wifi" where
  "register_events w =
     onEvent On_sta_got_ip STA_GOT_IP (
     onEvent On_sta_lost STA_LOST_IP (
     onEvent On_sta_lost STA_DISCONNECTED (
     onEvent On_sta_connected_to_AP STA_CONNECTED (
     onEvent On_WiFiStaIPassigned AP_STAIPASSIGNED (
     onEvent On_WiFiStationConnected AP_STACONNECTED (
     onEvent On_WiFiStationDisconnected AP_STADISCONNECTED w))))))"

definition configAP :: "esp \<Rightarrow> SWdata \<Rightarrow> wifi_callback wifi \<Rightarrow> bool \<times> wifi_callback wifi" where
  "configAP E d w =
     (let w0 = snd (enableAP E True w); apIP = ip_of (EAPIP d) in
      case softAPConfig E apIP apIP (from_octets 255 255 255 0) w0 of
        (False, w1) \<Rightarrow> (False, w1)
      | (True, w1) \<Rightarrow>
          (case softAP E (restore_String (ESSID d) 64) (restore_String (Epass d) 64) 1 0 MAX_CLIENTS w1 of
             (False, w2) \<Rightarrow> (False, w2)
           | (True, w2) \<Rightarrow>
               let w3 = register_events w2
               in (True, if has_flag d FNOREMOTE then snd (setAutoConnect False w3) else w3)))"

section \<open>Setup\<close>

definition connTimeLimit :: int where "connTimeLimit = 8000"
definition respTimeLimit :: int where "respTimeLimit = 10000"

definition setup_wifi :: "esp \<Rightarrow> SWdata \<Rightarrow> wifi_callback wifi \<Rightarrow> wifi_callback wifi" where
  "setup_wifi E d w =
     snd (wifi_mode E (if \<not> has_flag d FNOREMOTE then WIFI_MODE_APSTA else WIFI_MODE_AP)
       (snd (enableAP E False (snd (setSleep E False w)))))"

text \<open>
  The test \<open>parser->data.ESSIDClient != ""\<close> compares addresses and is always true; the names are
  handed over as C strings, read from the array to the first NUL.
\<close>

definition connect_station :: "esp \<Rightarrow> SWdata \<Rightarrow> wifi_callback wifi \<Rightarrow> wifi_callback wifi" where
  "connect_station E d w =
     (if \<not> has_flag d FNOREMOTE
      then snd (sta_begin E (char_ptr d 10) (Some (char_ptr d 11)) 0 None True w) else w)"

definition setup_name :: "env \<Rightarrow> device \<Rightarrow> device" where
  "setup_name E s =
     (if char_ptr (p_data s) 1 = [] then
        saveAllToEEPROM (s\<lparr>p_data := (p_data s)\<lparr>EdeviceName := char_array 64 (default_name E)\<rparr>\<rparr>)
      else s)"

definition setup_timeout :: "int \<Rightarrow> int" where
  "setup_timeout t = (let tmax = max connTimeLimit respTimeLimit in if t < tmax then tmax + 5000 else t)"

text \<open>
  The steps of \<open>setup\<close> on the globals, in the order of the source.  First the LEDs, the relay and the table
  of stations; then the parser, whose text members are empty when it is new.
\<close>

definition setup_pins :: "running \<Rightarrow> running" where
  "setup_pins g =
     g\<lparr>r_dev := (r_dev g)\<lparr>ledState0 := False, ledState1 := False, connected := False, relayState := False\<rparr>,
       r_sta := (r_sta g)\<lparr>macs := replicate MAX_CLIENTS no_mac\<rparr>\<rparr>"

definition create_parser :: "boot_env \<Rightarrow> running \<Rightarrow> running" where
  "create_parser B g =
     g\<lparr>r_dev := (new_settings (b_garbage B) (\<not> b_hard_level B) (r_dev g))
         \<lparr>p_key := [], p_cmd := [], p_argv := [], p_ext := [], p_com := [], p_upload := False\<rparr>\<rparr>"

text \<open>The new server has no routes; with remote control the station connects.\<close>

definition create_server :: "boot_env \<Rightarrow> running \<Rightarrow> running" where
  "create_server B g =
     (let d = p_data (r_dev g); g1 = g\<lparr>r_sta := (r_sta g)\<lparr>sta_connections := 0\<rparr>, r_routes := [], r_notFound := None\<rparr>
      in if \<not> has_flag d FNOREMOTE
         then g1\<lparr>r_wifi := connect_station (b_esp B) d (r_wifi g1), r_dev := (r_dev g1)\<lparr>STA_action := 0\<rparr>\<rparr> else g1)"

text \<open>The clients: a client that could not be created stops the setup for ever.\<close>

definition create_clients :: "boot_env \<Rightarrow> running \<Rightarrow> running option" where
  "create_clients B g =
     (let d = p_data (r_dev g) in
      if \<not> has_flag d FNOREMOTE then
        (let g1 = g\<lparr>r_dev := modConCntr (-1) (r_dev g)\<rparr> in
         if \<not> has_flag d FSSL \<and> \<not> r_plain_client g1
         then (if b_new_client B then Some (g1\<lparr>r_plain_client := True\<rparr>) else None)
         else if (has_flag d FSSL \<or> has_flag d FSECURE) \<and> \<not> r_secure_client g1
         then (if b_new_client B then Some (g1\<lparr>r_secure_client := True\<rparr>) else None)
         else Some g1)
      else Some (g\<lparr>r_dev := modConCntr (-1000) (r_dev g)\<rparr>))"

definition start_services :: "running \<Rightarrow> running" where
  "start_services g =
     g\<lparr>r_routes := register_routes (r_routes g), r_notFound := Some notFoundHandler,
       r_dns := dns_start ''*'' (take 4 (EAPIP (p_data (r_dev g)))) (setErrorReplyCode 0 new_dns)\<rparr>"

definition clear_tables :: "running \<Rightarrow> running" where
  "clear_tables g =
     g\<lparr>r_sta := (r_sta g)\<lparr>macs := replicate MAX_CLIENTS no_mac, ips := replicate MAX_CLIENTS 0\<rparr>\<rparr>"

definition setup_finish :: "boot_env \<Rightarrow> running \<Rightarrow> running" where
  "setup_finish B g =
     g\<lparr>r_dev := setup_name (b_env B) (r_dev g), r_antilock_timeoutMs := setup_timeout (r_antilock_timeoutMs g)\<rparr>"

definition setup_from :: "boot_env \<Rightarrow> running \<Rightarrow> boot" where
  "setup_from B g =
     (let g1 = create_parser B (setup_pins g); d = p_data (r_dev g1) in
      case configAP (b_esp B) d (setup_wifi (b_esp B) d (r_wifi g1)) of
        (False, w) \<Rightarrow> Hangs
      | (True, w) \<Rightarrow>
          (case create_clients B (create_server B (g1\<lparr>r_wifi := w\<rparr>)) of
             None \<Rightarrow> Hangs
           | Some g2 \<Rightarrow> Runs (setup_finish B (clear_tables (start_services g2)))))"

text \<open>The globals as they are initialised when the power comes on.\<close>

definition power_up :: "bytes \<Rightarrow> bytes \<Rightarrow> running" where
  "power_up garbage flash =
     \<lparr>r_dev = initial_device garbage flash, r_sta = no_stations, r_wifi = new_wifi, r_routes = [], r_notFound = None,
      r_dns = new_dns, r_plain_client = False, r_secure_client = False, r_antilock_timeoutMs = antilock_timeoutMs\<rparr>"

definition setup_lock :: "boot_env \<Rightarrow> bytes \<Rightarrow> boot" where
  "setup_lock B flash = setup_from B (power_up (b_garbage B) flash)"

text \<open>From there a start comes to this.\<close>

lemma setup_lock_eq:
  "setup_lock B flash =
     (let s0 = new_settings (b_garbage B) (\<not> b_hard_level B) (initial_device (b_garbage B) flash); d = p_data s0 in
      case configAP (b_esp B) d (setup_wifi (b_esp B) d new_wifi) of
        (False, w) \<Rightarrow> Hangs
      | (True, w) \<Rightarrow>
          let (plain, secure) = setup_clients d
          in if (plain \<or> secure) \<and> \<not> b_new_client B then Hangs
             else
               let s1 = modConCntr (if \<not> has_flag d FNOREMOTE then -1 else -1000) s0
               in Runs \<lparr>r_dev = setup_name (b_env B) s1, r_sta = no_stations, r_wifi = connect_station (b_esp B) d w,
                    r_routes = routes, r_notFound = Some notFoundHandler,
                    r_dns = dns_start ''*'' (take 4 (EAPIP d)) (setErrorReplyCode 0 new_dns),
                    r_plain_client = plain, r_secure_client = secure,
                    r_antilock_timeoutMs = setup_timeout antilock_timeoutMs\<rparr>)"
proof -
  let ?b = "(initial_device (b_garbage B) flash)\<lparr>ledState0 := False, ledState1 := False, connected := False, relayState := False\<rparr>"
  have i: "?b = initial_device (b_garbage B) flash" by (simp add: initial_device_def)
  define s where "s = new_settings (b_garbage B) (\<not> b_hard_level B) (initial_device (b_garbage B) flash)"
  have p: "s\<lparr>p_key := [], p_cmd := [], p_argv := [], p_ext := [], p_com := [], p_upload := False\<rparr> = s"
    "s\<lparr>STA_action := 0\<rparr> = s" "s\<lparr>STA_action := 0, conAPcntr := c\<rparr> = s\<lparr>conAPcntr := c\<rparr>" for c
    by (simp_all add: s_def new_settings_def init_settings_def initial_device_def saveAllToEEPROM_def
        loadAllFromEEPROM_def Let_def)
  have g: "create_parser B (setup_pins (power_up (b_garbage B) flash)) = (power_up (b_garbage B) flash)\<lparr>r_dev := s\<rparr>"
    by (simp add: create_parser_def setup_pins_def power_up_def i p no_stations_def flip: s_def)
  obtain b w where c: "configAP (b_esp B) (p_data s) (setup_wifi (b_esp B) (p_data s) new_wifi) = (b, w)" by fastforce
  have wifi: "r_wifi ((power_up (b_garbage B) flash)\<lparr>r_dev := s\<rparr>) = new_wifi" by (simp add: power_up_def)
  have clients: "create_clients B (create_server B ((power_up (b_garbage B) flash)\<lparr>r_dev := s, r_wifi := w\<rparr>)) =
      (let (plain, secure) = setup_clients (p_data s)
       in if (plain \<or> secure) \<and> \<not> b_new_client B then None
          else Some ((power_up (b_garbage B) flash)
            \<lparr>r_dev := modConCntr (if \<not> has_flag (p_data s) FNOREMOTE then -1 else -1000) s,
             r_wifi := connect_station (b_esp B) (p_data s) w, r_plain_client := plain, r_secure_client := secure\<rparr>))"
    by (cases "has_flag (p_data s) FNOREMOTE"; cases "has_flag (p_data s) FSSL"; cases "b_new_client B")
       (simp_all add: power_up_def create_server_def create_clients_def setup_clients_def modConCntr_def connect_station_def
        no_stations_def p(2,3) Let_def)
  have finish: "setup_finish B (clear_tables (start_services ((power_up (b_garbage B) flash)
        \<lparr>r_dev := modConCntr v s, r_wifi := u, r_plain_client := plain, r_secure_client := secure\<rparr>))) =
      \<lparr>r_dev = setup_name (b_env B) (modConCntr v s), r_sta = no_stations, r_wifi = u,
       r_routes = routes, r_notFound = Some notFoundHandler,
       r_dns = dns_start ''*'' (take 4 (EAPIP (p_data s))) (setErrorReplyCode 0 new_dns),
       r_plain_client = plain, r_secure_client = secure, r_antilock_timeoutMs = setup_timeout antilock_timeoutMs\<rparr>"
    for v u plain secure
    by (simp add: setup_finish_def clear_tables_def start_services_def power_up_def no_stations_def routes_def)
  have start: "setup_lock B flash =
      (case (b, w) of (False, w) \<Rightarrow> Hangs
       | (True, w) \<Rightarrow>
          (case create_clients B (create_server B ((power_up (b_garbage B) flash)\<lparr>r_dev := s, r_wifi := w\<rparr>)) of
             None \<Rightarrow> Hangs
           | Some g2 \<Rightarrow> Runs (setup_finish B (clear_tables (start_services g2)))))"
    unfolding setup_lock_def setup_from_def Let_def g wifi c [symmetric] by simp
  show ?thesis
  proof (cases b)
    case True
    obtain plain secure where sc: "setup_clients (p_data s) = (plain, secure)" by fastforce
    show ?thesis
      unfolding start clients True s_def [symmetric] Let_def c sc prod.case bool.case
      by (cases "(plain \<or> secure) \<and> \<not> b_new_client B") (simp_all only: if_True if_False option.case finish simp_thms)
  next
    case False
    then show ?thesis unfolding start s_def [symmetric] Let_def c by simp
  qed
qed

section \<open>When the access point starts\<close>

definition esp_ok :: "esp \<Rightarrow> bool" where
  "esp_ok E \<longleftrightarrow> e_init E \<and> e_start E \<and> (\<forall>m. e_set_mode E m) \<and> e_set_ap E \<and> e_set_ap_ip E \<and> e_dhcps E"

definition ap_names_ok :: "SWdata \<Rightarrow> bool" where
  "ap_names_ok d \<longleftrightarrow>
     restore_String (ESSID d) 64 \<noteq> [] \<and>
     (restore_String (Epass d) 64 = [] \<or> 8 \<le> length (restore_String (Epass d) 64))"

lemma restore_String_cstr [simp]: "cstr (restore_String a n) = restore_String a n"
  by (simp add: restore_String_def cstr_def)

lemma softAP_refuses:
  assumes "cstr ssid = [] \<or> (0 < length (cstr p) \<and> length (cstr p) < 8)"
  shows "fst (softAP E ssid p c h m w) = False"
  using assms by (auto simp: softAP_def split: prod.split bool.split)

lemma enable_mode_ok:
  assumes "esp_ok E" "b \<noteq> 0"
  shows "fst (enable_mode b E True w)"
proof -
  have "getMode w OR b \<noteq> 0" using assms(2) by (metis or_eq_0_iff)
  then show ?thesis
    using assms(1) by (auto simp: esp_ok_def enable_mode_def wifi_mode_def set_wifi_mode_def espWiFiStart_def
        wifiLowLevelInit_def Let_def split: prod.split bool.split)
qed

lemma softAP_accepts:
  assumes "esp_ok E" "cstr ssid \<noteq> []" "cstr p = [] \<or> 8 \<le> length (cstr p)"
  shows "fst (softAP E ssid p c h m w)"
  using assms enable_mode_ok [OF assms(1), of WIFI_MODE_AP w]
  by (auto simp: softAP_def enableAP_def esp_ok_def Let_def WIFI_MODE_AP_def split: prod.split bool.split)

lemma softAPConfig_accepts: "esp_ok E \<Longrightarrow> fst (softAPConfig E i g n w)"
  using enable_mode_ok [of E WIFI_MODE_AP w]
  by (auto simp: softAPConfig_def enableAP_def esp_ok_def Let_def WIFI_MODE_AP_def split: prod.split bool.split)

lemma configAP_fst:
  "fst (configAP E d w) =
     (let c = softAPConfig E (ip_of (EAPIP d)) (ip_of (EAPIP d)) (from_octets 255 255 255 0) (snd (enableAP E True w))
      in fst c \<and> fst (softAP E (restore_String (ESSID d) 64) (restore_String (Epass d) 64) 1 0 MAX_CLIENTS (snd c)))"
  by (simp add: configAP_def Let_def split: prod.split bool.split)

lemma configAP_refuses: "\<not> ap_names_ok d \<Longrightarrow> \<not> fst (configAP E d w)"
  using softAP_refuses [of "restore_String (ESSID d) 64" "restore_String (Epass d) 64" E 1 0 MAX_CLIENTS]
  by (auto simp: configAP_fst ap_names_ok_def Let_def not_le)

lemma configAP_accepts: "esp_ok E \<Longrightarrow> ap_names_ok d \<Longrightarrow> fst (configAP E d w)"
  unfolding configAP_fst Let_def ap_names_ok_def
  by (intro conjI softAPConfig_accepts softAP_accepts) simp_all

text \<open>The modes of the driver, and its own reconnecting, which nothing in the program switches off.\<close>

lemma setup_wifi_mode:
  assumes "esp_ok E"
  shows "getMode (setup_wifi E d new_wifi) = (if has_flag d FNOREMOTE then WIFI_MODE_AP else WIFI_MODE_APSTA)"
proof -
  let ?w = "new_wifi :: wifi_callback wifi"
  have n: "getMode ?w = 0" by (simp add: getMode_def new_wifi_def WIFI_MODE_NULL_def)
  have s: "setSleep E False ?w = (False, ?w)" and a: "enableAP E False ?w = (True, ?w)"
    using n by (simp_all add: setSleep_def enableAP_def enable_mode_def)
  have "getMode (snd (wifi_mode E m ?w)) = m" if "m \<noteq> 0" for m
    using assms that n by (simp add: wifi_mode_def WIFI_MODE_NULL_def espWiFiStart_def wifiLowLevelInit_def new_wifi_def Let_def
        esp_ok_def set_wifi_mode_def getMode_def tell_def)
  then show ?thesis by (simp add: setup_wifi_def s a WIFI_MODE_AP_def WIFI_MODE_APSTA_def)
qed

lemma enableAP_on: "getMode w AND WIFI_MODE_AP \<noteq> 0 \<Longrightarrow> enableAP E True w = (True, w)"
  by (simp add: enableAP_def enable_mode_def)

lemma configAP_mode:
  assumes "getMode w AND WIFI_MODE_AP \<noteq> 0"
  shows "getMode (snd (configAP E d w)) = getMode w"
proof -
  have c: "softAPConfig E i g n w = (b, v) \<Longrightarrow> getMode v = getMode w"
    "softAP E t p k h m u = (b, v) \<Longrightarrow> getMode u = getMode w \<Longrightarrow> getMode v = getMode w"
    for i g n t p k h m b and u v :: "wifi_callback wifi"
    using assms by (auto simp: softAPConfig_def softAP_def enableAP_on Let_def frame_simps split: if_splits)
  show ?thesis
    using assms by (auto simp: configAP_def enableAP_on Let_def register_events_def setAutoConnect_def frame_simps
        split: prod.split bool.split dest!: c)
qed

lemma setup_auto [frame_simps]:
  "w_auto_reconnect (setup_wifi E d w) = w_auto_reconnect w" "w_auto_reconnect (snd (configAP E d w)) = w_auto_reconnect w"
  "w_auto_reconnect (connect_station E d w) = w_auto_reconnect w"
proof -
  show "w_auto_reconnect (setup_wifi E d w) = w_auto_reconnect w" by (simp add: setup_wifi_def frame_simps)
  show "w_auto_reconnect (connect_station E d w) = w_auto_reconnect w" by (simp add: connect_station_def frame_simps)
  have c: "softAPConfig E i g n v = (b, v') \<Longrightarrow> w_auto_reconnect v' = w_auto_reconnect v"
    "softAP E t p k h m v = (b, v') \<Longrightarrow> w_auto_reconnect v' = w_auto_reconnect v" for i g n t p k h m b and v v' :: "wifi_callback wifi"
    using access_point_frame(2) [of E i g n v] access_point_frame(1) [of E t p k h m v] by simp_all
  show "w_auto_reconnect (snd (configAP E d w)) = w_auto_reconnect w"
    by (auto simp: configAP_def Let_def register_events_def setAutoConnect_def frame_simps dest!: c split: prod.split bool.split)
qed

lemma new_wifi_auto: "w_auto_reconnect (new_wifi :: wifi_callback wifi)"
  by (simp add: new_wifi_def)

lemma setup_runs_auto: "setup_lock B flash = Runs r \<Longrightarrow> w_auto_reconnect (r_wifi r)"
proof -
  assume r: "setup_lock B flash = Runs r"
  let ?d = "p_data (new_settings (b_garbage B) (\<not> b_hard_level B) (initial_device (b_garbage B) flash))"
  obtain b w where c: "configAP (b_esp B) ?d (setup_wifi (b_esp B) ?d new_wifi) = (b, w)" by fastforce
  have "w_auto_reconnect w"
    using setup_auto(1,2) [of "b_esp B" ?d] c by (metis new_wifi_auto snd_conv)
  then show ?thesis using r c by (auto simp: setup_lock_eq Let_def frame_simps split: prod.splits bool.splits if_splits)
qed

section \<open>What a start gives\<close>

definition initialised :: "bytes \<Rightarrow> bool" where
  "initialised flash \<longleftrightarrow> of_char (char_at flash 0) AND 1 \<noteq> (0 :: nat)"

definition boot_settings :: "boot_env \<Rightarrow> bytes \<Rightarrow> SWdata" where
  "boot_settings B flash = p_data (new_settings (b_garbage B) (\<not> b_hard_level B) (initial_device (b_garbage B) flash))"

lemma boot_settings_eq:
  "boot_settings B flash =
     (if b_hard_level B \<and> initialised flash then ssl_port (eeprom_get flash)
      else ssl_port ((default_SWdata (b_garbage B))\<lparr>Eflag := FSSL OR FNODEFAULT\<rparr>))"
proof -
  have e: "eeprom (initial_device (b_garbage B) flash) = flash" by (simp add: initial_device_def)
  have f: "Eflag (default_SWdata g) = FSSL" for g by (simp add: default_SWdata_def)
  show ?thesis
    by (simp add: boot_settings_def new_settings_def init_settings_def initialised_def Let_def e f loadAllFromEEPROM_def)
qed

lemma setup_hangs: "\<not> ap_names_ok (boot_settings B flash) \<Longrightarrow> setup_lock B flash = Hangs"
  using configAP_refuses [of "boot_settings B flash" "b_esp B" "setup_wifi (b_esp B) (boot_settings B flash) new_wifi"]
  by (auto simp: setup_lock_eq boot_settings_def Let_def split: prod.split bool.split)

lemma ap_names_ok_ssl_port [simp]: "ap_names_ok (ssl_port d) = ap_names_ok d"
  by (simp add: ap_names_ok_def ssl_port_def)

lemma has_flag_ssl_port [simp]: "has_flag (ssl_port d) f = has_flag d f"
  by (simp add: has_flag_def ssl_port_def)

lemma setup_runs:
  assumes "esp_ok (b_esp B)" "ap_names_ok (boot_settings B flash)" "b_new_client B"
  shows "\<exists>r. setup_lock B flash = Runs r"
  using configAP_accepts [OF assms(1,2), of "setup_wifi (b_esp B) (boot_settings B flash) new_wifi"] assms(3)
  by (auto simp: setup_lock_eq boot_settings_def Let_def split: prod.split bool.split)

lemma table_ok_no_stations: "table_ok no_stations"
  by (auto simp: table_ok_def no_stations_def occupied_def inj_on_def)

lemma setup_name_frame:
  "relayState (setup_name E s) = relayState s" "swState (setup_name E s) = swState s" "OTA_enabled (setup_name E s) = OTA_enabled s"
  "p_upload (setup_name E s) = p_upload s" "connected (setup_name E s) = connected s" "antilock (setup_name E s) = antilock s"
  "rst_mode (setup_name E s) = rst_mode s" "ledState0 (setup_name E s) = ledState0 s" "ledState1 (setup_name E s) = ledState1 s"
  "conAPcntr (setup_name E s) = conAPcntr s"
  by (simp_all add: setup_name_def saveAllToEEPROM_def Let_def)

lemma setup_name_ok: "device_ok s \<Longrightarrow> device_ok (setup_name E s)"
  using device_okD [of s] by (auto simp: setup_name_def intro!: wf_rules)

lemma new_settings_device_ok:
  assumes "length g = 800" "initialised (eeprom s) \<Longrightarrow> settings_ok (eeprom_get (eeprom s))"
  shows "device_ok (new_settings g b s)"
proof (cases "\<not> b \<and> initialised (eeprom s)")
  case True
  then have "settings_ok (eeprom_get (eeprom s))" using assms(2) by blast
  with True show ?thesis
    by (simp add: device_ok_def new_settings_def init_settings_def initialised_def Let_def loadAllFromEEPROM_def ssl_port_def)
next
  case False
  have "settings_ok (default_SWdata g)" by (rule settings_ok_default [OF assms(1)])
  with False show ?thesis
    by (simp add: device_ok_def new_settings_def init_settings_def initialised_def Let_def
        ssl_port_def eeprom.rd_wr settings_ok_layout)
qed

lemma boot_device_ok:
  assumes "length (b_garbage B) = 800" "initialised flash \<Longrightarrow> settings_ok (eeprom_get flash)"
  shows "device_ok (new_settings (b_garbage B) (\<not> b_hard_level B) (initial_device (b_garbage B) flash))"
  using assms by (intro new_settings_device_ok) (simp_all add: initial_device_def)

lemma setup_runs_mode:
  assumes "esp_ok (b_esp B)" "setup_lock B flash = Runs r" "\<not> has_flag (boot_settings B flash) FNOREMOTE"
  shows "getMode (r_wifi r) = WIFI_MODE_APSTA"
proof -
  let ?d = "boot_settings B flash"
  let ?w = "setup_wifi (b_esp B) ?d new_wifi"
  have m: "getMode ?w = WIFI_MODE_APSTA" using setup_wifi_mode [OF assms(1), of ?d] assms(3) by simp
  then have c: "getMode (snd (configAP (b_esp B) ?d ?w)) = WIFI_MODE_APSTA"
    using configAP_mode [of ?w "b_esp B" ?d] by (simp add: WIFI_MODE_APSTA_def WIFI_MODE_AP_def)
  have s: "enableSTA E True v = (True, v)" if "getMode v = WIFI_MODE_APSTA" for E and v :: "wifi_callback wifi"
    using that by (simp add: enableSTA_def enable_mode_def WIFI_MODE_APSTA_def WIFI_MODE_STA_def)
  have a: "getMode (snd (sta_connect E b v)) = getMode v" for E b and v :: "wifi_callback wifi"
    by (cases "e_dhcpc_start E") (simp_all add: sta_connect_def sta_address_def frame_simps)
  have "getMode (connect_station E d v) = WIFI_MODE_APSTA" if "getMode v = WIFI_MODE_APSTA" for E d and v :: "wifi_callback wifi"
    using that s by (simp add: connect_station_def sta_begin_def a frame_simps Let_def split: option.split)
  with c show ?thesis
    using assms(2) by (auto simp: setup_lock_eq boot_settings_def Let_def split: prod.splits bool.splits if_splits)
qed

section \<open>A password that stops the next start\<close>

definition set_pass_device :: "string \<Rightarrow> string \<Rightarrow> device \<Rightarrow> device" where
  "set_pass_device k v s = (no_command s)\<lparr>p_key := k, p_argv := v, p_cmd := ''set_pass'', p_com := ''set_pass''\<rparr>"

lemma process_set_pass:
  assumes "k \<noteq> []" "v \<noteq> []" "Ekeys (p_data s) = 0 \<or> checkKey (p_data s) k = ''ISMASTER''"
  shows "process E now (From_server [(''key'', k), (''cmd'', ''set_pass''), (''argv'', v)]) html s =
    reply (save_data (\<lambda>d. d\<lparr>Epass := snd (store_String 64 v)\<rparr>) (set_pass_device k v s)) ''ok.AP password saved''"
proof -
  let ?u = "set_pass_device k v s" and ?src = "From_server [(''key'', k), (''cmd'', ''set_pass''), (''argv'', v)]"
  have low: "to_lower ''key'' = ''key''" "to_lower ''cmd'' = ''cmd''" "to_lower ''argv'' = ''argv''" "to_lower ''set_pass'' = ''set_pass''"
    by (simp_all add: to_lower_def lower_char_def Let_def)
  have r: "read_command ?src s = ((no_command s)\<lparr>p_key := k, p_cmd := ''set_pass'', p_argv := v\<rparr>, None)"
    using assms(1,2) by (simp add: read_command_def read_arg_def low Let_def drop_e_def char_at_def)
  have f: "p_com ?u = ''set_pass''" "p_cmd ?u = ''set_pass''" "p_argv ?u = v" "p_data ?u = p_data s" "p_key ?u = k"
    by (simp_all add: set_pass_device_def no_command_def)
  have c: "key_check ((no_command s)\<lparr>p_key := k, p_argv := v, p_cmd := ''set_pass''\<rparr>) = ''ISMASTER''"
    using assms(3) by (auto simp: key_check_def no_command_def)
  have pub: "process_public E ''ISMASTER'' ?u = None" by (simp add: process_public_def Let_def scom_spec f)
  have keyed: "process_keyed ?u = None" by (simp add: process_keyed_def cmd_case_def f)
  have "process E now ?src html s = process_master E now ?src html ?u"
    unfolding process_def r prod.case option.case using c pub keyed
    by (simp add: low Let_def set_pass_device_def)
  moreover have "process_service E now ?u = None" by (rule service_skip) (simp add: f)
  moreover have "process_access_point ?u =
      Some (reply (save_data (\<lambda>d. d\<lparr>Epass := snd (store_String 64 v)\<rparr>) ?u) ''ok.AP password saved'')"
    by (simp add: process_access_point_def scom_case_def Let_def scom_spec f text_arg_def first_some_Cons)
  ultimately show ?thesis by (simp add: process_master_def first_some_Cons)
qed

lemma saved_image:
  assumes "settings_ok (f (p_data s))"
  shows "initialised (eeprom (save_data f s))"
    "eeprom_get (eeprom (save_data f s)) = (f (p_data s))\<lparr>Eflag := Eflag (f (p_data s)) OR FNODEFAULT\<rparr>"
  using saved_flag_set [of "s\<lparr>p_data := f (p_data s)\<rparr>"] assms
  by (simp_all add: save_data_def initialised_def eeprom.rd_wr settings_ok_layout)

lemma short_password_image:
  assumes "device_ok s" "k \<noteq> []" "Ekeys (p_data s) = 0 \<or> checkKey (p_data s) k = ''ISMASTER''"
    and "0 < length v" "length v < 8" "nul \<notin> set v" "\<not> quoted v"
  shows "initialised (eeprom (fst (process E now (From_server [(''key'', k), (''cmd'', ''set_pass''), (''argv'', v)]) html s)))"
    "\<not> ap_names_ok (eeprom_get (eeprom (fst (process E now (From_server [(''key'', k), (''cmd'', ''set_pass''), (''argv'', v)]) html s))))"
proof -
  let ?f = "\<lambda>d. d\<lparr>Epass := snd (store_String 64 v)\<rparr>"
  have v: "v \<noteq> []" using assms(4) by auto
  have d: "p_data (set_pass_device k v s) = p_data s" by (simp add: set_pass_device_def no_command_def)
  have ok: "settings_ok (?f (p_data (set_pass_device k v s)))"
    using device_okD [OF assms(1)] unfolding d by (auto intro!: wf_rules simp: store_String_def Let_def)
  note p = process_set_pass [OF assms(2) v assms(3), of E now html]
  show "initialised (eeprom (fst (process E now (From_server [(''key'', k), (''cmd'', ''set_pass''), (''argv'', v)]) html s)))"
    unfolding p fst_reply by (rule saved_image(1) [where f = ?f, OF ok])
  have "restore_String (snd (store_String 64 v)) 64 = v"
    using restore_store_String [OF assms(6,7)] assms(5) by simp
  then show "\<not> ap_names_ok (eeprom_get (eeprom (fst (process E now (From_server [(''key'', k), (''cmd'', ''set_pass''), (''argv'', v)]) html s))))"
    unfolding p fst_reply saved_image(2) [where f = ?f, OF ok] using assms(4,5) v by (simp add: ap_names_ok_def)
qed

lemma default_names_ok: "ap_names_ok ((default_SWdata g)\<lparr>Eflag := f\<rparr>)"
  by (simp add: ap_names_ok_def default_SWdata_def char_array_def restore_String_def cstr_def)

text \<open>A controller whose driver is in order, for the witnesses.\<close>

definition good_esp :: esp where
  "good_esp =
     \<lparr>e_group = True, e_init = True, e_start = True, e_stop = True, e_set_mode = (\<lambda>m. True), e_set_ps = True,
      e_ap_current = \<lparr>ap_ssid = [], ap_password = [], ap_open = True, ap_channel = 0, ap_hidden = 0, ap_max_connection = 0\<rparr>,
      e_set_ap = True, e_set_ap_ip = True, e_dhcps = True, e_sta_same = (\<lambda>c. False), e_sta_get = True, e_set_sta = True,
      e_connect = True, e_disconnect = True, e_dhcpc_stop = True, e_set_sta_ip = True, e_dhcpc_start = True,
      e_ssid_room = 32, e_pass_room = 64\<rparr>"

definition good_boot :: boot_env where
  "good_boot = \<lparr>b_garbage = replicate 800 nul, b_hard_level = True, b_esp = good_esp, b_new_client = True, b_env = idle_env\<rparr>"

definition stored_flash :: bytes where
  "stored_flash = eeprom (save_data (\<lambda>d. d) fresh_device)"

lemma good_boot_ok: "esp_ok (b_esp good_boot)" "b_new_client good_boot" "b_hard_level good_boot" "length (b_garbage good_boot) = 800"
  by (simp_all add: esp_ok_def good_boot_def good_esp_def)

lemma stored_flash_ok: "initialised stored_flash" "settings_ok (eeprom_get stored_flash)" "ap_names_ok (eeprom_get stored_flash)"
proof -
  have ok: "settings_ok (p_data fresh_device)" by (rule device_okD [OF fresh_device_ok])
  have e: "eeprom_get stored_flash = (p_data fresh_device)\<lparr>Eflag := Eflag (p_data fresh_device) OR FNODEFAULT\<rparr>"
    unfolding stored_flash_def by (rule saved_image(2) [where f = "\<lambda>d. d", OF ok])
  show "initialised stored_flash" unfolding stored_flash_def by (rule saved_image(1) [where f = "\<lambda>d. d", OF ok])
  show "settings_ok (eeprom_get stored_flash)" "ap_names_ok (eeprom_get stored_flash)"
    unfolding e using ok default_names_ok by (simp_all add: fresh_device_data)
qed

lemma stored_flash_remote: "\<not> has_flag (eeprom_get stored_flash) FNOREMOTE"
proof -
  have ok: "settings_ok (p_data fresh_device)" by (rule device_okD [OF fresh_device_ok])
  show ?thesis
    unfolding stored_flash_def saved_image(2) [where f = "\<lambda>d. d", OF ok] fresh_device_data
    by (simp add: has_flag_def flag_defs default_SWdata_def)
qed

lemma stored_flash_tls: "has_flag (eeprom_get stored_flash) FSSL"
proof -
  have ok: "settings_ok (p_data fresh_device)" by (rule device_okD [OF fresh_device_ok])
  show ?thesis
    unfolding stored_flash_def saved_image(2) [where f = "\<lambda>d. d", OF ok] fresh_device_data
    by (simp add: has_flag_def flag_defs default_SWdata_def)
qed

lemma setup_starts:
  assumes "length (b_garbage B) = 800" "initialised flash \<Longrightarrow> settings_ok (eeprom_get flash)"
    and "setup_lock B flash = Runs r"
  shows "device_ok (r_dev r) \<and> table_ok (r_sta r) \<and> \<not> relayState (r_dev r) \<and> \<not> connected (r_dev r) \<and>
    r_routes r = routes \<and> ap_names_ok (boot_settings B flash) \<and>
    (r_plain_client r, r_secure_client r) = setup_clients (boot_settings B flash)"
proof -
  let ?s0 = "new_settings (b_garbage B) (\<not> b_hard_level B) (initial_device (b_garbage B) flash)"
  have ok: "device_ok ?s0" by (rule boot_device_ok [OF assms(1,2)])
  then have ok': "device_ok (?s0\<lparr>conAPcntr := c\<rparr>)" for c by (simp add: device_ok_def)
  have names: "ap_names_ok (boot_settings B flash)" using assms(3) setup_hangs [of B flash] by auto
  have frame: "relayState ?s0 = False" "connected ?s0 = False"
    by (simp_all add: new_settings_def init_settings_def saveAllToEEPROM_def loadAllFromEEPROM_def Let_def initial_device_def)
  show ?thesis
    using assms(3) names frame table_ok_no_stations
    by (auto simp: setup_lock_eq boot_settings_def Let_def setup_name_frame modConCntr_def
        intro!: setup_name_ok ok' split: prod.splits bool.splits if_splits)
qed

text \<open>The same step by step, from globals of any content.\<close>

lemma new_settings_frame:
  "relayState (new_settings g b s) = relayState s" "connected (new_settings g b s) = connected s"
  "ledState0 (new_settings g b s) = ledState0 s" "ledState1 (new_settings g b s) = ledState1 s"
  by (simp_all add: new_settings_def init_settings_def saveAllToEEPROM_def loadAllFromEEPROM_def Let_def)

lemma new_settings_data: "p_data (new_settings (b_garbage B) (\<not> b_hard_level B) s) = boot_settings B (eeprom s)"
  by (simp add: boot_settings_def new_settings_def init_settings_def saveAllToEEPROM_def loadAllFromEEPROM_def Let_def
      initial_device_def)

text \<open>The device always has a name: the digits of its hardware address if the settings have none.\<close>

lemma setup_name_named:
  assumes "device_ok s"
  shows "char_ptr (p_data (setup_name E s)) 1 \<noteq> []"
proof (cases "char_ptr (p_data s) 1 = []")
  case True
  have "default_name E \<noteq> []" "nul \<notin> set (default_name E)"
    using dec_plain by (auto simp: default_name_def)
  then obtain c t where n: "default_name E = c # t" "c \<noteq> nul" by (cases "default_name E") auto
  let ?d = "(p_data s)\<lparr>EdeviceName := char_array 64 (default_name E), Eflag := Eflag (p_data s) OR FNODEFAULT\<rparr>"
  have "layout_ok ?d" using device_okD [OF assms] by (auto simp: settings_ok_def layout_ok_def char_array_def)
  then have "char_ptr ?d 1 = cstr (concat (drop 1 (members ?d)))" by (rule char_ptr_concat)
  also have "\<dots> \<noteq> []" using n by (simp add: members_def char_array_def cstr_def numeral_eq_Suc)
  finally show ?thesis using True by (simp add: setup_name_def)
qed (simp add: setup_name_def)

lemma setup_from_steps:
  assumes "setup_from B g = Runs r"
  obtains w g2 where "create_clients B (create_server B ((create_parser B (setup_pins g))\<lparr>r_wifi := w\<rparr>)) = Some g2"
    "r = setup_finish B (clear_tables (start_services g2))" "ap_names_ok (boot_settings B (eeprom (r_dev g)))"
proof -
  let ?g1 = "create_parser B (setup_pins g)"
  have d: "p_data (r_dev ?g1) = boot_settings B (eeprom (r_dev g))"
    by (simp add: create_parser_def setup_pins_def new_settings_data)
  obtain b w where c: "configAP (b_esp B) (p_data (r_dev ?g1)) (setup_wifi (b_esp B) (p_data (r_dev ?g1)) (r_wifi ?g1)) = (b, w)"
    by fastforce
  have b: "b" using assms c by (cases b) (simp_all add: setup_from_def Let_def)
  then have "ap_names_ok (boot_settings B (eeprom (r_dev g)))"
    using configAP_refuses c d by (metis fst_conv)
  moreover obtain g2 where "create_clients B (create_server B (?g1\<lparr>r_wifi := w\<rparr>)) = Some g2"
      "r = setup_finish B (clear_tables (start_services g2))"
    using assms c b by (auto simp: setup_from_def Let_def split: option.splits)
  ultimately show thesis using that by blast
qed

lemma setup_from_runs:
  assumes "esp_ok (b_esp B)" "ap_names_ok (boot_settings B (eeprom (r_dev g)))" "b_new_client B"
  shows "\<exists>r. setup_from B g = Runs r"
proof -
  let ?g1 = "create_parser B (setup_pins g)"
  have "p_data (r_dev ?g1) = boot_settings B (eeprom (r_dev g))"
    by (simp add: create_parser_def setup_pins_def new_settings_data)
  then have "fst (configAP (b_esp B) (p_data (r_dev ?g1)) (setup_wifi (b_esp B) (p_data (r_dev ?g1)) (r_wifi ?g1)))"
    using configAP_accepts [OF assms(1,2)] by simp
  then obtain w where c: "configAP (b_esp B) (p_data (r_dev ?g1)) (setup_wifi (b_esp B) (p_data (r_dev ?g1)) (r_wifi ?g1)) = (True, w)"
    by (metis prod.collapse)
  obtain g2 where "create_clients B (create_server B (?g1\<lparr>r_wifi := w\<rparr>)) = Some g2"
    using assms(3) by (fastforce simp: create_clients_def Let_def)
  then show ?thesis using c by (simp add: setup_from_def Let_def)
qed

lemma setup_timeout_ge: "connTimeLimit \<le> setup_timeout t" "respTimeLimit \<le> setup_timeout t"
  by (auto simp: setup_timeout_def Let_def)

text \<open>Which callback answers a request.\<close>

definition answered_by :: "running \<Rightarrow> http_method \<Rightarrow> string \<Rightarrow> callback option" where
  "answered_by r m uri =
     (case find_handler (r_routes r) m uri of Some (Function_handler fn ufn u meth) \<Rightarrow> Some fn | _ \<Rightarrow> r_notFound r)"

lemma answered_by_routes:
  assumes "r_routes r = routes" "r_notFound r = Some handleCaptivePortal"
  shows "answered_by r m uri = Some
     (if uri = ''/update'' \<and> m = HTTP_POST then handleUpdateStatus
      else if uri = ''/upload'' \<and> m = HTTP_POST then handleUploadFileStatus
      else if uri = ''/cmd'' then handleCmd
      else if uri = ''/login'' then handleLogin
      else if uri = ''/favicon.ico'' then handleFavicon
      else handleCaptivePortal)"
  by (simp add: answered_by_def assms routes_def register_routes_def on_def on_upload_def addRequestHandler_def canHandle_literal)

lemma create_clients_step:
  assumes "create_clients B g = Some g2" "\<not> r_plain_client g" "\<not> r_secure_client g"
  shows "r_plain_client g2 = (\<not> has_flag (p_data (r_dev g)) FNOREMOTE \<and> \<not> has_flag (p_data (r_dev g)) FSSL)"
    "r_secure_client g2 = (\<not> has_flag (p_data (r_dev g)) FNOREMOTE \<and> has_flag (p_data (r_dev g)) FSSL)"
    "r_dev g2 = modConCntr (if has_flag (p_data (r_dev g)) FNOREMOTE then -1000 else -1) (r_dev g)"
    "r_sta g2 = r_sta g" "r_routes g2 = r_routes g"
  using assms by (auto simp: create_clients_def Let_def split: if_splits)

section \<open>Properties\<close>

text \<open>C30. Setup makes a well-formed lock of globals with any content, as long as the flash was never initialised
  or holds settings of the right shape and no client exists yet: if it ends, the settings in RAM and flash
  have the right shape, the device has a name, the relay is closed, the LEDs are off, there is no connection,
  no station is in the table, the counter of the connection waits or rests as the remote control switch says,
  exactly the client exists that this switch and the TLS switch ask for, every request of the web is answered
  by the callback of its path, and the watchdog waits longer than a request to the remote host may take.\<close>

theorem setup_starts_well_formed:
  assumes "length (b_garbage B) = 800" "initialised (eeprom (r_dev g)) \<Longrightarrow> settings_ok (eeprom_get (eeprom (r_dev g)))"
    and "length (mac_ms (r_sta g)) = MAX_CLIENTS" "\<not> r_plain_client g" "\<not> r_secure_client g"
    and "setup_from B g = Runs r" "d = boot_settings B (eeprom (r_dev g))"
  shows "device_ok (r_dev r) \<and> char_ptr (p_data (r_dev r)) 1 \<noteq> [] \<and>
    \<not> relayState (r_dev r) \<and> \<not> ledState0 (r_dev r) \<and> \<not> ledState1 (r_dev r) \<and> \<not> connected (r_dev r) \<and>
    table_ok (r_sta r) \<and> occupied (r_sta r) = {} \<and>
    conAPcntr (r_dev r) = (if has_flag d FNOREMOTE then -1000 else -1) \<and>
    r_plain_client r = (\<not> has_flag d FNOREMOTE \<and> \<not> has_flag d FSSL) \<and>
    r_secure_client r = (\<not> has_flag d FNOREMOTE \<and> has_flag d FSSL) \<and>
    (\<forall>m uri. answered_by r m uri = Some
      (if uri = ''/update'' \<and> m = HTTP_POST then handleUpdateStatus
       else if uri = ''/upload'' \<and> m = HTTP_POST then handleUploadFileStatus
       else if uri = ''/cmd'' then handleCmd
       else if uri = ''/login'' then handleLogin
       else if uri = ''/favicon.ico'' then handleFavicon
       else handleCaptivePortal)) \<and>
    connTimeLimit \<le> r_antilock_timeoutMs r \<and> respTimeLimit \<le> r_antilock_timeoutMs r \<and>
    ap_names_ok d"
proof -
  obtain w g2 where g2: "create_clients B (create_server B ((create_parser B (setup_pins g))\<lparr>r_wifi := w\<rparr>)) = Some g2"
    and r: "r = setup_finish B (clear_tables (start_services g2))" and names: "ap_names_ok d"
    using setup_from_steps [OF assms(6)] assms(7) by metis
  let ?g1 = "create_server B ((create_parser B (setup_pins g))\<lparr>r_wifi := w\<rparr>)"
  let ?s = "new_settings (b_garbage B) (\<not> b_hard_level B) (r_dev (setup_pins g))"
  have e: "eeprom (r_dev (setup_pins g)) = eeprom (r_dev g)" by (simp add: setup_pins_def)
  have ok: "device_ok ?s" by (rule new_settings_device_ok) (use assms(1,2) e in simp_all)
  have dev: "device_ok (r_dev ?g1)" "p_data (r_dev ?g1) = d" "\<not> relayState (r_dev ?g1)" "\<not> ledState0 (r_dev ?g1)"
      "\<not> ledState1 (r_dev ?g1)" "\<not> connected (r_dev ?g1)"
    using ok assms(7) e
    by (simp_all add: create_server_def create_parser_def new_settings_frame new_settings_data setup_pins_def Let_def
        device_ok_def)
  have tab: "sta_connections (r_sta ?g1) = 0" "length (mac_ms (r_sta ?g1)) = MAX_CLIENTS" "r_routes ?g1 = []"
      "\<not> r_plain_client ?g1" "\<not> r_secure_client ?g1"
    using assms(3-5) by (simp_all add: create_server_def create_parser_def setup_pins_def Let_def)
  note cl = create_clients_step [OF g2 tab(4,5)]
  have d2: "device_ok (r_dev g2)" using dev(1) cl(3) by (simp add: device_ok_def)
  have occ: "occupied (r_sta r) = {}"
    by (auto simp: r setup_finish_def clear_tables_def occupied_def)
  have "r_routes r = routes" "r_notFound r = Some handleCaptivePortal"
    by (simp_all add: r setup_finish_def clear_tables_def start_services_def cl(5) tab(3) routes_def notFoundHandler_def)
  note serve = answered_by_routes [OF this]
  have "table_ok (r_sta r)"
    using occ tab(1,2) unfolding table_ok_def
    by (simp add: r setup_finish_def clear_tables_def start_services_def cl(4))
  moreover have "device_ok (r_dev r)" "char_ptr (p_data (r_dev r)) 1 \<noteq> []"
    using setup_name_ok [OF d2] setup_name_named [OF d2]
    by (simp_all add: r setup_finish_def clear_tables_def start_services_def)
  ultimately show ?thesis
    using dev names occ serve cl(1-3)
    by (simp add: r setup_finish_def clear_tables_def start_services_def setup_name_frame modConCntr_def
        setup_timeout_ge)
qed

theorem setup_starts_well_formed_witness:
  "\<exists>r. setup_from good_boot ((power_up [] stored_flash)\<lparr>r_dev := (initial_device [] stored_flash)\<lparr>relayState := True\<rparr>\<rparr>) = Runs r \<and>
     device_ok (r_dev r) \<and> \<not> relayState (r_dev r) \<and> r_secure_client r \<and> answered_by r HTTP_GET ''/cmd'' = Some handleCmd"
proof -
  let ?g = "(power_up [] stored_flash)\<lparr>r_dev := (initial_device [] stored_flash)\<lparr>relayState := True\<rparr>\<rparr>"
  have e: "eeprom (r_dev ?g) = stored_flash" by (simp add: initial_device_def)
  have d: "boot_settings good_boot stored_flash = ssl_port (eeprom_get stored_flash)"
    using stored_flash_ok good_boot_ok by (simp add: boot_settings_eq)
  have names: "ap_names_ok (boot_settings good_boot (eeprom (r_dev ?g)))" unfolding e d using stored_flash_ok(3) by simp
  obtain r where r: "setup_from good_boot ?g = Runs r"
    using setup_from_runs [OF good_boot_ok(1) names good_boot_ok(2)] by blast
  have f: "has_flag (boot_settings good_boot (eeprom (r_dev ?g))) FSSL"
    "\<not> has_flag (boot_settings good_boot (eeprom (r_dev ?g))) FNOREMOTE"
    unfolding e d using stored_flash_remote stored_flash_tls by simp_all
  have g: "length (mac_ms (r_sta ?g)) = MAX_CLIENTS" "\<not> r_plain_client ?g" "\<not> r_secure_client ?g"
    by (simp_all add: power_up_def no_stations_def)
  have "settings_ok (eeprom_get (eeprom (r_dev ?g)))" unfolding e by (rule stored_flash_ok(2))
  from setup_starts_well_formed [OF good_boot_ok(4) this g r HOL.refl] r f show ?thesis by auto
qed

text \<open>C31. A password shorter than eight characters is accepted and saved, and the access point is then refused
  it: no later start of the lock ever ends, whatever the driver does, until the hard-reset button is
  held at power-on, which starts it with the default settings.\<close>

theorem short_password_stops_the_lock:
  assumes "device_ok s" "k \<noteq> []" "Ekeys (p_data s) = 0 \<or> checkKey (p_data s) k = ''ISMASTER''"
    and "0 < length v" "length v < 8" "nul \<notin> set v" "\<not> quoted v"
    and "process E now (From_server [(''key'', k), (''cmd'', ''set_pass''), (''argv'', v)]) html s = (s', r)"
  shows "r = Return ''ok.AP password saved'' \<and>
    (b_hard_level B \<longrightarrow> setup_lock B (eeprom s') = Hangs) \<and>
    (\<not> b_hard_level B \<and> esp_ok (b_esp B) \<and> b_new_client B \<longrightarrow> (\<exists>lock. setup_lock B (eeprom s') = Runs lock))"
proof -
  have v: "v \<noteq> []" using assms(4) by auto
  have s': "s' = fst (process E now (From_server [(''key'', k), (''cmd'', ''set_pass''), (''argv'', v)]) html s)"
    using assms(8) by simp
  have i: "initialised (eeprom s')" "\<not> ap_names_ok (eeprom_get (eeprom s'))"
    unfolding s' by (rule short_password_image [OF assms(1-7)])+
  have "setup_lock B (eeprom s') = Hangs" if "b_hard_level B"
    using setup_hangs [of B "eeprom s'"] i that by (simp add: boot_settings_eq)
  moreover have "\<exists>lock. setup_lock B (eeprom s') = Runs lock" if "\<not> b_hard_level B" "esp_ok (b_esp B)" "b_new_client B"
    using setup_runs [of B "eeprom s'"] that default_names_ok by (simp add: boot_settings_eq)
  moreover have "r = Return ''ok.AP password saved''"
    using assms(8) process_set_pass [OF assms(2) v assms(3), of E now html] by (simp add: reply_def)
  ultimately show ?thesis by blast
qed

theorem short_password_stops_the_lock_witness:
  "\<exists>s' r. process idle_env 0 (From_server [(''key'', ''Zhi4E3r''), (''cmd'', ''set_pass''), (''argv'', ''1234567'')]) False fresh_device =
     (s', r) \<and> setup_lock good_boot (eeprom s') = Hangs \<and>
     (\<exists>lock. setup_lock (good_boot\<lparr>b_hard_level := False\<rparr>) (eeprom s') = Runs lock)"
proof -
  obtain s' r where p: "process idle_env 0 (From_server [(''key'', ''Zhi4E3r''), (''cmd'', ''set_pass''), (''argv'', ''1234567'')]) False fresh_device = (s', r)"
    by fastforce
  have "Ekeys (p_data fresh_device) = 0" by (simp add: fresh_device_data) (simp add: default_SWdata_def)
  moreover have "\<not> quoted ''1234567''" by (simp add: quoted_def char_at_def)
  ultimately have q: "(b_hard_level B \<longrightarrow> setup_lock B (eeprom s') = Hangs) \<and>
      (\<not> b_hard_level B \<and> esp_ok (b_esp B) \<and> b_new_client B \<longrightarrow> (\<exists>lock. setup_lock B (eeprom s') = Runs lock))" for B
    using short_password_stops_the_lock [OF fresh_device_ok _ _ _ _ _ _ p] by simp
  show ?thesis using p q [of good_boot] q [of "good_boot\<lparr>b_hard_level := False\<rparr>"] good_boot_ok by auto
qed

end
