(* ===== verification/Lock_System.thy ===== *)
theory Lock_System
  imports Setup Web_Handlers Button_Scan Remote_Facts
begin

text \<open>
  The lock as a whole: a start from the flash, then any sequence of timer ticks, turns of the main
  loop, requests, key files, firmware pieces, polls of the transponder and events of the WiFi
  driver, with a new start whenever the code restarts or faults.  A handler is one step: what the
  source serves while it waits inside another handler appears as steps before or after it.
\<close>

section \<open>State and inputs\<close>

text \<open>
  \<open>dev\<close> of \<open>y_web\<close> and \<open>lock\<close> of \<open>y_rem\<close> are filled in from the board when a handler runs.
\<close>

record 'w system =
  y_board :: scanner
  y_web :: web
  y_rem :: "'w remote"
  y_wifi :: "wifi_callback wifi"
  y_routes :: "callback handler list"

definition device_of :: "'w system \<Rightarrow> device" where
  "device_of y = device.truncate (y_board y)"

text \<open>\<open>process\<close> adds routes to the server when a firmware update starts.\<close>

definition new_routes :: "effect list \<Rightarrow> callback handler list \<Rightarrow> callback handler list" where
  "new_routes es hs =
     fold (\<lambda>e hs. case e of Add_route uri \<Rightarrow> on uri callback.handleRestart None hs | _ \<Rightarrow> hs) es hs"

definition with_device :: "device \<Rightarrow> 'w system \<Rightarrow> 'w system" where
  "with_device d y =
     y\<lparr>y_board := device.extend d (device.more (y_board y)),
       y_routes := new_routes (drop (length (out (device_of y))) (out d)) (y_routes y)\<rparr>"

datatype 'w input =
    Tick bool bool
      \<comment> \<open>the levels of the hard-reset pin and of the button\<close>
  | Turn loop_env
  | Associated "'w surroundings"
  | Poll "'w surroundings"
  | Request pages env http_method string "(string \<times> string) list" u32 u32 "upload_status \<times> string \<times> u32"
      \<comment> \<open>method, URI, arguments, the client's address, the time, the state of the upload\<close>
  | Key_file "upload_status \<times> bytes \<times> u32"
  | Image update_result u32 upload_status
  | Driver esp event u32 mac "(mac \<times> u32) list" u32
      \<comment> \<open>the event, the time, the station it concerns, the driver's list of stations, the address\<close>

type_synonym 'w reaction = "'w system \<times> unit outcome option"

definition on_board :: "(scanner \<Rightarrow> scanner \<times> unit outcome) \<Rightarrow> 'w system \<Rightarrow> 'w reaction" where
  "on_board f y = (case f (y_board y) of (s, r) \<Rightarrow> (y\<lparr>y_board := s\<rparr>, Some r))"

definition on_device :: "(device \<Rightarrow> device \<times> unit outcome) \<Rightarrow> 'w system \<Rightarrow> 'w reaction" where
  "on_device f y = (case f (device_of y) of (d, r) \<Rightarrow> (with_device d y, Some r))"

definition on_web :: "(web \<Rightarrow> web \<times> unit outcome) \<Rightarrow> 'w system \<Rightarrow> 'w reaction" where
  "on_web f y = (case f ((y_web y)\<lparr>dev := device_of y\<rparr>) of (w, r) \<Rightarrow> (with_device (dev w) (y\<lparr>y_web := w\<rparr>), Some r))"

definition on_remote :: "('w remote \<Rightarrow> ('w, 'r) result) \<Rightarrow> 'w system \<Rightarrow> 'w reaction" where
  "on_remote f y =
     (case f ((y_rem y)\<lparr>lock := device_of y\<rparr>) of
        (s, r) \<Rightarrow> (with_device (lock s) (y\<lparr>y_rem := s\<rparr>), map_option (map_outcome (\<lambda>u. ())) r))"

definition returned :: "'a \<Rightarrow> 'a \<times> unit outcome" where
  "returned s = (s, Return ())"

section \<open>Reactions\<close>

text \<open>The callback that the routes give the request runs; the upload callbacks run for each piece.\<close>

definition serve ::
  "pages \<Rightarrow> env \<Rightarrow> callback \<Rightarrow> (string \<times> string) list \<Rightarrow> u32 \<Rightarrow> u32 \<Rightarrow> upload_status \<times> string \<times> u32 \<Rightarrow>
   'w system \<Rightarrow> 'w reaction" where
  "serve P E cb args c_ip now up =
     (case cb of
        callback.handleCmd \<Rightarrow> on_web (Web_Handlers.handleCmd E now c_ip args)
      | callback.handleLogin \<Rightarrow> on_device (Web_Handlers.handleLogin P E now args)
      | callback.handleFavicon \<Rightarrow> on_device (\<lambda>s. returned (Web_Handlers.handleFavicon P s))
      | callback.handleRestart \<Rightarrow> on_device Web_Handlers.handleRestart
      | callback.handleUploadFileStatus \<Rightarrow>
          on_web (\<lambda>w. returned (case up of (st, name, len) \<Rightarrow> Web_Handlers.handleUploadFileStatus st name len w))
      | callback.handleUpdateStatus \<Rightarrow> on_web Web_Handlers.handleUpdateStatus
      | _ \<Rightarrow> on_device (\<lambda>s. returned (portal P [] s)))"

text \<open>\<open>server->handleClient\<close>, the name server, the poll and the first request after a connection are steps of their own.\<close>

definition turn :: "loop_env \<Rightarrow> 'w system \<Rightarrow> 'w reaction" where
  "turn E y =
     on_device (loop (E\<lparr>l_has_client := plain_client (y_rem y), l_on_connected := (\<lambda>d. d), l_dns := (\<lambda>d. d),
       loop_env.l_handleClient := (\<lambda>d. d), l_RequestTransponder := (\<lambda>d. d)\<rparr>)) y"

definition polls_now :: "device \<Rightarrow> bool" where
  "polls_now d \<longleftrightarrow> connected d \<and> \<not> has_flag (p_data d) FNOREMOTE \<and> \<not> has_flag (p_data d) FNOSERVICE \<and>
     \<not> p_upload d \<and> \<not> OTA_enabled d"

text \<open>A callback of the driver's events.\<close>

definition on_stations :: "(stations \<Rightarrow> stations) \<Rightarrow> 'w system \<Rightarrow> 'w system" where
  "on_stations f y = y\<lparr>y_web := (y_web y)\<lparr>sta := f (sta (y_web y))\<rparr>\<rparr>"

definition run_callback :: "u32 \<Rightarrow> mac \<Rightarrow> (mac \<times> u32) list \<Rightarrow> u32 \<Rightarrow> wifi_callback \<Rightarrow> 'w system \<Rightarrow> 'w system" where
  "run_callback now m list ip cb y =
     (case cb of
        On_WiFiStationConnected \<Rightarrow>
          on_stations (\<lambda>s. fst (WiFiStationConnected (\<not> has_flag (p_data (device_of y)) FNOSTACONTROL) now m s)) y
      | On_WiFiStationDisconnected \<Rightarrow> on_stations (WiFiStationDisconnected m) y
      | On_WiFiStaIPassigned \<Rightarrow> on_stations (WiFiStaIPassigned list ip) y
      | On_sta_connected_to_AP \<Rightarrow> with_device (sta_connected_to_AP (device_of y)) y
      | On_sta_lost \<Rightarrow> with_device (sta_lost (device_of y)) y
      | On_sta_got_ip \<Rightarrow> with_device (sta_got_ip (device_of y)) y)"

definition driver_event :: "esp \<Rightarrow> event \<Rightarrow> u32 \<Rightarrow> mac \<Rightarrow> (mac \<times> u32) list \<Rightarrow> u32 \<Rightarrow> 'w system \<Rightarrow> 'w system" where
  "driver_event E ev now m list ip y =
     (case eventCallback E ev (y_wifi y) of
        (w, cbs) \<Rightarrow> fold (run_callback now m list ip) cbs (y\<lparr>y_wifi := w\<rparr>))"

fun react :: "'w input \<Rightarrow> 'w system \<Rightarrow> 'w reaction" where
  "react (Tick hard soft) y = on_board (scan_keys hard soft) y"
| "react (Turn E) y = turn E y"
| "react (Associated L) y = on_remote (on_connected L) y"
| "react (Poll L) y = on_remote (RequestTransponder L []) y"
| "react (Request P E m uri args c_ip now up) y = serve P E (route (y_routes y) m uri) args c_ip now up y"
| "react (Key_file piece) y = on_web (\<lambda>w. returned (Web_Handlers.handleUploadFile True piece w)) y"
| "react (Image u now status) y = on_web (\<lambda>w. returned (Web_Handlers.handleUpdate u now status w)) y"
| "react (Driver E ev now m list ip) y = (driver_event E ev now m list ip y, Some (Return ()))"

text \<open>When an input can come, and what is asked of the surroundings.\<close>

fun possible :: "'w input \<Rightarrow> 'w system \<Rightarrow> bool" where
  "possible (Turn E) y \<longleftrightarrow> length (l_garbage E) = 800 \<and> (STA_action (device_of y) = 1 \<longrightarrow> has_flag (p_data (device_of y)) FNOREMOTE)"
| "possible (Associated L) y \<longleftrightarrow> quiet L \<and> env_ok (l_env L) \<and>
     STA_action (device_of y) = 1 \<and> \<not> has_flag (p_data (device_of y)) FNOREMOTE"
| "possible (Poll L) y \<longleftrightarrow> quiet L \<and> env_ok (l_env L) \<and> polls_now (device_of y)"
| "possible (Request P E m uri args c_ip now up) y \<longleftrightarrow> env_ok E"
| "possible (Driver E ev now m list ip) y \<longleftrightarrow> m \<noteq> no_mac"
| "possible i y \<longleftrightarrow> True"

text \<open>
  The inputs that may open the relay: the button is down, the page of commands or the login gets an
  accepted key, or the poll fetches a line with one.
\<close>

definition admitted :: "source \<Rightarrow> device \<Rightarrow> bool" where
  "admitted src d \<longleftrightarrow> checked src d = ''ISMASTER'' \<or> checked src d = ''FOUND''"

definition fetched :: "'w surroundings \<Rightarrow> 'w remote \<Rightarrow> ('w, string) result" where
  "fetched L s = ask_transponder L ''receive'' [] [] [] (snd (millis s))"

fun authorised :: "'w input \<Rightarrow> 'w system \<Rightarrow> bool" where
  "authorised (Tick hard soft) y \<longleftrightarrow> \<not> soft"
| "authorised (Poll L) y =
     (case fetched L ((y_rem y)\<lparr>lock := device_of y\<rparr>) of
        (s, Some (Return line)) \<Rightarrow> admitted (From_remote line) (lock s)
      | _ \<Rightarrow> False)"
| "authorised (Request P E m uri args c_ip now up) y =
     (case route (y_routes y) m uri of
        callback.handleCmd \<Rightarrow> admitted (From_server args) ((device_of y)\<lparr>ledState0 := True\<rparr>)
      | callback.handleLogin \<Rightarrow> \<not> (\<forall>a \<in> set args. login_refused (p_data (device_of y)) a)
      | _ \<Rightarrow> False)"
| "authorised i y \<longleftrightarrow> False"

text \<open>The lock after a start.  The statics of the button interrupt and of the client begin anew.\<close>

definition started :: "'w \<Rightarrow> u32 \<Rightarrow> u32 list \<Rightarrow> running \<Rightarrow> 'w system" where
  "started w t ds r =
     \<lparr>y_board = device.extend (r_dev r) (device.more (initial_scanner [] [])),
      y_web = \<lparr>dev = r_dev r, sta = r_sta r, starting_w_keys = 0, upd_response = [], upd_code = 0\<rparr>,
      y_rem = \<lparr>lock = r_dev r, world = w, plain_client = r_plain_client r, secure_client = r_secure_client r, cl_err = 0,
        ch_mod = False, cl_delay = 0, localUnixtime = 0, unx_ms = 0, unx_summ = 0, remoteTime = t, refresh_ms = 0,
        time_ms = t, delays = ds\<rparr>,
      y_wifi = r_wifi r, y_routes = r_routes r\<rparr>"

text \<open>A run: its steps so far, each with the state before it, and the state it has reached.\<close>

inductive run :: "bytes \<Rightarrow> ('w system \<times> 'w input) list \<Rightarrow> 'w system \<Rightarrow> bool" for flash where
  power_on: "length (b_garbage B) = 800 \<Longrightarrow> setup_lock B flash = Runs r \<Longrightarrow> run flash [] (started w t ds r)"
| step: "run flash h y \<Longrightarrow> possible i y \<Longrightarrow> react i y = (y', Some (Return ())) \<Longrightarrow> run flash (h @ [(y, i)]) y'"
| power_lost: "run flash h y \<Longrightarrow> length (b_garbage B) = 800 \<Longrightarrow> setup_lock B (eeprom (device_of y)) = Runs r' \<Longrightarrow>
    run flash h (started (world (y_rem y)) t ds r')"
| restart: "run flash h y \<Longrightarrow> possible i y \<Longrightarrow> react i y = (y', Some r) \<Longrightarrow> r \<noteq> Return () \<Longrightarrow>
    length (b_garbage B) = 800 \<Longrightarrow> setup_lock B (eeprom (device_of y')) = Runs r' \<Longrightarrow>
    run flash (h @ [(y, i)]) (started (world (y_rem y')) t ds r')"

end
