(* ===== verification/Key_Download.thy ===== *)
theory Key_Download
  imports Remote_Client Command_Facts
begin

text \<open>
  Loading keys from a file of another host, \<open>SWparser::loadKeysFromRemoteStorage\<close> of
  \<open>SWparser.cpp\<close>: the request, the lines of the answer and what each of them adds.  The network is
  an argument, as for remote control.
\<close>

section \<open>The answer of the host\<close>

text \<open>
  Whether \<open>connect\<close> and \<open>print\<close> succeed, the readings of \<open>available\<close> until the answer is read, and
  the bytes that are then read while any are available.
\<close>

record download =
  k_connect :: bool
  k_print :: bool
  k_available :: "bool list"
  k_response :: bytes

type_synonym 'w storage = "target \<Rightarrow> string \<Rightarrow> 'w \<Rightarrow> download \<times> 'w"

definition host_name :: "SWdata \<Rightarrow> string" where "host_name d = char_ptr d 29"
definition host_file :: "SWdata \<Rightarrow> string" where "host_file d = char_ptr d 30"

definition key_request :: "SWdata \<Rightarrow> string" where
  "key_request d =
     ''GET /'' @ host_file d @ '' HTTP/1.1'' @ [CR, LF] @ ''Host: '' @
     (if host_name d = [] then dotted (map (byte_at (EhostIP d)) [0, 1, 2, 3]) else host_name d) @
     [CR, LF] @ ''Connection: close'' @ [CR, LF, CR, LF]"

definition key_target :: "bool \<Rightarrow> SWdata \<Rightarrow> target" where
  "key_target secure d =
     \<lparr>t_secure = secure, t_host = host_name d, t_ip = word_of_nat (of_le (EhostIP d)),
      t_port = (if EhostPort d \<noteq> 0 then EhostPort d else 80)\<rparr>"

section \<open>The lines\<close>

definition CREATE_CLIENT_FAILED :: string where "CREATE_CLIENT_FAILED = ''error: create new client FAILED''"
definition CONNECTION_FAILED :: string where "CONNECTION_FAILED = ''error: connection FAILED''"
definition TRANSFER_ERROR :: string where "TRANSFER_ERROR = ''error: transfer error''"

definition key_junk :: "char \<Rightarrow> bool" where
  "key_junk c \<longleftrightarrow> c = LF \<or> c = CR \<or> c = CHR 0x09 \<or> c = CHR '' '' \<or> c = CHR ''&''"

text \<open>
  Line by line; \<open>begin\<close> is set from the first empty line on.  The answer is the reason of an early
  end, \<open>None\<close> when all lines were read.
\<close>

fun read_keys :: "string list \<Rightarrow> bool \<Rightarrow> device \<Rightarrow> device \<times> string option" where
  "read_keys [] begun s = (s, None)"
| "read_keys (l # ls) begun s =
     (if error_line l then (s, Some l)
      else
        let line = dropWhile key_junk l
        in if line = [] then read_keys ls True s
           else if \<not> begun then read_keys ls False s
           else if 100 \<le> Ekeys (p_data s) then (s, Some ''error : MAX KEYS !'')
           else case scanForKeys line s of
             (s1, r) \<Rightarrow>
               if contains r ''error''
               then (s1, Some (''error : '' @ (if 100 \<le> Ekeys (p_data s1) then ''MAX KEYS !'' else ''REPEAT KEYS !'')))
               else read_keys ls True s1)"

section \<open>The download\<close>

text \<open>The reading that ended the wait is given with those that follow; \<open>None\<close> is a wait without end.\<close>

fun wait_keys :: "u32 \<Rightarrow> bool list \<Rightarrow> 'w remote \<Rightarrow> ('w, bool list) result" where
  "wait_keys t [] s = (s, None)"
| "wait_keys t (a # later) s =
     (if a then returns later s
      else let (now, s1) = millis s in if now < t then wait_keys t later s1 else returns later s1)"

text \<open>
  The exit of every path: a client of the other kind than that of remote control is destroyed.
\<close>

definition key_exit :: "bool \<Rightarrow> string \<Rightarrow> 'w remote \<Rightarrow> ('w, string) result" where
  "key_exit secure r s =
     (if \<not> (if secure then secure_client s else plain_client s) then (s, Some Null_pointer)
      else
        let remote_secure = (has_flag (settings s) FSSL \<or> has_flag (settings s) FSECURE);
            s1 = (if remote_secure = secure then s
                  else if secure then s\<lparr>secure_client := False\<rparr> else s\<lparr>plain_client := False\<rparr>)
        in returns r (on_lock (modAntilock 0) s1))"

definition key_client :: "'w surroundings \<Rightarrow> bool \<Rightarrow> 'w remote \<Rightarrow> bool \<times> 'w remote" where
  "key_client L secure s =
     (if secure then (if secure_client s \<or> l_new_client L then (True, s\<lparr>secure_client := True\<rparr>) else (False, s))
      else (if plain_client s \<or> l_new_client L then (True, s\<lparr>plain_client := True\<rparr>) else (False, s)))"

text \<open>The answer is read; what was added is written to flash only at its regular end.\<close>

definition key_answer :: "bool \<Rightarrow> int \<Rightarrow> bytes \<Rightarrow> 'w remote \<Rightarrow> ('w, string) result" where
  "key_answer secure inkeys response s =
     (case read_keys (response_lines response) False (modAntilock 0 (lock s)) of
        (d, Some r) \<Rightarrow> key_exit secure r (s\<lparr>lock := d\<rparr>)
      | (d, None) \<Rightarrow>
          let d1 = modAntilock 0 d
          in key_exit secure ''OK'' (s\<lparr>lock := (if inkeys \<noteq> Ekeys (p_data d1) then saveAllToEEPROM d1 else d1)\<rparr>))"

text \<open>
  The test \<open>data.EhostFile==""\<close> compares two addresses and never holds.  The limit of the wait is a
  signed number that the comparison with \<open>millis\<close> takes as unsigned again.
\<close>

definition loadKeysFromRemoteStorage ::
  "'w surroundings \<Rightarrow> 'w storage \<Rightarrow> int \<Rightarrow> 'w remote \<Rightarrow> ('w, string) result" where
  "loadKeysFromRemoteStorage L K timeout s =
     (let inkeys = Ekeys (settings s) in
      if 100 \<le> inkeys then returns ''error: MAX_KEYS'' s
      else
        let (now, s1) = millis (on_lock (modAntilock 0) s);
            t = now + word_of_int timeout;
            secure = (has_flag (settings s1) FKSSL \<or> has_flag (settings s1) FKSECURE);
            s2 = (if secure then on_lock (\<lambda>d. d\<lparr>p_data := (p_data d)\<lparr>EhostPort := 443\<rparr>\<rparr>) s1 else s1);
            (made, s3) = key_client L secure s2
        in if \<not> made then key_exit secure CREATE_CLIENT_FAILED s3
           else
             let (N, w) = K (key_target secure (settings s3)) (key_request (settings s3)) (world s3);
                 s4 = s3\<lparr>world := w\<rparr>
             in if \<not> k_connect N then key_exit secure CONNECTION_FAILED s4
                else if \<not> k_print N then key_exit secure TRANSFER_ERROR (on_lock (modAntilock 0) s4)
                else and_next (wait_keys t (k_available N) (on_lock (modAntilock 0) s4)) (\<lambda>later s.
                  case later of
                    [] \<Rightarrow> (s, None)
                  | a # _ \<Rightarrow>
                      if a then key_answer secure inkeys (k_response N) s
                      else let (now, s1) = millis s
                           in if t \<le> now then key_exit secure CONNECTION_TIMEOUT s1
                              else key_answer secure inkeys (k_response N) s1))"

section \<open>What a file adds\<close>

text \<open>The head of the answer, and the keys in the two ways a text file ends its lines.\<close>

definition key_head :: "string list \<Rightarrow> bytes" where
  "key_head hs = concat (map (\<lambda>h. h @ [CR, LF]) hs) @ [CR, LF]"

definition key_head_ok :: "string list \<Rightarrow> bool" where
  "key_head_ok hs \<longleftrightarrow> list_all (\<lambda>h. CR \<notin> set h \<and> LF \<notin> set h \<and> dropWhile key_junk h \<noteq> [] \<and> \<not> error_line h \<and> \<not> error_line (LF # h)) hs"

lemma response_lines_split:
  assumes "CR \<notin> set a"
  shows "response_lines (a @ CR # b) = a # response_lines b"
proof -
  have "\<forall>c\<in>set a. c \<noteq> CR" using assms by auto
  then have "takeWhile (\<lambda>c. c \<noteq> CR) (a @ CR # b) = a" "dropWhile (\<lambda>c. c \<noteq> CR) (a @ CR # b) = CR # b"
    by (simp_all add: takeWhile_append2 dropWhile_append2)
  then show ?thesis by (subst response_lines.simps) simp
qed

lemma response_lines_end:
  assumes "CR \<notin> set a" "a \<noteq> []"
  shows "response_lines a = [a]"
proof -
  have "\<forall>c\<in>set a. c \<noteq> CR" using assms(1) by auto
  then have "takeWhile (\<lambda>c. c \<noteq> CR) a = a" "dropWhile (\<lambda>c. c \<noteq> CR) a = []"
    by (simp_all add: takeWhile_eq_all_conv dropWhile_eq_Nil_conv)
  then show ?thesis using assms(2) response_lines.simps [of "[]"] by (subst response_lines.simps) (simp del: dropWhile_eq_Nil_conv)
qed

lemma response_lines_crlf:
  "list_all (\<lambda>h. CR \<notin> set h) hs \<Longrightarrow> CR \<notin> set p \<Longrightarrow>
     response_lines (p @ concat (map (\<lambda>h. h @ [CR, LF]) hs) @ b) =
     (case hs of [] \<Rightarrow> response_lines (p @ b) | h # hs' \<Rightarrow> (p @ h) # map ((#) LF) hs' @ response_lines (LF # b))"
proof (induction hs arbitrary: p)
  case Nil
  then show ?case by simp
next
  case (Cons h hs)
  have "response_lines (p @ concat (map (\<lambda>h. h @ [CR, LF]) (h # hs)) @ b) =
      (p @ h) # response_lines ([LF] @ concat (map (\<lambda>h. h @ [CR, LF]) hs) @ b)"
    using Cons.prems response_lines_split [of "p @ h"] by simp
  also have "\<dots> = (p @ h) # map ((#) LF) hs @ response_lines (LF # b)"
    using Cons.IH [of "[LF]"] Cons.prems by (cases hs) simp_all
  finally show ?case by simp
qed

lemma break_is_junk [simp]: "key_junk LF" "key_junk CR"
  by (simp_all add: key_junk_def)

lemma error_line_break: "\<not> error_line [LF]"
  by (simp add: error_line_def to_lower_def contains_def index_of_def cstr_def)

lemma read_keys_head:
  assumes "key_head_ok hs"
  shows "read_keys (map ((#) LF) hs @ ls) False s = read_keys ls False s"
  using assms
proof (induction hs)
  case Nil
  then show ?case by simp
next
  case (Cons h hs)
  then show ?case by (simp add: key_head_ok_def del: dropWhile_eq_Nil_conv)
qed

text \<open>The head is passed over up to its empty line.\<close>

lemma read_keys_after_head:
  assumes hs: "key_head_ok hs" "hs \<noteq> []"
  shows "read_keys (response_lines (key_head hs @ b)) False s = read_keys (response_lines (LF # b)) True s"
proof -
  have cr: "list_all (\<lambda>h. CR \<notin> set h) hs" using hs(1) by (auto simp: key_head_ok_def list_all_iff)
  obtain h hs' where c: "hs = h # hs'" using hs(2) by (cases hs) auto
  have "response_lines (LF # CR # LF # b) = [LF] # response_lines (LF # b)"
    using response_lines_split [of "[LF]" "LF # b"] by simp
  then have "response_lines (key_head hs @ b) = h # map ((#) LF) hs' @ [LF] # response_lines (LF # b)"
    using response_lines_crlf [OF cr, of "[]" "[CR, LF] @ b"] by (simp add: key_head_def c)
  moreover have "key_head_ok hs'" "\<not> error_line h" "dropWhile key_junk h \<noteq> []" using hs(1) by (simp_all add: key_head_ok_def c)
  ultimately show ?thesis
    using read_keys_head [of hs'] by (simp add: error_line_break del: dropWhile_eq_Nil_conv)
qed

text \<open>Keys each of which a line break ends: they are added in their order.\<close>

definition added_message :: "string \<Rightarrow> string" where
  "added_message k = msg_key @ k @ msg_added"

definition file_key :: "string \<Rightarrow> bool" where
  "file_key k \<longleftrightarrow> plain_key k \<and> CR \<notin> set k \<and> (\<forall>c\<in>set k. \<not> key_separator c) \<and> \<not> contains (added_message k) ''error''"

lemma ended_pieces_lines:
  "list_all (\<lambda>k. \<forall>c\<in>set k. \<not> key_separator c) ks \<Longrightarrow> ended_pieces [] (concat (map (\<lambda>k. k @ [LF]) ks)) = ks"
proof (induction ks)
  case Nil
  then show ?case by simp
next
  case (Cons k ks)
  then show ?case
    using ended_pieces_prefix [of k "[]" "LF # concat (map (\<lambda>k. k @ [LF]) ks)"] by (simp add: key_separator_def)
qed

lemma addKey_message:
  assumes "keys_ok (p_data s)" "plain_key k" "key_map (p_data s) k = None" "Ekeys (p_data s) < 100"
  shows "snd (addKey k False s) = added_message k"
proof -
  let ?d = "p_data s"
  let ?n = "nat (Ekeys ?d)"
  let ?ks = "(overwrite (Ekey ?d) (8 * ?n) (to_char_array k 8))[8 * ?n + 7 := nul]"
  note d = keys_okD [OF assms(1)]
  have n: "?n < 100" using assms(4) d(2) by simp
  obtain r where r: "drop (8 * ?n) (overwrite (Ekey ?d) (8 * ?n) (k @ [nul])) = k @ nul # r"
    using d(1) n by (simp add: overwrite_def)
  have "drop (8 * ?n) ?ks = (k @ nul # r)[7 := nul]"
    unfolding to_char_array_plain [OF assms(2)] by (simp add: drop_update_swap r)
  also have "\<dots> = k @ (nul # r)[7 - length k := nul]"
    using assms(2) by (simp add: plain_key_def list_update_append)
  finally have "cstr (drop (8 * ?n) ?ks) = k"
    using assms(2) by (cases "7 - length k") (simp_all add: plain_key_def cstr_terminated)
  moreover have "searchKey ?d k = None" using assms(1,3) by (simp add: key_map_None_iff searchKey_None_iff)
  ultimately show ?thesis using assms d(2) by (simp add: addKey_def plain_key_def Let_def added_message_def)
qed

lemma addKey_eeprom: "eeprom (fst (addKey k False s)) = eeprom s"
  by (simp add: addKey_def Let_def split: option.split)

lemma add_pieces_new:
  assumes "keys_ok (p_data s)" "list_all file_key ks" "distinct ks" "\<forall>k\<in>set ks. key_map (p_data s) k = None"
    and "Ekeys (p_data s) + int (length ks) \<le> 100"
  shows "\<exists>s'. add_pieces ks s = (s', ''success'') \<and> keys_ok (p_data s') \<and> eeprom s' = eeprom s \<and>
    key_list (p_data s') = key_list (p_data s) @ map (\<lambda>k. (k, False)) ks"
  using assms
proof (induction ks arbitrary: s)
  case Nil
  then show ?case by simp
next
  case (Cons k ks)
  have k: "plain_key k" "\<not> contains (added_message k) ''error''" "key_map (p_data s) k = None" "Ekeys (p_data s) < 100"
    using Cons.prems by (auto simp: file_key_def)
  define s1 where "s1 = fst (addKey k False s)"
  have a: "addKey k False s = (s1, added_message k)"
    using addKey_message [OF Cons.prems(1) k(1,3,4)] by (simp add: s1_def prod_eq_iff)
  have s1: "keys_ok (p_data s1)" "key_list (p_data s1) = key_list (p_data s) @ [(k, False)]" "eeprom s1 = eeprom s"
    using addKey_new [OF Cons.prems(1) k(1,3,4), of False] addKey_eeprom by (simp_all add: s1_def)
  have len: "length (key_list d) = nat (Ekeys d)" for d by (simp add: key_list_def)
  have "Ekeys (p_data s1) = Ekeys (p_data s) + 1"
    using arg_cong [OF s1(2), of length] keys_okD(2) [OF s1(1)] keys_okD(2) [OF Cons.prems(1)] by (simp add: len)
  moreover have "key_map (p_data s1) x = None" if "x \<in> set ks" for x
    using that Cons.prems(3,4) s1(2) by (auto simp: key_map_def map_of_append map_add_def split: option.splits)
  ultimately obtain s' where IH: "add_pieces ks s1 = (s', ''success'')" "keys_ok (p_data s')" "eeprom s' = eeprom s1"
      "key_list (p_data s') = key_list (p_data s1) @ map (\<lambda>k. (k, False)) ks"
    using Cons.IH [OF s1(1)] Cons.prems by auto
  have "k \<noteq> []" using k(1) by (simp add: plain_key_def)
  then have "add_pieces (k # ks) s = (s', ''success'')"
    using a IH(1) k(2,4) keys_okD(2) [OF Cons.prems(1)] by simp
  then show ?case using IH s1 by simp
qed

section \<open>Properties\<close>

text \<open>A plain connection on which the host answers at once.\<close>

definition host_answers :: "'w surroundings \<Rightarrow> 'w storage \<Rightarrow> bytes \<Rightarrow> 'w remote \<Rightarrow> bool" where
  "host_answers L K response s \<longleftrightarrow>
     \<not> has_flag (settings s) FKSSL \<and> \<not> has_flag (settings s) FKSECURE \<and> (plain_client s \<or> l_new_client L) \<and>
     (let N = fst (K (key_target False (settings s)) (key_request (settings s)) (world s))
      in k_connect N \<and> k_print N \<and> take 2 (k_available N) = [True, True] \<and> k_response N = response)"

lemma millis_frame: "millis s = (t, s') \<Longrightarrow> lock s' = lock s \<and> world s' = world s \<and> plain_client s' = plain_client s"
  by (auto simp: millis_def split: list.splits)

lemma load_answered:
  assumes "host_answers L K response s" "Ekeys (settings s) < 100"
  shows "\<exists>s1. loadKeysFromRemoteStorage L K timeout s = key_answer False (Ekeys (settings s)) response s1 \<and>
    lock s1 = modAntilock 0 (lock s) \<and> plain_client s1"
proof -
  obtain now s1 where m: "millis (on_lock (modAntilock 0) s) = (now, s1)" by fastforce
  note f = millis_frame [OF m]
  define s3 where "s3 = s1\<lparr>plain_client := True\<rparr>"
  obtain N w where K: "K (key_target False (settings s)) (key_request (settings s)) (world s) = (N, w)" by fastforce
  obtain rest where av: "k_available N = True # True # rest"
    using assms(1) K by (cases "k_available N"; cases "tl (k_available N)") (auto simp: host_answers_def)
  show ?thesis
    using assms m f K av
    by (intro exI [of _ "on_lock (modAntilock 0) (s3\<lparr>world := w\<rparr>)"])
      (auto simp: loadKeysFromRemoteStorage_def host_answers_def key_client_def on_lock_def modAntilock_def Let_def s3_def returns_def)
qed

lemma key_exit_plain: "plain_client s \<Longrightarrow> \<exists>s'. key_exit False r s = (s', Some (Return r)) \<and> lock s' = modAntilock 0 (lock s)"
  by (simp add: key_exit_def returns_def on_lock_def Let_def)

lemma add_pieces_none: "list_all (\<lambda>k. k = []) ks \<Longrightarrow> add_pieces ks s = (s, ''success'')"
  by (induction ks) auto

text \<open>A line without a separator adds nothing.\<close>

lemma scan_unended: "\<forall>c\<in>set t. \<not> key_separator c \<Longrightarrow> scanForKeys t s = (s, ''success'')"
  using ended_pieces_prefix [of t "[]" "[]"] by (simp add: scanForKeys_pieces)

lemma success_is_no_error: "\<not> contains ''success'' ''error''"
  by (simp add: contains_def index_of_def cstr_def)

text \<open>C37. A key file whose lines end in a line feed: the download answers \<open>OK\<close>, its keys stand behind those
  that were there, in order and not black-listed, and the settings with them are in flash.
\<close>

theorem downloaded_keys_are_stored:
  assumes ok: "keys_ok (settings s)" and hs: "key_head_ok hs" "hs \<noteq> []"
    and ks: "ks \<noteq> []" "list_all file_key ks" "distinct ks" "\<forall>k\<in>set ks. key_map (settings s) k = None"
      "Ekeys (settings s) + int (length ks) \<le> 100"
    and body: "\<not> key_junk (hd (hd ks))" "\<not> error_line (LF # concat (map (\<lambda>k. k @ [LF]) ks))"
    and answer: "host_answers L K (key_head hs @ concat (map (\<lambda>k. k @ [LF]) ks)) s"
  shows "\<exists>s'. loadKeysFromRemoteStorage L K timeout s = (s', Some (Return ''OK'')) \<and>
    key_list (settings s') = key_list (settings s) @ map (\<lambda>k. (k, False)) ks \<and>
    eeprom_get (eeprom (lock s')) = settings s'"
proof -
  let ?b = "concat (map (\<lambda>k. k @ [LF]) ks)"
  let ?d = "modAntilock 0 (lock s)"
  have room: "Ekeys (settings s) < 100" using ks(1,5) by (cases ks) auto
  obtain k ks' where c: "ks = k # ks'" using ks(1) by (cases ks) auto
  have k0: "k \<noteq> []" using ks(2) by (simp add: c file_key_def plain_key_def)
  have nocr: "CR \<notin> set (LF # ?b)" using ks(2) by (auto simp: list_all_iff file_key_def)
  have sep: "list_all (\<lambda>k. \<forall>c\<in>set k. \<not> key_separator c) ks" using ks(2) by (auto simp: list_all_iff file_key_def)
  obtain d' where a: "add_pieces ks ?d = (d', ''success'')" "keys_ok (p_data d')" "eeprom d' = eeprom ?d"
      "key_list (p_data d') = key_list (settings s) @ map (\<lambda>k. (k, False)) ks"
    using add_pieces_new [of ?d ks] ok ks by auto
  have scan: "scanForKeys ?b ?d = (d', ''success'')"
    using a(1) ended_pieces_lines [OF sep] by (simp add: scanForKeys_pieces)
  have strip: "dropWhile key_junk (LF # ?b) = ?b" using body(1) k0 by (cases k) (auto simp: c)
  have "read_keys (response_lines (key_head hs @ ?b)) False ?d = read_keys [LF # ?b] True ?d"
    using read_keys_after_head [OF hs] response_lines_end [OF nocr] by simp
  also have "\<dots> = (d', None)"
    using body(2) strip scan room k0 success_is_no_error by (simp add: c)
  finally have r: "read_keys (response_lines (key_head hs @ ?b)) False ?d = (d', None)" .
  obtain s1 where l: "loadKeysFromRemoteStorage L K timeout s = key_answer False (Ekeys (settings s)) (key_head hs @ ?b) s1"
      "lock s1 = ?d" "plain_client s1"
    using load_answered [OF answer room] by blast
  have n: "Ekeys (settings s) \<noteq> Ekeys (p_data d')"
  proof -
    have len: "length (key_list d) = nat (Ekeys d)" for d by (simp add: key_list_def)
    show ?thesis using arg_cong [OF a(4), of length] ks(1) by (auto simp: len)
  qed
  define d2 where "d2 = saveAllToEEPROM (modAntilock 0 d')"
  have "modAntilock 0 (modAntilock 0 ?d) = ?d" by (simp add: modAntilock_def)
  then have "key_answer False (Ekeys (settings s)) (key_head hs @ ?b) s1 = key_exit False ''OK'' (s1\<lparr>lock := d2\<rparr>)"
    using r n l(2) by (simp add: key_answer_def d2_def Let_def modAntilock_def)
  moreover obtain s' where "key_exit False ''OK'' (s1\<lparr>lock := d2\<rparr>) = (s', Some (Return ''OK''))" "lock s' = modAntilock 0 d2"
    using key_exit_plain [of "s1\<lparr>lock := d2\<rparr>" "''OK''"] l(3) by auto
  moreover have "p_data d2 = (p_data d')\<lparr>Eflag := Eflag (p_data d') OR FNODEFAULT\<rparr>" "eeprom_get (eeprom d2) = p_data d2"
    using keys_okD(5) [OF a(2)] by (simp_all add: d2_def saveAllToEEPROM_def Let_def eeprom.rd_wr layout_ok_def modAntilock_def)
  ultimately show ?thesis using l(1) a(4) by (auto simp: key_list_def)
qed

text \<open>C38. The same file with its lines ended by CR and LF: the download answers \<open>OK\<close> as well, and adds none
  of the keys.
\<close>

theorem crlf_key_file_adds_nothing:
  assumes room: "Ekeys (settings s) < 100" and hs: "key_head_ok hs" "hs \<noteq> []"
    and ks: "list_all (\<lambda>k. CR \<notin> set k \<and> (\<forall>c\<in>set k. \<not> key_separator c) \<and> \<not> error_line (LF # k)) ks"
    and answer: "host_answers L K (key_head hs @ concat (map (\<lambda>k. k @ [CR, LF]) ks)) s"
  shows "\<exists>s'. loadKeysFromRemoteStorage L K timeout s = (s', Some (Return ''OK'')) \<and>
    settings s' = settings s \<and> eeprom (lock s') = eeprom (lock s)"
proof -
  let ?b = "concat (map (\<lambda>k. k @ [CR, LF]) ks)"
  let ?d = "modAntilock 0 (lock s)"
  have one: "scanForKeys (dropWhile key_junk (LF # k)) ?d = (?d, ''success'')" if "\<forall>c\<in>set k. \<not> key_separator c" for k
    using that by (intro scan_unended) (auto dest: set_dropWhileD)
  have lines: "read_keys (map ((#) LF) ks @ [[LF]]) True ?d = (?d, None)"
    using ks
  proof (induction ks)
    case Nil
    then show ?case by (simp add: error_line_break)
  next
    case (Cons k ks)
    then show ?case using one [of k] room success_is_no_error by (simp add: Let_def del: dropWhile_eq_Nil_conv)
  qed
  have "list_all (\<lambda>h. CR \<notin> set h) ks" using ks by (auto simp: list_all_iff)
  then have "response_lines (LF # ?b) = map ((#) LF) ks @ [[LF]]"
    using response_lines_crlf [of ks "[LF]" "[]"] response_lines_end [of "[LF]"] by (cases ks) simp_all
  then have r: "read_keys (response_lines (key_head hs @ ?b)) False ?d = (?d, None)"
    using lines unfolding read_keys_after_head [OF hs] by (simp only:)
  obtain s1 where l: "loadKeysFromRemoteStorage L K timeout s = key_answer False (Ekeys (settings s)) (key_head hs @ ?b) s1"
      "lock s1 = ?d" "plain_client s1"
    using load_answered [OF answer room] by blast
  have "key_answer False (Ekeys (settings s)) (key_head hs @ ?b) s1 = key_exit False ''OK'' (s1\<lparr>lock := ?d\<rparr>)"
    using r l(2) by (simp add: key_answer_def Let_def modAntilock_def)
  then show ?thesis using l(1) key_exit_plain [of "s1\<lparr>lock := ?d\<rparr>" "''OK''"] l(3) by auto
qed

text \<open>What the command processor asks of the download: it keeps the device well formed.\<close>

lemma add_pieces_device_ok: "device_ok s \<Longrightarrow> device_ok (fst (add_pieces ts s))"
proof (induction ts arbitrary: s)
  case Nil
  then show ?case by simp
next
  case (Cons t ts)
  then show ?case using addKey_device_ok [OF Cons.prems, of t False] by (auto split: prod.splits)
qed

lemma read_keys_device_ok: "device_ok s \<Longrightarrow> device_ok (fst (read_keys ls begun s))"
proof (induction ls arbitrary: begun s)
  case Nil
  then show ?case by simp
next
  case (Cons l ls)
  have "device_ok (fst (scanForKeys t s))" for t using Cons.prems by (simp add: scanForKeys_pieces add_pieces_device_ok)
  then show ?case using Cons by (auto simp: Let_def split: prod.splits) (metis fst_conv)+
qed

lemma key_exit_lock: "lock (fst (key_exit secure r s)) = lock s \<or> lock (fst (key_exit secure r s)) = modAntilock 0 (lock s)"
  by (simp add: key_exit_def returns_def on_lock_def Let_def)

lemma key_exit_device_ok: "device_ok (lock s) \<Longrightarrow> device_ok (lock (fst (key_exit secure r s)))"
  using key_exit_lock [of secure r s] by auto

lemma key_answer_device_ok: "device_ok (lock s) \<Longrightarrow> device_ok (lock (fst (key_answer secure n bs s)))"
proof -
  assume "device_ok (lock s)"
  then have "device_ok (fst (read_keys (response_lines bs) False (modAntilock 0 (lock s))))"
    by (simp add: read_keys_device_ok)
  then show ?thesis
    by (auto simp: key_answer_def Let_def device_okD intro!: key_exit_device_ok device_ok_save split: prod.splits option.splits)
qed

lemma wait_keys_lock: "wait_keys t as s = (s', r) \<Longrightarrow> lock s' = lock s"
  by (induction as arbitrary: s) (auto simp: returns_def split: if_splits prod.splits dest: millis_frame)

lemma loadKeys_device_ok:
  assumes "device_ok (lock s)"
  shows "device_ok (lock (fst (loadKeysFromRemoteStorage L K timeout s)))"
proof -
  obtain now s1 where m: "millis (on_lock (modAntilock 0) s) = (now, s1)" by fastforce
  have s1: "device_ok (lock s1)" using assms millis_frame [OF m] by (simp add: on_lock_def)
  define secure where "secure = (has_flag (settings s1) FKSSL \<or> has_flag (settings s1) FKSECURE)"
  define s2 where "s2 = (if secure then on_lock (\<lambda>d. d\<lparr>p_data := (p_data d)\<lparr>EhostPort := 443\<rparr>\<rparr>) s1 else s1)"
  have s2: "device_ok (lock s2)"
    using s1 device_okD [OF s1] by (auto simp: s2_def on_lock_def intro: device_ok_data)
  obtain made s3 where c: "key_client L secure s2 = (made, s3)" by fastforce
  have s3: "device_ok (lock s3)" using c s2 by (auto simp: key_client_def split: if_splits)
  obtain N w where K: "K (key_target secure (settings s3)) (key_request (settings s3)) (world s3) = (N, w)" by fastforce
  obtain s5 r where wt: "wait_keys (now + word_of_int timeout) (k_available N) (on_lock (modAntilock 0) (s3\<lparr>world := w\<rparr>)) = (s5, r)"
    by fastforce
  have s5: "device_ok (lock s5)" using wait_keys_lock [OF wt] s3 by (simp add: on_lock_def)
  note ok = key_answer_device_ok key_exit_device_ok
  have k: "device_ok (lock (fst (and_next (s5, r) (\<lambda>later s. case later of
      [] \<Rightarrow> (s, None)
    | a # _ \<Rightarrow> if a then key_answer secure n (k_response N) s
        else let (now', s1) = millis s in if now + word_of_int timeout \<le> now' then key_exit secure CONNECTION_TIMEOUT s1
          else key_answer secure n (k_response N) s1))))" for n
  proof (cases "\<exists>later. r = Some (Return later)")
    case True
    then obtain later where r: "r = Some (Return later)" by blast
    show ?thesis using s5 by (auto simp: r ok split: list.splits prod.splits dest!: millis_frame)
  next
    case False
    show ?thesis
    proof (cases r)
      case None
      then show ?thesis using s5 by simp
    next
      case (Some a)
      then show ?thesis using s5 False by (cases a) auto
    qed
  qed
  have l: "device_ok (lock (s3\<lparr>world := w\<rparr>))" "device_ok (lock (on_lock (modAntilock 0) (s3\<lparr>world := w\<rparr>)))"
    using s3 by (simp_all add: on_lock_def)
  show ?thesis
    unfolding loadKeysFromRemoteStorage_def Let_def m prod.case secure_def [symmetric] s2_def [symmetric] c K wt
    using k [unfolded Let_def] s3 l assms by (simp add: ok returns_def)
qed

section \<open>A host with a file\<close>

definition file_host :: "bytes \<Rightarrow> unit storage" where
  "file_host response = (\<lambda>t r w. (\<lparr>k_connect = True, k_print = True, k_available = [True, True], k_response = response\<rparr>, w))"

definition at_home :: "unit surroundings" where
  "at_home = \<lparr>l_net = (\<lambda>t r w. (\<lparr>n_status = [], n_wifi_connect = 0, n_connect = [], n_available = [], n_response = []\<rparr>, w)),
     l_ftp = (\<lambda>d w. (True, w)), l_handleClient = (\<lambda>d. d), l_new_client = True, l_ip_address = 1, l_env = idle_env\<rparr>"

definition fresh_remote :: "unit remote" where
  "fresh_remote =
     \<lparr>lock = fresh_device, world = (), plain_client = True, secure_client = False, cl_err = 0, ch_mod = False, cl_delay = 0,
      localUnixtime = 0, unx_ms = 0, unx_summ = 0, remoteTime = 0, refresh_ms = 0, time_ms = 0, delays = []\<rparr>"

lemma fresh_settings: "settings fresh_remote = default_SWdata (replicate 800 nul)"
  by (simp add: fresh_remote_def fresh_device_data)

lemma file_host_answers: "host_answers at_home (file_host r) r fresh_remote"
  unfolding host_answers_def fresh_settings
  by (simp add: file_host_def at_home_def has_flag_def default_SWdata_def FKSSL_def FKSECURE_def FSSL_def)

lemma sample_head: "key_head_ok [''HTTP/1.1 200 OK'']"
  by (simp add: key_head_ok_def error_line_def contains_def to_lower_def lower_char_def index_of_def cstr_def key_junk_def)

lemma downloaded_keys_are_stored_witness:
  "\<exists>s'. loadKeysFromRemoteStorage at_home (file_host (key_head [''HTTP/1.1 200 OK''] @ ''guest'' @ [LF] @ ''cook'' @ [LF])) 3000
       fresh_remote = (s', Some (Return ''OK'')) \<and>
     key_list (settings s') = key_list (settings fresh_remote) @ [(''guest'', False), (''cook'', False)] \<and>
     eeprom_get (eeprom (lock s')) = settings s'"
proof -
  have f: "file_key ''guest''" "file_key ''cook''"
    by (simp_all add: file_key_def plain_key_def key_separator_def added_message_def msg_key_def msg_added_def contains_def
        index_of_def cstr_def utf8_def char_of_def)
  have "Ekeys (settings fresh_remote) = 0" by (simp add: fresh_settings default_SWdata_def)
  then show ?thesis
    using downloaded_keys_are_stored [of fresh_remote "[''HTTP/1.1 200 OK'']" "[''guest'', ''cook'']" at_home
        "file_host (key_head [''HTTP/1.1 200 OK''] @ ''guest'' @ [LF] @ ''cook'' @ [LF])" 3000]
      f sample_head file_host_answers
    by (simp add: fresh_settings keys_ok_default key_map_default key_junk_def error_line_def contains_def to_lower_def
        lower_char_def index_of_def cstr_def)
qed

lemma crlf_key_file_adds_nothing_witness:
  "\<exists>s'. loadKeysFromRemoteStorage at_home (file_host (key_head [''HTTP/1.1 200 OK''] @ ''guest'' @ [CR, LF] @ ''cook'' @ [CR, LF])) 3000
       fresh_remote = (s', Some (Return ''OK'')) \<and> settings s' = settings fresh_remote"
proof -
  have "Ekeys (settings fresh_remote) = 0" by (simp add: fresh_settings default_SWdata_def)
  then show ?thesis
    using crlf_key_file_adds_nothing [of fresh_remote "[''HTTP/1.1 200 OK'']" "[''guest'', ''cook'']" at_home
        "file_host (key_head [''HTTP/1.1 200 OK''] @ ''guest'' @ [CR, LF] @ ''cook'' @ [CR, LF])" 3000]
      sample_head file_host_answers
    by (auto simp: key_separator_def error_line_def contains_def to_lower_def lower_char_def index_of_def cstr_def)
qed

end
