(* ===== verification/Lock_Facts.thy ===== *)
theory Lock_Facts
  imports Lock_System Key_Download
begin

text \<open>
  What holds in every run of the lock: the settings and the table of stations stay well formed, and
  the relay opens only for the button or an accepted key.
\<close>

section \<open>Operations that keep the device\<close>

text \<open>\<open>b\<close> is whether the operation may open the relay.\<close>

definition keeps :: "bool \<Rightarrow> device \<Rightarrow> device \<Rightarrow> bool" where
  "keeps b d d' \<longleftrightarrow> (device_ok d \<longrightarrow> device_ok d') \<and> (relayState d' \<longrightarrow> relayState d \<or> b)"

lemma keeps_refl [simp]: "keeps b d d"
  by (simp add: keeps_def)

lemma keeps_trans [trans]: "keeps b d e \<Longrightarrow> keeps b e f \<Longrightarrow> keeps b d f"
  by (auto simp: keeps_def)

lemma keepsI: "p_data d' = p_data d \<Longrightarrow> eeprom d' = eeprom d \<Longrightarrow> relayState d' = relayState d \<Longrightarrow> keeps b d d'"
  by (simp add: keeps_def device_ok_def)

lemma keeps_frame [simp]:
  "keeps b d (emit es e) = keeps b d e" "keeps b d (modAntilock v e) = keeps b d e" "keeps b d (modConCntr v e) = keeps b d e"
  "keeps b d (e\<lparr>ledState0 := l\<rparr>) = keeps b d e" "keeps b d (e\<lparr>ledState1 := l\<rparr>) = keeps b d e"
  "keeps b d (e\<lparr>ledTimeMs1 := m\<rparr>) = keeps b d e" "keeps b d (e\<lparr>OTA_enabled := l\<rparr>) = keeps b d e"
  "keeps b d (e\<lparr>p_upload := l\<rparr>) = keeps b d e" "keeps b d (e\<lparr>STA_action := z\<rparr>) = keeps b d e"
  "keeps b d (e\<lparr>connected := l\<rparr>) = keeps b d e" "keeps b d (e\<lparr>transponder_version := v'\<rparr>) = keeps b d e"
  "keeps b d (e\<lparr>rst_mode := n\<rparr>) = keeps b d e"
  "keeps b d (e\<lparr>ledTimeMs1 := m, ledState0 := l\<rparr>) = keeps b d e"
  by (simp_all add: keeps_def device_ok_def emit_def modAntilock_def modConCntr_def)

lemma keeps_save [simp]: "keeps b d e \<Longrightarrow> keeps b d (saveAllToEEPROM e)"
  by (auto simp: keeps_def frame_simps intro: device_ok_save dest: device_okD)

lemma keeps_save_data: "(\<And>x. settings_ok x \<Longrightarrow> settings_ok (f x)) \<Longrightarrow> keeps b d (save_data f d)"
  by (auto simp: keeps_def save_data_def frame_simps intro!: device_ok_save dest: device_okD)

lemma keeps_new_settings: "length g = 800 \<Longrightarrow> keeps b d (new_settings g True d)"
  by (auto simp: keeps_def new_settings_ok)
     (simp add: new_settings_def init_settings_def Let_def frame_simps)

section \<open>The board\<close>

lemma device_ok_truncate [simp]: "device_ok (device.truncate s) = device_ok s"
  by (simp add: device_ok_def device.truncate_def)

lemma scan_button_frame:
  "p_data (scan_button c b s) = p_data s" "relayState (scan_button c b s) \<Longrightarrow> b \<Longrightarrow> relayState s"
  by (auto simp: scan_button_def scan_pressed_def scan_released_def scan_relay_def Let_def frame_simps split: if_splits)


lemma scan_eeprom [frame_simps]:
  "eeprom (blink_on c s) = eeprom s" "eeprom (blink_off c s) = eeprom s" "eeprom (blink_pause s) = eeprom s"
  "eeprom (scan_flash c s) = eeprom s" "eeprom (scan_relay s) = eeprom s" "eeprom (scan_hard_button hard s) = eeprom s"
  by (simp_all add: blink_on_def blink_off_def blink_pause_def scan_flash_def scan_relay_def scan_hard_button_def Let_def)

lemma ticked_eeprom [frame_simps]: "eeprom (ticked s) = eeprom s"
  by (simp add: ticked_def scan_antilock_def scan_connection_def Let_def frame_simps)

lemma scan_button_eeprom [frame_simps]: "eeprom (scan_button c b s) = eeprom s"
  by (simp add: scan_button_def scan_pressed_def scan_released_def Let_def frame_simps)

lemma scan_keys_keeps: "keeps (\<not> soft) (device.truncate s) (device.truncate (fst (scan_keys hard soft s)))"
proof -
  have r: "relayState (scan_hard_button hard (ticked s)) = relayState s" "p_data (scan_hard_button hard (ticked s)) = p_data s"
    by (simp_all add: scan_hard_button_def Let_def frame_simps)
  then have "p_data (fst (scan_keys hard soft s)) = p_data s" "eeprom (fst (scan_keys hard soft s)) = eeprom s"
    "soft \<Longrightarrow> relayState (fst (scan_keys hard soft s)) \<Longrightarrow> relayState s"
    using scan_button_frame [of "bcon_of s" soft "scan_hard_button hard (ticked s)"]
    by (auto simp: scan_keys_eq frame_simps split: if_splits)
  then show ?thesis by (auto simp: keeps_def device_ok_def device.truncate_def)
qed

lemma loop_keeps:
  assumes "length (l_garbage E) = 800" "l_on_connected E = (\<lambda>d. d)" "l_dns E = (\<lambda>d. d)"
    and "loop_env.l_handleClient E = (\<lambda>d. d)" "l_RequestTransponder E = (\<lambda>d. d)"
  shows "keeps b d (fst (loop E d))"
proof -
  have attempts: "keeps b d (loop_attempts d)" for d
    by (simp add: loop_attempts_def)
  have connection: "keeps b d (loop_connection E d)" for d
    using assms(2) attempts by (simp add: loop_connection_def Let_def)
  have reset: "keeps b d (fst (loop_reset E d))" for d
    using keeps_new_settings [OF assms(1), of b "emit [Client_stop] (d\<lparr>ledState0 := True\<rparr>)"]
      keeps_trans [of b d "emit [Client_stop] (d\<lparr>ledState0 := True\<rparr>)"]
    by (simp add: loop_reset_def Let_def)
  define d1 where "d1 = loop_connection E (if 0 \<le> antilock d then modAntilock 0 d else d)"
  have "keeps b d d1" unfolding d1_def by (rule keeps_trans [OF _ connection]) simp
  then show ?thesis
    using keeps_trans [OF _ reset] by (simp add: loop_def Let_def assms d1_def [symmetric])
qed

section \<open>The web server\<close>

lemma no_command_keeps: "no_command t = no_command s \<Longrightarrow> keeps b s t"
  using no_command_eqD [of t s] by (auto intro: keepsI)

lemma process_keeps:
  assumes "env_ok E"
  shows "keeps (admitted src d) d (fst (process E now src html d))"
  using process_device_ok [OF assms, of d now src html] process_refused [of src d E now html]
    no_command_keeps [of "fst (process E now src html d)" d "admitted src d"]
  by (auto simp: keeps_def admitted_def)

lemma after_reply_keeps:
  assumes "env_ok E"
  shows "keeps b d (fst (after_reply E resp d))"
proof -
  let ?e = "new_settings (e_garbage E) True d"
  have "keeps b d ?e" using assms by (intro keeps_new_settings) (simp add: env_ok_def)
  moreover have "keeps b ?e (?e\<lparr>p_key := [], p_cmd := [], p_argv := [], p_ext := [], p_com := [], p_upload := False\<rparr>)"
    by (rule keepsI) simp_all
  ultimately have "keeps b d (?e\<lparr>p_key := [], p_cmd := [], p_argv := [], p_ext := [], p_com := [], p_upload := False\<rparr>)"
    by (rule keeps_trans)
  then show ?thesis by (simp only: after_reply_def fst_conv keeps_refl split: if_split) simp
qed

lemma rename_keeps: "keeps b d (fst (rename E resp d))"
  by (auto simp: rename_def Let_def store_String_def intro!: keeps_save_data settings_ok_text split: prod.split)

lemma portal_keeps [simp]: "keeps b d (portal P resp e) = keeps b d e"
  by (simp add: portal_def upgrading_def)

lemma handleCmd_keeps:
  assumes "env_ok E"
  shows "keeps (admitted (From_server args) ((dev w)\<lparr>ledState0 := True\<rparr>)) (dev w)
    (dev (fst (Web_Handlers.handleCmd E now c_ip args w)))" (is "keeps ?b _ _")
proof -
  let ?d = "(dev w)\<lparr>ledState0 := True\<rparr>"
  obtain d2 r where p: "process E now (From_server args) False ?d = (d2, r)" by fastforce
  have 1: "keeps ?b (dev w) d2"
    using process_keeps [OF assms, of "From_server args" ?d now False] keeps_trans [of ?b "dev w" ?d d2] p by simp
  have 2: "keeps ?b (dev w) (fst (after_reply E x (emit es (fst (rename E resp d2)))))" for x es resp
  proof (rule keeps_trans [OF _ after_reply_keeps [OF assms]])
    show "keeps ?b (dev w) (emit es (fst (rename E resp d2)))"
      using keeps_trans [OF 1 rename_keeps [of _ d2 E resp]] by simp
  qed
  have eq: "dev (fst (Web_Handlers.handleCmd E now c_ip args w)) =
      (if OTA_enabled (dev w) then upgrading (dev w)
       else case r of
          Return resp \<Rightarrow>
            (let q = after_reply E (snd (rename E resp d2))
                   (emit [Http_send 200 ''text/raw'' (cstr (snd (rename E resp d2))), Client_stop] (fst (rename E resp d2)))
             in case snd q of Return _ \<Rightarrow> (fst q)\<lparr>ledState0 := False\<rparr> | _ \<Rightarrow> fst q)
        | _ \<Rightarrow> d2)"
    by (simp add: Web_Handlers.handleCmd_def Let_def p split_beta split: outcome.split)
  show ?thesis
    unfolding eq Let_def using 1 2 by (simp add: upgrading_def split: outcome.split)
qed

lemma login_open_keeps:
  "keeps (check \<noteq> ''NOTFOUND'' \<and> check \<noteq> ''INBLACK'') d (fst (login_open check command resp d))"
  by (simp add: login_open_def relayOn_def keeps_def device_ok_def)

lemma login_loop_ok:
  assumes "env_ok E"
  shows "device_ok d \<Longrightarrow> device_ok (fst (login_loop P E now args resp d))"
proof (induction args arbitrary: resp d)
  case Nil
  then show ?case using portal_keeps [of True d P resp d] by (simp add: keeps_def)
next
  case (Cons a args)
  obtain nam arg where a: "a = (nam, arg)" by fastforce
  obtain key line command check where l: "login_key (p_data d) arg = (key, line, command, check)"
    by (metis prod_cases4)
  obtain d1 resp1 where o: "login_open check command resp d = (d1, resp1)" by fastforce
  have d1: "device_ok d1" using login_open_keeps [of check d command resp] Cons.prems o by (simp add: keeps_def)
  obtain d2 r where p: "(if command then process E now (From_remote line) True d1 else reply d1 resp1) = (d2, r)" by fastforce
  have "device_ok d2"
    using process_device_ok [OF assms d1, of now "From_remote line" True] d1 p by (auto simp: reply_def split: if_splits)
  then have "device_ok (fst (after_reply E x (emit es d2)))" for x es
    using after_reply_keeps [OF assms, of True "emit es d2" x] by (simp add: keeps_def)
  then show ?case
    using Cons.IH [OF d1] Cons.IH [OF Cons.prems] \<open>device_ok d2\<close>
    by (simp add: a l o p split: outcome.split del: after_reply_def)
qed

lemma handleLogin_keeps:
  assumes "env_ok E"
  shows "keeps (\<not> (\<forall>a \<in> set args. login_refused (p_data d) a)) d (fst (Web_Handlers.handleLogin P E now args d))"
proof -
  have "device_ok d \<Longrightarrow> device_ok (fst (Web_Handlers.handleLogin P E now args d))"
    using login_loop_ok [OF assms] by (simp add: Web_Handlers.handleLogin_def upgrading_def)
  moreover have "relayState (fst (Web_Handlers.handleLogin P E now args d)) = relayState d"
    if "\<forall>a \<in> set args. login_refused (p_data d) a"
    using arg_cong [OF conjunct2 [OF handleLogin_refused [OF that, of P E now]], of relayState] by (simp add: silent_def)
  ultimately show ?thesis by (auto simp: keeps_def)
qed

text \<open>A key file adds keys, nothing else.\<close>

lemma addKey_keeps: "keeps b d (fst (addKey k sv d))"
  using addKey_device_ok [of d k sv]
  by (auto simp: keeps_def addKey_def Let_def frame_simps split: option.splits)

lemma add_pieces_keeps: "keeps b d (fst (add_pieces ts d))"
proof (induction ts arbitrary: d)
  case (Cons t ts)
  then show ?case using addKey_keeps [of b d t False] by (auto split: prod.split intro: keeps_trans dest: arg_cong [of _ _ fst])
qed simp

lemma parse_for_keys_keeps: "keeps b d (fst (parse_for_keys alloc buf d))"
  by (simp add: parse_for_keys_def scanForKeys_pieces add_pieces_keeps)

lemma handleUploadFile_keeps: "keeps b (dev w) (dev (Web_Handlers.handleUploadFile alloc piece w))"
proof -
  obtain status buf n where piece: "piece = (status, buf, n)" by (metis prod_cases3)
  show ?thesis
    unfolding piece
    by (auto simp: Web_Handlers.handleUploadFile_def Let_def intro: parse_for_keys_keeps keeps_trans [OF _ parse_for_keys_keeps]
        split: upload_status.split)
qed

lemma handleUploadFileStatus_keeps:
  "keeps b (dev w) (dev (Web_Handlers.handleUploadFileStatus status name n w))"
  by (simp add: Web_Handlers.handleUploadFileStatus_def Let_def split: upload_status.split)

lemma handleUpdate_keeps: "keeps b (dev w) (dev (Web_Handlers.handleUpdate u now status w))"
  by (simp add: Web_Handlers.handleUpdate_def update_step_def Let_def split: upload_status.split)

lemma handleUpdateStatus_keeps: "keeps b (dev w) (dev (fst (Web_Handlers.handleUpdateStatus w)))"
  by (simp add: Web_Handlers.handleUpdateStatus_def Let_def)

lemma web_table:
  "sta (Web_Handlers.handleUploadFile alloc piece w) = sta w"
  "sta (Web_Handlers.handleUploadFileStatus status name n w) = sta w"
  "sta (Web_Handlers.handleUpdate u now status w) = sta w" "sta (fst (Web_Handlers.handleUpdateStatus w)) = sta w"
  by (simp_all add: Web_Handlers.handleUploadFile_def Web_Handlers.handleUploadFileStatus_def Web_Handlers.handleUpdate_def
      Web_Handlers.handleUpdateStatus_def update_step_def Let_def split: upload_status.split prod.split)

lemma handleCmd_table: "table_ok (sta w) \<Longrightarrow> table_ok (sta (fst (Web_Handlers.handleCmd E now c_ip args w)))"
  by (simp add: Web_Handlers.handleCmd_def Let_def table_ok_renew split: prod.split outcome.split)

section \<open>The remote control client\<close>

definition keeps_lock :: "bool \<Rightarrow> device \<Rightarrow> ('w, 'r) result \<Rightarrow> bool" where
  "keeps_lock b d q \<longleftrightarrow> keeps b d (lock (fst q))"

lemma keeps_lock_simps [simp]:
  "keeps_lock b d (returns r s) = keeps b d (lock s)" "keeps_lock b d (s, r') = keeps b d (lock s)"
  "keeps_lock b d (client_stop s) = keeps b d (lock s)"
  by (simp_all add: keeps_lock_def returns_def client_stop_def)

lemma lock_simps [simp]:
  "lock (on_lock f s) = f (lock s)" "lock (snd (millis s)) = lock s" "lock (touch_remote_time s) = lock s"
  "lock (advance_clock s) = lock s" "lock (set_version v s) = (lock s)\<lparr>transponder_version := v\<rparr>"
  by (simp_all add: on_lock_def millis_def touch_remote_time_def advance_clock_def set_version_def Let_def
      split: list.split)

text \<open>Steps one after the other.\<close>

lemma keeps_lock_and_next:
  assumes "keeps_lock b d q" "\<And>r s'. q = (s', Some (Return r)) \<Longrightarrow> keeps b d (lock s') \<Longrightarrow> keeps_lock b d (k r s')"
  shows "keeps_lock b d (and_next q k)"
  using assms by (cases "(q, k)" rule: and_next.cases) auto

lemma keeps_lock_if:
  "(c \<Longrightarrow> keeps_lock b d p) \<Longrightarrow> (\<not> c \<Longrightarrow> keeps_lock b d q) \<Longrightarrow> keeps_lock b d (if c then p else q)"
  by simp

text \<open>The waiting loops only feed the watchdog, whatever the network does.\<close>

lemma wait_ap_keeps: "quiet L \<Longrightarrow> keeps b d (lock s) \<Longrightarrow> keeps_lock b d (wait_ap L sts s)"
  by (induction sts arbitrary: s) (simp_all add: quiet_def Let_def)

lemma connect_loop_keeps: "quiet L \<Longrightarrow> keeps b d (lock s) \<Longrightarrow> keeps_lock b d (connect_loop L t cs s)"
  by (induction cs arbitrary: s) (simp_all add: quiet_def Let_def split_beta)

lemma wait_answer_keeps: "quiet L \<Longrightarrow> keeps b d (lock s) \<Longrightarrow> keeps_lock b d (wait_answer L t rs s)"
  by (induction rs arbitrary: s) (auto simp: quiet_def Let_def split_beta)

lemma port_keeps [simp]: "keeps b d e \<Longrightarrow> keeps b d (e\<lparr>p_data := (p_data e)\<lparr>EremotePort := w\<rparr>\<rparr>)"
  by (auto simp: keeps_def intro!: device_ok_data dest: device_okD)

lemma flag_keeps [simp]: "keeps b d e \<Longrightarrow> keeps b d (e\<lparr>p_data := (p_data e)\<lparr>Eflag := w\<rparr>\<rparr>)"
  by (auto simp: keeps_def intro!: device_ok_data dest: device_okD)

lemma change_mode_keeps: "keeps b d (lock s) \<Longrightarrow> keeps_lock b d (change_mode L err s)"
  unfolding change_mode_def by (rule keeps_lock_and_next) simp_all

lemma keep_mode_keeps: "keeps b d (lock s) \<Longrightarrow> keeps b d (lock (keep_mode s))"
proof -
  assume s: "keeps b d (lock s)"
  have "keeps b d (saveAllToEEPROM ((modAntilock 0 (lock s))\<lparr>p_data := (settings s)\<lparr>Eflag := w\<rparr>\<rparr>))" for w
    by (rule keeps_save) (use s in \<open>auto simp: keeps_def device_ok_def modAntilock_def\<close>)
  then show ?thesis using s by (simp only: keep_mode_def remote.select_convs lock_simps if_distrib split: if_split) simp
qed

lemma read_answer_keeps: "quiet L \<Longrightarrow> keeps b d (lock s) \<Longrightarrow> keeps_lock b d (read_answer L action lines acc s)"
proof (induction lines arbitrary: s acc)
  case Nil
  obtain sres x e where acc: "acc = (sres, x, e)" by (metis prod_cases3)
  show ?case unfolding acc read_answer.simps by (rule keeps_lock_and_next) (simp_all add: Nil Let_def)
next
  case (Cons line lines)
  have m: "keeps b d (lock (keep_mode (on_lock (modAntilock 0) s)))"
    by (rule keep_mode_keeps) (simp add: Cons.prems)
  show ?case
    unfolding read_answer.simps Let_def
    using Cons.prems m by (auto intro!: Cons.IH change_mode_keeps simp: quiet_def)
qed

lemmas step_keeps = wait_ap_keeps connect_loop_keeps wait_answer_keeps read_answer_keeps keeps_lock_and_next keeps_lock_if

lemma client_request_keeps:
  assumes "quiet L" "keeps b d (lock s)"
  shows "keeps_lock b d (client_request L host url ip port action s)"
  unfolding client_request_def Let_def split_beta
  by (intro step_keeps assms(1)) (simp_all add: assms)

lemma ask_keeps: "quiet L \<Longrightarrow> keeps b d (lock s) \<Longrightarrow> keeps_lock b d (request_on_transponder L req ukey arg ext ip port close s)"
  unfolding request_on_transponder_def Let_def by (rule client_request_keeps) simp_all

lemmas ask_step = ask_keeps keeps_lock_and_next keeps_lock_if

lemma transmit_response_keeps: "quiet L \<Longrightarrow> keeps b d (lock s) \<Longrightarrow> keeps_lock b d (transmit_response L key t resp s)"
  unfolding transmit_response_def by (intro ask_step) simp_all

lemma do_upload_keeps: "quiet L \<Longrightarrow> keeps b d (lock s) \<Longrightarrow> keeps_lock b d (do_upload_transponder_FTP L z m s)"
  unfolding do_upload_transponder_FTP_def Let_def split_beta by (intro ask_step) simp_all

lemma refresh_clock_keeps: "quiet L \<Longrightarrow> keeps b d (lock s) \<Longrightarrow> keeps_lock b d (refresh_clock L s)"
  unfolding refresh_clock_def Let_def split_beta by (intro ask_step) simp_all

lemma nothing_to_do_keeps: "quiet L \<Longrightarrow> keeps b d (lock s) \<Longrightarrow> keeps_lock b d (nothing_to_do L s)"
  unfolding nothing_to_do_def Let_def split_beta by (intro ask_step refresh_clock_keeps) simp_all

text \<open>Only the line itself can open the relay.\<close>

lemma carry_out_keeps:
  assumes "env_ok (l_env L)" "keeps b d (lock s)" "admitted (From_remote line) (lock s) \<Longrightarrow> b"
  shows "keeps_lock b d (carry_out L line s)"
proof -
  have "keeps b (lock s) (fst (process (l_env L) t (From_remote line) False (lock s)))" for t
    using process_keeps [OF assms(1), of "From_remote line" "lock s" t False] assms(3) by (auto simp: keeps_def)
  then show ?thesis
    using keeps_trans [OF assms(2)] by (simp add: carry_out_def Let_def split_beta)
qed

lemma answer_command_keeps:
  assumes "quiet L" "env_ok (l_env L)" "keeps b d (lock s)" "admitted (From_remote line) (lock s) \<Longrightarrow> b"
  shows "keeps_lock b d (answer_command L line s)"
proof -
  have name: "keeps b d (saveAllToEEPROM (e\<lparr>p_data := (p_data e)\<lparr>EdeviceName := snd (store_String 64 n)\<rparr>\<rparr>))"
    if "keeps b d e" for e n
    using keeps_trans [OF that keeps_save_data [of "\<lambda>x. x\<lparr>EdeviceName := snd (store_String 64 n)\<rparr>" b e]]
    by (simp add: save_data_def settings_ok_text store_String_def Let_def)
  show ?thesis
    unfolding answer_command_def Let_def
    using assms by (intro keeps_lock_and_next keeps_lock_if carry_out_keeps transmit_response_keeps) (simp_all add: name)
qed

lemma RequestTransponder_keeps:
  assumes "quiet L" "env_ok (l_env L)"
    and "\<And>s' line. fetched L s = (s', Some (Return line)) \<Longrightarrow> admitted (From_remote line) (lock s') \<Longrightarrow> b"
  shows "keeps_lock b (lock s) (RequestTransponder L [] s)"
  unfolding RequestTransponder_def Let_def split_beta if_False simp_thms
  by (intro keeps_lock_if keeps_lock_and_next ask_keeps nothing_to_do_keeps answer_command_keeps do_upload_keeps assms)
     (simp_all add: fetched_def)

lemma on_connected_keeps: "quiet L \<Longrightarrow> keeps_lock b (lock s) (on_connected L s)"
  unfolding on_connected_def Let_def
  by (intro keeps_lock_if keeps_lock_and_next ask_keeps do_upload_keeps) simp_all

section \<open>Reactions\<close>

lemma device_of_with [simp]: "device_of (with_device d y) = d" "y_web (with_device d y) = y_web y"
  by (simp_all add: device_of_def with_device_def device.truncate_def device.extend_def)

lemma device_of_frame [simp]: "device_of (y\<lparr>y_web := w\<rparr>) = device_of y" "device_of (y\<lparr>y_rem := s\<rparr>) = device_of y"
  "device_of (y\<lparr>y_wifi := f\<rparr>) = device_of y" "device_of (y\<lparr>y_board := b\<rparr>) = device.truncate b"
  by (simp_all add: device_of_def)

definition system_keeps :: "bool \<Rightarrow> 'w system \<Rightarrow> 'w system \<Rightarrow> bool" where
  "system_keeps b y y' \<longleftrightarrow>
     keeps b (device_of y) (device_of y') \<and> (table_ok (sta (y_web y)) \<longrightarrow> table_ok (sta (y_web y')))"

lemma on_board_keeps: "keeps b (device_of y) (device.truncate (fst (f (y_board y)))) \<Longrightarrow> system_keeps b y (fst (on_board f y))"
  by (simp add: on_board_def system_keeps_def split_beta)

lemma on_device_keeps: "keeps b (device_of y) (fst (f (device_of y))) \<Longrightarrow> system_keeps b y (fst (on_device f y))"
  by (simp add: on_device_def system_keeps_def split_beta)

lemma on_web_keeps:
  assumes "\<And>w. dev w = device_of y \<Longrightarrow> keeps b (dev w) (dev (fst (f w)))"
    and "\<And>w. table_ok (sta w) \<Longrightarrow> table_ok (sta (fst (f w)))"
  shows "system_keeps b y (fst (on_web f y))"
  using assms(1) [of "(y_web y)\<lparr>dev := device_of y\<rparr>"] assms(2) [of "(y_web y)\<lparr>dev := device_of y\<rparr>"]
  by (simp add: on_web_def system_keeps_def split_beta)

lemma on_remote_keeps:
  "keeps_lock b (device_of y) (f ((y_rem y)\<lparr>lock := device_of y\<rparr>)) \<Longrightarrow> system_keeps b y (fst (on_remote f y))"
  by (simp add: on_remote_def system_keeps_def keeps_lock_def split_beta)

lemma system_keeps_refl [simp]: "system_keeps b y y"
  by (simp add: system_keeps_def)

lemma system_keeps_trans: "system_keeps b x y \<Longrightarrow> system_keeps b y z \<Longrightarrow> system_keeps b x z"
  by (auto simp: system_keeps_def intro: keeps_trans)

lemma run_callback_keeps: "m \<noteq> no_mac \<Longrightarrow> system_keeps b y (run_callback now m ls ip cb y)"
  by (auto simp: run_callback_def system_keeps_def on_stations_def table_ok_connected table_ok_disconnected table_ok_assigned
      sta_connected_to_AP_def sta_got_ip_def sta_lost_def Let_def split: wifi_callback.split)

lemma wifi_frame_system [simp]:
  "y_wifi (with_device d y) = y_wifi y" "y_wifi (fst (on_board fb y)) = y_wifi y" "y_wifi (fst (on_device fd y)) = y_wifi y"
  "y_wifi (fst (on_web fw y)) = y_wifi y" "y_wifi (fst (on_remote fr y)) = y_wifi y"
  by (simp_all add: with_device_def on_board_def on_device_def on_web_def on_remote_def split: prod.split)

lemma run_callback_wifi: "y_wifi (run_callback now m ls ip cb y) = y_wifi y"
  by (simp add: run_callback_def on_stations_def split: wifi_callback.split)

interpretation driver_callbacks: invariant_steps "run_callback now m ls ip" "system_keeps b y" "\<lambda>_. m \<noteq> no_mac"
  for now m ls ip b y
  by unfold_locales (rule system_keeps_trans, assumption, rule run_callback_keeps)

interpretation driver_callbacks_wifi: simulation "run_callback now m ls ip" "\<lambda>_. True" "\<lambda>_. True" y_wifi "\<lambda>_ w. w"
  for now m ls ip
  by unfold_locales (simp_all add: run_callback_wifi)

lemma driver_event_keeps:
  assumes "m \<noteq> no_mac"
  shows "system_keeps b y (driver_event E ev now m ls ip y)"
proof -
  obtain w cbs where e: "eventCallback E ev (y_wifi y) = (w, cbs)" by fastforce
  have "system_keeps b (y\<lparr>y_wifi := w\<rparr>) (driver_event E ev now m ls ip y)"
    using driver_callbacks.run_keeps [where b = b and y = "y\<lparr>y_wifi := w\<rparr>" and s = "y\<lparr>y_wifi := w\<rparr>" and ins = cbs] assms
    by (simp add: driver_event_def e list_all_iff)
  then show ?thesis by (simp add: system_keeps_def)
qed

lemma serve_keeps:
  assumes "env_ok E"
  shows "system_keeps (authorised (Request P E m uri args c_ip now up) y) y
    (fst (serve P E (route (y_routes y) m uri) args c_ip now up y))"
proof -
  obtain st name n where up: "up = (st, name, n)" by (metis prod_cases3)
  have w: "dev w = device_of y \<Longrightarrow> keeps False (device_of y) (dev (Web_Handlers.handleUploadFileStatus st name n w))"
    "dev w = device_of y \<Longrightarrow> keeps False (device_of y) (dev (fst (Web_Handlers.handleUpdateStatus w)))"
    "dev w = device_of y \<Longrightarrow> keeps (admitted (From_server args) ((device_of y)\<lparr>ledState0 := True\<rparr>)) (device_of y)
      (dev (fst (Web_Handlers.handleCmd E now c_ip args w)))" for w
    using handleUploadFileStatus_keeps [of False w] handleUpdateStatus_keeps [of False w] handleCmd_keeps [OF assms, of args w]
    by auto
  show ?thesis
    using handleLogin_keeps [OF assms, of args "device_of y" P now]
    by (auto simp: serve_def up returned_def handleCmd_table web_table handleFavicon_def handleRestart_def w
        intro!: on_web_keeps on_device_keeps split: callback.split)
qed

text \<open>Every input that is possible.\<close>

lemma react_keeps:
  assumes "possible i y"
  shows "system_keeps (authorised i y) y (fst (react i y))"
proof (cases i)
  case (Tick hard soft)
  then show ?thesis using on_board_keeps [of "\<not> soft" y "scan_keys hard soft"] scan_keys_keeps [of soft "y_board y" hard]
    by (simp add: device_of_def)
next
  case (Turn E)
  then show ?thesis using assms by (auto simp: turn_def intro!: on_device_keeps loop_keeps)
next
  case (Associated L)
  then show ?thesis
    using assms on_connected_keeps [of L False "(y_rem y)\<lparr>lock := device_of y\<rparr>"] by (auto intro!: on_remote_keeps)
next
  case (Poll L)
  let ?s = "(y_rem y)\<lparr>lock := device_of y\<rparr>"
  have "keeps_lock (authorised i y) (lock ?s) (RequestTransponder L [] ?s)"
    by (rule RequestTransponder_keeps) (use assms Poll in auto)
  then show ?thesis using Poll by (auto intro!: on_remote_keeps)
next
  case (Request P E m uri args c_ip now up)
  then show ?thesis using assms serve_keeps [of E P m uri args c_ip now up y] by simp
next
  case (Key_file piece)
  have "dev w = device_of y \<Longrightarrow> keeps False (dev w) (dev (Web_Handlers.handleUploadFile True piece w))" for w
    by (rule handleUploadFile_keeps)
  then show ?thesis using Key_file by (auto simp: returned_def web_table intro!: on_web_keeps)
next
  case (Image u now status)
  have "dev w = device_of y \<Longrightarrow> keeps False (dev w) (dev (Web_Handlers.handleUpdate u now status w))" for w
    by (rule handleUpdate_keeps)
  then show ?thesis using Image by (auto simp: returned_def web_table intro!: on_web_keeps)
next
  case (Driver E ev now m ls ip)
  then show ?thesis using assms driver_event_keeps [of m] by auto
qed

text \<open>A start from flash.\<close>

lemma setup_board:
  assumes "setup_lock B flash = Runs r"
  shows "rst_mode (r_dev r) = 0" "swState (r_dev r)" "antilock (r_dev r) = 0" "\<not> relayState (r_dev r)"
proof -
  let ?s0 = "new_settings (b_garbage B) (\<not> b_hard_level B) (initial_device (b_garbage B) flash)"
  have "relayState ?s0 = False" "rst_mode ?s0 = 0" "swState ?s0" "antilock ?s0 = 0"
    by (simp_all add: new_settings_def init_settings_def saveAllToEEPROM_def loadAllFromEEPROM_def Let_def initial_device_def)
  then show "rst_mode (r_dev r) = 0" "swState (r_dev r)" "antilock (r_dev r) = 0" "\<not> relayState (r_dev r)"
    using assms by (auto simp: setup_lock_eq Let_def setup_name_frame modConCntr_def split: prod.splits bool.splits if_splits)
qed

lemma started_ok:
  assumes "length (b_garbage B) = 800" "initialised flash \<Longrightarrow> settings_ok (eeprom_get flash)" "setup_lock B flash = Runs r"
  shows "device_ok (device_of (started w t ds r)) \<and> table_ok (sta (y_web (started w t ds r))) \<and>
    \<not> relayState (device_of (started w t ds r))"
proof -
  have "device_of (started w t ds r) = r_dev r"
    by (simp add: started_def device_of_def device.truncate_def device.extend_def)
  then show ?thesis using setup_starts [OF assms] by (simp add: started_def)
qed

lemma run_well_formed:
  assumes "run flash h y" "initialised flash \<Longrightarrow> settings_ok (eeprom_get flash)"
  shows "device_ok (device_of y) \<and> table_ok (sta (y_web y))"
  using assms(1)
proof (induction rule: run.induct)
  case (power_on B r w t ds)
  then show ?case using started_ok [OF power_on(1) assms(2) power_on(2), of w t ds] by simp
next
  case (step h y i y')
  then show ?case using react_keeps [OF step(2)] by (auto simp: system_keeps_def keeps_def)
next
  case (power_lost h y B r' t ds)
  then show ?case using started_ok [OF power_lost(2) _ power_lost(3), of "world (y_rem y)" t ds] by (auto simp: device_ok_def)
next
  case (restart h y i y' r B r' t ds)
  then have "device_ok (device_of y')" using react_keeps [OF restart(2)] by (simp add: system_keeps_def keeps_def)
  then show ?case using started_ok [OF restart(5) _ restart(6), of "world (y_rem y')" t ds] by (auto simp: device_ok_def)
qed

text \<open>The relay was opened by an authorised step and has been open since.\<close>

definition opened_by :: "('w system \<times> 'w input) list \<Rightarrow> bool" where
  "opened_by h \<longleftrightarrow> (\<exists>h1 x i h2. h = h1 @ (x, i) # h2 \<and> authorised i x \<and> (\<forall>(z, j) \<in> set h2. relayState (device_of z)))"

lemma opened_by_now: "authorised i y \<Longrightarrow> opened_by (h @ [(y, i)])"
  unfolding opened_by_def by (rule exI [of _ h], rule exI [of _ y], rule exI [of _ i], rule exI [of _ "[]"]) simp

lemma opened_by_before: "opened_by h \<Longrightarrow> relayState (device_of y) \<Longrightarrow> opened_by (h @ [(y, i)])"
  unfolding opened_by_def by (elim exE conjE, rule exI, rule exI, rule exI, rule_tac x = "h2 @ [(y, i)]" in exI) auto

lemma started_closed: "setup_lock B flash = Runs r \<Longrightarrow> \<not> relayState (device_of (started w t ds r))"
  using setup_board(4) [of B flash r] by (simp add: started_def device_of_def device.truncate_def device.extend_def)

lemma run_opened: "run flash h y \<Longrightarrow> relayState (device_of y) \<Longrightarrow> opened_by h"
proof (induction rule: run.induct)
  case (step h y i y')
  then have "relayState (device_of y) \<or> authorised i y"
    using react_keeps [OF step(2)] by (auto simp: system_keeps_def keeps_def)
  then show ?case using step.IH opened_by_now opened_by_before by blast
qed (simp_all add: started_closed)

text \<open>Nothing switches the library's own reconnecting off.\<close>

lemma eventCallback_auto: "w_auto_reconnect (fst (eventCallback E ev w)) = w_auto_reconnect w"
  by (simp add: eventCallback_def frame_simps)

lemma driver_event_wifi: "y_wifi (driver_event E ev now m ls ip y) = fst (eventCallback E ev (y_wifi y))"
  by (simp add: driver_event_def driver_callbacks_wifi.run_simulates list_all_iff split: prod.split)

lemma react_auto: "w_auto_reconnect (y_wifi (fst (react i y))) = w_auto_reconnect (y_wifi y)"
  by (cases i) (simp_all add: turn_def serve_def driver_event_wifi eventCallback_auto split: callback.split)

lemma run_auto: "run flash h y \<Longrightarrow> w_auto_reconnect (y_wifi y)"
proof (induction rule: run.induct)
  case (step h y i y')
  then show ?case using react_auto [of i y] by simp
qed (simp_all add: started_def setup_runs_auto)

section \<open>A real environment\<close>

text \<open>
  The environment of a lock on the network, for \<open>env_ok\<close>: a client that is served meanwhile sends a command, the
  keys are loaded and the script is uploaded as in \<^verbatim>\<open>Key_Download\<close> and \<^verbatim>\<open>Remote_Client\<close>.  \<open>s\<close> is the
  network around the lock; a call that does not return answers nothing.
\<close>

definition lock_answer :: "('w, string) result \<Rightarrow> device \<times> string" where
  "lock_answer q = (lock (fst q), case snd q of Some (Return m) \<Rightarrow> m | _ \<Rightarrow> [])"

definition network_env ::
  "'w surroundings \<Rightarrow> 'w storage \<Rightarrow> int \<Rightarrow> 'w remote \<Rightarrow> u32 \<Rightarrow> source \<Rightarrow> bool \<Rightarrow> env \<Rightarrow> env" where
  "network_env L K timeout s now src html E =
     E\<lparr>e_handleClient := (\<lambda>d. fst (process E now src html d)),
       e_loadKeys := (\<lambda>d. lock_answer (loadKeysFromRemoteStorage L K timeout (s\<lparr>lock := d\<rparr>))),
       e_uploadTransponder := (\<lambda>zone logs d. lock_answer (do_upload_transponder_FTP L zone logs (s\<lparr>lock := d\<rparr>)))\<rparr>"

lemma network_env_ok:
  assumes "env_ok E" "quiet L"
  shows "env_ok (network_env L K timeout s now src html E)"
proof -
  have "device_ok (fst (lock_answer (do_upload_transponder_FTP L zone logs (s\<lparr>lock := d\<rparr>))))" if "device_ok d" for zone logs d
    using do_upload_keeps [OF assms(2), of True d "s\<lparr>lock := d\<rparr>" zone logs] that
    by (simp add: keeps_lock_def keeps_def lock_answer_def)
  moreover have "device_ok (fst (lock_answer (loadKeysFromRemoteStorage L K timeout (s\<lparr>lock := d\<rparr>))))" if "device_ok d" for d
    using loadKeys_device_ok [of "s\<lparr>lock := d\<rparr>" L K timeout] that by (simp add: lock_answer_def)
  ultimately show ?thesis
    using env_ok_serving [OF assms(1), of now src html] by (simp add: env_ok_def network_env_def)
qed

section \<open>Properties\<close>

text \<open>C14. Whatever happens to the lock, its settings keep their shape in RAM and in flash, with at most a hundred
  keys, and its table of stations is right: after any start from a well-formed or empty flash and any
  sequence of ticks, turns, requests, files, polls, driver events, restarts and losses of power.\<close>

theorem lock_stays_well_formed:
  assumes "run flash h y" "initialised flash \<Longrightarrow> settings_ok (eeprom_get flash)"
  shows "device_ok (device_of y) \<and> table_ok (sta (y_web y))"
  by (rule run_well_formed [OF assms])

text \<open>C15. The lock opens only for its button or an accepted key: when the relay is on in any run, it was switched
  on by a tick with the button down, by a command or a login with a key that the lock accepts, or by
  a line that the poll fetched with such a key, and has been on since.\<close>

theorem lock_opens_only_when_authorised:
  assumes "run flash h y" "relayState (device_of y)"
  shows "\<exists>h1 x i h2. h = h1 @ (x, i) # h2 \<and> authorised i x \<and> (\<forall>(z, j) \<in> set h2. relayState (device_of z))"
  using run_opened [OF assms] by (simp add: opened_by_def)

text \<open>C32. The end of the attempts and the pause are without effect: the program asks the driver not to connect by
  itself in a way the library ignores, and in every run, whatever the state of the connection and
  even after remote control has been disabled, a station lost to a silent access point is connected
  again by the library at once.\<close>

theorem library_reconnects_anyway:
  assumes "run flash h y" "getMode (y_wifi y) AND WIFI_MODE_STA \<noteq> 0"
    and "ev_id ev = STA_DISCONNECTED" "REASON_BEACON_TIMEOUT \<le> ev_reason ev" "ev_reason ev \<noteq> REASON_AUTH_FAIL"
    and "e_disconnect E" "e_sta_get E" "e_set_sta E" "w_static_ip (y_wifi y) \<or> e_dhcpc_start E"
  shows "\<exists>y'. react (Driver E ev now m ls ip) y = (y', Some (Return ())) \<and>
    Esp_connect \<in> set (drop (length (w_calls (y_wifi y))) (w_calls (y_wifi y')))"
  using disconnect_reconnects [OF run_auto [OF assms(1)] assms(2-9)]
  by (simp add: driver_event_wifi eventCallback_def)

text \<open>The lock just started, then its button pressed.\<close>

lemma button_run:
  "\<exists>y0 y :: unit system. run stored_flash [] y0 \<and> getMode (y_wifi y0) = WIFI_MODE_APSTA \<and>
     run stored_flash [(y0, Tick True False)] y \<and> relayState (device_of y)"
proof -
  have d: "boot_settings good_boot stored_flash = ssl_port (eeprom_get stored_flash)"
    using stored_flash_ok good_boot_ok by (simp add: boot_settings_eq)
  have "ap_names_ok (boot_settings good_boot stored_flash)" using stored_flash_ok by (simp add: d)
  then obtain r where r: "setup_lock good_boot stored_flash = Runs r"
    using setup_runs [OF good_boot_ok(1)] good_boot_ok(2) by blast
  let ?y0 = "started () 0 [] r :: unit system"
  obtain b x where b: "scan_keys True False (y_board ?y0) = (b, x)" by fastforce
  have y0: "run stored_flash [] ?y0" by (rule run.power_on [OF good_boot_ok(4) r])
  have g: "getMode (y_wifi ?y0) = WIFI_MODE_APSTA"
    using setup_runs_mode [OF good_boot_ok(1) r] stored_flash_remote by (simp add: d started_def)
  have s: "\<not> overdue (y_board ?y0)" "rst_mode (y_board ?y0) = 0" "swState (y_board ?y0)"
    using setup_board [OF r] by (simp_all add: started_def overdue_def device.extend_def antilock_timeoutMs_def)
  have f: "rst_mode (scan_hard_button True (ticked (y_board ?y0))) = 0" "swState (scan_hard_button True (ticked (y_board ?y0)))"
    using s by (simp_all add: scan_hard_button_def frame_simps)
  then have k: "x = Return ()" "relayState b"
    using b s by (auto simp: scan_keys_eq scan_button_def Let_def)
  have "run stored_flash ([] @ [(?y0, Tick True False)]) (?y0\<lparr>y_board := b\<rparr>)"
    by (rule run.step [OF y0]) (simp_all add: on_board_def b k)
  moreover have "relayState (device_of (?y0\<lparr>y_board := b\<rparr>))" using k by (simp add: device.truncate_def)
  ultimately show ?thesis using y0 g by fastforce
qed

theorem lock_stays_well_formed_witness:
  "\<exists>y0 y :: unit system. run stored_flash [(y0, Tick True False)] y \<and> device_ok (device_of y) \<and> table_ok (sta (y_web y))"
  using button_run lock_stays_well_formed [OF _ stored_flash_ok(2)] by blast

theorem lock_opens_only_when_authorised_witness:
  "\<exists>y0 y :: unit system. run stored_flash [(y0, Tick True False)] y \<and> relayState (device_of y) \<and>
    (\<exists>h1 x i h2. [(y0, Tick True False)] = h1 @ (x, i) # h2 \<and> authorised i x \<and> (\<forall>(z, j) \<in> set h2. relayState (device_of z)))"
  using button_run lock_opens_only_when_authorised by metis

theorem library_reconnects_anyway_witness:
  "\<exists>y0 y' :: unit system. run stored_flash [] y0 \<and>
    react (Driver good_esp \<lparr>ev_id = STA_DISCONNECTED, ev_reason = REASON_BEACON_TIMEOUT, ev_clients = None, ev_if = IF_STA\<rparr>
      0 (replicate 6 1) [] 0) y0 = (y', Some (Return ())) \<and> Esp_connect \<in> set (drop (length (w_calls (y_wifi y0))) (w_calls (y_wifi y')))"
proof -
  let ?ev = "\<lparr>ev_id = STA_DISCONNECTED, ev_reason = REASON_BEACON_TIMEOUT, ev_clients = None, ev_if = IF_STA\<rparr>"
  obtain y0 :: "unit system" where y0: "run stored_flash [] y0" "getMode (y_wifi y0) = WIFI_MODE_APSTA" using button_run by blast
  have "\<exists>y'. react (Driver good_esp ?ev 0 (replicate 6 1) [] 0) y0 = (y', Some (Return ())) \<and>
      Esp_connect \<in> set (drop (length (w_calls (y_wifi y0))) (w_calls (y_wifi y')))"
    by (rule library_reconnects_anyway [OF y0(1)])
      (simp_all add: y0(2) WIFI_MODE_APSTA_def WIFI_MODE_STA_def REASON_BEACON_TIMEOUT_def REASON_AUTH_FAIL_def good_esp_def)
  then show ?thesis using y0(1) by blast
qed

end
