(* ===== verification/Wifi_Rx.thy ===== *)
theory Wifi_Rx
  imports Device
begin

text \<open>
  The receive buffer of a TCP client, \<open>WiFiClientRxBuffer\<close> of \<open>WiFiClient.cpp\<close>.  The TCP/IP stack
  below it is not part of the source: its calls are arguments, with the state of the network passed
  through them.
\<close>

section \<open>The stack\<close>

datatype errno =
  EWOULDBLOCK | EINPROGRESS | ENOENT | ENOTCONN | EPIPE | ECONNRESET | ECONNREFUSED | ECONNABORTED | Other_errno

datatype sockopt = SO_RCVTIMEO | SO_SNDTIMEO | SO_KEEPALIVE | TCP_NODELAY | Other_option int int
  \<comment> \<open>level and name\<close>

text \<open>
  \<open>None\<close> is a negative answer; \<open>EAGAIN\<close> and \<open>EWOULDBLOCK\<close> are one number.  The reason of a failure
  is read from the state, where it stays until the next failure.
\<close>

record 'w lwip =
  lw_errno :: "'w \<Rightarrow> errno"
  lw_malloc :: "nat \<Rightarrow> 'w \<Rightarrow> bytes option \<times> 'w"
  lw_readable :: "int \<Rightarrow> 'w \<Rightarrow> nat option \<times> 'w"
    \<comment> \<open>\<open>FIONREAD\<close>\<close>
  lw_recv :: "int \<Rightarrow> nat \<Rightarrow> 'w \<Rightarrow> bytes option \<times> 'w"
  lw_send :: "int \<Rightarrow> bytes \<Rightarrow> 'w \<Rightarrow> nat option \<times> 'w"
  lw_select :: "int \<Rightarrow> int option \<Rightarrow> 'w \<Rightarrow> bool option \<times> 'w"
    \<comment> \<open>waiting to write, at most so many microseconds: whether the socket is ready\<close>
  lw_socket :: "'w \<Rightarrow> int \<times> 'w"
  lw_connect :: "int \<Rightarrow> u32 \<Rightarrow> u16 \<Rightarrow> 'w \<Rightarrow> bool \<times> 'w"
  lw_sockerr :: "int \<Rightarrow> 'w \<Rightarrow> int option \<times> 'w"
  lw_close :: "int \<Rightarrow> 'w \<Rightarrow> 'w"
  lw_setopt :: "int \<Rightarrow> sockopt \<Rightarrow> int \<Rightarrow> 'w \<Rightarrow> bool \<times> 'w"
  lw_bind :: "int \<Rightarrow> u16 \<Rightarrow> 'w \<Rightarrow> bool \<times> 'w"
  lw_listen :: "int \<Rightarrow> nat \<Rightarrow> 'w \<Rightarrow> bool \<times> 'w"
  lw_accept :: "int \<Rightarrow> 'w \<Rightarrow> int \<times> 'w"

section \<open>The receive buffer\<close>

record rx =
  rx_size :: nat
  rx_buffer :: "bytes option"
  rx_pos :: nat
  rx_fill :: nat
  rx_fd :: int
  rx_failed :: bool

definition new_rx :: "int \<Rightarrow> rx" where
  "new_rx fd = \<lparr>rx_size = 1436, rx_buffer = None, rx_pos = 0, rx_fill = 0, rx_fd = fd, rx_failed = False\<rparr>"

definition r_available :: "'w lwip \<Rightarrow> rx \<times> 'w \<Rightarrow> nat \<times> rx \<times> 'w" where
  "r_available L = (\<lambda>(b, w).
     if rx_fd b < 0 then (0, b, w)
     else case lw_readable L (rx_fd b) w of
            (None, w1) \<Rightarrow> (0, b\<lparr>rx_failed := True\<rparr>, w1)
          | (Some n, w1) \<Rightarrow> (n, b, w1))"

definition fill_from :: "'w lwip \<Rightarrow> bytes \<Rightarrow> rx \<times> 'w \<Rightarrow> nat \<times> rx \<times> 'w" where
  "fill_from L m = (\<lambda>(b, w).
     case lw_recv L (rx_fd b) (rx_size b - rx_fill b) w of
       (None, w1) \<Rightarrow> (0, if lw_errno L w1 \<noteq> EWOULDBLOCK then b\<lparr>rx_failed := True\<rparr> else b, w1)
     | (Some bs, w1) \<Rightarrow>
         (length bs, b\<lparr>rx_buffer := Some (overwrite m (rx_fill b) bs), rx_fill := rx_fill b + length bs\<rparr>, w1))"

text \<open>The start of the buffer is used again only when all of it was read.\<close>

definition fillBuffer :: "'w lwip \<Rightarrow> rx \<times> 'w \<Rightarrow> nat \<times> rx \<times> 'w" where
  "fillBuffer L = (\<lambda>(b, w).
     case (case rx_buffer b of Some m \<Rightarrow> (Some m, w) | None \<Rightarrow> lw_malloc L (rx_size b) w) of
       (None, w1) \<Rightarrow> (0, b\<lparr>rx_failed := True\<rparr>, w1)
     | (Some m, w1) \<Rightarrow>
         (let b1 = b\<lparr>rx_buffer := Some m\<rparr>;
              b2 = (if rx_fill b1 \<noteq> 0 \<and> rx_pos b1 = rx_fill b1 then b1\<lparr>rx_fill := 0, rx_pos := 0\<rparr> else b1)
          in if rx_size b2 \<le> rx_fill b2 then (0, b2, w1)
             else case r_available L (b2, w1) of
                    (n, b3, w2) \<Rightarrow> if n = 0 then (0, b3, w2) else fill_from L m (b3, w2)))"

definition buffer_of :: "rx \<Rightarrow> bytes" where
  "buffer_of b = (case rx_buffer b of None \<Rightarrow> [] | Some m \<Rightarrow> m)"

definition rx_take :: "nat \<Rightarrow> rx \<Rightarrow> bytes \<times> rx" where
  "rx_take n b = (take n (drop (rx_pos b) (buffer_of b)), b\<lparr>rx_pos := rx_pos b + n\<rparr>)"

text \<open>\<open>None\<close> is a loop that does not end; the first result is what is still to be read.\<close>

partial_function (option) read_loop ::
  "'w lwip \<Rightarrow> nat \<Rightarrow> bytes \<Rightarrow> rx \<times> 'w \<Rightarrow> (nat \<times> bytes \<times> rx \<times> 'w) option" where
  "read_loop L left got s =
     (if left = 0 then Some (0, got, s)
      else case fillBuffer L s of (n, b, w) \<Rightarrow>
        if n = 0 then Some (left, got, b, w)
        else let toRead = min (rx_fill b - rx_pos b) left
             in read_loop L (left - toRead) (got @ fst (rx_take toRead b)) (snd (rx_take toRead b), w))"

definition rx_read :: "'w lwip \<Rightarrow> nat \<Rightarrow> rx \<times> 'w \<Rightarrow> (int \<times> bytes \<times> rx \<times> 'w) option" where
  "rx_read L len = (\<lambda>(b, w).
     if len = 0 then Some (-1, [], b, w)
     else case (if rx_pos b = rx_fill b then fillBuffer L (b, w) else (1, b, w)) of (n0, b0, w0) \<Rightarrow>
       if n0 = 0 then Some (-1, [], b0, w0)
       else
         let a = rx_fill b0 - rx_pos b0;
             whole = (\<lambda>b w. Some (int len, fst (rx_take len b), snd (rx_take len b), w))
         in if len \<le> a then whole b0 w0
            else case (if len - a \<le> rx_size b0 - rx_fill b0 then fillBuffer L (b0, w0) else (0, b0, w0)) of (n1, b1, w1) \<Rightarrow>
              if len - a \<le> n1 then whole b1 w1
              else map_option (\<lambda>(left, got, b2, w2). (int len - int left, got, b2, w2))
                     (read_loop L (len - a) (fst (rx_take a b1)) (snd (rx_take a b1), w1)))"

definition rx_peek :: "'w lwip \<Rightarrow> rx \<times> 'w \<Rightarrow> char option \<times> rx \<times> 'w" where
  "rx_peek L = (\<lambda>(b, w).
     case (if rx_pos b = rx_fill b then fillBuffer L (b, w) else (1, b, w)) of (n, b1, w1) \<Rightarrow>
       if n = 0 then (None, b1, w1) else (Some (buffer_of b1 ! rx_pos b1), b1, w1))"

definition rx_available :: "'w lwip \<Rightarrow> rx \<times> 'w \<Rightarrow> nat \<times> rx \<times> 'w" where
  "rx_available L = (\<lambda>(b, w). case r_available L (b, w) of (n, s) \<Rightarrow> (rx_fill b - rx_pos b + n, s))"

section \<open>The buffer as a queue\<close>

text \<open>
  What the stack promises: the bytes that are still to come arrive in order and only once, however
  they are cut; \<open>pend\<close> names them.
\<close>

definition tcp_law :: "'w lwip \<Rightarrow> (int \<Rightarrow> 'w \<Rightarrow> bytes) \<Rightarrow> bool" where
  "tcp_law L pend \<longleftrightarrow>
     (\<forall>n w. case lw_malloc L n w of (m, w') \<Rightarrow> (\<forall>x. m = Some x \<longrightarrow> length x = n) \<and> (\<forall>fd. pend fd w' = pend fd w)) \<and>
     (\<forall>fd w. pend fd (snd (lw_readable L fd w)) = pend fd w) \<and>
     (\<forall>fd n w. case lw_recv L fd n w of
        (Some bs, w') \<Rightarrow> pend fd w = bs @ pend fd w' \<and> length bs \<le> n
      | (None, w') \<Rightarrow> pend fd w' = pend fd w)"

definition rx_ok :: "rx \<Rightarrow> bool" where
  "rx_ok b \<longleftrightarrow> rx_pos b \<le> rx_fill b \<and> rx_fill b \<le> rx_size b \<and>
     (case rx_buffer b of None \<Rightarrow> rx_fill b = 0 | Some m \<Rightarrow> length m = rx_size b)"

definition buffered :: "rx \<Rightarrow> bytes" where
  "buffered b = take (rx_fill b - rx_pos b) (drop (rx_pos b) (buffer_of b))"

definition content :: "(int \<Rightarrow> 'w \<Rightarrow> bytes) \<Rightarrow> rx \<times> 'w \<Rightarrow> bytes" where
  "content pend = (\<lambda>(b, w). buffered b @ pend (rx_fd b) w)"

lemma rx_ok_new: "rx_ok (new_rx fd)" "buffered (new_rx fd) = []"
  by (simp_all add: rx_ok_def new_rx_def buffered_def buffer_of_def)

lemma length_buffered: "rx_ok b \<Longrightarrow> length (buffered b) = rx_fill b - rx_pos b"
  by (auto simp: rx_ok_def buffered_def buffer_of_def split: option.splits)

lemma buffered_read_out: "rx_pos b = rx_fill b \<Longrightarrow> buffered b = []"
  by (simp add: buffered_def)

lemma overwrite_buffered:
  assumes "pos \<le> fill" "fill + length bs \<le> length m"
  shows "take (fill + length bs - pos) (drop pos (overwrite m fill bs)) = take (fill - pos) (drop pos m) @ bs"
proof -
  have "\<not> length m \<le> fill" if "bs \<noteq> []" using assms(2) that by (cases bs) auto
  then show ?thesis using assms by (cases "bs = []") (auto simp: overwrite_def min_def take_drop)
qed

lemma tcp_recvD:
  assumes "tcp_law L pend"
  shows "lw_recv L fd n w = (Some bs, w') \<Longrightarrow> pend fd w = bs @ pend fd w' \<and> length bs \<le> n"
    and "lw_recv L fd n w = (None, w') \<Longrightarrow> pend fd w' = pend fd w"
  using conjunct2 [OF conjunct2 [OF assms [unfolded tcp_law_def]], rule_format, where fd = fd and n = n and w = w] by simp_all

lemma tcp_readableD:
  assumes "tcp_law L pend"
  shows "lw_readable L fd w = (r, w') \<Longrightarrow> pend fd w' = pend fd w"
  using conjunct1 [OF conjunct2 [OF assms [unfolded tcp_law_def]], rule_format, where fd = fd and w = w] by simp

lemma tcp_mallocD:
  assumes "tcp_law L pend"
  shows "lw_malloc L n w = (x, w') \<Longrightarrow> pend fd w' = pend fd w"
    and "lw_malloc L n w = (Some m, w') \<Longrightarrow> length m = n"
  using conjunct1 [OF assms [unfolded tcp_law_def], rule_format, where n = n and w = w] by simp_all

text \<open>A step of the buffer: what is in order stays in order, and the stream is the same.\<close>

definition same_stream :: "(int \<Rightarrow> 'w \<Rightarrow> bytes) \<Rightarrow> rx \<times> 'w \<Rightarrow> rx \<times> 'w \<Rightarrow> nat \<Rightarrow> bool" where
  "same_stream pend s t n \<longleftrightarrow>
     rx_ok (fst t) \<and> rx_fd (fst t) = rx_fd (fst s) \<and> rx_size (fst t) = rx_size (fst s) \<and> content pend t = content pend s \<and>
     length (buffered (fst t)) = length (buffered (fst s)) + n"

lemma same_streamI:
  "rx_ok b' \<Longrightarrow> rx_fd b' = rx_fd b \<Longrightarrow> rx_size b' = rx_size b \<Longrightarrow> buffered b' = buffered b \<Longrightarrow>
     pend (rx_fd b) w' = pend (rx_fd b) w \<Longrightarrow> same_stream pend (b, w) (b', w') 0"
  by (simp add: same_stream_def content_def)

lemma r_available_same:
  assumes "tcp_law L pend" "rx_ok b" "r_available L (b, w) = (n, s)"
  shows "same_stream pend (b, w) s 0"
  using assms(2,3) tcp_readableD [OF assms(1)]
  by (auto simp: r_available_def rx_ok_def buffered_def buffer_of_def intro!: same_streamI
      split: if_splits prod.splits option.splits)

lemma fill_from_same:
  assumes "tcp_law L pend" "rx_ok b" "rx_buffer b = Some m" "fill_from L m (b, w) = (n, s)"
  shows "same_stream pend (b, w) s n"
proof -
  obtain r w1 where r: "lw_recv L (rx_fd b) (rx_size b - rx_fill b) w = (r, w1)" by fastforce
  show ?thesis
  proof (cases r)
    case None
    then show ?thesis
      using assms r tcp_recvD(2) [OF assms(1)]
      by (auto simp: fill_from_def rx_ok_def buffered_def buffer_of_def intro!: same_streamI split: if_splits)
  next
    case (Some bs)
    have p: "pend (rx_fd b) w = bs @ pend (rx_fd b) w1" "length bs \<le> rx_size b - rx_fill b"
      using tcp_recvD(1) [OF assms(1)] r Some by auto
    define b' where "b' = b\<lparr>rx_buffer := Some (overwrite m (rx_fill b) bs), rx_fill := rx_fill b + length bs\<rparr>"
    have s: "n = length bs" "s = (b', w1)" using assms(4) r Some by (auto simp: fill_from_def b'_def)
    have "buffered b' = buffered b @ bs"
      using overwrite_buffered [of "rx_pos b" "rx_fill b" bs m] assms(2,3) p(2) Nat.le_diff_conv2 [of "rx_fill b" "rx_size b" "length bs"]
      by (simp add: b'_def add.commute buffered_def buffer_of_def rx_ok_def)
    moreover have "rx_ok b'" using assms(2,3) p(2) by (auto simp: b'_def rx_ok_def)
    ultimately show ?thesis using p(1) s by (simp add: same_stream_def content_def) (simp add: b'_def)
  qed
qed

lemma same_stream_trans: "same_stream pend s t m \<Longrightarrow> same_stream pend t u n \<Longrightarrow> same_stream pend s u (m + n)"
  by (simp add: same_stream_def)

lemma fillBuffer_same:
  assumes "tcp_law L pend" "rx_ok b" "fillBuffer L (b, w) = (n, s)"
  shows "same_stream pend (b, w) s n"
proof -
  obtain mo w1 where m: "(case rx_buffer b of Some m \<Rightarrow> (Some m, w) | None \<Rightarrow> lw_malloc L (rx_size b) w) = (mo, w1)" by fastforce
  have w1: "pend (rx_fd b) w1 = pend (rx_fd b) w" using m tcp_mallocD(1) [OF assms(1)] by (auto split: option.splits)
  show ?thesis
  proof (cases mo)
    case None
    then show ?thesis
      using assms m w1
      by (auto simp: fillBuffer_def rx_ok_def buffered_def buffer_of_def intro!: same_streamI split: option.splits)
  next
    case (Some a)
    have a: "length a = rx_size b" using m Some assms(2) tcp_mallocD(2) [OF assms(1)] by (auto simp: rx_ok_def split: option.splits)
    define b2 where "b2 = (if rx_fill b \<noteq> 0 \<and> rx_pos b = rx_fill b
      then b\<lparr>rx_buffer := Some a, rx_fill := 0, rx_pos := 0\<rparr> else b\<lparr>rx_buffer := Some a\<rparr>)"
    have old: "rx_fill b \<noteq> 0 \<Longrightarrow> rx_buffer b = Some a" using m Some assms(2) by (auto simp: rx_ok_def split: option.splits)
    have ok: "rx_ok b2" "rx_buffer b2 = Some a" "rx_fd b2 = rx_fd b" "rx_size b2 = rx_size b"
      using assms(2) a by (auto simp: b2_def rx_ok_def)
    have "buffered b2 = buffered b"
      using old assms(2) by (auto simp: b2_def buffered_def buffer_of_def rx_ok_def split: option.splits)
    then have s2: "same_stream pend (b, w) (b2, w1) 0" using ok w1 by (intro same_streamI) simp_all
    have f: "fillBuffer L (b, w) =
        (if rx_size b2 \<le> rx_fill b2 then (0, b2, w1)
         else case r_available L (b2, w1) of (n, b3, w2) \<Rightarrow> if n = 0 then (0, b3, w2) else fill_from L a (b3, w2))"
      unfolding fillBuffer_def prod.case m Some option.case Let_def b2_def by (simp split: prod.splits)
    show ?thesis
    proof (cases "rx_size b2 \<le> rx_fill b2")
      case True
      then show ?thesis using f assms(3) s2 by simp
    next
      case False
      obtain k b3 w2 where r: "r_available L (b2, w1) = (k, b3, w2)" by (metis prod_cases3)
      have s3: "same_stream pend (b2, w1) (b3, w2) 0" by (rule r_available_same [OF assms(1) ok(1) r])
      have b3: "rx_buffer b3 = Some a"
        using r ok(2) by (auto simp: r_available_def split: if_splits prod.splits option.splits)
      show ?thesis
      proof (cases "k = 0")
        case True
        then show ?thesis using f assms(3) False r same_stream_trans [OF s2 s3] by simp
      next
        case k: False
        have "rx_ok b3" using s3 by (simp add: same_stream_def)
        then have "same_stream pend (b3, w2) s n"
          using fill_from_same [OF assms(1) _ b3] f assms(3) False k r by simp
        then show ?thesis using same_stream_trans [OF same_stream_trans [OF s2 s3]] by simp
      qed
    qed
  qed
qed

lemma rx_take_take:
  assumes "rx_ok b" "n \<le> length (buffered b)" "rx_take n b = (bs, b')"
  shows "rx_ok b'" "bs @ buffered b' = buffered b" "length bs = n" "rx_fd b' = rx_fd b" "rx_size b' = rx_size b"
proof -
  have n: "n \<le> rx_fill b - rx_pos b" using assms(2) length_buffered [OF assms(1)] by simp
  show "rx_ok b'" "rx_fd b' = rx_fd b" "rx_size b' = rx_size b"
    using assms n by (auto simp: rx_take_def rx_ok_def split: option.splits)
  have bs: "bs = take n (buffered b)" using assms(3) n by (auto simp: rx_take_def buffered_def min_def)
  have "buffered b' = drop n (buffered b)"
    using assms(3) n by (auto simp: rx_take_def buffered_def buffer_of_def drop_take add.commute)
  then show "bs @ buffered b' = buffered b" "length bs = n" using bs assms(2) by simp_all
qed

text \<open>A read: \<open>out\<close> leaves the stream at its front.\<close>

definition takes_out :: "(int \<Rightarrow> 'w \<Rightarrow> bytes) \<Rightarrow> rx \<times> 'w \<Rightarrow> bytes \<Rightarrow> rx \<times> 'w \<Rightarrow> bool" where
  "takes_out pend s bs t \<longleftrightarrow>
     rx_ok (fst t) \<and> rx_fd (fst t) = rx_fd (fst s) \<and> rx_size (fst t) = rx_size (fst s) \<and> content pend s = bs @ content pend t"

lemma takes_out_same: "same_stream pend s t n \<Longrightarrow> takes_out pend s [] t"
  by (simp add: takes_out_def same_stream_def)

lemma takes_out_trans: "takes_out pend s a t \<Longrightarrow> takes_out pend t b u \<Longrightarrow> takes_out pend s (a @ b) u"
  by (simp add: takes_out_def)

lemma takes_out_take:
  assumes "rx_ok b" "n \<le> length (buffered b)"
  shows "takes_out pend (b, w) (fst (rx_take n b)) (snd (rx_take n b), w)" "length (fst (rx_take n b)) = n"
  using rx_take_take [OF assms, of "fst (rx_take n b)" "snd (rx_take n b)"] by (auto simp: takes_out_def content_def)

lemma read_loop_takes:
  assumes "tcp_law L pend" "rx_ok b"
  shows "\<exists>left' out t. read_loop L left got (b, w) = Some (left', got @ out, t) \<and> left' + length out = left \<and>
    takes_out pend (b, w) out t"
  using assms(2)
proof (induction left arbitrary: got b w rule: less_induct)
  case (less left)
  show ?case
  proof (cases "left = 0")
    case True
    then show ?thesis using less.prems by (auto simp: read_loop.simps takes_out_def)
  next
    case False
    obtain n b1 w1 where f: "fillBuffer L (b, w) = (n, b1, w1)" by (metis prod_cases3)
    have s: "same_stream pend (b, w) (b1, w1) n" by (rule fillBuffer_same [OF assms(1) less.prems f])
    show ?thesis
    proof (cases "n = 0")
      case True
      then show ?thesis using False f takes_out_same [OF s] by (subst read_loop.simps) auto
    next
      case n: False
      have ok: "rx_ok b1" and l: "0 < length (buffered b1)" using s n by (simp_all add: same_stream_def)
      define k where "k = min (rx_fill b1 - rx_pos b1) left"
      have k: "0 < k" "k \<le> left" "k \<le> length (buffered b1)" using l False length_buffered [OF ok] by (auto simp: k_def)
      have t: "takes_out pend (b1, w1) (fst (rx_take k b1)) (snd (rx_take k b1), w1)" "length (fst (rx_take k b1)) = k"
        by (rule takes_out_take [OF ok k(3)])+
      obtain left' out t' where IH: "read_loop L (left - k) (got @ fst (rx_take k b1)) (snd (rx_take k b1), w1)
          = Some (left', (got @ fst (rx_take k b1)) @ out, t')"
        "left' + length out = left - k" "takes_out pend (snd (rx_take k b1), w1) out t'"
        using less.IH [of "left - k" "snd (rx_take k b1)" "got @ fst (rx_take k b1)" w1] k t(1) False
        by (auto simp: takes_out_def)
      have "read_loop L left got (b, w) = Some (left', got @ fst (rx_take k b1) @ out, t')"
        using False n f IH(1) by (subst read_loop.simps) (simp add: k_def Let_def)
      moreover have "takes_out pend (b, w) (fst (rx_take k b1) @ out) t'"
        using takes_out_trans [OF takes_out_same [OF s] takes_out_trans [OF t(1) IH(3)]] by simp
      ultimately show ?thesis using IH(2) k t(2) by fastforce
    qed
  qed
qed

lemma rx_read_takes:
  assumes law: "tcp_law L pend" and ok: "rx_ok b"
  shows "\<exists>r out t. rx_read L len (b, w) = Some (r, out, t) \<and> takes_out pend (b, w) out t \<and>
    (out = [] \<and> r = -1 \<or> out \<noteq> [] \<and> r = int (length out) \<and> length out \<le> len)"
proof (cases "len = 0")
  case True
  then show ?thesis using ok by (simp add: rx_read_def takes_out_def)
next
  case len: False
  obtain n0 b0 w0 where f: "(if rx_pos b = rx_fill b then fillBuffer L (b, w) else (1, b, w)) = (n0, b0, w0)"
    by (metis prod_cases3)
  have s0: "takes_out pend (b, w) [] (b0, w0)" "n0 \<noteq> 0 \<Longrightarrow> buffered b0 \<noteq> []"
  proof -
    show "takes_out pend (b, w) [] (b0, w0)"
      using f fillBuffer_same [OF law ok] ok takes_out_same by (fastforce simp: takes_out_def split: if_splits)
    show "buffered b0 \<noteq> []" if "n0 \<noteq> 0"
    proof (cases "rx_pos b = rx_fill b")
      case True
      then have "same_stream pend (b, w) (b0, w0) n0" using f fillBuffer_same [OF law ok] by simp
      then show ?thesis using that by (auto simp: same_stream_def)
    next
      case False
      then show ?thesis using f ok length_buffered [OF ok] by (auto simp: rx_ok_def)
    qed
  qed
  show ?thesis
  proof (cases "n0 = 0")
    case True
    then show ?thesis using f len s0 by (simp add: rx_read_def)
  next
    case n0: False
    have ok0: "rx_ok b0" using s0(1) by (simp add: takes_out_def)
    define a where "a = rx_fill b0 - rx_pos b0"
    have a: "length (buffered b0) = a" "0 < a" 
      using length_buffered [OF ok0] s0(2) [OF n0] length_greater_0_conv [of "buffered b0"] by (simp_all add: a_def)
    have whole: "\<exists>r out t. Some (int len, fst (rx_take len c), snd (rx_take len c), v) = Some (r, out, t) \<and>
        takes_out pend (b, w) out t \<and> (out = [] \<and> r = -1 \<or> out \<noteq> [] \<and> r = int (length out) \<and> length out \<le> len)"
      if "takes_out pend (b, w) [] (c, v)" "len \<le> length (buffered c)" for c v
    proof -
      have "rx_ok c" using that(1) by (simp add: takes_out_def)
      note t = takes_out_take(1) [OF this that(2), of pend v] takes_out_take(2) [OF this that(2)]
      have "takes_out pend (b, w) (fst (rx_take len c)) (snd (rx_take len c), v)" using takes_out_trans [OF that(1) t(1)] by simp
      then show ?thesis using t(2) len by auto
    qed
    show ?thesis
    proof (cases "len \<le> a")
      case True
      then show ?thesis using whole [OF s0(1)] a f len n0 by (simp add: rx_read_def a_def Let_def)
    next
      case more: False
      obtain n1 b1 w1 where f1:
          "(if len - a \<le> rx_size b0 - rx_fill b0 then fillBuffer L (b0, w0) else (0, b0, w0)) = (n1, b1, w1)"
        by (metis prod_cases3)
      have s1: "takes_out pend (b0, w0) [] (b1, w1)" "length (buffered b1) = a + n1"
        using f1 fillBuffer_same [OF law ok0, of w0] ok0 a(1)
        by (auto simp: takes_out_same takes_out_def same_stream_def split: if_splits)
      have s01: "takes_out pend (b, w) [] (b1, w1)" using takes_out_trans [OF s0(1) s1(1)] by simp
      have go: "rx_read L len (b, w) = (if len - a \<le> n1 then Some (int len, fst (rx_take len b1), snd (rx_take len b1), w1)
          else map_option (\<lambda>(left, got, b2, w2). (int len - int left, got, b2, w2))
                 (read_loop L (len - a) (fst (rx_take a b1)) (snd (rx_take a b1), w1)))"
        using f len n0 more f1 by (simp add: rx_read_def a_def Let_def)
      show ?thesis
      proof (cases "len - a \<le> n1")
        case True
        then show ?thesis using whole [OF s01] s1(2) go by simp
      next
        case False
        have ok1: "rx_ok b1" using s1(1) by (simp add: takes_out_def)
        have t: "takes_out pend (b1, w1) (fst (rx_take a b1)) (snd (rx_take a b1), w1)" "length (fst (rx_take a b1)) = a"
          using takes_out_take [OF ok1, of a] s1(2) by simp_all
        have ok2: "rx_ok (snd (rx_take a b1))" using t(1) by (simp add: takes_out_def)
        obtain left' out t' where l: "read_loop L (len - a) (fst (rx_take a b1)) (snd (rx_take a b1), w1)
            = Some (left', fst (rx_take a b1) @ out, t')" "left' + length out = len - a"
            "takes_out pend (snd (rx_take a b1), w1) out t'"
          using read_loop_takes [OF law ok2] by blast
        have "rx_read L len (b, w) = Some (int len - int left', fst (rx_take a b1) @ out, t')"
          using go False l(1) by (cases t') simp
        moreover have "takes_out pend (b, w) (fst (rx_take a b1) @ out) t'"
          using takes_out_trans [OF s01 takes_out_trans [OF t(1) l(3)]] by simp
        ultimately show ?thesis using l(2) t(2) a(2) more by fastforce
      qed
    qed
  qed
qed

text \<open>A series of reads: what each of them gave.\<close>

definition rx_reads :: "'w lwip \<Rightarrow> nat list \<Rightarrow> rx \<times> 'w \<Rightarrow> ((int \<times> bytes) list \<times> rx \<times> 'w) option" where
  "rx_reads L = read_series (rx_read L)"

interpretation rx_stream: stream_reader "rx_read L" "content pend" "\<lambda>s. tcp_law L pend \<and> rx_ok (fst s)"
    "\<lambda>n (r, bs). bs = [] \<and> r = -1 \<or> bs \<noteq> [] \<and> r = int (length bs) \<and> length bs \<le> n"
  for L :: "'w lwip" and pend :: "int \<Rightarrow> 'w \<Rightarrow> bytes"
proof
  fix s :: "rx \<times> 'w" and n
  assume "tcp_law L pend \<and> rx_ok (fst s)"
  then obtain r bs t where "rx_read L n s = Some (r, bs, t)" "takes_out pend s bs t"
      "bs = [] \<and> r = -1 \<or> bs \<noteq> [] \<and> r = int (length bs) \<and> length bs \<le> n" "tcp_law L pend"
    using rx_read_takes [of L pend "fst s" n "snd s"] by auto
  then show "\<exists>r bs t. rx_read L n s = Some (r, bs, t) \<and> (tcp_law L pend \<and> rx_ok (fst t)) \<and>
      content pend s = bs @ content pend t \<and>
      (case (r, bs) of (r, bs) \<Rightarrow> bs = [] \<and> r = -1 \<or> bs \<noteq> [] \<and> r = int (length bs) \<and> length bs \<le> n)"
    by (auto simp: takes_out_def)
qed

text \<open>C34. Reads through the buffer: every series of reads comes to an end, the bytes they give are, in order
  and without a gap, the front of what was in the buffer and of what the peer has sent, and each
  answer is the number of bytes given, at most those asked for, or -1 for none.
\<close>

theorem reads_give_the_stream_in_order:
  assumes "tcp_law L pend" "rx_ok b"
  shows "\<exists>rs t. rx_reads L ns (b, w) = Some (rs, t) \<and> content pend (b, w) = concat (map snd rs) @ content pend t \<and>
    list_all2 (\<lambda>n (r, bs). bs = [] \<and> r = -1 \<or> bs \<noteq> [] \<and> r = int (length bs) \<and> length bs \<le> n) ns rs"
  using rx_stream.series_in_order [of L pend "(b, w)" ns] assms by (auto simp: rx_reads_def)

section \<open>What the buffer leaves alone\<close>

text \<open>A part of the network's state that no call on an open socket changes.\<close>

definition unmoved :: "'w lwip \<Rightarrow> ('w \<Rightarrow> 'v) \<Rightarrow> bool" where
  "unmoved L v \<longleftrightarrow>
     (\<forall>n w. v (snd (lw_malloc L n w)) = v w) \<and>
     (\<forall>fd w. v (snd (lw_readable L fd w)) = v w) \<and>
     (\<forall>fd n w. v (snd (lw_recv L fd n w)) = v w) \<and>
     (\<forall>fd bs w. v (snd (lw_send L fd bs w)) = v w) \<and>
     (\<forall>fd t w. v (snd (lw_select L fd t w)) = v w) \<and>
     (\<forall>fd ip port w. v (snd (lw_connect L fd ip port w)) = v w) \<and>
     (\<forall>fd w. v (snd (lw_sockerr L fd w)) = v w) \<and>
     (\<forall>fd opt x w. v (snd (lw_setopt L fd opt x w)) = v w) \<and>
     (\<forall>fd port w. v (snd (lw_bind L fd port w)) = v w) \<and>
     (\<forall>fd n w. v (snd (lw_listen L fd n w)) = v w)"

lemma unmovedD:
  assumes "unmoved L v"
  shows "lw_malloc L n w = (m, w') \<Longrightarrow> v w' = v w"
    and "lw_readable L fd w = (r, w') \<Longrightarrow> v w' = v w"
    and "lw_recv L fd n w = (x, w') \<Longrightarrow> v w' = v w"
    and "lw_send L fd bs w = (y, w') \<Longrightarrow> v w' = v w"
    and "lw_select L fd t w = (z, w') \<Longrightarrow> v w' = v w"
    and "lw_connect L fd ip port w = (d, w') \<Longrightarrow> v w' = v w"
    and "lw_sockerr L fd w = (e, w') \<Longrightarrow> v w' = v w"
    and "lw_setopt L fd opt i w = (ok, w') \<Longrightarrow> v w' = v w"
    and "lw_bind L fd port w = (ok, w') \<Longrightarrow> v w' = v w"
    and "lw_listen L fd n w = (ok, w') \<Longrightarrow> v w' = v w"
  using assms unfolding unmoved_def by (metis snd_conv)+

definition leaves :: "('w \<Rightarrow> 'v) \<Rightarrow> rx \<times> 'w \<Rightarrow> rx \<times> 'w \<Rightarrow> bool" where
  "leaves v s t \<longleftrightarrow> v (snd t) = v (snd s) \<and> rx_fd (fst t) = rx_fd (fst s)"

lemma leaves_trans: "leaves v s t \<Longrightarrow> leaves v t u \<Longrightarrow> leaves v s u"
  by (simp add: leaves_def)

lemma r_available_keeps:
  assumes "unmoved L v"
  shows "r_available L s = (n, t) \<Longrightarrow> leaves v s t"
  by (auto simp: r_available_def leaves_def dest!: unmovedD(2) [OF assms] split: if_splits prod.splits option.splits)

lemma fill_from_keeps:
  assumes "unmoved L v"
  shows "fill_from L m s = (n, t) \<Longrightarrow> leaves v s t"
  by (auto simp: fill_from_def leaves_def dest!: unmovedD(3) [OF assms] split: if_splits prod.splits option.splits)

lemma fillBuffer_keeps:
  assumes "unmoved L v"
  shows "fillBuffer L s = (n, t) \<Longrightarrow> leaves v s t"
  by (auto simp: fillBuffer_def Let_def leaves_def split: if_splits prod.splits option.splits
      dest!: unmovedD(1) [OF assms] r_available_keeps [OF assms] fill_from_keeps [OF assms])

lemma leaves_take: "leaves v (b, w) (snd (rx_take n b), w)"
  by (simp add: leaves_def rx_take_def)

lemma read_loop_keeps':
  assumes "read_loop L left got s = Some r" "unmoved L v"
  shows "leaves v s (snd (snd r))"
  using assms
proof (induction rule: read_loop.raw_induct [rotated, consumes 1])
  case (1 rec L left got s r)
  obtain n b w where f: "fillBuffer L s = (n, b, w)" by (metis prod_cases3)
  note k = fillBuffer_keeps [OF 1(3) f]
  show ?case
  proof (cases "left = 0 \<or> n = 0")
    case True
    then show ?thesis using 1(2) f k by (auto simp: leaves_def split: if_splits)
  next
    case False
    define m where "m = min (rx_fill b - rx_pos b) left"
    have "rec L (left - m) (got @ fst (rx_take m b)) (snd (rx_take m b), w) = Some r"
      using 1(2) f False by (simp add: m_def Let_def)
    from 1(1) [OF this 1(3)] show ?thesis by (rule leaves_trans [OF leaves_trans [OF k leaves_take]])
  qed
qed

lemmas read_loop_keeps = read_loop_keeps' [rotated]

lemma rx_read_keeps:
  assumes "unmoved L v"
  shows "rx_read L len s = Some r \<Longrightarrow> leaves v s (snd (snd r))"
  by (cases s) (auto simp: rx_read_def rx_take_def Let_def leaves_def split: if_splits prod.splits
      dest!: read_loop_keeps [OF assms] fillBuffer_keeps [OF assms])

lemma rx_peek_keeps:
  assumes "unmoved L v"
  shows "rx_peek L s = (c, t) \<Longrightarrow> leaves v s t"
  by (auto simp: rx_peek_def leaves_def dest!: fillBuffer_keeps [OF assms] split: if_splits prod.splits)

lemma rx_available_keeps:
  assumes "unmoved L v"
  shows "rx_available L s = (n, t) \<Longrightarrow> leaves v s t"
  by (auto simp: rx_available_def dest!: r_available_keeps [OF assms] split: prod.splits)

end
