(* ===== verification/Wifi_Client.thy ===== *)
theory Wifi_Client
  imports Wifi_Rx
begin

text \<open>
  The TCP client of \<open>WiFiClient.cpp\<close>.  A client holds two shared pointers, the socket handle and the
  receive buffer; they are always made, copied and dropped together, so both stand here for one
  entry of a store of connections, by the descriptor of the socket, with the number of clients that
  share it.  The handle's destructor closes the socket.
\<close>

section \<open>Clients and what they share\<close>

record 'w sockets =
  sk_net :: 'w
  sk_conns :: "int \<Rightarrow> (rx \<times> nat) option"

record client =
  wc_fd :: "int option"
  wc_connected :: bool

type_synonym 'w clients = "client list \<times> 'w sockets"

definition no_client :: client where
  "no_client = \<lparr>wc_fd = None, wc_connected = False\<rparr>"

definition let_go :: "'w lwip \<Rightarrow> int \<Rightarrow> 'w sockets \<Rightarrow> 'w sockets" where
  "let_go L fd s =
     (case sk_conns s fd of
        None \<Rightarrow> s
      | Some (b, k) \<Rightarrow>
          if k \<le> 1 then s\<lparr>sk_net := lw_close L fd (sk_net s), sk_conns := (sk_conns s)(fd := None)\<rparr>
          else s\<lparr>sk_conns := (sk_conns s)(fd \<mapsto> (b, k - 1))\<rparr>)"

definition drop_pointers :: "'w lwip \<Rightarrow> client \<times> 'w sockets \<Rightarrow> 'w sockets" where
  "drop_pointers L = (\<lambda>(c, s). case wc_fd c of None \<Rightarrow> s | Some fd \<Rightarrow> let_go L fd s)"

definition stop :: "'w lwip \<Rightarrow> client \<times> 'w sockets \<Rightarrow> client \<times> 'w sockets" where
  "stop L = (\<lambda>(c, s). (\<lparr>wc_fd = None, wc_connected = False\<rparr>, drop_pointers L (c, s)))"

definition fd :: "client \<Rightarrow> int" where
  "fd c = (case wc_fd c of None \<Rightarrow> -1 | Some n \<Rightarrow> n)"

text \<open>A new handle and a new buffer; the pointers that were there are dropped.\<close>

definition attach :: "'w lwip \<Rightarrow> int \<Rightarrow> client \<times> 'w sockets \<Rightarrow> client \<times> 'w sockets" where
  "attach L n = (\<lambda>(c, s).
     let s1 = drop_pointers L (c, s)
     in (\<lparr>wc_fd = Some n, wc_connected = True\<rparr>, s1\<lparr>sk_conns := (sk_conns s1)(n \<mapsto> (new_rx n, 1))\<rparr>))"

text \<open>The constructor for a socket that was accepted.\<close>

definition accepted_client :: "'w lwip \<Rightarrow> int \<Rightarrow> 'w sockets \<Rightarrow> client \<times> 'w sockets" where
  "accepted_client L n s = attach L n (no_client, s)"

text \<open>Assignment between two clients of the list; \<open>i\<close> and \<open>j\<close> may be the same.\<close>

definition share :: "client \<Rightarrow> 'w sockets \<Rightarrow> 'w sockets" where
  "share c s =
     (case wc_fd c of
        None \<Rightarrow> s
      | Some n \<Rightarrow> (case sk_conns s n of None \<Rightarrow> s | Some (b, k) \<Rightarrow> s\<lparr>sk_conns := (sk_conns s)(n \<mapsto> (b, k + 1))\<rparr>))"

definition at_client :: "nat \<Rightarrow> (client \<times> 'w sockets \<Rightarrow> client \<times> 'w sockets) \<Rightarrow> 'w clients \<Rightarrow> 'w clients" where
  "at_client i f = (\<lambda>(cs, s). case f (cs ! i, s) of (c, s1) \<Rightarrow> (cs[i := c], s1))"

definition assign :: "'w lwip \<Rightarrow> nat \<Rightarrow> nat \<Rightarrow> 'w clients \<Rightarrow> 'w clients" where
  "assign L i j st =
     (case at_client i (stop L) st of (cs, s) \<Rightarrow> (cs[i := cs ! j], share (cs ! j) s))"

section \<open>Connecting\<close>

text \<open>The time-out is in milliseconds, a negative one waits for ever; the product with 1000 is taken at 32 bits.\<close>

definition wait_us :: "int \<Rightarrow> int option" where
  "wait_us timeout = (if timeout < 0 then None else Some (sint (word_of_int (timeout * 1000) :: u32)))"

definition connect_socket :: "'w lwip \<Rightarrow> u32 \<Rightarrow> u16 \<Rightarrow> int \<Rightarrow> 'w \<Rightarrow> int option \<times> 'w" where
  "connect_socket L ip port timeout w =
     (case lw_socket L w of (n, w0) \<Rightarrow>
        if n < 0 then (None, w0)
        else case lw_connect L n ip port w0 of (done, w1) \<Rightarrow>
          if \<not> done \<and> lw_errno L w1 \<noteq> EINPROGRESS then (None, lw_close L n w1)
          else case lw_select L n (wait_us timeout) w1 of
              (None, w2) \<Rightarrow> (None, lw_close L n w2)
            | (Some False, w2) \<Rightarrow> (None, lw_close L n w2)
            | (Some True, w2) \<Rightarrow>
                (case lw_sockerr L n w2 of
                   (None, w3) \<Rightarrow> (None, lw_close L n w3)
                 | (Some e, w3) \<Rightarrow> if e \<noteq> 0 then (None, lw_close L n w3) else (Some n, w3)))"

definition client_connect :: "'w lwip \<Rightarrow> u32 \<Rightarrow> u16 \<Rightarrow> int \<Rightarrow> client \<times> 'w sockets \<Rightarrow> bool \<times> client \<times> 'w sockets" where
  "client_connect L ip port timeout = (\<lambda>(c, s).
     case connect_socket L ip port timeout (sk_net s) of
       (None, w) \<Rightarrow> (False, c, s\<lparr>sk_net := w\<rparr>)
     | (Some n, w) \<Rightarrow> (True, attach L n (c, s\<lparr>sk_net := w\<rparr>)))"

section \<open>Writing\<close>

definition WIFI_CLIENT_MAX_WRITE_RETRY :: nat where "WIFI_CLIENT_MAX_WRITE_RETRY = 10"

function write_loop :: "'w lwip \<Rightarrow> int \<Rightarrow> nat \<Rightarrow> nat \<Rightarrow> bytes \<Rightarrow> nat \<Rightarrow> client \<times> 'w sockets \<Rightarrow> nat \<times> client \<times> 'w sockets" where
  "write_loop L n full retry buf sent (c, s) =
     (if retry = 0 then (sent, c, s)
      else case lw_select L n (Some 1000000) (sk_net s) of
          (None, w1) \<Rightarrow> (0, c, s\<lparr>sk_net := w1\<rparr>)
        | (Some False, w1) \<Rightarrow> write_loop L n full (retry - 1) buf sent (c, s\<lparr>sk_net := w1\<rparr>)
        | (Some True, w1) \<Rightarrow>
            (case lw_send L n buf w1 of
               (None, w2) \<Rightarrow>
                 if lw_errno L w2 \<noteq> EWOULDBLOCK then (sent, stop L (c, s\<lparr>sk_net := w2\<rparr>))
                 else write_loop L n full (retry - 1) buf sent (c, s\<lparr>sk_net := w2\<rparr>)
             | (Some k, w2) \<Rightarrow>
                 if k = 0 then write_loop L n full (retry - 1) buf sent (c, s\<lparr>sk_net := w2\<rparr>)
                 else if full \<le> sent + k then (sent + k, c, s\<lparr>sk_net := w2\<rparr>)
                 else write_loop L n full WIFI_CLIENT_MAX_WRITE_RETRY (drop k buf) (sent + k) (c, s\<lparr>sk_net := w2\<rparr>)))"
  by pat_completeness auto
termination
  by (relation "measures [\<lambda>(L, n, full, retry, buf, sent, st). full - sent, \<lambda>(L, n, full, retry, buf, sent, st). retry]") auto

definition client_write :: "'w lwip \<Rightarrow> bytes \<Rightarrow> client \<times> 'w sockets \<Rightarrow> nat \<times> client \<times> 'w sockets" where
  "client_write L buf = (\<lambda>(c, s).
     if \<not> wc_connected c \<or> fd c < 0 then (0, c, s)
     else write_loop L (fd c) (length buf) WIFI_CLIENT_MAX_WRITE_RETRY buf 0 (c, s))"

declare write_loop.simps [simp del]

text \<open>
  A stream is another object of the program; its calls are arguments.  A read may give fewer bytes
  than it was asked for.
\<close>

record 'st stream =
  st_available :: "'st \<Rightarrow> nat \<times> 'st"
  st_readBytes :: "nat \<Rightarrow> 'st \<Rightarrow> bytes \<times> 'st"

partial_function (option) write_stream_loop ::
  "'w lwip \<Rightarrow> 'st stream \<Rightarrow> nat \<Rightarrow> nat \<Rightarrow> 'st \<Rightarrow> client \<times> 'w sockets \<Rightarrow> (nat \<times> 'st \<times> client \<times> 'w sockets) option" where
  "write_stream_loop L S left written st cs =
     (if left = 0 then Some (written, st, cs)
      else case st_readBytes S (min left 1360) st of (bs, st1) \<Rightarrow>
           (case client_write L bs cs of (k, cs1) \<Rightarrow>
             (case st_available S st1 of (left1, st2) \<Rightarrow> write_stream_loop L S left1 (written + k) st2 cs1)))"

definition write_stream ::
  "'w lwip \<Rightarrow> 'st stream \<Rightarrow> 'st \<Rightarrow> client \<times> 'w sockets \<Rightarrow> (nat \<times> 'st \<times> client \<times> 'w sockets) option" where
  "write_stream L S st = (\<lambda>(c, s).
     case lw_malloc L 1360 (sk_net s) of
       (None, w) \<Rightarrow> Some (0, st, c, s\<lparr>sk_net := w\<rparr>)
     | (Some m, w) \<Rightarrow>
         (case st_available S st of (left, st1) \<Rightarrow> write_stream_loop L S left 0 st1 (c, s\<lparr>sk_net := w\<rparr>)))"

section \<open>Reading\<close>

text \<open>After a call of the buffer: it is stored again, and a failure of it stops the client.\<close>

definition settle :: "'w lwip \<Rightarrow> int \<Rightarrow> rx \<times> 'w \<Rightarrow> client \<times> 'w sockets \<Rightarrow> client \<times> 'w sockets" where
  "settle L n = (\<lambda>(b, w) (c, s).
     let s1 = s\<lparr>sk_net := w, sk_conns := (sk_conns s)(n \<mapsto> (b, case sk_conns s n of None \<Rightarrow> 0 | Some (_, k) \<Rightarrow> k))\<rparr>
     in if rx_failed b then stop L (c, s1) else (c, s1))"

text \<open>The buffer behind the client's pointer.\<close>

definition rx_of :: "client \<Rightarrow> 'w sockets \<Rightarrow> (int \<times> rx) option" where
  "rx_of c s = (case wc_fd c of None \<Rightarrow> None | Some n \<Rightarrow> map_option (\<lambda>(b, k). (n, b)) (sk_conns s n))"

definition read_bytes ::
  "'w lwip \<Rightarrow> nat \<Rightarrow> client \<times> 'w sockets \<Rightarrow> (int \<times> bytes \<times> client \<times> 'w sockets) outcome option" where
  "read_bytes L len = (\<lambda>(c, s).
     case rx_of c s of
       None \<Rightarrow> Some Null_pointer
     | Some (n, b) \<Rightarrow>
         map_option (\<lambda>(r, bs, t). Return (r, bs, settle L n t (c, s))) (rx_read L len (b, sk_net s)))"

definition read_one :: "'w lwip \<Rightarrow> client \<times> 'w sockets \<Rightarrow> (int \<times> client \<times> 'w sockets) outcome option" where
  "read_one L x =
     map_option (\<lambda>r. case r of
         Return (k, bs, y) \<Rightarrow> Return (if k < 0 then k else if bs = [] then 0 else int (of_char (hd bs)), y)
       | Restart \<Rightarrow> Restart | Null_pointer \<Rightarrow> Null_pointer)
       (read_bytes L 1 x)"

definition peek_one :: "'w lwip \<Rightarrow> client \<times> 'w sockets \<Rightarrow> (int \<times> client \<times> 'w sockets) outcome" where
  "peek_one L = (\<lambda>(c, s).
     case rx_of c s of
       None \<Rightarrow> Null_pointer
     | Some (n, b) \<Rightarrow>
         (case rx_peek L (b, sk_net s) of
            (r, t) \<Rightarrow> Return (case r of None \<Rightarrow> -1 | Some ch \<Rightarrow> int (of_char ch), settle L n t (c, s))))"

definition available :: "'w lwip \<Rightarrow> client \<times> 'w sockets \<Rightarrow> nat \<times> client \<times> 'w sockets" where
  "available L = (\<lambda>(c, s).
     case rx_of c s of
       None \<Rightarrow> (0, c, s)
     | Some (n, b) \<Rightarrow> (case rx_available L (b, sk_net s) of (k, t) \<Rightarrow> (k, settle L n t (c, s))))"

text \<open>
  What is flushed is read from the socket, past the buffer, although its bytes are counted.
  \<open>None\<close> is a loop that does not end.
\<close>

definition WIFI_CLIENT_FLUSH_BUFFER_SIZE :: nat where "WIFI_CLIENT_FLUSH_BUFFER_SIZE = 1024"

partial_function (option) flush_loop :: "'w lwip \<Rightarrow> nat \<Rightarrow> client \<times> 'w sockets \<Rightarrow> (client \<times> 'w sockets) option" where
  "flush_loop L a cs =
     (if a = 0 then Some cs
      else case lw_recv L (fd (fst cs)) (min a WIFI_CLIENT_FLUSH_BUFFER_SIZE) (sk_net (snd cs)) of
          (None, w1) \<Rightarrow> Some (stop L (fst cs, (snd cs)\<lparr>sk_net := w1\<rparr>))
        | (Some bs, w1) \<Rightarrow> flush_loop L (a - length bs) (fst cs, (snd cs)\<lparr>sk_net := w1\<rparr>))"

definition flush :: "'w lwip \<Rightarrow> client \<times> 'w sockets \<Rightarrow> (client \<times> 'w sockets) option" where
  "flush L x =
     (case available L x of (a, c, s) \<Rightarrow>
        if a = 0 then Some (c, s)
        else case lw_malloc L WIFI_CLIENT_FLUSH_BUFFER_SIZE (sk_net s) of
            (None, w) \<Rightarrow> Some (c, s\<lparr>sk_net := w\<rparr>)
          | (Some m, w) \<Rightarrow> flush_loop L a (c, s\<lparr>sk_net := w\<rparr>))"

text \<open>The answer rests on the reason of the last failure, whether the call here failed or not.\<close>

definition is_connected :: "'w lwip \<Rightarrow> client \<times> 'w sockets \<Rightarrow> bool \<times> client \<times> 'w sockets" where
  "is_connected L = (\<lambda>(c, s).
     if \<not> wc_connected c then (False, c, s)
     else case lw_recv L (fd c) 0 (sk_net s) of
       (_, w) \<Rightarrow>
         (let up = lw_errno L w \<notin> {ENOTCONN, EPIPE, ECONNRESET, ECONNREFUSED, ECONNABORTED}
          in (up, c\<lparr>wc_connected := up\<rparr>, s\<lparr>sk_net := w\<rparr>)))"

section \<open>Options\<close>

definition setSocketOption :: "'w lwip \<Rightarrow> sockopt \<Rightarrow> int \<Rightarrow> client \<times> 'w sockets \<Rightarrow> bool \<times> client \<times> 'w sockets" where
  "setSocketOption L opt x = (\<lambda>(c, s).
     case lw_setopt L (fd c) opt x (sk_net s) of (ok, w) \<Rightarrow> (ok, c, s\<lparr>sk_net := w\<rparr>))"

definition setTimeout :: "'w lwip \<Rightarrow> int \<Rightarrow> client \<times> 'w sockets \<Rightarrow> bool \<times> client \<times> 'w sockets" where
  "setTimeout L seconds x =
     (case setSocketOption L SO_RCVTIMEO seconds x of
        (False, y) \<Rightarrow> (False, y)
      | (True, y) \<Rightarrow> setSocketOption L SO_SNDTIMEO seconds y)"

definition setNoDelay :: "'w lwip \<Rightarrow> bool \<Rightarrow> client \<times> 'w sockets \<Rightarrow> bool \<times> client \<times> 'w sockets" where
  "setNoDelay L nodelay = setSocketOption L TCP_NODELAY (if nodelay then 1 else 0)"

section \<open>Everything that can happen to clients\<close>

inductive client_call :: "'w lwip \<Rightarrow> client \<times> 'w sockets \<Rightarrow> client \<times> 'w sockets \<Rightarrow> bool" for L where
  Stop: "client_call L x (stop L x)"
| Connect: "client_connect L ip port timeout x = (r, y) \<Longrightarrow> client_call L x y"
| Write: "client_write L buf x = (k, y) \<Longrightarrow> client_call L x y"
| Read: "read_bytes L len x = Some (Return (r, bs, y)) \<Longrightarrow> client_call L x y"
| Peek: "peek_one L x = Return (r, y) \<Longrightarrow> client_call L x y"
| Available: "available L x = (k, y) \<Longrightarrow> client_call L x y"
| Flush: "flush L x = Some y \<Longrightarrow> client_call L x y"
| Connected: "is_connected L x = (b, y) \<Longrightarrow> client_call L x y"
| Option: "setSocketOption L opt v x = (b, y) \<Longrightarrow> client_call L x y"

text \<open>A client comes by its constructors and goes by its destructor.\<close>

inductive client_step :: "'w lwip \<Rightarrow> 'w clients \<Rightarrow> 'w clients \<Rightarrow> bool" for L where
  New: "client_step L (cs, s) (cs @ [no_client], s)"
| Accepted:
    "lw_accept L m (sk_net s) = (n, w) \<Longrightarrow> 0 \<le> n \<Longrightarrow> accepted_client L n (s\<lparr>sk_net := w\<rparr>) = (c, s1) \<Longrightarrow>
     client_step L (cs, s) (cs @ [c], s1)"
| Copied: "j < length cs \<Longrightarrow> client_step L (cs, s) (cs @ [cs ! j], share (cs ! j) s)"
| Assigned: "i < length cs \<Longrightarrow> j < length cs \<Longrightarrow> client_step L (cs, s) (assign L i j (cs, s))"
| Called: "i < length cs \<Longrightarrow> client_call L (cs ! i, s) (c, s1) \<Longrightarrow> client_step L (cs, s) (cs[i := c], s1)"
| Gone: "i < length cs \<Longrightarrow> client_step L (cs, s) (take i cs @ drop (Suc i) cs, drop_pointers L (cs ! i, s))"

section \<open>The sockets that are open\<close>

text \<open>A new socket has a descriptor that was not in use; only closing gives it back.\<close>

definition socket_law :: "'w lwip \<Rightarrow> ('w \<Rightarrow> int set) \<Rightarrow> bool" where
  "socket_law L opened \<longleftrightarrow> unmoved L opened \<and>
     (\<forall>w. case lw_socket L w of (n, w') \<Rightarrow>
        if n < 0 then opened w' = opened w else n \<notin> opened w \<and> opened w' = insert n (opened w)) \<and>
     (\<forall>m w. case lw_accept L m w of (n, w') \<Rightarrow>
        if n < 0 then opened w' = opened w else n \<notin> opened w \<and> opened w' = insert n (opened w)) \<and>
     (\<forall>n w. opened (lw_close L n w) = opened w - {n})"

lemma socket_lawD:
  assumes "socket_law L opened"
  shows "unmoved L opened"
    and "lw_socket L w = (n, w') \<Longrightarrow> n < 0 \<Longrightarrow> opened w' = opened w"
    and "lw_socket L w = (n, w') \<Longrightarrow> 0 \<le> n \<Longrightarrow> n \<notin> opened w \<and> opened w' = insert n (opened w)"
    and "lw_accept L m w = (n, w') \<Longrightarrow> n < 0 \<Longrightarrow> opened w' = opened w"
    and "lw_accept L m w = (n, w') \<Longrightarrow> 0 \<le> n \<Longrightarrow> n \<notin> opened w \<and> opened w' = insert n (opened w)"
    and "opened (lw_close L n w) = opened w - {n}"
proof -
  note l = assms [unfolded socket_law_def]
  show "unmoved L opened" using l by blast
  note so = conjunct1 [OF conjunct2 [OF l], rule_format, of w]
  show "lw_socket L w = (n, w') \<Longrightarrow> n < 0 \<Longrightarrow> opened w' = opened w" using so by simp
  show "lw_socket L w = (n, w') \<Longrightarrow> 0 \<le> n \<Longrightarrow> n \<notin> opened w \<and> opened w' = insert n (opened w)" using so by simp
  note ac = conjunct1 [OF conjunct2 [OF conjunct2 [OF l]], rule_format, where m = m and w = w]
  show "lw_accept L m w = (n, w') \<Longrightarrow> n < 0 \<Longrightarrow> opened w' = opened w" using ac by simp
  show "lw_accept L m w = (n, w') \<Longrightarrow> 0 \<le> n \<Longrightarrow> n \<notin> opened w \<and> opened w' = insert n (opened w)" using ac by simp
  show "opened (lw_close L n w) = opened w - {n}" using l by blast
qed

text \<open>
  \<open>sound\<close>: the open sockets are those of the store and the sockets \<open>R\<close> of other code, and a stored
  connection has at least one holder.
\<close>

definition shares :: "'w sockets \<Rightarrow> int \<Rightarrow> nat" where
  "shares s n = (case sk_conns s n of None \<Rightarrow> 0 | Some (b, k) \<Rightarrow> k)"

definition holds :: "client \<Rightarrow> int \<Rightarrow> nat" where
  "holds c n = (if wc_fd c = Some n then 1 else 0)"

definition sound :: "('w \<Rightarrow> int set) \<Rightarrow> int set \<Rightarrow> 'w sockets \<Rightarrow> bool" where
  "sound opened R s \<longleftrightarrow> opened (sk_net s) = dom (sk_conns s) \<union> R \<and> (\<forall>n\<in>R. sk_conns s n = None) \<and>
     (\<forall>n b k. sk_conns s n = Some (b, k) \<longrightarrow> 0 < k \<and> 0 \<le> n \<and> rx_fd b = n)"

text \<open>One client acts: the books stay in order, and what it holds moves with the counts.\<close>

definition books :: "('w \<Rightarrow> int set) \<Rightarrow> int set \<Rightarrow> client \<times> 'w sockets \<Rightarrow> client \<times> 'w sockets \<Rightarrow> bool" where
  "books opened R x y \<longleftrightarrow>
     (sound opened R (snd x) \<and> (\<forall>n. holds (fst x) n \<le> shares (snd x) n) \<longrightarrow>
      sound opened R (snd y) \<and> (\<forall>n. shares (snd y) n + holds (fst x) n = shares (snd x) n + holds (fst y) n))"

lemma books_refl: "books opened R x x"
  by (simp add: books_def)

lemma books_trans:
  assumes "books opened R x y" "books opened R y z"
  shows "books opened R x z"
proof -
  have "holds (fst y) n \<le> shares (snd y) n"
    if "shares (snd y) n + holds (fst x) n = shares (snd x) n + holds (fst y) n" "holds (fst x) n \<le> shares (snd x) n" for n
    using that by linarith
  moreover have "shares (snd z) n + holds (fst x) n = shares (snd x) n + holds (fst z) n"
    if "shares (snd y) n + holds (fst x) n = shares (snd x) n + holds (fst y) n"
      "shares (snd z) n + holds (fst y) n = shares (snd y) n + holds (fst z) n" for n
    using that by linarith
  ultimately show ?thesis using assms unfolding books_def by blast
qed

lemma books_net:
  assumes "opened w = opened (sk_net s)" "wc_fd c' = wc_fd c"
  shows "books opened R (c, s) (c', s\<lparr>sk_net := w\<rparr>)"
  using assms by (simp add: books_def sound_def shares_def holds_def)

lemma shares_dom: "sound opened R s \<Longrightarrow> (0 < shares s n) = (n \<in> dom (sk_conns s))"
  by (auto simp: sound_def shares_def split: option.splits)

lemma let_go_tidy:
  assumes "socket_law L opened" "sound opened R s" "0 < shares s n"
  shows "sound opened R (let_go L n s)" "shares (let_go L n s) m = (if m = n then shares s n - 1 else shares s m)"
proof -
  obtain b k where e: "sk_conns s n = Some (b, k)" "0 < k" using assms(3) by (auto simp: shares_def split: option.splits)
  show "shares (let_go L n s) m = (if m = n then shares s n - 1 else shares s m)"
    using e by (auto simp: let_go_def shares_def)
  show "sound opened R (let_go L n s)"
    using e assms(2) socket_lawD(6) [OF assms(1)] by (auto simp: let_go_def sound_def dom_def)
qed

lemma stop_books: "socket_law L opened \<Longrightarrow> books opened R x (stop L x)"
proof (cases x)
  case (Pair c s)
  assume law: "socket_law L opened"
  show ?thesis
  proof (cases "wc_fd c")
    case None
    then show ?thesis by (simp add: books_def Pair stop_def drop_pointers_def holds_def)
  next
    case (Some n)
    have h: "holds c m = (if m = n then 1 else 0)" for m using Some by (simp add: holds_def)
    have y: "stop L (c, s) = (\<lparr>wc_fd = None, wc_connected = False\<rparr>, let_go L n s)"
      using Some by (simp add: Pair stop_def drop_pointers_def)
    show ?thesis
      unfolding books_def
    proof (intro impI, elim conjE)
      assume a: "sound opened R (snd x)" "\<forall>n. holds (fst x) n \<le> shares (snd x) n"
      have "0 < shares s n" using a(2) h [of n] by (auto simp: Pair dest!: spec [of _ n])
      note g = let_go_tidy [OF law _ this] and s = this
      have "shares (let_go L n s) m + holds c m = shares s m" for m using g(2) [of R m] a(1) h [of m] s by (simp add: Pair)
      then show "sound opened R (snd (stop L x)) \<and>
          (\<forall>n. shares (snd (stop L x)) n + holds (fst x) n = shares (snd x) n + holds (fst (stop L x)) n)"
        using g(1) a(1) by (simp add: y Pair holds_def)
    qed
  qed
qed

lemma attach_books:
  assumes law: "socket_law L opened" and new: "n \<notin> opened (sk_net s)" "opened w = insert n (opened (sk_net s))" "0 \<le> n"
  shows "books opened R (c, s) (attach L n (c, s\<lparr>sk_net := w\<rparr>))"
  unfolding books_def
proof (intro impI, elim conjE)
  assume a: "sound opened R (snd (c, s))" "\<forall>n. holds (fst (c, s)) n \<le> shares (snd (c, s)) n"
  have n: "n \<notin> dom (sk_conns s)" "n \<notin> R" using a(1) new(1) by (auto simp: sound_def)
  define s1 where "s1 = drop_pointers L (c, s\<lparr>sk_net := w\<rparr>)"
  have "sound opened (insert n R) (s\<lparr>sk_net := w\<rparr>)" using a(1) n new(2) by (auto simp: sound_def)
  moreover have "holds c m \<le> shares (s\<lparr>sk_net := w\<rparr>) m" for m using a(2) by (simp add: shares_def)
  ultimately have t: "sound opened (insert n R) s1" "shares s1 m + holds c m = shares s m" for m
    using stop_books [OF law, of "insert n R" "(c, s\<lparr>sk_net := w\<rparr>)"]
    by (simp_all add: books_def stop_def s1_def shares_def holds_def)
  have n1: "n \<notin> dom (sk_conns s1)" using t(1) by (auto simp: sound_def)
  have y: "attach L n (c, s\<lparr>sk_net := w\<rparr>) =
      (\<lparr>wc_fd = Some n, wc_connected = True\<rparr>, s1\<lparr>sk_conns := (sk_conns s1)(n \<mapsto> (new_rx n, 1))\<rparr>)"
    by (simp add: attach_def s1_def Let_def)
  have "sound opened R (s1\<lparr>sk_conns := (sk_conns s1)(n \<mapsto> (new_rx n, 1))\<rparr>)"
    using t(1) n(2) new(3) by (auto simp: sound_def new_rx_def)
  moreover have "shares (s1\<lparr>sk_conns := (sk_conns s1)(n \<mapsto> (new_rx n, 1))\<rparr>) m + holds c m =
      shares s m + (if m = n then 1 else 0)" for m
    using t(2) [of m] n1 by (auto simp: shares_def split: option.splits)
  ultimately show "sound opened R (snd (attach L n (c, s\<lparr>sk_net := w\<rparr>))) \<and>
      (\<forall>m. shares (snd (attach L n (c, s\<lparr>sk_net := w\<rparr>))) m + holds (fst (c, s)) m =
        shares (snd (c, s)) m + holds (fst (attach L n (c, s\<lparr>sk_net := w\<rparr>))) m)"
    by (auto simp: y holds_def)
qed

lemma settle_books:
  assumes law: "socket_law L opened" and "rx_of c s = Some (n, b)" "leaves opened (b, sk_net s) t"
  shows "books opened R (c, s) (settle L n t (c, s))"
proof -
  obtain b' w k where t: "t = (b', w)" and c: "wc_fd c = Some n" "sk_conns s n = Some (b, k)"
    using assms(2) by (cases t) (auto simp: rx_of_def split: option.splits)
  define s1 where "s1 = s\<lparr>sk_net := w, sk_conns := (sk_conns s)(n \<mapsto> (b', k))\<rparr>"
  have "shares s1 m = shares s m" for m using c(2) by (simp add: s1_def shares_def)
  moreover have "sound opened R s1" if "sound opened R s"
    using that assms(3) c(2) by (auto simp: s1_def t sound_def leaves_def)
  ultimately have "books opened R (c, s) (c, s1)" by (simp add: books_def)
  moreover have "settle L n t (c, s) = (if rx_failed b' then stop L (c, s1) else (c, s1))"
    using c(2) by (simp add: settle_def t s1_def Let_def)
  ultimately show ?thesis using books_trans [OF _ stop_books [OF law]] by simp
qed

lemma read_bytes_books:
  assumes law: "socket_law L opened"
  shows "read_bytes L len x = Some (Return (r, bs, y)) \<Longrightarrow> books opened R x y"
  using settle_books [OF law] rx_read_keeps [OF socket_lawD(1) [OF law]]
  by (cases x) (fastforce simp: read_bytes_def split: option.splits)

lemma peek_one_books:
  assumes law: "socket_law L opened"
  shows "peek_one L x = Return (r, y) \<Longrightarrow> books opened R x y"
  using settle_books [OF law] rx_peek_keeps [OF socket_lawD(1) [OF law]]
  by (cases x) (fastforce simp: peek_one_def split: option.splits prod.splits)

lemma available_books:
  assumes law: "socket_law L opened"
  shows "available L x = (k, y) \<Longrightarrow> books opened R x y"
  using settle_books [OF law] rx_available_keeps [OF socket_lawD(1) [OF law]]
  by (cases x) (fastforce simp: available_def books_refl split: option.splits prod.splits)

lemma flush_loop_books':
  assumes "flush_loop L a x = Some y" "socket_law L opened"
  shows "books opened R x y"
  using assms
proof (induction rule: flush_loop.raw_induct [rotated, consumes 1])
  case (1 rec L a x y)
  note law = 1(3)
  obtain r w where r: "lw_recv L (fd (fst x)) (min a WIFI_CLIENT_FLUSH_BUFFER_SIZE) (sk_net (snd x)) = (r, w)" by fastforce
  define x1 where "x1 = (fst x, (snd x)\<lparr>sk_net := w\<rparr>)"
  have b: "books opened R x x1"
    using books_net [of opened w "snd x" "fst x" "fst x"] unmovedD(3) [OF socket_lawD(1) [OF law] r] by (simp add: x1_def)
  show ?case
  proof (cases "a = 0")
    case True
    then show ?thesis using 1(2) by (simp add: books_refl)
  next
    case False
    show ?thesis
    proof (cases r)
      case None
      then have "y = stop L x1" using 1(2) False r by (simp add: x1_def)
      then show ?thesis using books_trans [OF b stop_books [OF law]] by simp
    next
      case (Some bs)
      then have "rec L (a - length bs) x1 = Some y" using 1(2) False r by (simp add: x1_def)
      from books_trans [OF b 1(1) [OF this law]] show ?thesis .
    qed
  qed
qed

lemma flush_books:
  assumes law: "socket_law L opened" and f: "flush L x = Some y"
  shows "books opened R x y"
proof -
  obtain a c s where a: "available L x = (a, c, s)" by (metis prod_cases3)
  obtain m w where m: "lw_malloc L WIFI_CLIENT_FLUSH_BUFFER_SIZE (sk_net s) = (m, w)" by fastforce
  note b1 = available_books [OF law a, of R]
  have b2: "books opened R (c, s) (c, s\<lparr>sk_net := w\<rparr>)"
    by (rule books_net) (simp_all add: unmovedD(1) [OF socket_lawD(1) [OF law] m])
  show ?thesis
    using f a m b1 books_trans [OF b1 b2] books_trans [OF books_trans [OF b1 b2] flush_loop_books' [OF _ law]]
    by (auto simp: flush_def split: if_splits option.splits)
qed

lemma connect_socket_opened:
  assumes law: "socket_law L opened" and c: "connect_socket L ip port timeout w = (r, w')"
  shows "case r of None \<Rightarrow> opened w' = opened w | Some n \<Rightarrow> 0 \<le> n \<and> n \<notin> opened w \<and> opened w' = insert n (opened w)"
proof -
  note u = unmovedD [OF socket_lawD(1) [OF law]]
  obtain n w0 where n: "lw_socket L w = (n, w0)" by fastforce
  show ?thesis
  proof (cases "n < 0")
    case True
    then show ?thesis using c n socket_lawD(2) [OF law n] by (auto simp: connect_socket_def)
  next
    case False
    then have new: "n \<notin> opened w" "opened w0 = insert n (opened w)" using socket_lawD(3) [OF law n] by auto
    obtain d w1 where d: "lw_connect L n ip port w0 = (d, w1)" by fastforce
    obtain z w2 where z: "lw_select L n (wait_us timeout) w1 = (z, w2)" by fastforce
    obtain e w3 where e: "lw_sockerr L n w2 = (e, w3)" by fastforce
    have o: "opened w1 = insert n (opened w)" "opened w2 = insert n (opened w)" "opened w3 = insert n (opened w)"
      using u(6) [OF d] u(5) [OF z] u(7) [OF e] new(2) by simp_all
    have "opened (lw_close L n v) = opened w" if "opened v = insert n (opened w)" for v
      using socket_lawD(6) [OF law] that new(1) by auto
    then show ?thesis
      using c n False d z e o new(1) by (auto simp: connect_socket_def split: if_splits option.splits bool.splits)
  qed
qed

lemma connect_books:
  assumes law: "socket_law L opened" and c: "client_connect L ip port timeout x = (r, y)"
  shows "books opened R x y"
proof -
  obtain cl s where x: "x = (cl, s)" by fastforce
  obtain m w where k: "connect_socket L ip port timeout (sk_net s) = (m, w)" by fastforce
  show ?thesis
    using connect_socket_opened [OF law k] c k attach_books [OF law, of _ s w R cl] books_net [of opened w s cl cl R]
    by (auto simp: client_connect_def x split: option.splits)
qed

text \<open>
  A rule for the loop: what holds of the bytes left, those sent and the state, and is kept by each
  call, holds at its end.
\<close>

definition kept_writing :: "'w lwip \<Rightarrow> int \<Rightarrow> (bytes \<Rightarrow> nat \<Rightarrow> 'w sockets \<Rightarrow> bool) \<Rightarrow> bool" where
  "kept_writing L n I \<longleftrightarrow>
     (\<forall>buf sent s. I buf sent s \<longrightarrow>
        I buf sent (s\<lparr>sk_net := snd (lw_select L n (Some 1000000) (sk_net s))\<rparr>) \<and>
        (case lw_send L n buf (sk_net s) of
           (None, w) \<Rightarrow> I buf sent (s\<lparr>sk_net := w\<rparr>)
         | (Some k, w) \<Rightarrow> I (drop k buf) (sent + k) (s\<lparr>sk_net := w\<rparr>)))"

lemma write_loop_rule:
  assumes "I buf sent s" "kept_writing L n I" "write_loop L n full retry buf sent (c, s) = (r, y)"
  shows "\<exists>buf' sent' s'. I buf' sent' s' \<and> (y = (c, s') \<or> y = stop L (c, s')) \<and> (r = sent' \<or> r = 0)"
  using assms
proof (induction L n full retry buf sent "(c, s)" arbitrary: c s r y rule: write_loop.induct)
  case (1 L n full retry buf sent c s)
  obtain z w1 where z: "lw_select L n (Some 1000000) (sk_net s) = (z, w1)" by fastforce
  define s1 where "s1 = s\<lparr>sk_net := w1\<rparr>"
  have k: "I buf sent (s\<lparr>sk_net := snd (lw_select L n (Some 1000000) (sk_net s))\<rparr>) \<and>
      (case lw_send L n buf (sk_net s) of
         (None, w) \<Rightarrow> I buf sent (s\<lparr>sk_net := w\<rparr>) | (Some k, w) \<Rightarrow> I (drop k buf) (sent + k) (s\<lparr>sk_net := w\<rparr>))"
    if "I buf sent s" for buf sent s
    using "1.prems"(2) [unfolded kept_writing_def, THEN spec, THEN spec, THEN spec] that by (rule mp)
  have i1: "I buf sent s1" using k [OF "1.prems"(1)] z by (simp add: s1_def)
  note run = "1.prems"(3)
  show ?case
  proof (cases "retry = 0 \<or> z = None")
    case True
    then show ?thesis using run z "1.prems"(1) i1 by (subst (asm) write_loop.simps) (auto simp: s1_def split: if_splits)
  next
    case False
    then obtain ready where ready: "retry \<noteq> 0" "z = Some ready" by blast
    show ?thesis
    proof (cases ready)
      case False
      then have "write_loop L n full (retry - 1) buf sent (c, s1) = (r, y)"
        using run ready z by (subst (asm) write_loop.simps) (simp add: s1_def)
      moreover have zf: "z = Some False" using ready False by simp
      moreover note "1.hyps"(4) [OF ready(1) z [symmetric] zf refl _ "1.prems"(2)] i1
      ultimately show ?thesis by (simp add: s1_def)
    next
      case True
      then have zt: "z = Some True" using ready by simp
      obtain m w2 where m: "lw_send L n buf w1 = (m, w2)" by fastforce
      define s2 where "s2 = s\<lparr>sk_net := w2\<rparr>"
      have i2: "case m of None \<Rightarrow> I buf sent s2 | Some k \<Rightarrow> I (drop k buf) (sent + k) s2"
        using k [OF i1] m by (simp add: s1_def s2_def split: option.splits)
      show ?thesis
      proof (cases m)
        case None
        then have i: "I buf sent s2" using i2 by simp
        show ?thesis
        proof (cases "lw_errno L w2 = EWOULDBLOCK")
          case block: True
          then have "write_loop L n full (retry - 1) buf sent (c, s2) = (r, y)"
            using run ready z True m None by (subst (asm) write_loop.simps) (simp add: s2_def)
          with "1.hyps"(1) [OF ready(1) z [symmetric] zt refl m [symmetric] None _ _ "1.prems"(2)] block i
          show ?thesis by (simp add: s2_def)
        next
          case False
          then have "(r, y) = (sent, stop L (c, s2))"
            using run ready z True m None by (subst (asm) write_loop.simps) (simp add: s2_def)
          then show ?thesis using i by blast
        qed
      next
        case (Some a)
        then have i: "I (drop a buf) (sent + a) s2" using i2 by simp
        consider (again) "a = 0" | (all) "a \<noteq> 0" "full \<le> sent + a" | (next_part) "a \<noteq> 0" "\<not> full \<le> sent + a" by blast
        then show ?thesis
        proof cases
          case again
          then have "write_loop L n full (retry - 1) buf sent (c, s2) = (r, y)"
            using run ready z True m Some by (subst (asm) write_loop.simps) (simp add: s2_def)
          with "1.hyps"(2) [OF ready(1) z [symmetric] zt refl m [symmetric] Some again _ "1.prems"(2)] again i
          show ?thesis by (simp add: s2_def)
        next
          case all
          then have "(r, y) = (sent + a, c, s2)"
            using run ready z True m Some by (subst (asm) write_loop.simps) (simp add: s2_def)
          then show ?thesis using i by blast
        next
          case next_part
          then have "write_loop L n full WIFI_CLIENT_MAX_WRITE_RETRY (drop a buf) (sent + a) (c, s2) = (r, y)"
            using run ready z True m Some by (subst (asm) write_loop.simps) (simp add: s2_def)
          with "1.hyps"(3) [OF ready(1) z [symmetric] zt refl m [symmetric] Some next_part _ "1.prems"(2)] i
          show ?thesis by (simp add: s2_def)
        qed
      qed
    qed
  qed
qed

lemma write_loop_books:
  assumes law: "socket_law L opened" and w: "write_loop L n full retry buf sent x = (k, y)"
  shows "books opened R x y"
proof -
  obtain c s where x: "x = (c, s)" by fastforce
  note u = unmovedD [OF socket_lawD(1) [OF law]]
  have "kept_writing L n (\<lambda>buf sent s'. books opened R (c, s) (c, s'))"
    unfolding kept_writing_def
    by (auto intro!: books_trans [OF _ books_net] dest: u(4) simp: u(5) [OF prod.collapse [symmetric]] split: prod.splits option.splits)
  then have "\<exists>s'. books opened R (c, s) (c, s') \<and> (y = (c, s') \<or> y = stop L (c, s'))"
    using write_loop_rule [of "\<lambda>buf sent s'. books opened R (c, s) (c, s')", OF books_refl _ w [unfolded x]] by blast
  then show ?thesis using books_trans [OF _ stop_books [OF law]] unfolding x by blast
qed

lemma client_write_books: "socket_law L opened \<Longrightarrow> client_write L buf x = (k, y) \<Longrightarrow> books opened R x y"
  using write_loop_books [of L opened] by (cases x) (auto simp: client_write_def books_refl split: if_splits)

lemma setSocketOption_books:
  assumes law: "socket_law L opened" and "setSocketOption L opt v x = (b, y)"
  shows "books opened R x y"
  using assms(2) books_net [of opened] unmovedD(8) [OF socket_lawD(1) [OF law]]
  by (cases x) (auto simp: setSocketOption_def split: prod.splits)

lemma is_connected_books:
  assumes law: "socket_law L opened" and "is_connected L x = (b, y)"
  shows "books opened R x y"
  using assms(2) books_net [of opened] unmovedD(3) [OF socket_lawD(1) [OF law]]
  by (cases x) (auto simp: is_connected_def Let_def books_refl split: prod.splits if_splits)

lemma client_call_books: "client_call L x y \<Longrightarrow> socket_law L opened \<Longrightarrow> books opened R x y"
  by (induction rule: client_call.induct)
    (auto intro: stop_books connect_books client_write_books read_bytes_books peek_one_books available_books flush_books
      is_connected_books setSocketOption_books)

definition held :: "('w \<Rightarrow> int set) \<Rightarrow> int set \<Rightarrow> 'w clients \<Rightarrow> bool" where
  "held opened R = (\<lambda>(cs, s). sound opened R s \<and> (\<forall>n. shares s n = (\<Sum>c\<leftarrow>cs. holds c n)))"

lemma holds_le_sum: "i < length cs \<Longrightarrow> holds (cs ! i) n \<le> (\<Sum>c\<leftarrow>cs. holds c n)"
  by (metis (no_types, lifting) elem_le_sum_list length_map nth_map)

lemma held_at:
  assumes h: "held opened R (cs, s)" and i: "i < length cs" and b: "books opened R (cs ! i, s) (c, s1)"
  shows "held opened R (cs[i := c], s1)"
proof -
  have t: "sound opened R s1" "shares s1 n + holds (cs ! i) n = shares s n + holds c n" for n
    using h b holds_le_sum [OF i] by (auto simp: held_def books_def)
  have "shares s1 n = (\<Sum>d\<leftarrow>cs[i := c]. holds d n)" for n
  proof -
    have "(\<Sum>d\<leftarrow>cs[i := c]. holds d n) = (\<Sum>d\<leftarrow>cs. holds d n) + holds c n - holds (cs ! i) n"
      using i by (simp add: map_update sum_list_update)
    then show ?thesis using t(2) [of n] h holds_le_sum [OF i, of n] by (simp add: held_def)
  qed
  then show ?thesis using t(1) by (simp add: held_def)
qed

lemma held_added:
  assumes h: "held opened R (cs, s)" and b: "books opened R (no_client, s) (c, s1)"
  shows "held opened R (cs @ [c], s1)"
  using h b by (auto simp: held_def books_def no_client_def holds_def)

lemma share_held:
  assumes "held opened R (cs, s)" "c \<in> set cs"
  shows "sound opened R (share c s)" "shares (share c s) n = shares s n + holds c n"
proof -
  have "wc_fd c = Some n \<Longrightarrow> 0 < shares s n" for n
    using assms holds_le_sum [of _ cs n] by (fastforce simp: held_def holds_def in_set_conv_nth)
  then have e: "wc_fd c = Some n \<Longrightarrow> \<exists>b k. sk_conns s n = Some (b, k)" for n
    by (fastforce simp: shares_def split: option.splits)
  have t: "sound opened R s" using assms(1) by (simp add: held_def)
  show "sound opened R (share c s)" using e t by (fastforce simp: share_def sound_def split: option.splits)
  show "shares (share c s) n = shares s n + holds c n"
    using e by (auto simp: share_def shares_def holds_def split: option.splits)
qed

lemma sum_without:
  "i < length cs \<Longrightarrow> (\<Sum>c\<leftarrow>cs. holds c n) = (\<Sum>c\<leftarrow>take i cs @ drop (Suc i) cs. holds c n) + holds (cs ! i) n"
  by (subst id_take_nth_drop [of i cs]) simp_all

lemma client_step_held:
  assumes "client_step L x y" "socket_law L opened" "held opened R x"
  shows "held opened R y"
  using assms(1,3)
proof (induction rule: client_step.induct)
  case (New cs s)
  then show ?case by (rule held_added [OF _ books_refl])
next
  case (Accepted m s n w c s1 cs)
  note a = socket_lawD(5) [OF assms(2) Accepted(1,2)]
  have "books opened R (no_client, s) (c, s1)"
    using attach_books [OF assms(2), of n s w R no_client] a Accepted(2,3) by (simp add: accepted_client_def)
  then show ?case by (rule held_added [OF Accepted(4)])
next
  case (Copied j cs s)
  then show ?case using share_held [OF Copied(2)] by (auto simp: held_def)
next
  case (Assigned i cs j s)
  define s1 where "s1 = snd (stop L (cs ! i, s))"
  define c1 where "c1 = fst (stop L (cs ! i, s))"
  define cs1 where "cs1 = cs[i := c1]"
  have h: "held opened R (cs1, s1)"
    using held_at [OF Assigned(3,1)] stop_books [OF assms(2), of R "(cs ! i, s)"] by (simp add: s1_def c1_def cs1_def)
  have i: "i < length cs1" "j < length cs1" using Assigned by (simp_all add: cs1_def)
  have e: "assign L i j (cs, s) = (cs1[i := cs1 ! j], share (cs1 ! j) s1)"
    by (simp add: assign_def at_client_def s1_def c1_def cs1_def split: prod.splits)
  have z: "holds (cs1 ! i) n = 0" for n using Assigned(1) by (simp add: cs1_def c1_def stop_def holds_def split: prod.splits)
  have "books opened R (cs1 ! i, s1) (cs1 ! j, share (cs1 ! j) s1)"
    using share_held [OF h, of "cs1 ! j"] i(2) z by (simp add: books_def)
  then show ?case using held_at [OF h i(1)] e by simp
next
  case (Called i cs s c s1)
  then show ?case using held_at client_call_books [OF _ assms(2)] by blast
next
  case (Gone i cs s)
  have "books opened R (cs ! i, s) (no_client, drop_pointers L (cs ! i, s))"
    using stop_books [OF assms(2), of R "(cs ! i, s)"] by (simp add: stop_def no_client_def)
  from held_at [OF Gone(2,1) this] have h: "held opened R (cs[i := no_client], drop_pointers L (cs ! i, s))" .
  have "(\<Sum>d\<leftarrow>cs[i := no_client]. holds d n) = (\<Sum>d\<leftarrow>take i cs @ drop (Suc i) cs. holds d n)" for n
    using sum_without [of i "cs[i := no_client]" n] Gone(1) by (simp add: no_client_def holds_def)
  then show ?case using h by (simp add: held_def)
qed

lemma client_steps_held:
  "(client_step L)\<^sup>*\<^sup>* x y \<Longrightarrow> socket_law L opened \<Longrightarrow> held opened R x \<Longrightarrow> held opened R y"
  by (induction rule: rtranclp_induct) (auto intro: client_step_held)

text \<open>C33. Clients and sockets: whatever clients are made, copied, assigned, used and destroyed, the sockets
  that are open are just those that some client holds, besides the sockets \<open>R\<close> of other code: no
  client is left with a socket that was closed, and none stays open with no client.
\<close>

theorem clients_own_their_sockets:
  assumes "socket_law L opened" "sk_conns s0 = (\<lambda>n. None)" "opened (sk_net s0) = R"
    and "(client_step L)\<^sup>*\<^sup>* ([], s0) (cs, s)"
  shows "opened (sk_net s) = {n. \<exists>c\<in>set cs. wc_fd c = Some n} \<union> R \<and> {n. \<exists>c\<in>set cs. wc_fd c = Some n} \<inter> R = {}"
proof -
  have "held opened R ([], s0)" using assms(2,3) by (simp add: held_def sound_def shares_def)
  with client_steps_held [OF assms(4,1)] have h: "held opened R (cs, s)" by blast
  have "n \<in> dom (sk_conns s) \<longleftrightarrow> (\<exists>c\<in>set cs. wc_fd c = Some n)" for n
  proof -
    have "n \<in> dom (sk_conns s) \<longleftrightarrow> 0 < (\<Sum>c\<leftarrow>cs. holds c n)"
      using h shares_dom [of opened R s n] by (simp add: held_def)
    also have "\<dots> \<longleftrightarrow> (\<exists>c\<in>set cs. wc_fd c = Some n)"
      by (induction cs) (auto simp: holds_def)
    finally show ?thesis .
  qed
  then have d: "dom (sk_conns s) = {n. \<exists>c\<in>set cs. wc_fd c = Some n}" by blast
  have t: "opened (sk_net s) = dom (sk_conns s) \<union> R" "dom (sk_conns s) \<inter> R = {}"
    using h by (auto simp: held_def sound_def)
  show ?thesis using t unfolding d by (rule conjI)
qed

section \<open>What is written\<close>

text \<open>The bytes a socket took are sent in order; \<open>sent\<close> names those it has taken.\<close>

definition send_law :: "'w lwip \<Rightarrow> (int \<Rightarrow> 'w \<Rightarrow> bytes) \<Rightarrow> bool" where
  "send_law L taken \<longleftrightarrow>
     (\<forall>n t w. taken n (snd (lw_select L n t w)) = taken n w) \<and>
     (\<forall>m n w. taken n (lw_close L m w) = taken n w) \<and>
     (\<forall>n bs w. case lw_send L n bs w of
        (None, w') \<Rightarrow> taken n w' = taken n w
      | (Some k, w') \<Rightarrow> k \<le> length bs \<and> taken n w' = taken n w @ take k bs)"

lemma stop_taken: "send_law L taken \<Longrightarrow> taken n (sk_net (snd (stop L (c, s)))) = taken n (sk_net s)"
  by (auto simp: send_law_def stop_def drop_pointers_def let_go_def split: option.splits)

text \<open>C35. A write: what the socket takes is a prefix of the bytes written, each byte once and in order, and
  the answer is the length of it, or 0.
\<close>

theorem write_sends_a_prefix:
  assumes law: "send_law L taken" and w: "client_write L buf (c, s) = (r, c', s')"
  shows "\<exists>k\<le>length buf. taken (fd c) (sk_net s') = taken (fd c) (sk_net s) @ take k buf \<and> (r = k \<or> r = 0)"
proof (cases "wc_connected c \<and> 0 \<le> fd c")
  case False
  then show ?thesis using w by (intro exI [of _ 0]) (auto simp: client_write_def)
next
  case True
  define n where "n = fd c"
  define I where "I = (\<lambda>b k (t :: 'a sockets). k \<le> length buf \<and> b = drop k buf \<and>
    taken n (sk_net t) = taken n (sk_net s) @ take k buf)"
  have "kept_writing L n I"
    unfolding kept_writing_def
  proof (intro allI impI conjI)
    fix b k and t :: "'a sockets"
    assume i: "I b k t"
    show "I b k (t\<lparr>sk_net := snd (lw_select L n (Some 1000000) (sk_net t))\<rparr>)"
      using i law by (simp add: I_def send_law_def)
    show "case lw_send L n b (sk_net t) of
        (None, w) \<Rightarrow> I b k (t\<lparr>sk_net := w\<rparr>) | (Some j, w) \<Rightarrow> I (drop j b) (k + j) (t\<lparr>sk_net := w\<rparr>)"
      using i conjunct2 [OF conjunct2 [OF law [unfolded send_law_def]], rule_format, where n = n and bs = b and w = "sk_net t"]
      by (auto simp: I_def take_add add.commute [of _ k] split: prod.splits option.splits)
  qed
  moreover have "I buf 0 s" by (simp add: I_def)
  moreover have "write_loop L n (length buf) WIFI_CLIENT_MAX_WRITE_RETRY buf 0 (c, s) = (r, c', s')"
    using w True by (simp add: client_write_def n_def)
  ultimately obtain b k t where i: "I b k t" "(c', s') = (c, t) \<or> (c', s') = stop L (c, t)" "r = k \<or> r = 0"
    using write_loop_rule by blast
  have "taken n (sk_net s') = taken n (sk_net t)" using i(2) stop_taken [OF law, of n c t] by (metis Pair_inject snd_conv)
  then show ?thesis using i(1,3) by (intro exI [of _ k]) (auto simp: I_def n_def)
qed

text \<open>
  The answer 0 of a failing \<open>select\<close> is also given after bytes were taken: the caller that writes
  again sends them twice.
\<close>

lemma write_forgets_what_was_sent:
  assumes "wc_connected c" "0 \<le> fd c" "0 < k" "k < length buf"
    and "lw_select L (fd c) (Some 1000000) (sk_net s) = (Some True, w1)" "lw_send L (fd c) buf w1 = (Some k, w2)"
    and "lw_select L (fd c) (Some 1000000) w2 = (None, w3)"
  shows "client_write L buf (c, s) = (0, c, s\<lparr>sk_net := w3\<rparr>)"
  using assms by (simp add: client_write_def WIFI_CLIENT_MAX_WRITE_RETRY_def write_loop.simps)

section \<open>What is flushed\<close>

lemma flush_loop_stuck:
  assumes "flush_loop L a cs = Some y" "0 < a" "\<And>k. lw_recv L (fd (fst cs)) k (sk_net (snd cs)) = (Some [], sk_net (snd cs))"
  shows False
  using assms
proof (induction rule: flush_loop.raw_induct [rotated, consumes 1])
  case (1 rec L a cs y)
  obtain c s where cs: "cs = (c, s)" by fastforce
  have "rec L a cs = Some y" using 1(2-4) by (simp add: cs)
  from 1(1) [OF this] 1(3,4) show ?case by blast
qed

text \<open>C36. Flushing a connection that the peer has closed: with a byte left in the receive buffer, the loop
  waits for a byte of the socket that never comes, and does not end.
\<close>

theorem flush_waits_for_ever_at_the_end:
  assumes "rx_of c s = Some (n, b)" "rx_pos b < rx_fill b" "0 \<le> rx_fd b" "\<not> rx_failed b"
    and "lw_readable L (rx_fd b) (sk_net s) = (Some 0, w)" "lw_malloc L 1024 w = (Some m, w')"
    and "\<And>k. lw_recv L n k w' = (Some [], w')"
  shows "flush L (c, s) = None"
proof -
  have c: "wc_fd c = Some n" using assms(1) by (auto simp: rx_of_def split: option.splits)
  define s1 where "s1 = snd (snd (available L (c, s)))"
  have a: "available L (c, s) = (rx_fill b - rx_pos b, c, s1)" "sk_net s1 = w"
    using assms(1-5) by (auto simp: available_def rx_available_def r_available_def settle_def Let_def s1_def)
  have "flush_loop L (rx_fill b - rx_pos b) (c, s1\<lparr>sk_net := w'\<rparr>) \<noteq> Some y" for y
    using flush_loop_stuck [of L "rx_fill b - rx_pos b" "(c, s1\<lparr>sk_net := w'\<rparr>)" y] assms(2,7) c by (auto simp: fd_def)
  then have "flush_loop L (rx_fill b - rx_pos b) (c, s1\<lparr>sk_net := w'\<rparr>) = None" by blast
  then show ?thesis using a assms(2,6) by (simp add: flush_def WIFI_CLIENT_FLUSH_BUFFER_SIZE_def)
qed

text \<open>While the peer is only silent, the bytes of the buffer make the flush close the connection.\<close>

lemma flush_closes_a_silent_connection:
  assumes "rx_of c s = Some (n, b)" "rx_pos b < rx_fill b" "0 \<le> rx_fd b" "\<not> rx_failed b"
    and "lw_readable L (rx_fd b) (sk_net s) = (Some 0, w)" "lw_malloc L 1024 w = (Some m, w')"
    and "lw_recv L n (min (rx_fill b - rx_pos b) 1024) w' = (None, w'')"
  shows "\<exists>s'. flush L (c, s) = Some (no_client, s')"
proof -
  have c: "wc_fd c = Some n" using assms(1) by (auto simp: rx_of_def split: option.splits)
  define s1 where "s1 = snd (snd (available L (c, s)))"
  have a: "available L (c, s) = (rx_fill b - rx_pos b, c, s1)" "sk_net s1 = w"
    using assms(1-5) by (auto simp: available_def rx_available_def r_available_def settle_def Let_def s1_def)
  show ?thesis using a assms(2,6,7) c
    by (simp add: flush_def WIFI_CLIENT_FLUSH_BUFFER_SIZE_def flush_loop.simps fd_def stop_def no_client_def)
qed

text \<open>
  A successful call leaves the reason of an old failure: the answer of \<open>connected\<close> is about that one.
\<close>

lemma connected_tells_an_old_failure:
  assumes "wc_connected c" "lw_recv L (fd c) 0 (sk_net s) = (Some [], w)" "lw_errno L w = ECONNRESET"
  shows "fst (is_connected L (c, s)) = False"
  using assms by (simp add: is_connected_def)

section \<open>A network for the witnesses\<close>

text \<open>
  Sockets whose peer has sent \<open>inbox\<close> and takes all it is given; \<open>over\<close> says that the peer is gone.
\<close>

record peer =
  inbox :: "int \<Rightarrow> bytes"
  outbox :: "int \<Rightarrow> bytes"
  opens :: "int list"
  over :: bool
  failure :: errno

definition new_fd :: "int list \<Rightarrow> int" where
  "new_fd ns = 1 + foldr max ns 47"

lemma new_fd: "n \<in> set ns \<Longrightarrow> n < new_fd ns" "0 \<le> new_fd ns"
proof -
  have "n \<in> set ns \<Longrightarrow> n \<le> foldr max ns 47" by (induction ns) auto
  then show "n \<in> set ns \<Longrightarrow> n < new_fd ns" by (simp add: new_fd_def)
  have "47 \<le> foldr max ns (47 :: int)" by (induction ns) auto
  then show "0 \<le> new_fd ns" by (simp add: new_fd_def)
qed

definition peer_open :: "peer \<Rightarrow> int \<times> peer" where
  "peer_open w = (new_fd (opens w), w\<lparr>opens := new_fd (opens w) # opens w\<rparr>)"

definition with_peer :: "peer lwip" where
  "with_peer = \<lparr>lw_errno = failure,
     lw_malloc = (\<lambda>n w. (Some (replicate n (CHR 0x00)), w)),
     lw_readable = (\<lambda>n w. (Some (length (inbox w n)), w)),
     lw_recv = (\<lambda>n k w. if inbox w n = [] \<and> \<not> over w then (None, w\<lparr>failure := EWOULDBLOCK\<rparr>)
       else (Some (take k (inbox w n)), w\<lparr>inbox := (inbox w)(n := drop k (inbox w n))\<rparr>)),
     lw_send = (\<lambda>n bs w. (Some (length bs), w\<lparr>outbox := (outbox w)(n := outbox w n @ bs)\<rparr>)),
     lw_select = (\<lambda>n t w. (Some True, w)),
     lw_socket = peer_open,
     lw_connect = (\<lambda>n ip port w. (True, w)),
     lw_sockerr = (\<lambda>n w. (Some 0, w)),
     lw_close = (\<lambda>n w. w\<lparr>opens := removeAll n (opens w)\<rparr>),
     lw_setopt = (\<lambda>n opt x w. (True, w)),
     lw_bind = (\<lambda>n port w. (True, w)),
     lw_listen = (\<lambda>n k w. (True, w)),
     lw_accept = (\<lambda>n. peer_open)\<rparr>"

definition quiet_peer :: peer where
  "quiet_peer = \<lparr>inbox = (\<lambda>n. []), outbox = (\<lambda>n. []), opens = [40], over = False, failure = ENOENT\<rparr>"

definition sockets_at :: "'w \<Rightarrow> 'w sockets" where
  "sockets_at w = \<lparr>sk_net = w, sk_conns = (\<lambda>n. None)\<rparr>"

lemma new_fd_new: "new_fd ns \<notin> set ns"
  using new_fd(1) [of "new_fd ns" ns] by blast

lemma peer_sockets: "socket_law with_peer (\<lambda>w. set (opens w))"
  using new_fd_new new_fd(2)
  by (auto simp: socket_law_def unmoved_def with_peer_def peer_open_def Let_def not_less [symmetric])

lemma peer_sends: "send_law with_peer (\<lambda>n w. outbox w n)"
  by (simp add: send_law_def with_peer_def)

lemma peer_receives: "tcp_law with_peer (\<lambda>n w. inbox w n)"
  by (simp add: tcp_law_def with_peer_def)

text \<open>A client is made and connected, copied, and the first one destroyed: the copy holds the socket.\<close>

lemma clients_own_their_sockets_witness:
  "\<exists>cs s. (client_step with_peer)\<^sup>*\<^sup>* ([], sockets_at quiet_peer) (cs, s) \<and> cs = [\<lparr>wc_fd = Some 48, wc_connected = True\<rparr>] \<and>
     set (opens (sk_net s)) = {n. \<exists>c\<in>set cs. wc_fd c = Some n} \<union> {40}"
proof -
  let ?c = "\<lparr>wc_fd = Some 48, wc_connected = True\<rparr>"
  let ?s = "\<lambda>k. \<lparr>sk_net = quiet_peer\<lparr>opens := [48, 40]\<rparr>, sk_conns = (\<lambda>n. None)(48 \<mapsto> (new_rx 48, k))\<rparr>"
  have k: "client_connect with_peer 0 80 (-1) (no_client, sockets_at quiet_peer) = (True, ?c, ?s 1)"
    by (simp add: client_connect_def connect_socket_def with_peer_def peer_open_def new_fd_def quiet_peer_def no_client_def
        sockets_at_def attach_def drop_pointers_def)
  have 1: "client_step with_peer ([], sockets_at quiet_peer) ([no_client], sockets_at quiet_peer)"
    using client_step.New [of with_peer "[]"] by simp
  have 2: "client_step with_peer ([no_client], sockets_at quiet_peer) ([?c], ?s 1)"
    using client_step.Called [of 0 "[no_client]" with_peer, OF _ client_call.Connect] k by simp
  have 3: "client_step with_peer ([?c], ?s 1) ([?c, ?c], ?s 2)"
    using client_step.Copied [of 0 "[?c]" with_peer "?s 1"] by (simp add: share_def numeral_2_eq_2)
  have 4: "client_step with_peer ([?c, ?c], ?s 2) ([?c], ?s 1)"
    using client_step.Gone [of 0 "[?c, ?c]" with_peer "?s 2"] by (simp add: drop_pointers_def let_go_def)
  have r: "(client_step with_peer)\<^sup>*\<^sup>* ([], sockets_at quiet_peer) ([?c], ?s 1)"
    using 1 2 3 4 by (meson converse_rtranclp_into_rtranclp rtranclp.rtrancl_refl)
  from clients_own_their_sockets [OF peer_sockets _ refl r] r show ?thesis
    by (intro exI [of _ "[?c]"] exI [of _ "?s 1"]) (simp add: sockets_at_def quiet_peer_def)
qed

lemma write_sends_a_prefix_witness:
  "\<exists>k\<le>length ''hello''. outbox (sk_net (snd (snd (client_write with_peer ''hello''
     (\<lparr>wc_fd = Some 48, wc_connected = True\<rparr>, sockets_at quiet_peer))))) 48 = take k ''hello''"
proof -
  obtain r c s where w: "client_write with_peer ''hello'' (\<lparr>wc_fd = Some 48, wc_connected = True\<rparr>, sockets_at quiet_peer) = (r, c, s)"
    by (metis prod_cases3)
  from write_sends_a_prefix [OF peer_sends w] obtain k where "k \<le> length ''hello''" "outbox (sk_net s) 48 = take k ''hello''"
    by (auto simp: fd_def sockets_at_def quiet_peer_def)
  then show ?thesis unfolding w by auto
qed

lemma flush_waits_for_ever_at_the_end_witness:
  "flush with_peer (\<lparr>wc_fd = Some 48, wc_connected = True\<rparr>,
     \<lparr>sk_net = quiet_peer\<lparr>over := True\<rparr>,
      sk_conns = [48 \<mapsto> (\<lparr>rx_size = 4, rx_buffer = Some ''abcd'', rx_pos = 1, rx_fill = 3, rx_fd = 48, rx_failed = False\<rparr>, 1)]\<rparr>) = None"
  by (rule flush_waits_for_ever_at_the_end
      [where n = 48 and b = "\<lparr>rx_size = 4, rx_buffer = Some ''abcd'', rx_pos = 1, rx_fill = 3, rx_fd = 48, rx_failed = False\<rparr>"
        and w = "quiet_peer\<lparr>over := True\<rparr>" and w' = "quiet_peer\<lparr>over := True\<rparr>"])
    (simp_all add: rx_of_def with_peer_def quiet_peer_def fun_upd_idem)

lemma reads_give_the_stream_in_order_witness:
  "\<exists>rs t. rx_reads with_peer [2, 9] (new_rx 48, quiet_peer\<lparr>inbox := (\<lambda>n. ''hello'')\<rparr>) = Some (rs, t) \<and>
     ''hello'' = concat (map snd rs) @ content (\<lambda>n w. inbox w n) t"
  using reads_give_the_stream_in_order [OF peer_receives rx_ok_new(1) [of 48], of "[2, 9]" "quiet_peer\<lparr>inbox := (\<lambda>n. ''hello'')\<rparr>"]
  by (auto simp: content_def rx_ok_new new_rx_def [of 48] buffered_def)

end
