(* ===== verification/Wifi_Server.thy ===== *)
theory Wifi_Server
  imports Wifi_Client
begin

text \<open>
  The TCP server of \<open>WiFiServer.cpp\<close>: listening, accepting and the clients it hands out, over the
  same stack and store of connections as the clients.
\<close>

section \<open>The server\<close>

record tcp_server =
  sv_fd :: int
  sv_accepted :: int
    \<comment> \<open>an accepted socket that was not handed out, or a negative number\<close>
  sv_port :: u16
  sv_max :: nat
  sv_listening :: bool
  sv_noDelay :: bool

definition closed_server :: "u16 \<Rightarrow> nat \<Rightarrow> tcp_server" where
  "closed_server port n =
     \<lparr>sv_fd = -1, sv_accepted = -1, sv_port = port, sv_max = n, sv_listening = False, sv_noDelay = False\<rparr>"

definition server_begin :: "'w lwip \<Rightarrow> u16 \<Rightarrow> tcp_server \<times> 'w sockets \<Rightarrow> tcp_server \<times> 'w sockets" where
  "server_begin L port = (\<lambda>(v, s).
     if sv_listening v then (v, s)
     else
       let v1 = (if port \<noteq> 0 then v\<lparr>sv_port := port\<rparr> else v);
           (n, w) = lw_socket L (sk_net s);
           v2 = v1\<lparr>sv_fd := n\<rparr>
       in if n < 0 then (v2, s\<lparr>sk_net := w\<rparr>)
          else case lw_bind L n (sv_port v2) w of
              (False, w1) \<Rightarrow> (v2, s\<lparr>sk_net := w1\<rparr>)
            | (True, w1) \<Rightarrow>
                (case lw_listen L n (sv_max v2) w1 of
                   (False, w2) \<Rightarrow> (v2, s\<lparr>sk_net := w2\<rparr>)
                 | (True, w2) \<Rightarrow>
                     (v2\<lparr>sv_listening := True, sv_noDelay := False, sv_accepted := -1\<rparr>, s\<lparr>sk_net := w2\<rparr>)))"

definition take_client :: "'w lwip \<Rightarrow> tcp_server \<times> 'w sockets \<Rightarrow> tcp_server \<times> 'w sockets" where
  "take_client L = (\<lambda>(v, s). case lw_accept L (sv_fd v) (sk_net s) of (n, w) \<Rightarrow> (v\<lparr>sv_accepted := n\<rparr>, s\<lparr>sk_net := w\<rparr>))"

definition hasClient :: "'w lwip \<Rightarrow> tcp_server \<times> 'w sockets \<Rightarrow> bool \<times> tcp_server \<times> 'w sockets" where
  "hasClient L = (\<lambda>(v, s).
     if 0 \<le> sv_accepted v then (True, v, s)
     else case take_client L (v, s) of (v1, s1) \<Rightarrow> (0 \<le> sv_accepted v1, v1, s1))"

text \<open>The socket that waits is replaced by the next one, and the answer is its number plus one.\<close>

definition num_available_clients :: "'w lwip \<Rightarrow> tcp_server \<times> 'w sockets \<Rightarrow> int \<times> tcp_server \<times> 'w sockets" where
  "num_available_clients L = (\<lambda>(v, s).
     if sv_accepted v < 0 then (0, v, s)
     else case take_client L (v, s) of (v1, s1) \<Rightarrow> (if 0 \<le> sv_accepted v1 then sv_accepted v1 + 1 else 0, v1, s1))"

definition server_available :: "'w lwip \<Rightarrow> tcp_server \<times> 'w sockets \<Rightarrow> client \<times> tcp_server \<times> 'w sockets" where
  "server_available L = (\<lambda>(v, s).
     if \<not> sv_listening v then (no_client, v, s)
     else
       case (if 0 \<le> sv_accepted v then (sv_accepted v, v\<lparr>sv_accepted := -1\<rparr>, s)
             else case lw_accept L (sv_fd v) (sk_net s) of (n, w) \<Rightarrow> (n, v, s\<lparr>sk_net := w\<rparr>)) of
         (n, v1, s1) \<Rightarrow>
           if n < 0 then (no_client, v1, s1)
           else case lw_setopt L n SO_KEEPALIVE 1 (sk_net s1) of
               (False, w) \<Rightarrow> (no_client, v1, s1\<lparr>sk_net := w\<rparr>)
             | (True, w) \<Rightarrow>
                 (case lw_setopt L n TCP_NODELAY (if sv_noDelay v1 then 1 else 0) w of
                    (False, w1) \<Rightarrow> (no_client, v1, s1\<lparr>sk_net := w1\<rparr>)
                  | (True, w1) \<Rightarrow> (case accepted_client L n (s1\<lparr>sk_net := w1\<rparr>) of (c, s2) \<Rightarrow> (c, v1, s2))))"

definition server_end :: "'w lwip \<Rightarrow> tcp_server \<times> 'w sockets \<Rightarrow> tcp_server \<times> 'w sockets" where
  "server_end L = (\<lambda>(v, s). (v\<lparr>sv_fd := -1, sv_listening := False\<rparr>, s\<lparr>sk_net := lw_close L (sv_fd v) (sk_net s)\<rparr>))"

definition server_setTimeout :: "'w lwip \<Rightarrow> int \<Rightarrow> tcp_server \<times> 'w sockets \<Rightarrow> bool \<times> tcp_server \<times> 'w sockets" where
  "server_setTimeout L seconds = (\<lambda>(v, s).
     case lw_setopt L (sv_fd v) SO_RCVTIMEO seconds (sk_net s) of
       (False, w) \<Rightarrow> (False, v, s\<lparr>sk_net := w\<rparr>)
     | (True, w) \<Rightarrow> (case lw_setopt L (sv_fd v) SO_SNDTIMEO seconds w of (ok, w1) \<Rightarrow> (ok, v, s\<lparr>sk_net := w1\<rparr>)))"

section \<open>Whose the sockets are\<close>

text \<open>
  The sockets of a server: the one it listens on and one that waits to be handed out.  The others
  that are open belong to clients or to \<open>R\<close>.
\<close>

definition server_owns :: "tcp_server \<Rightarrow> int set" where
  "server_owns v = {n. 0 \<le> n \<and> (n = sv_fd v \<or> n = sv_accepted v)}"

definition served :: "('w \<Rightarrow> int set) \<Rightarrow> int set \<Rightarrow> tcp_server \<times> client list \<times> 'w sockets \<Rightarrow> bool" where
  "served opened R = (\<lambda>(v, cs, s).
     held opened (server_owns v \<union> R) (cs, s) \<and> server_owns v \<inter> R = {} \<and> (0 \<le> sv_accepted v \<longrightarrow> sv_fd v \<noteq> sv_accepted v))"

lemma held_opened: "held opened Q (cs, s) \<Longrightarrow> opened (sk_net s) = dom (sk_conns s) \<union> Q"
  by (simp add: held_def sound_def)

lemma held_net: "held opened Q (cs, s) \<Longrightarrow> opened w = opened (sk_net s) \<Longrightarrow> held opened Q (cs, s\<lparr>sk_net := w\<rparr>)"
  by (simp add: held_def sound_def shares_def)

text \<open>A new socket that no client has yet.\<close>

lemma held_new:
  assumes "held opened Q (cs, s)" "n \<notin> opened (sk_net s)" "opened w = insert n (opened (sk_net s))"
  shows "held opened (insert n Q) (cs, s\<lparr>sk_net := w\<rparr>)"
  using assms by (auto simp: held_def sound_def shares_def)

text \<open>
  A waiting client is kept until it is handed out: asking for one accepts at most one connection,
  and all open sockets have an owner.
\<close>

lemma hasClient_served:
  assumes law: "socket_law L opened" and ok: "served opened R (v, cs, s)" and h: "hasClient L (v, s) = (r, v', s')"
  shows "served opened R (v', cs, s') \<and> r = (0 \<le> sv_accepted v')"
proof (cases "0 \<le> sv_accepted v")
  case True
  then show ?thesis using ok h by (simp add: hasClient_def)
next
  case False
  obtain n w where a: "lw_accept L (sv_fd v) (sk_net s) = (n, w)" by fastforce
  have e: "v' = v\<lparr>sv_accepted := n\<rparr>" "s' = s\<lparr>sk_net := w\<rparr>" "r = (0 \<le> n)"
    using h False a by (auto simp: hasClient_def take_client_def)
  show ?thesis
  proof (cases "n < 0")
    case True
    then have o: "server_owns v' = server_owns v" using e(1) False by (auto simp: server_owns_def)
    have "held opened (server_owns v \<union> R) (cs, s\<lparr>sk_net := w\<rparr>)"
      using ok socket_lawD(4) [OF law a True] by (auto simp: served_def intro: held_net)
    moreover have "\<not> 0 \<le> sv_accepted v'" using e(1) True by simp
    ultimately show ?thesis using ok e(2,3) o True by (simp add: served_def)
  next
    case n: False
    then have new: "n \<notin> opened (sk_net s)" "opened w = insert n (opened (sk_net s))" using socket_lawD(5) [OF law a] by auto
    have "server_owns v' = insert n (server_owns v)" using n e False by (auto simp: server_owns_def)
    moreover have "n \<notin> server_owns v \<union> R" using ok new(1) held_opened by (fastforce simp: served_def)
    ultimately show ?thesis
      using ok e n held_new [OF _ new, of "server_owns v \<union> R" cs] by (auto simp: served_def server_owns_def)
  qed
qed

lemma held_handed:
  assumes h: "held opened (insert n Q) (cs, s)" "n \<notin> Q" "0 \<le> n" and c: "accepted_client L n s = (c, s1)"
  shows "held opened Q (cs @ [c], s1)"
proof -
  have e: "c = \<lparr>wc_fd = Some n, wc_connected = True\<rparr>" "s1 = s\<lparr>sk_conns := (sk_conns s)(n \<mapsto> (new_rx n, 1))\<rparr>"
    using c by (auto simp: accepted_client_def attach_def drop_pointers_def no_client_def Let_def)
  have n: "sk_conns s n = None" using h(1) by (simp add: held_def sound_def)
  have "sound opened Q s1"
    using h by (auto simp: e held_def sound_def new_rx_def)
  moreover have "shares s1 m = shares s m + holds c m" for m
    using n by (auto simp: e shares_def holds_def)
  ultimately show ?thesis using h(1) by (auto simp: held_def)
qed

text \<open>A client that is handed out owns the socket, and the server no longer does.\<close>

lemma available_served:
  assumes law: "socket_law L opened" and ok: "served opened R (v, cs, s)"
    and h: "server_available L (v, s) = (c, v', s')" and got: "wc_fd c = Some n"
  shows "served opened R (v', cs @ [c], s') \<and> n \<noteq> sv_accepted v' \<and> n \<notin> server_owns v'"
proof -
  define st where "st = (if 0 \<le> sv_accepted v then (sv_accepted v, v\<lparr>sv_accepted := -1\<rparr>, s)
    else case lw_accept L (sv_fd v) (sk_net s) of (n, w) \<Rightarrow> (n, v, s\<lparr>sk_net := w\<rparr>))"
  obtain m v1 s1 where st1: "st = (m, v1, s1)" by (metis prod_cases3)
  have l: "sv_listening v" using h got by (auto simp: server_available_def no_client_def split: if_splits)
  obtain k w where k: "lw_setopt L m SO_KEEPALIVE 1 (sk_net s1) = (k, w)" by fastforce
  obtain t w1 where t: "lw_setopt L m TCP_NODELAY (if sv_noDelay v1 then 1 else 0) w = (t, w1)" by fastforce
  have a: "server_available L (v, s) = (if m < 0 then (no_client, v1, s1) else if \<not> k then (no_client, v1, s1\<lparr>sk_net := w\<rparr>)
      else if \<not> t then (no_client, v1, s1\<lparr>sk_net := w1\<rparr>)
      else case accepted_client L m (s1\<lparr>sk_net := w1\<rparr>) of (c, s2) \<Rightarrow> (c, v1, s2))"
    using l k t st1 by (simp add: server_available_def st_def [symmetric] split: bool.splits)
  have m: "0 \<le> m" "k" "t" using h got unfolding a by (auto simp: no_client_def split: if_splits)
  have c: "accepted_client L m (s1\<lparr>sk_net := w1\<rparr>) = (c, s')" "v' = v1"
    using h m unfolding a by (auto split: prod.splits)
  have nm: "n = m" using c(1) got by (auto simp: accepted_client_def attach_def Let_def)
  have "opened w1 = opened (sk_net s1)"
    using unmovedD(8) [OF socket_lawD(1) [OF law] k] unmovedD(8) [OF socket_lawD(1) [OF law] t] by simp
  moreover have "held opened (insert m (server_owns v1 \<union> R)) (cs, s1) \<and> m \<notin> server_owns v1 \<union> R \<and>
      server_owns v1 \<inter> R = {} \<and> \<not> 0 \<le> sv_accepted v1"
  proof (cases "0 \<le> sv_accepted v")
    case True
    then have e: "m = sv_accepted v" "v1 = v\<lparr>sv_accepted := -1\<rparr>" "s1 = s" using st1 by (simp_all add: st_def)
    then have i: "insert m (server_owns v1 \<union> R) = server_owns v \<union> R" using True by (auto simp: server_owns_def)
    have "m \<in> server_owns v" "m \<notin> server_owns v1" "server_owns v1 \<subseteq> server_owns v"
      using True e ok by (auto simp: server_owns_def served_def)
    then show ?thesis using ok e True unfolding i by (auto simp: served_def)
  next
    case False
    obtain n' w' where acc: "lw_accept L (sv_fd v) (sk_net s) = (n', w')" by fastforce
    then have e: "m = n'" "v1 = v" "s1 = s\<lparr>sk_net := w'\<rparr>" using st1 False by (simp_all add: st_def)
    then have new: "m \<notin> opened (sk_net s)" "opened w' = insert m (opened (sk_net s))"
      using socket_lawD(5) [OF law acc] m(1) by auto
    have h0: "held opened (server_owns v \<union> R) (cs, s)" using ok by (simp add: served_def)
    have "m \<notin> server_owns v \<union> R" using held_opened [OF h0] new(1) by auto
    then show ?thesis using held_new [OF h0 new] e False ok by (simp add: served_def)
  qed
  ultimately have "held opened (server_owns v1 \<union> R) (cs @ [c], s')" and o: "m \<notin> server_owns v1" "server_owns v1 \<inter> R = {}" "\<not> 0 \<le> sv_accepted v1"
    using held_handed [OF held_net _ m(1) c(1)] by auto
  then show ?thesis using c(2) nm m(1) by (auto simp: served_def)
qed

text \<open>A waiting socket that is counted is lost: it stays open and nobody owns it.\<close>

lemma counting_loses_a_client:
  assumes law: "socket_law L opened" and open_: "0 \<le> sv_accepted v" "sv_accepted v \<in> opened (sk_net s)"
    and c: "num_available_clients L (v, s) = (k, v', s')"
  shows "sv_accepted v \<in> opened (sk_net s') \<and> sv_accepted v' \<noteq> sv_accepted v"
proof -
  obtain n w where a: "lw_accept L (sv_fd v) (sk_net s) = (n, w)" by fastforce
  have e: "v' = v\<lparr>sv_accepted := n\<rparr>" "s' = s\<lparr>sk_net := w\<rparr>"
    using c open_(1) a by (auto simp: num_available_clients_def take_client_def)
  show ?thesis
    using e open_ socket_lawD(4) [OF law a] socket_lawD(5) [OF law a] by (cases "n < 0") auto
qed

end
