(* ===== verification/Wifi_Udp.thy ===== *)
theory Wifi_Udp
  imports Device
begin

text \<open>
  Datagrams, \<open>WiFiUdp.cpp\<close>, below the name server of the captive portal.  The stack and the byte
  queue \<open>cbuf\<close> are not part of the source and are arguments.
\<close>

section \<open>The stack and the queue\<close>

record 'w udp_stack =
  us_would_block :: "'w \<Rightarrow> bool"
    \<comment> \<open>whether the last failure was \<open>EWOULDBLOCK\<close>\<close>
  us_new :: "'w \<Rightarrow> bool \<times> 'w"
    \<comment> \<open>whether 1460 bytes could be had\<close>
  us_socket :: "'w \<Rightarrow> int \<times> 'w"
  us_reuse :: "int \<Rightarrow> 'w \<Rightarrow> bool \<times> 'w"
  us_bind :: "int \<Rightarrow> u32 \<Rightarrow> u16 \<Rightarrow> 'w \<Rightarrow> bool \<times> 'w"
  us_join :: "int \<Rightarrow> u32 \<Rightarrow> 'w \<Rightarrow> bool \<times> 'w"
  us_drop :: "int \<Rightarrow> u32 \<Rightarrow> 'w \<Rightarrow> 'w"
  us_close :: "int \<Rightarrow> 'w \<Rightarrow> 'w"
  us_sendto :: "int \<Rightarrow> bytes \<Rightarrow> u32 \<Rightarrow> u16 \<Rightarrow> 'w \<Rightarrow> bool \<times> 'w"
  us_recvfrom :: "int \<Rightarrow> nat \<Rightarrow> 'w \<Rightarrow> (bytes \<times> u32 \<times> u16) option \<times> 'w"
  us_host :: "string \<Rightarrow> 'w \<Rightarrow> u32 option \<times> 'w"
    \<comment> \<open>\<open>gethostbyname\<close>\<close>

record 'c cbuf =
  cb_new :: "nat \<Rightarrow> 'c"
  cb_write :: "bytes \<Rightarrow> 'c \<Rightarrow> 'c"
  cb_available :: "'c \<Rightarrow> nat"
  cb_getc :: "'c \<Rightarrow> int \<times> 'c"
  cb_read :: "nat \<Rightarrow> 'c \<Rightarrow> bytes \<times> 'c"
  cb_peek :: "'c \<Rightarrow> int"

section \<open>State\<close>

text \<open>
  The transmit buffer stands for the bytes written into it, \<open>None\<close> when there is none; it holds up
  to 1460.  The count of receive errors is one variable for all objects.
\<close>

record 'c udp =
  udp_server :: int
  multicast_ip :: u32
  remote_ip :: u32
  server_port :: u16
  remote_port :: u16
  tx_buffer :: "bytes option"
  rx_buffer :: "'c option"
  enumb :: nat

type_synonym ('c, 'w) udp_state = "'c udp \<times> 'w"

definition new_udp :: "'c udp" where
  "new_udp = \<lparr>udp_server = -1, multicast_ip = 0, remote_ip = 0, server_port = 0, remote_port = 0,
     tx_buffer = None, rx_buffer = None, enumb = 0\<rparr>"

definition tx_full :: nat where "tx_full = 1460"

section \<open>Opening and closing\<close>

definition udp_stop :: "'w udp_stack \<Rightarrow> ('c, 'w) udp_state \<Rightarrow> ('c, 'w) udp_state" where
  "udp_stop S = (\<lambda>(u, w).
     let u1 = u\<lparr>tx_buffer := None, rx_buffer := None\<rparr>
     in if udp_server u1 = -1 then (u1, w)
        else
          let (u2, w1) = (if multicast_ip u1 \<noteq> 0
                          then (u1\<lparr>multicast_ip := 0\<rparr>, us_drop S (udp_server u1) (multicast_ip u1) w) else (u1, w))
          in (u2\<lparr>udp_server := -1\<rparr>, us_close S (udp_server u2) w1))"

definition udp_begin :: "'w udp_stack \<Rightarrow> u32 \<Rightarrow> u16 \<Rightarrow> ('c, 'w) udp_state \<Rightarrow> bool \<times> ('c, 'w) udp_state" where
  "udp_begin S address port st =
     (case udp_stop S st of (u, w) \<Rightarrow>
        let u1 = u\<lparr>server_port := port\<rparr>
        in case us_new S w of
            (False, w1) \<Rightarrow> (False, u1, w1)
          | (True, w1) \<Rightarrow>
              (case us_socket S w1 of (n, w2) \<Rightarrow>
                 let u2 = u1\<lparr>tx_buffer := Some [], udp_server := n\<rparr>
                 in if n = -1 then (False, u2, w2)
                    else case us_reuse S n w2 of
                        (False, w3) \<Rightarrow> (False, udp_stop S (u2, w3))
                      | (True, w3) \<Rightarrow>
                          (case us_bind S n address port w3 of
                             (False, w4) \<Rightarrow> (False, udp_stop S (u2, w4))
                           | (True, w4) \<Rightarrow> (True, u2, w4))))"

definition beginMulticast :: "'w udp_stack \<Rightarrow> u32 \<Rightarrow> u16 \<Rightarrow> ('c, 'w) udp_state \<Rightarrow> bool \<times> ('c, 'w) udp_state" where
  "beginMulticast S a port st =
     (case udp_begin S 0 port st of
        (False, st1) \<Rightarrow> (False, st1)
      | (True, u, w) \<Rightarrow>
          if a = 0 then (True, u, w)
          else case us_join S (udp_server u) a w of
              (False, w1) \<Rightarrow> (False, udp_stop S (u, w1))
            | (True, w1) \<Rightarrow> (True, u\<lparr>multicast_ip := a\<rparr>, w1))"

section \<open>Sending\<close>

definition beginPacket :: "'w udp_stack \<Rightarrow> ('c, 'w) udp_state \<Rightarrow> bool \<times> ('c, 'w) udp_state" where
  "beginPacket S = (\<lambda>(u, w).
     if remote_port u = 0 then (False, u, w)
     else
       case (if tx_buffer u = None then us_new S w else (True, w)) of
         (False, w1) \<Rightarrow> (False, u, w1)
       | (True, w1) \<Rightarrow>
           let u1 = u\<lparr>tx_buffer := Some []\<rparr>
           in if udp_server u1 \<noteq> -1 then (True, u1, w1)
              else case us_socket S w1 of (n, w2) \<Rightarrow> (n \<noteq> -1, u1\<lparr>udp_server := n\<rparr>, w2))"

definition beginPacket_to :: "'w udp_stack \<Rightarrow> u32 \<Rightarrow> u16 \<Rightarrow> ('c, 'w) udp_state \<Rightarrow> bool \<times> ('c, 'w) udp_state" where
  "beginPacket_to S ip port = (\<lambda>(u, w). beginPacket S (u\<lparr>remote_ip := ip, remote_port := port\<rparr>, w))"

definition beginPacket_host :: "'w udp_stack \<Rightarrow> string \<Rightarrow> u16 \<Rightarrow> ('c, 'w) udp_state \<Rightarrow> bool \<times> ('c, 'w) udp_state" where
  "beginPacket_host S host port = (\<lambda>(u, w).
     case us_host S host w of
       (None, w1) \<Rightarrow> (False, u, w1)
     | (Some ip, w1) \<Rightarrow> beginPacket_to S ip port (u, w1))"

definition beginMulticastPacket :: "'w udp_stack \<Rightarrow> ('c, 'w) udp_state \<Rightarrow> bool \<times> ('c, 'w) udp_state" where
  "beginMulticastPacket S = (\<lambda>(u, w).
     if server_port u = 0 \<or> multicast_ip u = 0 then (False, u, w)
     else beginPacket S (u\<lparr>remote_ip := multicast_ip u, remote_port := server_port u\<rparr>, w))"

definition endPacket :: "'w udp_stack \<Rightarrow> ('c, 'w) udp_state \<Rightarrow> bool \<times> ('c, 'w) udp_state" where
  "endPacket S = (\<lambda>(u, w).
     case us_sendto S (udp_server u) (case tx_buffer u of None \<Rightarrow> [] | Some b \<Rightarrow> b) (remote_ip u) (remote_port u) w of
       (ok, w1) \<Rightarrow> (ok, u, w1))"

text \<open>A full buffer is sent before the next byte; whether that succeeded is not looked at.\<close>

definition write_one :: "'w udp_stack \<Rightarrow> char \<Rightarrow> ('c, 'w) udp_state \<Rightarrow> ('c, 'w) udp_state outcome" where
  "write_one S x = (\<lambda>(u, w).
     case tx_buffer u of
       None \<Rightarrow> Null_pointer
     | Some b \<Rightarrow>
         (case (if length b = tx_full then (case endPacket S (u, w) of (ok, u1, w1) \<Rightarrow> (u1, [], w1)) else (u, b, w)) of
            (u1, b1, w1) \<Rightarrow> Return (u1\<lparr>tx_buffer := Some (b1 @ [x])\<rparr>, w1)))"

fun write_many :: "'w udp_stack \<Rightarrow> bytes \<Rightarrow> ('c, 'w) udp_state \<Rightarrow> ('c, 'w) udp_state outcome" where
  "write_many S [] st = Return st"
| "write_many S (x # xs) st =
     (case write_one S x st of Return st1 \<Rightarrow> write_many S xs st1 | Restart \<Rightarrow> Restart | Null_pointer \<Rightarrow> Null_pointer)"

section \<open>Receiving\<close>

text \<open>
  A datagram is taken only when the last one was read to its end.  After ten errors in a row the
  socket is opened again, on any address.
\<close>

definition parsePacket :: "'w udp_stack \<Rightarrow> 'c cbuf \<Rightarrow> ('c, 'w) udp_state \<Rightarrow> nat \<times> ('c, 'w) udp_state" where
  "parsePacket S C = (\<lambda>(u, w).
     if rx_buffer u \<noteq> None then (0, u, w)
     else case us_new S w of
         (False, w1) \<Rightarrow> (0, u, w1)
       | (True, w1) \<Rightarrow>
           (case us_recvfrom S (udp_server u) 1460 w1 of
              (None, w2) \<Rightarrow>
                if us_would_block S w2 then (0, u\<lparr>enumb := 0\<rparr>, w2)
                else
                  let u1 = u\<lparr>enumb := enumb u + 1\<rparr>
                  in if 10 \<le> enumb u1
                     then (0, snd (udp_begin S 0 (server_port u1) (udp_stop S (u1\<lparr>enumb := 0\<rparr>, w2))))
                     else (0, u1, w2)
            | (Some (bs, ip, port), w2) \<Rightarrow>
                (length bs,
                 u\<lparr>remote_ip := ip, remote_port := port,
                   rx_buffer := (if bs = [] then rx_buffer u else Some (cb_write C bs (cb_new C (length bs))))\<rparr>, w2)))"

definition udp_available :: "'c cbuf \<Rightarrow> 'c udp \<Rightarrow> nat" where
  "udp_available C u = (case rx_buffer u of None \<Rightarrow> 0 | Some c \<Rightarrow> cb_available C c)"

definition keep_rest :: "'c cbuf \<Rightarrow> 'c \<Rightarrow> 'c udp \<Rightarrow> 'c udp" where
  "keep_rest C c u = u\<lparr>rx_buffer := (if cb_available C c = 0 then None else Some c)\<rparr>"

definition udp_getc :: "'c cbuf \<Rightarrow> 'c udp \<Rightarrow> int \<times> 'c udp" where
  "udp_getc C u =
     (case rx_buffer u of None \<Rightarrow> (-1, u) | Some c \<Rightarrow> (case cb_getc C c of (x, c1) \<Rightarrow> (x, keep_rest C c1 u)))"

definition udp_read :: "'c cbuf \<Rightarrow> nat \<Rightarrow> 'c udp \<Rightarrow> bytes \<times> 'c udp" where
  "udp_read C n u =
     (case rx_buffer u of None \<Rightarrow> ([], u) | Some c \<Rightarrow> (case cb_read C n c of (bs, c1) \<Rightarrow> (bs, keep_rest C c1 u)))"

definition udp_peek :: "'c cbuf \<Rightarrow> 'c udp \<Rightarrow> int" where
  "udp_peek C u = (case rx_buffer u of None \<Rightarrow> -1 | Some c \<Rightarrow> cb_peek C c)"

definition udp_flush :: "'c udp \<Rightarrow> 'c udp" where
  "udp_flush u = u\<lparr>rx_buffer := None\<rparr>"

section \<open>What is sent\<close>

text \<open>The datagrams of a long text: full ones, and a last one.\<close>

function packets :: "bytes \<Rightarrow> bytes list" where
  "packets bs = (if length bs \<le> tx_full then [bs] else take tx_full bs # packets (drop tx_full bs))"
  by pat_completeness auto
termination by (relation "measure length") (auto simp: tx_full_def)

declare packets.simps [simp del]

lemma concat_packets: "concat (packets bs) = bs"
  by (induction bs rule: packets.induct) (subst packets.simps, simp)

lemma packets_fit: "p \<in> set (packets bs) \<Longrightarrow> length p \<le> 1460"
  by (induction bs rule: packets.induct) (subst (asm) packets.simps, auto simp: tx_full_def split: if_splits)

text \<open>The stack keeps the datagrams it is given in order; \<open>sent\<close> names them.\<close>

definition sendto_law :: "'w udp_stack \<Rightarrow> ('w \<Rightarrow> (int \<times> bytes \<times> u32 \<times> u16) list) \<Rightarrow> bool" where
  "sendto_law S sent \<longleftrightarrow> (\<forall>n bs ip port w. sent (snd (us_sendto S n bs ip port w)) = sent w @ [(n, bs, ip, port)])"

lemma write_many_sends:
  assumes law: "sendto_law S sent"
  shows "tx_buffer u = Some b \<Longrightarrow> length b \<le> tx_full \<Longrightarrow>
    \<exists>u' w'. write_many S xs (u, w) = Return (u', w') \<and> udp_server u' = udp_server u \<and> remote_ip u' = remote_ip u \<and>
      remote_port u' = remote_port u \<and>
      sent w' @ [(udp_server u, the (tx_buffer u'), remote_ip u, remote_port u)] =
        sent w @ map (\<lambda>p. (udp_server u, p, remote_ip u, remote_port u)) (packets (b @ xs)) \<and> tx_buffer u' \<noteq> None"
proof (induction xs arbitrary: u w b)
  case Nil
  then show ?case by (simp add: packets.simps)
next
  case (Cons x xs)
  show ?case
  proof (cases "length b = tx_full")
    case False
    then have "write_one S x (u, w) = Return (u\<lparr>tx_buffer := Some (b @ [x])\<rparr>, w)"
      using Cons.prems(1) by (simp add: write_one_def)
    then show ?thesis using Cons.IH [of "u\<lparr>tx_buffer := Some (b @ [x])\<rparr>" "b @ [x]" w] False Cons.prems(2) by simp
  next
    case True
    obtain ok w1 where s: "us_sendto S (udp_server u) b (remote_ip u) (remote_port u) w = (ok, w1)" by fastforce
    have w1: "sent w1 = sent w @ [(udp_server u, b, remote_ip u, remote_port u)]"
      using law s unfolding sendto_law_def by (metis snd_conv)
    have "write_one S x (u, w) = Return (u\<lparr>tx_buffer := Some [x]\<rparr>, w1)"
      using Cons.prems(1) True s by (simp add: write_one_def endPacket_def)
    moreover have "packets (b @ x # xs) = b # packets (x # xs)"
      using True by (subst packets.simps) simp
    ultimately show ?thesis
      using Cons.IH [of "u\<lparr>tx_buffer := Some [x]\<rparr>" "[x]" w1] w1 by (simp add: tx_full_def)
  qed
qed

text \<open>C39. A packet that was begun, written in any number of calls and ended: what the stack is given is the
  written text, in order, in one datagram if it has at most 1460 bytes, and otherwise in full
  datagrams of 1460 bytes and a last one with the rest.\<close>

theorem packet_is_sent_in_pieces:
  assumes law: "sendto_law S sent" and b: "tx_buffer u = Some []" and e: "write_many S bs (u, w) = Return (u1, w1)"
    and l: "endPacket S (u1, w1) = (ok, u2, w2)"
  shows "sent w2 = sent w @ map (\<lambda>p. (udp_server u, p, remote_ip u, remote_port u)) (packets bs) \<and>
    concat (packets bs) = bs \<and> (\<forall>p\<in>set (packets bs). length p \<le> 1460) \<and> (length bs \<le> 1460 \<longrightarrow> packets bs = [bs])"
proof -
  obtain c where c: "tx_buffer u1 = Some c"
      "sent w1 @ [(udp_server u, c, remote_ip u, remote_port u)] =
        sent w @ map (\<lambda>p. (udp_server u, p, remote_ip u, remote_port u)) (packets bs)"
      "udp_server u1 = udp_server u" "remote_ip u1 = remote_ip u" "remote_port u1 = remote_port u"
    using write_many_sends [OF law b, of bs w] e by auto
  have "sent w2 = sent w1 @ [(udp_server u1, c, remote_ip u1, remote_port u1)]"
    using law l c(1) unfolding sendto_law_def endPacket_def by (auto split: prod.splits) (metis snd_conv)
  then show ?thesis
    using c(2-5) concat_packets packets_fit by (simp add: packets.simps [of bs] tx_full_def)
qed

definition keeping :: "(int \<times> bytes \<times> u32 \<times> u16) list udp_stack" where
  "keeping = \<lparr>us_would_block = (\<lambda>w. True), us_new = (\<lambda>w. (True, w)), us_socket = (\<lambda>w. (5, w)), us_reuse = (\<lambda>n w. (True, w)),
     us_bind = (\<lambda>n a p w. (True, w)), us_join = (\<lambda>n a w. (True, w)), us_drop = (\<lambda>n a w. w), us_close = (\<lambda>n w. w),
     us_sendto = (\<lambda>n bs ip port w. (True, w @ [(n, bs, ip, port)])), us_recvfrom = (\<lambda>n k w. (None, w)),
     us_host = (\<lambda>h w. (None, w))\<rparr>"

lemma packet_is_sent_in_pieces_witness:
  "write_many keeping ''portal'' (new_udp\<lparr>udp_server := 5, remote_port := 53, tx_buffer := Some []\<rparr> :: unit udp, []) =
     Return (new_udp\<lparr>udp_server := 5, remote_port := 53, tx_buffer := Some ''portal''\<rparr>, []) \<and>
   snd (snd (endPacket keeping (new_udp\<lparr>udp_server := 5, remote_port := 53, tx_buffer := Some ''portal''\<rparr> :: unit udp, []))) =
     [(5, ''portal'', 0, 53)] \<and> packets ''portal'' = [''portal'']"
proof -
  let ?u = "new_udp\<lparr>udp_server := 5, remote_port := 53, tx_buffer := Some []\<rparr> :: unit udp"
  let ?u1 = "new_udp\<lparr>udp_server := 5, remote_port := 53, tx_buffer := Some ''portal''\<rparr> :: unit udp"
  have law: "sendto_law keeping (\<lambda>w. w)" by (simp add: sendto_law_def keeping_def)
  have e: "write_many keeping ''portal'' (?u, []) = Return (?u1, [])" by (simp add: write_one_def tx_full_def)
  have l: "endPacket keeping (?u1, []) = (True, ?u1, [(5, ''portal'', 0, 53)])"
    by (simp add: endPacket_def keeping_def new_udp_def)
  have b: "tx_buffer ?u = Some []" by simp
  note r = packet_is_sent_in_pieces [OF law b e l]
  have p: "packets ''portal'' = [''portal'']" using r by simp
  have "snd (snd (endPacket keeping (?u1, []))) = [(5, ''portal'', 0, 53)]" unfolding l by simp
  with e p show ?thesis by blast
qed

section \<open>What is read\<close>

definition cbuf_law :: "'c cbuf \<Rightarrow> ('c \<Rightarrow> bytes) \<Rightarrow> bool" where
  "cbuf_law C content \<longleftrightarrow>
     (\<forall>bs. content (cb_write C bs (cb_new C (length bs))) = bs) \<and>
     (\<forall>c. cb_available C c = length (content c)) \<and>
     (\<forall>n c. fst (cb_read C n c) = take n (content c) \<and> content (snd (cb_read C n c)) = drop n (content c))"

definition unread :: "('c \<Rightarrow> bytes) \<Rightarrow> 'c udp \<Rightarrow> bytes" where
  "unread content u = (case rx_buffer u of None \<Rightarrow> [] | Some c \<Rightarrow> content c)"

lemma udp_read_in_order:
  assumes "cbuf_law C content" "udp_read C n u = (bs, u')"
  shows "unread content u = bs @ unread content u'" "bs = take n (unread content u)"
  using assms by (auto simp: cbuf_law_def udp_read_def unread_def keep_rest_def split: option.splits prod.splits if_splits)
    (metis append_take_drop_id fst_conv snd_conv append_Nil2)+

interpretation udp_stream: stream_reader "\<lambda>n u. case udp_read C n u of (bs, u1) \<Rightarrow> Some (length bs, bs, u1)" "unread content"
    "\<lambda>_. cbuf_law C content" "\<lambda>n (r, bs). r = length bs \<and> length bs \<le> n"
  for C :: "'c cbuf" and content :: "'c \<Rightarrow> bytes"
proof
  fix u :: "'c udp" and n
  assume law: "cbuf_law C content"
  obtain bs u1 where r: "udp_read C n u = (bs, u1)" by fastforce
  have front: "unread content u = bs @ unread content u1" by (rule udp_read_in_order(1) [OF law r])
  have "length bs \<le> n" using udp_read_in_order(2) [OF law r] by (metis length_take min.cobounded2)
  then show "\<exists>r bs t. (case udp_read C n u of (bs, u1) \<Rightarrow> Some (length bs, bs, u1)) = Some (r, bs, t) \<and> cbuf_law C content \<and>
      unread content u = bs @ unread content t \<and> (case (r, bs) of (r, bs) \<Rightarrow> r = length bs \<and> length bs \<le> n)"
    using law front r by (intro exI [of _ "length bs"] exI [of _ bs] exI [of _ u1]) simp
qed

text \<open>Whatever sizes it is read in, a datagram is read in order.\<close>

lemmas udp_reads_in_order = udp_stream.series_in_order

lemma packet_waits_for_the_last_one:
  "rx_buffer u \<noteq> None \<Longrightarrow> parsePacket S C (u, w) = (0, u, w)"
  by (simp add: parsePacket_def)

lemma packet_is_read:
  assumes "cbuf_law C content" "rx_buffer u = None" "us_new S w = (True, w1)" "us_recvfrom S (udp_server u) 1460 w1 = (Some (bs, ip, port), w2)"
  shows "\<exists>u'. parsePacket S C (u, w) = (length bs, u', w2) \<and> unread content u' = bs \<and> remote_ip u' = ip \<and> remote_port u' = port"
  using assms by (simp add: parsePacket_def unread_def cbuf_law_def)

end
