(* ===== verification/Wifi_Scan.thy ===== *)
theory Wifi_Scan
  imports Wifi_Driver
begin

text \<open>
  Looking for networks, \<open>WiFiScan.cpp\<close>, and choosing among known ones, \<open>WiFiMulti.cpp\<close>.  What the
  ESP-IDF finds and the clock are arguments.
\<close>

section \<open>The scan\<close>

record net_record =
  nr_ssid :: string
  nr_authmode :: nat
  nr_rssi :: int
  nr_bssid :: bytes
  nr_primary :: nat

definition WIFI_AUTH_OPEN :: nat where "WIFI_AUTH_OPEN = 0"
definition WIFI_SCAN_RUNNING :: int where "WIFI_SCAN_RUNNING = -1"
definition WIFI_SCAN_FAILED :: int where "WIFI_SCAN_FAILED = -2"

record 'f wifi_scanner =
  sc_wifi :: "'f wifi"
  sc_async :: bool
  sc_started :: u32
  sc_timeout :: u32
  sc_count :: nat
  sc_result :: "net_record list option"

definition new_scanner :: "'f wifi \<Rightarrow> 'f wifi_scanner" where
  "new_scanner w = \<lparr>sc_wifi = w, sc_async = False, sc_started = 0, sc_timeout = 10000, sc_count = 0, sc_result = None\<rparr>"

definition on_wifi :: "('f wifi \<Rightarrow> 'f wifi) \<Rightarrow> 'f wifi_scanner \<Rightarrow> 'f wifi_scanner" where
  "on_wifi f s = s\<lparr>sc_wifi := f (sc_wifi s)\<rparr>"

definition bit_set :: "u32 \<Rightarrow> 'f wifi_scanner \<Rightarrow> bool" where
  "bit_set b s \<longleftrightarrow> getStatusBits (sc_wifi s) AND b \<noteq> 0"

definition scanDelete :: "'f wifi_scanner \<Rightarrow> 'f wifi_scanner" where
  "scanDelete s =
     (let s1 = on_wifi (clearStatusBits WIFI_SCAN_DONE_BIT) s
      in if sc_result s1 \<noteq> None then s1\<lparr>sc_result := None, sc_count := 0\<rparr> else s1)"

text \<open>
  The end of a scan: the number of networks, whether there is memory for them, and the records, or
  none when they cannot be had; then the memory that was allocated stays empty.
\<close>

record scan_answer =
  sa_num :: nat
  sa_new :: bool
  sa_records :: "net_record list option"

definition scanDone :: "scan_answer \<Rightarrow> 'f wifi_scanner \<Rightarrow> 'f wifi_scanner" where
  "scanDone a s =
     (let s1 = s\<lparr>sc_count := sa_num a\<rparr>;
          s2 = (if sc_count s1 = 0 then s1
                else if \<not> sa_new a then s1\<lparr>sc_result := None, sc_count := 0\<rparr>
                else case sa_records a of
                    None \<Rightarrow> s1\<lparr>sc_result := Some [], sc_count := 0\<rparr>
                  | Some rs \<Rightarrow> s1\<lparr>sc_result := Some rs, sc_count := length rs\<rparr>)
      in on_wifi (clearStatusBits WIFI_SCANNING_BIT) (on_wifi (setStatusBits WIFI_SCAN_DONE_BIT) (s2\<lparr>sc_started := 0\<rparr>)))"

text \<open>
  Starting a scan: whether the driver starts it, the time, and, for a scan that is waited for, what
  arrives within ten seconds.  The number of networks is returned as a signed 16-bit number.
\<close>

record scan_env =
  se_esp :: esp
  se_start :: bool
  se_now :: u32
  se_arrives :: "scan_answer option"

definition scanNetworks :: "scan_env \<Rightarrow> bool \<Rightarrow> u32 \<Rightarrow> 'f wifi_scanner \<Rightarrow> int \<times> 'f wifi_scanner" where
  "scanNetworks E async max_ms_per_chan s =
     (if bit_set WIFI_SCANNING_BIT s then (WIFI_SCAN_RUNNING, s)
      else
        let s1 = s\<lparr>sc_timeout := max_ms_per_chan * 20, sc_async := async\<rparr>;
            s2 = scanDelete (on_wifi (\<lambda>w. snd (enableSTA (se_esp E) True w)) s1)
        in if \<not> se_start E then (WIFI_SCAN_FAILED, s2)
           else
             let s3 = s2\<lparr>sc_started := (if se_now E = 0 then 1 else se_now E)\<rparr>;
                 s4 = on_wifi (setStatusBits WIFI_SCANNING_BIT) (on_wifi (clearStatusBits WIFI_SCAN_DONE_BIT) s3)
             in if sc_async s4 then (WIFI_SCAN_RUNNING, s4)
                else
                  let s5 = (case se_arrives E of None \<Rightarrow> s4 | Some a \<Rightarrow> scanDone a s4)
                  in if bit_set WIFI_SCAN_DONE_BIT s5 then (sint (word_of_nat (sc_count s5) :: u16), s5)
                     else (WIFI_SCAN_FAILED, s5))"

definition scanComplete :: "u32 \<Rightarrow> 'f wifi_scanner \<Rightarrow> int \<times> 'f wifi_scanner" where
  "scanComplete now s =
     (if sc_started s \<noteq> 0 \<and> sc_timeout s < now - sc_started s
      then (WIFI_SCAN_FAILED, on_wifi (clearStatusBits WIFI_SCANNING_BIT) s)
      else if bit_set WIFI_SCAN_DONE_BIT s then (sint (word_of_nat (sc_count s) :: u16), s)
      else if bit_set WIFI_SCANNING_BIT s then (WIFI_SCAN_RUNNING, s)
      else (WIFI_SCAN_FAILED, s))"

section \<open>What was found\<close>

definition getScanInfoByIndex :: "nat \<Rightarrow> 'f wifi_scanner \<Rightarrow> net_record option" where
  "getScanInfoByIndex i s =
     (case sc_result s of None \<Rightarrow> None | Some rs \<Rightarrow> if sc_count s \<le> i then None else Some (rs ! i))"

text \<open>The index of the queries is one byte.\<close>

definition scan_item :: "u8 \<Rightarrow> 'f wifi_scanner \<Rightarrow> net_record option" where
  "scan_item i = getScanInfoByIndex (unat i)"

definition found :: "u8 \<Rightarrow> (net_record \<Rightarrow> 'a) \<Rightarrow> 'a \<Rightarrow> 'f wifi_scanner \<Rightarrow> 'a" where
  "found i f none s = (case scan_item i s of None \<Rightarrow> none | Some r \<Rightarrow> f r)"

definition getNetworkInfo :: "u8 \<Rightarrow> 'f wifi_scanner \<Rightarrow> (string \<times> nat \<times> int \<times> bytes \<times> nat) option" where
  "getNetworkInfo i s =
     map_option (\<lambda>r. (cstr (nr_ssid r), nr_authmode r, nr_rssi r, nr_bssid r, nr_primary r)) (scan_item i s)"

definition scan_SSID :: "u8 \<Rightarrow> 'f wifi_scanner \<Rightarrow> string" where "scan_SSID i = found i (\<lambda>r. cstr (nr_ssid r)) []"
definition encryptionType :: "u8 \<Rightarrow> 'f wifi_scanner \<Rightarrow> nat" where "encryptionType i = found i nr_authmode WIFI_AUTH_OPEN"
definition scan_RSSI :: "u8 \<Rightarrow> 'f wifi_scanner \<Rightarrow> int" where "scan_RSSI i = found i nr_rssi 0"
definition scan_BSSID :: "u8 \<Rightarrow> 'f wifi_scanner \<Rightarrow> bytes option" where "scan_BSSID i = found i (\<lambda>r. Some (nr_bssid r)) None"
definition scan_channel :: "u8 \<Rightarrow> 'f wifi_scanner \<Rightarrow> nat" where "scan_channel i = found i nr_primary 0"

definition mac_text :: "bytes \<Rightarrow> string" where
  "mac_text mac =
     (let byte = (\<lambda>i. let n = of_char (mac ! i) in [hex_digit (n div 16), hex_digit (n mod 16)])
      in byte 0 @ '':'' @ byte 1 @ '':'' @ byte 2 @ '':'' @ byte 3 @ '':'' @ byte 4 @ '':'' @ byte 5)"

definition scan_BSSIDstr :: "u8 \<Rightarrow> 'f wifi_scanner \<Rightarrow> string" where
  "scan_BSSIDstr i = found i (\<lambda>r. mac_text (nr_bssid r)) []"

section \<open>Known networks\<close>

record ap_entry =
  ae_ssid :: string
  ae_pass :: "string option"

text \<open>\<open>None\<close> is a null pointer; the memory for the copies is there.\<close>

definition addAP :: "string option \<Rightarrow> string option \<Rightarrow> ap_entry list \<Rightarrow> bool \<times> ap_entry list" where
  "addAP ssid pass es =
     (case ssid of
        None \<Rightarrow> (False, es)
      | Some n \<Rightarrow>
          if cstr n = [] \<or> 31 < length (cstr n) then (False, es)
          else if (case pass of None \<Rightarrow> False | Some p \<Rightarrow> 63 < length (cstr p)) then (False, es)
          else (True, es @ [\<lparr>ae_ssid = cstr n,
                 ae_pass = (case pass of None \<Rightarrow> None | Some p \<Rightarrow> if cstr p = [] then None else Some (cstr p))\<rparr>]))"

text \<open>The first entry of the name; a network that is not open needs a passphrase.\<close>

definition entry_for :: "ap_entry list \<Rightarrow> net_record \<Rightarrow> ap_entry option" where
  "entry_for es r = find (\<lambda>e. cstr (nr_ssid r) = ae_ssid e) es"

definition usable :: "ap_entry list \<Rightarrow> net_record \<Rightarrow> bool" where
  "usable es r = (case entry_for es r of None \<Rightarrow> False | Some e \<Rightarrow> nr_authmode r = WIFI_AUTH_OPEN \<or> ae_pass e \<noteq> None)"

definition INT_MIN :: int where "INT_MIN = -2147483648"

definition better :: "ap_entry list \<Rightarrow> net_record \<Rightarrow> (ap_entry \<times> net_record) option \<times> int \<Rightarrow> (ap_entry \<times> net_record) option \<times> int" where
  "better es r = (\<lambda>(best, db).
     case entry_for es r of
       None \<Rightarrow> (best, db)
     | Some e \<Rightarrow>
         if db < nr_rssi r \<and> (nr_authmode r = WIFI_AUTH_OPEN \<or> ae_pass e \<noteq> None)
         then (Some (e, r), nr_rssi r) else (best, db))"

definition best_network :: "ap_entry list \<Rightarrow> net_record list \<Rightarrow> (ap_entry \<times> net_record) option" where
  "best_network es rs = fst (fold (better es) rs (None, INT_MIN))"

text \<open>Waiting for the connection: each turn with the time since the start and the next status; \<open>None\<close> is a wait without end.\<close>

fun multi_wait :: "u32 \<Rightarrow> nat \<Rightarrow> (u32 \<times> nat) list \<Rightarrow> nat option" where
  "multi_wait limit status [] =
     (if status = wl_code WL_CONNECTED_STATUS \<or> status = wl_code WL_NO_SSID_AVAIL \<or> status = wl_code WL_CONNECT_FAILED
      then Some status else None)"
| "multi_wait limit status ((elapsed, next) # later) =
     (if status = wl_code WL_CONNECTED_STATUS \<or> status = wl_code WL_NO_SSID_AVAIL \<or> status = wl_code WL_CONNECT_FAILED \<or> limit < elapsed
      then Some status else multi_wait limit next later)"

datatype multi_call = Multi_disconnect | Multi_scan bool | Multi_delete | Multi_begin string "string option" nat bytes

text \<open>
  The surroundings of a run: the status and the name of the network at first, the status after a
  disconnection, the answer of the scan with its records, the status after \<open>begin\<close> and while
  waiting.  The answer of the scan is kept in eight bits.
\<close>

record multi_env =
  me_status :: nat
  me_ssid :: string
  me_after :: nat
  me_scan :: int
  me_records :: "net_record list"
  me_begun :: nat
  me_wait :: "(u32 \<times> nat) list"

definition multi_run :: "multi_env \<Rightarrow> ap_entry list \<Rightarrow> u32 \<Rightarrow> (nat \<times> multi_call list) option" where
  "multi_run E es limit =
     (let up = (me_status E = wl_code WL_CONNECTED_STATUS) in
      if up \<and> (\<exists>e\<in>set es. me_ssid E = ae_ssid e) then Some (me_status E, [])
      else
        let (status, cs) = (if up then (me_after E, [Multi_disconnect]) else (me_status E, []));
            scanResult = sint (word_of_int (me_scan E) :: u8);
            cs1 = cs @ [Multi_scan False]
        in if scanResult = WIFI_SCAN_RUNNING then Some (wl_code WL_NO_SSID_AVAIL, cs1)
           else if scanResult < 0 then Some (status, cs1 @ [Multi_disconnect, Multi_scan True])
           else case best_network es (take (nat scanResult) (me_records E)) of
               None \<Rightarrow> Some (status, cs1 @ [Multi_delete])
             | Some (e, r) \<Rightarrow>
                 map_option (\<lambda>st. (st, cs1 @ [Multi_delete, Multi_begin (ae_ssid e) (ae_pass e) (nr_primary r) (nr_bssid r)]))
                   (multi_wait limit (me_begun E) (me_wait E)))"

section \<open>The choice\<close>

definition best_so_far :: "ap_entry list \<Rightarrow> net_record set \<Rightarrow> (ap_entry \<times> net_record) option \<times> int \<Rightarrow> bool" where
  "best_so_far es R = (\<lambda>(best, db).
     (\<forall>r\<in>R. usable es r \<longrightarrow> nr_rssi r \<le> db) \<and>
     (case best of
        None \<Rightarrow> db = INT_MIN \<and> \<not> (\<exists>r\<in>R. usable es r)
      | Some (e, r) \<Rightarrow> r \<in> R \<and> usable es r \<and> entry_for es r = Some e \<and> db = nr_rssi r))"

lemma best_so_far_insert:
  "best_so_far es (insert r R) (best, db) \<longleftrightarrow>
     (\<forall>r'\<in>R. usable es r' \<longrightarrow> nr_rssi r' \<le> db) \<and> (usable es r \<longrightarrow> nr_rssi r \<le> db) \<and>
     (case best of
        None \<Rightarrow> db = INT_MIN \<and> \<not> (\<exists>r\<in>R. usable es r) \<and> \<not> usable es r
      | Some (e, r') \<Rightarrow> (r' = r \<or> r' \<in> R) \<and> usable es r' \<and> entry_for es r' = Some e \<and> db = nr_rssi r')"
  by (cases best) (auto simp: best_so_far_def)

lemma better_keeps:
  assumes "best_so_far es R x" "INT_MIN < nr_rssi r"
  shows "best_so_far es (insert r R) (better es r x)"
proof -
  obtain best db where x: "x = (best, db)" by (cases x)
  have so_far: "best_so_far es R (best, db)" using assms(1) unfolding x .
  have stays: "best_so_far es (insert r R) (best, db)" if "usable es r \<longrightarrow> nr_rssi r \<le> db \<and> best \<noteq> None"
    using so_far that unfolding best_so_far_insert best_so_far_def by (cases best) auto
  have none: "best \<noteq> None" if "nr_rssi r \<le> db"
    using so_far assms(2) that unfolding best_so_far_def by (cases best) auto
  show ?thesis
  proof (cases "usable es r \<and> db < nr_rssi r")
    case True
    then obtain e where e: "entry_for es r = Some e" "nr_authmode r = WIFI_AUTH_OPEN \<or> ae_pass e \<noteq> None"
      by (auto simp: usable_def split: option.splits)
    have "better es r x = (Some (e, r), nr_rssi r)" using True e by (simp add: x better_def)
    moreover have "\<forall>r'\<in>R. usable es r' \<longrightarrow> nr_rssi r' \<le> nr_rssi r"
      using so_far True unfolding best_so_far_def by fastforce
    ultimately show ?thesis using True e by (simp add: best_so_far_insert)
  next
    case False
    then have "better es r x = (best, db)" by (auto simp: x better_def usable_def split: option.splits)
    then show ?thesis using stays none False by (auto simp: not_less)
  qed
qed

lemma fold_better_keeps:
  "best_so_far es R x \<Longrightarrow> \<forall>r\<in>set rs. INT_MIN < nr_rssi r \<Longrightarrow> best_so_far es (R \<union> set rs) (fold (better es) rs x)"
proof (induction rs arbitrary: R x)
  case Nil
  then show ?case by simp
next
  case (Cons r rs)
  then show ?case using Cons.IH [OF better_keeps [OF Cons.prems(1), of r]] by simp
qed

text \<open>
  The network that is chosen was found, is known and may be used, and no other such network is
  stronger; none is chosen only if there is none.
\<close>

lemma best_network_spec:
  assumes "\<forall>r\<in>set rs. INT_MIN < nr_rssi r"
  shows "case best_network es rs of
      None \<Rightarrow> \<not> (\<exists>r\<in>set rs. usable es r)
    | Some (e, r) \<Rightarrow> r \<in> set rs \<and> usable es r \<and> entry_for es r = Some e \<and> (\<forall>r'\<in>set rs. usable es r' \<longrightarrow> nr_rssi r' \<le> nr_rssi r)"
proof -
  have "best_so_far es {} (None, INT_MIN)" by (simp add: best_so_far_def)
  from fold_better_keeps [OF this assms] show ?thesis
    by (cases "fold (better es) rs (None, INT_MIN)") (auto simp: best_network_def best_so_far_def split: option.splits)
qed

text \<open>More than 127 networks are taken for a failed scan.\<close>

lemma many_networks_are_a_failure:
  assumes "me_status E \<noteq> wl_code WL_CONNECTED_STATUS" "me_scan E = 200"
  shows "multi_run E es limit = Some (me_status E, [Multi_scan False, Multi_disconnect, Multi_scan True])"
  using assms by (simp add: multi_run_def WIFI_SCAN_RUNNING_def)

section \<open>A scan that is not heard of\<close>

text \<open>
  A scan that was waited for in vain is still taken to be running, until its time is asked about.
\<close>

lemma lost_scan_blocks:
  assumes "bit_set WIFI_SCANNING_BIT s"
  shows "scanNetworks E async ms s = (WIFI_SCAN_RUNNING, s)"
  using assms by (simp add: scanNetworks_def)

end
