(* ===== verification/Wifi_Queries.thy ===== *)
theory Wifi_Queries
  imports Wifi_Scan
begin

text \<open>
  The rest of the WiFi library: the resolver and the radio of \<open>WiFiGeneric.cpp\<close>, the queries of
  \<open>WiFiSTA.cpp\<close> and \<open>WiFiAP.cpp\<close>, SmartConfig, and the dump of \<open>WiFi.cpp\<close>.  What the ESP-IDF
  answers is an argument of each query.
\<close>

section \<open>Waiting for status bits\<close>

abbreviation "WIFI_DNS_DONE_BIT \<equiv> wifi_bit 14"

text \<open>
  The wait ends at once when all bits are set or there is no event group; otherwise the other tasks
  run, \<open>arrives\<close>, until the bits are set or the time is over.
\<close>

definition waits :: "u32 \<Rightarrow> 'f wifi \<Rightarrow> bool" where
  "waits bits w \<longleftrightarrow> w_group w \<and> w_bits w AND bits \<noteq> bits"

definition waitStatusBits :: "u32 \<Rightarrow> ('f wifi \<Rightarrow> 'f wifi) \<Rightarrow> 'f wifi \<Rightarrow> u32 \<times> 'f wifi" where
  "waitStatusBits bits arrives w =
     (let w1 = (if waits bits w then arrives w else w) in (getStatusBits w1 AND bits, w1))"

section \<open>The resolver\<close>

text \<open>
  \<open>dns_gethostbyname\<close> knows the address, fails, or asks: then the callback comes, within the four
  seconds or later, with an address or with none.
\<close>

datatype dns_reply = Dns_known u32 | Dns_failed | Dns_asked bool "u32 option"

text \<open>The result variable of the caller and the library; a callback that comes late finds the variable gone.\<close>

definition wifi_dns_found_callback :: "u32 option \<Rightarrow> u32 \<times> 'f wifi \<Rightarrow> u32 \<times> 'f wifi" where
  "wifi_dns_found_callback ipaddr s =
     ((case ipaddr of None \<Rightarrow> fst s | Some a \<Rightarrow> a), setStatusBits WIFI_DNS_DONE_BIT (snd s))"

definition late_callback :: "'f wifi \<Rightarrow> 'f wifi" where
  "late_callback w = snd (wifi_dns_found_callback None (0, w))"

text \<open>Waiting for the answer: what the result holds then, the library, and whether the callback is still to come.\<close>

definition dns_wait :: "bool \<Rightarrow> u32 option \<Rightarrow> 'f wifi \<Rightarrow> (u32 \<times> 'f wifi) \<times> bool" where
  "dns_wait in_time ipaddr w =
     (if waits WIFI_DNS_DONE_BIT w \<and> in_time then (wifi_dns_found_callback ipaddr (0, w), False) else ((0, w), True))"

definition hostByName :: "('f wifi \<Rightarrow> 'f wifi) \<Rightarrow> dns_reply \<Rightarrow> 'f wifi \<Rightarrow> (bool \<times> u32) \<times> 'f wifi \<times> bool" where
  "hostByName idle ans w =
     (let w1 = clearStatusBits WIFI_DNS_IDLE_BIT (snd (waitStatusBits WIFI_DNS_IDLE_BIT idle w));
          ((a, w2), pending) =
            (case ans of
               Dns_known ip \<Rightarrow> ((ip, w1), False)
             | Dns_failed \<Rightarrow> ((0, w1), False)
             | Dns_asked in_time ipaddr \<Rightarrow>
                 (case dns_wait in_time ipaddr w1 of
                    ((r, w2), p) \<Rightarrow> ((r, clearStatusBits WIFI_DNS_DONE_BIT w2), p)))
      in ((a \<noteq> 0, a), setStatusBits WIFI_DNS_IDLE_BIT w2, pending))"

section \<open>The radio\<close>

definition wifi_channel :: "u8 \<Rightarrow> 'f wifi \<Rightarrow> nat" where
  "wifi_channel primaryChan w = (if \<not> w_init w then 0 else unat primaryChan)"

definition persistent :: "bool \<Rightarrow> 'f wifi \<Rightarrow> 'f wifi" where
  "persistent b w = w\<lparr>w_persistent := b\<rparr>"

text \<open>The power saving mode the ESP-IDF reports, if it answers.\<close>

definition WIFI_PS_MIN_MODEM :: nat where "WIFI_PS_MIN_MODEM = 1"

definition getSleep :: "nat option \<Rightarrow> 'f wifi \<Rightarrow> bool" where
  "getSleep ps w = (if getMode w AND WIFI_MODE_STA = 0 then False else ps = Some WIFI_PS_MIN_MODEM)"

definition WIFI_POWER_19_5dBm :: int where "WIFI_POWER_19_5dBm = 78"

definition radio_started :: "'f wifi \<Rightarrow> bool" where
  "radio_started w \<longleftrightarrow> getStatusBits w AND (STA_STARTED_BIT OR AP_STARTED_BIT) \<noteq> 0"

text \<open>The answer, and the power the radio is told.\<close>

definition setTxPower :: "bool \<Rightarrow> int \<Rightarrow> 'f wifi \<Rightarrow> bool \<times> int option" where
  "setTxPower ok p w = (if \<not> radio_started w then (False, None) else (ok, Some p))"

definition getTxPower :: "int option \<Rightarrow> 'f wifi \<Rightarrow> int" where
  "getTxPower reported w =
     (if \<not> radio_started w then WIFI_POWER_19_5dBm else case reported of None \<Rightarrow> WIFI_POWER_19_5dBm | Some p \<Rightarrow> p)"

section \<open>Queries of the station\<close>

record ip_info =
  ii_ip :: u32
  ii_netmask :: u32
  ii_gw :: u32

text \<open>Most queries answer something fixed while the library is stopped.\<close>

definition when_on :: "'a \<Rightarrow> 'a \<Rightarrow> 'f wifi \<Rightarrow> 'a" where
  "when_on off answer w = (if getMode w = WIFI_MODE_NULL then off else answer)"

definition sta_isConnected :: "'f wifi \<Rightarrow> bool" where
  "sta_isConnected w \<longleftrightarrow> w_status w = WL_CONNECTED_STATUS"

definition getAutoConnect :: "'f wifi \<Rightarrow> bool" where "getAutoConnect w = False"
definition getAutoReconnect :: "'f wifi \<Rightarrow> bool" where "getAutoReconnect w = w_auto_reconnect w"

text \<open>
  Waiting for a result: \<open>status ()\<close> is called up to twice in a turn and once behind it; \<open>st k\<close> is
  what its \<open>k\<close>-th call answers.
\<close>

primrec wait_result :: "(nat \<Rightarrow> nat) \<Rightarrow> nat \<Rightarrow> nat \<Rightarrow> nat" where
  "wait_result st 0 k =
     (if st k = 0 then st (k + 1) else st (k + 2))"
| "wait_result st (Suc n) k =
     (if st k = 0 then wait_result st n (k + 1)
      else if wl_code WL_DISCONNECTED \<le> st (k + 1) then wait_result st n (k + 2)
      else st (k + 2))"

definition waitForConnectResult :: "(nat \<Rightarrow> nat) \<Rightarrow> 'f wifi \<Rightarrow> nat" where
  "waitForConnectResult st w =
     (if getMode w AND WIFI_MODE_STA = 0 then wl_code WL_DISCONNECTED else wait_result st 100 0)"

definition sta_localIP :: "ip_info \<Rightarrow> 'f wifi \<Rightarrow> u32" where "sta_localIP i = when_on 0 (ii_ip i)"
definition sta_subnetMask :: "ip_info \<Rightarrow> 'f wifi \<Rightarrow> u32" where "sta_subnetMask i = when_on 0 (ii_netmask i)"
definition sta_gatewayIP :: "ip_info \<Rightarrow> 'f wifi \<Rightarrow> u32" where "sta_gatewayIP i = when_on 0 (ii_gw i)"
definition sta_dnsIP :: "(u8 \<Rightarrow> u32) \<Rightarrow> u8 \<Rightarrow> 'f wifi \<Rightarrow> u32" where "sta_dnsIP servers n = when_on 0 (servers n)"

definition sta_broadcastIP :: "ip_info \<Rightarrow> 'f wifi \<Rightarrow> u32" where
  "sta_broadcastIP i = when_on 0 (calculateBroadcast (ii_gw i) (ii_netmask i))"

definition sta_networkID :: "ip_info \<Rightarrow> 'f wifi \<Rightarrow> u32" where
  "sta_networkID i = when_on 0 (calculateNetworkID (ii_gw i) (ii_netmask i))"

definition sta_subnetCIDR :: "ip_info \<Rightarrow> 'f wifi \<Rightarrow> nat" where
  "sta_subnetCIDR i = when_on 0 (calculateSubnetCIDR (ii_netmask i))"

text \<open>The address in the fuses while stopped, that of the driver otherwise.\<close>

definition sta_macAddress :: "bytes \<Rightarrow> bytes \<Rightarrow> 'f wifi \<Rightarrow> bytes" where
  "sta_macAddress fuses driver = when_on fuses driver"

definition sta_macAddress_text :: "bytes \<Rightarrow> bytes \<Rightarrow> 'f wifi \<Rightarrow> string" where
  "sta_macAddress_text fuses driver w = mac_text (when_on fuses driver w)"

text \<open>The access point the station is connected to, if the ESP-IDF answers.\<close>

definition of_ap :: "'a \<Rightarrow> (net_record \<Rightarrow> 'a) \<Rightarrow> net_record option \<Rightarrow> 'f wifi \<Rightarrow> 'a" where
  "of_ap none f ap = when_on none (case ap of None \<Rightarrow> none | Some r \<Rightarrow> f r)"

definition sta_SSID :: "net_record option \<Rightarrow> 'f wifi \<Rightarrow> string" where "sta_SSID = of_ap [] (\<lambda>r. cstr (nr_ssid r))"
definition sta_BSSID :: "net_record option \<Rightarrow> 'f wifi \<Rightarrow> bytes option" where "sta_BSSID = of_ap None (\<lambda>r. Some (take 6 (nr_bssid r)))"
definition sta_RSSI :: "net_record option \<Rightarrow> 'f wifi \<Rightarrow> int" where "sta_RSSI = of_ap 0 nr_rssi"

definition sta_BSSIDstr :: "net_record option \<Rightarrow> 'f wifi \<Rightarrow> string" where
  "sta_BSSIDstr ap w = (case sta_BSSID ap w of None \<Rightarrow> [] | Some b \<Rightarrow> mac_text b)"

definition sta_psk :: "sta_config \<Rightarrow> 'f wifi \<Rightarrow> string" where "sta_psk conf = when_on [] (cstr (st_password conf))"

definition sta_getHostname :: "string option \<Rightarrow> 'f wifi \<Rightarrow> string option" where "sta_getHostname h = when_on None h"

text \<open>The answer, and the name the adapter is told.\<close>

definition sta_setHostname :: "bool \<Rightarrow> string \<Rightarrow> 'f wifi \<Rightarrow> bool \<times> string option" where
  "sta_setHostname ok hostname = when_on (False, None) (ok, Some hostname)"

definition sta_enableIpV6 :: "bool \<Rightarrow> 'f wifi \<Rightarrow> bool" where "sta_enableIpV6 ok = when_on False ok"

text \<open>\<open>None\<close> is the empty address.\<close>

definition sta_localIPv6 :: "u32 list option \<Rightarrow> 'f wifi \<Rightarrow> u32 list option" where "sta_localIPv6 a = when_on None a"

section \<open>Queries of the access point\<close>

definition softAPgetStationNum :: "u8 option \<Rightarrow> 'f wifi \<Rightarrow> nat" where
  "softAPgetStationNum clients = when_on 0 (case clients of None \<Rightarrow> 0 | Some n \<Rightarrow> unat n)"

definition softAPIP :: "ip_info \<Rightarrow> 'f wifi \<Rightarrow> u32" where "softAPIP i = when_on 0 (ii_ip i)"

text \<open>While the library is stopped the buffer of the caller stays as it is.\<close>

definition softAPmacAddress :: "bytes \<Rightarrow> bytes \<Rightarrow> 'f wifi \<Rightarrow> bytes" where
  "softAPmacAddress driver buffer = when_on buffer driver"

definition softAPmacAddress_text :: "bytes \<Rightarrow> 'f wifi \<Rightarrow> string" where
  "softAPmacAddress_text driver = when_on [] (mac_text driver)"

definition softAPgetHostname :: "string option \<Rightarrow> 'f wifi \<Rightarrow> string option" where "softAPgetHostname h = when_on None h"

definition softAPsetHostname :: "bool \<Rightarrow> string \<Rightarrow> 'f wifi \<Rightarrow> bool \<times> string option" where
  "softAPsetHostname ok hostname = when_on (False, None) (ok, Some hostname)"

definition softAPenableIpV6 :: "bool \<Rightarrow> 'f wifi \<Rightarrow> bool" where "softAPenableIpV6 ok = when_on False ok"

definition softAPIPv6 :: "u32 list option \<Rightarrow> 'f wifi \<Rightarrow> u32 list option" where "softAPIPv6 a = when_on None a"

section \<open>SmartConfig\<close>

record 'f smart =
  sm_wifi :: "'f wifi"
  sm_started :: bool
  sm_done :: bool

definition beginSmartConfig :: "esp \<Rightarrow> bool \<Rightarrow> 'f smart \<Rightarrow> bool \<times> 'f smart" where
  "beginSmartConfig E ok s =
     (if sm_started s then (False, s)
      else (case wifi_mode E WIFI_MODE_STA (sm_wifi s) of
          (False, w) \<Rightarrow> (False, s\<lparr>sm_wifi := w\<rparr>)
        | (True, w) \<Rightarrow>
            let s1 = s\<lparr>sm_wifi := tell [Esp_disconnect] w\<rparr>
            in if ok then (True, s1\<lparr>sm_started := True, sm_done := False\<rparr>) else (False, s1)))"

definition stopSmartConfig :: "bool \<Rightarrow> 'f smart \<Rightarrow> bool \<times> 'f smart" where
  "stopSmartConfig ok s =
     (if \<not> sm_started s then (True, s) else if ok then (True, s\<lparr>sm_started := False\<rparr>) else (False, s))"

definition smartConfigDone :: "'f smart \<Rightarrow> bool" where
  "smartConfigDone s = (if \<not> sm_started s then False else sm_done s)"

datatype smart_status = SC_WAIT | SC_FIND_CHANNEL | SC_GETTING_SSID_PSWD | SC_LINK sta_config | SC_LINK_OVER bool

text \<open>At its end SmartConfig is stopped; the truth value is the answer of the ESP-IDF to that.\<close>

definition smartConfigCallback :: "smart_status \<Rightarrow> 'f smart \<Rightarrow> 'f smart" where
  "smartConfigCallback st s =
     (case st of
        SC_LINK conf \<Rightarrow>
          s\<lparr>sm_wifi := tell [Esp_sta_config (conf\<lparr>st_bssid := None\<rparr>), Esp_connect] (sm_wifi s), sm_done := True\<rparr>
      | SC_LINK_OVER ok \<Rightarrow> snd (stopSmartConfig ok s)
      | _ \<Rightarrow> s)"

section \<open>The dump\<close>

text \<open>What is printed of the mode, the channel and the configuration; the library has four modes.\<close>

definition mode_name :: "nat \<Rightarrow> string" where
  "mode_name m = [''NULL'', ''STA'', ''AP'', ''STA+AP''] ! m"

definition printDiag :: "nat \<Rightarrow> u8 \<Rightarrow> sta_config \<Rightarrow> string list" where
  "printDiag mode primaryChan conf =
     [''Mode: '' @ mode_name mode,
      ''Channel: '' @ dec (unat primaryChan),
      ''SSID ('' @ dec (length (cstr (st_ssid conf))) @ ''): '' @ cstr (st_ssid conf),
      ''Passphrase ('' @ dec (length (cstr (st_password conf))) @ ''): '' @ cstr (st_password conf),
      ''BSSID set: '' @ dec (if st_bssid conf = None then 0 else 1)]"

section \<open>Network masks\<close>

lemma bit_octetwise:
  assumes "\<And>x y n. bit (f x y :: u8) n \<longleftrightarrow> n < 8 \<and> g (bit x n) (bit y n)"
  shows "bit (octetwise f x y) n \<longleftrightarrow> n < 32 \<and> g (bit x n) (bit y n)"
proof -
  consider "n < 8" | "8 \<le> n" "n < 16" | "16 \<le> n" "n < 24" | "24 \<le> n" "n < 32" | "32 \<le> n" by linarith
  then show ?thesis
    by cases (simp_all add: octetwise_def from_octets_def octet_def assms bit_or_iff bit_push_bit_iff bit_unsigned_iff bit_drop_bit_eq
        less_diff_conv2)
qed

text \<open>Octet by octet or on the number as a whole.\<close>

lemma calculateNetworkID_eq: "calculateNetworkID ip subnet = subnet AND ip"
proof (rule bit_word_eqI)
  fix n
  assume "n < LENGTH(32)"
  moreover have "bit (octetwise (\<lambda>i s. s AND i) ip subnet) n \<longleftrightarrow> n < 32 \<and> (bit subnet n \<and> bit ip n)"
    by (rule bit_octetwise [where g = "\<lambda>i s. s \<and> i"]) (auto simp: bit_and_iff dest: bit_imp_le_length)
  ultimately show "bit (calculateNetworkID ip subnet) n \<longleftrightarrow> bit (subnet AND ip) n"
    by (simp add: calculateNetworkID_def bit_and_iff)
qed

lemma calculateBroadcast_eq: "calculateBroadcast ip subnet = NOT subnet OR ip"
proof (rule bit_word_eqI)
  fix n
  assume "n < LENGTH(32)"
  moreover have "bit (octetwise (\<lambda>i s. NOT s OR i) ip subnet) n \<longleftrightarrow> n < 32 \<and> (\<not> bit subnet n \<or> bit ip n)"
    by (rule bit_octetwise [where g = "\<lambda>i s. \<not> s \<or> i"])
      (auto simp: bit_or_iff bit_not_iff dest: bit_imp_le_length)
  ultimately show "bit (calculateBroadcast ip subnet) n \<longleftrightarrow> bit (NOT subnet OR ip) n"
    by (simp add: calculateBroadcast_def bit_or_iff bit_not_iff)
qed

text \<open>A mask of \<open>n\<close> ones, the first octet in the lowest byte.\<close>

definition mask_octet :: "nat \<Rightarrow> u8" where
  "mask_octet k = word_of_nat (256 - 2 ^ (8 - k))"

definition prefix_mask :: "nat \<Rightarrow> u32" where
  "prefix_mask n =
     from_octets (mask_octet (min 8 n)) (mask_octet (min 8 (n - 8))) (mask_octet (min 8 (n - 16))) (mask_octet (min 8 (n - 24)))"

lemma octet_from_octets:
  "octet (from_octets a b c d) 0 = a" "octet (from_octets a b c d) (Suc 0) = b"
  "octet (from_octets a b c d) 2 = c" "octet (from_octets a b c d) 3 = d"
  by (rule bit_word_eqI, auto simp: octet_def from_octets_def bit_or_iff bit_push_bit_iff bit_unsigned_iff bit_drop_bit_eq
      dest: bit_imp_le_length)+

lemma octet_bits_mask: "k \<le> 8 \<Longrightarrow> octet_bits (mask_octet k) = k"
proof -
  assume "k \<le> 8"
  then consider "k = 0" | "k = 1" | "k = 2" | "k = 3" | "k = 4" | "k = 5" | "k = 6" | "k = 7" | "k = 8" by linarith
  then show ?thesis by cases (simp_all add: mask_octet_def octet_bits_def)
qed

lemma subnetCIDR_of_prefix: "n \<le> 32 \<Longrightarrow> calculateSubnetCIDR (prefix_mask n) = n"
  by (simp add: calculateSubnetCIDR_def prefix_mask_def octet_from_octets octet_bits_mask)

section \<open>Late answers\<close>

lemma known_name_is_resolved: "fst (hostByName idle (Dns_known ip) w) = (ip \<noteq> 0, ip)"
  by (simp add: hostByName_def Let_def)

lemma dns_done_frame:
  "w_bits (clearStatusBits WIFI_DNS_IDLE_BIT w) AND WIFI_DNS_DONE_BIT = w_bits w AND WIFI_DNS_DONE_BIT"
  "w_group (clearStatusBits b w) = w_group w" "w_group (setStatusBits b w) = w_group w"
  by (auto simp: clearStatusBits_def setStatusBits_def wifi_bit_def and.assoc)

text \<open>
  After an answer that came too late the next name that has to be asked for is given up at once,
  and its own answer then comes too late: so it is for every name after it.
\<close>

fun ask_all :: "(bool \<times> u32 option) list \<Rightarrow> 'f wifi \<Rightarrow> bool list" where
  "ask_all [] w = []"
| "ask_all ((in_time, a) # rest) w =
     (case hostByName (\<lambda>w. w) (Dns_asked in_time a) w of
        ((r, _), w1, pending) \<Rightarrow> r # ask_all rest (if pending then late_callback w1 else w1))"

lemma late_answer_fails_the_next:
  assumes "w_group w" "w_bits w AND WIFI_DNS_DONE_BIT = WIFI_DNS_DONE_BIT"
  shows "\<exists>w1. hostByName (\<lambda>w. w) (Dns_asked in_time a) w = ((False, 0), w1, True) \<and> w_group w1"
proof -
  define w1 where "w1 = clearStatusBits WIFI_DNS_IDLE_BIT w"
  have "\<not> waits WIFI_DNS_DONE_BIT w1" using assms by (simp add: waits_def w1_def dns_done_frame)
  then have "dns_wait in_time a w1 = ((0, w1), True)" by (simp add: dns_wait_def)
  then show ?thesis
    using assms(1) by (simp add: hostByName_def waitStatusBits_def w1_def dns_done_frame)
qed

lemma late_answers_fail_all:
  assumes "w_group w" "w_bits w AND WIFI_DNS_DONE_BIT = WIFI_DNS_DONE_BIT"
  shows "ask_all qs w = replicate (length qs) False"
  using assms
proof (induction qs arbitrary: w)
  case Nil
  then show ?case by simp
next
  case (Cons q qs)
  obtain in_time a where q: "q = (in_time, a)" by (cases q)
  obtain w1 where w1: "hostByName (\<lambda>w. w) (Dns_asked in_time a) w = ((False, 0), w1, True)" "w_group w1"
    using late_answer_fails_the_next [OF Cons.prems] by blast
  have "ask_all qs (late_callback w1) = replicate (length qs) False"
  proof (rule Cons.IH)
    show "w_group (late_callback w1)" using w1(2) by (simp add: late_callback_def wifi_dns_found_callback_def dns_done_frame)
    show "w_bits (late_callback w1) AND WIFI_DNS_DONE_BIT = WIFI_DNS_DONE_BIT"
      using w1(2) by (simp add: late_callback_def wifi_dns_found_callback_def setStatusBits_def bit_eq_iff bit_and_iff bit_or_iff)
  qed
  then show ?case by (simp add: q w1(1))
qed

section \<open>Other queries\<close>

lemma steady_result: "wait_result (\<lambda>_. s) n k = s"
proof (induction n arbitrary: k)
  case 0
  show ?case by simp
next
  case (Suc n)
  show ?case by (cases "s = 0") (use Suc.IH [of "k + 1"] Suc.IH [of "k + 2"] in simp_all)
qed

text \<open>SmartConfig that has come to its end is not done: being stopped, it answers that nothing was started.\<close>

lemma finished_smart_config_is_not_done:
  "\<not> smartConfigDone (smartConfigCallback (SC_LINK_OVER True) (smartConfigCallback (SC_LINK conf) s))"
  by (simp add: smartConfigDone_def smartConfigCallback_def stopSmartConfig_def)

end
