(* ===== verification/Wifi_Ends.thy ===== *)
theory Wifi_Ends
  imports Wifi_Client Wifi_Queries
begin

text \<open>
  Connecting by name, the two ends of a connection and the comparison of clients, \<open>WiFiClient.cpp\<close>.  What the stack
  knows of the ends of a socket is an argument; where it knows nothing the code reads a buffer it
  has not set, here \<open>None\<close>.
\<close>

section \<open>Connecting by name\<close>

definition connect_host ::
  "'w lwip \<Rightarrow> ('f wifi \<Rightarrow> 'f wifi) \<Rightarrow> dns_reply \<Rightarrow> u16 \<Rightarrow> int \<Rightarrow> 'f wifi \<times> client \<times> 'w sockets \<Rightarrow>
     bool \<times> 'f wifi \<times> client \<times> 'w sockets" where
  "connect_host L idle ans port timeout = (\<lambda>(w, c, s).
     case hostByName idle ans w of
       ((False, _), w1, _) \<Rightarrow> (False, w1, c, s)
     | ((True, ip), w1, _) \<Rightarrow> (case client_connect L ip port timeout (c, s) of (r, c1, s1) \<Rightarrow> (r, w1, c1, s1)))"

text \<open>A lookup that came too late costs the next connection by a name that has to be asked for.\<close>

lemma late_lookup_costs_a_connection:
  assumes "w_group w" "w_bits w AND WIFI_DNS_DONE_BIT = WIFI_DNS_DONE_BIT"
  shows "\<exists>w1. connect_host L (\<lambda>w. w) (Dns_asked in_time a) port timeout (w, c, s) = (False, w1, c, s)"
  using late_answer_fails_the_next [OF assms, of in_time a] by (auto simp: connect_host_def)

section \<open>Ends\<close>

definition getNoDelay :: "int option \<Rightarrow> bool" where
  "getNoDelay flag = (case flag of None \<Rightarrow> False | Some f \<Rightarrow> f \<noteq> 0)"

record ends =
  en_peer :: "int \<Rightarrow> (u32 \<times> u16) option"
    \<comment> \<open>\<open>getpeername\<close>\<close>
  en_own :: "int \<Rightarrow> (u32 \<times> u16) option"
    \<comment> \<open>\<open>getsockname\<close>\<close>

definition remoteIP_of :: "ends \<Rightarrow> int \<Rightarrow> u32 option" where "remoteIP_of N n = map_option fst (en_peer N n)"
definition remotePort_of :: "ends \<Rightarrow> int \<Rightarrow> u16 option" where "remotePort_of N n = map_option snd (en_peer N n)"
definition localIP_of :: "ends \<Rightarrow> int \<Rightarrow> u32 option" where "localIP_of N n = map_option fst (en_own N n)"
definition localPort_of :: "ends \<Rightarrow> int \<Rightarrow> u16 option" where "localPort_of N n = map_option snd (en_own N n)"

definition client_remoteIP :: "ends \<Rightarrow> client \<Rightarrow> u32 option" where "client_remoteIP N c = remoteIP_of N (fd c)"
definition client_remotePort :: "ends \<Rightarrow> client \<Rightarrow> u16 option" where "client_remotePort N c = remotePort_of N (fd c)"
definition client_localIP :: "ends \<Rightarrow> client \<Rightarrow> u32 option" where "client_localIP N c = localIP_of N (fd c)"
definition client_localPort :: "ends \<Rightarrow> client \<Rightarrow> u16 option" where "client_localPort N c = localPort_of N (fd c)"

text \<open>Clients share a handle when they share its socket.\<close>

definition client_eq :: "ends \<Rightarrow> client \<Rightarrow> client \<Rightarrow> bool option" where
  "client_eq N c d =
     (if wc_fd c \<noteq> wc_fd d then Some False
      else case (client_remotePort N c, client_remotePort N d) of
          (Some p, Some q) \<Rightarrow>
            if p \<noteq> q then Some False
            else (case (client_remoteIP N c, client_remoteIP N d) of
                (Some a, Some b) \<Rightarrow> Some (a = b) | _ \<Rightarrow> None)
        | _ \<Rightarrow> None)"

text \<open>For connected clients the comparison is that of the handles.\<close>

lemma client_eq_handles:
  assumes "en_peer N (fd c) \<noteq> None"
  shows "client_eq N c d = Some (wc_fd c = wc_fd d)"
  using assms by (auto simp: client_eq_def client_remotePort_def client_remoteIP_def remotePort_of_def remoteIP_of_def fd_def)

text \<open>Of two clients without a connection it depends on memory that was not set.\<close>

lemma unconnected_comparison_is_undefined:
  assumes "en_peer N (-1) = None"
  shows "client_eq N no_client no_client = None"
  using assms by (simp add: client_eq_def client_remotePort_def remotePort_of_def fd_def no_client_def)

end
