(* ===== verification/Wifi_Ethernet.thy ===== *)
theory Wifi_Ethernet
  imports Wifi_Queries
begin

text \<open>
  The wired interface of the WiFi library, \<open>ETH.cpp\<close>; the lock has none.  Queries that only hand
  on what the ESP-IDF answers are left out.  What the ESP-IDF answers
  is an argument, what it is told is recorded in order.
\<close>

datatype eth_phy = ETH_PHY_LAN8720 | ETH_PHY_TLK110 | ETH_PHY_MAX

text \<open>The configuration: the kind of transceiver, its address, its clock, and whether its power pin is switched by the library.\<close>

record eth_config =
  ec_type :: eth_phy
  ec_addr :: u8
  ec_clock :: nat
  ec_power_pin :: bool

datatype eth_call =
    Eth_init eth_config | Eth_enable | Eth_pins int int | Eth_power int bool
  | Eth_dhcpc_stop | Eth_dhcpc_start | Eth_set_ip u32 u32 u32 | Eth_dns_server nat u32 | Eth_hostname string | Eth_ip6

record eth =
  eh_initialized :: bool
  eh_started :: bool
  eh_static :: bool
  eh_mdc :: int
  eh_mdio :: int
  eh_power :: int
  eh_config :: "eth_config option"
  eh_calls :: "eth_call list"

text \<open>The answers of the ESP-IDF, true for no error; that DHCP was in the wanted state already is no error.\<close>

record eth_idf =
  ei_init :: bool
  ei_enable :: bool
  ei_dhcpc_stop :: bool
  ei_set_ip :: bool
  ei_dhcpc_start :: bool

definition new_eth :: eth where
  "new_eth = \<lparr>eh_initialized = False, eh_started = False, eh_static = False, eh_mdc = -1, eh_mdio = -1, eh_power = -1,
     eh_config = None, eh_calls = []\<rparr>"

definition tell_eth :: "eth_call list \<Rightarrow> eth \<Rightarrow> eth" where
  "tell_eth cs s = s\<lparr>eh_calls := eh_calls s @ cs\<rparr>"

definition eth_phy_power_enable :: "bool \<Rightarrow> eth \<Rightarrow> eth" where
  "eth_phy_power_enable enable s = tell_eth [Eth_power (eh_power s) enable] s"

definition eth_phy_config_gpio :: "eth \<Rightarrow> eth" where
  "eth_phy_config_gpio s =
     (if eh_mdc s < 0 \<or> eh_mdio s < 0 then s else tell_eth [Eth_pins (eh_mdc s) (eh_mdio s)] s)"

definition eth_enable :: "eth_idf \<Rightarrow> eth \<Rightarrow> bool \<times> eth" where
  "eth_enable E s =
     (if ei_enable E then (True, (tell_eth [Eth_enable] s)\<lparr>eh_started := True\<rparr>) else (False, tell_eth [Eth_enable] s))"

definition eth_begin :: "eth_idf \<Rightarrow> u8 \<Rightarrow> int \<Rightarrow> int \<Rightarrow> int \<Rightarrow> eth_phy \<Rightarrow> nat \<Rightarrow> eth \<Rightarrow> bool \<times> eth" where
  "eth_begin E phy_addr pwr mdc mdio type clock_mode s =
     (if eh_initialized s then eth_enable E s
      else
        let s1 = s\<lparr>eh_mdc := mdc, eh_mdio := mdio, eh_power := pwr\<rparr>
        in if type = ETH_PHY_MAX then (False, s1)
           else
             let c = \<lparr>ec_type = type, ec_addr = phy_addr, ec_clock = clock_mode, ec_power_pin = (0 \<le> pwr)\<rparr>;
                 s2 = tell_eth [Eth_init c] (s1\<lparr>eh_config := Some c\<rparr>)
             in if \<not> ei_init E then (False, s2) else eth_enable E (s2\<lparr>eh_initialized := True\<rparr>))"

definition eth_dns :: "u32 \<Rightarrow> u32 \<Rightarrow> eth_call list" where
  "eth_dns dns1 dns2 =
     (if dns1 \<noteq> 0 then [Eth_dns_server 0 dns1] else []) @ (if dns2 \<noteq> 0 then [Eth_dns_server 1 dns2] else [])"

definition eth_set_config :: "eth_idf \<Rightarrow> u32 \<Rightarrow> u32 \<Rightarrow> u32 \<Rightarrow> u32 \<Rightarrow> u32 \<Rightarrow> eth \<Rightarrow> bool \<times> eth" where
  "eth_set_config E local_ip gateway subnet dns1 dns2 s =
     (let given = (local_ip \<noteq> 0);
          s1 = tell_eth [Eth_dhcpc_stop] s;
          s2 = tell_eth [if given then Eth_set_ip local_ip gateway subnet else Eth_set_ip 0 0 0] s1
      in if \<not> ei_dhcpc_stop E then (False, s1)
         else if \<not> ei_set_ip E then (False, s2)
         else if given then (True, tell_eth (eth_dns dns1 dns2) (s2\<lparr>eh_static := True\<rparr>))
         else if \<not> ei_dhcpc_start E then (False, tell_eth [Eth_dhcpc_start] s2)
         else (True, tell_eth (eth_dns dns1 dns2) ((tell_eth [Eth_dhcpc_start] s2)\<lparr>eh_static := False\<rparr>)))"

definition eth_setHostname :: "bool \<Rightarrow> string \<Rightarrow> eth \<Rightarrow> bool \<times> eth" where
  "eth_setHostname ok hostname s = (ok, tell_eth [Eth_hostname hostname] s)"

definition eth_enableIpV6 :: "bool \<Rightarrow> eth \<Rightarrow> bool \<times> eth" where
  "eth_enableIpV6 ok s = (ok, tell_eth [Eth_ip6] s)"

section \<open>Queries\<close>

text \<open>The addresses of the interface, if the ESP-IDF answers.\<close>

definition of_info :: "'a \<Rightarrow> (ip_info \<Rightarrow> 'a) \<Rightarrow> ip_info option \<Rightarrow> 'a" where
  "of_info none f i = (case i of None \<Rightarrow> none | Some x \<Rightarrow> f x)"

definition eth_localIP :: "ip_info option \<Rightarrow> u32" where "eth_localIP = of_info 0 ii_ip"
definition eth_subnetMask :: "ip_info option \<Rightarrow> u32" where "eth_subnetMask = of_info 0 ii_netmask"
definition eth_gatewayIP :: "ip_info option \<Rightarrow> u32" where "eth_gatewayIP = of_info 0 ii_gw"
definition eth_broadcastIP :: "ip_info option \<Rightarrow> u32" where "eth_broadcastIP = of_info 0 (\<lambda>i. calculateBroadcast (ii_gw i) (ii_netmask i))"
definition eth_networkID :: "ip_info option \<Rightarrow> u32" where "eth_networkID = of_info 0 (\<lambda>i. calculateNetworkID (ii_gw i) (ii_netmask i))"
definition eth_subnetCIDR :: "ip_info option \<Rightarrow> nat" where "eth_subnetCIDR = of_info 0 (\<lambda>i. calculateSubnetCIDR (ii_netmask i))"
definition eth_linkSpeed :: "bool \<Rightarrow> nat" where "eth_linkSpeed fast = (if fast then 100 else 10)"
definition eth_macAddress :: "bytes \<Rightarrow> string" where "eth_macAddress mac = mac_text mac"

text \<open>The function that is not a method: a null pointer is given back, otherwise the address is copied.\<close>

definition macAddress_into :: "bytes \<Rightarrow> bytes option \<Rightarrow> bytes option" where
  "macAddress_into mac buffer = map_option (\<lambda>_. mac) buffer"

section \<open>Starting\<close>

text \<open>Once the interface is initialised, starting again looks at none of its arguments.\<close>

lemma eth_begin_again:
  "eh_initialized s \<Longrightarrow> eth_begin E a p c d t m s = eth_begin E a' p' c' d' t' m' s"
  by (simp add: eth_begin_def)

lemma eth_started:
  assumes "eth_begin E a p c d t m s = (r, s1)" "\<not> eh_started s"
  shows "eh_started s1 = r" "r \<longrightarrow> eh_initialized s1"
  using assms by (auto simp: eth_begin_def eth_enable_def tell_eth_def Let_def split: if_splits)

text \<open>The address is fixed after a successful call just if one was given; a failure leaves it as it was.\<close>

lemma eth_static_address:
  assumes "eth_set_config E ip gw nm d1 d2 s = (r, s1)"
  shows "eh_static s1 = (if r then ip \<noteq> 0 else eh_static s)"
  using assms by (auto simp: eth_set_config_def tell_eth_def Let_def split: if_splits)

end
