(* ===== verification/Http_Rest.thy ===== *)
theory Http_Rest
  imports Http_Response Wifi_Server
begin

text \<open>
  The rest of the web server: responses from program memory, opening and closing, the texts of
  authentication (\<open>WebServer.cpp\<close>), and how a byte of an upload is waited for (\<open>_uploadReadByte\<close>
  in \<open>Parsing.cpp\<close>).  The server socket is that of \<open>Wifi_Server\<close>.
\<close>

section \<open>Responses from program memory\<close>

text \<open>The type is copied up to its zero byte into 64 bytes; a longer one is left unterminated, here \<open>None\<close>.\<close>

definition type_buffer :: "string \<Rightarrow> string option" where
  "type_buffer t = (if length (cstr t) < 64 then Some (cstr t) else None)"

text \<open>The text holds at least the given number of bytes.\<close>

definition sendContent_P_sized :: "bytes \<Rightarrow> nat \<Rightarrow> 'f http \<Rightarrow> 'f http" where
  "sendContent_P_sized body n s =
     (let s1 = (if chunked s then currentClientWrite (hex_text n @ crlf) s else s);
          s2 = currentClientWrite (take n body) s1
      in if chunked s2
         then (let s3 = currentClientWrite crlf s2 in if n = 0 then s3\<lparr>chunked := False\<rparr> else s3)
         else s2)"

definition sendContent_P :: "bytes \<Rightarrow> 'f http \<Rightarrow> 'f http" where
  "sendContent_P body = sendContent_P_sized (cstr body) (length (cstr body))"

text \<open>A missing text is counted as empty and then read through the null pointer, \<open>Null_pointer\<close>.\<close>

definition send_P :: "int \<Rightarrow> string \<Rightarrow> bytes option \<Rightarrow> 'f http \<Rightarrow> 'f http outcome option" where
  "send_P code content_type body s =
     map_option (\<lambda>t.
       let n = (case body of None \<Rightarrow> 0 | Some c \<Rightarrow> length (cstr c));
           (header, s1) = prepareHeader code (Some t) (word_of_nat n) s;
           s2 = currentClientWrite header s1
       in case body of None \<Rightarrow> Null_pointer | Some c \<Rightarrow> Return (sendContent_P c s2)) (type_buffer content_type)"

definition send_P_sized :: "int \<Rightarrow> string \<Rightarrow> bytes \<Rightarrow> nat \<Rightarrow> 'f http \<Rightarrow> 'f http option" where
  "send_P_sized code content_type body n s =
     map_option (\<lambda>t.
       let (header, s1) = prepareHeader code (Some t) (word_of_nat n) s
       in sendContent_P_sized body n (sendContent header s1)) (type_buffer content_type)"

lemma sendContent_P_eq: "sendContent_P_sized c (length c) s = sendContent c s"
  by (simp add: sendContent_P_sized_def sendContent_def Let_def)

text \<open>For a text that is not empty and holds no zero byte both ways send the same.\<close>

lemma send_P_eq_send:
  assumes "length (cstr t) < 64" "c \<noteq> []" "cstr c = c"
  shows "send_P code t (Some c) s = Some (Return (send code (Some (cstr t)) c s))"
  using assms by (simp add: send_P_def type_buffer_def send_def sendContent_P_def sendContent_P_eq split: prod.split)

text \<open>
  An empty text in a chunked response is its last chunk: what is sent after it is not in chunks, and
  the end is not written again.
\<close>

lemma empty_piece_ends_the_chunks:
  assumes "chunked s"
  shows "\<not> chunked (sendContent_P [] s)" "finalizeResponse (sendContent_P [] s) = sendContent_P [] s"
    "written (sendContent c (sendContent_P [] s)) = written s @ hex_text 0 @ crlf @ crlf @ c"
  using assms by (simp_all add: sendContent_P_def cstr_def sendContent_P_sized_def sendContent_def finalizeResponse_def Let_def
      currentClientWrite_def)

text \<open>With the length given, a chunked response starts with the length of its own header.\<close>

lemma sized_header_is_a_chunk:
  assumes "length (cstr t) < 64" "prepareHeader code (Some (cstr t)) (word_of_nat n) s = (h, s1)" "chunked s1" "h \<noteq> []"
  shows "\<exists>r s2. send_P_sized code t c n s = Some s2 \<and> written s2 = written s1 @ hex_text (length h) @ crlf @ h @ crlf @ r"
  using assms by (auto simp: send_P_sized_def type_buffer_def sendContent_def sendContent_P_sized_def currentClientWrite_def Let_def)

section \<open>Opening and closing\<close>

record ('w, 'f) web_server =
  ws_listener :: "tcp_server \<times> 'w sockets"
  ws_conn :: conn
  ws_http :: "'f http"

definition web_close :: "'w lwip \<Rightarrow> ('w, 'f) web_server \<Rightarrow> ('w, 'f) web_server" where
  "web_close L v =
     (let v1 = v\<lparr>ws_listener := server_end L (ws_listener v), ws_conn := (ws_conn v)\<lparr>currentStatus := HC_NONE\<rparr>\<rparr>
      in if currentHeaders (ws_http v1) = [] then v1\<lparr>ws_http := collectHeaders [] (ws_http v1)\<rparr> else v1)"

text \<open>\<open>begin ()\<close> gives no port, which is 0.\<close>

definition web_begin :: "'w lwip \<Rightarrow> u16 \<Rightarrow> ('w, 'f) web_server \<Rightarrow> ('w, 'f) web_server" where
  "web_begin L port v =
     (let v1 = web_close L v;
          (l, s) = server_begin L port (ws_listener v1)
      in v1\<lparr>ws_listener := (l\<lparr>sv_noDelay := True\<rparr>, s)\<rparr>)"

text \<open>Closing keeps what a request has left, and the headers to collect once they are chosen.\<close>

lemma close_keeps_headers: "currentHeaders (ws_http v) \<noteq> [] \<Longrightarrow> ws_http (web_close L v) = ws_http v"
  by (simp add: web_close_def Let_def)

lemma close_collects_authorization:
  "currentHeaders (ws_http v) = [] \<Longrightarrow> map fst (currentHeaders (ws_http (web_close L v))) = [''Authorization'']"
  by (simp add: web_close_def collectHeaders_def Let_def)

section \<open>Texts\<close>

text \<open>The digest is an argument; the memory for it is there.\<close>

definition md5str :: "(bytes \<Rightarrow> nat list) \<Rightarrow> string \<Rightarrow> string" where
  "md5str digest t = concat (map (\<lambda>b. [hex_nibble (b div 16), hex_nibble (b mod 16)]) (digest t))"

definition padded_hex :: "u32 \<Rightarrow> string" where
  "padded_hex r = (let t = hex_text (unat r) in replicate (8 - length t) CHR ''0'' @ t)"

text \<open>Four random numbers.\<close>

definition getRandomHexString :: "u32 \<times> u32 \<times> u32 \<times> u32 \<Rightarrow> string" where
  "getRandomHexString = (\<lambda>(a, b, c, d). padded_hex a @ padded_hex b @ padded_hex c @ padded_hex d)"

lemma length_hex_text: "0 < k \<Longrightarrow> n < 16 ^ k \<Longrightarrow> length (hex_text n) \<le> k"
proof (induction k arbitrary: n)
  case 0
  then show ?case by simp
next
  case (Suc k)
  show ?case
  proof (cases "n < 16")
    case True
    then show ?thesis by (simp add: hex_text.simps [of n])
  next
    case False
    then have "0 < k" using Suc.prems by (cases k) auto
    moreover have "n div 16 < 16 ^ k" using Suc.prems(2) by (simp add: less_mult_imp_div_less mult.commute)
    ultimately show ?thesis using False Suc.IH by (simp add: hex_text.simps [of n])
  qed
qed

lemma length_getRandomHexString: "length (getRandomHexString r) = 32"
proof -
  have unat_lt: "unat a < 2 ^ 32" for a :: u32 using unsigned_less [of a] by simp
  have "length (padded_hex a) = 8" for a
    using length_hex_text [of 8 "unat a"] unat_lt [of a] by (simp add: padded_hex_def Let_def)
  then show ?thesis by (cases r) (simp add: getRandomHexString_def)
qed

definition server_pathArg :: "string list option \<Rightarrow> nat \<Rightarrow> string option" where
  "server_pathArg pathArgs i =
     (case pathArgs of None \<Rightarrow> Some [] | Some ps \<Rightarrow> if i < length ps then Some (ps ! i) else None)"

section \<open>Waiting for a byte\<close>

text \<open>What the calls of the client and of the clock would answer, by the number of calls made before.\<close>

record answers =
  an_connected :: bool
  an_available :: int
  an_read :: int
  an_millis :: u32

text \<open>The inner loop: whether the time is over, and the calls made.\<close>

partial_function (option) upload_idle ::
  "(nat \<Rightarrow> answers) \<Rightarrow> u32 \<Rightarrow> u32 \<Rightarrow> bool \<Rightarrow> nat \<Rightarrow> (bool \<times> nat) option" where
  "upload_idle env start limit timedOut k =
     (if timedOut then Some (True, k)
      else if an_available (env k) \<noteq> 0 then Some (False, k + 1)
      else if \<not> an_connected (env (k + 1)) then Some (False, k + 2)
      else upload_idle env start limit (limit \<le> an_millis (env (k + 2)) - start) (k + 3))"

partial_function (option) upload_retry ::
  "(nat \<Rightarrow> answers) \<Rightarrow> u32 \<Rightarrow> u32 \<Rightarrow> nat \<Rightarrow> int option" where
  "upload_retry env start limit k =
     Option.bind (upload_idle env start limit False k) (\<lambda>(t, k1).
       if 0 \<le> an_read (env k1) then Some (an_read (env k1))
       else if limit \<le> an_millis (env (k1 + 1)) - start then Some (an_read (env k1))
       else upload_retry env start limit (k1 + 2))"

definition uploadReadByte :: "(nat \<Rightarrow> answers) \<Rightarrow> u32 \<Rightarrow> int option" where
  "uploadReadByte env limit =
     (if \<not> an_connected (env 0) then Some (-1)
      else if an_read (env 1) < 0 then upload_retry env (an_millis (env 2)) limit 3
      else Some (an_read (env 1)))"

lemma upload_idle_ends:
  assumes "k \<le> N" "\<forall>n\<in>{N..N + 4}. limit \<le> an_millis (env n) - start"
  shows "\<exists>t k1. upload_idle env start limit False k = Some (t, k1) \<and> k < k1 \<and> k1 \<le> N + 3"
  using assms(1)
proof (induction "N - k" arbitrary: k rule: less_induct)
  case less
  show ?case
  proof (cases "an_available (env k) \<noteq> 0 \<or> \<not> an_connected (env (k + 1))")
    case True
    then show ?thesis using less.prems by (auto simp: upload_idle.simps [of env start limit False k])
  next
    case False
    then have step: "upload_idle env start limit False k =
        upload_idle env start limit (limit \<le> an_millis (env (k + 2)) - start) (k + 3)"
      by (simp add: upload_idle.simps [of env start limit False k])
    show ?thesis
    proof (cases "limit \<le> an_millis (env (k + 2)) - start")
      case True
      then have "upload_idle env start limit False k = Some (True, k + 3)"
        using step by (simp add: upload_idle.simps [of env start limit True])
      then show ?thesis using less.prems by auto
    next
      case early: False
      then have "\<not> N \<le> k + 2" using assms(2) less.prems by auto
      then have "k + 3 \<le> N" by simp
      then have "\<exists>t k1. upload_idle env start limit False (k + 3) = Some (t, k1) \<and> k + 3 < k1 \<and> k1 \<le> N + 3"
        using less.hyps [of "k + 3"] by simp
      then show ?thesis using step early by auto
    qed
  qed
qed

lemma upload_retry_ends:
  assumes "k \<le> N" "\<forall>n\<in>{N..N + 4}. limit \<le> an_millis (env n) - start"
  shows "\<exists>b. upload_retry env start limit k = Some b \<and> (b < 0 \<longrightarrow> (\<exists>n. limit \<le> an_millis (env n) - start))"
  using assms(1)
proof (induction "N - k" arbitrary: k rule: less_induct)
  case less
  obtain t k1 where idle: "upload_idle env start limit False k = Some (t, k1)" "k < k1" "k1 \<le> N + 3"
    using upload_idle_ends [OF less.prems assms(2)] by blast
  show ?case
  proof (cases "0 \<le> an_read (env k1) \<or> limit \<le> an_millis (env (k1 + 1)) - start")
    case True
    then show ?thesis using idle(1) by (auto simp: upload_retry.simps [of env start limit k])
  next
    case False
    have "\<not> N \<le> k1 + 1" using False assms(2) idle(3) by auto
    then have "k1 + 2 \<le> N" "N - (k1 + 2) < N - k" using idle(2) by auto
    then show ?thesis using less.hyps [of "k1 + 2"] False idle(1) by (simp add: upload_retry.simps [of env start limit k])
  qed
qed

text \<open>
  If the clock passes the limit, a read of a byte ends, and without a byte only if the client was
  gone at first or the time is over.
\<close>

lemma upload_byte_is_waited_for:
  assumes "3 \<le> N" "\<forall>n\<in>{N..N + 4}. limit \<le> an_millis (env n) - an_millis (env 2)"
  shows "\<exists>b. uploadReadByte env limit = Some b \<and>
    (b < 0 \<longrightarrow> \<not> an_connected (env 0) \<or> (\<exists>n. limit \<le> an_millis (env n) - an_millis (env 2)))"
  using upload_retry_ends [OF assms] by (auto simp: uploadReadByte_def)

text \<open>A client that is gone with its last bytes unread is not asked for them.\<close>

lemma gone_client_loses_its_bytes: "\<not> an_connected (env 0) \<Longrightarrow> uploadReadByte env limit = Some (-1)"
  by (simp add: uploadReadByte_def)

end
