(* ===== verification/Http_Over_Tcp.thy ===== *)
theory Http_Over_Tcp
  imports Wifi_Client Http_Request
begin

text \<open>
  Reading the lines of a request from a TCP client: \<open>readStringUntil\<close> and \<open>timedRead\<close> of the Arduino
  class \<open>Stream\<close>, as \<open>_parseRequest\<close> calls them, over \<open>WiFiClient::read\<close>.  The class is part of the
  language's standard library, not of the repository: the two definitions state what it documents, one byte
  at a time until the terminator comes or the time is over.  What \<open>Http_Request\<close>
  reads from a list of bytes is what is read here through the receive buffer.
\<close>

section \<open>Bytes and lines\<close>

text \<open>\<open>n\<close> is how often the time limit lets \<open>timedRead\<close> try again.\<close>

fun timed_read :: "'w lwip \<Rightarrow> nat \<Rightarrow> client \<times> 'w sockets \<Rightarrow> (int \<times> client \<times> 'w sockets) outcome option" where
  "timed_read L 0 z =
     map_option (\<lambda>a. case a of Return (r, y) \<Rightarrow> Return (if r < 0 then -1 else r, y) | Restart \<Rightarrow> Restart | Null_pointer \<Rightarrow> Null_pointer)
       (read_one L z)"
| "timed_read L (Suc n) z =
     (case read_one L z of
        Some (Return (r, y)) \<Rightarrow> if r < 0 then timed_read L n y else Some (Return (r, y))
      | a \<Rightarrow> a)"

text \<open>The text, and the state behind it; \<open>ns\<close> gives the tries for each byte.\<close>

partial_function (option) read_string ::
  "'w lwip \<Rightarrow> (nat \<Rightarrow> nat) \<Rightarrow> char \<Rightarrow> string \<Rightarrow> client \<times> 'w sockets \<Rightarrow> (string \<times> client \<times> 'w sockets) outcome option" where
  "read_string L ns c got z =
     (case timed_read L (ns (length got)) z of
        None \<Rightarrow> None
      | Some Restart \<Rightarrow> Some Restart
      | Some Null_pointer \<Rightarrow> Some Null_pointer
      | Some (Return (r, y)) \<Rightarrow>
          if r < 0 \<or> r = int (of_char c) then Some (Return (got, y))
          else read_string L ns c (got @ [char_of (nat r)]) y)"

definition read_request_line ::
  "'w lwip \<Rightarrow> (nat \<Rightarrow> nat) \<Rightarrow> client \<times> 'w sockets \<Rightarrow> (string \<times> client \<times> 'w sockets) outcome option" where
  "read_request_line L ns z =
     (case read_string L ns CR [] z of
        Some (Return (req, y)) \<Rightarrow>
          map_option (\<lambda>a. case a of Return (_, x) \<Rightarrow> Return (req, x) | Restart \<Rightarrow> Restart | Null_pointer \<Rightarrow> Null_pointer)
            (read_string L ns LF [] y)
      | a \<Rightarrow> a)"

text \<open>The lines of a request's head, one after the other, and the same from a list of bytes.\<close>

fun read_lines ::
  "'w lwip \<Rightarrow> (nat \<Rightarrow> nat) \<Rightarrow> nat \<Rightarrow> client \<times> 'w sockets \<Rightarrow> (string list \<times> client \<times> 'w sockets) outcome option" where
  "read_lines L ns 0 z = Some (Return ([], z))"
| "read_lines L ns (Suc k) z =
     (case read_request_line L ns z of
        None \<Rightarrow> None
      | Some Restart \<Rightarrow> Some Restart
      | Some Null_pointer \<Rightarrow> Some Null_pointer
      | Some (Return (l, y)) \<Rightarrow>
          map_option (\<lambda>a. case a of Return (ls, x) \<Rightarrow> Return (l # ls, x) | Restart \<Rightarrow> Restart | Null_pointer \<Rightarrow> Null_pointer)
            (read_lines L ns k y))"

fun list_lines :: "nat \<Rightarrow> bytes \<Rightarrow> string list \<times> bytes" where
  "list_lines 0 inp = ([], inp)"
| "list_lines (Suc k) inp = (case read_line inp of (l, r) \<Rightarrow> (case list_lines k r of (ls, q) \<Rightarrow> (l # ls, q)))"

section \<open>The stream of a client\<close>

definition client_ok :: "client \<times> 'w sockets \<Rightarrow> bool" where
  "client_ok = (\<lambda>(c, s). case rx_of c s of None \<Rightarrow> False | Some (n, b) \<Rightarrow> rx_ok b \<and> \<not> rx_failed b \<and> 0 \<le> rx_fd b \<and> 0 < rx_size b)"

definition client_stream :: "(int \<Rightarrow> 'w \<Rightarrow> bytes) \<Rightarrow> client \<times> 'w sockets \<Rightarrow> bytes" where
  "client_stream pend = (\<lambda>(c, s). case rx_of c s of None \<Rightarrow> [] | Some (n, b) \<Rightarrow> content pend (b, sk_net s))"

text \<open>The stack delivers what has arrived: there is memory, and bytes that are there are counted and given.\<close>

definition prompt_law :: "'w lwip \<Rightarrow> (int \<Rightarrow> 'w \<Rightarrow> bytes) \<Rightarrow> bool" where
  "prompt_law L pend \<longleftrightarrow>
     (\<forall>n w. fst (lw_malloc L n w) \<noteq> None) \<and>
     (\<forall>fd w. pend fd w \<noteq> [] \<longrightarrow> (\<exists>n. fst (lw_readable L fd w) = Some (Suc n))) \<and>
     (\<forall>fd n w. pend fd w \<noteq> [] \<and> 0 < n \<longrightarrow> (\<exists>x xs. fst (lw_recv L fd n w) = Some (x # xs)))"

lemma fillBuffer_unfailed:
  "fillBuffer L (b, w) = (n, b', w') \<Longrightarrow> n \<noteq> 0 \<Longrightarrow> rx_failed b' = rx_failed b"
  by (auto simp: fillBuffer_def r_available_def fill_from_def Let_def split: option.splits prod.splits if_splits)

lemma fillBuffer_prompt:
  assumes law: "tcp_law L pend" "prompt_law L pend"
    and b: "rx_ok b" "0 \<le> rx_fd b" "0 < rx_size b" "rx_pos b = rx_fill b" and p: "pend (rx_fd b) w \<noteq> []"
  shows "\<exists>n s. fillBuffer L (b, w) = (Suc n, s)"
proof -
  obtain m w1 where m: "(case rx_buffer b of Some m \<Rightarrow> (Some m, w) | None \<Rightarrow> lw_malloc L (rx_size b) w) = (Some m, w1)"
    using law(2) by (cases "rx_buffer b") (auto simp: prompt_law_def, metis prod.collapse)
  have p1: "pend (rx_fd b) w1 \<noteq> []" using m p tcp_mallocD(1) [OF law(1)] by (auto split: option.splits)
  then obtain k w2 where k: "lw_readable L (rx_fd b) w1 = (Some (Suc k), w2)"
    using law(2) unfolding prompt_law_def by (metis prod.collapse)
  have p2: "pend (rx_fd b) w2 \<noteq> []" using tcp_readableD [OF law(1) k] p1 by simp
  then obtain x xs w3 where r: "lw_recv L (rx_fd b) (rx_size b) w2 = (Some (x # xs), w3)"
    using law(2) b(3) unfolding prompt_law_def by (metis prod.collapse)
  show ?thesis
    unfolding fillBuffer_def prod.case m option.case Let_def
    using b k r by (auto simp: r_available_def fill_from_def)
qed

text \<open>Reading one byte through the buffer.\<close>

lemma rx_read_byte:
  assumes law: "tcp_law L pend" and ok: "rx_ok b"
  shows "\<exists>r bs b' w'. rx_read L 1 (b, w) = Some (r, bs, b', w') \<and> rx_ok b' \<and> rx_fd b' = rx_fd b \<and> rx_size b' = rx_size b \<and>
    (r = -1 \<and> bs = [] \<and> content pend (b', w') = content pend (b, w) \<or>
     (\<exists>ch. r = 1 \<and> bs = [ch] \<and> content pend (b, w) = ch # content pend (b', w')))"
proof -
  obtain r bs b' w' where r: "rx_read L 1 (b, w) = Some (r, bs, b', w')" "takes_out pend (b, w) bs (b', w')"
      "bs = [] \<and> r = -1 \<or> bs \<noteq> [] \<and> r = int (length bs) \<and> length bs \<le> 1"
    using rx_read_takes [OF law ok, of 1 w] by auto
  from r(3) consider "bs = []" "r = -1" | ch where "bs = [ch]" "r = 1" by (cases bs) auto
  then show ?thesis using r(1,2) by cases (auto simp: takes_out_def)
qed

lemma rx_read_unfailed:
  assumes law: "tcp_law L pend" and ok: "rx_ok b" and r: "rx_read L 1 (b, w) = Some (1, bs, b', w')"
  shows "rx_failed b' = rx_failed b"
proof (cases "rx_pos b = rx_fill b")
  case False
  then have "1 \<le> rx_fill b - rx_pos b" using ok by (auto simp: rx_ok_def)
  then show ?thesis using r False by (auto simp: rx_read_def rx_take_def Let_def)
next
  case True
  obtain n b1 w1 where f: "fillBuffer L (b, w) = (n, b1, w1)" by (metis prod_cases3)
  have s: "same_stream pend (b, w) (b1, w1) n" by (rule fillBuffer_same [OF law ok f])
  show ?thesis
  proof (cases "n = 0")
    case True
    then show ?thesis using r f \<open>rx_pos b = rx_fill b\<close> by (simp add: rx_read_def)
  next
    case False
    have "rx_ok b1" "length (buffered b1) \<noteq> 0" using s False by (simp_all add: same_stream_def)
    then have "1 \<le> rx_fill b1 - rx_pos b1" using length_buffered [of b1] by simp
    then show ?thesis using r f False True fillBuffer_unfailed [OF f] by (auto simp: rx_read_def rx_take_def Let_def)
  qed
qed

lemma rx_read_prompt:
  assumes law: "tcp_law L pend" "prompt_law L pend" and ok: "rx_ok b" "0 \<le> rx_fd b" "0 < rx_size b"
    and ne: "content pend (b, w) \<noteq> []"
  shows "\<exists>ch b' w'. rx_read L 1 (b, w) = Some (1, [ch], b', w')"
proof -
  obtain r bs b' w' where r: "rx_read L 1 (b, w) = Some (r, bs, b', w')" "r = -1 \<or> (\<exists>ch. r = 1 \<and> bs = [ch])"
    using rx_read_byte [OF law(1) ok(1), of w] by blast
  have "r \<noteq> -1"
  proof (cases "rx_pos b = rx_fill b")
    case False
    then have "1 \<le> rx_fill b - rx_pos b" using ok by (auto simp: rx_ok_def)
    then show ?thesis using r False by (auto simp: rx_read_def Let_def)
  next
    case True
    then have "pend (rx_fd b) w \<noteq> []" using ne by (simp add: content_def buffered_read_out)
    then obtain n b1 w1 where f: "fillBuffer L (b, w) = (Suc n, b1, w1)"
      using fillBuffer_prompt [OF law ok True, of w] by (metis prod.collapse)
    have s: "same_stream pend (b, w) (b1, w1) (Suc n)" by (rule fillBuffer_same [OF law(1) ok(1) f])
    then have "1 \<le> rx_fill b1 - rx_pos b1" using length_buffered [of b1] by (simp add: same_stream_def)
    then show ?thesis using r f True by (auto simp: rx_read_def Let_def)
  qed
  then show ?thesis using r by auto
qed

lemma rx_of_settle: "wc_fd c = Some n \<Longrightarrow> \<not> rx_failed b \<Longrightarrow>
    \<exists>s1. settle L n (b, w) (c, s) = (c, s1) \<and> rx_of c s1 = Some (n, b) \<and> sk_net s1 = w"
  by (simp add: settle_def rx_of_def Let_def)

lemma read_one_dead: "rx_of c s = None \<Longrightarrow> read_one L (c, s) = Some Null_pointer"
  by (simp add: read_one_def read_bytes_def)

text \<open>A byte of the client's stream.\<close>

lemma read_one_takes:
  assumes law: "tcp_law L pend" "prompt_law L pend" and ok: "client_ok z" and ne: "client_stream pend z = ch # rest"
  shows "\<exists>y. read_one L z = Some (Return (int (of_char ch), y)) \<and> client_ok y \<and> client_stream pend y = rest"
proof -
  obtain c s where z: "z = (c, s)" by (cases z)
  obtain n b where b: "rx_of c s = Some (n, b)" "rx_ok b" "\<not> rx_failed b" "0 \<le> rx_fd b" "0 < rx_size b"
    using ok by (auto simp: client_ok_def z split: option.splits)
  have cont: "content pend (b, sk_net s) = ch # rest" using ne b(1) by (simp add: client_stream_def z)
  obtain x b' w' where r: "rx_read L 1 (b, sk_net s) = Some (1, [x], b', w')"
    using rx_read_prompt [OF law b(2,4,5), of "sk_net s"] cont by auto
  have b': "rx_ok b'" "rx_fd b' = rx_fd b" "rx_size b' = rx_size b" "x = ch" "content pend (b', w') = rest"
    using rx_read_byte [OF law(1) b(2), of "sk_net s"] r cont by auto
  have f: "\<not> rx_failed b'" using rx_read_unfailed [OF law(1) b(2) r] b(3) by simp
  have fd: "wc_fd c = Some n" using b(1) by (auto simp: rx_of_def split: option.splits)
  obtain s1 where s1: "settle L n (b', w') (c, s) = (c, s1)" "rx_of c s1 = Some (n, b')" "sk_net s1 = w'"
    using rx_of_settle [OF fd f, of L w' s] by blast
  have "read_one L z = Some (Return (int (of_char ch), (c, s1)))"
    using b(1) r s1(1) b'(4) by (simp add: read_one_def read_bytes_def z)
  then show ?thesis using b b' s1 f by (auto simp: client_ok_def client_stream_def)
qed

lemma timed_read_takes:
  assumes "tcp_law L pend" "prompt_law L pend" "client_ok z" "client_stream pend z = ch # rest"
  shows "\<exists>y. timed_read L n z = Some (Return (int (of_char ch), y)) \<and> client_ok y \<and> client_stream pend y = rest"
  using read_one_takes [OF assms] by (cases n) auto

lemma read_string_takes:
  assumes law: "tcp_law L pend" "prompt_law L pend"
  shows "client_ok z \<Longrightarrow> client_stream pend z = t @ c # rest \<Longrightarrow> c \<notin> set t \<Longrightarrow>
    \<exists>y. read_string L ns c got z = Some (Return (got @ t, y)) \<and> client_ok y \<and> client_stream pend y = rest"
proof (induction t arbitrary: z got)
  case Nil
  then show ?case
    using timed_read_takes [OF law, of z c rest "ns (length got)"] by (auto simp: read_string.simps [of L ns c got z])
next
  case (Cons a t)
  obtain y where y: "timed_read L (ns (length got)) z = Some (Return (int (of_char a), y))" "client_ok y"
      "client_stream pend y = t @ c # rest"
    using timed_read_takes [OF law Cons.prems(1), of a "t @ c # rest" "ns (length got)"] Cons.prems(2) by auto
  have "a \<noteq> c" "c \<notin> set t" using Cons.prems(3) by auto
  then show ?case
    using y Cons.IH [OF y(2,3), of "got @ [a]"] by (simp add: read_string.simps [of L ns c got z])
qed

lemma request_line_over_tcp:
  assumes "tcp_law L pend" "prompt_law L pend" "client_ok z" "client_stream pend z = line @ CR # skipped @ LF # rest"
    and "CR \<notin> set line" "LF \<notin> set skipped"
  shows "\<exists>y. read_request_line L ns z = Some (Return (line, y)) \<and> client_ok y \<and>
    read_line (client_stream pend z) = (line, client_stream pend y)"
proof -
  obtain y where y: "read_string L ns CR [] z = Some (Return (line, y))" "client_ok y"
      "client_stream pend y = skipped @ LF # rest"
    using read_string_takes [OF assms(1-5), of ns "[]"] by auto
  obtain x where x: "read_string L ns LF [] y = Some (Return (skipped, x))" "client_ok x" "client_stream pend x = rest"
    using read_string_takes [OF assms(1,2) y(2,3) assms(6), of ns "[]"] by auto
  have "read_line (client_stream pend z) = (line, rest)"
    using assms(4-6) by (simp add: read_line_def read_until_def takeWhile_append dropWhile_append)
  then show ?thesis using y(1) x by (simp add: read_request_line_def)
qed

section \<open>Property\<close>

text \<open>C26. The head of a request read line by line and byte by byte from the TCP client is what is read from the
  list of the bytes its peer sends, whatever pieces they arrive in and whatever was buffered before: the
  lines are the same, and the bytes behind them, the body, are still to be read.\<close>

theorem request_head_over_tcp:
  assumes "tcp_law L pend" "prompt_law L pend" "client_ok z"
    and "client_stream pend z = concat (map (\<lambda>l. l @ [CR, LF]) ls) @ body" "\<forall>l\<in>set ls. CR \<notin> set l"
  shows "\<exists>y. read_lines L ns (length ls) z = Some (Return (ls, y)) \<and> client_ok y \<and>
    list_lines (length ls) (client_stream pend z) = (ls, client_stream pend y) \<and> client_stream pend y = body"
  using assms(3-5)
proof (induction ls arbitrary: z)
  case Nil
  then show ?case by simp
next
  case (Cons l ls)
  let ?r = "concat (map (\<lambda>l. l @ [CR, LF]) ls) @ body"
  have s: "client_stream pend z = l @ CR # [] @ LF # ?r" using Cons.prems(2) by simp
  obtain y where y: "read_request_line L ns z = Some (Return (l, y))" "client_ok y"
      "read_line (client_stream pend z) = (l, client_stream pend y)"
    using request_line_over_tcp [OF assms(1,2) Cons.prems(1) s, of ns] Cons.prems(3) by auto
  have "client_stream pend y = ?r" using y(3) Cons.prems(3) unfolding s by (simp add: read_line_crlf)
  then show ?case using Cons.IH [OF y(2)] Cons.prems(3) y(1,3) by auto
qed

lemma request_head_over_tcp_witness:
  "\<exists>y. read_lines with_peer (\<lambda>k. 3) 3 (\<lparr>wc_fd = Some 48, wc_connected = True\<rparr>,
      \<lparr>sk_net = quiet_peer\<lparr>inbox := (\<lambda>n. ''GET / HTTP/1.1'' @ CR # LF # ''Host: lock'' @ [CR, LF, CR, LF])\<rparr>,
       sk_conns = [48 \<mapsto> (new_rx 48, 1)]\<rparr>) =
    Some (Return ([''GET / HTTP/1.1'', ''Host: lock'', []], y))"
proof -
  let ?z = "(\<lparr>wc_fd = Some 48, wc_connected = True\<rparr>,
      \<lparr>sk_net = quiet_peer\<lparr>inbox := (\<lambda>n. ''GET / HTTP/1.1'' @ CR # LF # ''Host: lock'' @ [CR, LF, CR, LF])\<rparr>,
       sk_conns = [48 \<mapsto> (new_rx 48, 1)]\<rparr>)"
  let ?ls = "[''GET / HTTP/1.1'', ''Host: lock'', []]"
  have "prompt_law with_peer (\<lambda>n w. inbox w n)"
    by (auto simp: prompt_law_def with_peer_def neq_Nil_conv take_Cons' Let_def)
  moreover have "client_ok ?z" by (simp add: client_ok_def rx_of_def rx_ok_new) (simp add: new_rx_def)
  moreover have "client_stream (\<lambda>n w. inbox w n) ?z = concat (map (\<lambda>l. l @ [CR, LF]) ?ls) @ []"
    by (simp add: client_stream_def rx_of_def content_def rx_ok_new new_rx_def buffered_def)
  ultimately show ?thesis
    using request_head_over_tcp [OF peer_receives, of ?z ?ls "[]" "\<lambda>k. 3"] by (auto simp: numeral_3_eq_3)
qed

end
