(* ===== verification/Ftp_Files.thy ===== *)
theory Ftp_Files
  imports Ftp_Client
begin

text \<open>
  Reading from an FTP server: the modification time, listings and downloads of \<open>FTPClient.cpp\<close>.
  What arrives on the data connection until nothing more is available is an argument.
\<close>

section \<open>Operations\<close>

text \<open>
  \<open>GetFTPAnswer\<close> with a result: the buffer is copied behind the first \<open>k\<close> bytes of the result, and
  only after an answer that is not an error.
\<close>

definition answer_into :: "nat \<Rightarrow> bytes \<Rightarrow> ftp \<Rightarrow> bool \<times> bytes \<times> ftp" where
  "answer_into k result s =
     (case GetFTPAnswer s of
        (False, s1) \<Rightarrow> (False, result, s1)
      | (True, s1) \<Rightarrow> (True, overwrite result k (take (OUTBUF - k) (outBuf s1)), s1))"

definition GetLastModifiedTime :: "string \<Rightarrow> bytes \<Rightarrow> ftp \<Rightarrow> bytes \<times> ftp" where
  "GetLastModifiedTime fileName result s =
     (if \<not> ftpConnected s then (result, s)
      else case answer_into 4 result (println (''MDTM '' @ fileName) s) of (ok, r, s1) \<Rightarrow> (r, s1))"

definition LIST_MAX :: nat where "LIST_MAX = 128"

definition after_last_space :: "string \<Rightarrow> string" where
  "after_last_space t = rev (takeWhile (\<lambda>c. c \<noteq> CHR '' '') (rev t))"

text \<open>\<open>None\<close> is a loop that does not end: behind the last element nothing is read any more.\<close>

partial_function (option) list_loop :: "(string \<Rightarrow> string) \<Rightarrow> nat \<Rightarrow> bytes \<Rightarrow> string list \<Rightarrow> string list option" where
  "list_loop f b dat list =
     (if dat = [] then Some list
      else if b < LIST_MAX
      then list_loop f (b + 1) (drop 1 (dropWhile (\<lambda>c. c \<noteq> LF) dat)) (list @ [f (takeWhile (\<lambda>c. c \<noteq> LF) dat)])
      else list_loop f b dat list)"

definition content_list :: "string \<Rightarrow> (string \<Rightarrow> string) \<Rightarrow> string \<Rightarrow> bytes \<Rightarrow> ftp \<Rightarrow> (bool \<times> string list \<times> ftp) option" where
  "content_list cmd f dir dat s =
     (if \<not> ftpConnected s then Some (False, [], s)
      else case ask (cmd @ dir) s of
          (False, s1) \<Rightarrow> Some (False, [], s1)
        | (True, s1) \<Rightarrow> map_option (\<lambda>l. (True, l, s1)) (list_loop f 0 dat []))"

definition ContentList :: "string \<Rightarrow> bytes \<Rightarrow> ftp \<Rightarrow> (bool \<times> string list \<times> ftp) option" where
  "ContentList = content_list ''MLSD'' (\<lambda>t. t)"

definition ContentListWithListCommand :: "string \<Rightarrow> bytes \<Rightarrow> ftp \<Rightarrow> (bool \<times> string list \<times> ftp) option" where
  "ContentListWithListCommand = content_list ''LIST'' after_last_space"

text \<open>The answer to \<open>RETR\<close> is read, its result is not used.\<close>

definition DownloadString :: "string \<Rightarrow> bytes \<Rightarrow> string \<Rightarrow> ftp \<Rightarrow> string \<times> ftp" where
  "DownloadString filename dat str s =
     (if \<not> ftpConnected s then (str, s) else (str @ dat, snd (ask (''RETR '' @ filename) s)))"

text \<open>Each part is read to the start of the buffer; a part may be shorter than asked for.\<close>

partial_function (option) file_loop :: "nat \<Rightarrow> bytes \<Rightarrow> bytes \<Rightarrow> bytes option" where
  "file_loop len dat buf =
     (if dat = [] then Some buf else file_loop len (drop len dat) (overwrite buf 0 (take len dat)))"

text \<open>With \<open>printUART\<close> the bytes are printed, one read for each of \<open>len\<close>; a read that gives none prints the last byte again.\<close>

fun print_part :: "nat \<Rightarrow> bytes \<Rightarrow> char \<Rightarrow> bytes \<Rightarrow> bytes \<times> char \<times> bytes" where
  "print_part 0 dat c shown = (dat, c, shown)"
| "print_part (Suc n) [] c shown = print_part n [] c (shown @ [c])"
| "print_part (Suc n) (x # dat) c shown = print_part n dat x (shown @ [x])"

partial_function (option) print_loop :: "nat \<Rightarrow> bytes \<Rightarrow> char \<Rightarrow> bytes \<Rightarrow> bytes option" where
  "print_loop len dat c shown =
     (if dat = [] then Some shown
      else case print_part len dat c shown of (rest, c1, shown1) \<Rightarrow> print_loop len rest c1 shown1)"

text \<open>The result: the buffer, and the bytes printed; \<open>c\<close> is the content of the small buffer at first.\<close>

definition DownloadFile :: "string \<Rightarrow> bytes \<Rightarrow> bytes \<Rightarrow> nat \<Rightarrow> bool \<Rightarrow> char \<Rightarrow> ftp \<Rightarrow> (bytes \<times> bytes \<times> ftp) option" where
  "DownloadFile filename dat buf len printUART c s =
     (if \<not> ftpConnected s then Some (buf, [], s)
      else
        let s1 = snd (ask (''RETR '' @ filename) s)
        in if printUART then map_option (\<lambda>shown. (buf, shown, s1)) (print_loop len dat c [])
           else map_option (\<lambda>b. (b, [], s1)) (file_loop len dat buf))"

section \<open>Listings\<close>

text \<open>The lines of a text, the last one with or without its line feed.\<close>

function text_lines :: "bytes \<Rightarrow> string list" where
  "text_lines dat =
     (if dat = [] then [] else takeWhile (\<lambda>c. c \<noteq> LF) dat # text_lines (drop 1 (dropWhile (\<lambda>c. c \<noteq> LF) dat)))"
  by pat_completeness auto
termination
proof (relation "measure length", simp)
  fix dat :: bytes
  assume "dat \<noteq> []"
  then show "(drop 1 (dropWhile (\<lambda>c. c \<noteq> LF) dat), dat) \<in> measure length"
    using length_dropWhile_le [of "\<lambda>c. c \<noteq> LF" dat] by (cases dat) auto
qed

declare text_lines.simps [simp del]

lemma list_loop_stuck: "list_loop f b dat l = Some r \<Longrightarrow> dat \<noteq> [] \<Longrightarrow> LIST_MAX \<le> b \<Longrightarrow> False"
  by (induction rule: list_loop.raw_induct [rotated, consumes 1]) (auto split: if_splits)

lemma list_loop_lines:
  "b \<le> LIST_MAX \<Longrightarrow>
     list_loop f b dat l = (if b + length (text_lines dat) \<le> LIST_MAX then Some (l @ map f (text_lines dat)) else None)"
proof (induction dat arbitrary: b l rule: text_lines.induct)
  case (1 dat)
  show ?case
  proof (cases "dat = []")
    case True
    then show ?thesis using 1(2) by (simp add: list_loop.simps text_lines.simps)
  next
    case False
    show ?thesis
    proof (cases "b < LIST_MAX")
      case True
      let ?rest = "drop 1 (dropWhile (\<lambda>c. c \<noteq> LF) dat)"
      have "list_loop f b dat l = list_loop f (b + 1) ?rest (l @ [f (takeWhile (\<lambda>c. c \<noteq> LF) dat)])"
        using False True by (subst list_loop.simps) simp
      also have "\<dots> = (if b + 1 + length (text_lines ?rest) \<le> LIST_MAX
          then Some ((l @ [f (takeWhile (\<lambda>c. c \<noteq> LF) dat)]) @ map f (text_lines ?rest)) else None)"
        by (rule 1(1) [OF False]) (use True in simp)
      finally show ?thesis using False by (simp add: text_lines.simps [of dat])
    next
      case full: False
      then have "list_loop f b dat l = None"
        using list_loop_stuck [of f b dat l] False by (cases "list_loop f b dat l") auto
      then show ?thesis using full 1(2) False by (simp add: text_lines.simps [of dat])
    qed
  qed
qed

text \<open>A listing: with at most 128 lines it gives the lines of what arrived, in order; with more, the
  call does not return.\<close>

lemma long_listing_never_ends:
  assumes "ftpConnected s" "ask (''LIST'' @ dir) s = (True, s1)"
  shows "ContentListWithListCommand dir dat s =
    (if length (text_lines dat) \<le> 128 then Some (True, map after_last_space (text_lines dat), s1) else None)"
  using assms list_loop_lines [of 0 after_last_space dat "[]"]
  by (simp add: ContentListWithListCommand_def content_list_def LIST_MAX_def)

section \<open>Downloads\<close>

text \<open>A file that fits is at the start of the buffer.\<close>

lemma short_file_arrives: "length dat \<le> len \<Longrightarrow> dat \<noteq> [] \<Longrightarrow> file_loop len dat buf = Some (overwrite buf 0 dat)"
  by (simp add: file_loop.simps)

text \<open>A longer file is not: its second part is written over the first.\<close>

lemma long_file_is_overwritten:
  "length a = len \<Longrightarrow> a \<noteq> [] \<Longrightarrow> b \<noteq> [] \<Longrightarrow> length b \<le> len \<Longrightarrow>
     file_loop len (a @ b) buf = Some (overwrite (overwrite buf 0 a) 0 b)"
  by (simp add: file_loop.simps [of _ "a @ b"] file_loop.simps [of _ b] file_loop.simps [of _ "[]"])

text \<open>The modification time stands four bytes behind the start of the result, which keeps its first four.\<close>

lemma time_is_shifted:
  assumes "ftpConnected s" "GetFTPAnswer (println (''MDTM '' @ f) s) = (True, s1)" "length result = OUTBUF"
  shows "take 4 (fst (GetLastModifiedTime f result s)) = take 4 result"
  using assms by (simp add: GetLastModifiedTime_def answer_into_def overwrite_def OUTBUF_def)

end
