(* ===== verification/Sketch_Base.thy ===== *)
theory Sketch_Base
  imports Http_Response
begin

text \<open>
  What the example sketches of the web server library share (\<open>replace_lib/WebServer/examples\<close>): the
  state of a sketch, the page that lists the arguments of an unknown request, and the calls of the
  file system they serve.  The file system is not part of the source: it is a record of operations on
  a disk \<open>'w\<close> with file objects \<open>'h\<close>, and a file object is passed on as the calls change it.
\<close>

section \<open>State\<close>

datatype file_mode = FILE_READ | FILE_WRITE

record ('h, 'w) file_system =
  fs_open :: "string \<Rightarrow> file_mode \<Rightarrow> 'w \<Rightarrow> 'h \<times> 'w"
  fs_exists :: "string \<Rightarrow> 'w \<Rightarrow> bool"
  fs_remove :: "string \<Rightarrow> 'w \<Rightarrow> 'w"
  fs_mkdir :: "string \<Rightarrow> 'w \<Rightarrow> 'w"
  fs_rmdir :: "string \<Rightarrow> 'w \<Rightarrow> 'w"
  file_ok :: "'h \<Rightarrow> 'w \<Rightarrow> bool"
    \<comment> \<open>the file object as a condition\<close>
  file_is_dir :: "'h \<Rightarrow> 'w \<Rightarrow> bool"
  file_name :: "'h \<Rightarrow> string"
  file_size :: "'h \<Rightarrow> 'w \<Rightarrow> u32"
  file_rest :: "'h \<Rightarrow> 'w \<Rightarrow> bytes"
    \<comment> \<open>what is still to be read\<close>
  file_write :: "bytes \<Rightarrow> 'h \<Rightarrow> 'w \<Rightarrow> 'h \<times> 'w"
  file_close :: "'h \<Rightarrow> 'w \<Rightarrow> 'w"
  dir_rewind :: "'h \<Rightarrow> 'w \<Rightarrow> 'h \<times> 'w"
  dir_next :: "'h \<Rightarrow> 'w \<Rightarrow> 'h \<times> 'h \<times> 'w"
    \<comment> \<open>\<open>openNextFile\<close>: the entry and the directory\<close>

record ('f, 'h, 'w) site =
  site_http :: "'f http"
  site_disk :: 'w
  site_upload :: 'h
    \<comment> \<open>the file that is being received\<close>

definition on_http :: "('f http \<Rightarrow> 'f http) \<Rightarrow> ('f, 'h, 'w, 'z) site_scheme \<Rightarrow> ('f, 'h, 'w, 'z) site_scheme" where
  "on_http g s = s\<lparr>site_http := g (site_http s)\<rparr>"

definition on_disk :: "('w \<Rightarrow> 'w) \<Rightarrow> ('f, 'h, 'w, 'z) site_scheme \<Rightarrow> ('f, 'h, 'w, 'z) site_scheme" where
  "on_disk g s = s\<lparr>site_disk := g (site_disk s)\<rparr>"

lemma on_http_disk [simp]: "site_disk (on_http g s) = site_disk s" "site_upload (on_http g s) = site_upload s"
    "site_http (on_http g s) = g (site_http s)"
  by (simp_all add: on_http_def)

lemma on_disk_http [simp]: "site_http (on_disk g s) = site_http s" "site_upload (on_disk g s) = site_upload s"
    "site_disk (on_disk g s) = g (site_disk s)"
  by (simp_all add: on_disk_def)

text \<open>\<open>streamFile\<close> with a file object: the announced length is the file's size, the body is what it still holds.\<close>

definition stream_open_file :: "('h, 'w) file_system \<Rightarrow> 'h \<Rightarrow> string \<Rightarrow> 'w \<Rightarrow> 'f http \<Rightarrow> 'f http" where
  "stream_open_file F h contentType w s =
     currentClientWrite (file_rest F h w) (streamFileCore (file_size F h w) (file_name F h) contentType s)"

lemma stream_open_file_whole:
  "file_size F h w = word_of_int (int (length (file_rest F h w))) \<Longrightarrow>
     stream_open_file F h ct w s = streamFile (file_name F h) (file_rest F h w) ct s"
  by (simp add: stream_open_file_def streamFile_def)

section \<open>The arguments of an unknown request\<close>

text \<open>
  The loop counts in a byte while \<open>args()\<close> is an \<open>int\<close>: with 256 arguments or more it starts again
  from the first, which is \<open>None\<close>.  \<open>line\<close> is the text of one argument.
\<close>

partial_function (option) list_args ::
  "(string \<Rightarrow> string \<Rightarrow> string) \<Rightarrow> 'z http_args_scheme \<Rightarrow> u8 \<Rightarrow> string \<Rightarrow> string option" where
  "list_args line h i message =
     (if unat i < length (currentArgs h)
      then list_args line h (i + 1) (message @ line (argName (unat i) h) (arg_at (unat i) h))
      else Some message)"

definition request_text :: "(string \<Rightarrow> string \<Rightarrow> string) \<Rightarrow> string \<Rightarrow> 'f http \<Rightarrow> string option" where
  "request_text line title h =
     list_args line h 0
       (title @ ''URI: '' @ currentUri h @ [LF] @ ''Method: '' @
        (if currentMethod h = HTTP_GET then ''GET'' else ''POST'') @ [LF] @ ''Arguments: '' @
        dec_int (int (length (currentArgs h))) @ [LF])"

lemma list_args_from:
  assumes "length (currentArgs h) \<le> 255" "unat i \<le> length (currentArgs h)"
  shows "list_args line h i m = Some (m @ concat (map (\<lambda>(k, v). line k v) (drop (unat i) (currentArgs h))))"
  using assms(2)
proof (induction "length (currentArgs h) - unat i" arbitrary: i m)
  case 0
  then show ?case by (simp add: list_args.simps)
next
  case (Suc d)
  then have lt: "unat i < length (currentArgs h)" by linarith
  then have suc: "unat (i + 1) = unat i + 1"
    using assms(1) by (subst unat_add_lem [THEN iffD1]) auto
  obtain k v where kv: "currentArgs h ! unat i = (k, v)" by fastforce
  have "list_args line h i m = list_args line h (i + 1) (m @ line k v)"
    using lt kv by (simp add: list_args.simps [of line h i] argName_def arg_at_def)
  also have "\<dots> = Some ((m @ line k v) @ concat (map (\<lambda>(k, v). line k v) (drop (unat (i + 1)) (currentArgs h))))"
    using Suc lt suc by (intro Suc.hyps(1)) linarith+
  finally show ?case using lt kv suc Cons_nth_drop_Suc [OF lt, symmetric] by simp
qed

lemma list_args_all:
  "length (currentArgs h) \<le> 255 \<Longrightarrow>
     list_args line h 0 m = Some (m @ concat (map (\<lambda>(k, v). line k v) (currentArgs h)))"
  using list_args_from [of h 0] by simp

text \<open>With more arguments there is no answer.\<close>

lemma list_args_never_returns:
  "list_args line h i m = Some r \<Longrightarrow> 256 \<le> length (currentArgs h) \<Longrightarrow> False"
proof (induction rule: list_args.raw_induct [rotated, consumes 1])
  case (1 rec line h i m r)
  have "unat i < 2 ^ 8" using unsigned_less [of i] by simp
  then have "unat i < length (currentArgs h)" using 1(3) by simp
  then show ?case using 1 by auto
qed

lemma list_args_never: "256 \<le> length (currentArgs h) \<Longrightarrow> list_args line h i m = None"
  using list_args_never_returns by (cases "list_args line h i m") blast+

text \<open>\<open>%02d\<close>\<close>

definition two_digits :: "nat \<Rightarrow> string" where
  "two_digits n = (if n < 10 then ''0'' @ dec n else dec n)"

section \<open>Receiving a file\<close>

text \<open>
  What the upload handlers do with one call, behind what they do to the name: the state of the upload,
  what its buffer holds, and its size.  An aborted upload is not closed.
\<close>

definition receive_file ::
  "('h, 'w) file_system \<Rightarrow> string \<Rightarrow> upload_status \<times> bytes \<times> u32 \<Rightarrow>
   ('f, 'h, 'w, 'z) site_scheme \<Rightarrow> ('f, 'h, 'w, 'z) site_scheme" where
  "receive_file F path up s =
     (case up of
        (UPLOAD_FILE_START, buf, n) \<Rightarrow>
          (let (f, w) = fs_open F path FILE_WRITE (site_disk s) in s\<lparr>site_upload := f, site_disk := w\<rparr>)
      | (UPLOAD_FILE_WRITE, buf, n) \<Rightarrow>
          (if file_ok F (site_upload s) (site_disk s)
           then (let (f, w) = file_write F buf (site_upload s) (site_disk s) in s\<lparr>site_upload := f, site_disk := w\<rparr>)
           else s)
      | (UPLOAD_FILE_END, buf, n) \<Rightarrow>
          (if file_ok F (site_upload s) (site_disk s) then on_disk (file_close F (site_upload s)) s else s)
      | (UPLOAD_FILE_ABORTED, buf, n) \<Rightarrow> s)"

lemma receive_file_http [simp]: "site_http (receive_file F path up s) = site_http s"
  by (cases up; cases "fst up") (auto simp: receive_file_def split: prod.splits)

text \<open>The calls of an upload that comes to its end: one that starts it, those with bytes, one that ends it.\<close>

definition calls_open :: "upload \<Rightarrow> bool" where
  "calls_open u \<longleftrightarrow> u_canUpload u \<and> u_status u = UPLOAD_FILE_WRITE \<and>
     (\<exists>cs. u_calls u = (UPLOAD_FILE_START, [], 0) # cs \<and> (\<forall>c \<in> set cs. fst c = UPLOAD_FILE_WRITE))"

lemma calls_open_start: "calls_open (start_upload name fn ty True)"
  by (simp add: calls_open_def start_upload_def call_handler_def Let_def)

interpretation upload_calls: invariant_steps uploadWriteByte calls_open "\<lambda>_. True"
  by unfold_locales (auto simp: calls_open_def uploadWriteByte_def call_handler_def Let_def)

lemma received_pieces:
  "\<forall>c \<in> set cs. fst c = UPLOAD_FILE_WRITE \<Longrightarrow>
     concat (map (\<lambda>(st, b, n). if st = UPLOAD_FILE_WRITE then b else []) cs) = concat (map (\<lambda>(st, b, n). b) cs)"
  by (induction cs) auto

lemma upload_calls_shape:
  "\<exists>cs n. u_calls (end_upload (write_bytes bs (start_upload name fn ty True))) =
     (UPLOAD_FILE_START, [], 0) # cs @ [(UPLOAD_FILE_END, n)] \<and> (\<forall>c \<in> set cs. fst c = UPLOAD_FILE_WRITE) \<and>
     concat (map (\<lambda>(st, b, n). b) cs) = bs"
proof -
  let ?u = "write_bytes bs (start_upload name fn ty True)"
  have "calls_open ?u"
    using upload_calls.run_keeps [OF calls_open_start] by (simp add: write_bytes_def list_all_iff)
  then obtain cs n where cs: "u_calls (end_upload ?u) = (UPLOAD_FILE_START, [], 0) # cs @ [(UPLOAD_FILE_END, n)]"
      "\<forall>c \<in> set cs. fst c = UPLOAD_FILE_WRITE"
    by (fastforce simp: calls_open_def end_upload_def call_handler_def Let_def)
  have "buffer_ok ?u" "received ?u @ u_buf ?u = bs"
    using write_bytes_ok [of "start_upload name fn ty True" bs] start_upload_ok [of name fn ty] by simp_all
  then have "received (end_upload ?u) = bs" using end_upload_received by metis
  then have "concat (map (\<lambda>(st, b, n). b) cs) = bs"
    using cs received_pieces [OF cs(2)] by (cases n) (simp add: received_def)
  then show ?thesis using cs by blast
qed

text \<open>
  \<open>held\<close> is the content of the file at the path, \<open>mine\<close> says that a file object was opened there for
  writing.
\<close>

definition write_law ::
  "('h, 'w) file_system \<Rightarrow> string \<Rightarrow> ('w \<Rightarrow> bytes option) \<Rightarrow> ('h \<Rightarrow> bool) \<Rightarrow> bool" where
  "write_law F path held mine \<longleftrightarrow>
     (\<forall>w. case fs_open F path FILE_WRITE w of (h, w1) \<Rightarrow> mine h \<and> (file_ok F h w1 \<longrightarrow> held w1 = Some [])) \<and>
     (\<forall>h w b c. mine h \<and> file_ok F h w \<and> held w = Some c \<longrightarrow>
        (case file_write F b h w of (h1, w1) \<Rightarrow> mine h1 \<and> file_ok F h1 w1 \<and> held w1 = Some (c @ b))) \<and>
     (\<forall>h w. held (file_close F h w) = held w)"

lemma write_law_open:
  assumes "write_law F path held mine" "fs_open F path FILE_WRITE w = (h, w1)"
  shows "mine h" "file_ok F h w1 \<Longrightarrow> held w1 = Some []"
proof -
  have "case fs_open F path FILE_WRITE w of (h, w1) \<Rightarrow> mine h \<and> (file_ok F h w1 \<longrightarrow> held w1 = Some [])"
    using assms(1) by (simp add: write_law_def)
  then show "mine h" "file_ok F h w1 \<Longrightarrow> held w1 = Some []" using assms(2) by simp_all
qed

lemma write_law_write:
  assumes "write_law F path held mine" "file_write F b h w = (h1, w1)"
    and "mine h" "file_ok F h w" "held w = Some c"
  shows "mine h1 \<and> file_ok F h1 w1 \<and> held w1 = Some (c @ b)"
proof -
  have "case file_write F b h w of (h1, w1) \<Rightarrow> mine h1 \<and> file_ok F h1 w1 \<and> held w1 = Some (c @ b)"
    using assms(1) [unfolded write_law_def, THEN conjunct2, THEN conjunct1, rule_format, of h w c b] assms(3-5) by simp
  then show ?thesis using assms(2) by simp
qed

lemma write_law_close: "write_law F path held mine \<Longrightarrow> held (file_close F h w) = held w"
  by (simp add: write_law_def)

lemma receive_pieces:
  assumes law: "write_law F path held mine"
  shows "\<forall>c \<in> set cs. fst c = UPLOAD_FILE_WRITE \<Longrightarrow> mine (site_upload s) \<Longrightarrow>
    file_ok F (site_upload s) (site_disk s) \<Longrightarrow> held (site_disk s) = Some b \<Longrightarrow>
    (let t = fold (receive_file F path) cs s in
       file_ok F (site_upload t) (site_disk t) \<and> held (site_disk t) = Some (b @ concat (map (\<lambda>(st, b, n). b) cs)))"
proof (induction cs arbitrary: s b)
  case (Cons c cs)
  obtain buf n where c: "c = (UPLOAD_FILE_WRITE, buf, n)" using Cons.prems(1) by (cases c) auto
  obtain h w where wr: "file_write F buf (site_upload s) (site_disk s) = (h, w)" by fastforce
  have "mine h \<and> file_ok F h w \<and> held w = Some (b @ buf)"
    using write_law_write [OF law wr] Cons.prems by simp
  then show ?case
    using Cons.IH [of "s\<lparr>site_upload := h, site_disk := w\<rparr>" "b @ buf"] Cons.prems c wr
    by (simp add: receive_file_def Let_def)
qed simp

lemma received_file_is_held:
  fixes s :: "('f, 'h, 'w, 'z) site_scheme"
  assumes law: "write_law F path held mine"
    and op: "case fs_open F path FILE_WRITE (site_disk s) of (h, w) \<Rightarrow> file_ok F h w"
    and u: "u = end_upload (write_bytes bs (start_upload name fn ty True))"
  shows "held (site_disk (fold (receive_file F path) (u_calls u) s)) = Some bs"
proof -
  obtain cs n where cs: "u_calls u = (UPLOAD_FILE_START, [], 0) # cs @ [(UPLOAD_FILE_END, n)]"
      "\<forall>c \<in> set cs. fst c = UPLOAD_FILE_WRITE" and bs: "concat (map (\<lambda>(st, b, n). b) cs) = bs"
    using upload_calls_shape u by blast
  obtain h w where hw: "fs_open F path FILE_WRITE (site_disk s) = (h, w)" by fastforce
  define s1 where "s1 = s\<lparr>site_upload := h, site_disk := w\<rparr>"
  have "mine h" "file_ok F h w" "held w = Some []"
    using write_law_open [OF law hw] op hw by simp_all
  then have "let t = fold (receive_file F path) cs s1 in
      file_ok F (site_upload t) (site_disk t) \<and> held (site_disk t) = Some ([] @ concat (map (\<lambda>(st, b, n). b) cs))"
    by (intro receive_pieces [OF law cs(2)]) (simp_all add: s1_def)
  moreover have "fold (receive_file F path) (u_calls u) s =
      receive_file F path (UPLOAD_FILE_END, n) (fold (receive_file F path) cs s1)"
    using cs hw by (simp add: receive_file_def s1_def)
  ultimately show ?thesis
    using bs write_law_close [OF law] by (cases n) (auto simp: receive_file_def Let_def)
qed

end
