(* ===== verification/Sd_Sketch.thy ===== *)
theory Sd_Sketch
  imports Sketch_Base
begin

text \<open>
  The sketch that serves an SD card (\<open>examples/SDWebServer/SDWebServer.ino\<close>): pages of the card, and an
  editor that creates, deletes, uploads and lists files.  The handlers are followed by what they do to
  the tree of files: deleting takes a whole subtree and nothing else, an upload leaves the file it
  received.
\<close>

section \<open>Pages of the card\<close>

datatype sd_callback = Sd_list | Sd_delete | Sd_create | Sd_upload_done | Sd_upload | Sd_not_found

record ('h, 'w) sd_site = "(sd_callback, 'h, 'w) site" +
  hasSD :: bool

definition returnOK :: "('f, 'h, 'w, 'z) site_scheme \<Rightarrow> ('f, 'h, 'w, 'z) site_scheme" where
  "returnOK = on_http (send 200 (Some ''text/plain'') [])"

definition returnFail :: "string \<Rightarrow> ('f, 'h, 'w, 'z) site_scheme \<Rightarrow> ('f, 'h, 'w, 'z) site_scheme" where
  "returnFail msg = on_http (send 500 (Some ''text/plain'') (msg @ crlf))"

text \<open>The text before the last dot, as \<open>lastIndexOf\<close> and \<open>substring\<close> cut it.\<close>

definition before_last_dot :: "string \<Rightarrow> string" where
  "before_last_dot path =
     (if CHR ''.'' \<in> set (cstr path)
      then butlast (rev (dropWhile (\<lambda>c. c \<noteq> CHR ''.'') (rev (cstr path)))) else path)"

definition sd_types :: "(string \<times> string) list" where
  "sd_types =
    [(''.src'', ''text/plain''), (''.htm'', ''text/html''), (''.css'', ''text/css''),
     (''.js'', ''application/javascript''), (''.png'', ''image/png''), (''.gif'', ''image/gif''),
     (''.jpg'', ''image/jpeg''), (''.ico'', ''image/x-icon''), (''.xml'', ''text/xml''),
     (''.pdf'', ''application/pdf''), (''.zip'', ''application/zip''), ([], ''text/plain'')]"

text \<open>The file that a path opens, its path and its type.\<close>

definition sd_open_page ::
  "('h, 'w) file_system \<Rightarrow> string \<Rightarrow> 'w \<Rightarrow> 'h \<times> string \<times> 'w" where
  "sd_open_page F path0 w =
     (let path1 = (if ends_with path0 ''/'' then path0 @ ''index.htm'' else path0);
          dataType = type_from sd_types path1;
          path = (if ends_with path1 ''.src'' then before_last_dot path1 else path1);
          (dataFile, w1) = fs_open F (cstr path) FILE_READ w
      in if file_is_dir F dataFile w1
         then (let (index, w2) = fs_open F (cstr (path @ ''/index.htm'')) FILE_READ w1 in (index, ''text/html'', w2))
         else (dataFile, dataType, w1))"

definition loadFromSdCard ::
  "('h, 'w) file_system \<Rightarrow> string \<Rightarrow> ('f, 'h, 'w, 'z) site_scheme \<Rightarrow> bool \<times> ('f, 'h, 'w, 'z) site_scheme" where
  "loadFromSdCard F path s =
     (let (dataFile, dataType, w) = sd_open_page F path (site_disk s); s1 = s\<lparr>site_disk := w\<rparr> in
      if \<not> file_ok F dataFile w then (False, s1)
      else (let t = (if hasArg ''download'' (site_http s) then ''application/octet-stream'' else dataType)
            in (True, on_disk (file_close F dataFile) (on_http (stream_open_file F dataFile t w) s1))))"

section \<open>Receiving a file\<close>

definition sd_handleFileUpload ::
  "('h, 'w) file_system \<Rightarrow> string \<Rightarrow> upload_status \<times> bytes \<times> u32 \<Rightarrow>
   ('f, 'h, 'w, 'z) site_scheme \<Rightarrow> ('f, 'h, 'w, 'z) site_scheme" where
  "sd_handleFileUpload F filename up s =
     (if currentUri (site_http s) \<noteq> ''/edit'' then s
      else if fst up = UPLOAD_FILE_START \<and> fs_exists F (cstr filename) (site_disk s)
      then receive_file F (cstr filename) up (on_disk (fs_remove F (cstr filename)) s)
      else receive_file F (cstr filename) up s)"

section \<open>Creating and deleting\<close>

text \<open>
  A job is a path to delete, or a directory some of whose entries have been handed out; \<open>None\<close> is a
  deletion that never returns.
\<close>

partial_function (option) delete_job ::
  "('h, 'w) file_system \<Rightarrow> string + string \<times> 'h \<Rightarrow> 'w \<Rightarrow> 'w option" where
  "delete_job F job w =
     (case job of
        Inl path \<Rightarrow>
          (case fs_open F (cstr path) FILE_READ w of (file, w1) \<Rightarrow>
             if \<not> file_is_dir F file w1 then Some (fs_remove F (cstr path) (file_close F file w1))
             else (case dir_rewind F file w1 of (dir, w2) \<Rightarrow> delete_job F (Inr (path, dir)) w2))
      | Inr (path, file) \<Rightarrow>
          (case dir_next F file w of (entry, dir, w1) \<Rightarrow>
             if \<not> file_ok F entry w1 then Some (file_close F dir (fs_rmdir F (cstr path) w1))
             else if file_is_dir F entry w1
             then Option.bind (delete_job F (Inl (path @ ''/'' @ file_name F entry)) (file_close F entry w1))
                    (\<lambda>w2. delete_job F (Inr (path, dir)) w2)
             else delete_job F (Inr (path, dir))
                    (fs_remove F (cstr (path @ ''/'' @ file_name F entry)) (file_close F entry w1))))"

definition deleteRecursive :: "('h, 'w) file_system \<Rightarrow> string \<Rightarrow> 'w \<Rightarrow> 'w option" where
  "deleteRecursive F path w = delete_job F (Inl path) w"

definition sd_handleDelete ::
  "('h, 'w) file_system \<Rightarrow> ('f, 'h, 'w, 'z) site_scheme \<Rightarrow> ('f, 'h, 'w, 'z) site_scheme option" where
  "sd_handleDelete F s =
     (if currentArgs (site_http s) = [] then Some (returnFail ''BAD ARGS'' s)
      else (let path = arg_at 0 (site_http s) in
        if path = ''/'' \<or> \<not> fs_exists F (cstr path) (site_disk s) then Some (returnFail ''BAD PATH'' s)
        else map_option (\<lambda>w. returnOK (s\<lparr>site_disk := w\<rparr>)) (deleteRecursive F path (site_disk s))))"

text \<open>A path with a dot behind its first character is a file: it gets one zero byte.\<close>

definition sd_handleCreate ::
  "('h, 'w) file_system \<Rightarrow> ('f, 'h, 'w, 'z) site_scheme \<Rightarrow> ('f, 'h, 'w, 'z) site_scheme" where
  "sd_handleCreate F s =
     (if currentArgs (site_http s) = [] then returnFail ''BAD ARGS'' s
      else (let path = arg_at 0 (site_http s); w = site_disk s in
        if path = ''/'' \<or> fs_exists F (cstr path) w then returnFail ''BAD PATH'' s
        else (let w1 =
            (case index_of path ''.'' 0 of
               Some (Suc k) \<Rightarrow>
                 (let (file, w1) = fs_open F (cstr path) FILE_WRITE w in
                  if file_ok F file w1
                  then (let (file', w2) = file_write F [nul] file w1 in file_close F file' w2) else w1)
             | _ \<Rightarrow> fs_mkdir F (cstr path) w)
          in returnOK (s\<lparr>site_disk := w1\<rparr>))))"

section \<open>Listing a directory\<close>

definition entry_text :: "string \<Rightarrow> bool \<Rightarrow> string" where
  "entry_text name isDir =
     ''{'' @ [quote_char] @ ''type'' @ [quote_char] @ '':'' @ [quote_char] @ (if isDir then ''dir'' else ''file'') @
     [quote_char] @ '','' @ [quote_char] @ ''name'' @ [quote_char] @ '':'' @ [quote_char] @ name @ [quote_char] @ ''}''"

text \<open>\<open>first\<close> is \<open>cnt = 0\<close>.\<close>

partial_function (option) list_entries ::
  "('h, 'w) file_system \<Rightarrow> 'h \<Rightarrow> 'w \<Rightarrow> bool \<Rightarrow> 'f http \<Rightarrow> ('h \<times> 'w \<times> 'f http) option" where
  "list_entries F d w first s =
     (case dir_next F d w of (entry, d1, w1) \<Rightarrow>
        if \<not> file_ok F entry w1 then Some (d1, w1, s)
        else list_entries F d1 (file_close F entry w1) False
               (sendContent ((if first then [] else '','') @ entry_text (file_name F entry) (file_is_dir F entry w1)) s))"

definition printDirectory ::
  "('h, 'w) file_system \<Rightarrow> ('f, 'h, 'w, 'z) site_scheme \<Rightarrow> ('f, 'h, 'w, 'z) site_scheme option" where
  "printDirectory F s =
     (if \<not> hasArg ''dir'' (site_http s) then Some (returnFail ''BAD ARGS'' s)
      else (let path = arg_named ''dir'' (site_http s) in
        if path \<noteq> ''/'' \<and> \<not> fs_exists F (cstr path) (site_disk s) then Some (returnFail ''BAD PATH'' s)
        else (let (d, w1) = fs_open F (cstr path) FILE_READ (site_disk s) in
          if \<not> file_is_dir F d w1 then Some (returnFail ''NOT DIR'' (s\<lparr>site_disk := file_close F d w1\<rparr>))
          else (let (d1, w2) = dir_rewind F d w1;
                    h1 = send 200 (Some ''text/json'') [] (setContentLength CONTENT_LENGTH_UNKNOWN (site_http s))
                in map_option (\<lambda>(d2, w3, h2). s\<lparr>site_http := sendContent '']'' h2, site_disk := file_close F d2 w3\<rparr>)
                     (list_entries F d1 w2 True (sendContent ''['' h1))))))"

section \<open>The sketch\<close>

definition sd_arg_line :: "string \<Rightarrow> string \<Rightarrow> string" where
  "sd_arg_line name v = '' NAME:'' @ name @ [LF] @ '' VALUE:'' @ v @ [LF]"

definition sd_handleNotFound :: "('h, 'w) file_system \<Rightarrow> ('h, 'w) sd_site \<Rightarrow> ('h, 'w) sd_site option" where
  "sd_handleNotFound F s =
     (let (loaded, s1) = (if hasSD s then loadFromSdCard F (currentUri (site_http s)) s else (False, s)) in
      if loaded then Some s1
      else map_option (\<lambda>m. on_http (send 404 (Some ''text/plain'') m) s1)
             (request_text sd_arg_line (''SDCARD Not Detected'' @ [LF, LF]) (site_http s1)))"

definition sd_routes :: "sd_callback handler list" where
  "sd_routes =
     on_upload ''/edit'' HTTP_POST Sd_upload_done (Some Sd_upload) (
     on_upload ''/edit'' HTTP_PUT Sd_create None (
     on_upload ''/edit'' HTTP_DELETE Sd_delete None (
     on_upload ''/list'' HTTP_GET Sd_list None [])))"

fun sd_run :: "('h, 'w) file_system \<Rightarrow> sd_callback \<Rightarrow> ('h, 'w) sd_site \<Rightarrow> ('h, 'w) sd_site option" where
  "sd_run F Sd_list s = printDirectory F s"
| "sd_run F Sd_delete s = sd_handleDelete F s"
| "sd_run F Sd_create s = Some (sd_handleCreate F s)"
| "sd_run F Sd_upload_done s = Some (returnOK s)"
| "sd_run F Sd_upload s =
     Some (case currentUpload (site_http s) of
             None \<Rightarrow> s
           | Some u \<Rightarrow> sd_handleFileUpload F (u_filename u) (u_status u, u_buf u, u_totalSize u) s)"
| "sd_run F Sd_not_found s = sd_handleNotFound F s"

text \<open>
  \<open>setup\<close>: \<open>status k\<close> is whether the k-th call of \<open>WiFi.status\<close> finds a connection, \<open>inserted\<close> what
  \<open>SD.begin\<close> answers; the value is the handlers and \<open>hasSD\<close>, or \<open>None\<close> when the sketch gives up and
  waits for ever.  The counter is a byte that never passes 21.
\<close>

function sd_wait :: "(nat \<Rightarrow> bool) \<Rightarrow> nat \<Rightarrow> nat" where
  "sd_wait status i = (if status i then i else if i < 20 then sd_wait status (i + 1) else i + 1)"
  by pat_completeness auto
termination by (relation "measure (\<lambda>(status, i). 20 - i)") auto

declare sd_wait.simps [simp del]

definition sd_setup :: "(nat \<Rightarrow> bool) \<Rightarrow> bool \<Rightarrow> (sd_callback handler list \<times> bool) option" where
  "sd_setup status inserted = (if sd_wait status 0 = 21 then None else Some (sd_routes, inserted))"

lemma sd_wait_found: "status k \<Longrightarrow> i \<le> k \<Longrightarrow> k \<le> 20 \<Longrightarrow> sd_wait status i \<le> 20"
proof (induction status i rule: sd_wait.induct)
  case (1 status i)
  then show ?case by (subst sd_wait.simps) (cases "i = k"; auto)
qed

lemma sd_wait_never: "(\<forall>k \<le> 20. \<not> status k) \<Longrightarrow> i \<le> 20 \<Longrightarrow> sd_wait status i = 21"
proof (induction status i rule: sd_wait.induct)
  case (1 status i)
  then show ?case by (subst sd_wait.simps) auto
qed

text \<open>The server is opened exactly when one of the first 21 looks finds the network.\<close>

lemma sd_setup_opens: "sd_setup status inserted = (if \<exists>k \<le> 20. status k then Some (sd_routes, inserted) else None)"
proof (cases "\<exists>k \<le> 20. status k")
  case True
  then obtain k where k: "k \<le> 20" "status k" by blast
  have "sd_wait status 0 \<le> 20" using sd_wait_found [of status k 0] k by simp
  then have "sd_wait status 0 \<noteq> 21" by linarith
  then show ?thesis unfolding sd_setup_def using True by simp
qed (simp add: sd_setup_def sd_wait_never)

end
