(* ===== verification/Sd_Facts.thy ===== *)
theory Sd_Facts
  imports Sd_Sketch "HOL-Library.Sublist"
begin

text \<open>
  What the handlers of the SD card sketch do to the tree of files.  The card is seen through
  \<open>nodes\<close>, the files by the components of their paths; \<open>disk_law\<close> says what its operations do to
  them, and is met by a card kept in memory.  What \<open>File::name\<close> answers differs between the versions of
  the library: the name in the folder, as this sketch takes it, or the whole path, as \<open>FSBrowser.ino\<close> does.
  Both are followed.
\<close>

section \<open>Trees of files\<close>

datatype node = Folder | Document bytes

type_synonym tree = "string list \<Rightarrow> node option"

definition good_name :: "string \<Rightarrow> bool" where
  "good_name n \<longleftrightarrow> n \<noteq> [] \<and> CHR ''/'' \<notin> set n \<and> nul \<notin> set n"

definition path_of :: "string list \<Rightarrow> string" where
  "path_of ns = concat (map (\<lambda>n. CHR ''/'' # n) ns)"

definition tree_ok :: "tree \<Rightarrow> bool" where
  "tree_ok t \<longleftrightarrow> finite (dom t) \<and> (\<forall>m \<in> dom t. list_all good_name m) \<and>
     (\<forall>m n. t (m @ [n]) \<noteq> None \<longrightarrow> t m = Some Folder)"

definition cut :: "string list \<Rightarrow> tree \<Rightarrow> tree" where
  "cut ns t = (\<lambda>m. if prefix ns m then None else t m)"

lemma path_of_snoc [simp]: "path_of (ns @ [n]) = path_of ns @ ''/'' @ n"
  by (simp add: path_of_def)

lemma cstr_path_of [simp]: "list_all good_name ns \<Longrightarrow> cstr (path_of ns) = path_of ns"
  by (intro cstr_id) (auto simp: path_of_def good_name_def list_all_iff)

lemma tree_ok_parent: "tree_ok t \<Longrightarrow> t (m @ r) \<noteq> None \<Longrightarrow> r \<noteq> [] \<Longrightarrow> t m = Some Folder"
proof (induction r rule: rev_induct)
  case (snoc n r)
  then have "t (m @ r) = Some Folder"
    by (metis append_assoc tree_ok_def)
  then show ?case using snoc by (cases r) auto
qed simp

lemma tree_ok_names: "tree_ok t \<Longrightarrow> t m \<noteq> None \<Longrightarrow> list_all good_name m"
  by (auto simp: tree_ok_def)

lemma tree_ok_cut: "tree_ok t \<Longrightarrow> tree_ok (cut ns t)"
proof -
  assume ok: "tree_ok t"
  have "dom (cut ns t) \<subseteq> dom t" by (auto simp: cut_def split: if_splits)
  moreover have "cut ns t m = Some Folder" if "cut ns t (m @ [n]) \<noteq> None" for m n
    using that ok by (auto simp: cut_def tree_ok_def split: if_splits)
  ultimately show ?thesis using ok finite_subset unfolding tree_ok_def by blast
qed

lemma cut_cut [simp]: "cut ns (cut (ns @ ms) t) = cut ns t"
  by (rule ext) (auto simp: cut_def prefix_def)

text \<open>Below a document, or an empty folder, there is nothing.\<close>

lemma cut_leaf:
  assumes "tree_ok t" "t ns \<noteq> Some Folder \<or> (\<forall>n. t (ns @ [n]) = None)"
  shows "cut ns t = t(ns := None)"
proof
  fix m
  show "cut ns t m = (t(ns := None)) m"
  proof (cases "prefix ns m \<and> m \<noteq> ns")
    case True
    then obtain n r where m: "m = ns @ n # r" by (metis append_Nil2 neq_Nil_conv prefix_def)
    have "t m = None"
    proof (rule ccontr)
      assume some: "t m \<noteq> None"
      have "t ns = Some Folder" using tree_ok_parent [OF assms(1), of ns "n # r"] some m by simp
      moreover have "t (ns @ [n]) \<noteq> None"
        using tree_ok_parent [OF assms(1), of "ns @ [n]" r] some m by (cases r) auto
      ultimately show False using assms(2) by simp
    qed
    then show ?thesis using True by (simp add: cut_def)
  qed (auto simp: cut_def)
qed

section \<open>The components of a path\<close>

fun split_slash :: "string \<Rightarrow> string list" where
  "split_slash [] = []"
| "split_slash (c # s) =
     (if c = CHR ''/'' then [] # split_slash s
      else case split_slash s of [] \<Rightarrow> [[c]] | n # ns \<Rightarrow> (c # n) # ns)"

text \<open>Doubled separators are skipped.\<close>

definition components :: "string \<Rightarrow> string list" where
  "components p = filter (\<lambda>n. n \<noteq> []) (split_slash p)"

definition absolute :: "string \<Rightarrow> bool" where
  "absolute p \<longleftrightarrow> p \<noteq> [] \<and> hd p = CHR ''/'' \<and> nul \<notin> set p"

lemma components_Nil [simp]: "components [] = []"
  by (simp add: components_def)

lemma components_slash [simp]: "components (CHR ''/'' # p) = components p"
  by (simp add: components_def)

lemma split_slash_name:
  "n \<noteq> [] \<Longrightarrow> CHR ''/'' \<notin> set n \<Longrightarrow> p = [] \<or> hd p = CHR ''/'' \<Longrightarrow>
     \<exists>r. split_slash (n @ p) = n # r \<and> filter (\<lambda>m. m \<noteq> []) r = components p"
proof (induction n)
  case (Cons c n)
  show ?case
  proof (cases "n = []")
    case True
    then show ?thesis using Cons.prems by (cases p) (auto simp: components_def)
  next
    case False
    then obtain r where "split_slash (n @ p) = n # r" "filter (\<lambda>m. m \<noteq> []) r = components p"
      using Cons by auto
    then show ?thesis using Cons.prems by auto
  qed
qed simp

lemma components_name:
  assumes "good_name n" "p = [] \<or> hd p = CHR ''/''"
  shows "components (n @ p) = n # components p"
proof -
  obtain r where "split_slash (n @ p) = n # r" "filter (\<lambda>m. m \<noteq> []) r = components p"
    using split_slash_name [of n p] assms by (auto simp: good_name_def)
  then show ?thesis using assms(1) by (simp add: components_def good_name_def)
qed

lemma path_of_Cons: "path_of (n # ns) = CHR ''/'' # n @ path_of ns"
  by (simp add: path_of_def)

lemma hd_path_of: "path_of ns = [] \<or> hd (path_of ns) = CHR ''/''"
  by (cases ns) (simp_all add: path_of_def)

lemma components_path_append:
  "list_all good_name ns \<Longrightarrow> p = [] \<or> hd p = CHR ''/'' \<Longrightarrow> components (path_of ns @ p) = ns @ components p"
proof (induction ns)
  case (Cons n ns)
  have "path_of ns @ p = [] \<or> hd (path_of ns @ p) = CHR ''/''"
    using hd_path_of [of ns] Cons.prems(2) by (cases "path_of ns") auto
  then show ?case using Cons components_name [of n "path_of ns @ p"] by (simp add: path_of_Cons)
qed (simp add: path_of_def)

lemma components_path [simp]: "list_all good_name ns \<Longrightarrow> components (path_of ns) = ns"
  using components_path_append [of ns "[]"] by simp

lemma absolute_path_of: "list_all good_name ns \<Longrightarrow> ns \<noteq> [] \<Longrightarrow> absolute (path_of ns)"
  by (cases ns) (auto simp: absolute_def path_of_def good_name_def list_all_iff)

section \<open>What is assumed of the card\<close>

datatype naming = Base_names | Full_paths

definition entry_name :: "naming \<Rightarrow> string list \<Rightarrow> string \<Rightarrow> string" where
  "entry_name nm ns n = (case nm of Base_names \<Rightarrow> n | Full_paths \<Rightarrow> path_of (ns @ [n]))"

text \<open>
  \<open>folder h\<close> and \<open>pending h\<close> are what a directory object stands for and the entries it has still to
  hand out.  Entries that are there are handed out whatever has been removed before.  A path names the node
  of its components; what is not there is not a directory and cannot be removed, and only an empty folder
  can.
\<close>

definition path_law ::
  "('h, 'w) file_system \<Rightarrow> ('w \<Rightarrow> tree) \<Rightarrow> ('h \<Rightarrow> string list) \<Rightarrow> 'w \<Rightarrow> string \<Rightarrow> bool" where
  "path_law F nodes folder w p \<longleftrightarrow>
     (let ns = components p in
       (case fs_open F p FILE_READ w of (h, w1) \<Rightarrow>
          nodes w1 = nodes w \<and> (file_is_dir F h w1 \<longleftrightarrow> nodes w ns = Some Folder) \<and>
          (nodes w ns = Some Folder \<longrightarrow> folder h = ns)) \<and>
       nodes (fs_remove F p w) = (if nodes w ns = Some Folder then nodes w else (nodes w)(ns := None)) \<and>
       (ns \<noteq> [] \<and> nodes w ns = Some Folder \<longrightarrow>
          nodes (fs_rmdir F p w) = (if \<exists>n. nodes w (ns @ [n]) \<noteq> None then nodes w else (nodes w)(ns := None))) \<and>
       fs_exists F p w = (nodes w ns \<noteq> None))"

definition folder_law ::
  "naming \<Rightarrow> ('h, 'w) file_system \<Rightarrow> ('w \<Rightarrow> tree) \<Rightarrow> ('h \<Rightarrow> string list) \<Rightarrow> ('h \<Rightarrow> string list) \<Rightarrow> 'w \<Rightarrow> 'h \<Rightarrow> bool" where
  "folder_law nm F nodes folder pending w h \<longleftrightarrow>
     (case dir_rewind F h w of (d, w1) \<Rightarrow>
        nodes w1 = nodes w \<and> folder d = folder h \<and> distinct (pending d) \<and>
        set (pending d) = {n. nodes w (folder h @ [n]) \<noteq> None}) \<and>
     (case dir_next F h w of (e, d, w1) \<Rightarrow>
        nodes w1 = nodes w \<and> folder d = folder h \<and>
        (case pending h of
           [] \<Rightarrow> \<not> file_ok F e w1
         | n # ns \<Rightarrow> pending d = ns \<and>
             (nodes w (folder h @ [n]) \<noteq> None \<longrightarrow>
                file_ok F e w1 \<and> file_name F e = entry_name nm (folder h) n \<and>
                (file_is_dir F e w1 \<longleftrightarrow> nodes w (folder h @ [n]) = Some Folder))))"

definition disk_law ::
  "naming \<Rightarrow> ('h, 'w) file_system \<Rightarrow> ('w \<Rightarrow> tree) \<Rightarrow> ('h \<Rightarrow> string list) \<Rightarrow> ('h \<Rightarrow> string list) \<Rightarrow> bool" where
  "disk_law nm F nodes folder pending \<longleftrightarrow>
     (\<forall>w. tree_ok (nodes w) \<longrightarrow>
       (\<forall>p. absolute p \<longrightarrow> path_law F nodes folder w p) \<and>
       (\<forall>h. nodes (file_close F h w) = nodes w \<and>
          (nodes w (folder h) = Some Folder \<longrightarrow> folder_law nm F nodes folder pending w h)))"

section \<open>Deleting\<close>

definition weight :: "string list \<Rightarrow> tree \<Rightarrow> nat" where
  "weight ns t = card {m \<in> dom t. prefix ns m}"

lemma weight_below:
  assumes "tree_ok t" "t ns \<noteq> None"
  shows "weight (ns @ [n]) t < weight ns t"
  unfolding weight_def
proof (rule psubset_card_mono)
  show "finite {m \<in> dom t. prefix ns m}" using assms(1) by (simp add: tree_ok_def)
  have "ns \<in> {m \<in> dom t. prefix ns m}" "ns \<notin> {m \<in> dom t. prefix (ns @ [n]) m}"
    using assms(2) by auto
  moreover have "{m \<in> dom t. prefix (ns @ [n]) m} \<subseteq> {m \<in> dom t. prefix ns m}"
    by (auto dest: append_prefixD)
  ultimately show "{m \<in> dom t. prefix (ns @ [n]) m} \<subset> {m \<in> dom t. prefix ns m}" by blast
qed

lemma weight_cut_le: "tree_ok t \<Longrightarrow> weight ns (cut ms t) \<le> weight ns t"
  unfolding weight_def by (rule card_mono) (auto simp: tree_ok_def cut_def split: if_splits)

lemma disk_path:
  "disk_law nm F nodes folder pending \<Longrightarrow> tree_ok (nodes w) \<Longrightarrow> absolute p \<Longrightarrow> path_law F nodes folder w p"
  by (simp add: disk_law_def)

lemma disk_folder:
  "disk_law nm F nodes folder pending \<Longrightarrow> tree_ok (nodes w) \<Longrightarrow> nodes w (folder h) = Some Folder \<Longrightarrow>
     folder_law nm F nodes folder pending w h"
  by (simp add: disk_law_def)

lemma disk_close:
  "disk_law nm F nodes folder pending \<Longrightarrow> tree_ok (nodes w) \<Longrightarrow> nodes (file_close F h w) = nodes w"
  by (simp add: disk_law_def)

lemma disk_open:
  assumes "disk_law nm F nodes folder pending" "tree_ok (nodes w)" "absolute p"
    and "fs_open F p FILE_READ w = (h, w1)"
  shows "nodes w1 = nodes w" "file_is_dir F h w1 \<longleftrightarrow> nodes w (components p) = Some Folder"
    "nodes w (components p) = Some Folder \<Longrightarrow> folder h = components p"
  using disk_path [OF assms(1,2,3)] assms(4) by (auto simp: path_law_def Let_def)

lemma disk_remove:
  assumes "disk_law nm F nodes folder pending" "tree_ok (nodes w)" "absolute p" "nodes w (components p) \<noteq> Some Folder"
  shows "nodes (fs_remove F p w) = (nodes w)(components p := None)"
  using disk_path [OF assms(1,2,3)] assms(4) by (simp add: path_law_def Let_def)

lemma disk_rmdir:
  assumes "disk_law nm F nodes folder pending" "tree_ok (nodes w)" "list_all good_name ns" "ns \<noteq> []"
    and "nodes w ns = Some Folder"
  shows "nodes (fs_rmdir F (path_of ns) w) =
    (if \<exists>n. nodes w (ns @ [n]) \<noteq> None then nodes w else (nodes w)(ns := None))"
  using disk_path [OF assms(1,2) absolute_path_of [OF assms(3,4)]] assms(3-5)
  by (simp add: path_law_def Let_def)

lemma disk_exists:
  "disk_law nm F nodes folder pending \<Longrightarrow> tree_ok (nodes w) \<Longrightarrow> list_all good_name ns \<Longrightarrow> ns \<noteq> [] \<Longrightarrow>
     fs_exists F (path_of ns) w = (nodes w ns \<noteq> None)"
  using disk_path [of nm F nodes folder pending w "path_of ns"] absolute_path_of [of ns]
  by (simp add: path_law_def Let_def)

lemma disk_rewind:
  assumes "disk_law nm F nodes folder pending" "tree_ok (nodes w)" "nodes w (folder h) = Some Folder"
    and "dir_rewind F h w = (d, w1)"
  shows "nodes w1 = nodes w" "folder d = folder h" "distinct (pending d)"
    "set (pending d) = {n. nodes w (folder h @ [n]) \<noteq> None}"
  using disk_folder [OF assms(1-3)] assms(4) by (auto simp: folder_law_def)

lemma disk_next_end:
  assumes "disk_law nm F nodes folder pending" "tree_ok (nodes w)" "nodes w (folder h) = Some Folder"
    and "dir_next F h w = (e, d, w1)" "pending h = []"
  shows "nodes w1 = nodes w" "\<not> file_ok F e w1"
  using disk_folder [OF assms(1-3)] assms(4,5) by (auto simp: folder_law_def)

lemma disk_next:
  assumes "disk_law nm F nodes folder pending" "tree_ok (nodes w)" "nodes w (folder h) = Some Folder"
    and "dir_next F h w = (e, d, w1)" "pending h = n # ns"
  shows "nodes w1 = nodes w" "folder d = folder h" "pending d = ns"
    "nodes w (folder h @ [n]) \<noteq> None \<Longrightarrow> file_ok F e w1 \<and> file_name F e = entry_name nm (folder h) n \<and>
       (file_is_dir F e w1 \<longleftrightarrow> nodes w (folder h @ [n]) = Some Folder)"
  using disk_folder [OF assms(1-3)] assms(4,5) by (auto simp: folder_law_def)

text \<open>The handing out of a directory's entries, given that each subdirectory is deleted.\<close>

lemma delete_entries:
  assumes law: "disk_law Base_names F nodes folder pending"
    and names: "list_all good_name ns" "ns \<noteq> []"
    and sub: "\<And>n w. tree_ok (nodes w) \<Longrightarrow> good_name n \<Longrightarrow> nodes w ns \<noteq> None \<Longrightarrow> weight ns (nodes w) \<le> K \<Longrightarrow>
      \<exists>w'. delete_job F (Inl (path_of ns @ ''/'' @ n)) w = Some w' \<and> nodes w' = cut (ns @ [n]) (nodes w)"
  shows "tree_ok (nodes w) \<Longrightarrow> nodes w ns = Some Folder \<Longrightarrow> weight ns (nodes w) \<le> K \<Longrightarrow> folder d = ns \<Longrightarrow>
    pending d = ps \<Longrightarrow> distinct ps \<Longrightarrow> set ps = {n. nodes w (ns @ [n]) \<noteq> None} \<Longrightarrow>
    \<exists>w'. delete_job F (Inr (path_of ns, d)) w = Some w' \<and> nodes w' = cut ns (nodes w)"
proof (induction ps arbitrary: d w)
  case Nil
  obtain e d1 w1 where nx: "dir_next F d w = (e, d1, w1)" by (metis prod_cases3)
  have dir: "nodes w (folder d) = Some Folder" using Nil.prems by simp
  note end_ = disk_next_end [OF law Nil.prems(1) dir nx Nil.prems(5)]
  have empty: "\<forall>n. nodes w (ns @ [n]) = None" using Nil.prems(7) by auto
  have gone: "nodes (fs_rmdir F (path_of ns) w1) = cut ns (nodes w)"
    using disk_rmdir [OF law, of w1 ns] cut_leaf [OF Nil.prems(1), of ns] end_(1) Nil.prems empty names by simp
  then have "nodes (file_close F d1 (fs_rmdir F (path_of ns) w1)) = cut ns (nodes w)"
    using disk_close [OF law] tree_ok_cut [OF Nil.prems(1)] by metis
  moreover have "delete_job F (Inr (path_of ns, d)) w = Some (file_close F d1 (fs_rmdir F (path_of ns) w1))"
    using nx end_(2) names by (simp add: delete_job.simps)
  ultimately show ?case by blast
next
  case (Cons n ps)
  obtain e d1 w1 where nx: "dir_next F d w = (e, d1, w1)" by (metis prod_cases3)
  have dir: "nodes w (folder d) = Some Folder" using Cons.prems by simp
  have there: "nodes w (ns @ [n]) \<noteq> None" using Cons.prems(7) by auto
  have good: "list_all good_name (ns @ [n])" using tree_ok_names [OF Cons.prems(1) there] .
  have step: "nodes w1 = nodes w" "folder d1 = ns" "pending d1 = ps"
    "file_ok F e w1" "file_name F e = n" "file_is_dir F e w1 \<longleftrightarrow> nodes w (ns @ [n]) = Some Folder"
    using disk_next [OF law Cons.prems(1) dir nx Cons.prems(5)] there Cons.prems(4) by (auto simp: entry_name_def)
  define w2 where "w2 = file_close F e w1"
  have w2: "nodes w2 = nodes w" unfolding w2_def using disk_close [OF law] Cons.prems(1) step(1) by simp
  have rest: "\<exists>w'. delete_job F (Inr (path_of ns, d1)) w3 = Some w' \<and> nodes w' = cut ns (nodes w)"
    if w3: "nodes w3 = cut (ns @ [n]) (nodes w)" for w3
  proof -
    have "\<exists>w'. delete_job F (Inr (path_of ns, d1)) w3 = Some w' \<and> nodes w' = cut ns (nodes w3)"
    proof (rule Cons.IH)
      show "tree_ok (nodes w3)" using w3 tree_ok_cut Cons.prems(1) by simp
      show "nodes w3 ns = Some Folder" using w3 Cons.prems(2) by (auto simp: cut_def dest: prefix_length_le)
      show "weight ns (nodes w3) \<le> K" using w3 weight_cut_le [OF Cons.prems(1)] Cons.prems(3) le_trans by metis
      show "set ps = {n. nodes w3 (ns @ [n]) \<noteq> None}"
        using w3 Cons.prems(6,7) by (auto simp: cut_def)
    qed (use step Cons.prems in auto)
    then show ?thesis using w3 by simp
  qed
  show ?case
  proof (cases "nodes w (ns @ [n]) = Some Folder")
    case True
    obtain w3 where "delete_job F (Inl (path_of ns @ ''/'' @ n)) w2 = Some w3" "nodes w3 = cut (ns @ [n]) (nodes w)"
      using sub [of w2 n] w2 Cons.prems good by auto
    then show ?thesis
      using rest [of w3] nx step True by (simp add: delete_job.simps [of F "Inr (path_of ns, d)"] w2_def)
  next
    case False
    then have "nodes (fs_remove F (path_of (ns @ [n])) w2) = cut (ns @ [n]) (nodes w)"
      using disk_remove [OF law, of w2 "path_of (ns @ [n])"] absolute_path_of [OF good] components_path [OF good] cut_leaf [OF Cons.prems(1), of "ns @ [n]"] w2 Cons.prems good by simp
    then show ?thesis
      using rest nx step False cstr_path_of [OF good]
      by (simp add: delete_job.simps [of F "Inr (path_of ns, d)"] w2_def)
  qed
qed

lemma delete_subtree:
  assumes law: "disk_law Base_names F nodes folder pending"
  shows "tree_ok (nodes w) \<Longrightarrow> list_all good_name ns \<Longrightarrow> ns \<noteq> [] \<Longrightarrow>
    \<exists>w'. deleteRecursive F (path_of ns) w = Some w' \<and> nodes w' = cut ns (nodes w)"
proof (induction "weight ns (nodes w)" arbitrary: ns w rule: less_induct)
  case less
  obtain h w1 where op: "fs_open F (path_of ns) FILE_READ w = (h, w1)" by fastforce
  note abs = absolute_path_of [OF less.prems(2,3)]
  note opened = disk_open [OF law less.prems(1) abs op, unfolded components_path [OF less.prems(2)]]
  show ?case
  proof (cases "nodes w ns = Some Folder")
    case False
    have "nodes (fs_remove F (path_of ns) (file_close F h w1)) = cut ns (nodes w)"
      using disk_remove [OF law, of "file_close F h w1" "path_of ns"] abs disk_close [OF law, of w1] cut_leaf [OF less.prems(1), of ns]
        opened less.prems False by simp
    then show ?thesis
      using op opened False less.prems by (simp add: deleteRecursive_def delete_job.simps [of F "Inl (path_of ns)"])
  next
    case True
    obtain d w2 where rw: "dir_rewind F h w1 = (d, w2)" by fastforce
    note rewound = disk_rewind [OF law, of w1 h d w2, OF _ _ rw]
    have w2: "nodes w2 = nodes w" "folder d = ns" "distinct (pending d)"
      "set (pending d) = {n. nodes w2 (ns @ [n]) \<noteq> None}"
      using rewound opened True less.prems by auto
    have "\<exists>w'. delete_job F (Inr (path_of ns, d)) w2 = Some w' \<and> nodes w' = cut ns (nodes w2)"
    proof (rule delete_entries [OF law less.prems(2,3)])
      fix n v
      assume v: "tree_ok (nodes v)" "good_name n" "nodes v ns \<noteq> None" "weight ns (nodes v) \<le> weight ns (nodes w)"
      then have "weight (ns @ [n]) (nodes v) < weight ns (nodes w)" using weight_below [of "nodes v" ns n] by simp
      then show "\<exists>w'. delete_job F (Inl (path_of ns @ ''/'' @ n)) v = Some w' \<and> nodes w' = cut (ns @ [n]) (nodes v)"
        using less.hyps [of "ns @ [n]" v] v less.prems by (simp add: deleteRecursive_def)
    qed (use w2 True less.prems in auto)
    then show ?thesis
      using op opened True rw w2 less.prems by (simp add: deleteRecursive_def delete_job.simps [of F "Inl (path_of ns)"])
  qed
qed

text \<open>With full paths an entry is looked for below its own path again.  Nothing is there, so nothing is removed,
  and a folder that is not empty stays.\<close>

lemma full_path_missing:
  assumes "tree_ok t" "t (ns @ ns) = None" "list_all good_name ns" "ns \<noteq> []" "good_name n"
  defines "p \<equiv> path_of ns @ ''/'' @ path_of (ns @ [n])"
  shows "absolute p" "cstr p = p" "t (components p) = None"
proof -
  have good: "list_all good_name (ns @ [n])" using assms(3,5) by simp
  have nn: "nul \<notin> set (path_of ms)" if "list_all good_name ms" for ms
    using that by (auto simp: path_of_def good_name_def list_all_iff)
  show "absolute p"
    using absolute_path_of [OF assms(3,4)] nn [OF good] by (auto simp: p_def absolute_def simp del: path_of_snoc)
  then show "cstr p = p" by (simp add: cstr_id absolute_def)
  have "components p = ns @ ns @ [n]"
    using components_path_append [OF assms(3), of "''/'' @ path_of (ns @ [n])"] components_path [OF good]
    by (simp add: p_def del: path_of_snoc)
  then show "t (components p) = None" using tree_ok_parent [OF assms(1), of "ns @ ns" "[n]"] assms(2) by force
qed

lemma full_path_delete:
  assumes law: "disk_law Full_paths F nodes folder pending"
    and names: "list_all good_name ns" "ns \<noteq> []"
  shows "tree_ok (nodes w) \<Longrightarrow> nodes w ns = Some Folder \<Longrightarrow> nodes w (ns @ ns) = None \<Longrightarrow> folder d = ns \<Longrightarrow>
    pending d = ps \<Longrightarrow> \<forall>n \<in> set ps. nodes w (ns @ [n]) \<noteq> None \<Longrightarrow>
    \<exists>w'. delete_job F (Inr (path_of ns, d)) w = Some w' \<and>
      nodes w' = (if \<exists>n. nodes w (ns @ [n]) \<noteq> None then nodes w else (nodes w)(ns := None))"
proof (induction ps arbitrary: d w)
  case Nil
  obtain e d1 w1 where nx: "dir_next F d w = (e, d1, w1)" by (metis prod_cases3)
  have dir: "nodes w (folder d) = Some Folder" using Nil.prems by simp
  note end_ = disk_next_end [OF law Nil.prems(1) dir nx Nil.prems(5)]
  let ?t = "if \<exists>n. nodes w (ns @ [n]) \<noteq> None then nodes w else (nodes w)(ns := None)"
  have gone: "nodes (fs_rmdir F (path_of ns) w1) = ?t"
    using disk_rmdir [OF law, of w1 ns] end_(1) Nil.prems names by simp
  have "tree_ok ?t"
    using Nil.prems(1) tree_ok_cut [OF Nil.prems(1), of ns] cut_leaf [OF Nil.prems(1), of ns] by auto
  then have "nodes (file_close F d1 (fs_rmdir F (path_of ns) w1)) = ?t"
    using disk_close [OF law, of "fs_rmdir F (path_of ns) w1"] gone by simp
  moreover have "delete_job F (Inr (path_of ns, d)) w = Some (file_close F d1 (fs_rmdir F (path_of ns) w1))"
    using nx end_(2) names by (simp add: delete_job.simps)
  ultimately show ?case by blast
next
  case (Cons n ps)
  obtain e d1 w1 where nx: "dir_next F d w = (e, d1, w1)" by (metis prod_cases3)
  have dir: "nodes w (folder d) = Some Folder" using Cons.prems by simp
  have there: "nodes w (ns @ [n]) \<noteq> None" using Cons.prems(6) by auto
  have good: "good_name n" using tree_ok_names [OF Cons.prems(1) there] by simp
  let ?p = "path_of ns @ ''/'' @ path_of (ns @ [n])"
  note p = full_path_missing [OF Cons.prems(1,3) names good]
  have step: "nodes w1 = nodes w" "folder d1 = ns" "pending d1 = ps"
    "file_ok F e w1" "file_name F e = path_of (ns @ [n])" "file_is_dir F e w1 \<longleftrightarrow> nodes w (ns @ [n]) = Some Folder"
    using disk_next [OF law Cons.prems(1) dir nx Cons.prems(5)] there Cons.prems(4) by (auto simp: entry_name_def)
  define w2 where "w2 = file_close F e w1"
  have w2: "nodes w2 = nodes w" unfolding w2_def using disk_close [OF law] Cons.prems(1) step(1) by simp
  have removed: "nodes (fs_remove F ?p v) = nodes w" if "nodes v = nodes w" for v
    using disk_remove [OF law, of v ?p] that Cons.prems(1) p by (simp add: fun_upd_idem)
  have rest: "\<exists>w'. delete_job F (Inr (path_of ns, d1)) w3 = Some w' \<and>
      nodes w' = (if \<exists>n. nodes w (ns @ [n]) \<noteq> None then nodes w else (nodes w)(ns := None))"
    if w3: "nodes w3 = nodes w" for w3
    by (rule Cons.IH [of w3 d1, unfolded w3]) (use Cons.prems step(2,3) in auto)
  show ?case
  proof (cases "nodes w (ns @ [n]) = Some Folder")
    case True
    obtain h v where op: "fs_open F ?p FILE_READ w2 = (h, v)" by fastforce
    have o: "nodes v = nodes w" "\<not> file_is_dir F h v"
      using disk_open [OF law _ p(1) op] w2 Cons.prems(1) p(3) by simp_all
    have "delete_job F (Inl ?p) w2 = Some (fs_remove F ?p (file_close F h v))"
      using op o(2) p(2) by (subst delete_job.simps) simp
    moreover have "nodes (fs_remove F ?p (file_close F h v)) = nodes w"
      by (rule removed) (use disk_close [OF law, of v] o(1) Cons.prems(1) in simp)
    ultimately show ?thesis
      using rest nx step True by (simp add: delete_job.simps [of F "Inr (path_of ns, d)"] w2_def)
  next
    case False
    then show ?thesis
      using rest [OF removed [OF w2]] nx step p(2)
      by (simp add: delete_job.simps [of F "Inr (path_of ns, d)"] w2_def)
  qed
qed

lemma delete_by_names:
  assumes law: "disk_law nm F nodes folder pending" and ok: "tree_ok (nodes w)"
    and names: "list_all good_name ns" "ns \<noteq> []" and again: "nm = Full_paths \<Longrightarrow> nodes w (ns @ ns) = None"
  shows "\<exists>w'. deleteRecursive F (path_of ns) w = Some w' \<and>
    nodes w' = (if nm = Full_paths \<and> (\<exists>n. nodes w (ns @ [n]) \<noteq> None) then nodes w else cut ns (nodes w))"
proof (cases nm)
  case Base_names
  then show ?thesis using delete_subtree [OF law [unfolded Base_names] ok names] by simp
next
  case Full_paths
  note law = law [unfolded Full_paths] and again = again [OF Full_paths]
  obtain h w1 where op: "fs_open F (path_of ns) FILE_READ w = (h, w1)" by fastforce
  note abs = absolute_path_of [OF names]
  note o = disk_open [OF law ok abs op, unfolded components_path [OF names(1)]]
  show ?thesis
  proof (cases "nodes w ns = Some Folder")
    case False
    then have "nodes w (ns @ [n]) = None" for n
      using tree_ok_parent [OF ok, of ns "[n]"] by (cases "nodes w (ns @ [n])") auto
    moreover have "nodes (fs_remove F (path_of ns) (file_close F h w1)) = cut ns (nodes w)"
      using disk_remove [OF law, of "file_close F h w1" "path_of ns"] abs disk_close [OF law, of w1] cut_leaf [OF ok, of ns]
        o names ok False by simp
    ultimately show ?thesis
      using op o False names by (simp add: deleteRecursive_def delete_job.simps [of F "Inl (path_of ns)"])
  next
    case True
    obtain d w2 where rw: "dir_rewind F h w1 = (d, w2)" by fastforce
    have w2: "nodes w2 = nodes w" "folder d = ns" "set (pending d) = {n. nodes w (ns @ [n]) \<noteq> None}"
      using disk_rewind [OF law, of w1 h d w2, OF _ _ rw] o True ok by auto
    obtain w' where "delete_job F (Inr (path_of ns, d)) w2 = Some w'"
        "nodes w' = (if \<exists>n. nodes w2 (ns @ [n]) \<noteq> None then nodes w2 else (nodes w2)(ns := None))"
      using full_path_delete [OF law names, of w2 d "pending d"] w2 ok True again by auto
    moreover have "(nodes w)(ns := None) = cut ns (nodes w)" if "\<forall>n. nodes w (ns @ [n]) = None"
      using cut_leaf [OF ok, of ns] that by simp
    ultimately show ?thesis
      using op o True rw w2(1) names Full_paths
      by (auto simp: deleteRecursive_def delete_job.simps [of F "Inl (path_of ns)"])
  qed
qed

section \<open>Uploading\<close>

lemma sd_upload_is_receive:
  assumes "currentUri (site_http s) = ''/edit''" "\<forall>c \<in> set cs. fst c \<noteq> UPLOAD_FILE_START"
  shows "fold (sd_handleFileUpload F fn) cs s = fold (receive_file F (cstr fn)) cs s"
  using assms by (induction cs arbitrary: s) (auto simp: sd_handleFileUpload_def)

lemma sd_upload_holds:
  fixes s :: "('f, 'h, 'w, 'z) site_scheme"
  assumes none: "strstr f dash_line = None" and law: "write_law F (cstr fn) held mine"
    and uri: "currentUri (site_http s) = ''/edit''"
    and op: "\<forall>w. case fs_open F (cstr fn) FILE_WRITE w of (h, w1) \<Rightarrow> file_ok F h w1"
  shows "\<exists>u. read_file B (start_upload name fn ty True) (f @ dash_line @ B @ rest) = File_end u rest \<and>
    held (site_disk (fold (sd_handleFileUpload F fn) (u_calls u) s)) = Some f"
proof -
  let ?u = "end_upload (write_bytes f (start_upload name fn ty True))"
  define s1 where "s1 = (if fs_exists F (cstr fn) (site_disk s) then on_disk (fs_remove F (cstr fn)) s else s)"
  obtain cs n where cs: "u_calls ?u = (UPLOAD_FILE_START, [], 0) # cs @ [(UPLOAD_FILE_END, n)]"
      "\<forall>c \<in> set cs. fst c = UPLOAD_FILE_WRITE"
    using upload_calls_shape by blast
  define s2 where "s2 = receive_file F (cstr fn) (UPLOAD_FILE_START, [], 0) s1"
  have s2: "sd_handleFileUpload F fn (UPLOAD_FILE_START, [], 0) s = s2" "currentUri (site_http s2) = ''/edit''"
    using uri by (simp_all add: sd_handleFileUpload_def s1_def s2_def)
  have "fold (sd_handleFileUpload F fn) (cs @ [(UPLOAD_FILE_END, n)]) s2 =
      fold (receive_file F (cstr fn)) (cs @ [(UPLOAD_FILE_END, n)]) s2"
    using cs(2) by (intro sd_upload_is_receive [OF s2(2)]) auto
  then have "fold (sd_handleFileUpload F fn) (u_calls ?u) s = fold (receive_file F (cstr fn)) (u_calls ?u) s1"
    using cs(1) s2(1) by (simp add: s2_def)
  moreover have "held (site_disk (fold (receive_file F (cstr fn)) (u_calls ?u) s1)) = Some f"
    by (rule received_file_is_held [OF law op [rule_format] refl])
  ultimately show ?thesis using read_file_finds [OF none, of B "start_upload name fn ty True" rest] by auto
qed

section \<open>Listing\<close>

fun entry_pieces :: "naming \<Rightarrow> bool \<Rightarrow> tree \<Rightarrow> string list \<Rightarrow> string list \<Rightarrow> string list" where
  "entry_pieces nm first t ns [] = []"
| "entry_pieces nm first t ns (n # r) =
     ((if first then [] else '','') @ entry_text (entry_name nm ns n) (t (ns @ [n]) = Some Folder)) # entry_pieces nm False t ns r"

lemma entry_pieces_nonempty: "[] \<notin> set (entry_pieces nm first t ns r)"
  by (induction first t ns r rule: entry_pieces.induct) (auto simp: entry_text_def)

lemma list_entries_pieces:
  assumes law: "disk_law nm F nodes folder pending"
  shows "tree_ok (nodes w) \<Longrightarrow> nodes w ns = Some Folder \<Longrightarrow> folder d = ns \<Longrightarrow> pending d = r \<Longrightarrow>
    \<forall>n \<in> set r. nodes w (ns @ [n]) \<noteq> None \<Longrightarrow>
    \<exists>d' w'. list_entries F d w first h = Some (d', w', fold sendContent (entry_pieces nm first (nodes w) ns r) h) \<and>
      nodes w' = nodes w"
proof (induction r arbitrary: d w first h)
  case Nil
  obtain e d1 w1 where nx: "dir_next F d w = (e, d1, w1)" by (metis prod_cases3)
  show ?case
    using disk_next_end [OF law Nil.prems(1) _ nx Nil.prems(4)] Nil.prems nx
    by (intro exI [of _ d1] exI [of _ w1]) (simp add: list_entries.simps [of F d])
next
  case (Cons n r)
  obtain e d1 w1 where nx: "dir_next F d w = (e, d1, w1)" by (metis prod_cases3)
  have dir: "nodes w (folder d) = Some Folder" using Cons.prems by simp
  have step: "nodes w1 = nodes w" "folder d1 = ns" "pending d1 = r"
    "file_ok F e w1" "file_name F e = entry_name nm ns n" "file_is_dir F e w1 \<longleftrightarrow> nodes w (ns @ [n]) = Some Folder"
    using disk_next [OF law Cons.prems(1) dir nx Cons.prems(4)] Cons.prems by auto
  have cl: "nodes (file_close F e w1) = nodes w" using disk_close [OF law, of w1] step Cons.prems(1) by simp
  show ?case
    using Cons.IH [of "file_close F e w1" d1 False
        "sendContent ((if first then [] else '','') @ entry_text (entry_name nm ns n) (nodes w (ns @ [n]) = Some Folder)) h"]
      cl step Cons.prems nx by (simp add: list_entries.simps [of F d])
qed

lemma chunked_pieces_behind_header:
  assumes "contentLength s = CONTENT_LENGTH_UNKNOWN" "currentVersion s \<noteq> 0" "[] \<notin> set ps"
  shows "\<exists>body. written (finalizeResponse (fold sendContent ps (send code ty [] s))) =
      written s @ fst (prepareHeader code ty 0 s) @ body \<and> dechunk body = Some (concat ps)"
proof -
  obtain h s1 where h: "prepareHeader code ty 0 s = (h, s1)" by fastforce
  have s1: "written s1 = written s" "chunked s1"
    using prepareHeader_chunked [OF assms(1,2), of code ty 0] h by simp_all
  have c2: "chunked (currentClientWrite h s1)" using s1 by (simp add: currentClientWrite_def)
  show ?thesis
    using h s1 sendContent_pieces [OF c2 assms(3)] dechunk_pieces [OF assms(3)] c2
    by (simp add: send_def finalizeResponse_def sendContent_chunked currentClientWrite_def)
qed

lemma listing_sent:
  fixes s :: "('f, 'h, 'w, 'z) site_scheme"
  assumes law: "disk_law nm F nodes folder pending" and ok: "tree_ok (nodes (site_disk s))"
    and names: "list_all good_name ns" "ns \<noteq> []"
    and req: "hasArg ''dir'' (site_http s)" "arg_named ''dir'' (site_http s) = path_of ns"
    and dir: "nodes (site_disk s) ns = Some Folder"
  shows "\<exists>s' r. printDirectory F s = Some s' \<and> nodes (site_disk s') = nodes (site_disk s) \<and>
    distinct r \<and> set r = {n. nodes (site_disk s) (ns @ [n]) \<noteq> None} \<and>
    site_http s' = fold sendContent (''['' # entry_pieces nm True (nodes (site_disk s)) ns r @ ['']''])
      (send 200 (Some ''text/json'') [] (setContentLength CONTENT_LENGTH_UNKNOWN (site_http s)))"
proof -
  let ?w = "site_disk s"
  obtain d w1 where op: "fs_open F (path_of ns) FILE_READ ?w = (d, w1)" by fastforce
  note o = disk_open [OF law ok absolute_path_of [OF names] op, unfolded components_path [OF names(1)]]
  obtain d1 w2 where rw: "dir_rewind F d w1 = (d1, w2)" by fastforce
  have r: "nodes w2 = nodes ?w" "folder d1 = ns" "distinct (pending d1)"
    "set (pending d1) = {n. nodes ?w (ns @ [n]) \<noteq> None}"
    using disk_rewind [OF law _ _ rw] o ok dir by auto
  let ?h1 = "send 200 (Some ''text/json'') [] (setContentLength CONTENT_LENGTH_UNKNOWN (site_http s))"
  obtain d2 w3 where l: "list_entries F d1 w2 True (sendContent ''['' ?h1) =
      Some (d2, w3, fold sendContent (entry_pieces nm True (nodes w2) ns (pending d1)) (sendContent ''['' ?h1))"
      "nodes w3 = nodes w2"
    using list_entries_pieces [OF law, of w2 ns d1 "pending d1" True "sendContent ''['' ?h1"] r ok dir by auto
  have "nodes (file_close F d2 w3) = nodes ?w" using disk_close [OF law, of w3] l r ok by simp
  moreover have "fs_exists F (path_of ns) ?w" using disk_exists [OF law ok names] dir by simp
  moreover have "file_is_dir F d w1" using o dir by simp
  ultimately show ?thesis
    using op rw l r req names
    by (intro exI [of _ "s\<lparr>site_http := sendContent '']'' (fold sendContent (entry_pieces nm True (nodes w2) ns (pending d1))
          (sendContent ''['' ?h1)), site_disk := file_close F d2 w3\<rparr>"] exI [of _ "pending d1"])
      (auto simp: printDirectory_def Let_def)
qed

lemma listing_arrives:
  fixes s :: "('f, 'h, 'w, 'z) site_scheme"
  assumes "disk_law nm F nodes folder pending" "tree_ok (nodes (site_disk s))" "list_all good_name ns" "ns \<noteq> []"
    and "hasArg ''dir'' (site_http s)" "arg_named ''dir'' (site_http s) = path_of ns"
    and "nodes (site_disk s) ns = Some Folder" "currentVersion (site_http s) \<noteq> 0"
  shows "\<exists>s' r head body. printDirectory F s = Some s' \<and> nodes (site_disk s') = nodes (site_disk s) \<and>
    distinct r \<and> set r = {n. nodes (site_disk s) (ns @ [n]) \<noteq> None} \<and>
    written (finalizeResponse (site_http s')) = written (site_http s) @ head @ body \<and>
    dechunk body = Some (''['' @ concat (entry_pieces nm True (nodes (site_disk s)) ns r) @ '']'')"
proof -
  obtain s' r where s': "printDirectory F s = Some s'" "nodes (site_disk s') = nodes (site_disk s)" "distinct r"
      "set r = {n. nodes (site_disk s) (ns @ [n]) \<noteq> None}"
      "site_http s' = fold sendContent (''['' # entry_pieces nm True (nodes (site_disk s)) ns r @ ['']''])
        (send 200 (Some ''text/json'') [] (setContentLength CONTENT_LENGTH_UNKNOWN (site_http s)))"
    using listing_sent [OF assms(1-7)] by blast
  let ?h = "setContentLength CONTENT_LENGTH_UNKNOWN (site_http s)"
  let ?ps = "''['' # entry_pieces nm True (nodes (site_disk s)) ns r @ ['']'']"
  have pre: "contentLength ?h = CONTENT_LENGTH_UNKNOWN" "currentVersion ?h \<noteq> 0" "[] \<notin> set ?ps"
    using assms(8) entry_pieces_nonempty by (auto simp: setContentLength_def)
  obtain body where body:
      "written (finalizeResponse (fold sendContent ?ps (send 200 (Some ''text/json'') [] ?h))) =
        written ?h @ fst (prepareHeader 200 (Some ''text/json'') 0 ?h) @ body"
      "dechunk body = Some (concat ?ps)"
    using chunked_pieces_behind_header [OF pre, of 200 "Some ''text/json''"] by blast
  then have "written (finalizeResponse (site_http s')) =
      written (site_http s) @ fst (prepareHeader 200 (Some ''text/json'') 0 ?h) @ body"
    unfolding s'(5) by (simp add: setContentLength_def)
  moreover have "dechunk body = Some (''['' @ concat (entry_pieces nm True (nodes (site_disk s)) ns r) @ '']'')"
    using body(2) by simp
  ultimately show ?thesis using s'(1-4) by blast
qed

section \<open>A card in memory\<close>

text \<open>A concrete card for which the assumptions hold: the files by their components.\<close>

type_synonym ram_card = "(string list \<times> node) list"

record ram_file =
  ram_path :: "string list"
  ram_open :: bool
  ram_entries :: "string list"

definition ram_children :: "string list \<Rightarrow> ram_card \<Rightarrow> string list" where
  "ram_children ns w = remdups (map last (filter (\<lambda>m. m \<noteq> [] \<and> butlast m = ns) (map fst w)))"

definition ram_drop :: "string list \<Rightarrow> ram_card \<Rightarrow> ram_card" where
  "ram_drop ns w = filter (\<lambda>(m, v). m \<noteq> ns) w"

definition ram_system :: "naming \<Rightarrow> (ram_file, ram_card) file_system" where
  "ram_system nm = \<lparr>
     fs_open = (\<lambda>p mode w. let ns = components p in
       case mode of
         FILE_READ \<Rightarrow> (\<lparr>ram_path = ns, ram_open = (map_of w ns \<noteq> None), ram_entries = []\<rparr>, w)
       | FILE_WRITE \<Rightarrow>
           (if map_of w ns = Some Folder then (\<lparr>ram_path = ns, ram_open = False, ram_entries = []\<rparr>, w)
            else (\<lparr>ram_path = ns, ram_open = True, ram_entries = []\<rparr>, (ns, Document []) # ram_drop ns w))),
     fs_exists = (\<lambda>p w. map_of w (components p) \<noteq> None),
     fs_remove = (\<lambda>p w. if map_of w (components p) = Some Folder then w else ram_drop (components p) w),
     fs_mkdir = (\<lambda>p w. if map_of w (components p) = None then (components p, Folder) # w else w),
     fs_rmdir = (\<lambda>p w. if map_of w (components p) = Some Folder \<and> ram_children (components p) w = []
                   then ram_drop (components p) w else w),
     file_ok = (\<lambda>h w. ram_open h),
     file_is_dir = (\<lambda>h w. ram_open h \<and> map_of w (ram_path h) = Some Folder),
     file_name = (\<lambda>h. if ram_path h = [] then ''/'' else entry_name nm (butlast (ram_path h)) (last (ram_path h))),
     file_size = (\<lambda>h w. case map_of w (ram_path h) of Some (Document b) \<Rightarrow> word_of_int (int (length b)) | _ \<Rightarrow> 0),
     file_rest = (\<lambda>h w. case map_of w (ram_path h) of Some (Document b) \<Rightarrow> b | _ \<Rightarrow> []),
     file_write = (\<lambda>b h w. (h, case map_of w (ram_path h) of
         Some (Document c) \<Rightarrow> (ram_path h, Document (c @ b)) # ram_drop (ram_path h) w | _ \<Rightarrow> w)),
     file_close = (\<lambda>h w. w),
     dir_rewind = (\<lambda>h w. (h\<lparr>ram_entries := ram_children (ram_path h) w\<rparr>, w)),
     dir_next = (\<lambda>h w. case ram_entries h of
         [] \<Rightarrow> (\<lparr>ram_path = [], ram_open = False, ram_entries = []\<rparr>, h, w)
       | n # ns \<Rightarrow> (\<lparr>ram_path = ram_path h @ [n], ram_open = (map_of w (ram_path h @ [n]) \<noteq> None), ram_entries = []\<rparr>,
                   h\<lparr>ram_entries := ns\<rparr>, w))\<rparr>"

lemma map_of_ram_drop [simp]: "map_of (ram_drop ns w) = (map_of w)(ns := None)"
  by (rule ext, induction w) (auto simp: ram_drop_def)

lemma set_ram_children: "set (ram_children ns w) = {n. map_of w (ns @ [n]) \<noteq> None}"
proof -
  have "n \<in> set (ram_children ns w) \<longleftrightarrow> ns @ [n] \<in> fst ` set w" for n
    by (force simp: ram_children_def image_iff intro!: bexI [of _ "ns @ [n]"] elim!: append_butlast_last_id [symmetric])
  then show ?thesis by (auto simp: map_of_eq_None_iff)
qed

lemma ram_children_none: "(\<forall>n. map_of w (ns @ [n]) = None) \<Longrightarrow> ram_children ns w = []"
  using set_ram_children [of ns w] by simp

lemma ram_children_some: "map_of w (ns @ [n]) = Some v \<Longrightarrow> ram_children ns w \<noteq> []"
  using set_ram_children [of ns w] by auto

lemma distinct_ram_children: "distinct (ram_children ns w)"
  by (simp add: ram_children_def)

lemma ram_disk_law: "disk_law nm (ram_system nm) map_of ram_path ram_entries"
  unfolding disk_law_def
  by (auto simp: path_law_def folder_law_def ram_system_def set_ram_children Let_def ram_children_none
      ram_children_some distinct_ram_children split: list.splits)

lemma ram_write_law:
  "list_all good_name ns \<Longrightarrow>
     write_law (ram_system nm) (path_of ns) (\<lambda>w. case map_of w ns of Some (Document b) \<Rightarrow> Some b | _ \<Rightarrow> None)
       (\<lambda>h. ram_path h = ns)"
  by (auto simp: write_law_def ram_system_def Let_def split: option.splits node.splits)

section \<open>Properties\<close>

text \<open>C40. A delete request for a path of the SD card sketch always comes to an answer.  An unknown path is
  refused and the card left as it is.  Otherwise OK is answered, and where the library names an entry of a
  folder by its name in the folder, the file, or the folder with everything below it however deep, is gone and
  nothing else of the card has changed.  Where it names an entry by its whole path, that holds for files and
  empty folders only: of a folder with entries nothing at all is removed, although OK is answered (as long as
  the path does not happen to repeat itself below the folder).\<close>

theorem delete_request_cuts_the_subtree:
  fixes s :: "('f, 'h, 'w, 'z) site_scheme"
  assumes law: "disk_law nm F nodes folder pending" and ok: "tree_ok (nodes (site_disk s))"
    and req: "currentArgs (site_http s) = (k, path_of ns) # more_args"
    and names: "list_all good_name ns" "ns \<noteq> []"
    and again: "nm = Full_paths \<Longrightarrow> nodes (site_disk s) (ns @ ns) = None"
  shows "\<exists>s'. sd_handleDelete F s = Some s' \<and>
    (if nodes (site_disk s) ns = None then s' = returnFail ''BAD PATH'' s
     else site_http s' = send 200 (Some ''text/plain'') [] (site_http s) \<and>
          nodes (site_disk s') =
            (if nm = Full_paths \<and> (\<exists>n. nodes (site_disk s) (ns @ [n]) \<noteq> None) then nodes (site_disk s)
             else cut ns (nodes (site_disk s))))"
proof -
  have "path_of ns \<noteq> ''/''" using names by (cases ns) (auto simp: path_of_def good_name_def)
  then show ?thesis
    using delete_by_names [OF law ok names again] disk_exists [OF law ok names] req names
    by (auto simp: sd_handleDelete_def arg_at_def returnOK_def)
qed

theorem delete_request_cuts_the_subtree_witness:
  "\<exists>s s1 s2 :: (ram_file, ram_card) sd_site.
     map_of (site_disk s) [''a'', ''b'', ''x.txt''] = Some (Document ''hi'') \<and>
     sd_handleDelete (ram_system Base_names) s = Some s1 \<and>
     map_of (site_disk s1) [''a'', ''b'', ''x.txt''] = None \<and> map_of (site_disk s1) [''a''] = None \<and>
     map_of (site_disk s1) [''c''] = Some (Document []) \<and>
     sd_handleDelete (ram_system Full_paths) s = Some s2 \<and>
     map_of (site_disk s2) [''a'', ''b'', ''x.txt''] = Some (Document ''hi'')"
proof -
  let ?w = "[([], Folder), ([''a''], Folder), ([''a'', ''b''], Folder), ([''a'', ''b'', ''x.txt''], Document ''hi''),
    ([''c''], Document [])]"
  let ?s = "\<lparr>site_http = (new_server :: sd_callback http)\<lparr>currentArgs := [(''path'', ''/a'')]\<rparr>, site_disk = ?w,
    site_upload = \<lparr>ram_path = [], ram_open = False, ram_entries = []\<rparr>, hasSD = True\<rparr> :: (ram_file, ram_card) sd_site"
  have "tree_ok (map_of ?w)"
    unfolding tree_ok_def by (auto simp: good_name_def dom_map_of_conv_image_fst append_eq_Cons_conv
      split: if_splits)
  then have ok: "tree_ok (map_of (site_disk ?s))" by simp
  have req: "currentArgs (site_http ?s) = (''path'', path_of [''a'']) # []" by (simp add: path_of_def)
  have names: "list_all good_name [''a'']" "[''a''] \<noteq> []" by (simp_all add: good_name_def)
  have again: "map_of (site_disk ?s) ([''a''] @ [''a'']) = None" by simp
  obtain s1 where "sd_handleDelete (ram_system Base_names) ?s = Some s1" "map_of (site_disk s1) = cut [''a''] (map_of ?w)"
    using delete_request_cuts_the_subtree [OF ram_disk_law ok req names, of Base_names] by auto
  moreover have "map_of (site_disk ?s) ([''a''] @ [''b'']) \<noteq> None" by simp
  then obtain s2 where "sd_handleDelete (ram_system Full_paths) ?s = Some s2" "map_of (site_disk s2) = map_of ?w"
    using delete_request_cuts_the_subtree [OF ram_disk_law ok req names again, of Full_paths] by auto
  ultimately show ?thesis by (intro exI [of _ ?s] exI [of _ s1] exI [of _ s2]) (simp add: cut_def)
qed

end
