(* ===== verification/Fs_Sketch.thy ===== *)
theory Fs_Sketch
  imports Sketch_Base
begin

text \<open>
  The sketch that serves and edits the files of the flash file system
  (\<open>examples/FSBrowser/FSBrowser.ino\<close>), and what its handlers do to the files.
\<close>

section \<open>Handlers\<close>

datatype fs_callback = Fs_list | Fs_editor | Fs_create | Fs_delete | Fs_upload_done | Fs_upload | Fs_all | Fs_not_found

type_synonym ('h, 'w) fs_site = "(fs_callback, 'h, 'w) site"

definition fs_types :: "(string \<times> string) list" where
  "fs_types =
    [(''.htm'', ''text/html''), (''.html'', ''text/html''), (''.css'', ''text/css''),
     (''.js'', ''application/javascript''), (''.png'', ''image/png''), (''.gif'', ''image/gif''),
     (''.jpg'', ''image/jpeg''), (''.ico'', ''image/x-icon''), (''.xml'', ''text/xml''),
     (''.pdf'', ''application/x-pdf''), (''.zip'', ''application/x-zip''), (''.gz'', ''application/x-gzip''),
     ([], ''text/plain'')]"

definition fs_getContentType :: "string \<Rightarrow> 'z http_args_scheme \<Rightarrow> string" where
  "fs_getContentType filename h =
     (if hasArg ''download'' h then ''application/octet-stream'' else type_from fs_types filename)"

text \<open>A path exists when what opens there is not a directory.\<close>

definition fs_file_exists :: "('h, 'w) file_system \<Rightarrow> string \<Rightarrow> 'w \<Rightarrow> bool \<times> 'w" where
  "fs_file_exists F path w =
     (let (file, w1) = fs_open F (cstr path) FILE_READ w in (\<not> file_is_dir F file w1, file_close F file w1))"

definition handleFileRead ::
  "('h, 'w) file_system \<Rightarrow> string \<Rightarrow> ('f, 'h, 'w, 'z) site_scheme \<Rightarrow> bool \<times> ('f, 'h, 'w, 'z) site_scheme" where
  "handleFileRead F path0 s =
     (let path = (if ends_with path0 ''/'' then path0 @ ''index.htm'' else path0);
          contentType = fs_getContentType path (site_http s);
          pathWithGz = path @ ''.gz'';
          (gz, w1) = fs_file_exists F pathWithGz (site_disk s);
          (yes, w2) = (if gz then (True, w1) else fs_file_exists F path w1)
      in if yes
         then (let (gz', w3) = fs_file_exists F pathWithGz w2;
                   (file, w4) = fs_open F (cstr (if gz' then pathWithGz else path)) FILE_READ w3
               in (True, on_disk (file_close F file)
                     (on_http (stream_open_file F file contentType w4) (s\<lparr>site_disk := w4\<rparr>))))
         else (False, s\<lparr>site_disk := w2\<rparr>))"

definition fs_handleFileUpload ::
  "('h, 'w) file_system \<Rightarrow> string \<Rightarrow> upload_status \<times> bytes \<times> u32 \<Rightarrow>
   ('f, 'h, 'w, 'z) site_scheme \<Rightarrow> ('f, 'h, 'w, 'z) site_scheme" where
  "fs_handleFileUpload F filename up s =
     (if currentUri (site_http s) \<noteq> ''/edit'' then s
      else receive_file F (cstr (if starts_with filename ''/'' then filename else ''/'' @ filename)) up s)"

definition plain_answer :: "int \<Rightarrow> string \<Rightarrow> ('f, 'h, 'w, 'z) site_scheme \<Rightarrow> ('f, 'h, 'w, 'z) site_scheme" where
  "plain_answer code t = on_http (send code (Some ''text/plain'') t)"

definition handleFileDelete ::
  "('h, 'w) file_system \<Rightarrow> ('f, 'h, 'w, 'z) site_scheme \<Rightarrow> ('f, 'h, 'w, 'z) site_scheme" where
  "handleFileDelete F s =
     (if currentArgs (site_http s) = [] then plain_answer 500 ''BAD ARGS'' s
      else (let path = arg_at 0 (site_http s) in
        if path = ''/'' then plain_answer 500 ''BAD PATH'' s
        else (let (there, w) = fs_file_exists F path (site_disk s) in
          if \<not> there then plain_answer 404 ''FileNotFound'' (s\<lparr>site_disk := w\<rparr>)
          else plain_answer 200 [] (s\<lparr>site_disk := fs_remove F (cstr path) w\<rparr>))))"

definition handleFileCreate ::
  "('h, 'w) file_system \<Rightarrow> ('f, 'h, 'w, 'z) site_scheme \<Rightarrow> ('f, 'h, 'w, 'z) site_scheme" where
  "handleFileCreate F s =
     (if currentArgs (site_http s) = [] then plain_answer 500 ''BAD ARGS'' s
      else (let path = arg_at 0 (site_http s) in
        if path = ''/'' then plain_answer 500 ''BAD PATH'' s
        else (let (there, w) = fs_file_exists F path (site_disk s) in
          if there then plain_answer 500 ''FILE EXISTS'' (s\<lparr>site_disk := w\<rparr>)
          else (let (file, w1) = fs_open F (cstr path) FILE_WRITE w in
            if file_ok F file w1 then plain_answer 200 [] (s\<lparr>site_disk := file_close F file w1\<rparr>)
            else plain_answer 500 ''CREATE FAILED'' (s\<lparr>site_disk := w1\<rparr>)))))"

text \<open>The loop over the entries of a directory; the first character of a name is left out.\<close>

definition fs_entry_text :: "string \<Rightarrow> bool \<Rightarrow> string" where
  "fs_entry_text name isDir =
     ''{'' @ [quote_char] @ ''type'' @ [quote_char] @ '':'' @ [quote_char] @ (if isDir then ''dir'' else ''file'') @
     [quote_char] @ '','' @ [quote_char] @ ''name'' @ [quote_char] @ '':'' @ [quote_char] @ substring_from name 1 @
     [quote_char] @ ''}''"

partial_function (option) list_files ::
  "('h, 'w) file_system \<Rightarrow> 'h \<Rightarrow> 'h \<Rightarrow> 'w \<Rightarrow> string \<Rightarrow> (string \<times> 'w) option" where
  "list_files F root file w json =
     (if \<not> file_ok F file w then Some (json, w)
      else (case dir_next F root w of (file1, root1, w1) \<Rightarrow>
        list_files F root1 file1 w1
          (json @ (if json \<noteq> ''['' then '','' else []) @ fs_entry_text (file_name F file) (file_is_dir F file w))))"

definition handleFileList ::
  "('h, 'w) file_system \<Rightarrow> ('f, 'h, 'w, 'z) site_scheme \<Rightarrow> ('f, 'h, 'w, 'z) site_scheme option" where
  "handleFileList F s =
     (if \<not> hasArg ''dir'' (site_http s) then Some (plain_answer 500 ''BAD ARGS'' s)
      else (let (root, w) = fs_open F (cstr (arg_named ''dir'' (site_http s))) FILE_READ (site_disk s) in
        map_option (\<lambda>(json, w'). on_http (send 200 (Some ''text/json'') (json @ '']'')) (s\<lparr>site_disk := w'\<rparr>))
          (if file_is_dir F root w
           then (let (file, root1, w1) = dir_next F root w in list_files F root1 file w1 ''['')
           else Some (''['', w))))"

section \<open>The sketch\<close>

definition fs_found_or_404 ::
  "('h, 'w) file_system \<Rightarrow> string \<Rightarrow> ('f, 'h, 'w, 'z) site_scheme \<Rightarrow> ('f, 'h, 'w, 'z) site_scheme" where
  "fs_found_or_404 F path s =
     (let (found, s1) = handleFileRead F path s in if found then s1 else plain_answer 404 ''FileNotFound'' s1)"

text \<open>The page of the state: free memory and an analog input.\<close>

definition fs_all_text :: "u32 \<Rightarrow> int \<Rightarrow> string" where
  "fs_all_text heap analog =
     ''{'' @ [quote_char] @ ''heap'' @ [quote_char] @ '':'' @ dec (unat heap) @
     '', '' @ [quote_char] @ ''analog'' @ [quote_char] @ '':'' @ dec_int analog @
     '', '' @ [quote_char] @ ''gpio'' @ [quote_char] @ '':'' @ dec 0 @ ''}''"

fun fs_run ::
  "('h, 'w) file_system \<Rightarrow> u32 \<Rightarrow> int \<Rightarrow> fs_callback \<Rightarrow> ('h, 'w) fs_site \<Rightarrow> ('h, 'w) fs_site option" where
  "fs_run F heap analog Fs_list s = handleFileList F s"
| "fs_run F heap analog Fs_editor s = Some (fs_found_or_404 F ''/edit.htm'' s)"
| "fs_run F heap analog Fs_create s = Some (handleFileCreate F s)"
| "fs_run F heap analog Fs_delete s = Some (handleFileDelete F s)"
| "fs_run F heap analog Fs_upload_done s = Some (plain_answer 200 [] s)"
| "fs_run F heap analog Fs_upload s =
     Some (case currentUpload (site_http s) of
             None \<Rightarrow> s
           | Some u \<Rightarrow> fs_handleFileUpload F (u_filename u) (u_status u, u_buf u, u_totalSize u) s)"
| "fs_run F heap analog Fs_all s = Some (on_http (send 200 (Some ''text/json'') (fs_all_text heap analog)) s)"
| "fs_run F heap analog Fs_not_found s = Some (fs_found_or_404 F (currentUri (site_http s)) s)"

definition fs_routes :: "fs_callback handler list" where
  "fs_routes =
     on_upload ''/all'' HTTP_GET Fs_all None (
     on_upload ''/edit'' HTTP_POST Fs_upload_done (Some Fs_upload) (
     on_upload ''/edit'' HTTP_DELETE Fs_delete None (
     on_upload ''/edit'' HTTP_PUT Fs_create None (
     on_upload ''/edit'' HTTP_GET Fs_editor None (
     on_upload ''/list'' HTTP_GET Fs_list None [])))))"

section \<open>Facts\<close>

text \<open>
  A flat file system, in which everything that is not a file opens as a directory; \<open>held\<close> is the
  content of its files.
\<close>

definition flat_law :: "('h, 'w) file_system \<Rightarrow> ('w \<Rightarrow> string \<Rightarrow> bytes option) \<Rightarrow> bool" where
  "flat_law F held \<longleftrightarrow>
     (\<forall>w p. (case fs_open F p FILE_READ w of (h, w1) \<Rightarrow>
               held w1 = held w \<and> (file_is_dir F h w1 \<longleftrightarrow> held w p = None) \<and>
               (\<forall>b. held w p = Some b \<longrightarrow>
                  file_rest F h w1 = b \<and> file_name F h = p \<and> file_size F h w1 = word_of_int (int (length b)))) \<and>
            held (fs_remove F p w) = (held w)(p := None) \<and>
            (case fs_open F p FILE_WRITE w of (h, w1) \<Rightarrow>
               held w1 = (if file_ok F h w1 then (held w)(p \<mapsto> []) else held w))) \<and>
     (\<forall>h w. held (file_close F h w) = held w)"

lemma flat_open:
  assumes "flat_law F held" "fs_open F p FILE_READ w = (h, w1)"
  shows "held w1 = held w" "file_is_dir F h w1 \<longleftrightarrow> held w p = None"
    "held w p = Some b \<Longrightarrow> file_rest F h w1 = b \<and> file_name F h = p \<and> file_size F h w1 = word_of_int (int (length b))"
proof -
  have "case fs_open F p FILE_READ w of (h, w1) \<Rightarrow>
      held w1 = held w \<and> (file_is_dir F h w1 \<longleftrightarrow> held w p = None) \<and>
      (\<forall>b. held w p = Some b \<longrightarrow>
         file_rest F h w1 = b \<and> file_name F h = p \<and> file_size F h w1 = word_of_int (int (length b)))"
    using assms(1) [unfolded flat_law_def, THEN conjunct1, rule_format, of w p] by simp
  then show "held w1 = held w" "file_is_dir F h w1 \<longleftrightarrow> held w p = None"
    "held w p = Some b \<Longrightarrow> file_rest F h w1 = b \<and> file_name F h = p \<and> file_size F h w1 = word_of_int (int (length b))"
    using assms(2) by simp_all
qed

lemma flat_create:
  assumes "flat_law F held" "fs_open F p FILE_WRITE w = (h, w1)"
  shows "held w1 = (if file_ok F h w1 then (held w)(p \<mapsto> []) else held w)"
proof -
  have "case fs_open F p FILE_WRITE w of (h, w1) \<Rightarrow> held w1 = (if file_ok F h w1 then (held w)(p \<mapsto> []) else held w)"
    using assms(1) [unfolded flat_law_def, THEN conjunct1, rule_format, of w p] by simp
  then show ?thesis using assms(2) by simp
qed

lemma flat_rest:
  "flat_law F held \<Longrightarrow> held (fs_remove F p w) = (held w)(p := None)"
  "flat_law F held \<Longrightarrow> held (file_close F h w) = held w"
  by (simp_all add: flat_law_def)

lemma flat_exists:
  "flat_law F held \<Longrightarrow> fst (fs_file_exists F p w) = (held w (cstr p) \<noteq> None) \<and> held (snd (fs_file_exists F p w)) = held w"
  using flat_open [of F held "cstr p" w] flat_rest(2) [of F held]
  by (simp add: fs_file_exists_def split: prod.split)

text \<open>
  Where a missing file opens as nothing, and nothing is not a directory, everything exists.
\<close>

lemma exists_without_directories:
  "(case fs_open F (cstr p) FILE_READ w of (h, w1) \<Rightarrow> \<not> file_ok F h w1 \<and> \<not> file_is_dir F h w1) \<Longrightarrow>
     fst (fs_file_exists F p w)"
  by (simp add: fs_file_exists_def split: prod.splits)

text \<open>Reading: the packed file is preferred; its type is that of the path asked for.\<close>

lemma file_read:
  fixes s :: "('f, 'h, 'w, 'z) site_scheme"
  assumes law: "flat_law F held" and path: "p = (if ends_with p0 ''/'' then p0 @ ''index.htm'' else p0)" "nul \<notin> set p"
    and r: "handleFileRead F p0 s = (found, s')"
  shows "held (site_disk s') = held (site_disk s) \<and>
    (case (held (site_disk s) (p @ ''.gz''), held (site_disk s) p) of
       (Some b, _) \<Rightarrow> found \<and> site_http s' = streamFile (p @ ''.gz'') b (fs_getContentType p (site_http s)) (site_http s)
     | (None, Some b) \<Rightarrow> found \<and> site_http s' = streamFile p b (fs_getContentType p (site_http s)) (site_http s)
     | (None, None) \<Rightarrow> \<not> found \<and> site_http s' = site_http s)"
proof -
  let ?w = "site_disk s"
  let ?gz = "p @ ''.gz''"
  have c: "cstr p = p" "cstr ?gz = ?gz" using path(2) by (simp_all add: cstr_id)
  have ex: "fs_file_exists F q w = (yes, w') \<Longrightarrow> yes = (held w (cstr q) \<noteq> None) \<and> held w' = held w" for q w yes w'
    using flat_exists [OF law, of q w] by simp
  obtain gz w1 where e1: "fs_file_exists F ?gz ?w = (gz, w1)" by fastforce
  obtain yes w2 where e2: "(if gz then (True, w1) else fs_file_exists F p w1) = (yes, w2)" by fastforce
  obtain gz' w3 where e3: "fs_file_exists F ?gz w2 = (gz', w3)" by fastforce
  obtain h w4 where e4: "fs_open F (cstr (if gz' then ?gz else p)) FILE_READ w3 = (h, w4)" by fastforce
  have 1: "gz = (held ?w ?gz \<noteq> None)" "held w1 = held ?w" using ex [OF e1] c by simp_all
  have 2: "yes = (gz \<or> held ?w p \<noteq> None)" "held w2 = held ?w"
    using e2 ex [of p w1 yes w2] c 1 by (auto split: if_splits)
  have 3: "gz' = gz" "held w3 = held ?w" using ex [OF e3] c 1 2 by simp_all
  have sent: "held ?w (if gz then ?gz else p) = Some b \<Longrightarrow> stream_open_file F h t w4 v = streamFile (if gz then ?gz else p) b t v"
    for b t and v :: "'f http"
    using flat_open(3) [OF law e4] 3 c
    by (cases gz) (auto simp: stream_open_file_whole)
  have 4: "held w4 = held ?w" using flat_open(1) [OF law e4] 3 by simp
  have "(found, s') = (if yes then (True, on_disk (file_close F h)
      (on_http (stream_open_file F h (fs_getContentType p (site_http s)) w4) (s\<lparr>site_disk := w4\<rparr>)))
      else (False, s\<lparr>site_disk := w2\<rparr>))"
    using r e1 e2 e3 e4 by (cases yes) (auto simp: handleFileRead_def path(1) [symmetric] Let_def)
  then show ?thesis
    using 1 2 4 sent flat_rest(2) [OF law] by (cases gz; cases "held ?w p") auto
qed

text \<open>Deleting takes one file, creating adds an empty one, and neither touches another.\<close>

lemma file_delete:
  assumes "flat_law F held" "currentArgs (site_http s) = (k, p) # more_args" "p \<noteq> ''/''" "nul \<notin> set p"
  shows "held (site_disk (handleFileDelete F s)) = (held (site_disk s))(p := None) \<and>
    site_http (handleFileDelete F s) =
      (if held (site_disk s) p = None then send 404 (Some ''text/plain'') ''FileNotFound'' (site_http s)
       else send 200 (Some ''text/plain'') [] (site_http s))"
proof -
  obtain there w where e: "fs_file_exists F p (site_disk s) = (there, w)" by fastforce
  then have "there = (held (site_disk s) p \<noteq> None)" "held w = held (site_disk s)"
    using flat_exists [OF assms(1), of p "site_disk s"] assms(4) by (simp_all add: cstr_id)
  then show ?thesis
    using assms e flat_rest(1) [OF assms(1)]
    by (auto simp: handleFileDelete_def arg_at_def plain_answer_def cstr_id)
qed

lemma file_create:
  assumes "flat_law F held" "currentArgs (site_http s) = (k, p) # more_args" "p \<noteq> ''/''" "nul \<notin> set p"
    and "\<forall>w. case fs_open F p FILE_WRITE w of (h, w1) \<Rightarrow> file_ok F h w1"
  shows "held (site_disk (handleFileCreate F s)) =
      (if held (site_disk s) p = None then (held (site_disk s))(p \<mapsto> []) else held (site_disk s)) \<and>
    site_http (handleFileCreate F s) =
      (if held (site_disk s) p = None then send 200 (Some ''text/plain'') [] (site_http s)
       else send 500 (Some ''text/plain'') ''FILE EXISTS'' (site_http s))"
proof -
  obtain there w where e: "fs_file_exists F p (site_disk s) = (there, w)" by fastforce
  then have "there = (held (site_disk s) p \<noteq> None)" "held w = held (site_disk s)"
    using flat_exists [OF assms(1), of p "site_disk s"] assms(4) by (simp_all add: cstr_id)
  moreover obtain h w1 where o: "fs_open F p FILE_WRITE w = (h, w1)" by fastforce
  moreover have "file_ok F h w1" using assms(5) o by (metis case_prodD)
  ultimately show ?thesis
    using assms(2-4) e flat_rest(2) [OF assms(1)] flat_create [OF assms(1) o]
    by (auto simp: handleFileCreate_def arg_at_def plain_answer_def cstr_id)
qed

text \<open>An upload leaves the file under its name, with a slash in front.\<close>

lemma fs_upload_holds:
  fixes s :: "('f, 'h, 'w, 'z) site_scheme"
  assumes none: "strstr f dash_line = None"
    and p: "p = cstr (if starts_with fn ''/'' then fn else ''/'' @ fn)" and law: "write_law F p held mine"
    and uri: "currentUri (site_http s) = ''/edit''"
    and op: "case fs_open F p FILE_WRITE (site_disk s) of (h, w1) \<Rightarrow> file_ok F h w1"
  shows "\<exists>u. read_file B (start_upload name fn ty True) (f @ dash_line @ B @ rest) = File_end u rest \<and>
    held (site_disk (fold (fs_handleFileUpload F fn) (u_calls u) s)) = Some f"
proof -
  have "fold (fs_handleFileUpload F fn) cs t = fold (receive_file F p) cs t" if "currentUri (site_http t) = ''/edit''"
    for cs and t :: "('f, 'h, 'w, 'z) site_scheme"
    using that by (induction cs arbitrary: t) (auto simp: fs_handleFileUpload_def p)
  then show ?thesis
    using read_file_finds [OF none, of B "start_upload name fn ty True" rest]
      received_file_is_held [OF law op refl, of f name fn ty] uri by auto
qed

text \<open>The packed file is announced as such, unless it was asked for by its own type.\<close>

lemma packed_file_announced:
  "\<not> hasArg ''download'' h \<Longrightarrow> ends_with p ''.htm'' \<Longrightarrow>
     streamFileCore n (p @ ''.gz'') (fs_getContentType p h) s =
     send 200 (Some ''text/html'') [] (sendHeader ''Content-Encoding'' ''gzip'' False (setContentLength n s))"
  by (simp add: streamFileCore_def fs_getContentType_def fs_types_def ends_with_def Let_def)

section \<open>A flat file system in memory\<close>

text \<open>A concrete file system for which the assumption holds; a file object is its path.\<close>

definition flat_ram :: "(string, (string \<times> bytes) list) file_system" where
  "flat_ram = \<lparr>
     fs_open = (\<lambda>p mode w. (p, if mode = FILE_WRITE then (p, []) # w else w)),
     fs_exists = (\<lambda>p w. map_of w p \<noteq> None),
     fs_remove = (\<lambda>p w. filter (\<lambda>(q, b). q \<noteq> p) w),
     fs_mkdir = (\<lambda>p w. w), fs_rmdir = (\<lambda>p w. w),
     file_ok = (\<lambda>h w. True), file_is_dir = (\<lambda>h w. map_of w h = None), file_name = (\<lambda>h. h),
     file_size = (\<lambda>h w. case map_of w h of Some b \<Rightarrow> word_of_int (int (length b)) | None \<Rightarrow> 0),
     file_rest = (\<lambda>h w. case map_of w h of Some b \<Rightarrow> b | None \<Rightarrow> []),
     file_write = (\<lambda>b h w. (h, case map_of w h of Some c \<Rightarrow> (h, c @ b) # w | None \<Rightarrow> w)),
     file_close = (\<lambda>h w. w), dir_rewind = (\<lambda>h w. (h, w)), dir_next = (\<lambda>h w. ([], h, w))\<rparr>"

lemma flat_ram_law: "flat_law flat_ram map_of"
proof -
  have "map_of (filter (\<lambda>(q, b). q \<noteq> p) w) = (map_of w)(p := None)" for p and w :: "(string \<times> bytes) list"
    by (rule ext, induction w) auto
  then show ?thesis by (simp add: flat_law_def flat_ram_def)
qed

lemma flat_ram_write_law: "write_law flat_ram p (\<lambda>w. map_of w p) (\<lambda>h. h = p)"
  by (auto simp: write_law_def flat_ram_def)

end
