(* ===== verification/Web_Sketches.thy ===== *)
theory Web_Sketches
  imports Sketch_Base Http_Rest
begin

text \<open>
  The small example sketches of the web server library: greetings, a page with a clock and a drawn
  graph, path parameters, a log-in by cookie, the two authentications and the firmware upload
  (\<open>examples/HelloServer\<close>, \<open>AdvancedWebServer\<close>, \<open>PathArgServer\<close>, \<open>SimpleAuthentification\<close>,
  \<open>HttpBasicAuth\<close>, \<open>HttpAdvancedAuth\<close>, \<open>WebUpdate\<close>).
\<close>

section \<open>Greetings\<close>

text \<open>With the server, whether the LED is lit.\<close>

type_synonym 'f led_site = "'f http \<times> bool"

definition plain_arg_line :: "string \<Rightarrow> string \<Rightarrow> string" where
  "plain_arg_line name v = '' '' @ name @ '': '' @ v @ [LF]"

text \<open>The answer to an unknown request, as three of the sketches give it; \<open>None\<close> is the loop over 256 arguments.\<close>

definition not_found_page :: "'f http \<Rightarrow> 'f http option" where
  "not_found_page h =
     map_option (\<lambda>m. send 404 (Some ''text/plain'') m h)
       (request_text plain_arg_line (''File Not Found'' @ [LF, LF]) h)"

definition hello_handleRoot :: "'f led_site \<Rightarrow> 'f led_site" where
  "hello_handleRoot s = (send 200 (Some ''text/plain'') ''hello from esp8266!'' (fst s), False)"

definition hello_handleNotFound :: "'f led_site \<Rightarrow> 'f led_site option" where
  "hello_handleNotFound s = map_option (\<lambda>h. (h, False)) (not_found_page (fst s))"

datatype hello_callback = Hello_root | Hello_inline | Hello_graph

definition hello_inline :: "'f led_site \<Rightarrow> 'f led_site" where
  "hello_inline s = (send 200 (Some ''text/plain'') ''this works as well'' (fst s), snd s)"

definition hello_routes :: "hello_callback handler list" where
  "hello_routes = on ''/inline'' Hello_inline None (on ''/'' Hello_root None [])"

section \<open>A clock and a graph\<close>

definition uptime_text :: "u32 \<Rightarrow> string" where
  "uptime_text ms =
     (let sec = unat ms div 1000; min = sec div 60; hr = min div 60
      in two_digits hr @ '':'' @ two_digits (min mod 60) @ '':'' @ two_digits (sec mod 60))"

definition root_text :: "u32 \<Rightarrow> string" where
  "root_text ms =
     ''<html>  <head>    <meta http-equiv='' @ [CHR 0x27] @ ''refresh'' @ [CHR 0x27] @ '' content='' @ [CHR 0x27] @ ''5'' @
     [CHR 0x27] @ ''/>    <title>ESP32 Demo</title>    <style>      body { background-color: #cccccc; '' @
     ''font-family: Arial, Helvetica, Sans-Serif; Color: #000088; }    </style>  </head>  <body>    '' @
     ''<h1>Hello from ESP32!</h1>    <p>Uptime: '' @ uptime_text ms @ ''</p>    <img src='' @ [quote_char] @
     ''/test.svg'' @ [quote_char] @ '' />  </body></html>''"

text \<open>The buffer of the page has 400 bytes.\<close>

definition advanced_handleRoot :: "u32 \<Rightarrow> 'f led_site \<Rightarrow> 'f led_site" where
  "advanced_handleRoot ms s = (send 200 (Some ''text/html'') (take 399 (root_text ms)) (fst s), False)"

text \<open>One line of the graph; \<open>y\<close> and \<open>y2\<close> are remainders of random numbers, not negative.\<close>

definition graph_line :: "nat \<Rightarrow> nat \<Rightarrow> nat \<Rightarrow> string" where
  "graph_line x1 y y2 =
     ''<line x1='' @ [quote_char] @ dec x1 @ [quote_char] @ '' y1='' @ [quote_char] @ dec (140 - y) @ [quote_char] @
     '' x2='' @ [quote_char] @ dec (x1 + 10) @ [quote_char] @ '' y2='' @ [quote_char] @ dec (140 - y2) @ [quote_char] @
     '' stroke-width='' @ [quote_char] @ ''1'' @ [quote_char] @ '' />'' @ [LF]"

fun graph_lines :: "(nat \<Rightarrow> nat) \<Rightarrow> nat \<Rightarrow> nat \<Rightarrow> nat list \<Rightarrow> string" where
  "graph_lines rand k y [] = []"
| "graph_lines rand k y (x1 # xs) =
     (let y2 = rand k mod 130 in graph_line x1 y y2 @ graph_lines rand (k + 1) y2 xs)"

definition graph_text :: "(nat \<Rightarrow> nat) \<Rightarrow> string" where
  "graph_text rand =
     ''<svg xmlns='' @ [quote_char] @ ''http://www.w3.org/2000/svg'' @ [quote_char] @ '' version='' @ [quote_char] @ ''1.1'' @
     [quote_char] @ '' width='' @ [quote_char] @ ''400'' @ [quote_char] @ '' height='' @ [quote_char] @ ''150'' @
     [quote_char] @ ''>'' @ [LF] @ ''<rect width='' @ [quote_char] @ ''400'' @ [quote_char] @ '' height='' @ [quote_char] @
     ''150'' @ [quote_char] @ '' fill='' @ [quote_char] @ ''rgb(250, 230, 210)'' @ [quote_char] @ '' stroke-width='' @
     [quote_char] @ ''1'' @ [quote_char] @ '' stroke='' @ [quote_char] @ ''rgb(0, 0, 0)'' @ [quote_char] @ '' />'' @ [LF] @
     ''<g stroke='' @ [quote_char] @ ''black'' @ [quote_char] @ ''>'' @ [LF] @
     graph_lines rand 1 (rand 0 mod 130) (map (\<lambda>i. 10 * (i + 1)) [0..<38]) @
     ''</g>'' @ [LF] @ ''</svg>'' @ [LF]"

definition drawGraph :: "(nat \<Rightarrow> nat) \<Rightarrow> 'f http \<Rightarrow> 'f http" where
  "drawGraph rand h = send 200 (Some ''image/svg+xml'') (graph_text rand) h"

definition advanced_handleNotFound :: "'f led_site \<Rightarrow> 'f led_site option" where
  "advanced_handleNotFound s = map_option (\<lambda>h. (h, False)) (not_found_page (fst s))"

definition advanced_routes :: "hello_callback handler list" where
  "advanced_routes = on ''/inline'' Hello_inline None (on ''/test.svg'' Hello_graph None (on ''/'' Hello_root None []))"

text \<open>Neither buffer is too short.\<close>

lemma length_dec_le: "n < 10 ^ k \<Longrightarrow> 0 < k \<Longrightarrow> length (dec n) \<le> k"
proof (induction k arbitrary: n)
  case (Suc k)
  then show ?case
  proof (cases "n < 10")
    case False
    then have "0 < k" using Suc.prems by (cases k) auto
    moreover have "n div 10 < 10 ^ k" using Suc.prems(1) by (simp add: less_mult_imp_div_less mult.commute)
    ultimately show ?thesis using False Suc.IH by (simp add: dec.simps [of n])
  qed (simp add: dec.simps [of n])
qed simp

lemma root_text_fits: "length (root_text ms) \<le> 399"
proof -
  have two: "length (two_digits n) \<le> k" if "n < 10 ^ k" "2 \<le> k" for n k
    using that length_dec_le [of n 1] length_dec_le [of n k] by (auto simp: two_digits_def)
  have "unat ms < 4294967296" by (rule unat_u32_less)
  then have "unat ms div 1000 div 60 div 60 < 10 ^ 4" by simp
  then have h: "length (two_digits (unat ms div 1000 div 60 div 60)) \<le> 4" by (rule two) simp
  have m: "length (two_digits (n mod 60)) \<le> 2" for n by (rule two) (simp_all add: mod_less_divisor [THEN less_trans])
  have "length (uptime_text ms) \<le> 10"
    using h m [of "unat ms div 1000 div 60"] m [of "unat ms div 1000"] by (simp add: uptime_text_def Let_def)
  then show ?thesis by (simp add: root_text_def)
qed

lemma graph_line_fits:
  assumes "x1 < 390"
  shows "length (graph_line x1 y y2) < 100"
proof -
  have "length (dec n) \<le> 3" if "n < 1000" for n using length_dec_le [of n 3] that by simp
  then have "length (dec x1) \<le> 3" "length (dec (x1 + 10)) \<le> 3" "length (dec (140 - y)) \<le> 3" "length (dec (140 - y2)) \<le> 3"
    using assms by simp_all
  then show ?thesis by (simp add: graph_line_def)
qed

section \<open>Parameters in a path\<close>

datatype path_callback = Path_root | Path_user | Path_device

definition path_routes :: "path_callback handler list" where
  "path_routes =
     on ''/users/{}/devices/{}'' Path_device None (on ''/users/{}'' Path_user None (on ''/'' Path_root None []))"

text \<open>\<open>None\<close> is the failing assertion of \<open>pathArg\<close>.\<close>

definition quoted_name :: "string \<Rightarrow> string" where
  "quoted_name t = [CHR 0x27] @ t @ [CHR 0x27]"

fun path_run :: "string list option \<Rightarrow> path_callback \<Rightarrow> 'f http \<Rightarrow> 'f http option" where
  "path_run args Path_root h = Some (send 200 (Some ''text/plain'') ''hello from esp32!'' h)"
| "path_run args Path_user h =
     map_option (\<lambda>user. send 200 (Some ''text/plain'') (''User: '' @ quoted_name user) h) (server_pathArg args 0)"
| "path_run args Path_device h =
     (case (server_pathArg args 0, server_pathArg args 1) of
        (Some user, Some device) \<Rightarrow>
          Some (send 200 (Some ''text/plain'')
            (''User: '' @ quoted_name user @ '' and Device: '' @ quoted_name device) h)
      | _ \<Rightarrow> None)"

lemma match_uri_skip:
  "(\<forall>j < n. i + j < length uri \<and> char_at uri (i + j) = char_at r (k + j)) \<Longrightarrow>
     match_uri uri r i k ps = match_uri uri r (i + n) (k + n) ps"
proof (induction n arbitrary: i k)
  case (Suc n)
  have "match_uri uri r i k ps = match_uri uri r (i + 1) (k + 1) ps"
    using Suc.prems [rule_format, of 0] by (subst match_uri.simps) simp
  also have "\<dots> = match_uri uri r (i + 1 + n) (k + 1 + n) ps"
  proof (rule Suc.IH, intro allI impI)
    fix j assume "j < n"
    then show "i + 1 + j < length uri \<and> char_at uri (i + 1 + j) = char_at r (k + 1 + j)"
      using Suc.prems [rule_format, of "j + 1"] by simp
  qed
  finally show ?case by simp
qed simp

lemma match_uri_last:
  assumes "length uri = i + 2" "char_at uri i = CHR ''{''" "char_at (drop k r) 0 \<noteq> CHR ''{''" "k \<le> length r"
  shows "match_uri uri r i k ps = (\<not> contains (drop k r) ''/'', ps @ [drop k r])"
proof -
  have "char_at r k = char_at (drop k r) 0" using assms(4) by (simp add: char_at_def)
  then show ?thesis using assms by (subst match_uri.simps) (simp add: substring_from_drop Let_def)
qed

lemma match_uri_param:
  assumes "i + 2 < length uri" "char_at uri i = CHR ''{''" "char_at uri (i + 2) = c" "c \<noteq> nul"
    and r: "r = a @ v @ c # rest" "k = length a" and v: "c \<notin> set v" "nul \<notin> set r" "char_at (v @ [c]) 0 \<noteq> CHR ''{''"
  shows "match_uri uri r i k ps = match_uri uri r (i + 3) (k + length v + 1) (ps @ [v])"
proof -
  have "strstr (v @ c # rest) [c] = Some (length v)"
    using strstr_skip [OF v(1), of "c # rest" "[]"] by simp
  then have "index_of r [c] k = Some (k + length v)"
    using r v(2) assms(4) by (simp add: index_of_from)
  moreover have "char_at r k = char_at (v @ [c]) 0" using r by (cases v) (simp_all add: char_at_def nth_append)
  moreover have "substring r k (k + length v) = v" using r by (simp add: substring_def Let_def)
  ultimately show ?thesis using assms(1-3) v(3) by (subst match_uri.simps) simp
qed

lemma match_uri_common:
  assumes "uri = a @ c @ b" "r = r0 @ c @ t" "i = length a" "k = length r0"
  shows "match_uri uri r i k ps = match_uri uri r (i + length c) (k + length c) ps"
  using assms by (intro match_uri_skip) (auto simp: char_at_def nth_append)

text \<open>A user and a device are read from the path, unless one begins with an opening brace.\<close>

lemma device_path_read:
  assumes "CHR ''/'' \<notin> set u" "CHR ''/'' \<notin> set d" "nul \<notin> set u" "nul \<notin> set d"
    and "char_at u 0 \<noteq> CHR ''{''" "char_at d 0 \<noteq> CHR ''{''"
  shows "match_uri ''/users/{}/devices/{}'' (''/users/'' @ u @ ''/devices/'' @ d) 0 0 [] = (True, [u, d])"
proof -
  let ?uri = "''/users/{}/devices/{}''" and ?r = "''/users/'' @ u @ ''/devices/'' @ d"
  have "length (''/users/'' @ u @ ''/devices/'') = 16 + length u" "?r = (''/users/'' @ u @ ''/devices/'') @ d" by simp_all
  then have at_d: "drop (16 + length u) ?r = d" by (metis append_eq_conv_conj)
  have "match_uri ?uri ?r 0 0 [] = match_uri ?uri ?r 7 7 []"
    using match_uri_common [of ?uri "[]" "''/users/''" "''{}/devices/{}''" ?r "[]" "u @ ''/devices/'' @ d" 0 0]
    by (simp add: eval_nat_numeral)
  also have "\<dots> = match_uri ?uri ?r (7 + 3) (7 + length u + 1) ([] @ [u])"
  proof (rule match_uri_param)
    show "char_at (u @ [CHR ''/'']) 0 \<noteq> CHR ''{''" using assms(5) by (cases u) (auto simp: char_at_def)
    show "?r = ''/users/'' @ u @ CHR ''/'' # ''devices/'' @ d" by simp
  qed (use assms in \<open>auto simp: char_at_def\<close>)
  also have "\<dots> = match_uri ?uri ?r 10 (8 + length u) [u]" by (simp add: add.commute)
  also have "\<dots> = match_uri ?uri ?r 18 (16 + length u) [u]"
    using match_uri_common [of ?uri "''/users/{}/''" "''devices/''" "''{}''" ?r "''/users/'' @ u @ ''/''" d 10 "8 + length u" "[u]"]
    by (simp add: eval_nat_numeral)
  also have "\<dots> = (\<not> contains (drop (16 + length u) ?r) ''/'', [u] @ [drop (16 + length u) ?r])"
    by (rule match_uri_last) (use assms(6) at_d in \<open>simp_all add: char_at_def\<close>)
  also have "\<dots> = (\<not> contains d ''/'', [u, d])" unfolding at_d by simp
  finally show ?thesis
    using assms(2,4) by (cases "d = []") (simp_all add: contains_def index_of_def cstr_id strstr_char_notin)
qed

lemma brace_not_matched: "match_uri ''/users/{}'' (''/users/{'' @ v) 0 0 [] = (v = ''}'', [])"
proof -
  have "match_uri ''/users/{}'' (''/users/{'' @ v) 0 0 [] = match_uri ''/users/{}'' (''/users/{'' @ v) 8 8 []"
    using match_uri_common [of "''/users/{}''" "[]" "''/users/{''" "''}''" "''/users/{'' @ v" "[]" v 0 0]
    by (simp add: eval_nat_numeral)
  also have "\<dots> = (v = ''}'', [])"
    by (subst match_uri.simps, subst match_uri.simps) (cases v, auto simp: char_at_def nth_append)
  finally show ?thesis .
qed

section \<open>A log-in by cookie\<close>

text \<open>The cookie is searched for a text that anyone can send.\<close>

definition is_authentified :: "'f http \<Rightarrow> bool" where
  "is_authentified h \<longleftrightarrow> hasHeader ''Cookie'' h \<and> contains (header ''Cookie'' h) ''ESPSESSIONID=1''"

definition redirect :: "string \<Rightarrow> string option \<Rightarrow> 'f http \<Rightarrow> 'f http" where
  "redirect location cookie h =
     (let h1 = sendHeader ''Cache-Control'' ''no-cache'' False (sendHeader ''Location'' location False h);
          h2 = (case cookie of None \<Rightarrow> h1 | Some c \<Rightarrow> sendHeader ''Set-Cookie'' c False h1)
      in send 301 None [] h2)"

definition login_form :: "string \<Rightarrow> string" where
  "login_form msg =
     ''<html><body><form action='' @ quoted_name ''/login'' @ '' method='' @ quoted_name ''POST'' @
     ''>To log in, please use : admin/admin<br>'' @
     ''User:<input type='' @ quoted_name ''text'' @ '' name='' @ quoted_name ''USERNAME'' @ '' placeholder='' @
     quoted_name ''user name'' @ ''><br>'' @
     ''Password:<input type='' @ quoted_name ''password'' @ '' name='' @ quoted_name ''PASSWORD'' @ '' placeholder='' @
     quoted_name ''password'' @ ''><br>'' @
     ''<input type='' @ quoted_name ''submit'' @ '' name='' @ quoted_name ''SUBMIT'' @ '' value='' @ quoted_name ''Submit'' @
     ''></form>'' @ msg @ ''<br>'' @
     ''You also can go <a href='' @ quoted_name ''/inline'' @ ''>here</a></body></html>''"

definition auth_handleLogin :: "'f http \<Rightarrow> 'f http" where
  "auth_handleLogin h =
     (if hasArg ''DISCONNECT'' h then redirect ''/login'' (Some ''ESPSESSIONID=0'') h
      else
        let tried = hasArg ''USERNAME'' h \<and> hasArg ''PASSWORD'' h in
        if tried \<and> arg_named ''USERNAME'' h = ''admin'' \<and> arg_named ''PASSWORD'' h = ''admin''
        then redirect ''/'' (Some ''ESPSESSIONID=1'') h
        else send 200 (Some ''text/html'')
               (login_form (if tried then ''Wrong username/password! try again.'' else [])) h)"

definition auth_handleRoot :: "'f http \<Rightarrow> 'f http" where
  "auth_handleRoot h =
     (if \<not> is_authentified h then redirect ''/login'' None h
      else send 200 (Some ''text/html'')
        (''<html><body><H2>hello, you successfully connected to esp8266!</H2><br>'' @
         (if hasHeader ''User-Agent'' h
          then ''the user agent used is : '' @ header ''User-Agent'' h @ ''<br><br>'' else []) @
         ''You can access this page until you <a href='' @ [quote_char] @ ''/login?DISCONNECT=YES'' @ [quote_char] @
         ''>disconnect</a></body></html>'') h)"

definition auth_handleNotFound :: "'f http \<Rightarrow> 'f http option" where
  "auth_handleNotFound h = not_found_page h"

datatype auth_callback = Auth_root | Auth_login | Auth_inline

definition auth_routes :: "auth_callback handler list" where
  "auth_routes = on ''/inline'' Auth_inline None (on ''/login'' Auth_login None (on ''/'' Auth_root None []))"

definition auth_inline :: "'f http \<Rightarrow> 'f http" where
  "auth_inline h = send 200 (Some ''text/plain'') ''this works without need of authentification'' h"

definition auth_collects :: "'z http_args_scheme \<Rightarrow> 'z http_args_scheme" where
  "auth_collects h = collectHeaders [''User-Agent'', ''Cookie''] h"

text \<open>
  The page is given exactly to requests whose cookie holds the text, whoever sent it: the log-in
  leaves no trace in the server but the cookie itself.
\<close>

lemma root_needs_cookie:
  "\<not> is_authentified h \<Longrightarrow> auth_handleRoot h = redirect ''/login'' None h"
  by (simp add: auth_handleRoot_def)

lemma cookie_is_enough:
  "currentHeaders h = [(''Authorization'', a), (''User-Agent'', ua), (''Cookie'', ''ESPSESSIONID=1'')] \<Longrightarrow> is_authentified h"
  by (simp add: is_authentified_def hasHeader_def header_def contains_def index_of_def cstr_def
      equals_ignore_case_def to_lower_def lower_char_def)

lemma login_sets_cookie:
  "\<not> hasArg ''DISCONNECT'' h \<Longrightarrow> hasArg ''USERNAME'' h \<Longrightarrow> hasArg ''PASSWORD'' h \<Longrightarrow>
     auth_handleLogin h =
       (if arg_named ''USERNAME'' h = ''admin'' \<and> arg_named ''PASSWORD'' h = ''admin''
        then redirect ''/'' (Some ''ESPSESSIONID=1'') h
        else send 200 (Some ''text/html'') (login_form ''Wrong username/password! try again.'') h)"
  by (simp add: auth_handleLogin_def)

section \<open>The two authentications\<close>

text \<open>\<open>md5\<close> and \<open>base64\<close> are library functions, \<open>n1\<close> and \<open>n2\<close> the random texts of the challenge.\<close>

definition basic_root :: "(string \<Rightarrow> string) \<Rightarrow> (string \<Rightarrow> string) \<Rightarrow> string \<Rightarrow> string \<Rightarrow> 'f http \<Rightarrow> 'f http" where
  "basic_root md5 base64 n1 n2 h =
     (if \<not> authenticate md5 base64 ''admin'' ''esp32'' h then requestAuthentication n1 n2 False None [] h
      else send 200 (Some ''text/plain'') ''Login OK'' h)"

definition digest_root :: "(string \<Rightarrow> string) \<Rightarrow> (string \<Rightarrow> string) \<Rightarrow> string \<Rightarrow> string \<Rightarrow> 'f http \<Rightarrow> 'f http" where
  "digest_root md5 base64 n1 n2 h =
     (if \<not> authenticate md5 base64 ''admin'' ''esp32'' h
      then requestAuthentication n1 n2 True (Some ''Custom Auth Realm'') ''Authentication Failed'' h
      else send 200 (Some ''text/plain'') ''Login OK'' h)"

text \<open>A sketch that finds no network is restarted.\<close>

definition auth_setup :: "bool \<Rightarrow> unit handler list outcome" where
  "auth_setup found = (if \<not> found then Restart else Return (on ''/'' () None []))"

section \<open>Firmware by upload\<close>

record 'u updater =
  up_begin :: "'u \<Rightarrow> bool \<times> 'u"
  up_write :: "bytes \<Rightarrow> 'u \<Rightarrow> nat \<times> 'u"
  up_end :: "'u \<Rightarrow> bool \<times> 'u"
  up_hasError :: "'u \<Rightarrow> bool"

definition web_update_upload :: "'u updater \<Rightarrow> upload_status \<times> bytes \<times> u32 \<Rightarrow> 'u \<Rightarrow> 'u" where
  "web_update_upload U up u =
     (case up of
        (UPLOAD_FILE_START, b, n) \<Rightarrow> snd (up_begin U u)
      | (UPLOAD_FILE_WRITE, b, n) \<Rightarrow> snd (up_write U b u)
      | (UPLOAD_FILE_END, b, n) \<Rightarrow> snd (up_end U u)
      | (UPLOAD_FILE_ABORTED, b, n) \<Rightarrow> u)"

definition web_update_done :: "'u updater \<Rightarrow> 'u \<Rightarrow> 'f http \<Rightarrow> 'f http \<times> unit outcome" where
  "web_update_done U u h =
     (send 200 (Some ''text/plain'') (if up_hasError U u then ''FAIL'' else ''OK'')
        (sendHeader ''Connection'' ''close'' False h), Restart)"

definition serverIndex :: string where
  "serverIndex =
     ''<form method='' @ quoted_name ''POST'' @ '' action='' @ quoted_name ''/update'' @ '' enctype='' @
     quoted_name ''multipart/form-data'' @ ''><input type='' @ quoted_name ''file'' @ '' name='' @ quoted_name ''update'' @
     ''><input type='' @ quoted_name ''submit'' @ '' value='' @ quoted_name ''Update'' @ ''></form>''"

definition web_update_root :: "'f http \<Rightarrow> 'f http" where
  "web_update_root h = send 200 (Some ''text/html'') serverIndex (sendHeader ''Connection'' ''close'' False h)"

datatype update_callback = Update_root | Update_done | Update_upload

text \<open>\<open>setup\<close>: without a network the server is left closed, and no page is there.\<close>

definition web_update_setup :: "bool \<Rightarrow> update_callback handler list option" where
  "web_update_setup found =
     (if found
      then Some (on_upload ''/update'' HTTP_POST Update_done (Some Update_upload) (on_upload ''/'' HTTP_GET Update_root None []))
      else None)"

text \<open>A firmware that arrives is written as it was sent, piece by piece, between its begin and its end.\<close>

fun write_all :: "'u updater \<Rightarrow> bytes list \<Rightarrow> 'u \<Rightarrow> 'u" where
  "write_all U [] u = u"
| "write_all U (b # bs) u = write_all U bs (snd (up_write U b u))"

lemma web_update_pieces:
  "\<forall>c \<in> set cs. fst c = UPLOAD_FILE_WRITE \<Longrightarrow>
     fold (web_update_upload U) cs u = write_all U (map (\<lambda>(st, b, n). b) cs) u"
  by (induction cs arbitrary: u) (auto simp: web_update_upload_def)

lemma firmware_written:
  "\<exists>bs. concat bs = img \<and>
     fold (web_update_upload U) (u_calls (end_upload (write_bytes img (start_upload name fn ty True)))) u =
       snd (up_end U (write_all U bs (snd (up_begin U u))))"
proof -
  obtain cs n where cs: "u_calls (end_upload (write_bytes img (start_upload name fn ty True))) =
      (UPLOAD_FILE_START, [], 0) # cs @ [(UPLOAD_FILE_END, n)]"
      "\<forall>c \<in> set cs. fst c = UPLOAD_FILE_WRITE" "concat (map (\<lambda>(st, b, n). b) cs) = img"
    using upload_calls_shape by blast
  then show ?thesis
    by (intro exI [of _ "map (\<lambda>(st, b, n). b) cs"], cases n) (simp add: web_update_pieces, simp add: web_update_upload_def)
qed

end
