(* ===== verification/Event_Sketches.thy ===== *)
theory Event_Sketches
  imports Sketch_Base Wifi_Udp Wifi_Ethernet
begin

text \<open>
  The example sketches of the WiFi library that live on its events: the printed log of all events, the
  switch between WiFi and Bluetooth, the clock by NTP, the UDP client, WPS and Ethernet
  (\<open>replace_lib/WiFi/examples\<close>).  They are written on the models of the driver and of \<open>WiFiUDP\<close>.
\<close>

section \<open>A log of the events (\<open>WiFiClientEvents\<close>)\<close>

definition event_list :: "event_id list" where
  "event_list =
     [WIFI_READY, SCAN_DONE, STA_START, STA_STOP, STA_CONNECTED, STA_DISCONNECTED, STA_AUTHMODE_CHANGE, STA_GOT_IP,
      STA_LOST_IP, STA_WPS_ER_SUCCESS, STA_WPS_ER_FAILED, STA_WPS_ER_TIMEOUT, STA_WPS_ER_PIN, AP_START, AP_STOP,
      AP_STACONNECTED, AP_STADISCONNECTED, AP_STAIPASSIGNED, AP_PROBEREQRECVED, GOT_IP6, ETH_START, ETH_STOP,
      ETH_CONNECTED, ETH_DISCONNECTED, ETH_GOT_IP, EVENT_MAX]"

fun position :: "'a \<Rightarrow> 'a list \<Rightarrow> nat" where
  "position x [] = 0"
| "position x (y # ys) = (if x = y then 0 else Suc (position x ys))"

definition event_number :: "event_id \<Rightarrow> nat" where
  "event_number e = position e event_list"

definition print_ip :: "u32 \<Rightarrow> string" where
  "print_ip ip = dotted [unat (octet ip 0), unat (octet ip 1), unat (octet ip 2), unat (octet ip 3)]"

text \<open>\<open>ip\<close> is the address of the station.\<close>

fun event_text :: "u32 \<Rightarrow> event_id \<Rightarrow> string option" where
  "event_text ip WIFI_READY = Some ''WiFi interface ready''"
| "event_text ip SCAN_DONE = Some ''Completed scan for access points''"
| "event_text ip STA_START = Some ''WiFi client started''"
| "event_text ip STA_STOP = Some ''WiFi clients stopped''"
| "event_text ip STA_CONNECTED = Some ''Connected to access point''"
| "event_text ip STA_DISCONNECTED = Some ''Disconnected from WiFi access point''"
| "event_text ip STA_AUTHMODE_CHANGE = Some ''Authentication mode of access point has changed''"
| "event_text ip STA_GOT_IP = Some (''Obtained IP address: '' @ print_ip ip)"
| "event_text ip STA_LOST_IP = Some ''Lost IP address and IP address is reset to 0''"
| "event_text ip STA_WPS_ER_SUCCESS = Some ''WiFi Protected Setup (WPS): succeeded in enrollee mode''"
| "event_text ip STA_WPS_ER_FAILED = Some ''WiFi Protected Setup (WPS): failed in enrollee mode''"
| "event_text ip STA_WPS_ER_TIMEOUT = Some ''WiFi Protected Setup (WPS): timeout in enrollee mode''"
| "event_text ip STA_WPS_ER_PIN = Some ''WiFi Protected Setup (WPS): pin code in enrollee mode''"
| "event_text ip AP_START = Some ''WiFi access point started''"
| "event_text ip AP_STOP = Some ''WiFi access point  stopped''"
| "event_text ip AP_STACONNECTED = Some ''Client connected''"
| "event_text ip AP_STADISCONNECTED = Some ''Client disconnected''"
| "event_text ip AP_STAIPASSIGNED = Some ''Assigned IP address to client''"
| "event_text ip AP_PROBEREQRECVED = Some ''Received probe request''"
| "event_text ip GOT_IP6 = Some ''IPv6 is preferred''"
| "event_text ip ETH_START = Some ''Ethernet started''"
| "event_text ip ETH_STOP = Some ''Ethernet stopped''"
| "event_text ip ETH_CONNECTED = Some ''Ethernet connected''"
| "event_text ip ETH_DISCONNECTED = Some ''Ethernet disconnected''"
| "event_text ip ETH_GOT_IP = Some ''Obtained IP address''"
| "event_text ip EVENT_MAX = None"

datatype log_callback = Log_event | Log_got_ip | Log_lost

text \<open>The lines a callback prints; \<open>got\<close> is the address in the event.\<close>

fun log_lines :: "u32 \<Rightarrow> u32 \<Rightarrow> event \<Rightarrow> log_callback \<Rightarrow> string list" where
  "log_lines ip got ev Log_event =
     (''[WiFi-event] event: '' @ dec (event_number (ev_id ev))) #
     (case event_text ip (ev_id ev) of None \<Rightarrow> [] | Some t \<Rightarrow> [t])"
| "log_lines ip got ev Log_got_ip = [''WiFi connected'', ''IP address: '', print_ip got]"
| "log_lines ip got ev Log_lost = [''WiFi lost connection. Reason: '' @ dec (ev_reason ev)]"

text \<open>The last registration's identity is printed; nothing is removed.\<close>

definition log_setup :: "esp \<Rightarrow> string \<Rightarrow> string \<Rightarrow> log_callback wifi \<Rightarrow> nat \<times> log_callback wifi" where
  "log_setup E ssid password w =
     (let w1 = snd (sta_disconnect E True False w);
          w2 = onEvent Log_got_ip STA_GOT_IP (onEvent Log_event EVENT_MAX w1);
          eventID = w_next_id w2;
          w3 = onEvent Log_lost STA_DISCONNECTED w2
      in (eventID, snd (sta_begin E ssid (Some password) 0 None True w3)))"

definition log_output :: "esp \<Rightarrow> u32 \<Rightarrow> u32 \<Rightarrow> event \<Rightarrow> log_callback wifi \<Rightarrow> string list" where
  "log_output E ip got ev w = concat (map (log_lines ip got ev) (snd (eventCallback E ev w)))"

lemma event_number_bound: "event_number e \<le> 25 \<and> event_list ! event_number e = e"
  by (cases e) (simp_all add: event_number_def event_list_def)

text \<open>Each event but the end mark has its line.\<close>

lemma event_text_all: "event_text ip e = None \<longleftrightarrow> e = EVENT_MAX"
  by (cases e) simp_all

lemma handlers_frame [frame_simps]:
  "w_handlers (tell cs w) = w_handlers w" "w_handlers (setStatusBits b w) = w_handlers w"
  "w_handlers (clearStatusBits b w) = w_handlers w" "w_handlers (snd (wifi_mode E m w)) = w_handlers w"
  by (auto simp: tell_def setStatusBits_def clearStatusBits_def wifi_mode_def set_wifi_mode_def espWiFiStart_def
      espWiFiStop_def wifiLowLevelInit_def Let_def split: prod.split bool.split)

lemma handlers_enable [frame_simps]:
  "w_handlers (snd (enableSTA E b w)) = w_handlers w" "w_handlers (snd (enableAP E b w)) = w_handlers w"
  by (simp_all add: enableSTA_def enableAP_def enable_mode_def Let_def frame_simps)

lemma handlers_connect [frame_simps]: "w_handlers (snd (sta_connect E c w)) = w_handlers w"
  by (auto simp: sta_connect_def sta_address_def frame_simps split: bool.split)

lemma handlers_sta [frame_simps]:
  "w_handlers (snd (sta_begin E s p c b k w)) = w_handlers w"
  "w_handlers (snd (sta_disconnect E o' e w)) = w_handlers w"
  "w_handlers (snd (sta_begin_again E w)) = w_handlers w"
proof -
  obtain r w1 where e: "enableSTA E True w = (r, w1)" by fastforce
  then have h: "w_handlers w1 = w_handlers w" using handlers_enable(1) [of E True w] by simp
  show "w_handlers (snd (sta_begin E s p c b k w)) = w_handlers w"
    using e h by (cases r) (simp_all add: sta_begin_def Let_def frame_simps split: option.split)
  show "w_handlers (snd (sta_begin_again E w)) = w_handlers w"
    using e h by (cases r) (simp_all add: sta_begin_again_def frame_simps)
  show "w_handlers (snd (sta_disconnect E o' e w)) = w_handlers w"
    by (simp add: sta_disconnect_def Let_def frame_simps)
qed

lemma handlers_event [frame_simps]: "w_handlers (event_effect E ev w) = w_handlers w"
  by (auto simp: event_effect_def Let_def frame_simps split: event_id.split option.split interface.split)

text \<open>A station that is lost, or gets its address, is logged twice; every other event once.\<close>

lemma log_of_event:
  assumes "w_handlers w = []" "log_setup E ssid password w = (i, w1)"
  shows "log_output E ip got ev w1 =
    log_lines ip got ev Log_event @
    (if ev_id ev = STA_GOT_IP then log_lines ip got ev Log_got_ip
     else if ev_id ev = STA_DISCONNECTED then log_lines ip got ev Log_lost
     else [])"
proof -
  have "map (\<lambda>h. (h_cb h, h_event h)) (w_handlers w1) =
      [(Log_event, EVENT_MAX), (Log_got_ip, STA_GOT_IP), (Log_lost, STA_DISCONNECTED)]"
    using assms by (auto simp: log_setup_def Let_def frame_simps onEvent_def)
  then obtain a b c where "w_handlers w1 = [a, b, c]" "h_cb a = Log_event" "h_event a = EVENT_MAX"
      "h_cb b = Log_got_ip" "h_event b = STA_GOT_IP" "h_cb c = Log_lost" "h_event c = STA_DISCONNECTED"
    by (auto simp: map_eq_Cons_conv)
  then show ?thesis by (auto simp: log_output_def eventCallback_def called_def frame_simps)
qed

section \<open>WiFi or Bluetooth (\<open>WiFiBlueToothSwitch\<close>)\<close>

datatype switch_step = STEP_BTON | STEP_BTOFF | STEP_STA | STEP_AP | STEP_AP_STA | STEP_OFF | STEP_BT_STA | STEP_END

fun next_step :: "switch_step \<Rightarrow> switch_step" where
  "next_step STEP_BTON = STEP_BTOFF"
| "next_step STEP_BTOFF = STEP_STA"
| "next_step STEP_STA = STEP_AP"
| "next_step STEP_AP = STEP_AP_STA"
| "next_step STEP_AP_STA = STEP_OFF"
| "next_step STEP_OFF = STEP_BT_STA"
| "next_step STEP_BT_STA = STEP_END"
| "next_step STEP_END = STEP_BTON"

record 'f switch =
  sw_step :: switch_step
  sw_bt :: bool
  sw_wifi :: "'f wifi"
  sw_lastPin :: bool

definition step_wifi :: "esp \<Rightarrow> switch_step \<Rightarrow> 'f wifi \<Rightarrow> 'f wifi" where
  "step_wifi E k w =
     (let begin = \<lambda>w. snd (sta_begin E ''your-ssid'' (Some ''your-pass'') 0 None True w) in
      case k of
        STEP_BTON \<Rightarrow> w
      | STEP_BTOFF \<Rightarrow> w
      | STEP_STA \<Rightarrow> begin w
      | STEP_AP \<Rightarrow> snd (softAP E ''esp32'' [] 1 0 4 (snd (wifi_mode E WIFI_MODE_AP w)))
      | STEP_AP_STA \<Rightarrow> begin w
      | STEP_OFF \<Rightarrow> snd (wifi_mode E WIFI_MODE_NULL w)
      | STEP_BT_STA \<Rightarrow> begin w
      | STEP_END \<Rightarrow> snd (wifi_mode E WIFI_MODE_NULL w))"

definition onButton :: "esp \<Rightarrow> 'f switch \<Rightarrow> 'f switch" where
  "onButton E s =
     (let k = sw_step s in
      s\<lparr>sw_bt := (if k = STEP_BTON \<or> k = STEP_BT_STA then True
                 else if k = STEP_BTOFF \<or> k = STEP_END then False else sw_bt s),
        sw_wifi := step_wifi E k (sw_wifi s), sw_step := next_step k\<rparr>)"

text \<open>One turn of \<open>loop\<close>; \<open>pin\<close> is true for a button that is not pressed.\<close>

definition switch_loop :: "esp \<Rightarrow> bool \<Rightarrow> 'f switch \<Rightarrow> 'f switch" where
  "switch_loop E pin s = (if \<not> pin \<and> sw_lastPin s then onButton E s else s)\<lparr>sw_lastPin := pin\<rparr>"

text \<open>Eight presses lead round; a button held down counts once.\<close>

lemma eight_presses: "sw_step ((onButton E ^^ 8) s) = sw_step s"
  by (cases "sw_step s") (simp_all add: onButton_def Let_def eval_nat_numeral)

lemma held_button: "sw_lastPin s = False \<Longrightarrow> switch_loop E False s = s"
  by (simp add: switch_loop_def)

fun presses :: "bool \<Rightarrow> bool list \<Rightarrow> nat" where
  "presses before [] = 0"
| "presses before (p # ps) = (if \<not> p \<and> before then 1 else 0) + presses p ps"

lemma presses_counted:
  "sw_step (fold (switch_loop E) pins s) = (next_step ^^ presses (sw_lastPin s) pins) (sw_step s)"
  by (induction pins arbitrary: s) (auto simp: switch_loop_def onButton_def Let_def funpow_swap1)

text \<open>The two steps that switch everything off do so, if the driver can be stopped.\<close>

lemma switched_off:
  assumes "e_stop E" "sw_step s = STEP_OFF \<or> sw_step s = STEP_END"
  shows "getMode (sw_wifi (onButton E s)) = WIFI_MODE_NULL"
proof -
  have "getMode (snd (wifi_mode E WIFI_MODE_NULL w)) = WIFI_MODE_NULL" for w :: "'a wifi"
    using assms(1) by (auto simp: wifi_mode_def espWiFiStop_def getMode_def WIFI_MODE_NULL_def Let_def)
  then show ?thesis using assms(2) by (auto simp: onButton_def step_wifi_def Let_def)
qed

section \<open>The time from the network (\<open>WiFiIPv6\<close>)\<close>

definition NTP_PACKET_SIZE :: nat where "NTP_PACKET_SIZE = 48"

definition ntp_request :: bytes where
  "ntp_request =
     (replicate 48 nul)[0 := char_of (227 :: nat), 1 := nul, 2 := char_of (6 :: nat), 3 := char_of (236 :: nat),
        12 := char_of (49 :: nat), 13 := char_of (78 :: nat), 14 := char_of (49 :: nat), 15 := char_of (52 :: nat)]"

definition ntp_seconds :: "bytes \<Rightarrow> u32" where
  "ntp_seconds buf =
     push_bit 24 (of_nat (of_char (buf ! 40))) OR push_bit 16 (of_nat (of_char (buf ! 41))) OR
     push_bit 8 (of_nat (of_char (buf ! 42))) OR of_nat (of_char (buf ! 43))"

definition ntp_epoch :: "u32 \<Rightarrow> u32" where
  "ntp_epoch secsSince1900 = secsSince1900 - 2208988800"

definition utc_text :: "u32 \<Rightarrow> string" where
  "utc_text epoch =
     (let e = unat epoch
      in ''UTC: '' @ two_digits (e mod 86400 div 3600) @ '':'' @ two_digits (e mod 3600 div 60) @ '':'' @
         two_digits (e mod 60) @ '' (GMT)'')"

text \<open>
  One turn of \<open>loop\<close> while connected: a request to \<open>address\<close>, and the line printed when something
  has arrived a second later.  A datagram that is too short is not read: the time is then that of the
  request's own zero bytes.
\<close>

definition wifiConnectedLoop ::
  "'w udp_stack \<Rightarrow> 'c cbuf \<Rightarrow> u32 \<Rightarrow> ('c, 'w) udp_state \<Rightarrow> (string option \<times> ('c, 'w) udp_state) outcome" where
  "wifiConnectedLoop S C address st =
     (case write_many S ntp_request (snd (beginPacket_to S address 123 st)) of
        Return st1 \<Rightarrow>
          (case parsePacket S C (snd (endPacket S st1)) of
             (packetLength, u2, w2) \<Rightarrow>
               if packetLength = 0 then Return (None, u2, w2)
               else
                 let (got, u3) = (if NTP_PACKET_SIZE \<le> packetLength then udp_read C NTP_PACKET_SIZE u2 else ([], u2))
                 in Return (Some (utc_text (ntp_epoch (ntp_seconds (overwrite ntp_request 0 got)))), udp_flush u3, w2))
      | Restart \<Rightarrow> Restart
      | Null_pointer \<Rightarrow> Null_pointer)"

record ('f, 'c, 'w) ip6_sketch =
  i6_wifi :: "'f wifi"
  i6_udp :: "('c, 'w) udp_state"
  wifi_connected :: bool

definition ip6_event ::
  "esp \<Rightarrow> 'w udp_stack \<Rightarrow> event_id \<Rightarrow> ('f, 'c, 'w) ip6_sketch \<Rightarrow> ('f, 'c, 'w) ip6_sketch" where
  "ip6_event E S ev s =
     (case ev of
        STA_GOT_IP \<Rightarrow> s\<lparr>i6_udp := snd (udp_begin S 0 2390 (i6_udp s)), wifi_connected := True\<rparr>
      | STA_DISCONNECTED \<Rightarrow>
          s\<lparr>wifi_connected := False,
            i6_wifi := snd (sta_begin E ''**********'' (Some ''**********'') 0 None True (i6_wifi s))\<rparr>
      | _ \<Rightarrow> s)"

definition ip6_loop ::
  "'w udp_stack \<Rightarrow> 'c cbuf \<Rightarrow> u32 \<Rightarrow> ('f, 'c, 'w) ip6_sketch \<Rightarrow> (string option \<times> ('f, 'c, 'w) ip6_sketch) outcome" where
  "ip6_loop S C address s =
     (if wifi_connected s
      then (case wifiConnectedLoop S C address (i6_udp s) of
              Return (t, st) \<Rightarrow> Return (t, s\<lparr>i6_udp := st\<rparr>) | Restart \<Rightarrow> Restart | Null_pointer \<Rightarrow> Null_pointer)
      else Return (None, s))"

text \<open>
  The seconds are counted from 1900 and wrap in 2036; their difference from 1970 at 32 bits is right
  beyond that, up to 2106.
\<close>

lemma epoch_right: "t < 4294967296 \<Longrightarrow> unat (ntp_epoch (word_of_nat (t + 2208988800))) = t"
proof -
  assume t: "t < 4294967296"
  have "ntp_epoch (word_of_nat (t + 2208988800)) = (word_of_nat t :: u32)" by (simp add: ntp_epoch_def)
  then show ?thesis using t by (simp add: unat_of_nat)
qed

text \<open>An answer that is too short is shown as the time at which the counter was zero.\<close>

lemma zero_seconds: "ntp_seconds ntp_request = 0"
  by (simp add: ntp_seconds_def ntp_request_def eval_nat_numeral)

lemma short_answer:
  assumes "write_many S ntp_request (snd (beginPacket_to S a 123 st)) = Return st1"
    and "parsePacket S C (snd (endPacket S st1)) = (n, u2, w2)" "0 < n" "n < NTP_PACKET_SIZE"
  shows "wifiConnectedLoop S C a st = Return (Some ''UTC: 06:28:16 (GMT)'', udp_flush u2, w2)"
proof -
  have "overwrite ntp_request 0 [] = ntp_request" by (simp add: overwrite_def)
  moreover have "utc_text (ntp_epoch 0) = ''UTC: 06:28:16 (GMT)''"
  proof -
    have "ntp_epoch 0 = 2085978496" by (simp add: ntp_epoch_def)
    then show ?thesis by (simp add: utc_text_def two_digits_def dec.simps digit_def Let_def char_of_def bit_0)
  qed
  ultimately show ?thesis using assms by (simp add: wifiConnectedLoop_def zero_seconds)
qed

section \<open>Seconds by UDP (\<open>WiFiUDPClient\<close>)\<close>

definition udp_client_event :: "'w udp_stack \<Rightarrow> u32 \<Rightarrow> event_id \<Rightarrow> bool \<times> ('c, 'w) udp_state \<Rightarrow> bool \<times> ('c, 'w) udp_state" where
  "udp_client_event S localIP ev = (\<lambda>(connected, st).
     case ev of
       STA_GOT_IP \<Rightarrow> (True, snd (udp_begin S localIP 3333 st))
     | STA_DISCONNECTED \<Rightarrow> (False, st)
     | _ \<Rightarrow> (connected, st))"

definition seconds_text :: "u32 \<Rightarrow> string" where
  "seconds_text ms = ''Seconds since boot: '' @ dec (unat ms div 1000)"

definition udp_client_loop :: "'w udp_stack \<Rightarrow> u32 \<Rightarrow> bool \<times> ('c, 'w) udp_state \<Rightarrow> (bool \<times> ('c, 'w) udp_state) outcome" where
  "udp_client_loop S ms = (\<lambda>(connected, st).
     if connected
     then (case write_many S (seconds_text ms) (snd (beginPacket_host S ''192.168.0.255'' 3333 st)) of
             Return st1 \<Rightarrow> Return (connected, snd (endPacket S st1)) | Restart \<Rightarrow> Restart | Null_pointer \<Rightarrow> Null_pointer)
     else Return (connected, st))"

definition udp_client_setup :: "esp \<Rightarrow> 'f \<Rightarrow> string \<Rightarrow> string \<Rightarrow> 'f wifi \<Rightarrow> 'f wifi" where
  "udp_client_setup E cb ssid pwd w =
     snd (sta_begin E ssid (Some pwd) 0 None True (onEvent cb EVENT_MAX (snd (sta_disconnect E True False w))))"

section \<open>A network by WPS (\<open>WPS\<close>)\<close>

datatype wps_call = Wps_enable | Wps_disable | Wps_start

definition wpspin2string :: "bytes \<Rightarrow> string" where
  "wpspin2string a = cstr (take 8 a)"

definition wps_event :: "esp \<Rightarrow> event_id \<Rightarrow> 'f wifi \<times> wps_call list \<Rightarrow> 'f wifi \<times> wps_call list" where
  "wps_event E ev = (\<lambda>(w, calls).
     case ev of
       STA_DISCONNECTED \<Rightarrow> (snd (sta_reconnect E w), calls)
     | STA_WPS_ER_SUCCESS \<Rightarrow> (snd (sta_begin_again E w), calls @ [Wps_disable])
     | STA_WPS_ER_FAILED \<Rightarrow> (w, calls @ [Wps_disable, Wps_enable, Wps_start])
     | STA_WPS_ER_TIMEOUT \<Rightarrow> (w, calls @ [Wps_disable, Wps_enable, Wps_start])
     | _ \<Rightarrow> (w, calls))"

definition wps_setup :: "esp \<Rightarrow> 'f \<Rightarrow> 'f wifi \<Rightarrow> 'f wifi \<times> wps_call list" where
  "wps_setup E cb w = (snd (wifi_mode E WIFI_MODE_STA (onEvent cb EVENT_MAX w)), [Wps_enable, Wps_start])"

section \<open>Ethernet (\<open>ETH_LAN8720_internal_clock\<close>)\<close>

definition ETH_CLOCK_GPIO17_OUT :: nat where "ETH_CLOCK_GPIO17_OUT = 3"

definition eth_sketch_event :: "event_id \<Rightarrow> eth \<times> bool \<Rightarrow> eth \<times> bool" where
  "eth_sketch_event ev = (\<lambda>(e, connected).
     case ev of
       ETH_START \<Rightarrow> (snd (eth_setHostname True ''esp32-ethernet'' e), connected)
     | ETH_GOT_IP \<Rightarrow> (e, True)
     | ETH_DISCONNECTED \<Rightarrow> (e, False)
     | ETH_STOP \<Rightarrow> (e, False)
     | _ \<Rightarrow> (e, connected))"

definition eth_sketch_setup :: "eth_idf \<Rightarrow> eth \<Rightarrow> eth" where
  "eth_sketch_setup I e = snd (eth_begin I 0 (-1) 15 2 ETH_PHY_LAN8720 ETH_CLOCK_GPIO17_OUT e)"

text \<open>The other two Ethernet sketches handle the events in the same way and start other hardware.\<close>

definition ETH_CLOCK_GPIO0_IN :: nat where "ETH_CLOCK_GPIO0_IN = 0"

definition lan8720_event :: "event_id \<Rightarrow> eth \<times> bool \<Rightarrow> eth \<times> bool" where
  "lan8720_event = eth_sketch_event"

definition lan8720_setup :: "eth_idf \<Rightarrow> eth \<Rightarrow> eth" where
  "lan8720_setup I e = snd (eth_begin I 0 (-1) 23 18 ETH_PHY_LAN8720 ETH_CLOCK_GPIO0_IN e)"

definition tlk110_event :: "event_id \<Rightarrow> eth \<times> bool \<Rightarrow> eth \<times> bool" where
  "tlk110_event = eth_sketch_event"

definition tlk110_setup :: "eth_idf \<Rightarrow> eth \<Rightarrow> eth" where
  "tlk110_setup I e = snd (eth_begin I 31 17 23 18 ETH_PHY_TLK110 ETH_CLOCK_GPIO0_IN e)"

text \<open>The flag is right: it holds exactly between an address and the next loss.\<close>

fun has_address :: "bool \<Rightarrow> event_id list \<Rightarrow> bool" where
  "has_address b [] = b"
| "has_address b (e # es) =
     has_address (if e = ETH_GOT_IP then True else if e = ETH_DISCONNECTED \<or> e = ETH_STOP then False else b) es"

lemma eth_flag: "snd (fold eth_sketch_event es (e, b)) = has_address b es"
proof (induction es arbitrary: e b)
  case (Cons x es)
  obtain e1 b1 where "eth_sketch_event x (e, b) = (e1, b1)" by fastforce
  then show ?case using Cons [of e1 b1] by (cases x) (auto simp: eth_sketch_event_def)
qed simp

end
