(* ===== verification/Tcp_Sketches.thy ===== *)
theory Tcp_Sketches
  imports Wifi_Server Wifi_Ends Http_Over_Tcp
begin

text \<open>
  The example sketches of the WiFi library that talk over TCP: the LED switched by a web page, the
  bridge between Telnet and the serial port, and the clients that fetch a page
  (\<open>replace_lib/WiFi/examples\<close>).  They are written on the models of \<open>WiFiServer\<close> and \<open>WiFiClient\<close>.
\<close>

section \<open>A LED switched by a page (\<open>SimpleWiFiServer\<close>, \<open>WiFiAccessPoint\<close>)\<close>

record blink =
  currentLine :: string
  blink_led :: bool
  answered_blank :: bool

definition blink_byte :: "char \<Rightarrow> blink \<Rightarrow> blink" where
  "blink_byte c b =
     (if c = LF \<and> currentLine b = [] then b\<lparr>answered_blank := True\<rparr>
      else
        let line = (if c = LF then [] else if c \<noteq> CR then currentLine b @ [c] else currentLine b);
            led1 = (if ends_with line ''GET /H'' then True else blink_led b);
            led2 = (if ends_with line ''GET /L'' then False else led1)
        in b\<lparr>currentLine := line, blink_led := led2\<rparr>)"

text \<open>What is sent at the blank line; the two links differ between the sketches.\<close>

definition blink_page :: "string \<Rightarrow> string \<Rightarrow> string list" where
  "blink_page on_text off_text =
     [''HTTP/1.1 200 OK'', [CR, LF], ''Content-type:text/html'', [CR, LF], [CR, LF], on_text, off_text, [CR, LF]]"

definition blink_link :: "string \<Rightarrow> string \<Rightarrow> string" where
  "blink_link path rest = ''Click <a href='' @ [CHR 0x22] @ path @ [CHR 0x22] @ ''>here</a> to turn '' @ rest @ ''<br>''"

definition server_page :: "string list" where
  "server_page = blink_page (blink_link ''/H'' ''the LED on pin 5 on.'') (blink_link ''/L'' ''the LED on pin 5 off.'')"

definition access_point_page :: "string list" where
  "access_point_page = blink_page (blink_link ''/H'' ''ON the LED.'') (blink_link ''/L'' ''OFF the LED.'')"

definition send_texts :: "'w lwip \<Rightarrow> string list \<Rightarrow> client \<times> 'w sockets \<Rightarrow> client \<times> 'w sockets" where
  "send_texts L ts x = fold (\<lambda>t x. snd (client_write L t x)) ts x"

text \<open>One turn of the loop over a client: whether the loop ends, and the state behind it.\<close>

definition blink_read ::
  "'w lwip \<Rightarrow> string list \<Rightarrow> blink \<Rightarrow> client \<times> 'w sockets \<Rightarrow> (bool \<times> blink \<times> client \<times> 'w sockets) outcome option" where
  "blink_read L page b cs =
     (case is_connected L cs of (up, cs1) \<Rightarrow>
        if \<not> up then Some (Return (True, b, cs1))
        else case available L cs1 of (n, cs2) \<Rightarrow>
          if n = 0 then Some (Return (False, b, cs2))
          else map_option (\<lambda>o1. case o1 of
              Return (r, cs3) \<Rightarrow>
                (let b1 = blink_byte (char_of (nat (r mod 256))) b
                 in Return (answered_blank b1, b1, if answered_blank b1 then send_texts L page cs3 else cs3))
            | Restart \<Rightarrow> Restart | Null_pointer \<Rightarrow> Null_pointer)
            (read_one L cs2))"

text \<open>\<open>None\<close> is a client that stays connected and sends nothing more.\<close>

partial_function (option) blink_loop ::
  "'w lwip \<Rightarrow> string list \<Rightarrow> blink \<Rightarrow> client \<times> 'w sockets \<Rightarrow> (blink \<times> client \<times> 'w sockets) outcome option" where
  "blink_loop L page b cs =
     (case blink_read L page b cs of
        None \<Rightarrow> None
      | Some Restart \<Rightarrow> Some Restart
      | Some Null_pointer \<Rightarrow> Some Null_pointer
      | Some (Return (ends, b1, cs1)) \<Rightarrow> if ends then Some (Return (b1, cs1)) else blink_loop L page b1 cs1)"

definition blink_turn ::
  "'w lwip \<Rightarrow> string list \<Rightarrow> bool \<times> tcp_server \<times> 'w sockets \<Rightarrow> (bool \<times> tcp_server \<times> 'w sockets) outcome option" where
  "blink_turn L page = (\<lambda>(led, v, s).
     case server_available L (v, s) of (c, v1, s1) \<Rightarrow>
       (case is_connected L (c, s1) of
          (False, c1, s2) \<Rightarrow> Some (Return (led, v1, drop_pointers L (c1, s2)))
        | (True, c1, s2) \<Rightarrow>
            map_option (\<lambda>o1. case o1 of
                Return (b, c3) \<Rightarrow> Return (blink_led b, v1, snd (stop L c3))
              | Restart \<Rightarrow> Restart | Null_pointer \<Rightarrow> Null_pointer)
              (blink_loop L page \<lparr>currentLine = [], blink_led = led, answered_blank = False\<rparr> (c1, s2))))"

text \<open>\<open>loop\<close> of the two sketches.\<close>

definition server_sketch_loop ::
  "'w lwip \<Rightarrow> bool \<times> tcp_server \<times> 'w sockets \<Rightarrow> (bool \<times> tcp_server \<times> 'w sockets) outcome option" where
  "server_sketch_loop L = blink_turn L server_page"

definition access_point_loop ::
  "'w lwip \<Rightarrow> bool \<times> tcp_server \<times> 'w sockets \<Rightarrow> (bool \<times> tcp_server \<times> 'w sockets) outcome option" where
  "access_point_loop L = blink_turn L access_point_page"

text \<open>The LED after a line: each beginning of it is looked at.\<close>

definition switch_by :: "string \<Rightarrow> bool \<Rightarrow> bool" where
  "switch_by p led = (if ends_with p ''GET /L'' then False else if ends_with p ''GET /H'' then True else led)"

fun led_after :: "string \<Rightarrow> string \<Rightarrow> bool \<Rightarrow> bool" where
  "led_after p [] led = led"
| "led_after p (c # l) led = led_after (p @ [c]) l (switch_by (p @ [c]) led)"

lemma blink_line:
  "CR \<notin> set l \<Longrightarrow> LF \<notin> set l \<Longrightarrow>
     fold blink_byte l b = b\<lparr>currentLine := currentLine b @ l, blink_led := led_after (currentLine b) l (blink_led b)\<rparr>"
proof (induction l arbitrary: b)
  case (Cons c l)
  then have "blink_byte c b = b\<lparr>currentLine := currentLine b @ [c], blink_led := switch_by (currentLine b @ [c]) (blink_led b)\<rparr>"
    by (auto simp: blink_byte_def switch_by_def Let_def)
  then show ?case using Cons by simp
qed simp

text \<open>A line that is repeated by its end does not switch again to the other side.\<close>

lemma switch_twice [simp]: "switch_by p (switch_by p led) = switch_by p led"
  by (simp add: switch_by_def)

lemma led_after_last: "p @ l \<noteq> [] \<Longrightarrow> l \<noteq> [] \<Longrightarrow> switch_by (p @ l) (led_after p l led) = led_after p l led"
proof (induction p l led rule: led_after.induct)
  case (2 p c l led)
  then show ?case by (cases l) auto
qed simp

lemma blink_whole_line:
  assumes "CR \<notin> set l" "LF \<notin> set l" "l \<noteq> []" "currentLine b = []"
  shows "fold blink_byte (l @ [CR, LF]) b = b\<lparr>blink_led := led_after [] l (blink_led b)\<rparr>"
proof -
  have "switch_by l (led_after [] l (blink_led b)) = led_after [] l (blink_led b)"
    using led_after_last [of "[]" l] assms(3) by simp
  moreover have "\<not> ends_with [] ''GET /H''" "\<not> ends_with [] ''GET /L''" by (simp_all add: ends_with_def)
  ultimately show ?thesis using assms
    by (auto simp: blink_line blink_byte_def switch_by_def Let_def split: if_splits)
qed

text \<open>
  A request whose lines are not empty: the LED is as its lines say, one after the other, and the page
  is sent at the blank line, not before.
\<close>

lemma blink_request:
  assumes "\<forall>l \<in> set ls. CR \<notin> set l \<and> LF \<notin> set l \<and> l \<noteq> []" "currentLine b = []" "\<not> answered_blank b"
  shows "fold blink_byte (concat (map (\<lambda>l. l @ [CR, LF]) ls)) b = b\<lparr>blink_led := fold (led_after []) ls (blink_led b)\<rparr>"
    "answered_blank (fold blink_byte (concat (map (\<lambda>l. l @ [CR, LF]) ls) @ [CR, LF]) b)"
proof -
  show 1: "fold blink_byte (concat (map (\<lambda>l. l @ [CR, LF]) ls)) b = b\<lparr>blink_led := fold (led_after []) ls (blink_led b)\<rparr>"
    using assms
  proof (induction ls arbitrary: b)
    case (Cons l ls)
    have "fold blink_byte (l @ [CR, LF]) b = b\<lparr>blink_led := led_after [] l (blink_led b)\<rparr>"
      using Cons.prems by (intro blink_whole_line) auto
    then show ?case using Cons by simp
  qed simp
  have "\<not> ends_with [] ''GET /H''" "\<not> ends_with [] ''GET /L''" by (simp_all add: ends_with_def)
  then show "answered_blank (fold blink_byte (concat (map (\<lambda>l. l @ [CR, LF]) ls) @ [CR, LF]) b)"
    using 1 assms(2) by (simp add: blink_byte_def Let_def)
qed

lemma blink_on: "fold (led_after []) [''GET /H HTTP/1.1'', ''Host: 192.168.4.1''] led"
  by (simp add: switch_by_def ends_with_def)

lemma blink_off: "\<not> fold (led_after []) [''GET /L HTTP/1.1'', ''Host: 192.168.4.1''] led"
  by (simp add: switch_by_def ends_with_def)

section \<open>Telnet to the serial port (\<open>WiFiTelnetToSerial\<close>)\<close>

record 'w telnet =
  tn_server :: tcp_server
  tn_clients :: "client list"
  tn_sockets :: "'w sockets"
  uart_in :: bytes
  uart_out :: bytes

definition MAX_SRV_CLIENTS :: nat where "MAX_SRV_CLIENTS = 1"

text \<open>\<open>client && client.connected()\<close>\<close>

definition both_connected :: "'w lwip \<Rightarrow> client \<times> 'w sockets \<Rightarrow> bool \<times> client \<times> 'w sockets" where
  "both_connected L x = (case is_connected L x of (False, y) \<Rightarrow> (False, y) | (True, y) \<Rightarrow> is_connected L y)"

definition stop_if_open :: "'w lwip \<Rightarrow> client \<times> 'w sockets \<Rightarrow> client \<times> 'w sockets" where
  "stop_if_open L x = (case is_connected L x of (True, y) \<Rightarrow> stop L y | (False, y) \<Rightarrow> y)"

text \<open>The first place that is free, from \<open>i\<close>, after the clients were asked.\<close>

fun free_place :: "'w lwip \<Rightarrow> nat list \<Rightarrow> 'w clients \<Rightarrow> nat option \<times> 'w clients" where
  "free_place L [] st = (None, st)"
| "free_place L (i # is) st =
     (case both_connected L (fst st ! i, snd st) of (up, c, s) \<Rightarrow>
        let st1 = ((fst st)[i := c], s) in if \<not> up then (Some i, st1) else free_place L is st1)"

text \<open>
  \<open>serverClients[i] = server.available()\<close>: the temporary client is shared and then destroyed; the new
  client is asked once more for the message.
\<close>

definition take_place :: "'w lwip \<Rightarrow> nat \<Rightarrow> tcp_server \<times> 'w clients \<Rightarrow> tcp_server \<times> 'w clients" where
  "take_place L i = (\<lambda>(v, st).
     case at_client i (stop_if_open L) st of (cs, s) \<Rightarrow>
       (case server_available L (v, s) of (c, v1, s1) \<Rightarrow>
          (case assign L i (length cs) (cs @ [c], s1) of (cs2, s2) \<Rightarrow>
             (v1, at_client i (\<lambda>x. snd (is_connected L x)) (take (length cs) cs2, drop_pointers L (c, s2))))))"

partial_function (option) telnet_pump ::
  "'w lwip \<Rightarrow> bytes \<Rightarrow> client \<times> 'w sockets \<Rightarrow> (bytes \<times> client \<times> 'w sockets) outcome option" where
  "telnet_pump L got cs =
     (case available L cs of (n, cs1) \<Rightarrow>
        if n = 0 then Some (Return (got, cs1))
        else (case read_one L cs1 of
            None \<Rightarrow> None
          | Some Restart \<Rightarrow> Some Restart
          | Some Null_pointer \<Rightarrow> Some Null_pointer
          | Some (Return (r, cs2)) \<Rightarrow> telnet_pump L (got @ [char_of (nat (r mod 256))]) cs2))"

text \<open>One client's bytes to the serial port.\<close>

definition telnet_receive :: "'w lwip \<Rightarrow> nat \<Rightarrow> 'w telnet \<Rightarrow> 'w telnet outcome option" where
  "telnet_receive L i t =
     (case both_connected L (tn_clients t ! i, tn_sockets t) of
        (True, c, s) \<Rightarrow>
          map_option (\<lambda>o1. case o1 of
              Return (got, c1, s1) \<Rightarrow>
                Return (t\<lparr>tn_clients := (tn_clients t)[i := c1], tn_sockets := s1, uart_out := uart_out t @ got\<rparr>)
            | Restart \<Rightarrow> Restart | Null_pointer \<Rightarrow> Null_pointer)
            (case available L (c, s) of (n, cs1) \<Rightarrow> if n = 0 then Some (Return ([], cs1)) else telnet_pump L [] cs1)
      | (False, c, s) \<Rightarrow>
          (case stop_if_open L (c, s) of (c1, s1) \<Rightarrow>
             Some (Return (t\<lparr>tn_clients := (tn_clients t)[i := c1], tn_sockets := s1\<rparr>))))"

definition telnet_send :: "'w lwip \<Rightarrow> bytes \<Rightarrow> nat \<Rightarrow> 'w clients \<Rightarrow> 'w clients" where
  "telnet_send L sbuf i st =
     at_client i (\<lambda>x. case both_connected L x of (True, y) \<Rightarrow> snd (client_write L sbuf y) | (False, y) \<Rightarrow> y) st"

definition telnet_accept :: "'w lwip \<Rightarrow> 'w telnet \<Rightarrow> 'w telnet" where
  "telnet_accept L t =
     (case hasClient L (tn_server t, tn_sockets t) of
        (False, v, s) \<Rightarrow> t\<lparr>tn_server := v, tn_sockets := s\<rparr>
      | (True, v, s) \<Rightarrow>
          (case free_place L [0..<MAX_SRV_CLIENTS] (tn_clients t, s) of
             (Some i, st) \<Rightarrow>
               (case take_place L i (v, st) of (v1, cs, s1) \<Rightarrow> t\<lparr>tn_server := v1, tn_clients := cs, tn_sockets := s1\<rparr>)
           | (None, cs, s1) \<Rightarrow>
               (case server_available L (v, s1) of (c, v1, s2) \<Rightarrow>
                  t\<lparr>tn_server := v1, tn_clients := cs, tn_sockets := snd (stop L (c, s2))\<rparr>)))"

fun telnet_receive_all :: "'w lwip \<Rightarrow> nat list \<Rightarrow> 'w telnet \<Rightarrow> 'w telnet outcome option" where
  "telnet_receive_all L [] t = Some (Return t)"
| "telnet_receive_all L (i # is) t =
     (case telnet_receive L i t of
        Some (Return t1) \<Rightarrow> telnet_receive_all L is t1
      | Some Restart \<Rightarrow> Some Restart
      | Some Null_pointer \<Rightarrow> Some Null_pointer
      | None \<Rightarrow> None)"

text \<open>One turn of \<open>loop\<close>; \<open>up\<close> is what \<open>wifiMulti.run\<close> answers.\<close>

definition telnet_loop :: "'w lwip \<Rightarrow> bool \<Rightarrow> 'w telnet \<Rightarrow> 'w telnet outcome option" where
  "telnet_loop L up t =
     (if \<not> up then
        (case fold (\<lambda>i. at_client i (stop_if_open L)) [0..<MAX_SRV_CLIENTS] (tn_clients t, tn_sockets t) of
           (cs, s) \<Rightarrow> Some (Return (t\<lparr>tn_clients := cs, tn_sockets := s\<rparr>)))
      else
        map_option (\<lambda>o1. case o1 of
            Return t1 \<Rightarrow>
              (if uart_in t1 = [] then Return t1
               else case fold (telnet_send L (uart_in t1)) [0..<MAX_SRV_CLIENTS] (tn_clients t1, tn_sockets t1) of
                   (cs, s) \<Rightarrow> Return (t1\<lparr>tn_clients := cs, tn_sockets := s, uart_in := []\<rparr>))
          | Restart \<Rightarrow> Restart | Null_pointer \<Rightarrow> Null_pointer)
          (telnet_receive_all L [0..<MAX_SRV_CLIENTS] (telnet_accept L t)))"

text \<open>\<open>setup\<close>: ten attempts, and one more look; \<open>status k\<close> is what the k-th call of \<open>run\<close> answers.\<close>

fun after_attempts :: "(nat \<Rightarrow> bool) \<Rightarrow> nat \<Rightarrow> nat \<Rightarrow> nat" where
  "after_attempts status k 0 = k"
| "after_attempts status k (Suc loops) = (if status k then k + 1 else after_attempts status (k + 1) loops)"

definition telnet_setup :: "(nat \<Rightarrow> bool) \<Rightarrow> unit outcome" where
  "telnet_setup status = (if \<not> status (after_attempts status 0 10) then Restart else Return ())"

lemma after_attempts_bound: "after_attempts status k n \<le> k + n"
  by (induction status k n rule: after_attempts.induct) auto

text \<open>A sketch that has connected can still be restarted: the last look decides alone.\<close>

lemma connected_and_restarted: "status 0 \<Longrightarrow> telnet_setup status = (if status 1 then Return () else Restart)"
  by (simp add: telnet_setup_def eval_nat_numeral)

lemma never_connected: "(\<forall>k \<le> 10. \<not> status k) \<Longrightarrow> telnet_setup status = Restart"
  using after_attempts_bound [of status 0 10] by (simp add: telnet_setup_def)

section \<open>Fetching a page (\<open>WiFiClient\<close>, \<open>WiFiClientStaticIP\<close>, \<open>WiFiClientBasic\<close>)\<close>

definition page_request :: "string \<Rightarrow> string \<Rightarrow> string" where
  "page_request url host =
     ''GET '' @ url @ '' HTTP/1.1'' @ [CR, LF] @ ''Host: '' @ host @ [CR, LF] @ ''Connection: close'' @ [CR, LF, CR, LF]"

definition data_url :: "string \<Rightarrow> string \<Rightarrow> int \<Rightarrow> string" where
  "data_url streamId privateKey v = ''/input/'' @ streamId @ ''?private_key='' @ privateKey @ ''&value='' @ dec_int v"

text \<open>Waiting for the first byte; the list holds what \<open>millis\<close> answers, \<open>None\<close> is a list that is too short.\<close>

fun wait_page :: "'w lwip \<Rightarrow> u32 \<Rightarrow> u32 list \<Rightarrow> client \<times> 'w sockets \<Rightarrow> (bool \<times> client \<times> 'w sockets) option" where
  "wait_page L timeout ts cs =
     (case available L cs of (n, cs1) \<Rightarrow>
        if n \<noteq> 0 then Some (True, cs1)
        else case ts of
            [] \<Rightarrow> None
          | t # ts1 \<Rightarrow> if 5000 < t - timeout then Some (False, stop L cs1) else wait_page L timeout ts1 cs1)"

declare wait_page.simps [simp del]

text \<open>Printing the answer up to what is there; \<open>ns\<close> gives the tries for each byte.\<close>

partial_function (option) print_answer ::
  "'w lwip \<Rightarrow> (nat \<Rightarrow> nat) \<Rightarrow> string \<Rightarrow> client \<times> 'w sockets \<Rightarrow> (string \<times> client \<times> 'w sockets) outcome option" where
  "print_answer L ns shown cs =
     (case available L cs of (n, cs1) \<Rightarrow>
        if n = 0 then Some (Return (shown, cs1))
        else (case read_string L ns CR [] cs1 of
            None \<Rightarrow> None
          | Some Restart \<Rightarrow> Some Restart
          | Some Null_pointer \<Rightarrow> Some Null_pointer
          | Some (Return (line, cs2)) \<Rightarrow> print_answer L ns (shown @ line) cs2))"

text \<open>
  A turn of \<open>loop\<close> once the connection is made; the value is what is printed of the answer, and
  nothing for a time-out.  The client is destroyed at the end.
\<close>

definition fetch_page ::
  "'w lwip \<Rightarrow> (nat \<Rightarrow> nat) \<Rightarrow> string \<Rightarrow> u32 \<Rightarrow> u32 list \<Rightarrow> client \<times> 'w sockets \<Rightarrow> (string \<times> 'w sockets) outcome option" where
  "fetch_page L ns request timeout ts cs =
     (case wait_page L timeout ts (snd (client_write L request cs)) of
        None \<Rightarrow> None
      | Some (False, cs1) \<Rightarrow> Some (Return ([], drop_pointers L cs1))
      | Some (True, cs1) \<Rightarrow>
          map_option (\<lambda>o1. case o1 of
              Return (shown, cs2) \<Rightarrow> Return (shown, drop_pointers L cs2) | Restart \<Rightarrow> Restart | Null_pointer \<Rightarrow> Null_pointer)
            (print_answer L ns [] cs1))"

definition client_sketch_loop ::
  "'w lwip \<Rightarrow> (nat \<Rightarrow> nat) \<Rightarrow> ('f wifi \<Rightarrow> 'f wifi) \<Rightarrow> dns_reply \<Rightarrow> string \<Rightarrow> string \<Rightarrow> u32 \<Rightarrow> u32 list \<Rightarrow>
   int \<Rightarrow> 'f wifi \<times> 'w sockets \<Rightarrow> (int \<times> string \<times> 'f wifi \<times> 'w sockets) outcome option" where
  "client_sketch_loop L ns idle ans streamId privateKey timeout ts v = (\<lambda>(w, s).
     case connect_host L idle ans 80 (-1) (w, no_client, s) of
       (False, w1, c, s1) \<Rightarrow> Some (Return (v + 1, [], w1, drop_pointers L (c, s1)))
     | (True, w1, c, s1) \<Rightarrow>
         map_option (\<lambda>o1. case o1 of
             Return (shown, s2) \<Rightarrow> Return (v + 1, shown, w1, s2) | Restart \<Rightarrow> Restart | Null_pointer \<Rightarrow> Null_pointer)
           (fetch_page L ns (page_request (data_url streamId privateKey (v + 1)) ''data.sparkfun.com'') timeout ts (c, s1)))"

definition static_ip_loop ::
  "'w lwip \<Rightarrow> (nat \<Rightarrow> nat) \<Rightarrow> ('f wifi \<Rightarrow> 'f wifi) \<Rightarrow> dns_reply \<Rightarrow> u32 \<Rightarrow> u32 list \<Rightarrow>
   'f wifi \<times> 'w sockets \<Rightarrow> (string \<times> 'f wifi \<times> 'w sockets) outcome option" where
  "static_ip_loop L ns idle ans timeout ts = (\<lambda>(w, s).
     case connect_host L idle ans 80 (-1) (w, no_client, s) of
       (False, w1, c, s1) \<Rightarrow> Some (Return ([], w1, drop_pointers L (c, s1)))
     | (True, w1, c, s1) \<Rightarrow>
         map_option (\<lambda>o1. case o1 of
             Return (shown, s2) \<Rightarrow> Return (shown, w1, s2) | Restart \<Rightarrow> Restart | Null_pointer \<Rightarrow> Null_pointer)
           (fetch_page L ns (page_request ''/index.html'' ''example.com'') timeout ts (c, s1)))"

definition static_ip_setup :: "esp \<Rightarrow> string \<Rightarrow> string \<Rightarrow> 'f wifi \<Rightarrow> 'f wifi" where
  "static_ip_setup E ssid password w =
     snd (sta_begin E ssid (Some password) 0 None True
       (snd (sta_set_config E (from_octets 192 168 31 115) (from_octets 192 168 31 1) (from_octets 255 255 0 0)
          (from_octets 8 8 8 8) (from_octets 8 8 4 4) w)))"

text \<open>A wait that sees five seconds go by ends.\<close>

lemma wait_page_ends: "(\<exists>t \<in> set ts. 5000 < t - timeout) \<Longrightarrow> wait_page L timeout ts cs \<noteq> None"
proof (induction ts arbitrary: cs)
  case (Cons t ts)
  obtain n c1 s1 where "available L cs = (n, c1, s1)" by (metis prod_cases3)
  then show ?case
    using Cons.IH [of "(c1, s1)"] Cons.prems by (simp add: wait_page.simps [of L timeout "t # ts" cs]) blast
qed simp

text \<open>The client that looks a thousand times and prints one line (\<open>WiFiClientBasic\<close>).\<close>

fun wait_polls :: "'w lwip \<Rightarrow> nat \<Rightarrow> client \<times> 'w sockets \<Rightarrow> client \<times> 'w sockets" where
  "wait_polls L 0 cs = snd (available L cs)"
| "wait_polls L (Suc left) cs = (case available L cs of (n, cs1) \<Rightarrow> if n = 0 then wait_polls L left cs1 else cs1)"

definition basic_client_loop ::
  "'w lwip \<Rightarrow> (nat \<Rightarrow> nat) \<Rightarrow> ('f wifi \<Rightarrow> 'f wifi) \<Rightarrow> dns_reply \<Rightarrow> 'f wifi \<times> 'w sockets \<Rightarrow>
   (string option \<times> 'f wifi \<times> 'w sockets) outcome option" where
  "basic_client_loop L ns idle ans = (\<lambda>(w, s).
     case connect_host L idle ans 1337 (-1) (w, no_client, s) of
       (False, w1, c, s1) \<Rightarrow> Some (Return (None, w1, drop_pointers L (c, s1)))
     | (True, w1, c, s1) \<Rightarrow>
         (case available L (wait_polls L 1000 (snd (client_write L (''GET /index.html HTTP/1.1'' @ [LF, LF]) (c, s1)))) of
            (n, cs2) \<Rightarrow>
              if n = 0 then Some (Return (None, w1, snd (stop L cs2)))
              else map_option (\<lambda>o1. case o1 of
                  Return (line, cs3) \<Rightarrow> Return (Some line, w1, snd (stop L cs3)) | Restart \<Rightarrow> Restart | Null_pointer \<Rightarrow> Null_pointer)
                (read_string L ns CR [] cs2)))"

section \<open>A request over the wire (\<open>testClient\<close> of the Ethernet sketches)\<close>

text \<open>\<open>while (client.connected() && !client.available())\<close>; \<open>None\<close> is a host that stays silent.\<close>

partial_function (option) wait_reply :: "'w lwip \<Rightarrow> client \<times> 'w sockets \<Rightarrow> (client \<times> 'w sockets) option" where
  "wait_reply L cs =
     (case is_connected L cs of (up, cs1) \<Rightarrow>
        if \<not> up then Some cs1
        else case available L cs1 of (n, cs2) \<Rightarrow> if n = 0 then wait_reply L cs2 else Some cs2)"

definition testClient ::
  "'w lwip \<Rightarrow> ('f wifi \<Rightarrow> 'f wifi) \<Rightarrow> dns_reply \<Rightarrow> string \<Rightarrow> u16 \<Rightarrow> 'f wifi \<times> 'w sockets \<Rightarrow>
   (bytes \<times> 'f wifi \<times> 'w sockets) outcome option" where
  "testClient L idle ans host port = (\<lambda>(w, s).
     case connect_host L idle ans port (-1) (w, no_client, s) of
       (False, w1, c, s1) \<Rightarrow> Some (Return ([], w1, drop_pointers L (c, s1)))
     | (True, w1, c, s1) \<Rightarrow>
         (case wait_reply L (snd (client_write L
              (''GET / HTTP/1.1'' @ [CR, LF] @ ''Host: '' @ host @ [CR, LF, CR, LF]) (c, s1))) of
            None \<Rightarrow> None
          | Some cs2 \<Rightarrow>
              map_option (\<lambda>o1. case o1 of
                  Return (shown, cs3) \<Rightarrow> Return (shown, w1, snd (stop L cs3)) | Restart \<Rightarrow> Restart | Null_pointer \<Rightarrow> Null_pointer)
                (telnet_pump L [] cs2)))"

definition eth_sketch_loop ::
  "'w lwip \<Rightarrow> ('f wifi \<Rightarrow> 'f wifi) \<Rightarrow> dns_reply \<Rightarrow> bool \<Rightarrow> 'f wifi \<times> 'w sockets \<Rightarrow>
   (bytes \<times> 'f wifi \<times> 'w sockets) outcome option" where
  "eth_sketch_loop L idle ans eth_connected = (\<lambda>(w, s).
     if eth_connected then testClient L idle ans ''google.com'' 80 (w, s) else Some (Return ([], w, s)))"

text \<open>The same turn and the same request in the other two Ethernet sketches.\<close>

definition lan8720_loop ::
  "'w lwip \<Rightarrow> ('f wifi \<Rightarrow> 'f wifi) \<Rightarrow> dns_reply \<Rightarrow> bool \<Rightarrow> 'f wifi \<times> 'w sockets \<Rightarrow>
   (bytes \<times> 'f wifi \<times> 'w sockets) outcome option" where
  "lan8720_loop = eth_sketch_loop"

definition tlk110_loop ::
  "'w lwip \<Rightarrow> ('f wifi \<Rightarrow> 'f wifi) \<Rightarrow> dns_reply \<Rightarrow> bool \<Rightarrow> 'f wifi \<times> 'w sockets \<Rightarrow>
   (bytes \<times> 'f wifi \<times> 'w sockets) outcome option" where
  "tlk110_loop = eth_sketch_loop"

end
