(* ===== verification/Tls_Sketches.thy ===== *)
theory Tls_Sketches
  imports Device Arduino_Numbers
begin

text \<open>
  The two sketches of a relay that is told its state by a web server over TLS
  (\<open>openssl-1.0.2q-x64_86-win64/ESP32_sketch_https_psk.ino\<close> and \<open>_eduroam.ino\<close>), and the sketch of
  the WiFi library for the same kind of network (\<open>WiFiClientEnterprise\<close>), which shares their loops.
  The TLS client is not part of the source: it is a record of its calls on a world \<open>'w\<close>.
\<close>

section \<open>Waiting for the network\<close>

text \<open>
  What \<open>WiFi.status\<close> (or \<open>waitForConnectResult\<close>) finds in turn, and the counter \<open>pocitadlo\<close>: at 60 the
  board is restarted, which is the second component.  \<open>None\<close> is a list that ends before either.
\<close>

fun wait_or_restart :: "nat \<Rightarrow> bool list \<Rightarrow> (nat \<times> bool) option" where
  "wait_or_restart count [] = None"
| "wait_or_restart count (up # later) =
     (if up then Some (count, False)
      else if 60 \<le> count + 1 then Some (count + 1, True) else wait_or_restart (count + 1) later)"

lemma wait_decided: "60 - count \<le> length sts \<Longrightarrow> 0 < length sts \<Longrightarrow> wait_or_restart count sts \<noteq> None"
proof (induction count sts rule: wait_or_restart.induct)
  case (2 count up later)
  then show ?case by (cases later) auto
qed simp

lemma wait_returns:
  "wait_or_restart count sts = Some (n, False) \<Longrightarrow>
     \<exists>k < length sts. sts ! k \<and> (\<forall>j < k. \<not> sts ! j) \<and> n = count + k \<and> (k = 0 \<or> n < 60)"
proof (induction count sts rule: wait_or_restart.induct)
  case (2 count up later)
  show ?case
  proof (cases up)
    case True
    then show ?thesis using 2(2) by (intro exI [of _ 0]) simp
  next
    case False
    then obtain k where k: "k < length later" "later ! k" "\<forall>j < k. \<not> later ! j" "n = count + 1 + k" "k = 0 \<or> n < 60"
      using 2 by (auto split: if_splits)
    moreover have "count + 1 < 60" using 2(2) False by (simp split: if_splits)
    ultimately show ?thesis using False by (intro exI [of _ "k + 1"]) (auto simp: nth_Cons')
  qed
qed simp

lemma wait_restarts:
  "(\<forall>k < 60 - count. k < length sts \<and> \<not> sts ! k) \<Longrightarrow> count < 60 \<Longrightarrow> wait_or_restart count sts = Some (60, True)"
proof (induction count sts rule: wait_or_restart.induct)
  case (1 count)
  then show ?case by fastforce
next
  case (2 count up later)
  have "\<not> up" using 2(2) [rule_format, of 0] 2(3) by simp
  moreover have "\<forall>k < 60 - (count + 1). k < length later \<and> \<not> later ! k"
  proof (intro allI impI)
    fix k assume "k < 60 - (count + 1)"
    then show "k < length later \<and> \<not> later ! k" using 2(2) [rule_format, of "k + 1"] by simp
  qed
  ultimately show ?case using 2 by auto
qed

section \<open>Requests over TLS\<close>

record 'w secure =
  sc_connect :: "string \<Rightarrow> nat \<Rightarrow> 'w \<Rightarrow> bool \<times> 'w"
  sc_print :: "string \<Rightarrow> 'w \<Rightarrow> 'w"
  sc_connected :: "'w \<Rightarrow> bool \<times> 'w"
  sc_line :: "'w \<Rightarrow> string \<times> 'w"
    \<comment> \<open>\<open>readStringUntil\<close> a line feed\<close>
  sc_stop :: "'w \<Rightarrow> 'w"

definition tls_host :: string where "tls_host = ''www.example.com''"

definition agent_request :: "string \<Rightarrow> string \<Rightarrow> string \<Rightarrow> string" where
  "agent_request host agent url =
     ''GET '' @ url @ '' HTTP/1.1'' @ [CR, LF] @ ''Host: '' @ host @ [CR, LF] @ ''User-Agent: '' @ agent @ [CR, LF] @
     ''Connection: close'' @ [CR, LF, CR, LF]"

definition tls_request :: "string \<Rightarrow> string" where
  "tls_request url = agent_request tls_host ''NodeMCU'' url"

text \<open>The head of the answer; \<open>None\<close> is a host that never ends it.\<close>

partial_function (option) skip_head :: "'w secure \<Rightarrow> 'w \<Rightarrow> 'w option" where
  "skip_head C w =
     (case sc_connected C w of (up, w1) \<Rightarrow>
        if \<not> up then Some w1
        else case sc_line C w1 of (hlavicka, w2) \<Rightarrow> if hlavicka = [CR] then Some w2 else skip_head C w2)"

record 'w tls =
  tl_net :: 'w
  rele :: bool
  led_pin :: bool
  pocitadlo :: nat
  tl_rssi :: int

text \<open>The line behind the head of a file of the host, or nothing if there is no connection.\<close>

definition fetch_from :: "'w secure \<Rightarrow> string \<Rightarrow> nat \<Rightarrow> string \<Rightarrow> 'w \<Rightarrow> (string option \<times> 'w) option" where
  "fetch_from C host port request w =
     (case sc_connect C host port w of
        (False, w1) \<Rightarrow> Some (None, w1)
      | (True, w1) \<Rightarrow> map_option (\<lambda>w2. case sc_line C w2 of (premenna, w3) \<Rightarrow> (Some premenna, w3))
          (skip_head C (sc_print C request w1)))"

definition fetch_line :: "'w secure \<Rightarrow> string \<Rightarrow> 'w \<Rightarrow> (string option \<times> 'w) option" where
  "fetch_line C url w = fetch_from C tls_host 443 (tls_request url) w"

definition stav_rele :: "'w secure \<Rightarrow> 'w tls \<Rightarrow> 'w tls option" where
  "stav_rele C s =
     map_option (\<lambda>(premenna, w).
       s\<lparr>tl_net := sc_stop C w,
         rele := (if premenna = Some ''ZAP'' then False else if premenna = Some ''VYP'' then True else rele s)\<rparr>)
       (fetch_line C ''/values/stav.txt'' (tl_net s))"

text \<open>\<open>restart\<close>: the flag of the result is \<open>ESP.restart()\<close>, behind the confirmation that was printed.\<close>

definition tls_restart :: "'w secure \<Rightarrow> 'w tls \<Rightarrow> ('w tls \<times> bool) option" where
  "tls_restart C s =
     map_option (\<lambda>(premenna, w).
       if premenna = Some ''RST'' then
         (case sc_connect C tls_host 443 (sc_stop C w) of
            (True, w1) \<Rightarrow> (s\<lparr>tl_net := sc_print C (tls_request ''/esp32/potvrdreset.php'') w1\<rparr>, True)
          | (False, w1) \<Rightarrow> (s\<lparr>tl_net := sc_stop C w1\<rparr>, False))
       else (s\<lparr>tl_net := sc_stop C w\<rparr>, False))
       (fetch_line C ''/values/reset.txt'' (tl_net s))"

text \<open>The measured values, as \<open>String\<close> prints them.\<close>

record measured =
  ms_teplota :: string
  ms_hall :: string
  ms_temp2 :: string
  ms_hum :: string
  ms_uptime :: u32

definition report_url :: "measured \<Rightarrow> int \<Rightarrow> string \<Rightarrow> string" where
  "report_url m rssi ssid =
     ''/esp32/zapisdata.php?teplota='' @ ms_teplota m @ ''&hall='' @ ms_hall m @ ''&temp2='' @ ms_temp2 m @
     ''&hum='' @ ms_hum m @ ''&uptime='' @ dec (unat (ms_uptime m)) @ ''&signal='' @ dec_int rssi @ ''&ssid='' @ ssid"

definition odoslanie :: "'w secure \<Rightarrow> measured \<Rightarrow> string \<Rightarrow> 'w tls \<Rightarrow> 'w tls" where
  "odoslanie C m ssid s =
     (case sc_connect C tls_host 443 (tl_net s) of
        (True, w) \<Rightarrow> s\<lparr>tl_net := sc_stop C (sc_print C (tls_request (report_url m (tl_rssi s) ssid)) w)\<rparr>
      | (False, w) \<Rightarrow> s\<lparr>tl_net := sc_stop C w\<rparr>)"

section \<open>The loops of the sketches\<close>

text \<open>
  \<open>up1\<close> and \<open>up2\<close> are what the first and the second look at the network find, \<open>sts\<close> what the waiting
  finds, \<open>rssi\<close> the strength of the signal.  One sketch puts the LED out where the second look finds no
  network, the other while it waits; the flag of the result is the restart.
\<close>

definition psk_network :: "bool \<Rightarrow> bool \<Rightarrow> bool list \<Rightarrow> int \<Rightarrow> 'w tls \<Rightarrow> ('w tls \<times> bool) option" where
  "psk_network up1 up2 sts rssi s =
     (let s1 = (if up1 then s\<lparr>pocitadlo := 0, tl_rssi := rssi\<rparr> else if \<not> up2 then s\<lparr>led_pin := False\<rparr> else s)
      in map_option (\<lambda>(n, restarted).
             if restarted then (s1\<lparr>pocitadlo := n\<rparr>, True) else (s1\<lparr>pocitadlo := n, led_pin := True\<rparr>, False))
           (wait_or_restart (pocitadlo s1) sts))"

definition eduroam_network :: "bool \<Rightarrow> bool list \<Rightarrow> int \<Rightarrow> 'w tls \<Rightarrow> ('w tls \<times> bool) option" where
  "eduroam_network up1 sts rssi s =
     (let s1 = (if up1 then s\<lparr>pocitadlo := 0, tl_rssi := rssi\<rparr> else s)
      in map_option (\<lambda>(n, restarted). (s1\<lparr>pocitadlo := n, led_pin := \<not> restarted\<rparr>, restarted))
           (wait_or_restart (pocitadlo s1) sts))"

definition tls_turn :: "'w secure \<Rightarrow> measured \<Rightarrow> string \<Rightarrow> ('w tls \<times> bool) option \<Rightarrow> ('w tls \<times> bool) option" where
  "tls_turn C m ssid waited =
     (case waited of
        None \<Rightarrow> None
      | Some (s1, restarted) \<Rightarrow>
          if restarted then Some (s1, True)
          else (case stav_rele C (odoslanie C m ssid s1) of None \<Rightarrow> None | Some s2 \<Rightarrow> tls_restart C s2))"

definition psk_loop ::
  "'w secure \<Rightarrow> measured \<Rightarrow> string \<Rightarrow> bool \<Rightarrow> bool \<Rightarrow> bool list \<Rightarrow> int \<Rightarrow> 'w tls \<Rightarrow> ('w tls \<times> bool) option" where
  "psk_loop C m ssid up1 up2 sts rssi s = tls_turn C m ssid (psk_network up1 up2 sts rssi s)"

text \<open>The three functions of the sketch for eduroam are those of the other one.\<close>

definition eduroam_restart :: "'w secure \<Rightarrow> 'w tls \<Rightarrow> ('w tls \<times> bool) option" where
  "eduroam_restart = tls_restart"

definition eduroam_stav_rele :: "'w secure \<Rightarrow> 'w tls \<Rightarrow> 'w tls option" where
  "eduroam_stav_rele = stav_rele"

definition eduroam_odoslanie :: "'w secure \<Rightarrow> measured \<Rightarrow> string \<Rightarrow> 'w tls \<Rightarrow> 'w tls" where
  "eduroam_odoslanie = odoslanie"

definition eduroam_loop ::
  "'w secure \<Rightarrow> measured \<Rightarrow> bool \<Rightarrow> bool list \<Rightarrow> int \<Rightarrow> 'w tls \<Rightarrow> ('w tls \<times> bool) option" where
  "eduroam_loop C m up1 sts rssi s =
     (case eduroam_network up1 sts rssi s of
        None \<Rightarrow> None
      | Some (s1, restarted) \<Rightarrow>
          if restarted then Some (s1, True)
          else (case eduroam_stav_rele C (eduroam_odoslanie C m ''eduroam'' s1) of
                  None \<Rightarrow> None | Some s2 \<Rightarrow> eduroam_restart C s2))"

lemma same_turn: "eduroam_loop C m up1 sts rssi s = tls_turn C m ''eduroam'' (eduroam_network up1 sts rssi s)"
  by (simp add: eduroam_loop_def tls_turn_def eduroam_restart_def eduroam_stav_rele_def eduroam_odoslanie_def
      split: option.split prod.split)

text \<open>\<open>setup\<close>: the relay is written in the one for 802.1X only; \<open>before\<close> is the level of its pin.\<close>

definition psk_setup :: "bool list \<Rightarrow> bool \<Rightarrow> 'w \<Rightarrow> ('w tls \<times> bool) option" where
  "psk_setup sts before w =
     map_option (\<lambda>(n, restarted).
         (\<lparr>tl_net = w, rele = before, led_pin = \<not> restarted, pocitadlo = n, tl_rssi = 0\<rparr>, restarted))
       (wait_or_restart 0 sts)"

definition eduroam_setup :: "bool list \<Rightarrow> 'w \<Rightarrow> ('w tls \<times> bool) option" where
  "eduroam_setup sts w =
     map_option (\<lambda>(n, restarted).
         (\<lparr>tl_net = w, rele = True, led_pin = \<not> restarted, pocitadlo = n, tl_rssi = 0\<rparr>, restarted))
       (wait_or_restart 0 sts)"

text \<open>
  The sketch of the WiFi library: its \<open>setup\<close> waits in the same way, and \<open>loop\<close> prints one line of a
  host; the result holds the counter, that line if there was a connection, and the restart.
\<close>

definition enterprise_setup :: "bool list \<Rightarrow> (nat \<times> bool) option" where
  "enterprise_setup sts = wait_or_restart 0 sts"

definition enterprise_loop ::
  "'w secure \<Rightarrow> bool \<Rightarrow> bool list \<Rightarrow> nat \<Rightarrow> 'w \<Rightarrow> (nat \<times> string option \<times> bool \<times> 'w) option" where
  "enterprise_loop C up1 sts counter w =
     (case wait_or_restart (if up1 then 0 else counter) sts of
        None \<Rightarrow> None
      | Some (n, restarted) \<Rightarrow>
          if restarted then Some (n, None, True, w)
          else map_option (\<lambda>(line, w1). (n, line, False, w1))
            (fetch_from C ''arduino.php5.sk'' 80 (agent_request ''arduino.php5.sk'' ''ESP32'' ''/rele/rele1.txt'') w))"

section \<open>What the relay follows\<close>

text \<open>
  \<open>pend\<close> is what the host has still to send on the connection, in lines; a line that is there is
  received, and until then the connection is up.  Writing a request brings the answer of the host.
\<close>

definition secure_law :: "'w secure \<Rightarrow> ('w \<Rightarrow> string list) \<Rightarrow> (string \<Rightarrow> string list) \<Rightarrow> bool" where
  "secure_law C pend host \<longleftrightarrow>
     (\<forall>w. pend w \<noteq> [] \<longrightarrow>
        (case sc_connected C w of (up, w1) \<Rightarrow> up \<and> pend w1 = pend w) \<and>
        (case sc_line C w of (l, w1) \<Rightarrow> l = hd (pend w) \<and> pend w1 = tl (pend w))) \<and>
     (\<forall>w w1 r. sc_connect C tls_host 443 w = (True, w1) \<longrightarrow> pend (sc_print C r w1) = host r)"

lemma secure_next:
  assumes "secure_law C pend host" "pend w = l # ls"
  shows "\<exists>w1. sc_connected C w = (True, w1) \<and> pend w1 = l # ls" "\<exists>w1. sc_line C w = (l, w1) \<and> pend w1 = ls"
proof -
  have "pend w \<noteq> [] \<longrightarrow> (case sc_connected C w of (up, w1) \<Rightarrow> up \<and> pend w1 = pend w) \<and>
      (case sc_line C w of (l, w1) \<Rightarrow> l = hd (pend w) \<and> pend w1 = tl (pend w))"
    using assms(1) [unfolded secure_law_def, THEN conjunct1, rule_format, of w] by simp
  then show "\<exists>w1. sc_connected C w = (True, w1) \<and> pend w1 = l # ls" "\<exists>w1. sc_line C w = (l, w1) \<and> pend w1 = ls"
    using assms(2) by (auto split: prod.splits)
qed

lemma skip_head_ends:
  assumes law: "secure_law C pend host"
  shows "pend w = hs @ [CR] # rest \<Longrightarrow> [CR] \<notin> set hs \<Longrightarrow> \<exists>w1. skip_head C w = Some w1 \<and> pend w1 = rest"
proof (induction hs arbitrary: w)
  case Nil
  obtain w1 where w1: "sc_connected C w = (True, w1)" "pend w1 = [CR] # rest"
    using secure_next(1) [OF law, of w] Nil by auto
  obtain w2 where "sc_line C w1 = ([CR], w2)" "pend w2 = rest" using secure_next(2) [OF law w1(2)] by blast
  then show ?case using w1 by (simp add: skip_head.simps [of C w])
next
  case (Cons h hs)
  obtain w1 where w1: "sc_connected C w = (True, w1)" "pend w1 = h # hs @ [CR] # rest"
    using secure_next(1) [OF law, of w] Cons by auto
  obtain w2 where "sc_line C w1 = (h, w2)" "pend w2 = hs @ [CR] # rest" using secure_next(2) [OF law w1(2)] by blast
  then show ?case using w1 Cons by (auto simp: skip_head.simps [of C w])
qed

lemma fetch_line_answer:
  assumes law: "secure_law C pend host" and up: "sc_connect C tls_host 443 w = (True, w1)"
    and page: "host (tls_request url) = hs @ [CR] # line # rest" "[CR] \<notin> set hs"
  shows "\<exists>w2. fetch_line C url w = Some (Some line, w2)"
proof -
  have "pend (sc_print C (tls_request url) w1) = hs @ [CR] # line # rest"
    using law up page(1) by (simp add: secure_law_def)
  then obtain w2 where w2: "skip_head C (sc_print C (tls_request url) w1) = Some w2" "pend w2 = line # rest"
    using skip_head_ends [OF law] page(2) by blast
  obtain w3 where "sc_line C w2 = (line, w3)" using secure_next(2) [OF law w2(2)] by blast
  then show ?thesis using up w2 by (simp add: fetch_line_def fetch_from_def)
qed

text \<open>Without a connection neither the relay changes nor is there a restart.\<close>

lemma no_connection:
  assumes "\<forall>w. \<not> fst (sc_connect C tls_host 443 w)"
  shows "\<exists>w. stav_rele C s = Some (s\<lparr>tl_net := w\<rparr>)" "\<exists>w. tls_restart C s = Some (s\<lparr>tl_net := w\<rparr>, False)"
proof -
  obtain w1 where "sc_connect C tls_host 443 (tl_net s) = (False, w1)"
    using assms by (metis (full_types) prod.collapse)
  then have "fetch_line C url (tl_net s) = Some (None, w1)" for url by (simp add: fetch_line_def fetch_from_def)
  then show "\<exists>w. stav_rele C s = Some (s\<lparr>tl_net := w\<rparr>)" "\<exists>w. tls_restart C s = Some (s\<lparr>tl_net := w\<rparr>, False)"
    by (auto simp: stav_rele_def tls_restart_def)
qed

lemma relay_follows:
  assumes "secure_law C pend host" "sc_connect C tls_host 443 (tl_net s) = (True, w1)"
    and "host (tls_request ''/values/stav.txt'') = hs @ [CR] # line # rest" "[CR] \<notin> set hs"
  shows "\<exists>w2. stav_rele C s =
    Some (s\<lparr>tl_net := w2, rele := (if line = ''ZAP'' then False else if line = ''VYP'' then True else rele s)\<rparr>)"
proof -
  obtain w2 where "fetch_line C ''/values/stav.txt'' (tl_net s) = Some (Some line, w2)"
    using fetch_line_answer [OF assms] by blast
  then show ?thesis by (intro exI [of _ "sc_stop C w2"]) (simp add: stav_rele_def)
qed

text \<open>A file whose line ends in CR LF is not understood: the relay stays as it is.\<close>

lemma crlf_state_ignored:
  assumes "secure_law C pend host" "sc_connect C tls_host 443 (tl_net s) = (True, w1)"
    and "host (tls_request ''/values/stav.txt'') = hs @ [CR] # (''ZAP'' @ [CR]) # rest" "[CR] \<notin> set hs"
  shows "\<exists>w2. stav_rele C s = Some (s\<lparr>tl_net := w2\<rparr>)"
  using relay_follows [OF assms] by simp

text \<open>A restart needs the text and a second connection, on which it was confirmed.\<close>

lemma restart_needs_text:
  "tls_restart C s = Some (s1, True) \<Longrightarrow>
     \<exists>w w1. fetch_line C ''/values/reset.txt'' (tl_net s) = Some (Some ''RST'', w) \<and>
       sc_connect C tls_host 443 (sc_stop C w) = (True, w1) \<and>
       tl_net s1 = sc_print C (tls_request ''/esp32/potvrdreset.php'') w1"
  by (auto simp: tls_restart_def split: if_splits prod.splits bool.splits)

text \<open>A turn of \<open>loop\<close> that finds the network down sixty times restarts the board and asks nothing.\<close>

lemma sixty_looks:
  assumes "\<forall>k < 60. k < length sts \<and> \<not> sts ! k"
  shows "psk_loop C m ssid True up2 sts rssi s = Some (s\<lparr>tl_rssi := rssi, pocitadlo := 60\<rparr>, True)"
  using wait_restarts [of 0 sts] assms by (simp add: psk_loop_def psk_network_def tls_turn_def)

section \<open>A host in memory\<close>

text \<open>A concrete client for which the assumption holds: its world is the lines to come.\<close>

definition lines_client :: "(string \<Rightarrow> string list) \<Rightarrow> string list secure" where
  "lines_client host =
     \<lparr>sc_connect = (\<lambda>h p w. (True, [])), sc_print = (\<lambda>r w. host r), sc_connected = (\<lambda>w. (w \<noteq> [], w)),
      sc_line = (\<lambda>w. (case w of [] \<Rightarrow> ([], []) | l # ls \<Rightarrow> (l, ls))), sc_stop = (\<lambda>w. [])\<rparr>"

lemma lines_client_law: "secure_law (lines_client host) (\<lambda>w. w) host"
  by (auto simp: secure_law_def lines_client_def split: list.split)

end
