(* ===== verification/Scan_Sketches.thy ===== *)
theory Scan_Sketches
  imports Sketch_Base Wifi_Scan Wifi_Queries
begin

text \<open>
  The example sketches of the WiFi library that look for a network: the printed list of a scan
  (\<open>WiFiScan\<close>), the choice among known networks (\<open>WiFiMulti\<close>) and the network told by a telephone
  (\<open>WiFiSmartConfig\<close>).
\<close>

section \<open>A list of networks (\<open>WiFiScan\<close>)\<close>

definition net_line :: "nat \<Rightarrow> string \<Rightarrow> int \<Rightarrow> nat \<Rightarrow> string" where
  "net_line i ssid rssi auth =
     dec (i + 1) @ '': '' @ ssid @ '' ('' @ dec_int rssi @ '')'' @ (if auth = WIFI_AUTH_OPEN then '' '' else ''*'')"

definition scan_line :: "'f wifi_scanner \<Rightarrow> nat \<Rightarrow> string" where
  "scan_line sc i =
     net_line i (scan_SSID (word_of_nat i) sc) (scan_RSSI (word_of_nat i) sc) (encryptionType (word_of_nat i) sc)"

definition scan_lines :: "int \<Rightarrow> 'f wifi_scanner \<Rightarrow> string list" where
  "scan_lines n sc =
     (if n = 0 then [''no networks found'']
      else (dec_int n @ '' networks found'') # map (scan_line sc) [0..<nat n])"

definition scan_sketch_setup :: "esp \<Rightarrow> 'f wifi_scanner \<Rightarrow> 'f wifi_scanner" where
  "scan_sketch_setup E = on_wifi (\<lambda>w. snd (sta_disconnect E False False (snd (wifi_mode E WIFI_MODE_STA w))))"

definition scan_sketch_loop :: "scan_env \<Rightarrow> 'f wifi_scanner \<Rightarrow> string list \<times> 'f wifi_scanner" where
  "scan_sketch_loop E sc =
     (case scanNetworks E False 300 sc of
        (n, sc1) \<Rightarrow> ([''scan start'', ''scan done''] @ scan_lines n sc1 @ [[]], sc1))"

text \<open>A scan that fails is reported as a number of networks.\<close>

lemma failed_scan_counts:
  assumes "\<not> bit_set WIFI_SCANNING_BIT sc" "\<not> se_start E"
  shows "fst (scan_sketch_loop E sc) = [''scan start'', ''scan done'', ''-2 networks found'', []]"
proof -
  have "fst (scanNetworks E False 300 sc) = -2" using assms by (simp add: scanNetworks_def Let_def WIFI_SCAN_FAILED_def)
  moreover have "dec_int (-2) = ''-2''" by (simp add: dec_int_def dec.simps digit_def char_of_def bit_0)
  ultimately show ?thesis
    by (cases "scanNetworks E False 300 sc") (simp add: scan_sketch_loop_def scan_lines_def)
qed

text \<open>Up to 255 records are listed as they were found, each behind its number.\<close>

lemma found_record: "sc_result sc = Some rs \<Longrightarrow> sc_count sc = length rs \<Longrightarrow> i < length rs \<Longrightarrow> i < 256 \<Longrightarrow>
    found (word_of_nat i) f none sc = f (rs ! i)"
  by (simp add: found_def scan_item_def getScanInfoByIndex_def unat_of_nat)

lemma records_listed:
  assumes "sc_result sc = Some rs" "sc_count sc = length rs" "length rs < 256"
  shows "map (scan_line sc) [0..<length rs] =
    map (\<lambda>(i, r). net_line i (cstr (nr_ssid r)) (nr_rssi r) (nr_authmode r)) (List.enumerate 0 rs)"
  using assms
  by (intro nth_equalityI)
    (simp_all add: scan_line_def scan_SSID_def scan_RSSI_def encryptionType_def found_record nth_enumerate_eq)

section \<open>One of several networks (\<open>WiFiMulti\<close>)\<close>

definition multi_sketch_aps :: "ap_entry list" where
  "multi_sketch_aps =
     snd (addAP (Some ''ssid_from_AP_3'') (Some ''your_password_for_AP_3'')
       (snd (addAP (Some ''ssid_from_AP_2'') (Some ''your_password_for_AP_2'')
         (snd (addAP (Some ''ssid_from_AP_1'') (Some ''your_password_for_AP_1'') [])))))"

text \<open>What one call of \<open>run\<close> prints, and the calls it makes; \<open>None\<close> is a wait whose answers run out.\<close>

definition multi_sketch_setup :: "multi_env \<Rightarrow> (bool \<times> multi_call list) option" where
  "multi_sketch_setup E =
     map_option (\<lambda>(st, cs). (st = wl_code WL_CONNECTED_STATUS, cs)) (multi_run E multi_sketch_aps 5000)"

definition multi_sketch_loop :: "multi_env \<Rightarrow> (string option \<times> multi_call list) option" where
  "multi_sketch_loop E =
     map_option (\<lambda>(st, cs). (if st \<noteq> wl_code WL_CONNECTED_STATUS then Some ''WiFi not connected!'' else None, cs))
       (multi_run E multi_sketch_aps 5000)"

text \<open>While the station stays on one of the three networks nothing is called and nothing printed.\<close>

lemma multi_stays:
  "me_status E = wl_code WL_CONNECTED_STATUS \<Longrightarrow> me_ssid E \<in> ae_ssid ` set multi_sketch_aps \<Longrightarrow>
     multi_sketch_loop E = Some (None, [])"
  by (auto simp: multi_sketch_loop_def multi_run_def Let_def)

section \<open>The network from a telephone (\<open>WiFiSmartConfig\<close>)\<close>

text \<open>
  The wait for SmartConfig: what its callback was told before each look; \<open>None\<close> if no look in the
  list finds it done.
\<close>

fun smart_wait :: "smart_status list list \<Rightarrow> 'f smart \<Rightarrow> 'f smart option" where
  "smart_wait [] s = None"
| "smart_wait (told # later) s =
     (let s1 = fold smartConfigCallback told s in if smartConfigDone s1 then Some s1 else smart_wait later s1)"

definition smart_setup :: "esp \<Rightarrow> bool \<Rightarrow> smart_status list list \<Rightarrow> 'f smart \<Rightarrow> 'f smart option" where
  "smart_setup E ok told s =
     smart_wait told (snd (beginSmartConfig E ok (s\<lparr>sm_wifi := snd (wifi_mode E WIFI_MODE_APSTA (sm_wifi s))\<rparr>)))"

text \<open>Once SmartConfig is not running the wait has no end.\<close>

lemma not_running_stays: "\<not> sm_started s \<Longrightarrow> \<not> sm_started (smartConfigCallback st s)"
  by (cases st) (simp_all add: smartConfigCallback_def stopSmartConfig_def)

lemma never_running: "\<not> sm_started s \<Longrightarrow> \<not> sm_started (fold smartConfigCallback told s)"
  by (induction told arbitrary: s) (simp_all add: not_running_stays)

lemma wait_without_smart: "\<not> sm_started s \<Longrightarrow> smart_wait told s = None"
proof (induction told arbitrary: s)
  case (Cons t told)
  then show ?case using never_running [of s t] by (simp add: smartConfigDone_def Let_def)
qed simp

lemma failed_begin_waits_for_ever:
  "fst (beginSmartConfig E False s) = False \<and> (\<not> sm_started s \<longrightarrow> smart_wait told (snd (beginSmartConfig E False s)) = None)"
  by (auto simp: beginSmartConfig_def Let_def wait_without_smart split: prod.splits bool.splits)

text \<open>The end is found by a look between the link and its end, and missed when both come between two looks.\<close>

lemma link_is_found:
  "sm_started s \<Longrightarrow> \<exists>s1. smart_wait ([SC_LINK conf] # told) s = Some s1 \<and> sm_done s1"
  by (simp add: smartConfigCallback_def smartConfigDone_def)

lemma link_over_is_missed: "sm_started s \<Longrightarrow> smart_wait ([SC_LINK conf, SC_LINK_OVER True] # told) s = None"
  by (simp add: smartConfigCallback_def stopSmartConfig_def smartConfigDone_def wait_without_smart)

end
