(* ===== verification/Spec2Isabelle.thy ===== *)
theory Spec2Isabelle
  imports Http_Response Dns_Server Command_Facts Button_Scan Station_Table Connection_Control Crt_Bundle Ftp_Client Web_Handlers
    Remote_Facts Lock_Facts Wifi_Server Wifi_Udp Wifi_Ends Wifi_Ethernet Http_Rest Http_Over_Tcp Key_Download Ftp_Files
    Sd_Facts Fs_Sketch Web_Sketches Event_Sketches Tcp_Sketches Tls_Sketches Scan_Sketches
begin

text \<open>
  \<^bold>\<open>WSKey32, a WiFi lock\<close>

  The program under \<open>src/\<close> is the firmware of an ESP32 that switches the relay of a lock.  It opens a
  WiFi access point with a captive portal, serves pages and commands over HTTP, joins another access
  point as a station, and polls a \<^emph>\<open>transponder\<close>, a PHP script on a web server that queues commands
  of remote users.  A command is carried out when its key is a master key or one of at most a hundred
  stored keys.  A button opens the lock by hand; another resets the settings.  The settings and the
  keys are one structure that is copied to an emulated EEPROM.

  How the parts meet: a 10 ms interrupt (\<open>scan_keys\<close>) and the main loop (\<open>loop\<close>) share the globals;
  \<open>loop\<close> serves names and pages and polls the transponder; a page's handler, the login and a polled
  line all end in \<open>SWparser::process\<close>, which alone checks keys and changes settings; the WiFi driver
  calls back into the connection control and the table of stations.

  \<^bold>\<open>Theories and sources\<close>

  Vocabulary.
  \<^item> \<^verbatim>\<open>Prelude\<close>: names of types, fact collections, lemmas on lists and words, and the locales
    \<open>invariant_steps\<close>, \<open>simulation\<close> and \<open>stream_reader\<close> that the components are interpreted in.
  \<^item> \<^verbatim>\<open>Arduino_String\<close>, \<^verbatim>\<open>Arduino_Numbers\<close>: the Arduino \<open>String\<close> class, \<open>IPAddress\<close> and the C
    functions on texts and numbers.  \<^verbatim>\<open>Php_Text\<close>: PHP's strings and files.  \<^verbatim>\<open>Field_Lines\<close>:
    lines of named fields.

  Settings, keys and commands (\<open>SWparser.cpp\<close>, \<open>SWparser.h\<close>, \<open>global.h\<close>).
  \<^item> \<^verbatim>\<open>Flash_Layout\<close>: the structure \<open>SWdata\<close> and its bytes; the locale \<open>nonvolatile\<close>.
    \<^verbatim>\<open>Settings_Store\<close>: loading, saving, first start.
  \<^item> \<^verbatim>\<open>Key_Store\<close>: the array of keys; it refines a bounded map (locale \<open>key_registry\<close>).
    \<^verbatim>\<open>Key_Download\<close>: keys from a file of another host.
  \<^item> \<^verbatim>\<open>Device\<close>: the globals that the parts share, with the calls of the driver in order.
  \<^item> \<^verbatim>\<open>Command_Language\<close>, \<^verbatim>\<open>Command_Process\<close>: recognising a command, and \<open>process\<close>.
    \<^verbatim>\<open>Command_Facts\<close>: who may change what, and what is in flash when a command answers.

  The board (\<open>WSKey32.ino\<close>).
  \<^item> \<^verbatim>\<open>Button_Scan\<close>: the interrupt.  \<^verbatim>\<open>Station_Table\<close>: the table of stations.
    \<^verbatim>\<open>Connection_Control\<close>: the driver's events and \<open>loop\<close>.  \<^verbatim>\<open>Setup\<close>: \<open>setup\<close>, step by step on
    the globals, and \<open>configAP\<close>.

  The web server (\<open>replace_lib/WebServer/src\<close>, \<open>handlehttp.cpp\<close>, \<open>OTA.cpp\<close>, \<open>DNSServer.cpp\<close>).
  \<^item> \<^verbatim>\<open>Http_Args\<close>, \<^verbatim>\<open>Http_Upload\<close>, \<^verbatim>\<open>Http_Routing\<close>, \<^verbatim>\<open>Http_Request\<close>: reading a request
    (\<open>Parsing.cpp\<close>, \<open>detail\<close>); \<^verbatim>\<open>Http_Over_Tcp\<close>: its lines are those that arrive at the TCP
    client.  \<^verbatim>\<open>Http_Response\<close>, \<^verbatim>\<open>Http_Rest\<close>: answering, authentication,
    opening and closing (\<open>WebServer.cpp\<close>).
  \<^item> \<^verbatim>\<open>Web_Handlers\<close>: the callbacks of the pages.  \<^verbatim>\<open>Dns_Server\<close>: the portal's name server.

  Remote control (\<open>SW_http.cpp\<close>, \<open>WSKey32.ino\<close>, \<open>transponder.h\<close>, \<open>FTPClient.cpp\<close>, \<open>esp_crt_bundle.c\<close>).
  \<^item> \<^verbatim>\<open>Remote_Client\<close>: the lock's requests.  \<^verbatim>\<open>Transponder_Script\<close>: the PHP script.
    \<^verbatim>\<open>Transponder_Facts\<close>, \<^verbatim>\<open>Remote_Facts\<close>: the way of a command from a user's page to the lock and
    of its answer back.
  \<^item> \<^verbatim>\<open>Ftp_Client\<close>, \<^verbatim>\<open>Ftp_Files\<close>: the FTP client and the upload of the script.
  \<^item> \<^verbatim>\<open>Crt_Bundle\<close>: the search for a root certificate.

  The WiFi library (\<open>replace_lib/WiFi/src\<close>).
  \<^item> \<^verbatim>\<open>Wifi_Driver\<close>, \<^verbatim>\<open>Wifi_Queries\<close>: modes, events, access point, station, resolver
    (\<open>WiFiGeneric.cpp\<close>, \<open>WiFiAP.cpp\<close>, \<open>WiFiSTA.cpp\<close>, \<open>WiFi.cpp\<close>).  \<^verbatim>\<open>Wifi_Scan\<close>: \<open>WiFiScan.cpp\<close> and
    \<open>WiFiMulti.cpp\<close>.  \<^verbatim>\<open>Wifi_Ethernet\<close>: \<open>ETH.cpp\<close>.
  \<^item> \<^verbatim>\<open>Wifi_Rx\<close>, \<^verbatim>\<open>Wifi_Client\<close>, \<^verbatim>\<open>Wifi_Ends\<close>: \<open>WiFiClient.cpp\<close>.  \<^verbatim>\<open>Wifi_Server\<close>:
    \<open>WiFiServer.cpp\<close>.  \<^verbatim>\<open>Wifi_Udp\<close>: \<open>WiFiUdp.cpp\<close>.

  The example sketches, programs of their own on the two libraries (\<open>replace_lib/WebServer/examples\<close>,
  \<open>replace_lib/WiFi/examples\<close>, \<open>openssl-1.0.2q-x64_86-win64\<close>).
  \<^item> \<^verbatim>\<open>Sketch_Base\<close>: a file system as a record of its calls, and the server and files of a sketch.
    \<^verbatim>\<open>Sd_Sketch\<close>, \<^verbatim>\<open>Sd_Facts\<close>: \<open>SDWebServer\<close>, on a tree of files.  \<^verbatim>\<open>Fs_Sketch\<close>:
    \<open>FSBrowser\<close>, on a flat file system.  \<^verbatim>\<open>Web_Sketches\<close>: the small servers.
  \<^item> \<^verbatim>\<open>Event_Sketches\<close>, \<^verbatim>\<open>Tcp_Sketches\<close>, \<^verbatim>\<open>Scan_Sketches\<close>: the sketches of the WiFi library.
    \<^verbatim>\<open>Tls_Sketches\<close>: the relays told by a server over TLS.

  The whole: \<^verbatim>\<open>Lock_System\<close> takes the ticks, turns, requests, files, polls and driver events as the
  inputs of one system, with restarts and losses of power; \<^verbatim>\<open>Lock_Facts\<close> states what holds in every
  run of it.

  \<^bold>\<open>How the code is represented\<close>

  A structure or class is a record with the source's members, a function a definition of its name on
  the state it changes; an overload or a clash with a library name gets a prefix or suffix.  Members
  of a fixed width are words where they can wrap, otherwise integers kept in range.  A text is the
  list of its bytes, and \<open>cstr\<close> cuts it at its zero byte.  Errors are values: \<open>Restart\<close> and
  \<open>Null_pointer\<close> of \<open>outcome\<close> are a restart of the controller and a fault; \<open>None\<close> is undefined
  behaviour, or a call that does not return, as the definition's text says.

  Loops over what is there are recursive functions.  Loops that wait for something are partial
  functions whose value is \<open>None\<close> when they never end (receive buffer, flushing, upload bytes,
  lines of a request, listings, key files), or take what they meet in turn as a list; \<open>parseRequest\<close> takes fuel,
  and a request that is complete needs no more than the theorems give it.  Bounds of the code that
  the theorems rest on: 100 keys of seven bytes, 10 stations, 1436 bytes of an upload, 1460 bytes of a
  datagram, 10 attempts to write, 128 lines of a listing.

  \<^bold>\<open>What the lemmas show\<close>

  \<^item> Authority: a refused key changes nothing, an ordinary key only moves the relay, a black-listed key
    stays refused; in every run the relay is opened by the button or an accepted key alone
    (\<^verbatim>\<open>Command_Facts\<close>, \<^verbatim>\<open>Key_Store\<close>, \<^verbatim>\<open>Web_Handlers\<close>, \<^verbatim>\<open>Lock_Facts\<close>).
  \<^item> Persistence: what a command changed is in flash, with the exceptions named; what is saved is what the
    next start works with; the settings stay well formed through any run (\<^verbatim>\<open>Settings_Store\<close>, \<^verbatim>\<open>Setup\<close>, \<^verbatim>\<open>Lock_Facts\<close>).
  \<^item> Refinement: the key array is a bounded map, the receive buffer a byte stream, the upload buffer a
    file, datagrams the pieces of a packet (\<^verbatim>\<open>Key_Store\<close>, \<^verbatim>\<open>Wifi_Rx\<close>, \<^verbatim>\<open>Http_Upload\<close>,
    \<^verbatim>\<open>Wifi_Udp\<close>).
  \<^item> Reading back: forms and requests in every encoding of their characters, chunked pages, command lines
    and settings are read as they were written (\<^verbatim>\<open>Http_Request\<close>, \<^verbatim>\<open>Http_Response\<close>, \<^verbatim>\<open>Command_Facts\<close>, \<^verbatim>\<open>Remote_Facts\<close>).
  \<^item> Files of the sketches: deleting takes exactly a subtree, or nothing where entries are named by paths, an upload leaves the file that was sent, a
    listing arrives entry by entry (\<^verbatim>\<open>Sd_Facts\<close>, \<^verbatim>\<open>Fs_Sketch\<close>, \<^verbatim>\<open>Web_Sketches\<close>).
  \<^item> Time: the relay's interval, the watchdog, the attempts to connect, and the loops that do not end
    (\<^verbatim>\<open>Button_Scan\<close>, \<^verbatim>\<open>Connection_Control\<close>, \<^verbatim>\<open>Http_Request\<close>, \<^verbatim>\<open>Wifi_Client\<close>, \<^verbatim>\<open>Ftp_Files\<close>).

  \<^bold>\<open>What is assumed of other code\<close>

  The ESP-IDF, lwIP, mbedTLS, the \<open>Update\<close> library, the web server that runs the script and the texts
  of the pages are arguments.  Where a theorem rests on their behaviour it names it:
  \<^item> \<open>tcp_law\<close>, \<open>send_law\<close>: bytes arrive and are sent in order and once; \<open>prompt_law\<close>: what has arrived
    is delivered; \<open>socket_law\<close>: a new descriptor was not in use, and only closing gives it back;
    \<open>sendto_law\<close>: datagrams are kept in order; \<open>cbuf_law\<close>: the byte queue is one.
  \<^item> \<open>answers_with\<close>, \<open>host_answers\<close>: a host sends back what the script prints, or the key file.
    \<open>numeric_law\<close>: PHP compares texts as numbers only where they hold no semicolon.
  \<^item> \<open>quiet\<close>: no client of the web server is served while the lock waits for the network.  \<open>env_ok\<close>:
    what is served, loaded or uploaded meanwhile keeps the settings well formed; \<open>network_env_ok\<close> of
    \<^verbatim>\<open>Lock_Facts\<close> shows it of the program's own loading, uploading and serving of commands.  \<open>esp_ok\<close>: the
    calls of the driver succeed.
  \<^item> \<open>disk_law\<close>, \<open>write_law\<close>, \<open>flat_law\<close>: the calls on a card or in the flash act on a tree, or on a table,
    of files.  What \<open>File::name\<close> answers differs between the versions of the file library, and the sketches
    disagree on it; the model of the SD card follows both.  \<open>secure_law\<close>: the lines a host sends are those received.
  Each has a concrete instance in a witness or, for the sketches, a system in memory that satisfies it.

  In \<^verbatim>\<open>Lock_System\<close> a handler is one step.  The interrupt runs between steps there, so what it does in
  the middle of a handler is seen before or after it.  PHP numbers are integers and lines end in a
  line feed.

  \<^bold>\<open>Not modelled\<close>

  \<^item> The texts and graphics of the pages, the serial output, delays and pin set-up: no decision depends
    on them.
  \<^item> The HTML of the guest form and the copies of the script under \<open>TRANSPONDER GUEST FORM\<close> and
    \<open>lock.php\<close>, which are earlier states of \<open>transponder.h\<close> or pages around it.
  \<^item> Of the example sketches: the certificates, what is only printed while they start, and the waits
    of \<open>setup\<close> for a network that have no bound.
  \<^item> Running out of memory, except where the code goes on with a null pointer.
\<close>

end
